(* ===== verification/Prelude.thy ===== *)
theory Prelude
  imports Main "HOL-Library.Word" "HOL-Library.Monad_Syntax"
begin

text \<open>
  Shared vocabulary of the development.

  The C types of \<^verbatim>\<open>StdTypes.h\<close> keep their width (\<open>U8_t\<close> is \<open>8 word\<close>, and so on), a pointer to an
  object of the OS heap is its address, a natural number, and \<open>NULL\<close> is 0.

  A function of the kernel is a state transformer into \<open>option\<close>: \<open>Some (r, s')\<close> is a normal return
  with result \<open>r\<close> in state \<open>s'\<close>; \<open>None\<close> says that the call does not return normally, because the code
  dereferences a null or dangling pointer, leaves the bounds of an array, loops forever or enters one
  of its \<^verbatim>\<open>while(1)\<close> traps. The do-notation of \<open>Monad_Syntax\<close> over \<open>option\<close> threads the state.
\<close>

unbundle bit_operations_syntax

type_synonym U8_t = "8 word"
type_synonym S8_t = "8 word"
type_synonym U16_t = "16 word"
type_synonym U32_t = "32 word"
type_synonym U64_t = "64 word"

type_synonym ptr = nat

abbreviation (input) NULL :: ptr where "NULL \<equiv> 0"

text \<open>
  The address of a \<^verbatim>\<open>LinkedList_t\<close>: null, a static list header of the kernel (the linker gives
  distinct objects distinct addresses, so they are told apart by a number), or the list header
  embedded in the heap object at an address, as \<^verbatim>\<open>&tcb->event_list\<close> is.
\<close>

datatype lptr = LNULL | LStatic nat | LIn ptr

text \<open>The result codes of \<^verbatim>\<open>OsResult.h\<close>, and the integer value the enum gives each of them.\<close>

datatype OsResult_t =
    OS_RES_CRIT_ERROR | OS_RES_ERROR | OS_RES_RESTRICTED | OS_RES_FAIL
  | OS_RES_INVALID_ARGUMENT | OS_RES_INVALID_ID | OS_RES_OK | OS_RES_LOCKED
  | OS_RES_TIMEOUT | OS_RES_POLL | OS_RES_EVENT

fun OsResult_code :: "OsResult_t \<Rightarrow> int" where
  "OsResult_code OS_RES_CRIT_ERROR = -6"
| "OsResult_code OS_RES_ERROR = -5"
| "OsResult_code OS_RES_RESTRICTED = -4"
| "OsResult_code OS_RES_FAIL = -3"
| "OsResult_code OS_RES_INVALID_ARGUMENT = -2"
| "OsResult_code OS_RES_INVALID_ID = -1"
| "OsResult_code OS_RES_OK = 0"
| "OsResult_code OS_RES_LOCKED = 1"
| "OsResult_code OS_RES_TIMEOUT = 2"
| "OsResult_code OS_RES_POLL = 3"
| "OsResult_code OS_RES_EVENT = 4"

instantiation OsResult_t :: linorder
begin

definition less_eq_OsResult_t :: "OsResult_t \<Rightarrow> OsResult_t \<Rightarrow> bool" where
  "less_eq_OsResult_t x y \<longleftrightarrow> OsResult_code x \<le> OsResult_code y"

definition less_OsResult_t :: "OsResult_t \<Rightarrow> OsResult_t \<Rightarrow> bool" where
  "less_OsResult_t x y \<longleftrightarrow> OsResult_code x < OsResult_code y"

instance
proof
  fix x y z :: OsResult_t
  show "(x < y) = (x \<le> y \<and> \<not> y \<le> x)"
    by (auto simp: less_eq_OsResult_t_def less_OsResult_t_def)
  show "x \<le> x"
    by (simp add: less_eq_OsResult_t_def)
  show "x \<le> y \<Longrightarrow> y \<le> z \<Longrightarrow> x \<le> z"
    by (simp add: less_eq_OsResult_t_def)
  show "x \<le> y \<Longrightarrow> y \<le> x \<Longrightarrow> x = y"
    by (cases x; cases y) (simp_all add: less_eq_OsResult_t_def)
  show "x \<le> y \<or> y \<le> x"
    by (auto simp: less_eq_OsResult_t_def)
qed

end

subsection \<open>Collections of rewrite rules\<close>

named_theorems kcore \<open>effect of the kernel-register operations in a sane state\<close>
named_theorems klist \<open>effect of the list operations on well-formed lists\<close>
named_theorems kmem \<open>effect of the memory operations in a well-formed heap\<close>

subsection \<open>Words\<close>

lemma unat_inc:
  assumes "unat (w :: 'a::len word) < 2 ^ LENGTH('a) - 1"
  shows "unat (w + 1) = unat w + 1"
  using assms by (subst unat_word_ariths) (simp add: unat_word_ariths mod_less less_diff_conv)

lemma unat_inc_max:
  "(w :: 'a::len word) \<noteq> - 1 \<Longrightarrow> unat (w + 1) = unat w + 1"
  using unatSuc [of w] by (simp add: add.commute eq_neg_iff_add_eq_0)

lemma U32_less: "unat (w :: U32_t) < 4294967296"
proof -
  have "unat w < 2 ^ 32" using unsigned_less [of w] by simp
  then show ?thesis by simp
qed

subsection \<open>Indices of rings\<close>

lemma mod_add_inj:
  assumes "(a + i) mod n = (a + j) mod n" and "i < n" and "(j :: nat) < n"
  shows "i = j"
proof -
  have "i' = j'" if "(a + i') mod n = (a + j') mod n" "i' < n" "j' \<le> i'" for i' j'
  proof -
    have "n dvd (a + i') - (a + j')" using that by (subst mod_eq_dvd_iff_nat [symmetric]) auto
    then show ?thesis using that by (auto dest: dvd_imp_le)
  qed
  from this [of i j] this [of j i] show ?thesis using assms by (cases "j \<le> i") auto
qed

subsection \<open>Lists and maps\<close>

lemma hd_append_if: "hd (xs @ ys) = (if xs = [] then hd ys else hd xs)"
  by simp

lemma last_append_if: "last (xs @ ys) = (if ys = [] then last xs else last ys)"
  by simp

lemma bind_case_prod_Some [simp]:
  "(Some (a, b) \<bind> (\<lambda>(x, y). f x y)) = f a b"
  by simp

end
