(* ===== verification/Crc32.thy ===== *)
theory Crc32
  imports Prelude
begin

text \<open>
  \<^verbatim>\<open>Crc32.c\<close>: the table-driven CRC of a byte buffer, and its equivalence with the bit-serial
  division by the polynomial 0x04C11DB7 (most significant bit first, no reflection, no final
  inversion).
\<close>

definition Crc32Lut :: "U32_t list" where
  "Crc32Lut = [
     0x00000000, 0x04c11db7, 0x09823b6e, 0x0d4326d9, 0x130476dc, 0x17c56b6b,
     0x1a864db2, 0x1e475005, 0x2608edb8, 0x22c9f00f, 0x2f8ad6d6, 0x2b4bcb61,
     0x350c9b64, 0x31cd86d3, 0x3c8ea00a, 0x384fbdbd, 0x4c11db70, 0x48d0c6c7,
     0x4593e01e, 0x4152fda9, 0x5f15adac, 0x5bd4b01b, 0x569796c2, 0x52568b75,
     0x6a1936c8, 0x6ed82b7f, 0x639b0da6, 0x675a1011, 0x791d4014, 0x7ddc5da3,
     0x709f7b7a, 0x745e66cd, 0x9823b6e0, 0x9ce2ab57, 0x91a18d8e, 0x95609039,
     0x8b27c03c, 0x8fe6dd8b, 0x82a5fb52, 0x8664e6e5, 0xbe2b5b58, 0xbaea46ef,
     0xb7a96036, 0xb3687d81, 0xad2f2d84, 0xa9ee3033, 0xa4ad16ea, 0xa06c0b5d,
     0xd4326d90, 0xd0f37027, 0xddb056fe, 0xd9714b49, 0xc7361b4c, 0xc3f706fb,
     0xceb42022, 0xca753d95, 0xf23a8028, 0xf6fb9d9f, 0xfbb8bb46, 0xff79a6f1,
     0xe13ef6f4, 0xe5ffeb43, 0xe8bccd9a, 0xec7dd02d, 0x34867077, 0x30476dc0,
     0x3d044b19, 0x39c556ae, 0x278206ab, 0x23431b1c, 0x2e003dc5, 0x2ac12072,
     0x128e9dcf, 0x164f8078, 0x1b0ca6a1, 0x1fcdbb16, 0x018aeb13, 0x054bf6a4,
     0x0808d07d, 0x0cc9cdca, 0x7897ab07, 0x7c56b6b0, 0x71159069, 0x75d48dde,
     0x6b93dddb, 0x6f52c06c, 0x6211e6b5, 0x66d0fb02, 0x5e9f46bf, 0x5a5e5b08,
     0x571d7dd1, 0x53dc6066, 0x4d9b3063, 0x495a2dd4, 0x44190b0d, 0x40d816ba,
     0xaca5c697, 0xa864db20, 0xa527fdf9, 0xa1e6e04e, 0xbfa1b04b, 0xbb60adfc,
     0xb6238b25, 0xb2e29692, 0x8aad2b2f, 0x8e6c3698, 0x832f1041, 0x87ee0df6,
     0x99a95df3, 0x9d684044, 0x902b669d, 0x94ea7b2a, 0xe0b41de7, 0xe4750050,
     0xe9362689, 0xedf73b3e, 0xf3b06b3b, 0xf771768c, 0xfa325055, 0xfef34de2,
     0xc6bcf05f, 0xc27dede8, 0xcf3ecb31, 0xcbffd686, 0xd5b88683, 0xd1799b34,
     0xdc3abded, 0xd8fba05a, 0x690ce0ee, 0x6dcdfd59, 0x608edb80, 0x644fc637,
     0x7a089632, 0x7ec98b85, 0x738aad5c, 0x774bb0eb, 0x4f040d56, 0x4bc510e1,
     0x46863638, 0x42472b8f, 0x5c007b8a, 0x58c1663d, 0x558240e4, 0x51435d53,
     0x251d3b9e, 0x21dc2629, 0x2c9f00f0, 0x285e1d47, 0x36194d42, 0x32d850f5,
     0x3f9b762c, 0x3b5a6b9b, 0x0315d626, 0x07d4cb91, 0x0a97ed48, 0x0e56f0ff,
     0x1011a0fa, 0x14d0bd4d, 0x19939b94, 0x1d528623, 0xf12f560e, 0xf5ee4bb9,
     0xf8ad6d60, 0xfc6c70d7, 0xe22b20d2, 0xe6ea3d65, 0xeba91bbc, 0xef68060b,
     0xd727bbb6, 0xd3e6a601, 0xdea580d8, 0xda649d6f, 0xc423cd6a, 0xc0e2d0dd,
     0xcda1f604, 0xc960ebb3, 0xbd3e8d7e, 0xb9ff90c9, 0xb4bcb610, 0xb07daba7,
     0xae3afba2, 0xaafbe615, 0xa7b8c0cc, 0xa379dd7b, 0x9b3660c6, 0x9ff77d71,
     0x92b45ba8, 0x9675461f, 0x8832161a, 0x8cf30bad, 0x81b02d74, 0x857130c3,
     0x5d8a9099, 0x594b8d2e, 0x5408abf7, 0x50c9b640, 0x4e8ee645, 0x4a4ffbf2,
     0x470cdd2b, 0x43cdc09c, 0x7b827d21, 0x7f436096, 0x7200464f, 0x76c15bf8,
     0x68860bfd, 0x6c47164a, 0x61043093, 0x65c52d24, 0x119b4be9, 0x155a565e,
     0x18197087, 0x1cd86d30, 0x029f3d35, 0x065e2082, 0x0b1d065b, 0x0fdc1bec,
     0x3793a651, 0x3352bbe6, 0x3e119d3f, 0x3ad08088, 0x2497d08d, 0x2056cd3a,
     0x2d15ebe3, 0x29d4f654, 0xc5a92679, 0xc1683bce, 0xcc2b1d17, 0xc8ea00a0,
     0xd6ad50a5, 0xd26c4d12, 0xdf2f6bcb, 0xdbee767c, 0xe3a1cbc1, 0xe760d676,
     0xea23f0af, 0xeee2ed18, 0xf0a5bd1d, 0xf464a0aa, 0xf9278673, 0xfde69bc4,
     0x89b8fd09, 0x8d79e0be, 0x803ac667, 0x84fbdbd0, 0x9abc8bd5, 0x9e7d9662,
     0x933eb0bb, 0x97ffad0c, 0xafb010b1, 0xab710d06, 0xa6322bdf, 0xa2f33668,
     0xbcb4666d, 0xb8757bda, 0xb5365d03, 0xb1f740b4]"

text \<open>
  \<^verbatim>\<open>while (len--)\<close> over the bytes of \<open>buf\<close>; a length beyond the buffer reads out of bounds.
\<close>

fun Crc32_loop :: "U32_t \<Rightarrow> U8_t list \<Rightarrow> nat \<Rightarrow> U32_t option" where
  "Crc32_loop crc data 0 = Some crc"
| "Crc32_loop crc [] (Suc len) = None"
| "Crc32_loop crc (d # data) (Suc len) =
     Crc32_loop (push_bit 8 crc XOR Crc32Lut ! unat ((drop_bit 24 crc XOR ucast d) AND 255)) data len"

definition Crc32 :: "U32_t \<Rightarrow> U8_t list \<Rightarrow> U32_t \<Rightarrow> U32_t option" where
  "Crc32 prev_crc buf len = Crc32_loop prev_crc buf (unat len)"

subsection \<open>The bit-serial reference\<close>

definition crc_bit :: "U32_t \<Rightarrow> U32_t" where
  "crc_bit c = (if c AND 0x80000000 \<noteq> 0 then push_bit 1 c XOR 0x04C11DB7 else push_bit 1 c)"

definition crc_byte :: "U32_t \<Rightarrow> U8_t \<Rightarrow> U32_t" where
  "crc_byte c d = (crc_bit ^^ 8) (c XOR push_bit 24 (ucast d))"

definition crc_spec :: "U32_t \<Rightarrow> U8_t list \<Rightarrow> U32_t" where
  "crc_spec c ds = foldl crc_byte c ds"

lemma msb_bit: "(c :: U32_t) AND 0x80000000 \<noteq> 0 \<longleftrightarrow> bit c 31"
  using and_exp_eq_0_iff_not_bit [of c 31] by simp

lemma crc_bit_xor: "crc_bit (a XOR b) = crc_bit a XOR crc_bit b"
  unfolding crc_bit_def msb_bit bit_xor_iff push_bit_xor by (auto simp: ac_simps)
lemma crc_bits_xor: "(crc_bit ^^ n) (a XOR b) = (crc_bit ^^ n) a XOR (crc_bit ^^ n) b"
  by (induction n) (simp_all add: crc_bit_xor)
lemma crc_bits_low: "take_bit 24 c = c \<Longrightarrow> n \<le> 8 \<Longrightarrow> (crc_bit ^^ n) c = push_bit n c"
proof (induction n)
  case (Suc n)
  then have h: "(crc_bit ^^ n) c = push_bit n c" by simp
  have "\<not> bit c (31 - n)"
    using Suc.prems bit_take_bit_iff [of 24 c "31 - n"] by auto
  then have "\<not> bit (push_bit n c) 31" using Suc.prems by (simp add: bit_push_bit_iff)
  then have "crc_bit (push_bit n c) = push_bit (Suc n) c"
    unfolding crc_bit_def msb_bit by (simp only: if_False push_bit_push_bit) simp
  with h show ?case by simp
qed simp
lemma crc_bit_8: "(crc_bit ^^ 8) c = crc_bit (crc_bit (crc_bit (crc_bit (crc_bit (crc_bit (crc_bit (crc_bit c)))))))"
  by (simp add: numeral_eq_Suc)
lemma crc_basis:
  "(crc_bit ^^ 8) (push_bit 24 1) = Crc32Lut ! 1"
  "(crc_bit ^^ 8) (push_bit 24 2) = Crc32Lut ! 2"
  "(crc_bit ^^ 8) (push_bit 24 4) = Crc32Lut ! 4"
  "(crc_bit ^^ 8) (push_bit 24 8) = Crc32Lut ! 8"
  "(crc_bit ^^ 8) (push_bit 24 16) = Crc32Lut ! 16"
  "(crc_bit ^^ 8) (push_bit 24 32) = Crc32Lut ! 32"
  "(crc_bit ^^ 8) (push_bit 24 64) = Crc32Lut ! 64"
  "(crc_bit ^^ 8) (push_bit 24 128) = Crc32Lut ! 128"
  by (simp_all add: crc_bit_8 crc_bit_def Crc32Lut_def)

lemma Crc32Lut_blocks:
  "take 1 (drop 1 Crc32Lut) = map ((XOR) (Crc32Lut ! 1)) (take 1 Crc32Lut)"
  "take 2 (drop 2 Crc32Lut) = map ((XOR) (Crc32Lut ! 2)) (take 2 Crc32Lut)"
  "take 4 (drop 4 Crc32Lut) = map ((XOR) (Crc32Lut ! 4)) (take 4 Crc32Lut)"
  "take 8 (drop 8 Crc32Lut) = map ((XOR) (Crc32Lut ! 8)) (take 8 Crc32Lut)"
  "take 16 (drop 16 Crc32Lut) = map ((XOR) (Crc32Lut ! 16)) (take 16 Crc32Lut)"
  "take 32 (drop 32 Crc32Lut) = map ((XOR) (Crc32Lut ! 32)) (take 32 Crc32Lut)"
  "take 64 (drop 64 Crc32Lut) = map ((XOR) (Crc32Lut ! 64)) (take 64 Crc32Lut)"
  "take 128 (drop 128 Crc32Lut) = map ((XOR) (Crc32Lut ! 128)) (take 128 Crc32Lut)"
  by (simp_all add: Crc32Lut_def)

lemma length_Lut: "length Crc32Lut = 256" by (simp add: Crc32Lut_def)

lemma block_nth:
  assumes "take m (drop m xs) = map f (take m xs)" and "j < m" and "m + m \<le> length xs"
  shows "xs ! (m + j) = f (xs ! j)"
proof -
  have "xs ! (m + j) = take m (drop m xs) ! j" using assms(2,3) by simp
  also have "\<dots> = f (xs ! j)" using assms(2,3) by (simp add: assms(1))
  finally show ?thesis .
qed

lemma push_add_xor:
  assumes "j < 2 ^ k"
  shows "push_bit 24 (word_of_nat (2 ^ k + j)) = push_bit 24 (2 ^ k) XOR push_bit 24 (word_of_nat j :: U32_t)"
proof -
  let ?w = "word_of_nat j :: U32_t"
  have w: "take_bit k ?w = ?w"
    using assms by (simp add: take_bit_nat_eq_self flip: of_nat_take_bit)
  have "\<not> bit ?w k" by (subst w [symmetric]) (simp add: bit_take_bit_iff)
  then have "(2 ^ k) AND ?w = 0"
    by (auto intro!: bit_word_eqI simp: bit_and_iff bit_exp_iff)
  then have "2 ^ k + ?w = (2 ^ k) XOR ?w" by (rule disjunctive_add_eq_xor)
  then show ?thesis by (simp only: of_nat_add of_nat_power of_nat_numeral push_bit_xor)
qed

text \<open>Entry \<open>i\<close> of the table is eight division steps applied to \<open>i\<close> in the top byte.\<close>

lemma Crc32Lut_correct:
  "i < 2 ^ k \<Longrightarrow> k \<le> 8 \<Longrightarrow> Crc32Lut ! i = (crc_bit ^^ 8) (push_bit 24 (word_of_nat i))"
proof (induction k arbitrary: i)
  case 0
  then show ?case using crc_bits_low [of 0 8] by (simp add: Crc32Lut_def)
next
  case (Suc k)
  show ?case
  proof (cases "i < 2 ^ k")
    case True
    with Suc show ?thesis by simp
  next
    case False
    define j where "j = i - 2 ^ k"
    have i: "i = 2 ^ k + j" and j: "j < 2 ^ k" using False Suc.prems(1) by (auto simp: j_def)
    have k: "k \<in> {0, 1, 2, 3, 4, 5, 6, 7}" using Suc.prems(2) by auto
    have len: "2 ^ k + 2 ^ k \<le> length Crc32Lut" using k by (auto simp: length_Lut)
    have "take (2 ^ k) (drop (2 ^ k) Crc32Lut) = map ((XOR) (Crc32Lut ! (2 ^ k))) (take (2 ^ k) Crc32Lut)"
      using k Crc32Lut_blocks by auto
    from block_nth [OF this j len] have "Crc32Lut ! i = Crc32Lut ! (2 ^ k) XOR Crc32Lut ! j"
      by (simp add: i)
    moreover have "Crc32Lut ! (2 ^ k) = (crc_bit ^^ 8) (push_bit 24 (2 ^ k))"
      using k crc_basis by auto
    moreover have "Crc32Lut ! j = (crc_bit ^^ 8) (push_bit 24 (word_of_nat j))"
      using Suc.IH [OF j] Suc.prems(2) by simp
    ultimately show ?thesis
      unfolding i by (simp only: push_add_xor [OF j] crc_bits_xor)
  qed
qed
lemma crc_step:
  "push_bit 8 c XOR Crc32Lut ! unat ((drop_bit 24 c XOR ucast d) AND 255) = crc_byte c d"
proof -
  let ?x = "(drop_bit 24 c XOR ucast (d :: U8_t)) AND 255 :: U32_t"
  have 255: "(255 :: U32_t) = mask 8" by (simp add: mask_eq_exp_minus_1)
  have "unat ?x < 2 ^ 8" unfolding 255
    by (simp only: unsigned_take_bit_eq take_bit_nat_less_exp flip: take_bit_eq_mask)
  then have "Crc32Lut ! unat ?x = (crc_bit ^^ 8) (push_bit 24 ?x)"
    by (subst Crc32Lut_correct [where k = 8]) auto
  moreover have "push_bit 8 c = (crc_bit ^^ 8) (take_bit 24 c)"
    by (subst crc_bits_low) (auto simp: intro!: bit_word_eqI simp: bit_simps)
  moreover have "take_bit 24 c XOR push_bit 24 ?x = c XOR push_bit 24 (ucast d)"
    unfolding 255 by (rule bit_word_eqI) (auto simp: bit_simps dest: bit_imp_le_length)
  ultimately show ?thesis
    by (simp add: crc_byte_def flip: crc_bits_xor)
qed

lemma Crc32_loop_spec:
  "Crc32_loop c ds n = (if n \<le> length ds then Some (crc_spec c (take n ds)) else None)"
  by (induction c ds n rule: Crc32_loop.induct) (auto simp: crc_spec_def crc_step)

text \<open>
  C21. The table-driven CRC computes the bit-serial polynomial division of the first \<open>len\<close> bytes, for every
  buffer that holds them.
\<close>

theorem Crc32_is_polynomial_division:
  "Crc32 crc buf len =
     (if unat len \<le> length buf then Some (crc_spec crc (take (unat len) buf)) else None)"
  by (simp add: Crc32_def Crc32_loop_spec)

text \<open>A buffer may be checked in two runs, the first result feeding the second.\<close>

lemma Crc32_chain:
  assumes "Crc32 crc a (word_of_nat (length a)) = Some c" and "length a + length b < 2 ^ 32"
  shows "Crc32 c b (word_of_nat (length b)) = Crc32 crc (a @ b) (word_of_nat (length a + length b))"
  using assms by (auto simp: Crc32_def Crc32_loop_spec crc_spec_def unat_of_nat simp del: of_nat_add)

end
