(* ===== verification/Core.thy ===== *)
theory Core
  imports Prelude
begin

text \<open>
  The kernel register of \<^verbatim>\<open>Core.c\<close> and the operations on it that every module calls: the register
  lock, critical sections, kernel mode, the interrupt nesting count, the scheduler lock, the status
  flags and the run time. The task switch and the tick are in theory \<open>Kernel\<close>, since they sit above
  the list and task modules.

  The port layer is represented by what the kernel relies on: \<^verbatim>\<open>PortGlobalIntDisable/Enable\<close> clear and
  set \<open>GlobalIntEnabled\<close>. Log output and supervisor mode (\<^verbatim>\<open>PortSuperVisorModeEnable\<close>) have no effect on
  the state. \<open>env_d2u\<close> is a parameter: the value the target's run-time library gives when a \<^verbatim>\<open>double\<close>
  that does not fit is converted to \<^verbatim>\<open>uint32_t\<close> (the C standard leaves it undefined).
\<close>

record Reg_t =
  kr_lock :: U8_t
  kr_prescaler :: U16_t
  kr_f_os :: U16_t
  kr_ovf :: U16_t
  kr_tick_period_us :: U32_t
  kr_tcb_running :: ptr
  kr_tcb_idle :: ptr
  kr_tcb_wait_list :: lptr
  kr_tcb_list :: lptr
  kr_event_list :: lptr
  kr_isr_nest_counter :: U8_t
  kr_crit_sect_nest_counter :: U8_t
  kr_kernel_mode_nest_counter :: U8_t
  kr_scheduler_lock :: U8_t
  kr_sreg :: U16_t
  kr_os_running :: U8_t
  kr_micros :: U32_t
  kr_hours :: U32_t
  kr_t_accu :: U32_t

record core_state =
  KernelReg :: Reg_t
  GlobalIntEnabled :: bool
  env_d2u :: "nat \<Rightarrow> U32_t"

definition USEC_PER_HOUR :: U32_t where "USEC_PER_HOUR = 0xD693A400"

subsection \<open>Flags\<close>

type_synonym CoreFlags_t = U16_t

definition CORE_FLAG_ALL :: CoreFlags_t where "CORE_FLAG_ALL = 0xFFFF"
definition CORE_FLAG_TICK :: CoreFlags_t where "CORE_FLAG_TICK = 0x8000"
definition CORE_FLAG_IDLE :: CoreFlags_t where "CORE_FLAG_IDLE = 0x1000"
definition CORE_FLAG_DISPATCH :: CoreFlags_t where "CORE_FLAG_DISPATCH = 0x0800"
definition CORE_FLAG_KERNEL_MODE :: CoreFlags_t where "CORE_FLAG_KERNEL_MODE = 0x0080"
definition CORE_FLAG_OS_IRQ_EN :: CoreFlags_t where "CORE_FLAG_OS_IRQ_EN = 0x0040"

text \<open>
  The macros \<^verbatim>\<open>KERNEL_REG_LOCK\<close> and \<^verbatim>\<open>KERNEL_REG_UNLOCK\<close>: the body between them runs when the lock
  counter is below 0xFF; at 0xFF the code falls into \<^verbatim>\<open>while(1)\<close>.
\<close>

definition KERNEL_REG_LOCK :: "'a core_state_scheme \<Rightarrow> 'a core_state_scheme option" where
  "KERNEL_REG_LOCK s =
     (if kr_lock (KernelReg s) < 0xFF
      then Some (s\<lparr>KernelReg := (KernelReg s)\<lparr>kr_lock := kr_lock (KernelReg s) + 1\<rparr>\<rparr>)
      else None)"

definition KERNEL_REG_UNLOCK :: "'a core_state_scheme \<Rightarrow> 'a core_state_scheme" where
  "KERNEL_REG_UNLOCK s = s\<lparr>KernelReg := (KernelReg s)\<lparr>kr_lock := kr_lock (KernelReg s) - 1\<rparr>\<rparr>"

definition KCoreFlagSet :: "CoreFlags_t \<Rightarrow> 'a core_state_scheme \<Rightarrow> 'a core_state_scheme option" where
  "KCoreFlagSet flag s = do {
     s \<leftarrow> KERNEL_REG_LOCK s;
     let s = s\<lparr>KernelReg := (KernelReg s)\<lparr>kr_sreg := kr_sreg (KernelReg s) OR flag\<rparr>\<rparr>;
     Some (KERNEL_REG_UNLOCK s)
   }"

definition KCoreFlagClear :: "CoreFlags_t \<Rightarrow> 'a core_state_scheme \<Rightarrow> 'a core_state_scheme option" where
  "KCoreFlagClear flag s = do {
     s \<leftarrow> KERNEL_REG_LOCK s;
     let s = s\<lparr>KernelReg := (KernelReg s)\<lparr>kr_sreg := kr_sreg (KernelReg s) AND NOT flag\<rparr>\<rparr>;
     Some (KERNEL_REG_UNLOCK s)
   }"

definition KCoreFlagGet :: "CoreFlags_t \<Rightarrow> 'a core_state_scheme \<Rightarrow> U16_t" where
  "KCoreFlagGet flag s = (if kr_sreg (KernelReg s) AND flag \<noteq> 0 then 1 else 0)"

subsection \<open>Kernel mode\<close>

definition KCoreKernelModeEnter ::
  "'a core_state_scheme \<Rightarrow> (U8_t \<times> 'a core_state_scheme) option" where
  "KCoreKernelModeEnter s = do {
     s \<leftarrow> (if kr_kernel_mode_nest_counter (KernelReg s) = 0
           then KCoreFlagSet CORE_FLAG_KERNEL_MODE s else Some s);
     let n = kr_kernel_mode_nest_counter (KernelReg s);
     if n < 255
     then Some (n + 1, s\<lparr>KernelReg := (KernelReg s)\<lparr>kr_kernel_mode_nest_counter := n + 1\<rparr>\<rparr>)
     else Some (0, s)
   }"

definition KCoreKernelModeExit ::
  "'a core_state_scheme \<Rightarrow> (U8_t \<times> 'a core_state_scheme) option" where
  "KCoreKernelModeExit s = do {
     s \<leftarrow> (if kr_kernel_mode_nest_counter (KernelReg s) = 1
           then KCoreFlagClear CORE_FLAG_KERNEL_MODE s else Some s);
     let n = kr_kernel_mode_nest_counter (KernelReg s);
     if n > 0
     then Some (n - 1, s\<lparr>KernelReg := (KernelReg s)\<lparr>kr_kernel_mode_nest_counter := n - 1\<rparr>\<rparr>)
     else Some (n, s)
   }"

subsection \<open>Critical sections, interrupt nesting, scheduler lock\<close>

definition OsCritSectBegin :: "'a core_state_scheme \<Rightarrow> 'a core_state_scheme option" where
  "OsCritSectBegin s = do {
     s \<leftarrow> KERNEL_REG_LOCK s;
     let s = (if kr_crit_sect_nest_counter (KernelReg s) < 0xFF
              then s\<lparr>KernelReg := (KernelReg s)\<lparr>kr_crit_sect_nest_counter :=
                      kr_crit_sect_nest_counter (KernelReg s) + 1\<rparr>\<rparr>
              else s);
     let s = (if kr_crit_sect_nest_counter (KernelReg s) = 1
              then s\<lparr>GlobalIntEnabled := False\<rparr> else s);
     Some (KERNEL_REG_UNLOCK s)
   }"

definition OsCritSectEnd :: "'a core_state_scheme \<Rightarrow> 'a core_state_scheme option" where
  "OsCritSectEnd s = do {
     s \<leftarrow> KERNEL_REG_LOCK s;
     let s = (if kr_crit_sect_nest_counter (KernelReg s) > 0
              then s\<lparr>KernelReg := (KernelReg s)\<lparr>kr_crit_sect_nest_counter :=
                      kr_crit_sect_nest_counter (KernelReg s) - 1\<rparr>\<rparr>
              else s);
     let s = (if kr_crit_sect_nest_counter (KernelReg s) = 0
              then s\<lparr>GlobalIntEnabled := True\<rparr> else s);
     Some (KERNEL_REG_UNLOCK s)
   }"

definition OsIsrBegin :: "'a core_state_scheme \<Rightarrow> 'a core_state_scheme option" where
  "OsIsrBegin s = do {
     s \<leftarrow> KERNEL_REG_LOCK s;
     let s = (if kr_isr_nest_counter (KernelReg s) < 127
              then s\<lparr>KernelReg := (KernelReg s)\<lparr>kr_isr_nest_counter :=
                      kr_isr_nest_counter (KernelReg s) + 1\<rparr>\<rparr>
              else s);
     Some (KERNEL_REG_UNLOCK s)
   }"

definition OsIsrEnd :: "'a core_state_scheme \<Rightarrow> 'a core_state_scheme option" where
  "OsIsrEnd s = do {
     s \<leftarrow> KERNEL_REG_LOCK s;
     let s = (if kr_isr_nest_counter (KernelReg s) > 0
              then s\<lparr>KernelReg := (KernelReg s)\<lparr>kr_isr_nest_counter :=
                      kr_isr_nest_counter (KernelReg s) - 1\<rparr>\<rparr>
              else s);
     Some (KERNEL_REG_UNLOCK s)
   }"

definition OsIsrNestCountGet ::
  "'a core_state_scheme \<Rightarrow> (S8_t \<times> 'a core_state_scheme) option" where
  "OsIsrNestCountGet s = do {
     s \<leftarrow> KERNEL_REG_LOCK s;
     let nest_count = kr_isr_nest_counter (KernelReg s);
     Some (nest_count, KERNEL_REG_UNLOCK s)
   }"

definition OsSchedulerLock :: "'a core_state_scheme \<Rightarrow> 'a core_state_scheme option" where
  "OsSchedulerLock s = do {
     s \<leftarrow> KERNEL_REG_LOCK s;
     let s = (if kr_scheduler_lock (KernelReg s) < 255
              then s\<lparr>KernelReg := (KernelReg s)\<lparr>kr_scheduler_lock :=
                      kr_scheduler_lock (KernelReg s) + 1\<rparr>\<rparr>
              else s);
     Some (KERNEL_REG_UNLOCK s)
   }"

definition OsSchedulerUnlock :: "'a core_state_scheme \<Rightarrow> 'a core_state_scheme option" where
  "OsSchedulerUnlock s = do {
     s \<leftarrow> KERNEL_REG_LOCK s;
     let s = (if kr_scheduler_lock (KernelReg s) > 0
              then s\<lparr>KernelReg := (KernelReg s)\<lparr>kr_scheduler_lock :=
                      kr_scheduler_lock (KernelReg s) - 1\<rparr>\<rparr>
              else s);
     Some (KERNEL_REG_UNLOCK s)
   }"

definition OsSchedulerIsLocked ::
  "'a core_state_scheme \<Rightarrow> (bool \<times> 'a core_state_scheme) option" where
  "OsSchedulerIsLocked s = do {
     s \<leftarrow> KERNEL_REG_LOCK s;
     let scheduler_lock = (kr_scheduler_lock (KernelReg s) \<noteq> 0);
     Some (scheduler_lock, KERNEL_REG_UNLOCK s)
   }"

definition OsTickPeriodGet :: "'a core_state_scheme \<Rightarrow> U32_t" where
  "OsTickPeriodGet s = kr_tick_period_us (KernelReg s)"

definition OsFrequencyGet :: "'a core_state_scheme \<Rightarrow> U16_t" where
  "OsFrequencyGet s = kr_f_os (KernelReg s)"

definition OsStop :: "'a core_state_scheme \<Rightarrow> 'a core_state_scheme" where
  "OsStop s = s\<lparr>KernelReg := (KernelReg s)\<lparr>kr_os_running := 0\<rparr>\<rparr>"

subsection \<open>Run time\<close>

definition OsRunTimeMicrosGet ::
  "'a core_state_scheme \<Rightarrow> (U32_t \<times> 'a core_state_scheme) option" where
  "OsRunTimeMicrosGet s = do {
     s \<leftarrow> KERNEL_REG_LOCK s;
     let micros = kr_micros (KernelReg s);
     Some (micros, KERNEL_REG_UNLOCK s)
   }"

definition OsRuntimeHoursGet ::
  "'a core_state_scheme \<Rightarrow> (U32_t \<times> 'a core_state_scheme) option" where
  "OsRuntimeHoursGet s = do {
     s \<leftarrow> KERNEL_REG_LOCK s;
     let hours = kr_hours (KernelReg s);
     Some (hours, KERNEL_REG_UNLOCK s)
   }"

text \<open>\<^verbatim>\<open>OsRunTime_t\<close> is an array of two words, hours and microseconds.\<close>

definition OsRunTimeGet ::
  "U32_t \<times> U32_t \<Rightarrow> 'a core_state_scheme \<Rightarrow>
     ((OsResult_t \<times> (U32_t \<times> U32_t)) \<times> 'a core_state_scheme) option" where
  "OsRunTimeGet runtime s =
     (if fst runtime \<noteq> 0 \<or> snd runtime \<noteq> 0 then Some ((OS_RES_FAIL, runtime), s)
      else do {
        s \<leftarrow> KERNEL_REG_LOCK s;
        let runtime = (kr_hours (KernelReg s), kr_micros (KernelReg s));
        Some ((OS_RES_OK, runtime), KERNEL_REG_UNLOCK s)
      })"

definition OsRunTimeMicrosDelta ::
  "U32_t \<Rightarrow> 'a core_state_scheme \<Rightarrow> (U32_t \<times> 'a core_state_scheme) option" where
  "OsRunTimeMicrosDelta us s = do {
     (curr_us, s) \<leftarrow> OsRunTimeMicrosGet s;
     let delta_us = (if curr_us \<noteq> 0
                     then (if curr_us \<ge> us then curr_us - us else us - curr_us)
                     else 0);
     Some (delta_us, s)
   }"

definition ICoreRunTimeAccumulate ::
  "U32_t \<Rightarrow> 'a core_state_scheme \<Rightarrow> 'a core_state_scheme option" where
  "ICoreRunTimeAccumulate t_us s = do {
     s \<leftarrow> KERNEL_REG_LOCK s;
     let s = s\<lparr>KernelReg := (KernelReg s)\<lparr>kr_t_accu := kr_t_accu (KernelReg s) + t_us\<rparr>\<rparr>;
     Some (KERNEL_REG_UNLOCK s)
   }"

definition ICoreRunTimeUpdate :: "'a core_state_scheme \<Rightarrow> 'a core_state_scheme option" where
  "ICoreRunTimeUpdate s = do {
     s \<leftarrow> KERNEL_REG_LOCK s;
     let s = s\<lparr>KernelReg := (KernelReg s)\<lparr>kr_micros := kr_micros (KernelReg s) + kr_t_accu (KernelReg s)\<rparr>\<rparr>;
     let s = s\<lparr>KernelReg := (KernelReg s)\<lparr>kr_t_accu := 0\<rparr>\<rparr>;
     let s = (if kr_micros (KernelReg s) \<ge> USEC_PER_HOUR
              then s\<lparr>KernelReg := (KernelReg s)\<lparr>kr_micros := 0, kr_hours := kr_hours (KernelReg s) + 1\<rparr>\<rparr>
              else s);
     Some (KERNEL_REG_UNLOCK s)
   }"

subsection \<open>Effect of a critical section\<close>

text \<open>
  \<open>crit_enter s\<close> is the state inside a critical section opened in \<open>s\<close>. While neither counter is
  saturated, closing the section gives back \<open>s\<close> (\<open>OsCritSectEnd_enter\<close>): the list and memory modules
  rest on this pair of facts.
\<close>

definition crit_enter :: "'a core_state_scheme \<Rightarrow> 'a core_state_scheme" where
  "crit_enter s =
     s\<lparr>KernelReg := (KernelReg s)\<lparr>kr_crit_sect_nest_counter :=
          kr_crit_sect_nest_counter (KernelReg s) + 1\<rparr>,
       GlobalIntEnabled :=
          (if kr_crit_sect_nest_counter (KernelReg s) = 0 then False else GlobalIntEnabled s)\<rparr>"

definition crit_ok :: "'a core_state_scheme \<Rightarrow> bool" where
  "crit_ok s \<longleftrightarrow>
     kr_lock (KernelReg s) < 255 \<and> kr_crit_sect_nest_counter (KernelReg s) < 255 \<and>
     (kr_crit_sect_nest_counter (KernelReg s) = 0 \<longrightarrow> GlobalIntEnabled s)"

lemma U8_plus1_nonzero: "(c :: U8_t) < 255 \<Longrightarrow> c + 1 \<noteq> 0"
proof
  assume "c < 255" and "c + 1 = 0"
  then have "c = - 1" by (simp add: eq_neg_iff_add_eq_0)
  with \<open>c < 255\<close> show False by simp
qed

lemma U8_plus1_eq_1: "(c :: U8_t) + 1 = 1 \<longleftrightarrow> c = 0"
  by simp

lemma U8_plus1_pos: "(c :: U8_t) < 255 \<Longrightarrow> 0 < c + 1"
  using U8_plus1_nonzero [of c] by (simp add: word_gt_0)

lemma U8_plus1_less: "(c :: U8_t) < n \<Longrightarrow> c + 1 \<le> n"
  by (metis inc_le)

lemma OsCritSectBegin_enter [kcore]:
  "crit_ok s \<Longrightarrow> OsCritSectBegin s = Some (crit_enter s)"
  by (auto simp: OsCritSectBegin_def KERNEL_REG_LOCK_def KERNEL_REG_UNLOCK_def crit_enter_def
      crit_ok_def Let_def)

lemma OsCritSectEnd_enter [kcore]:
  "crit_ok s \<Longrightarrow> OsCritSectEnd (crit_enter s) = Some s"
  by (cases s, cases "KernelReg s")
     (auto simp: OsCritSectEnd_def KERNEL_REG_LOCK_def KERNEL_REG_UNLOCK_def crit_enter_def
       crit_ok_def Let_def U8_plus1_pos)

lemma crit_enter_frame [simp]:
  "kr_lock (KernelReg (crit_enter s)) = kr_lock (KernelReg s)"
  "kr_sreg (KernelReg (crit_enter s)) = kr_sreg (KernelReg s)"
  "kr_kernel_mode_nest_counter (KernelReg (crit_enter s)) = kr_kernel_mode_nest_counter (KernelReg s)"
  "kr_tcb_running (KernelReg (crit_enter s)) = kr_tcb_running (KernelReg s)"
  "env_d2u (crit_enter s) = env_d2u s"
  "kr_crit_sect_nest_counter (KernelReg (crit_enter s)) = kr_crit_sect_nest_counter (KernelReg s) + 1"
  by (simp_all add: crit_enter_def)

lemma KCoreFlagGet_crit_enter [simp]: "KCoreFlagGet f (crit_enter s) = KCoreFlagGet f s"
  by (simp add: KCoreFlagGet_def)

lemma crit_ok_enter:
  "kr_lock (KernelReg s) < 255 \<Longrightarrow> kr_crit_sect_nest_counter (KernelReg s) < 254 \<Longrightarrow>
     crit_ok (crit_enter s)"
  using U8_plus1_nonzero [of "kr_crit_sect_nest_counter (KernelReg s)"]
  by (auto simp: crit_ok_def word_less_nat_alt unat_word_ariths)

subsection \<open>Invariants of the kernel register\<close>

text \<open>
  The public operations as a step relation. The invariant: outside every operation the register is
  unlocked, interrupts are enabled exactly when no critical section is open, and the kernel-mode flag
  is set exactly when the kernel-mode nesting counter is positive.
\<close>

inductive core_step :: "'a core_state_scheme \<Rightarrow> 'a core_state_scheme \<Rightarrow> bool" where
  crit_begin: "OsCritSectBegin s = Some t \<Longrightarrow> core_step s t"
| crit_end: "OsCritSectEnd s = Some t \<Longrightarrow> core_step s t"
| mode_enter: "KCoreKernelModeEnter s = Some (n, t) \<Longrightarrow> core_step s t"
| mode_exit: "KCoreKernelModeExit s = Some (n, t) \<Longrightarrow> core_step s t"
| isr_begin: "OsIsrBegin s = Some t \<Longrightarrow> core_step s t"
| isr_end: "OsIsrEnd s = Some t \<Longrightarrow> core_step s t"
| sched_lock: "OsSchedulerLock s = Some t \<Longrightarrow> core_step s t"
| sched_unlock: "OsSchedulerUnlock s = Some t \<Longrightarrow> core_step s t"
| flag_set: "f AND CORE_FLAG_KERNEL_MODE = 0 \<Longrightarrow> KCoreFlagSet f s = Some t \<Longrightarrow> core_step s t"
| flag_clear: "f AND CORE_FLAG_KERNEL_MODE = 0 \<Longrightarrow> KCoreFlagClear f s = Some t \<Longrightarrow> core_step s t"
| accumulate: "ICoreRunTimeAccumulate d s = Some t \<Longrightarrow> core_step s t"
| update: "ICoreRunTimeUpdate s = Some t \<Longrightarrow> core_step s t"

definition core_inv :: "'a core_state_scheme \<Rightarrow> bool" where
  "core_inv s \<longleftrightarrow>
     kr_lock (KernelReg s) = 0 \<and>
     (GlobalIntEnabled s \<longleftrightarrow> kr_crit_sect_nest_counter (KernelReg s) = 0) \<and>
     (KCoreFlagGet CORE_FLAG_KERNEL_MODE s = 1 \<longleftrightarrow> kr_kernel_mode_nest_counter (KernelReg s) > 0) \<and>
     kr_isr_nest_counter (KernelReg s) \<le> 127"

lemmas core_op_defs =
  OsCritSectBegin_def OsCritSectEnd_def KCoreKernelModeEnter_def KCoreKernelModeExit_def
  OsIsrBegin_def OsIsrEnd_def OsSchedulerLock_def OsSchedulerUnlock_def KCoreFlagSet_def
  KCoreFlagClear_def ICoreRunTimeAccumulate_def ICoreRunTimeUpdate_def KERNEL_REG_LOCK_def
  KERNEL_REG_UNLOCK_def

lemma U8_inc_le: "(c :: U8_t) < n \<Longrightarrow> c + 1 \<le> n"
  by (metis inc_le)
lemma U8_dec_le: "(c :: U8_t) \<le> n \<Longrightarrow> 0 < c \<Longrightarrow> c - 1 \<le> n"
  by (cases "c = 0") (auto simp: word_le_nat_alt unat_minus_one)

lemma not_flag_all [simp]: "NOT CORE_FLAG_ALL = 0"
proof -
  have "CORE_FLAG_ALL = - 1" by (simp add: CORE_FLAG_ALL_def)
  then show ?thesis by (metis bit.compl_one)
qed

lemma mode_flag:
  "CORE_FLAG_KERNEL_MODE \<noteq> 0"
  "(x OR CORE_FLAG_KERNEL_MODE) AND CORE_FLAG_KERNEL_MODE \<noteq> 0"
  "(x AND NOT CORE_FLAG_KERNEL_MODE) AND CORE_FLAG_KERNEL_MODE = 0"
  by (simp_all add: CORE_FLAG_KERNEL_MODE_def word_ao_absorbs bit.conj_disj_distrib2 and.assoc)
lemma mode_flag_other: "f AND CORE_FLAG_KERNEL_MODE = 0 \<Longrightarrow> (x OR f) AND CORE_FLAG_KERNEL_MODE = x AND CORE_FLAG_KERNEL_MODE"
  by (simp add:  bit.conj_disj_distrib2)
lemma mode_flag_other2: "f AND CORE_FLAG_KERNEL_MODE = 0 \<Longrightarrow> (x AND NOT f) AND CORE_FLAG_KERNEL_MODE = x AND CORE_FLAG_KERNEL_MODE"
proof -
  assume f: "f AND CORE_FLAG_KERNEL_MODE = 0"
  have "NOT f AND CORE_FLAG_KERNEL_MODE = CORE_FLAG_KERNEL_MODE"
  proof (rule bit_word_eqI)
    fix n
    show "bit (NOT f AND CORE_FLAG_KERNEL_MODE) n = bit CORE_FLAG_KERNEL_MODE n"
      using arg_cong [OF f, of "\<lambda>w. bit w n"] by (auto simp: bit_simps dest: bit_imp_le_length)
  qed
  then show ?thesis by (simp add: and.assoc)
qed

lemma core_step_inv: "core_step s t \<Longrightarrow> core_inv s \<Longrightarrow> core_inv t"
proof (induction rule: core_step.induct)
  case (crit_begin s t)
  then show ?case
    by (auto simp: core_inv_def core_op_defs Let_def KCoreFlagGet_def U8_plus1_pos U8_plus1_nonzero split: if_splits)
next
  case (crit_end s t)
  then show ?case
    by (auto simp: core_inv_def core_op_defs Let_def KCoreFlagGet_def  split: if_splits)
next
  case (mode_enter s n t)
  then show ?case
    by (auto simp: core_inv_def core_op_defs Let_def KCoreFlagGet_def mode_flag U8_plus1_pos word_gt_0 U8_plus1_nonzero split: if_splits)
next
  case (mode_exit s n t)
  then show ?case
    by (auto simp: core_inv_def core_op_defs Let_def KCoreFlagGet_def mode_flag word_gt_0 split: if_splits)
next
  case (isr_begin s t)
  then show ?case
    by (auto simp: core_inv_def core_op_defs Let_def KCoreFlagGet_def U8_inc_le split: if_splits)
next
  case (isr_end s t)
  then show ?case
    by (auto simp: core_inv_def core_op_defs Let_def KCoreFlagGet_def U8_dec_le split: if_splits)
qed (auto simp: core_inv_def core_op_defs Let_def KCoreFlagGet_def  mode_flag_other mode_flag_other2 split: if_splits)

text \<open>The static kernel register before \<^verbatim>\<open>OsInit\<close> runs: static storage is zero.\<close>

definition core_bss :: core_state where
  "core_bss = \<lparr>KernelReg = \<lparr>kr_lock = 0, kr_prescaler = 0, kr_f_os = 0, kr_ovf = 0, kr_tick_period_us = 0,
       kr_tcb_running = NULL, kr_tcb_idle = NULL,
       kr_tcb_wait_list = LNULL, kr_tcb_list = LNULL, kr_event_list = LNULL, kr_isr_nest_counter = 0,
       kr_crit_sect_nest_counter = 0, kr_kernel_mode_nest_counter = 0, kr_scheduler_lock = 0,
       kr_sreg = 0, kr_os_running = 0, kr_micros = 0, kr_hours = 0, kr_t_accu = 0\<rparr>,
     GlobalIntEnabled = True, env_d2u = (\<lambda>_. 0xFFFFFFFF)\<rparr>"

text \<open>The register as \<^verbatim>\<open>OsInit\<close> leaves it before the first operation.\<close>

definition core_init :: "'a core_state_scheme \<Rightarrow> 'a core_state_scheme" where
  "core_init s =
     s\<lparr>KernelReg := (KernelReg s)\<lparr>kr_lock := 0, kr_os_running := 1, kr_kernel_mode_nest_counter := 0,
          kr_isr_nest_counter := 0, kr_crit_sect_nest_counter := 0, kr_micros := 0, kr_hours := 0,
          kr_t_accu := 0, kr_scheduler_lock := 0,
          kr_sreg := kr_sreg (KernelReg s) AND NOT CORE_FLAG_ALL\<rparr>,
       GlobalIntEnabled := True\<rparr>"

inductive core_reachable :: "'a core_state_scheme \<Rightarrow> bool" where
  start: "core_reachable (core_init s)"
| step: "core_reachable s \<Longrightarrow> core_step s t \<Longrightarrow> core_reachable t"

lemma core_init_inv: "core_inv (core_init s)"
  by (simp add: core_inv_def core_init_def KCoreFlagGet_def)

lemma core_reachable_inv: "core_reachable s \<Longrightarrow> core_inv s"
  by (induction rule: core_reachable.induct) (auto intro: core_init_inv core_step_inv)

lemma core_inv_crit_ok: "core_inv s \<Longrightarrow> kr_crit_sect_nest_counter (KernelReg s) < 255 \<Longrightarrow> crit_ok s"
  by (simp add: core_inv_def crit_ok_def)

text \<open>
  C20. In every state reachable from initialisation through the register operations, interrupts are
  enabled exactly when no critical section is open, kernel mode is flagged exactly while its nesting
  counter is positive, and the register lock is free.
\<close>

theorem crit_and_mode_consistent:
  assumes "core_reachable s"
  shows "(GlobalIntEnabled s \<longleftrightarrow> kr_crit_sect_nest_counter (KernelReg s) = 0) \<and>
         (KCoreFlagGet CORE_FLAG_KERNEL_MODE s = 1 \<longleftrightarrow> kr_kernel_mode_nest_counter (KernelReg s) > 0) \<and>
         kr_lock (KernelReg s) = 0"
  using core_reachable_inv [OF assms] by (simp add: core_inv_def)

theorem crit_and_mode_consistent_witness:
  "GlobalIntEnabled (core_init core_bss) \<and> KCoreFlagGet CORE_FLAG_KERNEL_MODE (core_init core_bss) \<noteq> 1"
proof -
  have "core_reachable (core_init core_bss)" by (rule core_reachable.start)
  from crit_and_mode_consistent [OF this] show ?thesis by (simp add: core_init_def)
qed

end
