(* ===== verification/IdType.thy ===== *)
theory IdType
  imports Core
begin

text \<open>
  \<^verbatim>\<open>IdType.c\<close>: object identifiers. An ID is a 32-bit word, the group in its top byte and a 24-bit sequence
  number below. Each group has a pool that hands out the next free ID until it has rolled over. An ID
  list is a fixed array of five IDs and a count.
\<close>

type_synonym Id_t = U32_t
type_synonym IdGroup_t = U32_t

definition ID_LIST_SIZE_MAX :: nat where "ID_LIST_SIZE_MAX = 5"
definition ID_INVALID :: Id_t where "ID_INVALID = 0xFFFFFFFF"
definition ID_GROUP_INVALID :: Id_t where "ID_GROUP_INVALID = 0xFF000000"
definition ID_MASK_GROUP :: Id_t where "ID_MASK_GROUP = 0xFF000000"
definition ID_MASK_SEQ_NUM :: Id_t where "ID_MASK_SEQ_NUM = 0x00FFFFFF"
definition ID_SHIFT_AMOUNT_GROUP :: nat where "ID_SHIFT_AMOUNT_GROUP = 24"
definition ID_LIST_EMPTY :: U8_t where "ID_LIST_EMPTY = 0"

definition ID_GROUP_POOL :: IdGroup_t where "ID_GROUP_POOL = 0"
definition ID_GROUP_TASK :: IdGroup_t where "ID_GROUP_TASK = 1"
definition ID_GROUP_TIMER :: IdGroup_t where "ID_GROUP_TIMER = 2"
definition ID_GROUP_EVENTGROUP :: IdGroup_t where "ID_GROUP_EVENTGROUP = 3"
definition ID_GROUP_SEMAPHORE :: IdGroup_t where "ID_GROUP_SEMAPHORE = 4"
definition ID_GROUP_MAILBOX :: IdGroup_t where "ID_GROUP_MAILBOX = 5"
definition ID_GROUP_RINGBUF :: IdGroup_t where "ID_GROUP_RINGBUF = 6"
definition ID_GROUP_MESSAGE_QUEUE :: IdGroup_t where "ID_GROUP_MESSAGE_QUEUE = 7"
definition ID_GROUP_NUM :: IdGroup_t where "ID_GROUP_NUM = 8"
definition ID_GROUP_INV :: IdGroup_t where "ID_GROUP_INV = 0xFF"

definition ID_GROUP_IS_VALID :: "U32_t \<Rightarrow> bool" where
  "ID_GROUP_IS_VALID g \<longleftrightarrow>
     g AND ID_MASK_GROUP \<noteq> ID_GROUP_INVALID \<and>
     drop_bit ID_SHIFT_AMOUNT_GROUP (g AND ID_MASK_GROUP) < ID_GROUP_NUM"

definition ID_IS_VALID :: "Id_t \<Rightarrow> bool" where
  "ID_IS_VALID oid \<longleftrightarrow> oid \<noteq> ID_INVALID \<and> ID_GROUP_IS_VALID oid"

definition GROUP_FROM_ID :: "Id_t \<Rightarrow> IdGroup_t" where
  "GROUP_FROM_ID oid = drop_bit ID_SHIFT_AMOUNT_GROUP (oid AND ID_MASK_GROUP)"

definition SEQ_NUM_FROM_ID :: "Id_t \<Rightarrow> Id_t" where
  "SEQ_NUM_FROM_ID oid = oid AND ID_MASK_SEQ_NUM"

record IdPool =
  free_id :: Id_t
  rollover :: bool

record id_state = core_state +
  IdPools :: "IdPool list"

definition KIdInit :: "'a id_state_scheme \<Rightarrow> 'a id_state_scheme" where
  "KIdInit s =
     s\<lparr>IdPools := map (\<lambda>i. \<lparr>free_id = 0 OR push_bit ID_SHIFT_AMOUNT_GROUP (word_of_nat i), rollover = False\<rparr>)
                    [0 ..< unat ID_GROUP_NUM]\<rparr>"

definition KIdRequest :: "IdGroup_t \<Rightarrow> 'a id_state_scheme \<Rightarrow> Id_t \<times> 'a id_state_scheme" where
  "KIdRequest type s =
     (if type < ID_GROUP_NUM then
        let i = unat type; p = IdPools s ! i in
        if rollover p = False then
          let oid = free_id p;
              p = p\<lparr>free_id := free_id p + 1\<rparr>;
              p = (if free_id p AND ID_MASK_SEQ_NUM = ID_INVALID AND ID_MASK_SEQ_NUM
                   then p\<lparr>rollover := True\<rparr> else p)
          in (oid, s\<lparr>IdPools := (IdPools s)[i := p]\<rparr>)
        else (ID_INVALID, s)
      else (ID_INVALID, s))"

definition IdSequenceNumberGet :: "Id_t \<Rightarrow> Id_t" where
  "IdSequenceNumberGet oid = (if \<not> ID_IS_VALID oid then ID_INVALID else SEQ_NUM_FROM_ID oid)"

definition IdGroupGet :: "Id_t \<Rightarrow> IdGroup_t" where
  "IdGroupGet oid = (if \<not> ID_IS_VALID oid then ID_GROUP_INV else GROUP_FROM_ID oid)"

definition IdIsInGroup :: "Id_t \<Rightarrow> IdGroup_t \<Rightarrow> U8_t" where
  "IdIsInGroup oid grp =
     (if \<not> ID_IS_VALID oid \<or> \<not> ID_GROUP_IS_VALID grp then 0
      else if GROUP_FROM_ID oid = grp then 1 else 0)"

text \<open>
  ID lists. \<open>ids\<close> has length \<open>ID_LIST_SIZE_MAX\<close>; a null list argument is \<open>None\<close>. The array is read and
  written at \<open>n\<close> only when the guard of the code holds, and an index past the array is \<open>None\<close> (out of
  bounds).
\<close>

record IdList_t =
  ids :: "Id_t list"
  n_ids :: U8_t

definition IdListInit :: "IdList_t option \<Rightarrow> IdList_t option" where
  "IdListInit list =
     (case list of None \<Rightarrow> None
      | Some l \<Rightarrow> Some (l\<lparr>n_ids := ID_LIST_EMPTY, ids := replicate ID_LIST_SIZE_MAX ID_INVALID\<rparr>))"

definition IdListIdAdd :: "IdList_t option \<Rightarrow> Id_t \<Rightarrow> IdList_t option" where
  "IdListIdAdd list oid =
     (case list of None \<Rightarrow> None
      | Some l \<Rightarrow>
          if unat (n_ids l) + 1 \<le> ID_LIST_SIZE_MAX
          then Some (l\<lparr>ids := (ids l)[unat (n_ids l) := oid], n_ids := n_ids l + 1\<rparr>)
          else Some l)"

text \<open>The guard \<^verbatim>\<open>(list->n - 1) >= ID_LIST_EMPTY\<close> is evaluated in \<^verbatim>\<open>int\<close>, so it fails at \<open>n = 0\<close>.\<close>

definition IdListIdRemove :: "IdList_t option \<Rightarrow> (Id_t \<times> IdList_t option) option" where
  "IdListIdRemove list =
     (case list of None \<Rightarrow> Some (ID_INVALID, None)
      | Some l \<Rightarrow>
          if int (unat (n_ids l)) - 1 \<ge> 0
          then if unat (n_ids l) - 1 < length (ids l)
               then Some (ids l ! (unat (n_ids l) - 1),
                          Some (l\<lparr>ids := (ids l)[unat (n_ids l) - 1 := ID_INVALID], n_ids := n_ids l - 1\<rparr>))
               else None
          else Some (ID_INVALID, Some l))"

definition IdListCount :: "IdList_t option \<Rightarrow> U8_t" where
  "IdListCount list = (case list of None \<Rightarrow> ID_LIST_EMPTY | Some l \<Rightarrow> n_ids l)"

definition IdListCopy :: "IdList_t option \<Rightarrow> IdList_t option \<Rightarrow> IdList_t option" where
  "IdListCopy list_to list_from =
     (case (list_to, list_from) of
        (Some t, Some f) \<Rightarrow> Some (t\<lparr>n_ids := n_ids f, ids := take ID_LIST_SIZE_MAX (ids f)\<rparr>)
      | _ \<Rightarrow> list_to)"

subsection \<open>Bit layout of an ID\<close>

lemma group_mask: "ID_MASK_GROUP = push_bit 24 (mask 8)"
  by (simp add: ID_MASK_GROUP_def mask_eq_exp_minus_1)
lemma seq_mask: "ID_MASK_SEQ_NUM = mask 24"
  by (simp add: ID_MASK_SEQ_NUM_def mask_eq_exp_minus_1)
lemma drop_and_group: "drop_bit 24 (x AND ID_MASK_GROUP) = drop_bit 24 x"
  unfolding group_mask
  by (rule bit_word_eqI) (auto simp: bit_simps dest: bit_imp_le_length)
lemma and_seq: "x AND ID_MASK_SEQ_NUM = take_bit 24 x"
  by (simp add: seq_mask take_bit_eq_mask)
lemma group_inv: "x AND ID_MASK_GROUP = ID_GROUP_INVALID \<longleftrightarrow> drop_bit 24 x = 255"
proof -
  have "x AND ID_MASK_GROUP = push_bit 24 (drop_bit 24 x)"
    unfolding group_mask  by (rule bit_word_eqI) (auto simp: bit_simps dest: bit_imp_le_length)
  moreover have "ID_GROUP_INVALID = push_bit 24 255" by (simp add: ID_GROUP_INVALID_def)
  moreover have "push_bit 24 (drop_bit 24 x) = push_bit 24 255 \<longleftrightarrow> drop_bit 24 x = 255"
  proof
    assume a: "push_bit 24 (drop_bit 24 x) = push_bit 24 255"
    have "drop_bit 24 (push_bit 24 (drop_bit 24 x)) = drop_bit 24 x"
     by (rule bit_word_eqI) (auto simp: bit_simps dest: bit_imp_le_length)
    with a show "drop_bit 24 x = 255" by simp
  qed simp
  ultimately show ?thesis by simp
qed
lemma ID_IS_VALID_iff: "ID_IS_VALID x \<longleftrightarrow> drop_bit 24 x < 8"
  unfolding ID_IS_VALID_def ID_GROUP_IS_VALID_def group_inv drop_and_group ID_SHIFT_AMOUNT_GROUP_def 
  by (auto simp: ID_GROUP_NUM_def ID_INVALID_def)

lemma ID_GROUP_IS_VALID_iff: "ID_GROUP_IS_VALID g \<longleftrightarrow> drop_bit 24 g < 8"
  unfolding ID_GROUP_IS_VALID_def group_inv drop_and_group ID_SHIFT_AMOUNT_GROUP_def
  by (auto simp: ID_GROUP_NUM_def)

lemma GROUP_FROM_ID_eq: "GROUP_FROM_ID x = drop_bit 24 x"
  unfolding GROUP_FROM_ID_def ID_SHIFT_AMOUNT_GROUP_def drop_and_group ..

lemma SEQ_NUM_FROM_ID_eq: "SEQ_NUM_FROM_ID x = take_bit 24 x"
  unfolding SEQ_NUM_FROM_ID_def and_seq ..

definition id_count :: "'a id_state_scheme \<Rightarrow> nat \<Rightarrow> nat" where
  "id_count s i = unat (free_id (IdPools s ! i)) - i * 2 ^ 24"

definition id_pools_ok :: "'a id_state_scheme \<Rightarrow> bool" where
  "id_pools_ok s \<longleftrightarrow>
     length (IdPools s) = 8 \<and>
     (\<forall>i < 8. i * 2 ^ 24 \<le> unat (free_id (IdPools s ! i)) \<and>
        unat (free_id (IdPools s ! i)) \<le> i * 2 ^ 24 + 0xFFFFFF \<and>
        (rollover (IdPools s ! i) \<longleftrightarrow> id_count s i = 0xFFFFFF))"

lemma unat_group_seq:
  assumes "unat x = i * 2 ^ 24 + n" and "n < 2 ^ 24" 
  shows "unat (drop_bit 24 (x::Id_t)) = i" and "unat (take_bit 24 x) = n"
  using assms by (simp_all add: drop_bit_eq_div take_bit_eq_mod unat_div unat_mod)

lemma id_pools_ok_init: "id_pools_ok (KIdInit s)"
proof -
  have "unat (push_bit 24 (word_of_nat i) :: Id_t) = i * 2 ^ 24" if "i < 8" for i
    using that by (simp add: push_bit_eq_mult unat_word_ariths unat_of_nat)
  then show ?thesis
   by (auto simp: id_pools_ok_def KIdInit_def id_count_def ID_SHIFT_AMOUNT_GROUP_def ID_GROUP_NUM_def)
qed

definition issued :: "'a id_state_scheme \<Rightarrow> Id_t set" where
  "issued s = {x. \<exists>i < 8. i * 2 ^ 24 \<le> unat x \<and> unat x < unat (free_id (IdPools s ! i))}"


lemma id_pool_bounds:
  assumes "id_pools_ok s" "i < 8"
  shows "unat (free_id (IdPools s ! i)) = i * 2 ^ 24 + id_count s i" and "id_count s i \<le> 0xFFFFFF"
    and "rollover (IdPools s ! i) \<longleftrightarrow> id_count s i = 0xFFFFFF"
  using assms by (auto simp: id_pools_ok_def id_count_def)

text \<open>A request that the pool can serve: the next sequence number of the group.\<close>

lemma KIdRequest_serves:
  assumes ok: "id_pools_ok s" and g: "g < ID_GROUP_NUM" and room: "id_count s (unat g) < 0xFFFFFF"
  obtains x where "unat x = unat g * 2 ^ 24 + id_count s (unat g)"
    and "KIdRequest g s =
      (x, s\<lparr>IdPools := (IdPools s)[unat g := \<lparr>free_id = x + 1, rollover = (id_count s (unat g) + 1 = 0xFFFFFF)\<rparr>]\<rparr>)"
proof -
  have i: "unat g < 8" using g by (simp add: ID_GROUP_NUM_def word_less_nat_alt)
  let ?p = "IdPools s ! unat g"
  have u: "unat (free_id ?p) = unat g * 2 ^ 24 + id_count s (unat g)"
    and r: "\<not> rollover ?p"
    using id_pool_bounds [OF ok i] room by auto
  have u1: "unat (free_id ?p + 1) = unat g * 2 ^ 24 + (id_count s (unat g) + 1)"
    using u room i by (simp add: unat_word_ariths)
  have seq: "unat ((free_id ?p + 1) AND ID_MASK_SEQ_NUM) = id_count s (unat g) + 1"
    unfolding and_seq by (rule unat_group_seq(2) [OF u1]) (use room in simp)
  have "(free_id ?p + 1) AND ID_MASK_SEQ_NUM = ID_INVALID AND ID_MASK_SEQ_NUM
        \<longleftrightarrow> id_count s (unat g) + 1 = 0xFFFFFF"
    unfolding word_unat_eq_iff seq by (simp add: ID_INVALID_def ID_MASK_SEQ_NUM_def)
  then have "KIdRequest g s = (free_id ?p,
      s\<lparr>IdPools := (IdPools s)[unat g := \<lparr>free_id = free_id ?p + 1,
          rollover = (id_count s (unat g) + 1 = 0xFFFFFF)\<rparr>]\<rparr>)"
    using g r by (cases ?p) (auto simp: KIdRequest_def Let_def)
  from that [OF u this] show ?thesis .
qed

lemma KIdRequest_served:
  assumes "id_pools_ok s" "g < ID_GROUP_NUM" "id_count s (unat g) < 0xFFFFFF" and req: "KIdRequest g s = (x, s')"
  shows "unat x = unat g * 2 ^ 24 + id_count s (unat g) \<and> s' = s\<lparr>IdPools := (IdPools s)[unat g := \<lparr>free_id = x + 1, rollover = (id_count s (unat g) + 1 = 0xFFFFFF)\<rparr>]\<rparr>"
proof -
  obtain y where "unat y = unat g * 2 ^ 24 + id_count s (unat g)"
    "KIdRequest g s = (y, s\<lparr>IdPools := (IdPools s)[unat g := \<lparr>free_id = y + 1, rollover = (id_count s (unat g) + 1 = 0xFFFFFF)\<rparr>]\<rparr>)"
    by (rule KIdRequest_serves [OF assms(1-3)])
  with req show ?thesis by auto
qed

lemma KIdRequest_refuses:
  assumes ok: "id_pools_ok s" and "\<not> (g < ID_GROUP_NUM \<and> id_count s (unat g) < 0xFFFFFF)"
  shows "KIdRequest g s = (ID_INVALID, s)"
proof (cases "g < ID_GROUP_NUM")
  case True
  then have i: "unat g < 8" by (simp add: ID_GROUP_NUM_def word_less_nat_alt)
  then have "rollover (IdPools s ! unat g)"
    using id_pool_bounds [OF ok i] assms(2) True by auto
  then show ?thesis by (simp add: KIdRequest_def Let_def)
qed (simp add: KIdRequest_def)

lemma KIdRequest_preserves:
  assumes ok: "id_pools_ok s" and req: "KIdRequest g s = (x, s')"
  shows "id_pools_ok s' \<and>
    (x \<noteq> ID_INVALID \<longrightarrow> x \<notin> issued s \<and> issued s' = insert x (issued s) \<and>
       ID_IS_VALID x \<and> GROUP_FROM_ID x = g \<and>
       unat (SEQ_NUM_FROM_ID x) = id_count s (unat g)) \<and>
    (x = ID_INVALID \<longrightarrow> s' = s)"
proof (cases "g < ID_GROUP_NUM \<and> id_count s (unat g) < 0xFFFFFF")
  case False
  with KIdRequest_refuses [OF ok] req ok show ?thesis by auto
next
  case True
  then have g: "g < ID_GROUP_NUM" and room: "id_count s (unat g) < 0xFFFFFF" by auto
  have i: "unat g < 8" using g by (simp add: ID_GROUP_NUM_def word_less_nat_alt)
  let ?g = "unat g" let ?c = "id_count s ?g"
  have ux: "unat x = ?g * 2 ^ 24 + ?c" and t: "s' = s\<lparr>IdPools := (IdPools s)[unat g := \<lparr>free_id = x + 1, rollover = (id_count s (unat g) + 1 = 0xFFFFFF)\<rparr>]\<rparr>"
    using KIdRequest_served [OF ok g room req] by blast+
  then have ps: "IdPools s' = (IdPools s)[?g := \<lparr>free_id = x + 1, rollover = (?c + 1 = 0xFFFFFF)\<rparr>]" by simp
  have ux1: "unat (x + 1) = ?g * 2 ^ 24 + (?c + 1)"
    using ux room i by (simp add: unat_word_ariths)
  have fr: "unat (free_id (IdPools s ! ?g)) = unat x"
    using id_pool_bounds(1) [OF ok i] ux by simp
  have len: "length (IdPools s) = 8" using ok by (simp add: id_pools_ok_def)
  have ok': "id_pools_ok s'"
    using ok i ux1 room len by (auto simp: id_pools_ok_def ps id_count_def nth_list_update)
  have notin: "x \<notin> issued s"
    unfolding issued_def
  proof clarify
    fix j assume j: "j < 8" "j * 2 ^ 24 \<le> unat x" "unat x < unat (free_id (IdPools s ! j))"
    then have "unat x < j * 2 ^ 24 + 0xFFFFFF"
      using id_pool_bounds(1,2) [OF ok j(1)] by linarith
    with j(2) ux room have "j = ?g" by simp
    with j fr show False by simp
  qed
  have iss: "issued s' = insert x (issued s)"
    using i len fr ux1 ux
    by (auto simp: issued_def ps nth_list_update word_unat_eq_iff split: if_splits)
  have grp: "unat (drop_bit 24 x) = ?g" and sq: "unat (take_bit 24 x) = ?c"
    using unat_group_seq [OF ux] room by auto
  have "drop_bit 24 x < 8" using grp i by (simp add: word_less_nat_alt)
  then show ?thesis
    using ok' notin iss grp sq i room
    by (auto simp: ID_IS_VALID_iff GROUP_FROM_ID_eq SEQ_NUM_FROM_ID_eq word_unat_eq_iff [of _ g]
        ID_INVALID_def)
qed

text \<open>A sequence of requests, and the IDs it hands out.\<close>

fun request_all :: "IdGroup_t list \<Rightarrow> 'a id_state_scheme \<Rightarrow> Id_t list \<times> 'a id_state_scheme" where
  "request_all [] s = ([], s)"
| "request_all (g # gs) s =
     (let (x, s') = KIdRequest g s; (xs, s'') = request_all gs s' in (x # xs, s''))"

lemma request_all_fresh:
  "id_pools_ok s \<Longrightarrow> request_all gs s = (xs, s') \<Longrightarrow>
     distinct (filter (\<lambda>x. x \<noteq> ID_INVALID) xs) \<and>
     set (filter (\<lambda>x. x \<noteq> ID_INVALID) xs) \<inter> issued s = {} \<and> id_pools_ok s'"
proof (induction gs arbitrary: s xs)
  case Nil
  then show ?case by simp
next
  case (Cons g gs)
  obtain x t where x: "KIdRequest g s = (x, t)" by force
  obtain ys where ys: "request_all gs t = (ys, s')" and xs: "xs = x # ys"
    using Cons.prems(2) x by (auto split: prod.splits)
  note p = KIdRequest_preserves [OF Cons.prems(1) x]
  then have "id_pools_ok t" by simp
  from Cons.IH [OF this ys] p show ?case
    by (cases "x = ID_INVALID") (auto simp: xs)
qed

text \<open>
  C18. However many IDs are requested of whatever groups after initialisation, no valid ID is ever
  handed out twice.
\<close>

theorem ids_unique:
  "distinct (filter (\<lambda>x. x \<noteq> ID_INVALID) (fst (request_all gs (KIdInit s))))"
  using request_all_fresh [OF id_pools_ok_init, of gs s] by (cases "request_all gs (KIdInit s)") auto

text \<open>
  C19. What a request does, on every branch. It fails exactly when the group is out of range or its 0xFFFFFF sequence numbers are
  used up, and then changes nothing. Otherwise it returns a valid ID of the requested group whose sequence number is the number
  of IDs issued before it; it changes only the pool of that group, whose next ID is the following one, and which is marked as
  used up exactly when this was its last. The pools stay well formed.
\<close>

theorem id_request_correct:
  assumes "id_pools_ok s" and "KIdRequest g s = (x, s')"
  shows "id_pools_ok s' \<and>
    (x = ID_INVALID \<longleftrightarrow> \<not> (g < ID_GROUP_NUM \<and> id_count s (unat g) < 0xFFFFFF)) \<and>
    (if x = ID_INVALID then s' = s
     else ID_IS_VALID x \<and> IdGroupGet x = g \<and> IdIsInGroup x g = 1 \<and> unat (IdSequenceNumberGet x) = id_count s (unat g) \<and>
       s' = s\<lparr>IdPools := (IdPools s)[unat g := \<lparr>free_id = x + 1, rollover = (id_count s (unat g) + 1 = 0xFFFFFF)\<rparr>]\<rparr> \<and>
       id_count s' (unat g) = id_count s (unat g) + 1)"
proof (cases "g < ID_GROUP_NUM \<and> id_count s (unat g) < 0xFFFFFF")
  case True
  then have g: "g < ID_GROUP_NUM" and room: "id_count s (unat g) < 0xFFFFFF" by auto
  have i: "unat g < 8" using g by (simp add: ID_GROUP_NUM_def word_less_nat_alt)
  have x: "unat x = unat g * 2 ^ 24 + id_count s (unat g)"
    and t: "s' = s\<lparr>IdPools := (IdPools s)[unat g := \<lparr>free_id = x + 1, rollover = (id_count s (unat g) + 1 = 0xFFFFFF)\<rparr>]\<rparr>"
    using KIdRequest_served [OF assms(1) g room assms(2)] by blast+
  then have ne: "x \<noteq> ID_INVALID" using room i by (auto simp: ID_INVALID_def)
  have "unat (x + 1) = unat g * 2 ^ 24 + (id_count s (unat g) + 1)"
    using x room i by (simp add: unat_word_ariths)
  moreover have "length (IdPools s) = 8" using assms(1) by (simp add: id_pools_ok_def)
  ultimately have "id_count s' (unat g) = id_count s (unat g) + 1" using i by (simp add: t id_count_def)
  moreover have "ID_GROUP_IS_VALID g"
    using i by (simp add: ID_GROUP_IS_VALID_iff word_less_nat_alt drop_bit_eq_div unat_div)
  ultimately show ?thesis
    using True ne t KIdRequest_preserves [OF assms] by (simp add: IdGroupGet_def IdIsInGroup_def IdSequenceNumberGet_def)
next
  case False
  with KIdRequest_refuses [OF assms(1)] assms show ?thesis by auto
qed

text \<open>The kernel after its IDs are initialised, with a zero-initialised register: a start for witnesses.\<close>

definition id_boot :: id_state where
  "id_boot = KIdInit (core_state.extend core_bss (id_state.fields []))"

lemma id_boot_pools:
  "IdPools id_boot = map (\<lambda>i. \<lparr>free_id = i, rollover = False\<rparr>)
     [0, 0x1000000, 0x2000000, 0x3000000, 0x4000000, 0x5000000, 0x6000000, 0x7000000]"
  by (simp add: id_boot_def KIdInit_def ID_GROUP_NUM_def ID_SHIFT_AMOUNT_GROUP_def upt_rec core_state.defs id_state.defs)

theorem id_request_correct_witness:
  "\<exists>x s'. KIdRequest 1 id_boot = (x, s') \<and> x = 0x1000000 \<and> IdGroupGet x = 1 \<and> free_id (IdPools s' ! 1) = 0x1000001"
proof -
  have ok: "id_pools_ok id_boot"
    unfolding id_boot_def by (rule id_pools_ok_init)
  obtain x s' where r: "KIdRequest 1 id_boot = (x, s')" by force
  have x: "x = 0x1000000"
    using r by (auto simp: KIdRequest_def id_boot_pools ID_GROUP_NUM_def Let_def)
  with id_request_correct [OF ok r] r show ?thesis by (auto simp: ID_INVALID_def id_boot_pools)
qed

subsection \<open>ID lists\<close>

definition id_list_ok :: "IdList_t \<Rightarrow> bool" where
  "id_list_ok l \<longleftrightarrow> length (ids l) = ID_LIST_SIZE_MAX \<and> unat (n_ids l) \<le> ID_LIST_SIZE_MAX \<and>
     (\<forall>i < ID_LIST_SIZE_MAX. unat (n_ids l) \<le> i \<longrightarrow> ids l ! i = ID_INVALID)"

definition id_list_abs :: "IdList_t \<Rightarrow> Id_t list" where
  "id_list_abs l = take (unat (n_ids l)) (ids l)"

lemma id_list_init:
  "IdListInit (Some l) = Some l' \<Longrightarrow> id_list_ok l' \<and> id_list_abs l' = []"
  by (auto simp: IdListInit_def id_list_ok_def id_list_abs_def ID_LIST_EMPTY_def)

lemma id_list_add:
  assumes "id_list_ok l" and "IdListIdAdd (Some l) x = Some l'"
  shows "id_list_ok l' \<and>
    id_list_abs l' = (if length (id_list_abs l) < ID_LIST_SIZE_MAX then id_list_abs l @ [x] else id_list_abs l)"
proof (cases "unat (n_ids l) + 1 \<le> ID_LIST_SIZE_MAX")
  case True
  then have "unat (n_ids l + 1) = unat (n_ids l) + 1"
    by (simp add: ID_LIST_SIZE_MAX_def unat_word_ariths)
  with True assms show ?thesis
    by (auto simp: id_list_ok_def id_list_abs_def IdListIdAdd_def take_Suc_conv_app_nth)
next
  case False
  with assms show ?thesis
    by (auto simp: id_list_ok_def id_list_abs_def IdListIdAdd_def)
qed

lemma IdListIdRemove_eq:
  "IdListIdRemove (Some l) =
     (if n_ids l \<noteq> 0
      then if unat (n_ids l) - 1 < length (ids l)
           then Some (ids l ! (unat (n_ids l) - 1),
                      Some (l\<lparr>ids := (ids l)[unat (n_ids l) - 1 := ID_INVALID], n_ids := n_ids l - 1\<rparr>))
           else None
      else Some (ID_INVALID, Some l))"
proof -
  have "0 \<le> int (unat (n_ids l)) - 1 \<longleftrightarrow> n_ids l \<noteq> 0"
  proof (cases "n_ids l = 0")
    case False
    then have "0 < unat (n_ids l)" by (simp add: unat_gt_0)
    with False show ?thesis by linarith
  qed simp
  then show ?thesis unfolding IdListIdRemove_def option.case by (simp only:)
qed

lemma id_list_remove:
  assumes "id_list_ok l"
  shows "\<exists>l'. IdListIdRemove (Some l) =
      Some (if id_list_abs l = [] then ID_INVALID else last (id_list_abs l), Some l') \<and>
      id_list_ok l' \<and> id_list_abs l' = butlast (id_list_abs l)"
proof (cases "n_ids l = 0")
  case True
  with assms show ?thesis
    by (auto simp: IdListIdRemove_eq id_list_abs_def)
next
  case False
  then have u: "unat (n_ids l - 1) = unat (n_ids l) - 1" and p: "0 < unat (n_ids l)"
    by (auto simp: unat_minus_one unat_gt_0)
  let ?k = "unat (n_ids l) - 1"
  have k: "?k < length (ids l)" using assms p by (auto simp: id_list_ok_def)
  have abs: "id_list_abs l = take ?k (ids l) @ [ids l ! ?k]"
    using k p by (simp add: id_list_abs_def flip: take_Suc_conv_app_nth)
  show ?thesis
    using k p assms u by (auto simp: IdListIdRemove_eq abs) (auto simp: id_list_ok_def id_list_abs_def nth_list_update)
qed

text \<open>
  An ID list is a bounded stack: adding to a list that is not full and removing again returns the
  added ID and the old contents, adding to a full list changes nothing, removing from an empty list
  returns \<^verbatim>\<open>ID_INVALID\<close>.
\<close>

lemma id_list_stack:
  assumes "id_list_ok l"
  shows "(length (id_list_abs l) < ID_LIST_SIZE_MAX \<longrightarrow>
      (\<exists>l' l''. IdListIdAdd (Some l) x = Some l' \<and> IdListIdRemove (Some l') = Some (x, Some l'') \<and>
         id_list_abs l'' = id_list_abs l \<and> IdListCount (Some l') = IdListCount (Some l) + 1)) \<and>
    (length (id_list_abs l) = ID_LIST_SIZE_MAX \<longrightarrow> IdListIdAdd (Some l) x = Some l) \<and>
    (id_list_abs l = [] \<longrightarrow> IdListIdRemove (Some l) = Some (ID_INVALID, Some l))"
proof -
  obtain l' where add: "IdListIdAdd (Some l) x = Some l'"
    by (cases "IdListIdAdd (Some l) x") (auto simp: IdListIdAdd_def split: if_splits)
  have len: "length (id_list_abs l) = unat (n_ids l)"
    using assms by (auto simp: id_list_ok_def id_list_abs_def)
  note a = id_list_add [OF assms add]
  obtain l'' where rm: "IdListIdRemove (Some l') =
      Some (if id_list_abs l' = [] then ID_INVALID else last (id_list_abs l'), Some l'')"
    and "id_list_abs l'' = butlast (id_list_abs l')"
    using id_list_remove [of l'] a by blast
  have "\<exists>l' l''. IdListIdAdd (Some l) x = Some l' \<and> IdListIdRemove (Some l') = Some (x, Some l'') \<and>
      id_list_abs l'' = id_list_abs l \<and> IdListCount (Some l') = IdListCount (Some l) + 1"
    if "length (id_list_abs l) < ID_LIST_SIZE_MAX"
  proof -
    have "id_list_abs l' = id_list_abs l @ [x]" using a that by simp
    moreover have "n_ids l' = n_ids l + 1" using add that len by (auto simp: IdListIdAdd_def)
    ultimately show ?thesis using add rm \<open>id_list_abs l'' = butlast (id_list_abs l')\<close>
      by (auto simp: IdListCount_def)
  qed
  moreover have "IdListIdAdd (Some l) x = Some l" if "length (id_list_abs l) = ID_LIST_SIZE_MAX"
    using that len by (simp add: IdListIdAdd_def)
  moreover have "IdListIdRemove (Some l) = Some (ID_INVALID, Some l)" if "id_list_abs l = []"
    using that len by (simp add: IdListIdRemove_eq unat_eq_zero)
  ultimately show ?thesis by blast
qed

lemma id_list_stack_witness:
  "IdListIdRemove (IdListIdAdd (IdListInit (Some \<lparr>ids = [], n_ids = 7\<rparr>)) 0x1000002) =
     Some (0x1000002, IdListInit (Some \<lparr>ids = [], n_ids = 7\<rparr>))"
proof -
  let ?l = "\<lparr>ids = replicate 5 ID_INVALID, n_ids = 0\<rparr>"
  have "id_list_ok ?l" by (simp add: id_list_ok_def ID_LIST_SIZE_MAX_def)
  from id_list_stack [OF this, where x = "0x1000002"] show ?thesis
    by (auto simp: id_list_abs_def ID_LIST_SIZE_MAX_def IdListInit_def IdListIdAdd_def IdListIdRemove_eq
        ID_LIST_EMPTY_def numeral_eq_Suc)
qed

lemma id_list_copy:
  "id_list_ok f \<Longrightarrow> IdListCopy (Some t) (Some f) = Some t' \<Longrightarrow>
     id_list_ok t' \<and> id_list_abs t' = id_list_abs f"
  by (auto simp: IdListCopy_def id_list_ok_def id_list_abs_def)

end
