(* ===== verification/RecursiveLock.thy ===== *)
theory RecursiveLock
  imports IdType
begin

text \<open>
  \<^verbatim>\<open>RecursiveLock.c\<close>: a lock with a count in seven bits and a write-mode flag in the eighth. The lock
  object is passed by value and returned updated; every operation runs in a critical section.
\<close>

datatype LockMode_t = LOCK_MODE_READ | LOCK_MODE_WRITE

record RecursiveLock_t =
  rl_owner :: Id_t
  rl_object :: Id_t
  rl_lock :: U8_t

definition RLOCK_MASK_MODE :: U8_t where "RLOCK_MASK_MODE = 0x80"
definition RLOCK_MASK_COUNT :: U8_t where "RLOCK_MASK_COUNT = 0x7F"
definition RLOCK_COUNT_MAX_VALUE :: U8_t where "RLOCK_COUNT_MAX_VALUE = 127"

definition RLOCK_MODE_SET_READ :: "U8_t \<Rightarrow> U8_t" where
  "RLOCK_MODE_SET_READ l = l AND NOT RLOCK_MASK_MODE"

definition RLOCK_COUNT_GET :: "U8_t \<Rightarrow> U8_t" where
  "RLOCK_COUNT_GET l = l AND RLOCK_MASK_COUNT"

definition RLOCK_COUNT_INC :: "U8_t \<Rightarrow> U8_t" where
  "RLOCK_COUNT_INC l = (if l AND RLOCK_MASK_COUNT < RLOCK_COUNT_MAX_VALUE then l + 1 else l)"

definition RLOCK_COUNT_DEC :: "U8_t \<Rightarrow> U8_t" where
  "RLOCK_COUNT_DEC l = (if l AND RLOCK_MASK_COUNT > 0 then l - 1 else l)"

definition RLOCK_MODE_IS_WRITE :: "U8_t \<Rightarrow> bool" where
  "RLOCK_MODE_IS_WRITE l \<longleftrightarrow> l AND RLOCK_MASK_MODE \<noteq> 0"

definition RecursiveLockInit :: "RecursiveLock_t \<Rightarrow> Id_t \<Rightarrow> RecursiveLock_t" where
  "RecursiveLockInit l object_id = l\<lparr>rl_lock := 0, rl_object := object_id, rl_owner := 0\<rparr>"

text \<open>The \<^verbatim>\<open>else\<close> of \<^verbatim>\<open>if(1)\<close> in the write branch is dead code and has no counterpart.\<close>

definition RecursiveLockLock ::
  "RecursiveLock_t \<Rightarrow> LockMode_t \<Rightarrow> Id_t \<Rightarrow> 'a core_state_scheme \<Rightarrow>
     ((OsResult_t \<times> RecursiveLock_t) \<times> 'a core_state_scheme) option" where
  "RecursiveLockLock l mode owner_id s = do {
     s \<leftarrow> OsCritSectBegin s;
     let (result, l) = (case mode of
         LOCK_MODE_READ \<Rightarrow>
           (if RLOCK_COUNT_GET (rl_lock l) = RLOCK_COUNT_MAX_VALUE then (OS_RES_LOCKED, l)
            else if RLOCK_MODE_IS_WRITE (rl_lock l) \<and> rl_owner l = owner_id
            then (OS_RES_OK, l\<lparr>rl_lock := RLOCK_COUNT_INC (rl_lock l)\<rparr>)
            else (OS_RES_ERROR, l))
       | LOCK_MODE_WRITE \<Rightarrow>
           (if RLOCK_COUNT_GET (rl_lock l) = RLOCK_COUNT_MAX_VALUE then (OS_RES_LOCKED, l)
            else (OS_RES_OK, l\<lparr>rl_lock := RLOCK_COUNT_INC (rl_lock l)\<rparr>)));
     s \<leftarrow> OsCritSectEnd s;
     Some ((result, l), s)
   }"

definition RecursiveLockUnlock ::
  "RecursiveLock_t \<Rightarrow> 'a core_state_scheme \<Rightarrow>
     ((OsResult_t \<times> RecursiveLock_t) \<times> 'a core_state_scheme) option" where
  "RecursiveLockUnlock l s = do {
     s \<leftarrow> OsCritSectBegin s;
     let l = l\<lparr>rl_lock := RLOCK_COUNT_DEC (rl_lock l)\<rparr>;
     (l, s) \<leftarrow> (if RLOCK_COUNT_GET (rl_lock l) = 0 then do {
         s \<leftarrow> (if RLOCK_MODE_IS_WRITE (rl_lock l) then OsCritSectEnd s else Some s);
         Some (l\<lparr>rl_lock := RLOCK_MODE_SET_READ (rl_lock l)\<rparr>, s)
       } else Some (l, s));
     s \<leftarrow> OsCritSectEnd s;
     Some ((OS_RES_OK, l), s)
   }"

definition RecursiveLockIsLocked :: "RecursiveLock_t \<Rightarrow> bool" where
  "RecursiveLockIsLocked l \<longleftrightarrow> rl_lock l AND RLOCK_MASK_COUNT \<noteq> 0"

definition RecursiveLockCountGet :: "RecursiveLock_t \<Rightarrow> U8_t" where
  "RecursiveLockCountGet l = RLOCK_COUNT_GET (rl_lock l)"

subsection \<open>The lock counts, and never enters write mode\<close>

lemma rlock_count:
  assumes "(l :: U8_t) < 128"
  shows "l AND RLOCK_MASK_COUNT = l" and "l AND RLOCK_MASK_MODE = 0"
proof -
  have "RLOCK_MASK_COUNT = mask 7" by (simp add: RLOCK_MASK_COUNT_def mask_eq_exp_minus_1)
  moreover have "take_bit 7 l = l"
    using assms by (simp add: word_unat_eq_iff unsigned_take_bit_eq take_bit_nat_eq_self word_less_nat_alt)
  ultimately show c: "l AND RLOCK_MASK_COUNT = l" by (simp add: take_bit_eq_mask)
  have "RLOCK_MASK_COUNT AND RLOCK_MASK_MODE = 0" by (simp add: RLOCK_MASK_COUNT_def RLOCK_MASK_MODE_def)
  then show "l AND RLOCK_MASK_MODE = 0" using c by (metis and.assoc and_zero_eq)
qed

lemmas rlock_defs = RLOCK_COUNT_GET_def RLOCK_COUNT_INC_def RLOCK_COUNT_DEC_def
  RLOCK_MODE_IS_WRITE_def RLOCK_MODE_SET_READ_def RLOCK_COUNT_MAX_VALUE_def

lemma RecursiveLockLock_eq:
  assumes "crit_ok s" and "rl_lock l < 128"
  shows "RecursiveLockLock l m w s =
     Some (if rl_lock l = 127 then (OS_RES_LOCKED, l)
           else if m = LOCK_MODE_WRITE then (OS_RES_OK, l\<lparr>rl_lock := rl_lock l + 1\<rparr>)
           else (OS_RES_ERROR, l), s)"
proof -
  have "rl_lock l \<le> 127" using assms by (simp add: word_less_nat_alt word_le_nat_alt)
  with assms show ?thesis
    by (cases m) (auto simp: RecursiveLockLock_def kcore rlock_defs rlock_count split: prod.splits)
qed

lemma RecursiveLockUnlock_eq:
  assumes "crit_ok s" and "rl_lock l < 128"
  shows "RecursiveLockUnlock l s =
     Some ((OS_RES_OK, l\<lparr>rl_lock := (if rl_lock l = 0 then 0 else rl_lock l - 1)\<rparr>), s)"
proof -
  have "rl_lock l - 1 < 128" if "rl_lock l \<noteq> 0"
    using assms that by (simp add: word_less_nat_alt unat_minus_one)
  with assms show ?thesis
    by (cases "rl_lock l = 0"; cases "rl_lock l = 1")
       (simp_all add: RecursiveLockUnlock_def kcore rlock_defs rlock_count word_gt_0 Let_def)
qed

text \<open>Runs of lock and unlock operations from an initialised lock.\<close>

datatype rlock_op = RLock LockMode_t Id_t | RUnlock

fun rlock_run :: "rlock_op list \<Rightarrow> RecursiveLock_t \<Rightarrow> 'a core_state_scheme \<Rightarrow>
    (OsResult_t list \<times> RecursiveLock_t) option" where
  "rlock_run [] l s = Some ([], l)"
| "rlock_run (RLock m w # ops) l s = do {
     ((r, l), s) \<leftarrow> RecursiveLockLock l m w s;
     (rs, l) \<leftarrow> rlock_run ops l s;
     Some (r # rs, l)
   }"
| "rlock_run (RUnlock # ops) l s = do {
     ((r, l), s) \<leftarrow> RecursiveLockUnlock l s;
     (rs, l) \<leftarrow> rlock_run ops l s;
     Some (r # rs, l)
   }"

text \<open>The abstract lock: a counter between 0 and 127 that only write requests raise.\<close>

fun rlock_spec :: "rlock_op list \<Rightarrow> nat \<Rightarrow> OsResult_t list \<times> nat" where
  "rlock_spec [] n = ([], n)"
| "rlock_spec (RLock m w # ops) n =
     (if n = 127 then apfst (Cons OS_RES_LOCKED) (rlock_spec ops n)
      else if m = LOCK_MODE_WRITE then apfst (Cons OS_RES_OK) (rlock_spec ops (n + 1))
      else apfst (Cons OS_RES_ERROR) (rlock_spec ops n))"
| "rlock_spec (RUnlock # ops) n = apfst (Cons OS_RES_OK) (rlock_spec ops (n - 1))"

lemma rlock_run_spec:
  "crit_ok s \<Longrightarrow> unat (rl_lock l) < 128 \<Longrightarrow>
     \<exists>l'. rlock_run ops l s = Some (fst (rlock_spec ops (unat (rl_lock l))), l')
       \<and> unat (rl_lock l') = snd (rlock_spec ops (unat (rl_lock l))) \<and> unat (rl_lock l') < 128"
proof (induction ops arbitrary: l)
  case (Cons op ops)
  have lt: "rl_lock l < 128" using Cons.prems by (simp add: word_less_nat_alt)
  have n127: "rl_lock l = 127 \<longleftrightarrow> unat (rl_lock l) = 127" by (simp add: word_unat_eq_iff)
  have inc: "unat (rl_lock l + 1) = unat (rl_lock l) + 1" if "unat (rl_lock l) \<noteq> 127"
    using Cons.prems that by (intro unat_inc) simp
  have dec: "unat (if rl_lock l = 0 then 0 else rl_lock l - 1) = unat (rl_lock l) - 1"
    by (auto simp: unat_minus_one)
  show ?case
  proof (cases op)
    case (RLock m w)
    then show ?thesis
      using Cons.prems Cons.IH [of l] Cons.IH [of "l\<lparr>rl_lock := rl_lock l + 1\<rparr>"] inc
      by (auto simp: RecursiveLockLock_eq lt n127)
  next
    case RUnlock
    have "unat (rl_lock l) - Suc 0 < 128" using Cons.prems by linarith
    with RUnlock show ?thesis
      using Cons.prems Cons.IH [of "l\<lparr>rl_lock := (if rl_lock l = 0 then 0 else rl_lock l - 1)\<rparr>"] dec
      by (auto simp: RecursiveLockUnlock_eq lt)
  qed
qed simp

text \<open>
  C24. From initialisation every sequence of lock and unlock calls returns, and answers as a counter bounded by 127
  does: write requests count up, unlocking counts down to 0 and always succeeds, and a read request never
  succeeds, since no request sets write mode.
\<close>

theorem RecursiveLock_counts:
  assumes "crit_ok s"
  shows "\<exists>l'. rlock_run ops (RecursiveLockInit l oid) s = Some (fst (rlock_spec ops 0), l')
     \<and> unat (RecursiveLockCountGet l') = snd (rlock_spec ops 0) \<and> snd (rlock_spec ops 0) < 128"
proof -
  obtain l' where "rlock_run ops (RecursiveLockInit l oid) s = Some (fst (rlock_spec ops 0), l')"
    "unat (rl_lock l') = snd (rlock_spec ops 0)" "unat (rl_lock l') < 128"
    using rlock_run_spec [OF assms, of "RecursiveLockInit l oid" ops] by (auto simp: RecursiveLockInit_def)
  moreover from this have "rl_lock l' AND RLOCK_MASK_COUNT = rl_lock l'"
    by (intro rlock_count) (simp add: word_less_nat_alt)
  ultimately show ?thesis by (auto simp: RecursiveLockCountGet_def RLOCK_COUNT_GET_def)
qed

theorem RecursiveLock_counts_witness:
  "\<exists>l'. rlock_run [RLock LOCK_MODE_WRITE 1, RLock LOCK_MODE_READ 1, RUnlock]
       (RecursiveLockInit \<lparr>rl_owner = 7, rl_object = 0, rl_lock = 9\<rparr> 3) core_bss =
     Some ([OS_RES_OK, OS_RES_ERROR, OS_RES_OK], l') \<and> RecursiveLockCountGet l' = 0"
proof -
  have "crit_ok core_bss" by (simp add: crit_ok_def core_bss_def)
  from RecursiveLock_counts [OF this, of "[RLock LOCK_MODE_WRITE 1, RLock LOCK_MODE_READ 1, RUnlock]"
      "\<lparr>rl_owner = 7, rl_object = 0, rl_lock = 9\<rparr>" 3]
  show ?thesis by (auto simp: unat_eq_zero)
qed

end
