(* ===== verification/Convert.thy ===== *)
theory Convert
  imports Core
begin

text \<open>
  \<^verbatim>\<open>Convert.c\<close>: conversions between result codes, times, bytes, integers and text. An output buffer is the
  list of its bytes; a function returns the buffer as it leaves it, and writing past the end is \<open>None\<close>.
  \<^verbatim>\<open>ConvertHexStringToId\<close> is in theory \<open>HexId\<close>.
\<close>

definition buf_write :: "U8_t list \<Rightarrow> nat \<Rightarrow> U8_t \<Rightarrow> U8_t list option" where
  "buf_write buf i b = (if i < length buf then Some (buf[i := b]) else None)"

fun buf_writes :: "U8_t list \<Rightarrow> nat \<Rightarrow> U8_t list \<Rightarrow> U8_t list option" where
  "buf_writes buf i [] = Some buf"
| "buf_writes buf i (b # bs) = do { buf \<leftarrow> buf_write buf i b; buf_writes buf (i + 1) bs }"

definition chars :: "string \<Rightarrow> U8_t list" where
  "chars = map (\<lambda>c. word_of_nat (of_char c))"

definition ConvertResultToString :: "OsResult_t \<Rightarrow> U8_t list \<Rightarrow> (U8_t \<times> U8_t list) option" where
  "ConvertResultToString result out_result_str = do {
     let (strlen, str) = (case result of
         OS_RES_OK \<Rightarrow> (9, ''OS_RES_OK'')
       | OS_RES_ERROR \<Rightarrow> (12, ''OS_RES_ERROR'')
       | OS_RES_CRIT_ERROR \<Rightarrow> (15, ''OS_RES_CRIT_ERR'')
       | OS_RES_FAIL \<Rightarrow> (11, ''OS_RES_FAIL'')
       | OS_RES_INVALID_ARGUMENT \<Rightarrow> (23, ''OS_RES_INVALID_ARGUMENT'')
       | OS_RES_LOCKED \<Rightarrow> (13, ''OS_RES_LOCKED'')
       | _ \<Rightarrow> (7, ''UNKNOWN''));
     out_result_str \<leftarrow> buf_writes out_result_str 0 (take strlen (chars str));
     out_result_str \<leftarrow> buf_write out_result_str strlen 0;
     Some (word_of_nat strlen, out_result_str)
   }"

text \<open>
  The two time conversions go through \<^verbatim>\<open>double\<close>. Both products and quotients fit its 53-bit significand
  closely enough for the truncation to be exact; a product of 2 ^ 32 or more is out of range of the
  conversion back and is left to \<open>env_d2u\<close>.
\<close>

definition ConvertUsToMs :: "U32_t \<Rightarrow> U32_t" where
  "ConvertUsToMs us = us div 1000"

definition ConvertMsToUs :: "U32_t \<Rightarrow> 'a core_state_scheme \<Rightarrow> U32_t" where
  "ConvertMsToUs ms s =
     (let x = unat ms * 1000 in if x < 2 ^ 32 then word_of_nat x else env_d2u s x)"

definition ConvertDecToChar :: "U8_t \<Rightarrow> U8_t" where
  "ConvertDecToChar decimal = (if decimal \<le> 9 then decimal + 48 else 0)"

definition ConvertCharToDec :: "U8_t \<Rightarrow> U8_t" where
  "ConvertCharToDec character = character - 48"

definition ConvertCharToHex :: "U8_t \<Rightarrow> U8_t" where
  "ConvertCharToHex character = 0"

definition ConvertIntToBytes :: "U32_t \<Rightarrow> U8_t \<Rightarrow> U8_t list \<Rightarrow> (U8_t \<times> U8_t list) option" where
  "ConvertIntToBytes integer num_bytes out_bytes =
     (if num_bytes = 0 \<or> num_bytes > 4 then Some (0, out_bytes)
      else do {
        out_bytes \<leftarrow> buf_write out_bytes 0 (ucast (integer AND 0x000000FF));
        out_bytes \<leftarrow> (if num_bytes > 1
          then buf_write out_bytes 1 (ucast (drop_bit 8 (integer AND 0x0000FF00))) else Some out_bytes);
        out_bytes \<leftarrow> (if num_bytes > 2
          then buf_write out_bytes 2 (ucast (drop_bit 16 (integer AND 0x00FF0000))) else Some out_bytes);
        out_bytes \<leftarrow> (if num_bytes > 3
          then buf_write out_bytes 3 (ucast (drop_bit 24 (integer AND 0xFF000000))) else Some out_bytes);
        Some (1, out_bytes)
      })"

definition buf_read :: "U8_t list \<Rightarrow> nat \<Rightarrow> U8_t option" where
  "buf_read buf i = (if i < length buf then Some (buf ! i) else None)"

definition ConvertBytesToInt :: "U8_t list \<Rightarrow> U8_t \<Rightarrow> U32_t option" where
  "ConvertBytesToInt bytes num_bytes =
     (if num_bytes = 0 \<or> num_bytes > 4 then Some 0
      else do {
        b \<leftarrow> buf_read bytes 0;
        let integer = 0 OR push_bit 24 (ucast b);
        integer \<leftarrow> (if num_bytes > 1
          then do { b \<leftarrow> buf_read bytes 1; Some (integer OR push_bit 16 (ucast b)) } else Some integer);
        integer \<leftarrow> (if num_bytes > 2
          then do { b \<leftarrow> buf_read bytes 2; Some (integer OR push_bit 8 (ucast b)) } else Some integer);
        integer \<leftarrow> (if num_bytes > 3
          then do { b \<leftarrow> buf_read bytes 3; Some (integer OR ucast b) } else Some integer);
        Some integer
      })"

text \<open>\<open>OsVer_t\<close> is a 16-bit word: major version in the top byte, minor and patch in the nibbles below.\<close>

definition ConvertOsVersionToString :: "U16_t \<Rightarrow> U8_t list \<Rightarrow> (U8_t \<times> U8_t list) option" where
  "ConvertOsVersionToString os_version out_os_version_str = do {
     (ok, parts) \<leftarrow> ConvertIntToBytes (ucast os_version) 2 [0, 0, 0];
     if ok = 1 then do {
       let parts = parts[2 := parts ! 1];
       let parts = parts[1 := drop_bit 4 (parts ! 0)];
       let parts = parts[0 := parts ! 0 AND 0x0F];
       out \<leftarrow> buf_writes out_os_version_str 0
         (chars ''V'' @ [ConvertDecToChar (parts ! 2)] @ chars ''.'' @ [ConvertDecToChar (parts ! 1)]
          @ chars ''.'' @ [ConvertDecToChar (parts ! 0)] @ [0]);
       Some (6, out)
     } else Some (0, out_os_version_str)
   }"

partial_function (option) IntToString_divisor :: "U32_t \<Rightarrow> U32_t \<Rightarrow> U32_t option" where
  "IntToString_divisor integer divisor =
     (if integer div divisor > 9 then IntToString_divisor integer (divisor * 10) else Some divisor)"

text \<open>
  The printing loop. The C code reads the cell of the buffer before it overwrites it: a space marks the
  last usable cell.
\<close>

partial_function (option) IntToString_print ::
  "U32_t \<Rightarrow> U32_t \<Rightarrow> U8_t \<Rightarrow> bool \<Rightarrow> U8_t list \<Rightarrow> (U8_t \<times> U8_t list) option" where
  "IntToString_print integer divisor i last_buffer_index buf = do {
     c \<leftarrow> buf_read buf (unat i);
     let last_buffer_index = (if c = 0x20 then True else last_buffer_index);
     buf \<leftarrow> buf_write buf (unat i) (48 + ucast (integer div divisor mod 10));
     let divisor = divisor div 10;
     let i = i + 1;
     if divisor > 0 \<and> i < 254 \<and> \<not> last_buffer_index
     then IntToString_print integer divisor i last_buffer_index buf
     else Some (i, buf)
   }"

definition ConvertIntToString :: "U32_t \<Rightarrow> U8_t list \<Rightarrow> (U8_t \<times> U8_t list) option" where
  "ConvertIntToString integer out_int_str = do {
     divisor \<leftarrow> IntToString_divisor integer 1;
     IntToString_print integer divisor 0 False out_int_str
   }"

subsection \<open>Decimal digits\<close>

text \<open>The decimal digits of a number, most significant first: what \<open>ConvertIntToString\<close> is to print.\<close>

fun dec_digits :: "nat \<Rightarrow> nat list" where
  "dec_digits n = (if n < 10 then [n] else dec_digits (n div 10) @ [n mod 10])"

declare dec_digits.simps [simp del]

definition dec_value :: "nat list \<Rightarrow> nat" where
  "dec_value = foldl (\<lambda>v d. 10 * v + d) 0"

lemma dec_value_digits: "dec_value (dec_digits n) = n"
proof (induction n rule: dec_digits.induct)
  case (1 n)
  then show ?case
    by (subst dec_digits.simps) (auto simp: dec_value_def)
qed

lemma dec_digits_length:
  "10 ^ (length (dec_digits n) - 1) \<le> max n 1 \<and> n < 10 ^ length (dec_digits n) \<and> dec_digits n \<noteq> []"
proof (induction n rule: dec_digits.induct)
  case (1 n)
  show ?case
  proof (cases "n < 10")
    case False
    define k where "k = length (dec_digits (n div 10))"
    have "1 \<le> n div 10" using False by (simp add: Suc_le_eq div_greater_zero_iff)
    then have "max (n div 10) 1 = n div 10" by (rule max_absorb1)
    with 1 [OF False] have IH: "10 ^ (k - 1) \<le> n div 10" "n div 10 < 10 ^ k" "0 < k"
      by (auto simp: k_def)
    from IH have "10 * 10 ^ (k - 1) \<le> n" "n < 10 * 10 ^ k" by linarith+
    moreover have "length (dec_digits n) = Suc k" using False by (simp add: dec_digits.simps [of n] k_def)
    moreover have "10 * 10 ^ (k - 1) = (10 :: nat) ^ k" using IH by (simp add: power_eq_if)
    ultimately show ?thesis by (auto simp: max_def dec_digits.simps [of n])
  qed (simp add: dec_digits.simps)
qed

lemma dec_digits_nth:
  "k < length (dec_digits n) \<Longrightarrow> dec_digits n ! k = n div 10 ^ (length (dec_digits n) - 1 - k) mod 10"
proof (induction n arbitrary: k rule: dec_digits.induct)
  case (1 n)
  show ?case
  proof (cases "n < 10")
    case False
    have e: "dec_digits n = dec_digits (n div 10) @ [n mod 10]" using False by (simp add: dec_digits.simps [of n])
    show ?thesis
    proof (cases "k < length (dec_digits (n div 10))")
      case True
      then have "length (dec_digits n) - 1 - k = Suc (length (dec_digits (n div 10)) - 1 - k)"
        by (simp add: e)
      with True show ?thesis by (simp add: e nth_append 1(1) [OF False] div_mult2_eq)
    next
      case f: False
      with 1(2) show ?thesis by (simp add: e nth_append)
    qed
  qed (use 1 in \<open>simp add: dec_digits.simps [of n]\<close>)
qed

lemma dec_digits_less: "\<forall>d \<in> set (dec_digits n). d < 10"
  by (induction n rule: dec_digits.induct) (subst dec_digits.simps, auto)

lemma dec_digits_length_U32: "length (dec_digits (unat (x :: U32_t))) \<le> 10"
proof (rule ccontr)
  assume "\<not> ?thesis"
  then have "(10 :: nat) ^ 10 \<le> 10 ^ (length (dec_digits (unat x)) - 1)"
    by (intro power_increasing) auto
  also have "\<dots> \<le> max (unat x) 1" using dec_digits_length by blast
  also have "\<dots> < 2 ^ 32" using unsigned_less [of x] by simp
  finally show False by simp
qed

lemma unat_pow10: "j \<le> 9 \<Longrightarrow> unat ((10 :: U32_t) ^ j) = 10 ^ j"
proof -
  assume "j \<le> 9"
  then have "(10 :: nat) ^ j \<le> 10 ^ 9" by (intro power_increasing) auto
  then have "unat (word_of_nat (10 ^ j) :: U32_t) = 10 ^ j" by (simp add: unat_of_nat del: of_nat_power)
  then show ?thesis by simp
qed

lemma unat_div_pow10: "j \<le> 9 \<Longrightarrow> unat ((x :: U32_t) div 10 ^ j) = unat x div 10 ^ j"
  by (simp add: unat_div unat_pow10)

lemma IntToString_divisor_step:
  fixes x :: U32_t
  assumes "j \<le> 9"
  shows "(x div 10 ^ j > 9) \<longleftrightarrow> 10 ^ Suc j \<le> unat x"
proof -
  have "(x div 10 ^ j > 9) \<longleftrightarrow> 10 \<le> unat x div 10 ^ j"
    using assms by (auto simp: word_less_nat_alt unat_div_pow10)
  then show ?thesis by (simp add: less_eq_div_iff_mult_less_eq)
qed

lemma IntToString_divisor_total:
  fixes x :: U32_t
  assumes "j \<le> length (dec_digits (unat x)) - 1"
  shows "IntToString_divisor x (10 ^ j) = Some (10 ^ (length (dec_digits (unat x)) - 1))"
  using assms
proof (induction "length (dec_digits (unat x)) - 1 - j" arbitrary: j)
  case (0 j)
  let ?L = "length (dec_digits (unat x))"
  have j: "j = ?L - 1" "Suc j = ?L" using 0 dec_digits_length [of "unat x"]
    by (cases "dec_digits (unat x)"; auto)+
  then have "\<not> 10 ^ Suc j \<le> unat x"
    using dec_digits_length [of "unat x"] by (simp only: not_le)
  with j show ?case
    using dec_digits_length_U32 [of x] IntToString_divisor_step [of j x]
    by (subst IntToString_divisor.simps) simp
next
  case (Suc m j)
  let ?L = "length (dec_digits (unat x))"
  have "10 ^ Suc j \<le> (10 :: nat) ^ (?L - 1)" using Suc by (intro power_increasing) auto
  then have "10 ^ Suc j \<le> max (unat x) 1" using dec_digits_length [of "unat x"] by linarith
  moreover have "(1 :: nat) < 10 ^ Suc j" by (rule one_less_power) auto
  ultimately have le: "10 ^ Suc j \<le> unat x" by linarith
  have "IntToString_divisor x (10 ^ Suc j) = Some (10 ^ (?L - 1))"
    using Suc.hyps(2) Suc.prems by (intro Suc.hyps(1)) auto
  with le show ?case
    using Suc dec_digits_length_U32 [of x] IntToString_divisor_step [of j x]
    by (subst IntToString_divisor.simps) (simp add: mult.commute)
qed

lemma pow10_div10: "j \<le> 9 \<Longrightarrow> 10 ^ j div 10 = (if j = 0 then 0 else 10 ^ (j - 1) :: U32_t)"
proof -
  assume "j \<le> 9"
  have pow: "(10 :: nat) ^ Suc k div 10 = 10 ^ k" for k by simp
  from \<open>j \<le> 9\<close> have "unat (10 ^ j div 10 :: U32_t) = 10 ^ j div 10"
    by (simp add: unat_div unat_pow10)
  also have "\<dots> = unat (if j = 0 then 0 else 10 ^ (j - 1) :: U32_t)"
    using \<open>j \<le> 9\<close> pow by (cases j) (simp_all add: unat_pow10 del: power_Suc of_nat_power)
  finally show ?thesis by (simp only: word_unat_eq_iff)
qed

definition digit_char :: "nat \<Rightarrow> U8_t" where "digit_char d = 48 + word_of_nat d"

lemma ucast_digit:
  "j \<le> 9 \<Longrightarrow> (48 :: U8_t) + ucast ((x :: U32_t) div 10 ^ j mod 10) = digit_char (unat x div 10 ^ j mod 10)"
proof -
  assume "j \<le> 9"
  then have "unat (x div 10 ^ j mod 10) = unat x div 10 ^ j mod 10"
    by (simp add: unat_mod unat_div_pow10)
  moreover have "ucast w = (word_of_nat (unat w) :: U8_t)" for w :: U32_t
    by simp
  ultimately show ?thesis by (simp only: digit_char_def)
qed

lemma IntToString_print_step:
  fixes x :: U32_t
  defines "L \<equiv> length (dec_digits (unat x))"
  assumes k: "k < L" "k < length buf" and space: "Suc k < L \<longrightarrow> buf ! k \<noteq> 0x20"
  defines "buf' \<equiv> buf[k := digit_char (dec_digits (unat x) ! k)]"
  shows "IntToString_print x (10 ^ (L - Suc k)) (word_of_nat k) False buf =
    (if Suc k < L then IntToString_print x (10 ^ (L - Suc (Suc k))) (word_of_nat (Suc k)) False buf'
     else Some (word_of_nat (Suc k), buf'))"
proof -
  have L: "L \<le> 10" using dec_digits_length_U32 by (simp add: L_def)
  have m: "L - Suc k \<le> 9" using L by simp
  have nk: "unat (word_of_nat k :: U8_t) = k" using k L by (simp add: unat_of_nat)
  have w: "buf_write buf k (48 + ucast (x div 10 ^ (L - Suc k) mod 10)) = Some buf'"
    using k dec_digits_nth [of k "unat x"] m
    by (subst ucast_digit) (simp_all add: buf_write_def L_def buf'_def)
  have d: "10 ^ (L - Suc k) div 10 = (if Suc k < L then 10 ^ (L - Suc (Suc k)) else 0 :: U32_t)"
    using pow10_div10 [OF m] k by auto
  have p: "(10 :: U32_t) ^ (L - Suc (Suc k)) > 0"
    using unat_pow10 [of "L - Suc (Suc k)"] m by (simp add: word_less_nat_alt)
  have i: "(word_of_nat k :: U8_t) + 1 = word_of_nat (Suc k)" by (simp add: add.commute)
  have b: "(word_of_nat (Suc k) :: U8_t) < 254"
    using k L by (simp add: word_less_nat_alt unat_of_nat del: of_nat_Suc)
  show ?thesis
    using k space
    by (subst IntToString_print.simps)
       (simp add: nk w d p i b buf_read_def Let_def del: power_Suc of_nat_Suc)
qed

lemma write_next:
  assumes "buf = take k ds @ drop k buf0" and "k < length ds" and "k < length buf0"
  shows "buf[k := ds ! k] = take (Suc k) ds @ drop (Suc k) buf0"
  using assms by (simp add: list_update_append take_Suc_conv_app_nth Cons_nth_drop_Suc [symmetric])

lemma IntToString_print_digits:
  fixes x :: U32_t
  defines "L \<equiv> length (dec_digits (unat x))"
  defines "ds \<equiv> map digit_char (dec_digits (unat x))"
  assumes "k < L" and "length buf = length buf0" and "L \<le> length buf0"
    and "\<forall>j < L - 1. buf0 ! j \<noteq> 0x20"
    and "buf = take k ds @ drop k buf0"
  shows "IntToString_print x (10 ^ (L - Suc k)) (word_of_nat k) False buf =
    Some (word_of_nat L, ds @ drop L buf0)"
  using assms(3-)
proof (induction "L - Suc k" arbitrary: k buf)
  case (0 k buf)
  have lds: "length ds = L" by (simp add: ds_def L_def)
  have "buf[k := ds ! k] = take (Suc k) ds @ drop (Suc k) buf0"
    using 0 lds by (intro write_next) auto
  moreover have "Suc k = L" using 0 by simp
  ultimately show ?case
    using IntToString_print_step [of k x buf] 0 lds by (simp add: L_def [symmetric] ds_def)
next
  case (Suc m k buf)
  have lds: "length ds = L" by (simp add: ds_def L_def)
  have w: "buf[k := ds ! k] = take (Suc k) ds @ drop (Suc k) buf0"
    using Suc.prems lds by (intro write_next) auto
  have "buf ! k = buf0 ! k"
    using Suc.prems lds by (simp add: nth_append)
  then have "buf ! k \<noteq> 0x20" using Suc by auto
  moreover have "IntToString_print x (10 ^ (L - Suc (Suc k))) (word_of_nat (Suc k)) False (buf[k := ds ! k]) =
      Some (word_of_nat L, ds @ drop L buf0)"
    using Suc.hyps Suc.prems w lds by (intro Suc.hyps(1)) auto
  moreover have "Suc k < L" using Suc by simp
  ultimately show ?case
    using IntToString_print_step [of k x buf] Suc.prems lds
    by (simp add: L_def ds_def del: of_nat_Suc)
qed

text \<open>
  C23. Written into a buffer that has room and no space character where its digits go, an integer comes out
  as its decimal digits, the number of digits is returned and the rest of the buffer is kept: in particular no
  terminating zero is written, although \<^verbatim>\<open>Convert.h\<close> documents a null-terminated string.
\<close>

theorem ConvertIntToString_digits:
  assumes "length (dec_digits (unat x)) \<le> length buf"
    and "\<forall>j < length (dec_digits (unat x)) - 1. buf ! j \<noteq> 0x20"
  shows "\<exists>ds. ConvertIntToString x buf =
      Some (word_of_nat (length ds), map digit_char ds @ drop (length ds) buf)
      \<and> dec_value ds = unat x \<and> (\<forall>d \<in> set ds. d < 10) \<and> length ds \<le> 10"
proof (intro exI conjI)
  let ?ds = "dec_digits (unat x)"
  have "?ds \<noteq> []" using dec_digits_length by blast
  then show "ConvertIntToString x buf =
      Some (word_of_nat (length ?ds), map digit_char ?ds @ drop (length ?ds) buf)"
    using IntToString_divisor_total [of 0 x] IntToString_print_digits [of 0 x buf buf] assms
    by (simp add: ConvertIntToString_def)
  show "dec_value ?ds = unat x" by (rule dec_value_digits)
  show "\<forall>d \<in> set ?ds. d < 10" by (rule dec_digits_less)
  show "length ?ds \<le> 10" by (rule dec_digits_length_U32)
qed

theorem ConvertIntToString_digits_witness:
  "\<exists>ds. ConvertIntToString 1205 [0, 0, 0, 0, 7] = Some (word_of_nat (length ds), map digit_char ds @ drop (length ds) [0, 0, 0, 0, 7])
     \<and> dec_value ds = 1205"
proof -
  have l: "length (dec_digits (unat (1205 :: U32_t))) = 4" by (simp add: dec_digits.simps)
  have "\<forall>j < 3. [0, 0, 0, 0, 7 :: U8_t] ! j \<noteq> 0x20"
    by (auto simp: less_Suc_eq numeral_3_eq_3)
  with ConvertIntToString_digits [of 1205 "[0, 0, 0, 0, 7]"] l show ?thesis by auto
qed

subsection \<open>Bytes\<close>

lemma byte_of_masked:
  fixes x :: U32_t
  shows "ucast (x AND 0x000000FF) = (ucast x :: U8_t)"
    and "ucast (drop_bit 8 (x AND 0x0000FF00)) = (ucast (drop_bit 8 x) :: U8_t)"
    and "ucast (drop_bit 16 (x AND 0x00FF0000)) = (ucast (drop_bit 16 x) :: U8_t)"
    and "ucast (drop_bit 24 (x AND 0xFF000000)) = (ucast (drop_bit 24 x) :: U8_t)"
proof -
  have m: "0xFF = (mask 8 :: U32_t)" "0xFF00 = (push_bit 8 (mask 8) :: U32_t)"
    "0xFF0000 = (push_bit 16 (mask 8) :: U32_t)" "0xFF000000 = (push_bit 24 (mask 8) :: U32_t)"
    by (simp_all add: mask_eq_exp_minus_1)
  show "ucast (x AND 0x000000FF) = (ucast x :: U8_t)"
    and "ucast (drop_bit 8 (x AND 0x0000FF00)) = (ucast (drop_bit 8 x) :: U8_t)"
    and "ucast (drop_bit 16 (x AND 0x00FF0000)) = (ucast (drop_bit 16 x) :: U8_t)"
    and "ucast (drop_bit 24 (x AND 0xFF000000)) = (ucast (drop_bit 24 x) :: U8_t)"
    unfolding m by (rule bit_word_eqI; auto simp: bit_simps)+
qed

lemma ConvertIntToBytes_4:
  "ConvertIntToBytes x 4 [a, b, c, d] =
     Some (1, [ucast x, ucast (drop_bit 8 x), ucast (drop_bit 16 x), ucast (drop_bit 24 x)])"
  by (simp add: ConvertIntToBytes_def buf_write_def byte_of_masked)

lemma ConvertBytesToInt_4:
  "ConvertBytesToInt [a, b, c, d] 4 =
     Some (push_bit 24 (ucast a) OR push_bit 16 (ucast b) OR push_bit 8 (ucast c) OR ucast d)"
  by (simp add: ConvertBytesToInt_def buf_read_def or.assoc)

lemma join_bytes:
  fixes x :: U32_t
  shows "push_bit 24 (ucast (ucast (drop_bit 24 x) :: U8_t)) OR push_bit 16 (ucast (ucast (drop_bit 16 x) :: U8_t))
      OR push_bit 8 (ucast (ucast (drop_bit 8 x) :: U8_t)) OR ucast (ucast x :: U8_t) = x"
  (is "?l = x")
proof (rule bit_word_eqI)
  fix n assume "n < LENGTH(32)"
  then show "bit ?l n = bit x n"
    by (cases "24 \<le> n"; cases "16 \<le> n"; cases "8 \<le> n"; simp add: bit_simps; linarith)
qed

text \<open>
  \<open>ConvertIntToBytes\<close> writes the integer little-endian, as its header says;
  \<open>ConvertBytesToInt\<close> reads four bytes big-endian. So reading the reversed bytes gives the integer back,
  and reading them as they were written gives the integer with its bytes swapped.
\<close>

lemma ConvertBytes_roundtrip:
  assumes "length buf = 4"
  shows "\<exists>bytes. ConvertIntToBytes x 4 buf = Some (1, bytes) \<and> ConvertBytesToInt (rev bytes) 4 = Some x
     \<and> ConvertBytesToInt bytes 4 =
         Some (push_bit 24 x OR push_bit 16 (take_bit 8 (drop_bit 8 x))
               OR push_bit 8 (take_bit 8 (drop_bit 16 x)) OR drop_bit 24 x)"
proof -
  obtain a b c d where "buf = [a, b, c, d]"
    using assms by (auto simp: eval_nat_numeral length_Suc_conv)
  moreover have "push_bit 24 (ucast (ucast x :: U8_t)) OR push_bit 16 (ucast (ucast (drop_bit 8 x) :: U8_t))
      OR push_bit 8 (ucast (ucast (drop_bit 16 x) :: U8_t)) OR ucast (ucast (drop_bit 24 x) :: U8_t) =
      push_bit 24 x OR push_bit 16 (take_bit 8 (drop_bit 8 x))
               OR push_bit 8 (take_bit 8 (drop_bit 16 x)) OR drop_bit 24 x"
    by (rule bit_word_eqI) (auto simp: bit_simps dest: bit_imp_le_length)
  ultimately show ?thesis
    by (simp add: ConvertIntToBytes_4 ConvertBytesToInt_4 join_bytes)
qed

lemma ConvertBytes_roundtrip_witness:
  "\<exists>bytes. ConvertIntToBytes 0x01020304 4 [0, 0, 0, 0] = Some (1, bytes)
     \<and> ConvertBytesToInt (rev bytes) 4 = Some 0x01020304"
  using ConvertBytes_roundtrip [of "[0, 0, 0, 0]" "0x01020304"] by auto

lemma ConvertMsToUs_exact:
  "unat ms * 1000 < 2 ^ 32 \<Longrightarrow> unat (ConvertMsToUs ms s) = unat ms * 1000"
  by (simp add: ConvertMsToUs_def unat_of_nat del: of_nat_mult)

lemma ConvertUsToMs_MsToUs:
  "unat ms * 1000 < 2 ^ 32 \<Longrightarrow> ConvertUsToMs (ConvertMsToUs ms s) = ms"
  by (simp add: ConvertUsToMs_def word_unat_eq_iff unat_div ConvertMsToUs_exact)

end
