(* ===== verification/Memory.thy ===== *)
theory Memory
  imports IdType Convert
begin

text \<open>
  \<^verbatim>\<open>Memory.c\<close>: the OS heap, its pools, and first-fit allocation in blocks of 16 bytes. The heap is the
  array \<open>OsHeap\<close> of \<open>TotalHeapSize\<close> bytes at address \<open>HeapBase\<close>; the first word of an allocation holds its
  size. Reading or writing outside the array, or outside the pool table, is \<open>None\<close>. Memory protection is
  switched off in the configuration and not modelled.
\<close>

definition MEM_NUM_POOLS :: nat where "MEM_NUM_POOLS = 2"
definition MEM_ALLOC_DATA_OFFSET :: nat where "MEM_ALLOC_DATA_OFFSET = 4"
definition MEM_ALLOC_SIZE_SIZE_BYTES :: U32_t where "MEM_ALLOC_SIZE_SIZE_BYTES = 4"
definition MEM_BLOCK_SIZE :: U32_t where "MEM_BLOCK_SIZE = 16"

definition MEM_BYTES_TO_BLOCKS :: "U32_t \<Rightarrow> U32_t" where
  "MEM_BYTES_TO_BLOCKS bytes =
     (if bytes mod MEM_BLOCK_SIZE \<noteq> 0 then bytes div MEM_BLOCK_SIZE + 1 else bytes div MEM_BLOCK_SIZE)"

record Pmb_t =
  start_index :: U32_t
  end_index :: U32_t
  pool_size :: U32_t
  mem_left :: U32_t
  pmb_N :: U32_t

record mem_state = id_state +
  HeapBase :: ptr
  OsHeap :: "nat \<Rightarrow> U8_t"
  PoolTable :: "Pmb_t list"
  TotalHeapPools :: Id_t
  TotalHeapSize :: U32_t
  HeapIndexEnd :: U32_t
  ObjectPoolId :: Id_t

subsection \<open>Access to the heap and to the pool table\<close>

definition heap_get32 :: "(nat \<Rightarrow> U8_t) \<Rightarrow> nat \<Rightarrow> U32_t" where
  "heap_get32 h i = push_bit 24 (ucast (h (i + 3))) OR push_bit 16 (ucast (h (i + 2)))
     OR push_bit 8 (ucast (h (i + 1))) OR ucast (h i)"

definition heap_put32 :: "(nat \<Rightarrow> U8_t) \<Rightarrow> nat \<Rightarrow> U32_t \<Rightarrow> (nat \<Rightarrow> U8_t)" where
  "heap_put32 h i v = h(i := ucast v, i + 1 := ucast (drop_bit 8 v), i + 2 := ucast (drop_bit 16 v),
     i + 3 := ucast (drop_bit 24 v))"

definition heap_zero :: "(nat \<Rightarrow> U8_t) \<Rightarrow> nat \<Rightarrow> nat \<Rightarrow> (nat \<Rightarrow> U8_t)" where
  "heap_zero h lo hi = (\<lambda>i. if lo \<le> i \<and> i < hi then 0 else h i)"

definition Heap_read32 :: "U32_t \<Rightarrow> 'a mem_state_scheme \<Rightarrow> U32_t option" where
  "Heap_read32 i s =
     (if unat i + 4 \<le> unat (TotalHeapSize s) then Some (heap_get32 (OsHeap s) (unat i)) else None)"

definition Heap_write32 :: "U32_t \<Rightarrow> U32_t \<Rightarrow> 'a mem_state_scheme \<Rightarrow> 'a mem_state_scheme option" where
  "Heap_write32 i v s =
     (if unat i + 4 \<le> unat (TotalHeapSize s)
      then Some (s\<lparr>OsHeap := heap_put32 (OsHeap s) (unat i) v\<rparr>) else None)"

text \<open>The loops that write zero to the cells from \<open>lo\<close> up to, but not including, \<open>hi\<close>.\<close>

definition Heap_clear :: "nat \<Rightarrow> nat \<Rightarrow> 'a mem_state_scheme \<Rightarrow> 'a mem_state_scheme option" where
  "Heap_clear lo hi s =
     (if lo < hi \<and> unat (TotalHeapSize s) < hi then None
      else Some (s\<lparr>OsHeap := heap_zero (OsHeap s) lo hi\<rparr>))"

definition Pool_at :: "Id_t \<Rightarrow> 'a mem_state_scheme \<Rightarrow> Pmb_t option" where
  "Pool_at i s = (if unat i < length (PoolTable s) then Some (PoolTable s ! unat i) else None)"

definition Pool_update :: "Id_t \<Rightarrow> (Pmb_t \<Rightarrow> Pmb_t) \<Rightarrow> 'a mem_state_scheme \<Rightarrow> 'a mem_state_scheme" where
  "Pool_update i f s = s\<lparr>PoolTable := (PoolTable s)[unat i := f (PoolTable s ! unat i)]\<rparr>"

text \<open>The search loops over the pool table: the first pool below \<open>TotalHeapPools\<close> with the property.\<close>

definition Pool_find :: "(Pmb_t \<Rightarrow> bool) \<Rightarrow> 'a mem_state_scheme \<Rightarrow> Id_t option" where
  "Pool_find P s =
     (if unat (TotalHeapPools s) \<le> length (PoolTable s)
      then Some (case find (\<lambda>i. P (PoolTable s ! i)) [0 ..< unat (TotalHeapPools s)] of
                   Some i \<Rightarrow> word_of_nat i | None \<Rightarrow> ID_INVALID)
      else None)"

definition IPoolIdFromIndex :: "U32_t \<Rightarrow> 'a mem_state_scheme \<Rightarrow> Id_t option" where
  "IPoolIdFromIndex index s =
     Pool_find (\<lambda>p. index \<ge> start_index p \<and> index \<le> end_index p \<and> pool_size p > 0) s"

definition IPoolIdFromPointer :: "ptr \<Rightarrow> 'a mem_state_scheme \<Rightarrow> Id_t option" where
  "IPoolIdFromPointer p s =
     Pool_find (\<lambda>q. pool_size q > 0 \<and> p \<ge> HeapBase s + unat (start_index q)
                  \<and> p < HeapBase s + unat (end_index q)) s"

subsection \<open>Pools\<close>

text \<open>The search for an unused block: the table is read before the bound is tested.\<close>

partial_function (option) MemPoolCreate_search :: "Id_t \<Rightarrow> 'a mem_state_scheme \<Rightarrow> Id_t option" where
  "MemPoolCreate_search pool_id s = do {
     p \<leftarrow> Pool_at pool_id s;
     if pool_size p > 0 \<and> pool_id < TotalHeapPools s
     then MemPoolCreate_search (pool_id + 1) s
     else Some pool_id
   }"

partial_function (option) MemPoolCreate_scan ::
  "U32_t \<Rightarrow> U32_t \<Rightarrow> U32_t \<Rightarrow> U32_t \<Rightarrow> 'a mem_state_scheme \<Rightarrow> (U32_t \<times> U32_t \<times> U32_t) option" where
  "MemPoolCreate_scan blocks_req blocks_found index index_offset s =
     (if blocks_found < blocks_req \<and> index + index_offset < HeapIndexEnd s then do {
        tmp_pool_id \<leftarrow> IPoolIdFromIndex (index + index_offset) s;
        if tmp_pool_id = ID_INVALID
        then MemPoolCreate_scan blocks_req (blocks_found + 1) index (index_offset + MEM_BLOCK_SIZE) s
        else do {
          p \<leftarrow> Pool_at tmp_pool_id s;
          MemPoolCreate_scan blocks_req 0 (end_index p + 1) 0 s
        }
      } else Some (blocks_found, index, index_offset))"

definition MemPoolCreate :: "U32_t \<Rightarrow> 'a mem_state_scheme \<Rightarrow> (Id_t \<times> 'a mem_state_scheme) option" where
  "MemPoolCreate psize s =
     (if psize = 0 \<or> psize > TotalHeapSize s then Some (ID_INVALID, s)
      else do {
        s \<leftarrow> OsCritSectBegin s;
        pool_id \<leftarrow> MemPoolCreate_search 0 s;
        if pool_id \<ge> TotalHeapPools s then do {
          s \<leftarrow> OsCritSectEnd s;
          Some (ID_INVALID, s)
        } else do {
          let blocks_req = MEM_BYTES_TO_BLOCKS psize;
          (blocks_found, index, index_offset) \<leftarrow> MemPoolCreate_scan blocks_req 0 0 0 s;
          let (pool_id, s) =
            (if blocks_found \<ge> blocks_req
             then (pool_id, Pool_update pool_id (\<lambda>p. p\<lparr>end_index := index + index_offset - 1,
                     start_index := index, mem_left := psize, pool_size := psize, pmb_N := 0\<rparr>) s)
             else (ID_INVALID, s));
          s \<leftarrow> OsCritSectEnd s;
          Some (pool_id, s)
        }
      })"

definition KMemInit ::
  "ptr \<Rightarrow> U32_t \<Rightarrow> U32_t \<Rightarrow> Pmb_t list option \<Rightarrow> 'a mem_state_scheme \<Rightarrow>
     (OsResult_t \<times> 'a mem_state_scheme) option" where
  "KMemInit heap heap_size user_heap_size pool_table s =
     (case pool_table of
        None \<Rightarrow> Some (OS_RES_INVALID_ARGUMENT, s)
      | Some table \<Rightarrow>
          if heap = NULL \<or> heap_size = 0 then Some (OS_RES_INVALID_ARGUMENT, s)
          else if length table < MEM_NUM_POOLS then None
          else do {
            let s = s\<lparr>HeapBase := heap, PoolTable := table, TotalHeapPools := word_of_nat MEM_NUM_POOLS,
                      TotalHeapSize := heap_size, HeapIndexEnd := heap_size - 1\<rparr>;
            let s = s\<lparr>PoolTable :=
                map (\<lambda>p. p\<lparr>start_index := 0, end_index := 0, pool_size := 0, mem_left := 0\<rparr>)
                  (take MEM_NUM_POOLS (PoolTable s)) @ drop MEM_NUM_POOLS (PoolTable s)\<rparr>;
            s \<leftarrow> Heap_clear 0 (unat (TotalHeapSize s)) s;
            (pid, s) \<leftarrow> MemPoolCreate (TotalHeapSize s - user_heap_size) s;
            let s = s\<lparr>ObjectPoolId := pid\<rparr>;
            Some (if pid = ID_INVALID then OS_RES_CRIT_ERROR else OS_RES_OK, s)
          })"

definition MemPoolFormat :: "Id_t \<Rightarrow> 'a mem_state_scheme \<Rightarrow> (OsResult_t \<times> 'a mem_state_scheme) option" where
  "MemPoolFormat pool_id s =
     (if pool_id \<ge> TotalHeapPools s then Some (OS_RES_INVALID_ID, s)
      else if pool_id = ObjectPoolId s \<and> KCoreFlagGet CORE_FLAG_KERNEL_MODE s = 0
      then Some (OS_RES_RESTRICTED, s)
      else do {
        s \<leftarrow> OsCritSectBegin s;
        p \<leftarrow> Pool_at pool_id s;
        s \<leftarrow> Heap_clear (unat (start_index p)) (unat (end_index p)) s;
        let s = Pool_update pool_id (\<lambda>p. p\<lparr>mem_left := pool_size p, pmb_N := 0\<rparr>) s;
        s \<leftarrow> OsCritSectEnd s;
        Some (OS_RES_OK, s)
      })"

definition MemPoolDelete :: "Id_t \<Rightarrow> 'a mem_state_scheme \<Rightarrow> (OsResult_t \<times> 'a mem_state_scheme) option" where
  "MemPoolDelete pool_id s =
     (if pool_id \<ge> TotalHeapPools s then Some (OS_RES_INVALID_ID, s)
      else if pool_id = ObjectPoolId s then Some (OS_RES_RESTRICTED, s)
      else do {
        s \<leftarrow> OsCritSectBegin s;
        (r, s) \<leftarrow> MemPoolFormat pool_id s;
        p \<leftarrow> Pool_at pool_id s;
        let s = Pool_update pool_id
                  (\<lambda>p. p\<lparr>pool_size := 0, end_index := 0, start_index := 0, mem_left := 0\<rparr>) s;
        s \<leftarrow> OsCritSectEnd s;
        Some (OS_RES_OK, s)
      })"

definition MemPoolFreeSpaceGet :: "Id_t \<Rightarrow> 'a mem_state_scheme \<Rightarrow> (U32_t \<times> 'a mem_state_scheme) option" where
  "MemPoolFreeSpaceGet pool_id s =
     (if pool_id \<ge> TotalHeapPools s then Some (0, s)
      else do {
        s \<leftarrow> OsCritSectBegin s;
        p \<leftarrow> Pool_at pool_id s;
        s \<leftarrow> OsCritSectEnd s;
        Some (mem_left p, s)
      })"

definition MemPoolUsedSpaceGet :: "Id_t \<Rightarrow> 'a mem_state_scheme \<Rightarrow> (U32_t \<times> 'a mem_state_scheme) option" where
  "MemPoolUsedSpaceGet pool_id s =
     (if pool_id \<ge> TotalHeapPools s then Some (0, s)
      else do {
        s \<leftarrow> OsCritSectBegin s;
        p \<leftarrow> Pool_at pool_id s;
        s \<leftarrow> OsCritSectEnd s;
        Some (pool_size p - mem_left p, s)
      })"

text \<open>The loop counts in a byte, so it would not end for more than 255 pools.\<close>

definition MemOsHeapFreeSpaceGet :: "'a mem_state_scheme \<Rightarrow> (U32_t \<times> 'a mem_state_scheme) option" where
  "MemOsHeapFreeSpaceGet s = do {
     s \<leftarrow> OsCritSectBegin s;
     total_data \<leftarrow> (if TotalHeapPools s > 255 \<or> length (PoolTable s) < unat (TotalHeapPools s) then None
        else Some (foldl (\<lambda>total p. if pool_size p \<noteq> 0 then total + (pool_size p - mem_left p) else total) 0
                     (take (unat (TotalHeapPools s)) (PoolTable s))));
     s \<leftarrow> OsCritSectEnd s;
     Some (TotalHeapSize s - total_data, s)
   }"

subsection \<open>Allocation\<close>

partial_function (option) MemAlloc_scan ::
  "U32_t \<Rightarrow> U32_t \<Rightarrow> U32_t \<Rightarrow> U32_t \<Rightarrow> U32_t \<Rightarrow> 'a mem_state_scheme \<Rightarrow>
     (U32_t \<times> U32_t) option" where
  "MemAlloc_scan size_blocks pool_end blocks_found index index_offset s =
     (if blocks_found < size_blocks \<and> index + index_offset < pool_end then do {
        w \<leftarrow> Heap_read32 (index + index_offset) s;
        if w = 0
        then MemAlloc_scan size_blocks pool_end (blocks_found + 1) index (index_offset + MEM_BLOCK_SIZE) s
        else MemAlloc_scan size_blocks pool_end 0 (index + (index_offset + w)) 0 s
      } else Some (blocks_found, index))"

definition MemAlloc :: "Id_t \<Rightarrow> U32_t \<Rightarrow> 'a mem_state_scheme \<Rightarrow> (ptr \<times> 'a mem_state_scheme) option" where
  "MemAlloc pool_id nbytes s =
     (if nbytes = 0 then Some (NULL, s)
      else if pool_id \<ge> TotalHeapPools s then Some (NULL, s)
      else do {
        p \<leftarrow> Pool_at pool_id s;
        if mem_left p < nbytes then Some (NULL, s)
        else if pool_id = ObjectPoolId s \<and> KCoreFlagGet CORE_FLAG_KERNEL_MODE s = 0 then Some (NULL, s)
        else do {
          s \<leftarrow> OsCritSectBegin s;
          let nbytes = nbytes + MEM_ALLOC_SIZE_SIZE_BYTES;
          let size_blocks = MEM_BYTES_TO_BLOCKS nbytes;
          let nbytes = size_blocks * MEM_BLOCK_SIZE;
          (blocks_found, index) \<leftarrow> MemAlloc_scan size_blocks (end_index p) 0 (start_index p) 0 s;
          (addr, s) \<leftarrow> (if blocks_found \<ge> size_blocks then do {
              s \<leftarrow> Heap_write32 index nbytes s;
              let addr = HeapBase s + (unat index + MEM_ALLOC_DATA_OFFSET);
              Some (addr, Pool_update pool_id (\<lambda>p. p\<lparr>mem_left := mem_left p - nbytes, pmb_N := pmb_N p + 1\<rparr>) s)
            } else Some (NULL, s));
          s \<leftarrow> OsCritSectEnd s;
          Some (addr, s)
        }
      })"

text \<open>
  A \<^verbatim>\<open>void **\<close> argument is the pointer it points to, or \<open>None\<close> when it is null; the call returns the
  pointer's new value.
\<close>

definition MemFree ::
  "ptr option \<Rightarrow> 'a mem_state_scheme \<Rightarrow> ((OsResult_t \<times> ptr option) \<times> 'a mem_state_scheme) option" where
  "MemFree pp s =
     (case pp of None \<Rightarrow> Some ((OS_RES_INVALID_ARGUMENT, None), s)
      | Some tmp_ptr \<Rightarrow> do {
          pool_id \<leftarrow> IPoolIdFromPointer tmp_ptr s;
          if pool_id = ID_INVALID then Some ((OS_RES_ERROR, pp), s)
          else if pool_id = ObjectPoolId s \<and> KCoreFlagGet CORE_FLAG_KERNEL_MODE s = 0
          then Some ((OS_RES_RESTRICTED, pp), s)
          else do {
            s \<leftarrow> OsCritSectBegin s;
            index \<leftarrow> (if HeapBase s + MEM_ALLOC_DATA_OFFSET \<le> tmp_ptr
                      then Some (tmp_ptr - HeapBase s - MEM_ALLOC_DATA_OFFSET) else None);
            nbytes \<leftarrow> Heap_read32 (word_of_nat index) s;
            s \<leftarrow> Heap_clear index (index + unat nbytes) s;
            let s = Pool_update pool_id (\<lambda>p. p\<lparr>mem_left := mem_left p + nbytes, pmb_N := pmb_N p - 1\<rparr>) s;
            s \<leftarrow> OsCritSectEnd s;
            Some ((OS_RES_OK, Some NULL), s)
          }
        })"

definition MemAllocSizeGet :: "ptr \<Rightarrow> 'a mem_state_scheme \<Rightarrow> U32_t option" where
  "MemAllocSizeGet p s =
     (if p = NULL then Some 0
      else do {
        pool_id \<leftarrow> IPoolIdFromPointer p s;
        if pool_id = ObjectPoolId s \<and> KCoreFlagGet CORE_FLAG_KERNEL_MODE s = 0 then Some 0
        else if pool_id = ID_INVALID then Some 0
        else do {
          pool \<leftarrow> Pool_at pool_id s;
          w \<leftarrow> Heap_read32 (start_index pool) s;
          Some (w - MEM_ALLOC_SIZE_SIZE_BYTES)
        }
      })"

text \<open>The copy loop of \<open>MemReAlloc\<close>, byte by byte and upwards, \<open>n\<close> bytes left.\<close>

fun MemReAlloc_copy :: "nat \<Rightarrow> ptr \<Rightarrow> ptr \<Rightarrow> 'a mem_state_scheme \<Rightarrow> 'a mem_state_scheme option" where
  "MemReAlloc_copy 0 dst src s = Some s"
| "MemReAlloc_copy (Suc n) dst src s =
     (if HeapBase s \<le> dst \<and> dst < HeapBase s + unat (TotalHeapSize s)
         \<and> HeapBase s \<le> src \<and> src < HeapBase s + unat (TotalHeapSize s)
      then MemReAlloc_copy n (dst + 1) (src + 1)
             (s\<lparr>OsHeap := (OsHeap s)(dst - HeapBase s := OsHeap s (src - HeapBase s))\<rparr>)
      else None)"

definition MemReAlloc ::
  "Id_t \<Rightarrow> Id_t \<Rightarrow> ptr option \<Rightarrow> U32_t \<Rightarrow> 'a mem_state_scheme \<Rightarrow>
     ((OsResult_t \<times> ptr option) \<times> 'a mem_state_scheme) option" where
  "MemReAlloc cur_pool_id new_pool_id pp new_size s =
     (case pp of None \<Rightarrow> Some ((OS_RES_INVALID_ARGUMENT, pp), s)
      | Some p \<Rightarrow>
        if new_size = 0 then Some ((OS_RES_INVALID_ARGUMENT, pp), s)
        else if cur_pool_id \<ge> TotalHeapPools s \<or> new_pool_id \<ge> TotalHeapPools s
        then Some ((OS_RES_INVALID_ID, pp), s)
        else if (cur_pool_id = ObjectPoolId s \<or> new_pool_id = ObjectPoolId s)
                \<and> KCoreFlagGet CORE_FLAG_KERNEL_MODE s = 0
        then Some ((OS_RES_RESTRICTED, pp), s)
        else do {
          let new_pool_id = (if new_pool_id = ID_INVALID then cur_pool_id else new_pool_id);
          s \<leftarrow> OsCritSectBegin s;
          nbytes \<leftarrow> MemAllocSizeGet p s;
          (tmp_ptr, s) \<leftarrow> MemAlloc new_pool_id new_size s;
          if tmp_ptr = NULL then do {
            s \<leftarrow> OsCritSectEnd s;
            Some ((OS_RES_FAIL, pp), s)
          } else do {
            s \<leftarrow> MemReAlloc_copy (min (unat nbytes) (unat new_size)) tmp_ptr p s;
            (r, s) \<leftarrow> MemFree pp s;
            s \<leftarrow> OsCritSectEnd s;
            Some ((OS_RES_OK, Some tmp_ptr), s)
          }
        })"

text \<open>
  \<open>KMemAllocObject\<close> gives the object and the value of \<^verbatim>\<open>*obj_data\<close>. Every failure ends in \<^verbatim>\<open>while(1)\<close>, before
  the return of \<^verbatim>\<open>NULL\<close> that its callers test for.
\<close>

definition KMemAllocObject ::
  "U32_t \<Rightarrow> U32_t \<Rightarrow> ptr option \<Rightarrow> 'a mem_state_scheme \<Rightarrow>
     ((ptr \<times> ptr option) \<times> 'a mem_state_scheme) option" where
  "KMemAllocObject obj_size obj_data_size obj_data s = do {
     s \<leftarrow> OsCritSectBegin s;
     (n, s) \<leftarrow> KCoreKernelModeEnter s;
     (free, s) \<leftarrow> MemPoolFreeSpaceGet (ObjectPoolId s) s;
     if free < obj_size + obj_data_size then None
     else do {
       (obj, s) \<leftarrow> MemAlloc (ObjectPoolId s) obj_size s;
       if obj = NULL then None
       else do {
         (obj_data, s) \<leftarrow> (if obj_data_size \<noteq> 0 then
             (case obj_data of None \<Rightarrow> None
              | Some d \<Rightarrow> do {
                  (d, s) \<leftarrow> MemAlloc (ObjectPoolId s) obj_data_size s;
                  if d \<noteq> NULL then Some (Some d, s) else None
                })
           else Some (obj_data, s));
         (n, s) \<leftarrow> KCoreKernelModeExit s;
         s \<leftarrow> OsCritSectEnd s;
         Some ((obj, obj_data), s)
       }
     }
   }"

definition KMemFreeObject ::
  "ptr option \<Rightarrow> ptr option \<Rightarrow> 'a mem_state_scheme \<Rightarrow>
     ((OsResult_t \<times> ptr option \<times> ptr option) \<times> 'a mem_state_scheme) option" where
  "KMemFreeObject obj obj_data s = do {
     (n, s) \<leftarrow> KCoreKernelModeEnter s;
     ((result, obj_data), s) \<leftarrow> MemFree obj_data s;
     ((result, obj), s) \<leftarrow> MemFree obj s;
     (n, s) \<leftarrow> KCoreKernelModeExit s;
     Some ((result, obj, obj_data), s)
   }"

end
