(* ===== verification/Lists.thy ===== *)
theory Lists
  imports Memory
begin

text \<open>
  \<^verbatim>\<open>List.c\<close>: doubly linked lists of nodes embedded in kernel objects. A node is known by its address, which
  is the address of the object it is the first member of; \<open>child\<close> points to an object. Dereferencing
  \<open>NULL\<close> or a node that does not exist is \<open>None\<close>.

  The lock byte of a list or a node holds a read count in six bits and the write-mode flag in the top bit.
  \<open>UtilLock\<close> and \<open>UtilUnlock\<close> take the byte and give its new value. Every function that changes a list ends
  with the integrity check, which the configuration switches on. \<^verbatim>\<open>ListPrintToBuffer\<close> only formats text and
  is not modelled.
\<close>

definition LIST_ITERATOR_DIRECTION_FORWARD :: U8_t where "LIST_ITERATOR_DIRECTION_FORWARD = 0x00"
definition LIST_ITERATOR_DIRECTION_REVERSE :: U8_t where "LIST_ITERATOR_DIRECTION_REVERSE = 0x01"
definition LIST_POSITION_HEAD :: U8_t where "LIST_POSITION_HEAD = 0x00"
definition LIST_POSITION_TAIL :: U8_t where "LIST_POSITION_TAIL = 0x01"
definition LIST_ADD_BEFORE :: U8_t where "LIST_ADD_BEFORE = 0x00"
definition LIST_ADD_AFTER :: U8_t where "LIST_ADD_AFTER = 0x01"
definition LIST_LOCK_MODE_READ :: U8_t where "LIST_LOCK_MODE_READ = 0x00"
definition LIST_LOCK_MODE_WRITE :: U8_t where "LIST_LOCK_MODE_WRITE = 0x01"
definition LIST_LOCK_READ_COUNT_MAX :: U8_t where "LIST_LOCK_READ_COUNT_MAX = 63"
definition LIST_SIZE_MAX :: U16_t where "LIST_SIZE_MAX = 0xFFFF"

definition LIST_INTEGRITY_RESULT_NO_ELEMENTS :: int where "LIST_INTEGRITY_RESULT_NO_ELEMENTS = 3"
definition LIST_INTEGRITY_RESULT_LOCKED :: int where "LIST_INTEGRITY_RESULT_LOCKED = 2"
definition LIST_INTEGRITY_RESULT_NULL :: int where "LIST_INTEGRITY_RESULT_NULL = 1"
definition LIST_INTEGRITY_RESULT_LIST_INTACT :: int where "LIST_INTEGRITY_RESULT_LIST_INTACT = 0"
definition LIST_INTEGRITY_RESULT_CORRUPT_NAV_FW :: int where "LIST_INTEGRITY_RESULT_CORRUPT_NAV_FW = -1"
definition LIST_INTEGRITY_RESULT_CORRUPT_NAV_BW :: int where "LIST_INTEGRITY_RESULT_CORRUPT_NAV_BW = -2"
definition LIST_INTEGRITY_RESULT_CORRUPT_NAV_BOTH :: int where "LIST_INTEGRITY_RESULT_CORRUPT_NAV_BOTH = -3"
definition LIST_INTEGRITY_RESULT_CORRUPT_HEAD :: int where "LIST_INTEGRITY_RESULT_CORRUPT_HEAD = -4"
definition LIST_INTEGRITY_RESULT_CORRUPT_TAIL :: int where "LIST_INTEGRITY_RESULT_CORRUPT_TAIL = -5"

type_synonym ListSize_t = U16_t

record ListNode_t =
  node_id :: Id_t
  node_lock :: U8_t
  child :: ptr
  next_node :: ptr
  prev_node :: ptr

record LinkedList_t =
  ll_head :: ptr
  ll_tail :: ptr
  ll_middle :: ptr
  ll_size :: ListSize_t
  ll_lock :: U8_t
  ll_sorted :: bool
  ll_id_group :: IdGroup_t

record ListIterator =
  it_direction :: U8_t
  it_list :: lptr
  it_prev_node :: ptr
  it_current_node :: ptr
  it_current_position :: ListSize_t
  it_next_node :: ptr

record list_state = mem_state +
  nodes :: "ptr \<Rightarrow> ListNode_t option"
  lists :: "lptr \<Rightarrow> LinkedList_t option"

subsection \<open>Access through pointers\<close>

definition node_at :: "ptr \<Rightarrow> 'a list_state_scheme \<Rightarrow> ListNode_t option" where
  "node_at p s = (if p = NULL then None else nodes s p)"

definition ll_at :: "lptr \<Rightarrow> 'a list_state_scheme \<Rightarrow> LinkedList_t option" where
  "ll_at l s = (if l = LNULL then None else lists s l)"

definition node_update :: "ptr \<Rightarrow> (ListNode_t \<Rightarrow> ListNode_t) \<Rightarrow> 'a list_state_scheme \<Rightarrow> 'a list_state_scheme option" where
  "node_update p f s = do { n \<leftarrow> node_at p s; Some (s\<lparr>nodes := (nodes s)(p \<mapsto> f n)\<rparr>) }"

definition ll_update :: "lptr \<Rightarrow> (LinkedList_t \<Rightarrow> LinkedList_t) \<Rightarrow> 'a list_state_scheme \<Rightarrow> 'a list_state_scheme option" where
  "ll_update l f s = do { ll \<leftarrow> ll_at l s; Some (s\<lparr>lists := (lists s)(l \<mapsto> f ll)\<rparr>) }"

subsection \<open>Locks\<close>

definition LOCK_MASK_MODE :: U8_t where "LOCK_MASK_MODE = 0x80"
definition LOCK_MASK_COUNT :: U8_t where "LOCK_MASK_COUNT = 0x3F"

definition LOCK_MODE_SET_WRITE :: "U8_t \<Rightarrow> U8_t" where "LOCK_MODE_SET_WRITE lock = lock OR LOCK_MASK_MODE"
definition LOCK_MODE_SET_READ :: "U8_t \<Rightarrow> U8_t" where "LOCK_MODE_SET_READ lock = lock AND NOT LOCK_MASK_MODE"

definition LOCK_COUNT_INC :: "U8_t \<Rightarrow> U8_t" where
  "LOCK_COUNT_INC lock = (if lock AND LOCK_MASK_COUNT < LIST_LOCK_READ_COUNT_MAX then lock + 1 else lock)"

definition LOCK_COUNT_DEC :: "U8_t \<Rightarrow> U8_t" where
  "LOCK_COUNT_DEC lock = (if lock AND LOCK_MASK_COUNT > 0 then lock - 1 else lock)"

definition LOCK_COUNT_GET :: "U8_t \<Rightarrow> U8_t" where "LOCK_COUNT_GET lock = lock AND LOCK_MASK_COUNT"
definition LOCK_MODE_IS_READ :: "U8_t \<Rightarrow> bool" where "LOCK_MODE_IS_READ lock \<longleftrightarrow> lock AND LOCK_MASK_MODE = 0"

definition UtilLock ::
  "U8_t \<Rightarrow> U8_t \<Rightarrow> 'a core_state_scheme \<Rightarrow> ((OsResult_t \<times> U8_t) \<times> 'a core_state_scheme) option" where
  "UtilLock lock mode s = do {
     s \<leftarrow> OsCritSectBegin s;
     let (result, lock) =
       (if mode = LIST_LOCK_MODE_READ then
          (if LOCK_MODE_IS_READ lock then
             (if LOCK_COUNT_GET lock = LIST_LOCK_READ_COUNT_MAX then (OS_RES_LOCKED, lock)
              else (OS_RES_OK, LOCK_COUNT_INC lock))
           else (OS_RES_LOCKED, lock))
        else if mode = LIST_LOCK_MODE_WRITE then
          (if LOCK_COUNT_GET lock = 0 then (OS_RES_OK, LOCK_COUNT_INC (LOCK_MODE_SET_WRITE lock))
           else (OS_RES_LOCKED, lock))
        else (OS_RES_ERROR, lock));
     s \<leftarrow> OsCritSectEnd s;
     Some ((result, lock), s)
   }"

definition UtilUnlock ::
  "U8_t \<Rightarrow> 'a core_state_scheme \<Rightarrow> ((OsResult_t \<times> U8_t) \<times> 'a core_state_scheme) option" where
  "UtilUnlock lock s = do {
     s \<leftarrow> OsCritSectBegin s;
     let (result, lock) =
       (if LOCK_COUNT_GET lock \<noteq> 0 then
          (let lock = LOCK_COUNT_DEC lock
           in (OS_RES_OK, if LOCK_COUNT_GET lock = 0 then LOCK_MODE_SET_READ lock else lock))
        else (OS_RES_ERROR, lock));
     s \<leftarrow> OsCritSectEnd s;
     Some ((result, lock), s)
   }"

definition ListLock :: "lptr \<Rightarrow> U8_t \<Rightarrow> 'a list_state_scheme \<Rightarrow> (OsResult_t \<times> 'a list_state_scheme) option" where
  "ListLock list mode s =
     (if list = LNULL then Some (OS_RES_INVALID_ARGUMENT, s)
      else do {
        ll \<leftarrow> ll_at list s;
        ((result, lock), s) \<leftarrow> UtilLock (ll_lock ll) mode s;
        s \<leftarrow> ll_update list (\<lambda>ll. ll\<lparr>ll_lock := lock\<rparr>) s;
        Some (result, s)
      })"

definition ListUnlock :: "lptr \<Rightarrow> 'a list_state_scheme \<Rightarrow> (OsResult_t \<times> 'a list_state_scheme) option" where
  "ListUnlock list s =
     (if list = LNULL then Some (OS_RES_INVALID_ARGUMENT, s)
      else do {
        ll \<leftarrow> ll_at list s;
        ((result, lock), s) \<leftarrow> UtilUnlock (ll_lock ll) s;
        s \<leftarrow> ll_update list (\<lambda>ll. ll\<lparr>ll_lock := lock\<rparr>) s;
        Some (result, s)
      })"

definition ListIsLocked :: "lptr \<Rightarrow> 'a list_state_scheme \<Rightarrow> bool option" where
  "ListIsLocked list s =
     (if list \<noteq> LNULL then do { ll \<leftarrow> ll_at list s; Some (ll_lock ll > 0) } else Some False)"

definition ListSizeGet :: "lptr \<Rightarrow> 'a list_state_scheme \<Rightarrow> (ListSize_t \<times> 'a list_state_scheme) option" where
  "ListSizeGet list s = do {
     (r, s) \<leftarrow> ListLock list LIST_LOCK_MODE_READ s;
     if r = OS_RES_OK then do {
       ll \<leftarrow> ll_at list s;
       (r, s) \<leftarrow> ListUnlock list s;
       Some (ll_size ll, s)
     } else Some (0, s)
   }"

definition ListNodeLock :: "ptr \<Rightarrow> U8_t \<Rightarrow> 'a list_state_scheme \<Rightarrow> (OsResult_t \<times> 'a list_state_scheme) option" where
  "ListNodeLock node mode s =
     (if node = NULL then Some (OS_RES_INVALID_ARGUMENT, s)
      else do {
        n \<leftarrow> node_at node s;
        ((result, lock), s) \<leftarrow> UtilLock (node_lock n) mode s;
        s \<leftarrow> node_update node (\<lambda>n. n\<lparr>node_lock := lock\<rparr>) s;
        Some (result, s)
      })"

definition ListNodeUnlock :: "ptr \<Rightarrow> 'a list_state_scheme \<Rightarrow> (OsResult_t \<times> 'a list_state_scheme) option" where
  "ListNodeUnlock node s =
     (if node = NULL then Some (OS_RES_INVALID_ARGUMENT, s)
      else do {
        n \<leftarrow> node_at node s;
        ((result, lock), s) \<leftarrow> UtilUnlock (node_lock n) s;
        s \<leftarrow> node_update node (\<lambda>n. n\<lparr>node_lock := lock\<rparr>) s;
        Some (result, s)
      })"

subsection \<open>Initialisation and access to nodes\<close>

definition IListIdRequest :: "lptr \<Rightarrow> 'a list_state_scheme \<Rightarrow> (Id_t \<times> 'a list_state_scheme) option" where
  "IListIdRequest list s = do { ll \<leftarrow> ll_at list s; Some (KIdRequest (ll_id_group ll) s) }"

definition ListInit :: "lptr \<Rightarrow> IdGroup_t \<Rightarrow> 'a list_state_scheme \<Rightarrow> (OsResult_t \<times> 'a list_state_scheme) option" where
  "ListInit list id_group s =
     (if list = LNULL then Some (OS_RES_INVALID_ARGUMENT, s)
      else do {
        s \<leftarrow> ll_update list (\<lambda>ll. ll\<lparr>ll_head := NULL, ll_tail := NULL, ll_lock := 0, ll_size := 0,
               ll_sorted := False, ll_middle := NULL\<rparr>) s;
        s \<leftarrow> ll_update list (\<lambda>ll. ll\<lparr>ll_id_group := id_group\<rparr>) s;
        Some (OS_RES_OK, s)
      })"

definition ListNodeInit :: "ptr \<Rightarrow> ptr \<Rightarrow> 'a list_state_scheme \<Rightarrow> (OsResult_t \<times> 'a list_state_scheme) option" where
  "ListNodeInit node chld s =
     (if node = NULL then Some (OS_RES_INVALID_ARGUMENT, s)
      else do {
        s \<leftarrow> node_update node (\<lambda>n. n\<lparr>next_node := NULL, prev_node := NULL, child := chld, node_lock := 0,
               node_id := ID_INVALID\<rparr>) s;
        Some (OS_RES_OK, s)
      })"

definition ListNodeIdSet :: "ptr \<Rightarrow> Id_t \<Rightarrow> 'a list_state_scheme \<Rightarrow> (OsResult_t \<times> 'a list_state_scheme) option" where
  "ListNodeIdSet node oid s =
     (if node = NULL then Some (OS_RES_INVALID_ARGUMENT, s)
      else do {
        s \<leftarrow> node_update node (\<lambda>n. n\<lparr>node_id := oid\<rparr>) s;
        Some (OS_RES_OK, s)
      })"

definition ListNodeIdGet :: "ptr \<Rightarrow> 'a list_state_scheme \<Rightarrow> Id_t option" where
  "ListNodeIdGet node s =
     (if node \<noteq> NULL then do { n \<leftarrow> node_at node s; Some (node_id n) } else Some ID_INVALID)"

definition ListNodePeek :: "lptr \<Rightarrow> U8_t \<Rightarrow> 'a list_state_scheme \<Rightarrow> ptr option" where
  "ListNodePeek list position s =
     (if list = LNULL then Some NULL
      else if position = LIST_POSITION_HEAD then do { ll \<leftarrow> ll_at list s; Some (ll_head ll) }
      else if position = LIST_POSITION_TAIL then do { ll \<leftarrow> ll_at list s; Some (ll_tail ll) }
      else Some NULL)"

definition ListNodePeekNext :: "ptr \<Rightarrow> 'a list_state_scheme \<Rightarrow> ptr option" where
  "ListNodePeekNext node s =
     (if node \<noteq> NULL then do { n \<leftarrow> node_at node s; Some (next_node n) } else Some NULL)"

definition ListNodePeekPrev :: "ptr \<Rightarrow> 'a list_state_scheme \<Rightarrow> ptr option" where
  "ListNodePeekPrev node s =
     (if node \<noteq> NULL then do { n \<leftarrow> node_at node s; Some (prev_node n) } else Some NULL)"

definition ListNodeHasNext :: "ptr \<Rightarrow> 'a list_state_scheme \<Rightarrow> bool option" where
  "ListNodeHasNext node s =
     (if node \<noteq> NULL then do { n \<leftarrow> node_at node s; Some (next_node n \<noteq> NULL) } else Some False)"

definition ListNodeHasPrev :: "ptr \<Rightarrow> 'a list_state_scheme \<Rightarrow> bool option" where
  "ListNodeHasPrev node s =
     (if node \<noteq> NULL then do { n \<leftarrow> node_at node s; Some (prev_node n \<noteq> NULL) } else Some False)"

definition ListNodeChildGet :: "ptr \<Rightarrow> 'a list_state_scheme \<Rightarrow> ptr option" where
  "ListNodeChildGet node s =
     (if node \<noteq> NULL then do { n \<leftarrow> node_at node s; Some (child n) } else Some NULL)"

definition ListNodeChildSet :: "ptr \<Rightarrow> ptr \<Rightarrow> 'a list_state_scheme \<Rightarrow> (OsResult_t \<times> 'a list_state_scheme) option" where
  "ListNodeChildSet node chld s =
     (if node = NULL then Some (OS_RES_INVALID_ARGUMENT, s)
      else do {
        (r, s) \<leftarrow> ListNodeLock node LIST_LOCK_MODE_WRITE s;
        if r = OS_RES_OK then do {
          s \<leftarrow> node_update node (\<lambda>n. n\<lparr>child := chld\<rparr>) s;
          (r, s) \<leftarrow> ListNodeUnlock node s;
          Some (OS_RES_OK, s)
        } else Some (OS_RES_LOCKED, s)
      })"

definition ListNodeIsInList :: "lptr \<Rightarrow> ptr \<Rightarrow> 'a list_state_scheme \<Rightarrow> bool option" where
  "ListNodeIsInList list node s = do {
     n \<leftarrow> node_at node s;
     if next_node n \<noteq> NULL \<or> prev_node n \<noteq> NULL then Some True
     else do { ll \<leftarrow> ll_at list s; Some (ll_size ll = 1 \<and> ll_head ll = node) }
   }"

subsection \<open>The integrity check\<close>

text \<open>
  The two navigation loops count in a byte while the size has 16 bits: \<open>i\<close> wraps at 256, and then only a null
  pointer ends the loop. The result is false when the loop broke off at a null pointer.
\<close>

partial_function (option) ListIntegrityVerify_nav ::
  "(ptr \<Rightarrow> 'a list_state_scheme \<Rightarrow> ptr option) \<Rightarrow> U8_t \<Rightarrow> ListSize_t \<Rightarrow> ptr \<Rightarrow> 'a list_state_scheme \<Rightarrow> bool option" where
  "ListIntegrityVerify_nav peek i list_size node s =
     (if ucast i < list_size then do {
        node \<leftarrow> peek node s;
        if node = NULL then Some False
        else ListIntegrityVerify_nav peek (i + 1) list_size node s
      } else Some True)"

definition ListIntegrityVerify :: "lptr \<Rightarrow> 'a list_state_scheme \<Rightarrow> (int \<times> 'a list_state_scheme) option" where
  "ListIntegrityVerify list s =
     (if list = LNULL then Some (LIST_INTEGRITY_RESULT_NULL, s)
      else do {
        locked \<leftarrow> ListIsLocked list s;
        if locked then Some (LIST_INTEGRITY_RESULT_LOCKED, s)
        else do {
          (r, s) \<leftarrow> ListLock list LIST_LOCK_MODE_READ s;
          if r \<noteq> OS_RES_OK then Some (LIST_INTEGRITY_RESULT_LOCKED, s)
          else do {
            (list_size, s) \<leftarrow> ListSizeGet list s;
            if list_size = 0 then do {
              (r, s) \<leftarrow> ListUnlock list s;
              Some (LIST_INTEGRITY_RESULT_NO_ELEMENTS, s)
            } else do {
              ll \<leftarrow> ll_at list s;
              h \<leftarrow> node_at (ll_head ll) s;
              if prev_node h \<noteq> NULL then Some (LIST_INTEGRITY_RESULT_CORRUPT_HEAD, s)
              else if next_node h = NULL \<and> ll_size ll > 1 then Some (LIST_INTEGRITY_RESULT_CORRUPT_HEAD, s)
              else do {
                t \<leftarrow> node_at (ll_tail ll) s;
                if next_node t \<noteq> NULL then Some (LIST_INTEGRITY_RESULT_CORRUPT_TAIL, s)
                else if prev_node t = NULL \<and> ll_size ll > 1 then Some (LIST_INTEGRITY_RESULT_CORRUPT_TAIL, s)
                else do {
                  node \<leftarrow> ListNodePeek list LIST_POSITION_HEAD s;
                  fw \<leftarrow> (if node \<noteq> NULL then ListIntegrityVerify_nav ListNodePeekNext 1 list_size node s
                         else Some (ll_size ll = 0));
                  let result = (if fw then LIST_INTEGRITY_RESULT_LIST_INTACT
                                else LIST_INTEGRITY_RESULT_CORRUPT_NAV_FW);
                  node \<leftarrow> ListNodePeek list LIST_POSITION_TAIL s;
                  bw \<leftarrow> ListIntegrityVerify_nav ListNodePeekPrev 1 list_size node s;
                  let result = (if bw then result
                                else if result = LIST_INTEGRITY_RESULT_CORRUPT_NAV_FW
                                then LIST_INTEGRITY_RESULT_CORRUPT_NAV_BOTH
                                else LIST_INTEGRITY_RESULT_CORRUPT_NAV_BW);
                  if result < LIST_INTEGRITY_RESULT_LIST_INTACT then Some (result, s)
                  else do {
                    (r, s) \<leftarrow> ListUnlock list s;
                    Some (result, s)
                  }
                }
              }
            }
          }
        }
      })"


subsection \<open>Adding nodes\<close>

definition ListNodeAddAtPosition ::
  "lptr \<Rightarrow> ptr \<Rightarrow> U8_t \<Rightarrow> 'a list_state_scheme \<Rightarrow> (OsResult_t \<times> 'a list_state_scheme) option" where
  "ListNodeAddAtPosition list node position s =
     (if node = NULL \<or> list = LNULL then Some (OS_RES_INVALID_ARGUMENT, s)
      else do {
        (result, s) \<leftarrow> ListLock list LIST_LOCK_MODE_WRITE s;
        (result, s) \<leftarrow> (if result = OS_RES_OK then do {
            ll \<leftarrow> ll_at list s;
            (result, s) \<leftarrow> (if ll_size ll \<ge> LIST_SIZE_MAX then Some (OS_RES_FAIL, s)
              else do {
                n \<leftarrow> node_at node s;
                (oid, s) \<leftarrow> (if node_id n = ID_INVALID then IListIdRequest list s else Some (node_id n, s));
                s \<leftarrow> node_update node (\<lambda>n. n\<lparr>node_id := oid\<rparr>) s;
                if oid = ID_INVALID then Some (OS_RES_INVALID_ID, s)
                else do {
                  s \<leftarrow> (if ll_size ll = 0 then do {
                      s \<leftarrow> ll_update list (\<lambda>ll. ll\<lparr>ll_head := node, ll_tail := node\<rparr>) s;
                      node_update node (\<lambda>n. n\<lparr>prev_node := NULL, next_node := NULL\<rparr>) s
                    } else if position = LIST_POSITION_HEAD then do {
                      s \<leftarrow> node_update (ll_head ll) (\<lambda>n. n\<lparr>prev_node := node\<rparr>) s;
                      s \<leftarrow> node_update node (\<lambda>n. n\<lparr>next_node := ll_head ll\<rparr>) s;
                      s \<leftarrow> ll_update list (\<lambda>ll. ll\<lparr>ll_head := node\<rparr>) s;
                      node_update node (\<lambda>n. n\<lparr>prev_node := NULL\<rparr>) s
                    } else if position = LIST_POSITION_TAIL then do {
                      s \<leftarrow> node_update (ll_tail ll) (\<lambda>n. n\<lparr>next_node := node\<rparr>) s;
                      s \<leftarrow> node_update node (\<lambda>n. n\<lparr>prev_node := ll_tail ll\<rparr>) s;
                      s \<leftarrow> ll_update list (\<lambda>ll. ll\<lparr>ll_tail := node\<rparr>) s;
                      node_update node (\<lambda>n. n\<lparr>next_node := NULL\<rparr>) s
                    } else Some s);
                  s \<leftarrow> ll_update list (\<lambda>ll. ll\<lparr>ll_size := ll_size ll + 1, ll_sorted := False\<rparr>) s;
                  Some (OS_RES_OK, s)
                }
              });
            (r, s) \<leftarrow> ListUnlock list s;
            Some (result, s)
          } else Some (result, s));
        (r, s) \<leftarrow> ListIntegrityVerify list s;
        Some (result, s)
      })"

text \<open>The labelled blocks of \<open>ListNodeAddAtNode\<close>, which its branches jump to.\<close>

definition insert_first :: "lptr \<Rightarrow> ptr \<Rightarrow> 'a list_state_scheme \<Rightarrow> 'a list_state_scheme option" where
  "insert_first list node_y s = do {
     s \<leftarrow> ll_update list (\<lambda>ll. ll\<lparr>ll_head := node_y, ll_tail := node_y\<rparr>) s;
     node_update node_y (\<lambda>n. n\<lparr>prev_node := NULL, next_node := NULL\<rparr>) s
   }"

definition insert_before :: "ptr \<Rightarrow> ptr \<Rightarrow> 'a list_state_scheme \<Rightarrow> 'a list_state_scheme option" where
  "insert_before node_y node_x s = do {
     x \<leftarrow> node_at node_x s;
     let node_z = prev_node x;
     s \<leftarrow> node_update node_x (\<lambda>n. n\<lparr>prev_node := node_y\<rparr>) s;
     s \<leftarrow> (if node_z \<noteq> NULL then node_update node_z (\<lambda>n. n\<lparr>next_node := node_y\<rparr>) s else Some s);
     node_update node_y (\<lambda>n. n\<lparr>next_node := node_x, prev_node := node_z\<rparr>) s
   }"

definition insert_after :: "ptr \<Rightarrow> ptr \<Rightarrow> 'a list_state_scheme \<Rightarrow> 'a list_state_scheme option" where
  "insert_after node_y node_x s = do {
     x \<leftarrow> node_at node_x s;
     let node_z = next_node x;
     s \<leftarrow> node_update node_x (\<lambda>n. n\<lparr>next_node := node_y\<rparr>) s;
     s \<leftarrow> (if node_z \<noteq> NULL then node_update node_z (\<lambda>n. n\<lparr>prev_node := node_y\<rparr>) s else Some s);
     node_update node_y (\<lambda>n. n\<lparr>next_node := node_z, prev_node := node_x\<rparr>) s
   }"

definition insert_head ::
  "lptr \<Rightarrow> ptr \<Rightarrow> ptr \<Rightarrow> U8_t \<Rightarrow> 'a list_state_scheme \<Rightarrow> 'a list_state_scheme option" where
  "insert_head list node_y node_x before_after s =
     (if before_after = LIST_ADD_BEFORE then do {
        ll \<leftarrow> ll_at list s;
        s \<leftarrow> node_update (ll_head ll) (\<lambda>n. n\<lparr>prev_node := node_y\<rparr>) s;
        s \<leftarrow> node_update node_y (\<lambda>n. n\<lparr>next_node := ll_head ll\<rparr>) s;
        s \<leftarrow> ll_update list (\<lambda>ll. ll\<lparr>ll_head := node_y\<rparr>) s;
        node_update node_y (\<lambda>n. n\<lparr>prev_node := NULL\<rparr>) s
      } else insert_after node_y node_x s)"

definition insert_tail ::
  "lptr \<Rightarrow> ptr \<Rightarrow> ptr \<Rightarrow> U8_t \<Rightarrow> 'a list_state_scheme \<Rightarrow> 'a list_state_scheme option" where
  "insert_tail list node_y node_x before_after s =
     (if before_after = LIST_ADD_BEFORE then insert_before node_y node_x s
      else do {
        s \<leftarrow> node_update node_x (\<lambda>n. n\<lparr>next_node := node_y\<rparr>) s;
        s \<leftarrow> node_update node_y (\<lambda>n. n\<lparr>next_node := NULL, prev_node := node_x\<rparr>) s;
        ll_update list (\<lambda>ll. ll\<lparr>ll_tail := node_y\<rparr>) s
      })"

definition ListNodeAddAtNode ::
  "lptr \<Rightarrow> ptr \<Rightarrow> ptr \<Rightarrow> U8_t \<Rightarrow> 'a list_state_scheme \<Rightarrow> (OsResult_t \<times> 'a list_state_scheme) option" where
  "ListNodeAddAtNode list node_y node_x before_after s = do {
     (n, s) \<leftarrow> ListSizeGet list s;
     if n = LIST_SIZE_MAX then Some (OS_RES_FAIL, s)
     else do {
       (r, s) \<leftarrow> ListLock list LIST_LOCK_MODE_WRITE s;
       (result, s) \<leftarrow> (if r = OS_RES_OK then do {
           y \<leftarrow> node_at node_y s;
           (oid, s) \<leftarrow> (if node_id y = ID_INVALID then IListIdRequest list s else Some (node_id y, s));
           s \<leftarrow> node_update node_y (\<lambda>n. n\<lparr>node_id := oid\<rparr>) s;
           (result, s) \<leftarrow> (if oid = ID_INVALID then Some (OS_RES_INVALID_ID, s)
             else do {
               ll \<leftarrow> ll_at list s;
               s \<leftarrow> (if node_x = NULL then
                     (if ll_size ll = 0 then insert_first list node_y s
                      else insert_head list node_y node_x before_after s)
                   else if node_x = ll_head ll \<and> before_after = LIST_ADD_BEFORE
                   then insert_head list node_y node_x before_after s
                   else if node_x = ll_tail ll \<and> before_after = LIST_ADD_AFTER
                   then insert_tail list node_y node_x before_after s
                   else if ll_size ll = 0 then insert_first list node_y s
                   else if node_x = ll_head ll then insert_head list node_y node_x before_after s
                   else if node_x = ll_tail ll then insert_tail list node_y node_x before_after s
                   else if before_after = LIST_ADD_BEFORE then insert_before node_y node_x s
                   else insert_after node_y node_x s);
               s \<leftarrow> ll_update list (\<lambda>ll. ll\<lparr>ll_size := ll_size ll + 1, ll_sorted := False\<rparr>) s;
               Some (OS_RES_OK, s)
             });
           (r, s) \<leftarrow> ListUnlock list s;
           Some (result, s)
         } else Some (OS_RES_ERROR, s));
       (r, s) \<leftarrow> ListIntegrityVerify list s;
       Some (result, s)
     }
   }"

subsection \<open>Iterators\<close>

text \<open>
  An iterator is passed by value and returned. In the reverse direction \<open>ListIteratorInit\<close> reads the old
  \<open>current_position\<close>, which its callers leave uninitialised; nothing else reads that field.
\<close>

definition iterator_uninit :: ListIterator where
  "iterator_uninit = \<lparr>it_direction = 0, it_list = LNULL, it_prev_node = NULL, it_current_node = NULL,
     it_current_position = 0, it_next_node = NULL\<rparr>"

definition ListIteratorInit ::
  "ListIterator \<Rightarrow> lptr \<Rightarrow> U8_t \<Rightarrow> 'a list_state_scheme \<Rightarrow>
     ((OsResult_t \<times> ListIterator) \<times> 'a list_state_scheme) option" where
  "ListIteratorInit it list dir s =
     (if list = LNULL then Some ((OS_RES_INVALID_ARGUMENT, it), s)
      else if dir \<noteq> LIST_ITERATOR_DIRECTION_FORWARD \<and> dir \<noteq> LIST_ITERATOR_DIRECTION_REVERSE
      then Some ((OS_RES_INVALID_ARGUMENT, it), s)
      else do {
        (r, s) \<leftarrow> ListLock list LIST_LOCK_MODE_READ s;
        if r = OS_RES_OK then do {
          ll \<leftarrow> ll_at list s;
          let it = it\<lparr>it_list := list, it_direction := dir\<rparr>;
          it \<leftarrow> (if dir = LIST_ITERATOR_DIRECTION_FORWARD then do {
              let it = it\<lparr>it_current_node := ll_head ll\<rparr>;
              it \<leftarrow> (if ll_head ll \<noteq> NULL then do {
                  n \<leftarrow> node_at (ll_head ll) s;
                  Some (it\<lparr>it_next_node := next_node n, it_prev_node := prev_node n\<rparr>)
                } else Some (it\<lparr>it_next_node := NULL, it_prev_node := NULL\<rparr>));
              Some (it\<lparr>it_current_position := 0\<rparr>)
            } else do {
              let it = it\<lparr>it_current_node := ll_tail ll\<rparr>;
              it \<leftarrow> (if ll_tail ll \<noteq> NULL then do {
                  n \<leftarrow> node_at (ll_tail ll) s;
                  Some (it\<lparr>it_next_node := prev_node n, it_prev_node := next_node n\<rparr>)
                } else Some (it\<lparr>it_next_node := NULL, it_prev_node := NULL\<rparr>));
              Some (if it_current_position it > 0 then it\<lparr>it_current_position := ll_size ll - 1\<rparr> else it)
            });
          (r, s) \<leftarrow> ListUnlock list s;
          Some ((OS_RES_OK, it), s)
        } else Some ((OS_RES_LOCKED, it), s)
      })"

definition ListIteratorNext :: "ListIterator \<Rightarrow> 'a list_state_scheme \<Rightarrow> (ptr \<times> ListIterator) option" where
  "ListIteratorNext it s =
     (if it_current_node it \<noteq> NULL then
        (if it_direction it = LIST_ITERATOR_DIRECTION_FORWARD then do {
           let it = it\<lparr>it_prev_node := it_current_node it, it_current_node := it_next_node it\<rparr>;
           nxt \<leftarrow> (if it_current_node it \<noteq> NULL
                   then do { n \<leftarrow> node_at (it_current_node it) s; Some (next_node n) } else Some NULL);
           Some (it_current_node it, it\<lparr>it_next_node := nxt, it_current_position := it_current_position it + 1\<rparr>)
         } else if it_direction it = LIST_ITERATOR_DIRECTION_REVERSE then do {
           let it = it\<lparr>it_prev_node := it_current_node it, it_current_node := it_next_node it\<rparr>;
           nxt \<leftarrow> (if it_current_node it \<noteq> NULL
                   then do { n \<leftarrow> node_at (it_current_node it) s; Some (prev_node n) } else Some NULL);
           Some (it_current_node it, it\<lparr>it_next_node := nxt, it_current_position := it_current_position it - 1\<rparr>)
         } else Some (NULL, it))
      else Some (NULL, it))"

text \<open>In the reverse direction the code steps to \<open>next_node\<close> instead of \<open>prev_node\<close>.\<close>

definition ListIteratorPrev :: "ListIterator \<Rightarrow> 'a list_state_scheme \<Rightarrow> (ptr \<times> ListIterator) option" where
  "ListIteratorPrev it s =
     (if it_current_node it \<noteq> NULL then
        (if it_direction it = LIST_ITERATOR_DIRECTION_FORWARD then do {
           let it = it\<lparr>it_next_node := it_current_node it, it_current_node := it_prev_node it\<rparr>;
           prv \<leftarrow> (if it_current_node it \<noteq> NULL
                   then do { n \<leftarrow> node_at (it_current_node it) s; Some (prev_node n) } else Some NULL);
           Some (it_current_node it, it\<lparr>it_prev_node := prv, it_current_position := it_current_position it - 1\<rparr>)
         } else if it_direction it = LIST_ITERATOR_DIRECTION_REVERSE then do {
           let it = it\<lparr>it_next_node := it_current_node it\<rparr>;
           let it = it\<lparr>it_current_node := it_next_node it\<rparr>;
           prv \<leftarrow> (if it_current_node it \<noteq> NULL
                   then do { n \<leftarrow> node_at (it_current_node it) s; Some (next_node n) } else Some NULL);
           Some (it_current_node it, it\<lparr>it_prev_node := prv, it_current_position := it_current_position it + 1\<rparr>)
         } else Some (NULL, it))
      else Some (NULL, it))"

definition ListIteratorEnd :: "ListIterator \<Rightarrow> bool" where
  "ListIteratorEnd it \<longleftrightarrow> it_current_node it = NULL"

text \<open>The macro \<^verbatim>\<open>LIST_ITERATOR_END\<close>: step on, and go on with the loop or leave it.\<close>

definition LIST_ITERATOR_END :: "ListIterator \<Rightarrow> 'a list_state_scheme \<Rightarrow> (bool \<times> ListIterator) option" where
  "LIST_ITERATOR_END it s = do {
     (p, it) \<leftarrow> ListIteratorNext it s;
     Some (if p = NULL then (False, it) else (\<not> ListIteratorEnd it, it))
   }"

subsection \<open>Searching\<close>

partial_function (option) ListSearchLinear_loop ::
  "lptr \<Rightarrow> Id_t \<Rightarrow> ListIterator \<Rightarrow> 'a list_state_scheme \<Rightarrow> ptr option" where
  "ListSearchLinear_loop list oid it s = do {
     n \<leftarrow> node_at (it_current_node it) s;
     if node_id n = oid then Some (it_current_node it)
     else do {
       (more, it) \<leftarrow> LIST_ITERATOR_END it s;
       if more then ListSearchLinear_loop list oid it s else Some NULL
     }
   }"

definition ListSearchLinear :: "lptr \<Rightarrow> Id_t \<Rightarrow> 'a list_state_scheme \<Rightarrow> (ptr \<times> 'a list_state_scheme) option" where
  "ListSearchLinear list oid s = do {
     (r, s) \<leftarrow> ListLock list LIST_LOCK_MODE_READ s;
     if r = OS_RES_OK then do {
       ((r, it), s) \<leftarrow> ListIteratorInit iterator_uninit list LIST_ITERATOR_DIRECTION_FORWARD s;
       p \<leftarrow> (if r = OS_RES_OK then ListSearchLinear_loop list oid it s else Some NULL);
       (r, s) \<leftarrow> ListUnlock list s;
       Some (p, s)
     } else Some (NULL, s)
   }"

partial_function (option) ListSearch_loop ::
  "lptr \<Rightarrow> Id_t \<Rightarrow> U8_t \<Rightarrow> ListIterator \<Rightarrow> 'a list_state_scheme \<Rightarrow> ptr option" where
  "ListSearch_loop list oid search_dir it s =
     (if it_current_node it = NULL then Some NULL
      else do {
        n \<leftarrow> node_at (it_current_node it) s;
        if node_id n = oid then Some (it_current_node it)
        else do {
          ll \<leftarrow> ll_at list s;
          absent \<leftarrow> (if ll_sorted ll \<and> ll_middle ll \<noteq> NULL \<and> it_next_node it \<noteq> NULL then do {
              nx \<leftarrow> node_at (it_next_node it) s;
              Some ((oid < node_id nx \<and> search_dir = LIST_ITERATOR_DIRECTION_FORWARD) \<or>
                    (oid > node_id nx \<and> search_dir = LIST_ITERATOR_DIRECTION_REVERSE))
            } else Some False);
          if absent then Some NULL
          else do {
            (more, it) \<leftarrow> LIST_ITERATOR_END it s;
            if more then ListSearch_loop list oid search_dir it s else Some NULL
          }
        }
      })"

definition ListSearch :: "lptr \<Rightarrow> Id_t \<Rightarrow> 'a list_state_scheme \<Rightarrow> (ptr \<times> 'a list_state_scheme) option" where
  "ListSearch list oid s = do {
     (r, s) \<leftarrow> ListLock list LIST_LOCK_MODE_READ s;
     if r = OS_RES_OK then do {
       ll \<leftarrow> ll_at list s;
       search_dir \<leftarrow> (if ll_sorted ll \<and> ll_middle ll \<noteq> NULL then do {
           m \<leftarrow> node_at (ll_middle ll) s;
           Some (if oid \<ge> node_id m then LIST_ITERATOR_DIRECTION_REVERSE else LIST_ITERATOR_DIRECTION_FORWARD)
         } else Some LIST_ITERATOR_DIRECTION_FORWARD);
       ((r, it), s) \<leftarrow> ListIteratorInit iterator_uninit list search_dir s;
       p \<leftarrow> (if r = OS_RES_OK then ListSearch_loop list oid search_dir it s else Some NULL);
       (r, s) \<leftarrow> ListUnlock list s;
       Some (p, s)
     } else Some (NULL, s)
   }"

definition ListNodeChildFromId :: "lptr \<Rightarrow> Id_t \<Rightarrow> 'a list_state_scheme \<Rightarrow> (ptr \<times> 'a list_state_scheme) option" where
  "ListNodeChildFromId list oid s = do {
     (node, s) \<leftarrow> ListSearch list oid s;
     if node \<noteq> NULL then do { n \<leftarrow> node_at node s; Some (child n, s) } else Some (NULL, s)
   }"


subsection \<open>Sorted insertion\<close>

text \<open>
  One turn of the loop of \<open>ListNodeAddSorted\<close>: the result so far, whether the loop is to stop, and the state.
\<close>

definition ListNodeAddSorted_body ::
  "lptr \<Rightarrow> ptr \<Rightarrow> OsResult_t \<Rightarrow> ListIterator \<Rightarrow> 'a list_state_scheme \<Rightarrow>
     ((OsResult_t \<times> bool) \<times> 'a list_state_scheme) option" where
  "ListNodeAddSorted_body list node result it s =
     (if it_current_node it \<noteq> NULL then do {
        n \<leftarrow> node_at node s;
        c \<leftarrow> node_at (it_current_node it) s;
        if node_id n > node_id c then
          (if it_next_node it \<noteq> NULL then do {
             nx \<leftarrow> node_at (it_next_node it) s;
             if node_id n < node_id nx then do {
               (result, s) \<leftarrow> ListNodeAddAtNode list node (it_current_node it) LIST_ADD_AFTER s;
               Some ((result, True), s)
             } else Some ((result, False), s)
           } else do {
             (result, s) \<leftarrow> ListNodeAddAtNode list node (it_current_node it) LIST_ADD_AFTER s;
             Some ((result, True), s)
           })
        else if node_id n < node_id c then do {
          (result, s) \<leftarrow> ListNodeAddAtNode list node (it_current_node it) LIST_ADD_BEFORE s;
          Some ((result, True), s)
        }
        else Some ((OS_RES_ERROR, True), s)
      } else do {
        ll \<leftarrow> ll_at (it_list it) s;
        if ll_size ll = 0 then do {
          (result, s) \<leftarrow> ListNodeAddAtPosition list node LIST_POSITION_HEAD s;
          s \<leftarrow> (if result = OS_RES_OK then ll_update list (\<lambda>ll. ll\<lparr>ll_middle := node\<rparr>) s else Some s);
          Some ((result, True), s)
        } else Some ((OS_RES_ERROR, True), s)
      })"

partial_function (option) ListNodeAddSorted_loop ::
  "lptr \<Rightarrow> ptr \<Rightarrow> OsResult_t \<Rightarrow> ListIterator \<Rightarrow> 'a list_state_scheme \<Rightarrow> (OsResult_t \<times> 'a list_state_scheme) option" where
  "ListNodeAddSorted_loop list node result it s = do {
     ((result, stop_loop), s) \<leftarrow> ListNodeAddSorted_body list node result it s;
     if stop_loop then Some (result, s)
     else do {
       (more, it) \<leftarrow> LIST_ITERATOR_END it s;
       if more then ListNodeAddSorted_loop list node result it s else Some (result, s)
     }
   }"

text \<open>The bookkeeping of the middle node after an insertion.\<close>

definition ListNodeAddSorted_middle :: "lptr \<Rightarrow> ptr \<Rightarrow> 'a list_state_scheme \<Rightarrow> 'a list_state_scheme option" where
  "ListNodeAddSorted_middle list node s = do {
     ll \<leftarrow> ll_at list s;
     s \<leftarrow> (if ll_middle ll \<noteq> NULL then do {
         n \<leftarrow> node_at node s;
         m \<leftarrow> node_at (ll_middle ll) s;
         if node_id n > node_id m then do {
           (size, s) \<leftarrow> ListSizeGet list s;
           if size mod 2 \<noteq> 0 then ll_update list (\<lambda>ll. ll\<lparr>ll_middle := next_node m\<rparr>) s else Some s
         } else if node_id n < node_id m then do {
           (size, s) \<leftarrow> ListSizeGet list s;
           if size mod 2 \<noteq> 0 then ll_update list (\<lambda>ll. ll\<lparr>ll_middle := prev_node m\<rparr>) s else Some s
         } else Some s
       } else Some s);
     ll_update list (\<lambda>ll. ll\<lparr>ll_sorted := True\<rparr>) s
   }"

definition ListNodeAddSorted :: "lptr \<Rightarrow> ptr \<Rightarrow> 'a list_state_scheme \<Rightarrow> (OsResult_t \<times> 'a list_state_scheme) option" where
  "ListNodeAddSorted list node s = do {
     (n, s) \<leftarrow> ListSizeGet list s;
     if n = LIST_SIZE_MAX then Some (OS_RES_FAIL, s)
     else do {
       ll \<leftarrow> ll_at list s;
       (unsorted, s) \<leftarrow> (if \<not> ll_sorted ll then do { (n, s) \<leftarrow> ListSizeGet list s; Some (n \<noteq> 0, s) }
                         else Some (False, s));
       if unsorted then do {
         (r, s) \<leftarrow> ListNodeAddAtPosition list node LIST_POSITION_TAIL s;
         Some (OS_RES_OK, s)
       } else do {
         y \<leftarrow> node_at node s;
         (oid, s) \<leftarrow> (if node_id y = ID_INVALID then IListIdRequest list s else Some (node_id y, s));
         s \<leftarrow> node_update node (\<lambda>n. n\<lparr>node_id := oid\<rparr>) s;
         if oid = ID_INVALID then Some (OS_RES_INVALID_ID, s)
         else do {
           ((r, it), s) \<leftarrow> ListIteratorInit iterator_uninit list LIST_ITERATOR_DIRECTION_FORWARD s;
           (result, s) \<leftarrow> (if r = OS_RES_OK then ListNodeAddSorted_loop list node OS_RES_LOCKED it s
                           else Some (OS_RES_LOCKED, s));
           s \<leftarrow> (if result = OS_RES_OK then ListNodeAddSorted_middle list node s else Some s);
           Some (result, s)
         }
       }
     }
   }"

subsection \<open>Removing and moving nodes\<close>

text \<open>
  \<open>ListNodeRemove\<close> is as the code has it: the size is read with \<open>ListSizeGet\<close> while the list is locked in
  write mode, so the test on its parity is made on 0.
\<close>

definition ListNodeRemove :: "lptr \<Rightarrow> ptr \<Rightarrow> 'a list_state_scheme \<Rightarrow> (ptr \<times> 'a list_state_scheme) option" where
  "ListNodeRemove list node s = do {
     locked \<leftarrow> ListIsLocked list s;
     if locked then Some (NULL, s)
     else if list = LNULL \<or> node = NULL then Some (NULL, s)
     else do {
       (r, s) \<leftarrow> ListLock list LIST_LOCK_MODE_WRITE s;
       (y, s) \<leftarrow> (if r = OS_RES_OK then do {
           let y = node;
           n \<leftarrow> node_at y s;
           let x = prev_node n;
           let z = next_node n;
           ll \<leftarrow> ll_at list s;
           s \<leftarrow> (if ll_size ll = 2 then
               (if x \<noteq> NULL then do {
                  s \<leftarrow> ll_update list (\<lambda>ll. ll\<lparr>ll_head := x, ll_tail := x\<rparr>) s;
                  node_update x (\<lambda>n. n\<lparr>next_node := NULL, prev_node := NULL\<rparr>) s
                } else do {
                  s \<leftarrow> ll_update list (\<lambda>ll. ll\<lparr>ll_head := z, ll_tail := z\<rparr>) s;
                  node_update z (\<lambda>n. n\<lparr>next_node := NULL, prev_node := NULL\<rparr>) s
                })
             else if ll_size ll = 1 then ll_update list (\<lambda>ll. ll\<lparr>ll_head := NULL, ll_tail := NULL\<rparr>) s
             else if y = ll_head ll then do {
               s \<leftarrow> ll_update list (\<lambda>ll. ll\<lparr>ll_head := z\<rparr>) s;
               node_update z (\<lambda>n. n\<lparr>prev_node := NULL\<rparr>) s
             } else if y = ll_tail ll then do {
               s \<leftarrow> ll_update list (\<lambda>ll. ll\<lparr>ll_tail := x\<rparr>) s;
               node_update x (\<lambda>n. n\<lparr>next_node := NULL\<rparr>) s
             } else do {
               s \<leftarrow> node_update x (\<lambda>n. n\<lparr>next_node := z\<rparr>) s;
               node_update z (\<lambda>n. n\<lparr>prev_node := x\<rparr>) s
             });
           s \<leftarrow> ll_update list (\<lambda>ll. ll\<lparr>ll_size := ll_size ll - 1\<rparr>) s;
           s \<leftarrow> (if ll_middle ll = y then do {
               (size, s) \<leftarrow> ListSizeGet list s;
               if size mod 2 \<noteq> 0 then ll_update list (\<lambda>ll. ll\<lparr>ll_middle := z\<rparr>) s else Some s
             } else Some s);
           s \<leftarrow> node_update y (\<lambda>n. n\<lparr>prev_node := NULL, next_node := NULL\<rparr>) s;
           (r, s) \<leftarrow> ListUnlock list s;
           Some (y, s)
         } else Some (NULL, s));
       (r, s) \<leftarrow> ListIntegrityVerify list s;
       Some (y, s)
     }
   }"

definition ListNodeRemoveFromHead :: "lptr \<Rightarrow> 'a list_state_scheme \<Rightarrow> (ptr \<times> 'a list_state_scheme) option" where
  "ListNodeRemoveFromHead list s = do { ll \<leftarrow> ll_at list s; ListNodeRemove list (ll_head ll) s }"

definition ListNodeRemoveFromTail :: "lptr \<Rightarrow> 'a list_state_scheme \<Rightarrow> (ptr \<times> 'a list_state_scheme) option" where
  "ListNodeRemoveFromTail list s = do { ll \<leftarrow> ll_at list s; ListNodeRemove list (ll_tail ll) s }"

definition ListNodeDeinit :: "lptr \<Rightarrow> ptr \<Rightarrow> 'a list_state_scheme \<Rightarrow> (OsResult_t \<times> 'a list_state_scheme) option" where
  "ListNodeDeinit list node s = do {
     (rm_node, s) \<leftarrow> (if list \<noteq> LNULL then ListNodeRemove list node s else Some (node, s));
     if rm_node \<noteq> NULL then do {
       s \<leftarrow> node_update rm_node (\<lambda>n. n\<lparr>node_id := 0, child := NULL, next_node := NULL, prev_node := NULL\<rparr>) s;
       Some (OS_RES_OK, s)
     } else Some (OS_RES_ERROR, s)
   }"

definition ListNodeMove :: "lptr \<Rightarrow> lptr \<Rightarrow> ptr \<Rightarrow> 'a list_state_scheme \<Rightarrow> (OsResult_t \<times> 'a list_state_scheme) option" where
  "ListNodeMove list_x list_y node s = do {
     s \<leftarrow> OsCritSectBegin s;
     (mv_node, s) \<leftarrow> ListNodeRemove list_x node s;
     (result, s) \<leftarrow> (if mv_node \<noteq> NULL then ListNodeAddSorted list_y node s else Some (OS_RES_ERROR, s));
     s \<leftarrow> OsCritSectEnd s;
     Some (result, s)
   }"

definition ListNodeSwap :: "lptr \<Rightarrow> ptr \<Rightarrow> ptr \<Rightarrow> 'a list_state_scheme \<Rightarrow> (OsResult_t \<times> 'a list_state_scheme) option" where
  "ListNodeSwap list node_x node_y s =
     (if list = LNULL \<or> node_x = NULL \<or> node_y = NULL then Some (OS_RES_INVALID_ARGUMENT, s)
      else do {
        locked \<leftarrow> ListIsLocked list s;
        if locked then Some (OS_RES_LOCKED, s)
        else do {
          ll \<leftarrow> ll_at list s;
          if ll_size ll < 2 then Some (OS_RES_FAIL, s)
          else do {
            (r, s) \<leftarrow> ListLock list LIST_LOCK_MODE_WRITE s;
            s \<leftarrow> (if r = OS_RES_OK then do {
                x \<leftarrow> node_at node_x s;
                y \<leftarrow> node_at node_y s;
                let x_p = prev_node x;
                let x_n = next_node x;
                let y_p = prev_node y;
                let y_n = next_node y;
                s \<leftarrow> (if x_p \<noteq> NULL then node_update x_p (\<lambda>n. n\<lparr>next_node := node_y\<rparr>) s
                      else ll_update list (\<lambda>ll. ll\<lparr>ll_head := node_y\<rparr>) s);
                s \<leftarrow> (if x_n \<noteq> NULL then node_update x_n (\<lambda>n. n\<lparr>prev_node := node_y\<rparr>) s
                      else ll_update list (\<lambda>ll. ll\<lparr>ll_tail := node_y\<rparr>) s);
                s \<leftarrow> node_update node_y (\<lambda>n. n\<lparr>prev_node := x_p, next_node := x_n\<rparr>) s;
                s \<leftarrow> (if y_p \<noteq> NULL then node_update y_p (\<lambda>n. n\<lparr>next_node := node_x\<rparr>) s
                      else ll_update list (\<lambda>ll. ll\<lparr>ll_head := node_x\<rparr>) s);
                s \<leftarrow> (if y_n \<noteq> NULL then node_update y_n (\<lambda>n. n\<lparr>prev_node := node_x\<rparr>) s
                      else ll_update list (\<lambda>ll. ll\<lparr>ll_tail := node_x\<rparr>) s);
                s \<leftarrow> node_update node_x (\<lambda>n. n\<lparr>prev_node := y_p, next_node := y_n\<rparr>) s;
                s \<leftarrow> ll_update list (\<lambda>ll. ll\<lparr>ll_sorted := False\<rparr>) s;
                (r, s) \<leftarrow> ListUnlock list s;
                Some s
              } else Some s);
            (r, s) \<leftarrow> ListIntegrityVerify list s;
            Some (OS_RES_OK, s)
          }
        }
      })"

subsection \<open>Destroying and merging lists\<close>

partial_function (option) ListDestroy_loop ::
  "lptr \<Rightarrow> ListSize_t \<Rightarrow> OsResult_t \<Rightarrow> 'a list_state_scheme \<Rightarrow> (OsResult_t \<times> 'a list_state_scheme) option" where
  "ListDestroy_loop list i result s = do {
     ll \<leftarrow> ll_at list s;
     if i \<le> ll_size ll then do {
       (rm_node, s) \<leftarrow> ListNodeRemoveFromHead list s;
       (result, s) \<leftarrow> (if rm_node \<noteq> NULL then ListNodeDeinit list rm_node s else Some (result, s));
       ListDestroy_loop list (i + 1) result s
     } else Some (result, s)
   }"

definition ListDestroy :: "lptr \<Rightarrow> 'a list_state_scheme \<Rightarrow> (OsResult_t \<times> 'a list_state_scheme) option" where
  "ListDestroy list s =
     (if list = LNULL then Some (OS_RES_INVALID_ARGUMENT, s)
      else do {
        locked \<leftarrow> ListIsLocked list s;
        if locked then Some (OS_RES_LOCKED, s)
        else do {
          (result, s) \<leftarrow> ListDestroy_loop list 0 OS_RES_OK s;
          (r, s) \<leftarrow> ListLock list LIST_LOCK_MODE_WRITE s;
          s \<leftarrow> ll_update list (\<lambda>ll. ll\<lparr>ll_head := NULL, ll_tail := NULL, ll_size := 0\<rparr>) s;
          Some (result, s)
        }
      })"

definition ListMerge :: "lptr \<Rightarrow> lptr \<Rightarrow> 'a list_state_scheme \<Rightarrow> (OsResult_t \<times> 'a list_state_scheme) option" where
  "ListMerge list_x list_y s =
     (if list_x = LNULL \<or> list_y = LNULL then Some (OS_RES_INVALID_ARGUMENT, s)
      else do {
        (n, s) \<leftarrow> ListSizeGet list_x s;
        if n = 0 then Some (OS_RES_FAIL, s)
        else do {
          (result, s) \<leftarrow> ListLock list_x LIST_LOCK_MODE_WRITE s;
          if result \<noteq> OS_RES_OK then Some (result, s)
          else do {
            (result, s) \<leftarrow> ListLock list_y LIST_LOCK_MODE_WRITE s;
            if result \<noteq> OS_RES_OK then do { (r, s) \<leftarrow> ListUnlock list_x s; Some (result, s) }
            else do {
              x \<leftarrow> ll_at list_x s;
              y \<leftarrow> ll_at list_y s;
              s \<leftarrow> (if ll_size y = 0 then ll_update list_y (\<lambda>ll. ll\<lparr>ll_head := ll_head x\<rparr>) s
                    else do {
                      s \<leftarrow> node_update (ll_tail y) (\<lambda>n. n\<lparr>next_node := ll_head x\<rparr>) s;
                      node_update (ll_head x) (\<lambda>n. n\<lparr>prev_node := ll_tail y\<rparr>) s
                    });
              x \<leftarrow> ll_at list_x s;
              s \<leftarrow> ll_update list_y (\<lambda>ll. ll\<lparr>ll_tail := ll_tail x, ll_size := ll_size ll + ll_size x\<rparr>) s;
              (r, s) \<leftarrow> ListUnlock list_x s;
              (r, s) \<leftarrow> ListUnlock list_y s;
              (result, s) \<leftarrow> ListDestroy list_x s;
              (r, s) \<leftarrow> ListIntegrityVerify list_x s;
              (r, s) \<leftarrow> ListIntegrityVerify list_y s;
              Some (result, s)
            }
          }
        }
      })"

subsection \<open>Access to one node\<close>

text \<open>
  The macros \<^verbatim>\<open>LIST_NODE_ACCESS_READ_BEGIN\<close>, \<^verbatim>\<open>LIST_NODE_ACCESS_WRITE_BEGIN\<close> and \<^verbatim>\<open>LIST_NODE_ACCESS_END\<close>: the
  block between them runs on the node with the given ID, when there is one and it can be locked; otherwise the
  variables the block assigns keep their values \<open>x\<close>.
\<close>

definition LIST_NODE_ACCESS ::
  "U8_t \<Rightarrow> lptr \<Rightarrow> Id_t \<Rightarrow> (ptr \<Rightarrow> 'a list_state_scheme \<Rightarrow> ('r \<times> 'a list_state_scheme) option) \<Rightarrow> 'r \<Rightarrow>
     'a list_state_scheme \<Rightarrow> ('r \<times> 'a list_state_scheme) option" where
  "LIST_NODE_ACCESS mode list oid block x s = do {
     (node, s) \<leftarrow> ListSearch list oid s;
     if node \<noteq> NULL then do {
       (r, s) \<leftarrow> ListNodeLock node mode s;
       if r = OS_RES_OK then do {
         (x, s) \<leftarrow> block node s;
         (r, s) \<leftarrow> ListNodeUnlock node s;
         Some (x, s)
       } else Some (x, s)
     } else Some (x, s)
   }"

subsection \<open>Printing\<close>

text \<open>
  \<open>ListPrintToBuffer\<close> writes the size, the lock and the IDs of a list as text into a buffer of \<open>malloc\<close>; \<open>mem\<close> tells whether there
  is one. The model gives what is written instead of the text, and the size of the buffer. The lock that it takes is not released.
\<close>

definition PrintToBuffer_size :: "ListSize_t \<Rightarrow> U32_t" where
  "PrintToBuffer_size n = (4 + 4 + 4 + 2 + 4 + 1 + 4 + (4 + 4 * ucast n)) * 3"

partial_function (option) PrintToBuffer_loop :: "ListIterator \<Rightarrow> Id_t list \<Rightarrow> 'a list_state_scheme \<Rightarrow> Id_t list option" where
  "PrintToBuffer_loop it out s = do {
     out \<leftarrow> (if it_current_node it \<noteq> NULL then do { n \<leftarrow> node_at (it_current_node it) s; Some (out @ [node_id n]) } else Some out);
     (more, it) \<leftarrow> LIST_ITERATOR_END it s;
     if more then PrintToBuffer_loop it out s else Some out
   }"

definition ListPrintToBuffer ::
  "bool \<Rightarrow> lptr \<Rightarrow> 'a list_state_scheme \<Rightarrow> (((ListSize_t \<times> U8_t \<times> Id_t list) option \<times> U32_t option) \<times> 'a list_state_scheme) option" where
  "ListPrintToBuffer mem list s =
     (if list = LNULL then Some ((None, None), s)
      else do {
        (r, s) \<leftarrow> ListLock list LIST_LOCK_MODE_READ s;
        if r \<noteq> OS_RES_OK then Some ((None, Some 0), s)
        else do {
          ll \<leftarrow> ll_at list s;
          let buffer_size = PrintToBuffer_size (ll_size ll);
          if mem then do {
            ((r, it), s) \<leftarrow> ListIteratorInit iterator_uninit list LIST_ITERATOR_DIRECTION_FORWARD s;
            out \<leftarrow> (if r = OS_RES_OK then PrintToBuffer_loop it [] s else Some []);
            Some ((Some (ll_size ll, ll_lock ll, out), Some buffer_size), s)
          } else Some ((None, Some buffer_size), s)
        }
      })"

end
