(* ===== verification/ListRep.thy ===== *)
theory ListRep
  imports Lists
begin

text \<open>
  The abstraction of a linked list to the sequence of its node addresses, and the effect of locking, of the
  integrity check and of the basic pointer operations on it.
\<close>

subsection \<open>Locks on known values\<close>

definition util_lock_val :: "U8_t \<Rightarrow> U8_t \<Rightarrow> OsResult_t \<times> U8_t" where
  "util_lock_val lock mode =
     (if mode = LIST_LOCK_MODE_READ then
        (if LOCK_MODE_IS_READ lock then
           (if LOCK_COUNT_GET lock = LIST_LOCK_READ_COUNT_MAX then (OS_RES_LOCKED, lock)
            else (OS_RES_OK, LOCK_COUNT_INC lock))
         else (OS_RES_LOCKED, lock))
      else if mode = LIST_LOCK_MODE_WRITE then
        (if LOCK_COUNT_GET lock = 0 then (OS_RES_OK, LOCK_COUNT_INC (LOCK_MODE_SET_WRITE lock))
         else (OS_RES_LOCKED, lock))
      else (OS_RES_ERROR, lock))"

definition util_unlock_val :: "U8_t \<Rightarrow> OsResult_t \<times> U8_t" where
  "util_unlock_val lock =
     (if LOCK_COUNT_GET lock \<noteq> 0 then
        (let lock = LOCK_COUNT_DEC lock
         in (OS_RES_OK, if LOCK_COUNT_GET lock = 0 then LOCK_MODE_SET_READ lock else lock))
      else (OS_RES_ERROR, lock))"

lemma UtilLock_eq: "crit_ok s \<Longrightarrow> UtilLock lock mode s = Some (util_lock_val lock mode, s)"
  by (simp add: UtilLock_def util_lock_val_def kcore split: prod.splits)

lemma UtilUnlock_eq: "crit_ok s \<Longrightarrow> UtilUnlock lock s = Some (util_unlock_val lock, s)"
  by (simp add: UtilUnlock_def util_unlock_val_def kcore Let_def split: prod.splits)

lemmas lock_defs = util_lock_val_def util_unlock_val_def LIST_LOCK_MODE_READ_def LIST_LOCK_MODE_WRITE_def
  LOCK_MODE_IS_READ_def LOCK_COUNT_GET_def LOCK_COUNT_INC_def LOCK_COUNT_DEC_def LOCK_MODE_SET_READ_def
  LOCK_MODE_SET_WRITE_def LOCK_MASK_MODE_def LOCK_MASK_COUNT_def LIST_LOCK_READ_COUNT_MAX_def

lemma util_lock_vals [simp]:
  "util_lock_val 0 LIST_LOCK_MODE_READ = (OS_RES_OK, 1)"
  "util_lock_val 1 LIST_LOCK_MODE_READ = (OS_RES_OK, 2)"
  "util_lock_val 2 LIST_LOCK_MODE_READ = (OS_RES_OK, 3)"
  "util_lock_val 0x81 LIST_LOCK_MODE_READ = (OS_RES_LOCKED, 0x81)"
  "util_lock_val 0 LIST_LOCK_MODE_WRITE = (OS_RES_OK, 0x81)"
  "util_lock_val 1 LIST_LOCK_MODE_WRITE = (OS_RES_LOCKED, 1)"
  "util_unlock_val 1 = (OS_RES_OK, 0)" "util_unlock_val 2 = (OS_RES_OK, 1)" "util_unlock_val 3 = (OS_RES_OK, 2)"
  "util_unlock_val 0x81 = (OS_RES_OK, 0)" "util_unlock_val 0 = (OS_RES_ERROR, 0)"
  by (simp_all add: lock_defs)

subsection \<open>State updates\<close>

lemma crit_ok_list_update [simp]:
  "crit_ok (s\<lparr>nodes := h\<rparr>) = crit_ok s" "crit_ok (s\<lparr>lists := f\<rparr>) = crit_ok s" "crit_ok (s\<lparr>IdPools := i\<rparr>) = crit_ok s"
  by (simp_all add: crit_ok_def)

lemma crit_enter_list [simp]:
  "nodes (crit_enter s) = nodes s" "lists (crit_enter s) = lists s" "IdPools (crit_enter s) = IdPools s"
  "(crit_enter s)\<lparr>nodes := h\<rparr> = crit_enter (s\<lparr>nodes := h\<rparr>)" "(crit_enter s)\<lparr>lists := f\<rparr> = crit_enter (s\<lparr>lists := f\<rparr>)"
  by (simp_all add: crit_enter_def)

lemma ll_at_simps [simp]:
  "ll_at l (s\<lparr>lists := f\<rparr>) = (if l = LNULL then None else f l)" "ll_at l (s\<lparr>nodes := h\<rparr>) = ll_at l s"
  "ll_at l (s\<lparr>IdPools := i\<rparr>) = ll_at l s" "ll_at LNULL s = None" "ll_at l (crit_enter s) = ll_at l s"
  by (auto simp: ll_at_def)

lemma node_at_simps [simp]:
  "node_at p (s\<lparr>nodes := h\<rparr>) = (if p = NULL then None else h p)" "node_at p (s\<lparr>lists := f\<rparr>) = node_at p s"
  "node_at p (s\<lparr>IdPools := i\<rparr>) = node_at p s" "node_at NULL s = None" "node_at p (crit_enter s) = node_at p s"
  by (auto simp: node_at_def)

lemma ll_update_eq: "ll_at l s = Some ll \<Longrightarrow> ll_update l f s = Some (s\<lparr>lists := (lists s)(l \<mapsto> f ll)\<rparr>)"
  by (simp add: ll_update_def)

lemma node_update_eq: "node_at p s = Some n \<Longrightarrow> node_update p f s = Some (s\<lparr>nodes := (nodes s)(p \<mapsto> f n)\<rparr>)"
  by (simp add: node_update_def)

lemma ll_at_SomeD: "ll_at l s = Some ll \<Longrightarrow> l \<noteq> LNULL \<and> lists s l = Some ll"
  by (auto simp: ll_at_def split: if_splits)

lemma node_at_SomeD: "node_at p s = Some n \<Longrightarrow> p \<noteq> NULL \<and> nodes s p = Some n"
  by (auto simp: node_at_def split: if_splits)

lemma ListLock_eq:
  assumes "crit_ok s" and "ll_at l s = Some ll"
  shows "ListLock l mode s = Some (fst (util_lock_val (ll_lock ll) mode),
     s\<lparr>lists := (lists s)(l \<mapsto> ll\<lparr>ll_lock := snd (util_lock_val (ll_lock ll) mode)\<rparr>)\<rparr>)"
  using assms ll_at_SomeD [OF assms(2)]
  by (cases "util_lock_val (ll_lock ll) mode") (simp add: ListLock_def UtilLock_eq ll_update_eq)

lemma ListUnlock_eq:
  assumes "crit_ok s" and "ll_at l s = Some ll"
  shows "ListUnlock l s = Some (fst (util_unlock_val (ll_lock ll)),
     s\<lparr>lists := (lists s)(l \<mapsto> ll\<lparr>ll_lock := snd (util_unlock_val (ll_lock ll))\<rparr>)\<rparr>)"
  using assms ll_at_SomeD [OF assms(2)]
  by (cases "util_unlock_val (ll_lock ll)") (simp add: ListUnlock_def UtilUnlock_eq ll_update_eq)

lemma lists_triv: "lists s l = Some ll \<Longrightarrow> s\<lparr>lists := (lists s)(l \<mapsto> ll)\<rparr> = s"
  by (cases s) (simp add: fun_upd_idem)

lemma nodes_triv: "nodes s p = Some n \<Longrightarrow> s\<lparr>nodes := (nodes s)(p \<mapsto> n)\<rparr> = s"
  by (cases s) (simp add: fun_upd_idem)

lemma ll_lock_triv [simp]: "ll_lock ll = k \<Longrightarrow> ll\<lparr>ll_lock := k\<rparr> = ll"
  by (cases ll) simp

lemma ListSizeGet_eq:
  assumes "crit_ok s" and "ll_at l s = Some ll" and "ll_lock ll = 0 \<or> ll_lock ll = 1 \<or> ll_lock ll = 2"
  shows "ListSizeGet l s = Some (ll_size ll, s)"
  using assms ll_at_SomeD [OF assms(2)]
  by (auto simp: ListSizeGet_def ListLock_eq ListUnlock_eq lists_triv)

lemma ListSizeGet_write_locked:
  assumes "crit_ok s" and "ll_at l s = Some ll" and "ll_lock ll = 0x81"
  shows "ListSizeGet l s = Some (0, s)"
  using assms ll_at_SomeD [OF assms(2)]
  by (simp add: ListSizeGet_def ListLock_eq lists_triv)

subsection \<open>Doubly linked segments\<close>

definition first_or :: "ptr list \<Rightarrow> ptr \<Rightarrow> ptr" where "first_or xs p = (if xs = [] then p else hd xs)"
definition last_or :: "ptr \<Rightarrow> ptr list \<Rightarrow> ptr" where "last_or p xs = (if xs = [] then p else last xs)"

lemma first_or_simps [simp]: "first_or [] p = p" "first_or (x # xs) p = x"
  "first_or (xs @ ys) p = first_or xs (first_or ys p)"
  by (auto simp: first_or_def)

lemma last_or_simps [simp]: "last_or p [] = p" "last_or p (x # xs) = last_or x xs"
  "last_or p (xs @ ys) = last_or (last_or p xs) ys"
  by (auto simp: last_or_def)

fun dseg :: "(ptr \<Rightarrow> ListNode_t option) \<Rightarrow> ptr \<Rightarrow> ptr list \<Rightarrow> ptr \<Rightarrow> bool" where
  "dseg h p [] n \<longleftrightarrow> True"
| "dseg h p (x # xs) n \<longleftrightarrow>
     x \<noteq> NULL \<and> (\<exists>nd. h x = Some nd \<and> prev_node nd = p \<and> next_node nd = first_or xs n) \<and> dseg h x xs n"

lemma dseg_append [simp]: "dseg h p (xs @ ys) n \<longleftrightarrow> dseg h p xs (first_or ys n) \<and> dseg h (last_or p xs) ys n"
  by (induction xs arbitrary: p) auto

lemma dseg_cong: "(\<And>x. x \<in> set xs \<Longrightarrow> h x = h' x) \<Longrightarrow> dseg h p xs n = dseg h' p xs n"
  by (induction xs arbitrary: p) auto

lemma dseg_upd [simp]: "x \<notin> set xs \<Longrightarrow> dseg (h(x := v)) p xs n = dseg h p xs n"
  by (rule dseg_cong) auto

lemma dseg_nonnull: "dseg h p xs n \<Longrightarrow> x \<in> set xs \<Longrightarrow> x \<noteq> NULL \<and> (\<exists>nd. h x = Some nd)"
  by (induction xs arbitrary: p) auto

lemma dseg_nth:
  assumes "dseg h p xs n" and "k < length xs"
  shows "\<exists>nd. h (xs ! k) = Some nd \<and> xs ! k \<noteq> NULL
    \<and> next_node nd = (if Suc k < length xs then xs ! Suc k else n)
    \<and> prev_node nd = (if k = 0 then p else xs ! (k - 1))"
  using assms
proof (induction xs arbitrary: p k)
  case (Cons x xs)
  show ?case
  proof (cases k)
    case 0
    then show ?thesis using Cons.prems by (cases xs) auto
  next
    case (Suc j)
    then show ?thesis using Cons.IH [of x j] Cons.prems by (cases j) auto
  qed
qed simp

text \<open>The list at \<open>l\<close> holds the nodes \<open>xs\<close>, in this order.\<close>

definition is_list :: "'a list_state_scheme \<Rightarrow> lptr \<Rightarrow> ptr list \<Rightarrow> bool" where
  "is_list s l xs \<longleftrightarrow>
     (\<exists>ll. ll_at l s = Some ll \<and> ll_head ll = first_or xs NULL \<and> ll_tail ll = last_or NULL xs
         \<and> unat (ll_size ll) = length xs) \<and>
     dseg (nodes s) NULL xs NULL \<and> distinct xs"

definition list_unlocked :: "'a list_state_scheme \<Rightarrow> lptr \<Rightarrow> bool" where
  "list_unlocked s l \<longleftrightarrow> (\<exists>ll. ll_at l s = Some ll \<and> ll_lock ll = 0)"

lemma is_list_unique_length: "is_list s l xs \<Longrightarrow> is_list s l ys \<Longrightarrow> length xs = length ys"
  by (auto simp: is_list_def)

lemma dseg_unique: "dseg h p xs NULL \<Longrightarrow> dseg h p ys NULL \<Longrightarrow> first_or xs NULL = first_or ys NULL \<Longrightarrow> xs = ys"
proof (induction xs arbitrary: p ys)
  case Nil
  then show ?case by (cases ys) auto
next
  case (Cons x xs)
  then obtain y ys' where "ys = y # ys'" by (cases ys) auto
  with Cons show ?case by auto
qed

lemma is_list_unique: "is_list s l xs \<Longrightarrow> is_list s l ys \<Longrightarrow> xs = ys"
  by (auto simp: is_list_def intro: dseg_unique)

subsection \<open>The integrity check\<close>

lemma unat_ucast_8_16: "unat (ucast (w :: U8_t) :: U16_t) = unat w"
proof -
  have "unat w < 2 ^ 8" using unsigned_less [of w] by simp
  then show ?thesis by (simp add: unsigned_ucast_eq take_bit_nat_eq_self)
qed

lemma unat_of_nat_8_16: "n \<le> 255 \<Longrightarrow> unat (ucast (word_of_nat n :: U8_t) :: U16_t) = n"
  by (simp add: unat_ucast_8_16 unat_of_nat)

lemma nav_next_ok:
  assumes "dseg (nodes s) p xs n" and "k < length xs" and "length xs \<le> 255" and "unat lsz = length xs"
  shows "ListIntegrityVerify_nav ListNodePeekNext (word_of_nat (Suc k)) lsz (xs ! k) s = Some True"
  using assms(2)
proof (induction "length xs - k" arbitrary: k)
  case (Suc m)
  have u: "unat (ucast (word_of_nat (Suc k) :: U8_t) :: U16_t) = Suc k"
    using Suc.prems assms(3) by (intro unat_of_nat_8_16) simp
  show ?case
  proof (cases "Suc k < length xs")
    case True
    obtain nd where "node_at (xs ! k) s = Some nd" "next_node nd = xs ! Suc k" "xs ! k \<noteq> NULL"
      using dseg_nth [OF assms(1) Suc.prems] True by (auto simp: node_at_def)
    moreover have "xs ! Suc k \<noteq> NULL" using dseg_nth [OF assms(1) True] by auto
    moreover have "ListIntegrityVerify_nav ListNodePeekNext (word_of_nat (Suc (Suc k))) lsz (xs ! Suc k) s = Some True"
      using Suc.hyps(2) True by (intro Suc.hyps(1)) auto
    moreover have "(ucast (word_of_nat (Suc k) :: U8_t) :: U16_t) < lsz"
      using True u assms(4) by (simp add: word_less_nat_alt)
    ultimately show ?thesis
      by (subst ListIntegrityVerify_nav.simps) (simp add: ListNodePeekNext_def add.commute)
  next
    case False
    then have "\<not> (ucast (word_of_nat (Suc k) :: U8_t) :: U16_t) < lsz"
      using u assms(4) Suc.prems by (simp add: word_less_nat_alt)
    then show ?thesis by (subst ListIntegrityVerify_nav.simps) simp
  qed
qed simp

lemma nav_prev_ok:
  assumes "dseg (nodes s) p xs n" and "k < length xs" and "length xs \<le> 255" and "unat lsz = length xs"
  shows "ListIntegrityVerify_nav ListNodePeekPrev (word_of_nat (length xs - k)) lsz (xs ! k) s = Some True"
  using assms(2)
proof (induction k)
  case 0
  have "\<not> (ucast (word_of_nat (length xs) :: U8_t) :: U16_t) < lsz"
    using assms(3,4) by (simp add: word_less_nat_alt unat_ucast_8_16 unat_of_nat)
  then show ?case by (subst ListIntegrityVerify_nav.simps) simp
next
  case (Suc k)
  have u: "unat (ucast (word_of_nat (length xs - Suc k) :: U8_t) :: U16_t) = length xs - Suc k"
    using assms(3) by (intro unat_of_nat_8_16) simp
  have "(ucast (word_of_nat (length xs - Suc k) :: U8_t) :: U16_t) < lsz"
    using u Suc.prems assms(4) by (simp add: word_less_nat_alt)
  moreover obtain nd where "node_at (xs ! Suc k) s = Some nd" "prev_node nd = xs ! k" "xs ! Suc k \<noteq> NULL"
    using dseg_nth [OF assms(1) Suc.prems] by (auto simp: node_at_def)
  moreover have "xs ! k \<noteq> NULL" using dseg_nth [OF assms(1), of k] Suc.prems by auto
  moreover have "(word_of_nat (length xs - Suc k) :: U8_t) + 1 = word_of_nat (length xs - k)"
    using Suc.prems by (metis Suc_diff_Suc Suc_lessD add.commute of_nat_Suc)
  ultimately have peek: "ListNodePeekPrev (xs ! Suc k) s = Some (xs ! k)" "xs ! k \<noteq> NULL"
      and c: "(ucast (word_of_nat (length xs - Suc k) :: U8_t) :: U16_t) < lsz"
      and i: "(word_of_nat (length xs - Suc k) :: U8_t) + 1 = word_of_nat (length xs - k)"
    by (simp_all add: ListNodePeekPrev_def)
  have "ListIntegrityVerify_nav ListNodePeekPrev (word_of_nat (length xs - k)) lsz (xs ! k) s = Some True"
    using Suc by simp
  with peek c i show ?case
    by (subst ListIntegrityVerify_nav.simps) (simp del: of_nat_diff)
qed

lemma ListIntegrityVerify_ok:
  assumes "crit_ok s" and "is_list s l xs" and "list_unlocked s l" and "length xs \<le> 255"
  shows "ListIntegrityVerify l s =
     Some (if xs = [] then LIST_INTEGRITY_RESULT_NO_ELEMENTS else LIST_INTEGRITY_RESULT_LIST_INTACT, s)"
proof -
  obtain ll where ll: "ll_at l s = Some ll" "ll_head ll = first_or xs NULL" "ll_tail ll = last_or NULL xs"
    "unat (ll_size ll) = length xs" "ll_lock ll = 0" and d: "dseg (nodes s) NULL xs NULL"
    using assms(2,3) by (auto simp: is_list_def list_unlocked_def)
  note L = ll_at_SomeD [OF ll(1)]
  have locked: "ListIsLocked l s = Some False" using ll L by (simp add: ListIsLocked_def)
  let ?t = "s\<lparr>lists := (lists s)(l \<mapsto> ll\<lparr>ll_lock := 1\<rparr>)\<rparr>"
  have lock: "ListLock l LIST_LOCK_MODE_READ s = Some (OS_RES_OK, ?t)"
    using assms(1) ll by (simp add: ListLock_eq)
  have size: "ListSizeGet l ?t = Some (ll_size ll, ?t)"
    using assms(1) L by (subst ListSizeGet_eq [where ll = "ll\<lparr>ll_lock := 1\<rparr>"]) auto
  have unlock: "ListUnlock l ?t = Some (OS_RES_OK, s)"
    using assms(1) L ll by (subst ListUnlock_eq [where ll = "ll\<lparr>ll_lock := 1\<rparr>"]) (auto simp: lists_triv)
  show ?thesis
  proof (cases xs)
    case Nil
    then have "ll_size ll = 0" using ll(4) by (simp add: unat_eq_zero)
    then show ?thesis using Nil L locked lock size unlock by (simp add: ListIntegrityVerify_def)
  next
    case (Cons x xs')
    let ?n = "length xs - 1"
    have n: "?n < length xs" "last_or NULL xs = xs ! ?n" "first_or xs NULL = xs ! 0"
      using Cons by (simp_all add: last_or_def last_conv_nth)
    have sz: "ll_size ll \<noteq> 0" using ll(4) Cons by auto
    have one: "ll_size ll > 1 \<longleftrightarrow> length xs > 1" using ll(4) by (simp add: word_less_nat_alt)
    have pos: "0 < length xs" using Cons by simp
    have snd: "length xs > 1 \<longrightarrow> xs ! 1 \<noteq> NULL" using dseg_nth [OF d, of 1] by auto
    obtain h where h: "node_at (xs ! 0) s = Some h" "prev_node h = NULL" "length xs > 1 \<longrightarrow> next_node h \<noteq> NULL"
      using dseg_nth [OF d pos] snd by (auto simp: node_at_def)
    have n1: "?n - 1 < length xs" using pos by linarith
    have snd': "length xs > 1 \<longrightarrow> xs ! (?n - 1) \<noteq> NULL" using dseg_nth [OF d n1] by blast
    obtain e where e: "node_at (xs ! ?n) s = Some e" "next_node e = NULL" "length xs > 1 \<longrightarrow> prev_node e \<noteq> NULL"
      using dseg_nth [OF d n(1)] snd' pos by (auto simp: node_at_def)
    have nn: "xs ! 0 \<noteq> NULL" using node_at_SomeD [OF h(1)] by simp
    have d': "dseg (nodes ?t) NULL xs NULL" using d by simp
    have fw: "ListIntegrityVerify_nav ListNodePeekNext 1 (ll_size ll) (xs ! 0) ?t = Some True"
      using nav_next_ok [OF d' pos assms(4) ll(4)] by simp
    have bw: "ListIntegrityVerify_nav ListNodePeekPrev 1 (ll_size ll) (xs ! ?n) ?t = Some True"
      using nav_prev_ok [OF d' n(1) assms(4) ll(4)] pos by (simp add: Suc_leI)
    have peek: "ListNodePeek l LIST_POSITION_HEAD ?t = Some (xs ! 0)" "ListNodePeek l LIST_POSITION_TAIL ?t = Some (xs ! ?n)"
      using L ll(2,3) n(2,3) by (simp_all add: ListNodePeek_def LIST_POSITION_HEAD_def LIST_POSITION_TAIL_def)
    have at: "ll_at l ?t = Some (ll\<lparr>ll_lock := 1\<rparr>)" "node_at (ll_head ll) s = Some h" "node_at (ll_tail ll) s = Some e"
      using L ll(2,3) n(2,3) h e by simp_all
    have ne: "(next_node h = NULL \<and> ll_size ll > 1) = False" "(prev_node e = NULL \<and> ll_size ll > 1) = False"
      using h(3) e(3) one by auto
    have pos': "xs \<noteq> []" using pos by simp
    show ?thesis
      using conjunct1 [OF L] pos'
      by (simp add: ListIntegrityVerify_def locked lock size unlock sz at h(2) e(2) ne peek fw bw [unfolded One_nat_def] nn [simplified]
          LIST_INTEGRITY_RESULT_LIST_INTACT_def LIST_INTEGRITY_RESULT_CORRUPT_NAV_FW_def del: de_Morgan_conj)
  qed
qed

end
