(* ===== verification/ListOps.thy ===== *)
theory ListOps
  imports ListRep
begin

text \<open>
  The list operations as operations on sequences: each lemma says what a call does to the sequence of nodes
  of a well-formed list, and that it changes nothing but the links of that list's nodes and its header.
\<close>

subsection \<open>Frames\<close>

definition same_payload :: "(ptr \<Rightarrow> ListNode_t option) \<Rightarrow> (ptr \<Rightarrow> ListNode_t option) \<Rightarrow> bool" where
  "same_payload h h' \<longleftrightarrow>
     (\<forall>p. map_option (\<lambda>n. n\<lparr>next_node := NULL, prev_node := NULL\<rparr>) (h p) =
          map_option (\<lambda>n. n\<lparr>next_node := NULL, prev_node := NULL\<rparr>) (h' p))"

text \<open>
  From \<open>s\<close> to \<open>t\<close> only the links of the nodes in \<open>N\<close> and the header of the list \<open>l\<close> change, and not the lock and
  the ID group of the header.
\<close>

definition list_frame :: "'a list_state_scheme \<Rightarrow> 'a list_state_scheme \<Rightarrow> lptr \<Rightarrow> ptr set \<Rightarrow> bool" where
  "list_frame s t l N \<longleftrightarrow>
     t = s\<lparr>nodes := nodes t, lists := lists t\<rparr> \<and> (\<forall>l'. l' \<noteq> l \<longrightarrow> lists t l' = lists s l') \<and>
     (\<forall>p. p \<notin> N \<longrightarrow> nodes t p = nodes s p) \<and> same_payload (nodes s) (nodes t) \<and>
     (\<exists>a b. ll_at l s = Some a \<and> ll_at l t = Some b \<and> ll_lock b = ll_lock a \<and> ll_id_group b = ll_id_group a)"

text \<open>The middle pointer of the header stays, and the sorted flag becomes \<open>f\<close> of the old one.\<close>

definition middle_kept :: "'a list_state_scheme \<Rightarrow> 'a list_state_scheme \<Rightarrow> lptr \<Rightarrow> (bool \<Rightarrow> bool) \<Rightarrow> bool" where
  "middle_kept s t l f \<longleftrightarrow> (\<exists>a b. ll_at l s = Some a \<and> ll_at l t = Some b \<and>
     ll_middle b = ll_middle a \<and> ll_sorted b = f (ll_sorted a))"

lemma same_payload_refl [simp]: "same_payload h h"
  by (simp add: same_payload_def)

lemma same_payload_trans: "same_payload h h' \<Longrightarrow> same_payload h' h'' \<Longrightarrow> same_payload h h''"
  by (simp add: same_payload_def)

lemma same_payload_upd [intro]:
  assumes "same_payload h h'" and "h' p = Some n"
    and "m\<lparr>next_node := NULL, prev_node := NULL\<rparr> = n\<lparr>next_node := NULL, prev_node := NULL\<rparr>"
  shows "same_payload h (h'(p \<mapsto> m))"
  using assms by (auto simp: same_payload_def)

lemma same_payload_fields:
  assumes "same_payload h h'" and "h p = Some n"
  obtains m where "h' p = Some m" "node_id m = node_id n" "child m = child n" "node_lock m = node_lock n"
proof -
  have e: "map_option (\<lambda>n. n\<lparr>next_node := NULL, prev_node := NULL\<rparr>) (h p) =
          map_option (\<lambda>n. n\<lparr>next_node := NULL, prev_node := NULL\<rparr>) (h' p)"
    using assms(1) by (simp add: same_payload_def)
  then obtain m where m: "h' p = Some m"
      "n\<lparr>next_node := NULL, prev_node := NULL\<rparr> = m\<lparr>next_node := NULL, prev_node := NULL\<rparr>"
    using assms(2) by (cases "h' p") auto
  show thesis
    by (rule that [OF m(1)]) (use m(2) in \<open>cases n; cases m; simp\<close>)+
qed

lemma is_list_frame:
  assumes "list_frame s t l N" and "is_list s l' ys" and "l' \<noteq> l" and "set ys \<inter> N = {}"
  shows "is_list t l' ys"
proof -
  have "dseg (nodes t) NULL ys NULL = dseg (nodes s) NULL ys NULL"
    using assms by (intro dseg_cong) (auto simp: list_frame_def)
  moreover have "ll_at l' t = ll_at l' s" using assms by (simp add: ll_at_def list_frame_def)
  ultimately show ?thesis using assms(2) by (simp add: is_list_def)
qed

lemma list_frame_unlocked: "list_frame s t l N \<Longrightarrow> list_unlocked s l' \<Longrightarrow> list_unlocked t l'"
  by (cases "l' = l") (auto simp: list_frame_def list_unlocked_def ll_at_def)

lemma list_frame_crit: "list_frame s t l N \<Longrightarrow> crit_ok t = crit_ok s"
  by (auto simp: list_frame_def) (metis crit_ok_list_update(1) crit_ok_list_update(2))+

lemma is_list_nodes: "is_list s l xs \<Longrightarrow> x \<in> set xs \<Longrightarrow> x \<noteq> NULL \<and> (\<exists>n. node_at x s = Some n)"
  using dseg_nonnull by (fastforce simp: is_list_def node_at_def)

lemmas list_op_eqs = ListLock_eq ListUnlock_eq node_update_eq ll_update_eq ListSizeGet_eq

text \<open>The end of every operation: the final state is well formed, so the integrity check passes.\<close>

lemma integrity_pass:
  assumes "crit_ok t" and "is_list t l xs" and "list_unlocked t l" and "length xs \<le> 255"
  shows "(do { (r, t) \<leftarrow> ListIntegrityVerify l t; Some (res, t) }) = Some (res, t)"
  using ListIntegrityVerify_ok [OF assms] by simp

lemma list_frameI:
  assumes "ll_at l s = Some ll" and "ll_lock b = ll_lock ll" "ll_id_group b = ll_id_group ll"
    and "t = s\<lparr>nodes := h, lists := (lists s)(l \<mapsto> b)\<rparr>" and "\<And>p. p \<notin> N \<Longrightarrow> h p = nodes s p"
    and "same_payload (nodes s) h"
  shows "list_frame s t l N"
  using assms ll_at_SomeD [OF assms(1)] by (auto simp: list_frame_def)

subsection \<open>Adding at the ends\<close>

lemma AddAtPosition_tail_state:
  assumes "crit_ok s" and ll: "ll_at l s = Some ll" "ll_lock ll = 0" and n: "node_at node s = Some n"
    "node_id n \<noteq> ID_INVALID" and size: "\<not> LIST_SIZE_MAX \<le> ll_size ll" "ll_size ll \<noteq> 0"
    and t: "node_at (ll_tail ll) s = Some tn" "ll_tail ll \<noteq> node"
  shows "ListNodeAddAtPosition l node LIST_POSITION_TAIL s = do {
     (r, s') \<leftarrow> ListIntegrityVerify l (s\<lparr>nodes := (nodes s)(ll_tail ll \<mapsto> tn\<lparr>next_node := node\<rparr>,
                     node \<mapsto> n\<lparr>prev_node := ll_tail ll, next_node := NULL\<rparr>),
               lists := (lists s)(l \<mapsto> ll\<lparr>ll_tail := node, ll_size := ll_size ll + 1, ll_sorted := False\<rparr>)\<rparr>);
     Some (OS_RES_OK, s')
   }"
  using assms ll_at_SomeD [OF ll(1)] node_at_SomeD [OF n(1)] node_at_SomeD [OF t(1)]
  by (simp add: ListNodeAddAtPosition_def list_op_eqs LIST_POSITION_TAIL_def LIST_POSITION_HEAD_def)

lemma AddAtPosition_head_state:
  assumes "crit_ok s" and ll: "ll_at l s = Some ll" "ll_lock ll = 0" and n: "node_at node s = Some n"
    "node_id n \<noteq> ID_INVALID" and size: "\<not> LIST_SIZE_MAX \<le> ll_size ll" "ll_size ll \<noteq> 0"
    and t: "node_at (ll_head ll) s = Some tn" "ll_head ll \<noteq> node"
  shows "ListNodeAddAtPosition l node LIST_POSITION_HEAD s = do {
     (r, s') \<leftarrow> ListIntegrityVerify l (s\<lparr>nodes := (nodes s)(ll_head ll \<mapsto> tn\<lparr>prev_node := node\<rparr>,
                     node \<mapsto> n\<lparr>next_node := ll_head ll, prev_node := NULL\<rparr>),
               lists := (lists s)(l \<mapsto> ll\<lparr>ll_head := node, ll_size := ll_size ll + 1, ll_sorted := False\<rparr>)\<rparr>);
     Some (OS_RES_OK, s')
   }"
  using assms ll_at_SomeD [OF ll(1)] node_at_SomeD [OF n(1)] node_at_SomeD [OF t(1)]
  by (simp add: ListNodeAddAtPosition_def list_op_eqs LIST_POSITION_TAIL_def LIST_POSITION_HEAD_def)

lemma AddAtPosition_empty_state:
  assumes "crit_ok s" and ll: "ll_at l s = Some ll" "ll_lock ll = 0" and n: "node_at node s = Some n"
    "node_id n \<noteq> ID_INVALID" and size: "ll_size ll = 0"
  shows "ListNodeAddAtPosition l node pos s = do {
     (r, s') \<leftarrow> ListIntegrityVerify l (s\<lparr>nodes := (nodes s)(node \<mapsto> n\<lparr>prev_node := NULL, next_node := NULL\<rparr>),
               lists := (lists s)(l \<mapsto> ll\<lparr>ll_head := node, ll_tail := node, ll_size := 1, ll_sorted := False\<rparr>)\<rparr>);
     Some (OS_RES_OK, s')
   }"
  using assms ll_at_SomeD [OF ll(1)] node_at_SomeD [OF n(1)]
  by (simp add: ListNodeAddAtPosition_def list_op_eqs LIST_SIZE_MAX_def)

lemma small_size:
  assumes "unat (sz :: ListSize_t) = k" and "k < 255"
  shows "\<not> LIST_SIZE_MAX \<le> sz" and "unat (sz + 1) = Suc k" and "sz = 0 \<longleftrightarrow> k = 0" and "sz \<noteq> LIST_SIZE_MAX"
proof -
  show "unat (sz + 1) = Suc k" using assms by (subst unat_word_ariths) (simp add: unat_word_ariths)
  show "\<not> LIST_SIZE_MAX \<le> sz" using assms by (simp add: word_le_nat_alt LIST_SIZE_MAX_def)
  show "sz = 0 \<longleftrightarrow> k = 0" using assms by (auto simp: unat_eq_zero)
  show "sz \<noteq> LIST_SIZE_MAX" using assms by (auto simp: LIST_SIZE_MAX_def)
qed

lemma finish_op:
  assumes op: "g = (do { (r, s') \<leftarrow> ListIntegrityVerify l t; Some (res, s') })"
    and s: "crit_ok s" "ll_at l s = Some ll" "ll_lock ll = 0"
    and t: "t = s\<lparr>nodes := h, lists := (lists s)(l \<mapsto> b)\<rparr>" "ll_lock b = 0" "ll_id_group b = ll_id_group ll"
      "ll_middle b = ll_middle ll" "ll_sorted b = f (ll_sorted ll)"
    and b: "ll_head b = first_or ys NULL" "ll_tail b = last_or NULL ys" "unat (ll_size b) = length ys"
    and d: "dseg h NULL ys NULL" "distinct ys" "length ys \<le> 255"
    and fr: "\<And>p. p \<notin> N \<Longrightarrow> h p = nodes s p" "same_payload (nodes s) h"
  shows "g = Some (res, t) \<and> is_list t l ys \<and> list_frame s t l N \<and> middle_kept s t l f"
proof -
  note L = ll_at_SomeD [OF s(2)]
  have "is_list t l ys" using L t b d by (simp add: is_list_def)
  moreover have "crit_ok t" "list_unlocked t l" using s t L by (simp_all add: list_unlocked_def)
  moreover have "list_frame s t l N"
    by (rule list_frameI [OF s(2) _ t(3) t(1) fr]) (use s t in simp)
  moreover have "middle_kept s t l f" using s t L by (auto simp: middle_kept_def)
  ultimately show ?thesis using op integrity_pass d(3) by simp
qed

lemma AddAtPosition_tail:
  assumes crit: "crit_ok s" and xs: "is_list s l xs" "list_unlocked s l" "length xs < 255"
    and n: "node_at node s = Some n" "node_id n \<noteq> ID_INVALID" "node \<notin> set xs"
  shows "\<exists>t. ListNodeAddAtPosition l node LIST_POSITION_TAIL s = Some (OS_RES_OK, t)
     \<and> is_list t l (xs @ [node]) \<and> list_frame s t l (insert node (set xs)) \<and> middle_kept s t l (\<lambda>_. False)"
proof -
  obtain ll where ll: "ll_at l s = Some ll" "ll_head ll = first_or xs NULL" "ll_tail ll = last_or NULL xs"
    "unat (ll_size ll) = length xs" "ll_lock ll = 0" and d: "dseg (nodes s) NULL xs NULL" and dist: "distinct xs"
    using xs by (auto simp: is_list_def list_unlocked_def)
  note sz = small_size [OF ll(4) xs(3)]
  note N = node_at_SomeD [OF n(1)]
  show ?thesis
  proof (cases xs rule: rev_cases)
    case Nil
    then have z: "ll_size ll = 0" using sz by simp
    have pl: "same_payload (nodes s) ((nodes s)(node \<mapsto> n\<lparr>prev_node := NULL, next_node := NULL\<rparr>))"
      using N by (auto intro!: same_payload_upd)
    show ?thesis
      using finish_op [OF AddAtPosition_empty_state [OF crit ll(1,5) n(1,2) z] crit ll(1,5) refl, of "\<lambda>_. False" "[node]" "insert node (set xs)"]
        Nil N ll(5) pl by auto
  next
    case (snoc ys z)
    have tn: "ll_tail ll = z" using snoc ll(3) by simp
    obtain zn where zn: "node_at z s = Some zn" "prev_node zn = last_or NULL ys"
      using d snoc by (auto simp: node_at_def)
    have zne: "z \<noteq> node" using n(3) snoc by auto
    have pl: "same_payload (nodes s) ((nodes s)(z \<mapsto> zn\<lparr>next_node := node\<rparr>, node \<mapsto> n\<lparr>prev_node := z, next_node := NULL\<rparr>))"
      using node_at_SomeD [OF zn(1)] N zne by (auto intro!: same_payload_upd)
    show ?thesis
      using finish_op [OF AddAtPosition_tail_state [OF crit ll(1,5) n(1,2) sz(1)] crit ll(1,5) refl, of zn "\<lambda>_. False" "xs @ [node]" "insert node (set xs)"]
        zn zne snoc N ll(2,3,5) d dist n(3) sz xs(3) pl by (auto simp: tn)
  qed
qed


lemma AddAtPosition_head:
  assumes crit: "crit_ok s" and xs: "is_list s l xs" "list_unlocked s l" "length xs < 255"
    and n: "node_at node s = Some n" "node_id n \<noteq> ID_INVALID" "node \<notin> set xs"
  shows "\<exists>t. ListNodeAddAtPosition l node LIST_POSITION_HEAD s = Some (OS_RES_OK, t)
     \<and> is_list t l (node # xs) \<and> list_frame s t l (insert node (set xs)) \<and> middle_kept s t l (\<lambda>_. False)"
proof -
  obtain ll where ll: "ll_at l s = Some ll" "ll_head ll = first_or xs NULL" "ll_tail ll = last_or NULL xs"
    "unat (ll_size ll) = length xs" "ll_lock ll = 0" and d: "dseg (nodes s) NULL xs NULL" and dist: "distinct xs"
    using xs by (auto simp: is_list_def list_unlocked_def)
  note sz = small_size [OF ll(4) xs(3)]
  note N = node_at_SomeD [OF n(1)]
  show ?thesis
  proof (cases xs)
    case Nil
    then have z: "ll_size ll = 0" using sz by simp
    have pl: "same_payload (nodes s) ((nodes s)(node \<mapsto> n\<lparr>prev_node := NULL, next_node := NULL\<rparr>))"
      using N by (auto intro!: same_payload_upd)
    show ?thesis
      using finish_op [OF AddAtPosition_empty_state [OF crit ll(1,5) n(1,2) z] crit ll(1,5) refl, of "\<lambda>_. False" "[node]" "insert node (set xs)"]
        Nil N ll(5) pl by auto
  next
    case (Cons z ys)
    have tn: "ll_head ll = z" using Cons ll(2) by simp
    obtain zn where zn: "node_at z s = Some zn" "next_node zn = first_or ys NULL"
      using d Cons by (auto simp: node_at_def)
    have zne: "z \<noteq> node" using n(3) Cons by auto
    have pl: "same_payload (nodes s) ((nodes s)(z \<mapsto> zn\<lparr>prev_node := node\<rparr>, node \<mapsto> n\<lparr>next_node := z, prev_node := NULL\<rparr>))"
      using node_at_SomeD [OF zn(1)] N zne by (auto intro!: same_payload_upd)
    show ?thesis
      using finish_op [OF AddAtPosition_head_state [OF crit ll(1,5) n(1,2) sz(1)] crit ll(1,5) refl, of zn "\<lambda>_. False" "node # xs" "insert node (set xs)"]
        zn zne Cons N ll(2,3,5) d dist n(3) sz xs(3) pl by (auto simp: tn)
  qed
qed

subsection \<open>Adding next to a node\<close>

lemma AddAtNode_after_state:
  assumes "crit_ok s" and ll: "ll_at l s = Some ll" "ll_lock ll = 0" and n: "node_at y s = Some n"
    "node_id n \<noteq> ID_INVALID" and sz: "ll_size ll \<noteq> LIST_SIZE_MAX" "ll_size ll \<noteq> 0"
    and x: "node_at x s = Some xn" "x \<noteq> y" "x \<noteq> ll_tail ll"
    and z: "node_at (next_node xn) s = Some zn" "next_node xn \<noteq> x" "next_node xn \<noteq> y"
  shows "ListNodeAddAtNode l y x LIST_ADD_AFTER s = do {
     (r, s') \<leftarrow> ListIntegrityVerify l (s\<lparr>nodes := (nodes s)(x \<mapsto> xn\<lparr>next_node := y\<rparr>,
                     next_node xn \<mapsto> zn\<lparr>prev_node := y\<rparr>,
                     y \<mapsto> n\<lparr>next_node := next_node xn, prev_node := x\<rparr>),
               lists := (lists s)(l \<mapsto> ll\<lparr>ll_size := ll_size ll + 1, ll_sorted := False\<rparr>)\<rparr>);
     Some (OS_RES_OK, s')
   }"
  using assms ll_at_SomeD [OF ll(1)] node_at_SomeD [OF n(1)] node_at_SomeD [OF x(1)] node_at_SomeD [OF z(1)]
  by (cases "x = ll_head ll")
    (simp_all add: ListNodeAddAtNode_def list_op_eqs Let_def insert_head_def insert_after_def LIST_ADD_AFTER_def LIST_ADD_BEFORE_def)


lemma AddAtNode_after_tail_state:
  assumes "crit_ok s" and ll: "ll_at l s = Some ll" "ll_lock ll = 0" and n: "node_at y s = Some n"
    "node_id n \<noteq> ID_INVALID" and sz: "ll_size ll \<noteq> LIST_SIZE_MAX" "ll_size ll \<noteq> 0"
    and x: "node_at x s = Some xn" "x \<noteq> y" "x = ll_tail ll"
  shows "ListNodeAddAtNode l y x LIST_ADD_AFTER s = do {
     (r, s') \<leftarrow> ListIntegrityVerify l (s\<lparr>nodes := (nodes s)(x \<mapsto> xn\<lparr>next_node := y\<rparr>,
                     y \<mapsto> n\<lparr>next_node := NULL, prev_node := x\<rparr>),
               lists := (lists s)(l \<mapsto> ll\<lparr>ll_tail := y, ll_size := ll_size ll + 1, ll_sorted := False\<rparr>)\<rparr>);
     Some (OS_RES_OK, s')
   }"
  using assms ll_at_SomeD [OF ll(1)] node_at_SomeD [OF n(1)] node_at_SomeD [OF x(1)]
  by (simp add: ListNodeAddAtNode_def list_op_eqs insert_tail_def LIST_ADD_AFTER_def LIST_ADD_BEFORE_def)

lemma AddAtNode_before_head_state:
  assumes "crit_ok s" and ll: "ll_at l s = Some ll" "ll_lock ll = 0" and n: "node_at y s = Some n"
    "node_id n \<noteq> ID_INVALID" and sz: "ll_size ll \<noteq> LIST_SIZE_MAX" "ll_size ll \<noteq> 0"
    and x: "node_at x s = Some xn" "x \<noteq> y" "x = ll_head ll"
  shows "ListNodeAddAtNode l y x LIST_ADD_BEFORE s = do {
     (r, s') \<leftarrow> ListIntegrityVerify l (s\<lparr>nodes := (nodes s)(x \<mapsto> xn\<lparr>prev_node := y\<rparr>,
                     y \<mapsto> n\<lparr>next_node := x, prev_node := NULL\<rparr>),
               lists := (lists s)(l \<mapsto> ll\<lparr>ll_head := y, ll_size := ll_size ll + 1, ll_sorted := False\<rparr>)\<rparr>);
     Some (OS_RES_OK, s')
   }"
  using assms ll_at_SomeD [OF ll(1)] node_at_SomeD [OF n(1)] node_at_SomeD [OF x(1)]
  by (simp add: ListNodeAddAtNode_def list_op_eqs insert_head_def LIST_ADD_AFTER_def LIST_ADD_BEFORE_def)

lemma AddAtNode_before_state:
  assumes "crit_ok s" and ll: "ll_at l s = Some ll" "ll_lock ll = 0" and n: "node_at y s = Some n"
    "node_id n \<noteq> ID_INVALID" and sz: "ll_size ll \<noteq> LIST_SIZE_MAX" "ll_size ll \<noteq> 0"
    and x: "node_at x s = Some xn" "x \<noteq> y" "x \<noteq> ll_head ll"
    and z: "node_at (prev_node xn) s = Some zn" "prev_node xn \<noteq> x" "prev_node xn \<noteq> y"
  shows "ListNodeAddAtNode l y x LIST_ADD_BEFORE s = do {
     (r, s') \<leftarrow> ListIntegrityVerify l (s\<lparr>nodes := (nodes s)(x \<mapsto> xn\<lparr>prev_node := y\<rparr>,
                     prev_node xn \<mapsto> zn\<lparr>next_node := y\<rparr>,
                     y \<mapsto> n\<lparr>next_node := x, prev_node := prev_node xn\<rparr>),
               lists := (lists s)(l \<mapsto> ll\<lparr>ll_size := ll_size ll + 1, ll_sorted := False\<rparr>)\<rparr>);
     Some (OS_RES_OK, s')
   }"
  using assms ll_at_SomeD [OF ll(1)] node_at_SomeD [OF n(1)] node_at_SomeD [OF x(1)] node_at_SomeD [OF z(1)]
  by (cases "x = ll_tail ll")
    (simp_all add: ListNodeAddAtNode_def list_op_eqs Let_def insert_tail_def insert_before_def LIST_ADD_AFTER_def LIST_ADD_BEFORE_def)

lemma first_or_in: "xs \<noteq> [] \<Longrightarrow> first_or xs p \<in> set xs"
  and last_or_in: "xs \<noteq> [] \<Longrightarrow> last_or p xs \<in> set xs"
  by (simp_all add: first_or_def last_or_def)

text \<open>A node \<open>x\<close> of a well-formed list with what surrounds it.\<close>

lemma is_list_split:
  assumes "is_list s l (as @ x # bs)" and "list_unlocked s l"
  obtains ll xn where "ll_at l s = Some ll" "ll_lock ll = 0" "ll_head ll = first_or as x"
    "ll_tail ll = last_or x bs" "unat (ll_size ll) = length as + length bs + 1"
    "node_at x s = Some xn" "prev_node xn = last_or NULL as" "next_node xn = first_or bs NULL"
    "dseg (nodes s) NULL as x" "dseg (nodes s) x bs NULL" "distinct (as @ x # bs)"
  using assms by (auto simp: is_list_def list_unlocked_def node_at_def)

lemma AddAtNode_after:
  assumes crit: "crit_ok s" and xs: "is_list s l (as @ x # bs)" "list_unlocked s l" "length (as @ x # bs) < 255"
    and n: "node_at y s = Some n" "node_id n \<noteq> ID_INVALID" "y \<notin> set (as @ x # bs)"
  shows "\<exists>t. ListNodeAddAtNode l y x LIST_ADD_AFTER s = Some (OS_RES_OK, t)
     \<and> is_list t l (as @ x # y # bs) \<and> list_frame s t l (insert y (set (as @ x # bs))) \<and> middle_kept s t l (\<lambda>_. False)"
proof -
  obtain ll xn where ll: "ll_at l s = Some ll" "ll_lock ll = 0" "ll_head ll = first_or as x"
    "ll_tail ll = last_or x bs" "unat (ll_size ll) = length as + length bs + 1"
    and x: "node_at x s = Some xn" "prev_node xn = last_or NULL as" "next_node xn = first_or bs NULL"
    and d: "dseg (nodes s) NULL as x" "dseg (nodes s) x bs NULL" and dist: "distinct (as @ x # bs)"
    by (rule is_list_split [OF xs(1,2)])
  have "length as + length bs + 1 < 255" using xs(3) by simp
  note sz = small_size [OF ll(5) this]
  note N = node_at_SomeD [OF n(1)] and X = node_at_SomeD [OF x(1)]
  have xy: "x \<noteq> y" using n(3) by auto
  have sz0: "ll_size ll \<noteq> 0" using sz(3) by simp
  show ?thesis
  proof (cases bs)
    case Nil
    have pl: "same_payload (nodes s) ((nodes s)(x \<mapsto> xn\<lparr>next_node := y\<rparr>, y \<mapsto> n\<lparr>next_node := NULL, prev_node := x\<rparr>))"
      using N X xy by (auto intro!: same_payload_upd)
    have t: "x = ll_tail ll" using ll(4) Nil by simp
    show ?thesis
      using finish_op [OF AddAtNode_after_tail_state [OF crit ll(1,2) n(1,2) sz(4) sz0 x(1) xy t] crit ll(1,2) refl,
          of "\<lambda>_. False" "as @ [x, y]" "insert y (set (as @ x # bs))"]
        Nil N X xy x d dist n(3) sz ll(2,3,4,5) xs(3) pl by auto
  next
    case (Cons z cs)
    obtain zn where zn: "node_at z s = Some zn" "prev_node zn = x" "next_node zn = first_or cs NULL"
      using d(2) Cons by (auto simp: node_at_def)
    have ne: "z \<noteq> x" "z \<noteq> y" "next_node xn = z" using dist n(3) Cons x(3) by auto
    have t: "x \<noteq> ll_tail ll" using ll(4) Cons dist by (auto simp: last_or_def)
    have pl: "same_payload (nodes s) ((nodes s)(x \<mapsto> xn\<lparr>next_node := y\<rparr>, z \<mapsto> zn\<lparr>prev_node := y\<rparr>, y \<mapsto> n\<lparr>next_node := z, prev_node := x\<rparr>))"
      using N X xy ne node_at_SomeD [OF zn(1)] by (auto intro!: same_payload_upd)
    show ?thesis
      using finish_op [OF AddAtNode_after_state [OF crit ll(1,2) n(1,2) sz(4) sz0 x(1) xy t, of zn] crit ll(1,2) refl,
          of "\<lambda>_. False" "as @ x # y # bs" "insert y (set (as @ x # bs))"]
        Cons N X xy x d dist n(3) sz ll(2,3,4,5) xs(3) pl ne zn by auto
  qed
qed

lemma AddAtNode_before:
  assumes crit: "crit_ok s" and xs: "is_list s l (as @ x # bs)" "list_unlocked s l" "length (as @ x # bs) < 255"
    and n: "node_at y s = Some n" "node_id n \<noteq> ID_INVALID" "y \<notin> set (as @ x # bs)"
  shows "\<exists>t. ListNodeAddAtNode l y x LIST_ADD_BEFORE s = Some (OS_RES_OK, t)
     \<and> is_list t l (as @ y # x # bs) \<and> list_frame s t l (insert y (set (as @ x # bs))) \<and> middle_kept s t l (\<lambda>_. False)"
proof -
  obtain ll xn where ll: "ll_at l s = Some ll" "ll_lock ll = 0" "ll_head ll = first_or as x"
    "ll_tail ll = last_or x bs" "unat (ll_size ll) = length as + length bs + 1"
    and x: "node_at x s = Some xn" "prev_node xn = last_or NULL as" "next_node xn = first_or bs NULL"
    and d: "dseg (nodes s) NULL as x" "dseg (nodes s) x bs NULL" and dist: "distinct (as @ x # bs)"
    by (rule is_list_split [OF xs(1,2)])
  have "length as + length bs + 1 < 255" using xs(3) by simp
  note sz = small_size [OF ll(5) this]
  note N = node_at_SomeD [OF n(1)] and X = node_at_SomeD [OF x(1)]
  have xy: "x \<noteq> y" using n(3) by auto
  have sz0: "ll_size ll \<noteq> 0" using sz(3) by simp
  show ?thesis
  proof (cases as rule: rev_cases)
    case Nil
    have pl: "same_payload (nodes s) ((nodes s)(x \<mapsto> xn\<lparr>prev_node := y\<rparr>, y \<mapsto> n\<lparr>next_node := x, prev_node := NULL\<rparr>))"
      using N X xy by (auto intro!: same_payload_upd)
    have t: "x = ll_head ll" using ll(3) Nil by simp
    show ?thesis
      using finish_op [OF AddAtNode_before_head_state [OF crit ll(1,2) n(1,2) sz(4) sz0 x(1) xy t] crit ll(1,2) refl,
          of "\<lambda>_. False" "y # x # bs" "insert y (set (as @ x # bs))"]
        Nil N X xy x d dist n(3) sz ll(2,3,4,5) xs(3) pl by auto
  next
    case (snoc cs z)
    obtain zn where zn: "node_at z s = Some zn" "prev_node zn = last_or NULL cs" "next_node zn = x"
      using d(1) snoc by (auto simp: node_at_def)
    have ne: "z \<noteq> x" "z \<noteq> y" "prev_node xn = z" using dist n(3) snoc x(2) by auto
    have t: "x \<noteq> ll_head ll" using ll(3) snoc dist first_or_in [of as x] by auto
    have pl: "same_payload (nodes s) ((nodes s)(x \<mapsto> xn\<lparr>prev_node := y\<rparr>, z \<mapsto> zn\<lparr>next_node := y\<rparr>, y \<mapsto> n\<lparr>next_node := x, prev_node := z\<rparr>))"
      using N X xy ne node_at_SomeD [OF zn(1)] by (auto intro!: same_payload_upd)
    show ?thesis
      using finish_op [OF AddAtNode_before_state [OF crit ll(1,2) n(1,2) sz(4) sz0 x(1) xy t, of zn] crit ll(1,2) refl,
          of "\<lambda>_. False" "as @ y # x # bs" "insert y (set (as @ x # bs))"]
        snoc N X xy x d dist n(3) sz ll(2,3,4,5) xs(3) pl ne zn by auto
  qed
qed


subsection \<open>Removing a node\<close>

text \<open>
  The four cases of \<open>ListNodeRemove\<close>. The middle pointer stays as it is, also when it points to the removed
  node, because the size is read as 0 while the list is write-locked.
\<close>

definition unlinked :: "ListNode_t \<Rightarrow> ListNode_t" where
  "unlinked n = n\<lparr>prev_node := NULL, next_node := NULL\<rparr>"

lemma Remove_only_state:
  assumes "crit_ok s" and ll: "ll_at l s = Some ll" "ll_lock ll = 0" and n: "node_at y s = Some n"
    and sz: "ll_size ll = 1"
  shows "ListNodeRemove l y s = do {
     (r, s') \<leftarrow> ListIntegrityVerify l (s\<lparr>nodes := (nodes s)(y \<mapsto> unlinked n),
               lists := (lists s)(l \<mapsto> ll\<lparr>ll_head := NULL, ll_tail := NULL, ll_size := 0\<rparr>)\<rparr>);
     Some (y, s')
   }"
  using assms ll_at_SomeD [OF ll(1)] node_at_SomeD [OF n(1)]
  by (cases "ll_middle ll = y")
    (simp_all add: ListNodeRemove_def ListIsLocked_def list_op_eqs ListSizeGet_write_locked unlinked_def Let_def)

lemma Remove_head_state:
  assumes "crit_ok s" and ll: "ll_at l s = Some ll" "ll_lock ll = 0" and n: "node_at y s = Some n"
    and sz: "ll_size ll \<noteq> 1" "ll_size ll \<noteq> 2" "y = ll_head ll"
    and z: "node_at (next_node n) s = Some zn" "next_node n \<noteq> y"
  shows "ListNodeRemove l y s = do {
     (r, s') \<leftarrow> ListIntegrityVerify l (s\<lparr>nodes := (nodes s)(next_node n \<mapsto> zn\<lparr>prev_node := NULL\<rparr>, y \<mapsto> unlinked n),
               lists := (lists s)(l \<mapsto> ll\<lparr>ll_head := next_node n, ll_size := ll_size ll - 1\<rparr>)\<rparr>);
     Some (y, s')
   }"
  using assms ll_at_SomeD [OF ll(1)] node_at_SomeD [OF n(1)] node_at_SomeD [OF z(1)]
  by (cases "ll_middle ll = y")
    (simp_all add: ListNodeRemove_def ListIsLocked_def list_op_eqs ListSizeGet_write_locked unlinked_def Let_def)


lemma Remove_tail_state:
  assumes "crit_ok s" and ll: "ll_at l s = Some ll" "ll_lock ll = 0" and n: "node_at y s = Some n"
    and sz: "ll_size ll \<noteq> 1" "ll_size ll \<noteq> 2" "y \<noteq> ll_head ll" "y = ll_tail ll"
    and z: "node_at (prev_node n) s = Some zn" "prev_node n \<noteq> y"
  shows "ListNodeRemove l y s = do {
     (r, s') \<leftarrow> ListIntegrityVerify l (s\<lparr>nodes := (nodes s)(prev_node n \<mapsto> zn\<lparr>next_node := NULL\<rparr>, y \<mapsto> unlinked n),
               lists := (lists s)(l \<mapsto> ll\<lparr>ll_tail := prev_node n, ll_size := ll_size ll - 1\<rparr>)\<rparr>);
     Some (y, s')
   }"
  using assms ll_at_SomeD [OF ll(1)] node_at_SomeD [OF n(1)] node_at_SomeD [OF z(1)]
  by (cases "ll_middle ll = y")
    (simp_all add: ListNodeRemove_def ListIsLocked_def list_op_eqs ListSizeGet_write_locked unlinked_def Let_def)

lemma Remove_mid_state:
  assumes "crit_ok s" and ll: "ll_at l s = Some ll" "ll_lock ll = 0" and n: "node_at y s = Some n"
    and sz: "ll_size ll \<noteq> 1" "ll_size ll \<noteq> 2" "y \<noteq> ll_head ll" "y \<noteq> ll_tail ll"
    and x: "node_at (prev_node n) s = Some xn" "prev_node n \<noteq> y"
    and z: "node_at (next_node n) s = Some zn" "next_node n \<noteq> y" "next_node n \<noteq> prev_node n"
  shows "ListNodeRemove l y s = do {
     (r, s') \<leftarrow> ListIntegrityVerify l (s\<lparr>nodes := (nodes s)(prev_node n \<mapsto> xn\<lparr>next_node := next_node n\<rparr>,
                  next_node n \<mapsto> zn\<lparr>prev_node := prev_node n\<rparr>, y \<mapsto> unlinked n),
               lists := (lists s)(l \<mapsto> ll\<lparr>ll_size := ll_size ll - 1\<rparr>)\<rparr>);
     Some (y, s')
   }"
  using assms ll_at_SomeD [OF ll(1)] node_at_SomeD [OF n(1)] node_at_SomeD [OF x(1)] node_at_SomeD [OF z(1)]
  by (cases "ll_middle ll = y")
    (simp_all add: ListNodeRemove_def ListIsLocked_def list_op_eqs ListSizeGet_write_locked unlinked_def Let_def)

lemma Remove_second_state:
  assumes "crit_ok s" and ll: "ll_at l s = Some ll" "ll_lock ll = 0" and n: "node_at y s = Some n"
    and sz: "ll_size ll = 2" and x: "node_at (prev_node n) s = Some xn" "prev_node n \<noteq> y"
  shows "ListNodeRemove l y s = do {
     (r, s') \<leftarrow> ListIntegrityVerify l (s\<lparr>nodes := (nodes s)(prev_node n \<mapsto> xn\<lparr>next_node := NULL, prev_node := NULL\<rparr>, y \<mapsto> unlinked n),
               lists := (lists s)(l \<mapsto> ll\<lparr>ll_head := prev_node n, ll_tail := prev_node n, ll_size := 1\<rparr>)\<rparr>);
     Some (y, s')
   }"
  using assms ll_at_SomeD [OF ll(1)] node_at_SomeD [OF n(1)] node_at_SomeD [OF x(1)]
  by (cases "ll_middle ll = y")
    (simp_all add: ListNodeRemove_def ListIsLocked_def list_op_eqs ListSizeGet_write_locked unlinked_def Let_def)

lemma Remove_first_of_two_state:
  assumes "crit_ok s" and ll: "ll_at l s = Some ll" "ll_lock ll = 0" and n: "node_at y s = Some n" "prev_node n = NULL"
    and sz: "ll_size ll = 2" and z: "node_at (next_node n) s = Some zn" "next_node n \<noteq> y"
  shows "ListNodeRemove l y s = do {
     (r, s') \<leftarrow> ListIntegrityVerify l (s\<lparr>nodes := (nodes s)(next_node n \<mapsto> zn\<lparr>next_node := NULL, prev_node := NULL\<rparr>, y \<mapsto> unlinked n),
               lists := (lists s)(l \<mapsto> ll\<lparr>ll_head := next_node n, ll_tail := next_node n, ll_size := 1\<rparr>)\<rparr>);
     Some (y, s')
   }"
  using assms ll_at_SomeD [OF ll(1)] node_at_SomeD [OF n(1)] node_at_SomeD [OF z(1)]
  by (cases "ll_middle ll = y")
    (simp_all add: ListNodeRemove_def ListIsLocked_def list_op_eqs ListSizeGet_write_locked unlinked_def Let_def)

lemma list_size_minus1: "unat (sz :: ListSize_t) = Suc k \<Longrightarrow> unat (sz - 1) = k"
  by (subst unat_minus_one) auto

lemma list_size_eq: "unat (sz :: ListSize_t) = k \<Longrightarrow> (sz = 1) = (k = 1) \<and> (sz = 2) = (k = 2)"
  by (auto simp: word_unat_eq_iff)

lemma same_payload_upd_unlinked:
  "same_payload h h' \<Longrightarrow> h' p = Some n \<Longrightarrow> same_payload h (h'(p \<mapsto> unlinked n))"
  by (rule same_payload_upd) (auto simp: unlinked_def)

lemma unlinked_simps [simp]:
  "node_id (unlinked n) = node_id n" "child (unlinked n) = child n" "node_lock (unlinked n) = node_lock n"
  "next_node (unlinked n) = NULL" "prev_node (unlinked n) = NULL"
  by (simp_all add: unlinked_def)

lemma ListNodeRemove_ok:
  assumes crit: "crit_ok s" and xs: "is_list s l (as @ y # bs)" "list_unlocked s l" "length (as @ y # bs) \<le> 255"
  shows "\<exists>t n. ListNodeRemove l y s = Some (y, t) \<and> is_list t l (as @ bs)
     \<and> list_frame s t l (set (as @ y # bs)) \<and> middle_kept s t l (\<lambda>b. b) \<and> nodes s y = Some n \<and> nodes t y = Some (unlinked n)"
proof -
  obtain ll n where ll: "ll_at l s = Some ll" "ll_lock ll = 0" "ll_head ll = first_or as y"
    "ll_tail ll = last_or y bs" "unat (ll_size ll) = length as + length bs + 1"
    and n: "node_at y s = Some n" "prev_node n = last_or NULL as" "next_node n = first_or bs NULL"
    and d: "dseg (nodes s) NULL as y" "dseg (nodes s) y bs NULL" and dist: "distinct (as @ y # bs)"
    by (rule is_list_split [OF xs(1,2)])
  note N = node_at_SomeD [OF n(1)]
  have sz: "ll_size ll = 1 \<longleftrightarrow> length as + length bs + 1 = 1" "ll_size ll = 2 \<longleftrightarrow> length as + length bs + 1 = 2"
    using list_size_eq [OF ll(5)] by blast+
  have sz1: "unat (ll_size ll - 1) = length as + length bs" using ll(5) by (intro list_size_minus1) simp
  let ?S = "set (as @ y # bs)"
  consider (only) "as = []" "bs = []" | (first2) z where "as = []" "bs = [z]" | (second2) z where "as = [z]" "bs = []"
    | (head) z z' cs where "as = []" "bs = z # z' # cs" | (last) z z' cs where "as = cs @ [z', z]" "bs = []"
    | (mid) x cs z ds where "as = cs @ [x]" "bs = z # ds"
  proof (cases as rule: rev_cases)
    case Nil
    show thesis
    proof (cases bs)
      case (Cons z ds)
      then show thesis using Nil that(2,4) by (cases ds) auto
    qed (use Nil that(1) in auto)
  next
    case (snoc cs x)
    show thesis
    proof (cases bs)
      case Nil
      then show thesis using snoc that(3,5) by (cases cs rule: rev_cases) auto
    qed (use snoc that(6) in auto)
  qed
  then show ?thesis
  proof cases
    case only
    then have s1: "ll_size ll = 1" using sz by simp
    have pl: "same_payload (nodes s) ((nodes s)(y \<mapsto> unlinked n))" using N by (auto intro!: same_payload_upd_unlinked)
    show ?thesis
      using finish_op [OF Remove_only_state [OF crit ll(1,2) n(1) s1] crit ll(1,2) refl, of "\<lambda>b. b" "[]" ?S] only N ll(2) pl by auto
  next
    case (first2 z)
    then have s2: "ll_size ll = 2" and zb: "next_node n = z" and pn: "prev_node n = NULL" using sz n by simp_all
    obtain zn where zn: "node_at z s = Some zn" using d(2) first2 by (auto simp: node_at_def)
    have ne: "z \<noteq> y" using dist first2 by auto
    have pl: "same_payload (nodes s) ((nodes s)(z \<mapsto> zn\<lparr>next_node := NULL, prev_node := NULL\<rparr>, y \<mapsto> unlinked n))"
      using N ne node_at_SomeD [OF zn] by (auto intro!: same_payload_upd_unlinked same_payload_upd)
    show ?thesis
      using finish_op [OF Remove_first_of_two_state [OF crit ll(1,2) n(1) pn s2, of zn] crit ll(1,2) refl, of "\<lambda>b. b" "[z]" ?S]
        first2 N ll(2) pl zn ne zb node_at_SomeD [OF zn] by auto
  next
    case (second2 z)
    then have s2: "ll_size ll = 2" and zb: "prev_node n = z" using sz n by simp_all
    obtain zn where zn: "node_at z s = Some zn" using d(1) second2 by (auto simp: node_at_def)
    have ne: "z \<noteq> y" using dist second2 by auto
    have pl: "same_payload (nodes s) ((nodes s)(z \<mapsto> zn\<lparr>next_node := NULL, prev_node := NULL\<rparr>, y \<mapsto> unlinked n))"
      using N ne node_at_SomeD [OF zn] by (auto intro!: same_payload_upd_unlinked same_payload_upd)
    show ?thesis
      using finish_op [OF Remove_second_state [OF crit ll(1,2) n(1) s2, of zn] crit ll(1,2) refl, of "\<lambda>b. b" "[z]" ?S]
        second2 N ll(2) pl zn ne zb node_at_SomeD [OF zn] by auto
  next
    case (head z z' cs)
    then have s3: "ll_size ll \<noteq> 1" "ll_size ll \<noteq> 2" "y = ll_head ll" and zb: "next_node n = z" using sz n ll(3) by simp_all
    obtain zn where zn: "node_at z s = Some zn" "next_node zn = z'" using d(2) head by (auto simp: node_at_def)
    have ne: "z \<noteq> y" using dist head by auto
    have pl: "same_payload (nodes s) ((nodes s)(z \<mapsto> zn\<lparr>prev_node := NULL\<rparr>, y \<mapsto> unlinked n))"
      using N ne node_at_SomeD [OF zn(1)] by (auto intro!: same_payload_upd_unlinked same_payload_upd)
    show ?thesis
      using finish_op [OF Remove_head_state [OF crit ll(1,2) n(1) s3, of zn] crit ll(1,2) refl, of "\<lambda>b. b" "z # z' # cs" ?S]
        head N ll(2,4,5) pl zn ne zb node_at_SomeD [OF zn(1)] sz1 xs(3) dist d by auto
  next
    case (last z z' cs)
    then have s3: "ll_size ll \<noteq> 1" "ll_size ll \<noteq> 2" "y = ll_tail ll" and zb: "prev_node n = z" using sz n ll(4) by simp_all
    have hd: "y \<noteq> ll_head ll" using dist last ll(3) first_or_in [of as y] by auto
    obtain zn where zn: "node_at z s = Some zn" "prev_node zn = z'" using d(1) last by (auto simp: node_at_def)
    have ne: "z \<noteq> y" using dist last by auto
    have pl: "same_payload (nodes s) ((nodes s)(z \<mapsto> zn\<lparr>next_node := NULL\<rparr>, y \<mapsto> unlinked n))"
      using N ne node_at_SomeD [OF zn(1)] by (auto intro!: same_payload_upd_unlinked same_payload_upd)
    show ?thesis
      using finish_op [OF Remove_tail_state [OF crit ll(1,2) n(1) s3(1,2) hd s3(3), of zn] crit ll(1,2) refl, of "\<lambda>b. b" "cs @ [z', z]" ?S]
        last N ll(2,3,5) pl zn ne zb node_at_SomeD [OF zn(1)] sz1 xs(3) dist d by auto
  next
    case (mid x cs z ds)
    have s3: "ll_size ll \<noteq> 1" "ll_size ll \<noteq> 2" and zb: "prev_node n = x" "next_node n = z" using sz n mid by simp_all
    have hd: "y \<noteq> ll_head ll" "y \<noteq> ll_tail ll"
      using dist mid ll(3,4) first_or_in [of as y] last_or_in [of bs y] by auto
    obtain xn where xn: "node_at x s = Some xn" using d(1) mid by (auto simp: node_at_def)
    obtain zn where zn: "node_at z s = Some zn" using d(2) mid by (auto simp: node_at_def)
    have ne: "z \<noteq> y" "x \<noteq> y" "z \<noteq> x" using dist mid by auto
    have pl: "same_payload (nodes s) ((nodes s)(x \<mapsto> xn\<lparr>next_node := z\<rparr>, z \<mapsto> zn\<lparr>prev_node := x\<rparr>, y \<mapsto> unlinked n))"
      using N ne node_at_SomeD [OF zn(1)] node_at_SomeD [OF xn(1)] by (auto intro!: same_payload_upd_unlinked same_payload_upd)
    show ?thesis
      using finish_op [OF Remove_mid_state [OF crit ll(1,2) n(1) s3 hd, of xn zn] crit ll(1,2) refl, of "\<lambda>b. b" "cs @ x # z # ds" ?S]
        mid N ll(2,3,4,5) pl zn xn ne zb node_at_SomeD [OF zn(1)] node_at_SomeD [OF xn(1)] sz1 xs(3) dist d by auto
  qed
qed

end
