(* ===== verification/ListSearch.thy ===== *)
theory ListSearch
  imports ListOps
begin

text \<open>
  Iteration over lists and the correctness of searching, in both directions and with the early exit on sorted
  lists.
\<close>

subsection \<open>Iterators walk along a chain of nodes\<close>

definition it_step :: "U8_t \<Rightarrow> ListNode_t \<Rightarrow> ptr" where
  "it_step dir = (if dir = LIST_ITERATOR_DIRECTION_FORWARD then next_node else prev_node)"

abbreviation valid_dir :: "U8_t \<Rightarrow> bool" where
  "valid_dir dir \<equiv> dir = LIST_ITERATOR_DIRECTION_FORWARD \<or> dir = LIST_ITERATOR_DIRECTION_REVERSE"

fun chain :: "U8_t \<Rightarrow> (ptr \<Rightarrow> ListNode_t option) \<Rightarrow> ptr list \<Rightarrow> bool" where
  "chain dir h [] \<longleftrightarrow> True"
| "chain dir h (x # xs) \<longleftrightarrow>
     x \<noteq> NULL \<and> (\<exists>nd. h x = Some nd \<and> it_step dir nd = first_or xs NULL) \<and> chain dir h xs"

lemma dir_neq [simp]: "LIST_ITERATOR_DIRECTION_REVERSE \<noteq> LIST_ITERATOR_DIRECTION_FORWARD"
  "LIST_ITERATOR_DIRECTION_FORWARD \<noteq> LIST_ITERATOR_DIRECTION_REVERSE"
  by (simp_all add: LIST_ITERATOR_DIRECTION_REVERSE_def LIST_ITERATOR_DIRECTION_FORWARD_def)

lemma chain_forward: "dseg h p xs NULL \<Longrightarrow> chain LIST_ITERATOR_DIRECTION_FORWARD h xs"
  by (induction xs arbitrary: p) (auto simp: it_step_def)

lemma chain_reverse: "dseg h NULL xs n \<Longrightarrow> chain LIST_ITERATOR_DIRECTION_REVERSE h (rev xs)"
proof (induction xs arbitrary: n rule: rev_induct)
  case (snoc x xs)
  have "first_or (rev xs) NULL = last_or NULL xs"
    by (simp add: first_or_def last_or_def hd_rev)
  with snoc show ?case by (auto simp: it_step_def)
qed simp

text \<open>The iterator stands at the first of the nodes \<open>ys\<close>, with the rest ahead of it.\<close>

definition it_at :: "ListIterator \<Rightarrow> U8_t \<Rightarrow> ptr list \<Rightarrow> bool" where
  "it_at it dir ys \<longleftrightarrow> it_direction it = dir \<and> it_current_node it = first_or ys NULL \<and>
     it_next_node it = first_or (tl ys) NULL"

lemma LIST_ITERATOR_END_step:
  assumes "valid_dir dir" and "it_at it dir (x # ys)" and "chain dir (nodes s) (x # ys)"
  shows "\<exists>it'. LIST_ITERATOR_END it s = Some (ys \<noteq> [], it') \<and> it_at it' dir ys \<and> it_list it' = it_list it"
proof (cases ys)
  case Nil
  then show ?thesis
    using assms by (auto simp: LIST_ITERATOR_END_def ListIteratorNext_def it_at_def)
next
  case (Cons y zs)
  then obtain nd where "node_at y s = Some nd" "it_step dir nd = first_or zs NULL" "y \<noteq> NULL"
    using assms(3) by (auto simp: node_at_def)
  then show ?thesis
    using assms Cons by (auto simp: LIST_ITERATOR_END_def ListIteratorNext_def ListIteratorEnd_def it_at_def it_step_def)
qed

lemma ListIteratorInit_ok:
  assumes crit: "crit_ok s" and ll: "ll_at l s = Some ll" "ll_lock ll = 0 \<or> ll_lock ll = 1"
    and dir: "valid_dir dir"
    and ys: "chain dir (nodes s) ys"
      "(if dir = LIST_ITERATOR_DIRECTION_FORWARD then ll_head ll else ll_tail ll) = first_or ys NULL"
  shows "\<exists>it'. ListIteratorInit it l dir s = Some ((OS_RES_OK, it'), s) \<and> it_at it' dir ys \<and> it_list it' = l"
proof -
  note L = ll_at_SomeD [OF ll(1)]
  let ?t = "s\<lparr>lists := (lists s)(l \<mapsto> ll\<lparr>ll_lock := ll_lock ll + 1\<rparr>)\<rparr>"
  have lock: "ListLock l LIST_LOCK_MODE_READ s = Some (OS_RES_OK, ?t)"
    using ll crit by (auto simp: ListLock_eq)
  have unlock: "ListUnlock l ?t = Some (OS_RES_OK, s)"
    using ll crit L by (auto simp: ListUnlock_eq lists_triv)
  have at: "ll_at l ?t = Some (ll\<lparr>ll_lock := ll_lock ll + 1\<rparr>)" using L by simp
  show ?thesis
  proof (cases ys)
    case Nil
    then show ?thesis
      using dir ys(2) L by (auto simp: ListIteratorInit_def lock unlock at it_at_def Let_def)
  next
    case (Cons y zs)
    then obtain nd where "node_at y s = Some nd" "it_step dir nd = first_or zs NULL" "y \<noteq> NULL"
      using ys(1) by (auto simp: node_at_def)
    then show ?thesis
      using dir ys(2) L Cons by (auto simp: ListIteratorInit_def lock unlock at it_at_def Let_def it_step_def)
  qed
qed

subsection \<open>Search\<close>

definition nid :: "'a list_state_scheme \<Rightarrow> ptr \<Rightarrow> Id_t" where
  "nid s p = node_id (the (nodes s p))"

definition find_id :: "'a list_state_scheme \<Rightarrow> Id_t \<Rightarrow> ptr list \<Rightarrow> ptr" where
  "find_id s oid xs = (case find (\<lambda>p. nid s p = oid) xs of Some p \<Rightarrow> p | None \<Rightarrow> NULL)"

lemma find_id_simps [simp]: "find_id s oid [] = NULL"
  "find_id s oid (x # xs) = (if nid s x = oid then x else find_id s oid xs)"
  by (simp_all add: find_id_def)

lemma find_id_absent: "oid \<notin> nid s ` set xs \<Longrightarrow> find_id s oid xs = NULL"
  by (induction xs) auto

lemma ListSearchLinear_loop_find:
  assumes "it_at it LIST_ITERATOR_DIRECTION_FORWARD ys" and "chain LIST_ITERATOR_DIRECTION_FORWARD (nodes s) ys" and "ys \<noteq> []"
  shows "ListSearchLinear_loop l oid it s = Some (find_id s oid ys)"
  using assms
proof (induction ys arbitrary: it)
  case (Cons y ys)
  obtain nd where nd: "node_at y s = Some nd" using Cons.prems(2) by (auto simp: node_at_def)
  obtain it' where e: "LIST_ITERATOR_END it s = Some (ys \<noteq> [], it')" "it_at it' LIST_ITERATOR_DIRECTION_FORWARD ys"
    using LIST_ITERATOR_END_step [OF _ Cons.prems(1,2)] by blast
  have cur: "it_current_node it = y" using Cons.prems(1) by (simp add: it_at_def)
  have id: "nid s y = node_id nd" using node_at_SomeD [OF nd] by (simp add: nid_def)
  show ?case
    using Cons.IH [OF e(2)] Cons.prems(2)
    by (cases "ys = []"; subst ListSearchLinear_loop.simps) (simp_all add: cur nd id e(1))
qed simp

text \<open>The order a sorted list has, seen from the search direction.\<close>

definition dir_order :: "U8_t \<Rightarrow> Id_t \<Rightarrow> Id_t \<Rightarrow> bool" where
  "dir_order dir a b = (if dir = LIST_ITERATOR_DIRECTION_FORWARD then a < b else a > b)"

lemma ListSearch_loop_find:
  assumes dir: "valid_dir dir" and ll: "ll_at l s = Some ll"
    and "it_at it dir ys" and "chain dir (nodes s) ys"
    and "ll_sorted ll \<and> ll_middle ll \<noteq> NULL \<Longrightarrow> sorted_wrt (dir_order dir) (map (nid s) ys)"
  shows "ListSearch_loop l oid dir it s = Some (find_id s oid ys)"
  using assms(3-)
proof (induction ys arbitrary: it)
  case Nil
  then show ?case by (subst ListSearch_loop.simps) (simp add: it_at_def)
next
  case (Cons y ys)
  obtain nd where nd: "node_at y s = Some nd" using Cons.prems(2) by (auto simp: node_at_def)
  obtain it' where e: "LIST_ITERATOR_END it s = Some (ys \<noteq> [], it')" "it_at it' dir ys"
    using LIST_ITERATOR_END_step [OF dir Cons.prems(1,2)] by blast
  have cur: "it_current_node it = y" "it_next_node it = first_or ys NULL" "y \<noteq> NULL"
    using Cons.prems(1,2) by (auto simp: it_at_def)
  have id: "nid s y = node_id nd" using node_at_SomeD [OF nd] by (simp add: nid_def)
  let ?sorted = "ll_sorted ll \<and> ll_middle ll \<noteq> NULL"
  have IH: "ListSearch_loop l oid dir it' s = Some (find_id s oid ys)"
    using Cons.prems by (intro Cons.IH [OF e(2)]) auto
  show ?case
  proof (cases "ys = []")
    case True
    then show ?thesis
      using IH by (subst ListSearch_loop.simps) (simp add: cur nd id e(1) ll)
  next
    case False
    then obtain z zs where ys: "ys = z # zs" by (cases ys) auto
    obtain nz where nz: "node_at z s = Some nz" "z \<noteq> NULL" using Cons.prems(2) ys by (auto simp: node_at_def)
    have idz: "nid s z = node_id nz" using node_at_SomeD [OF nz(1)] by (simp add: nid_def)
    let ?exit = "(oid < node_id nz \<and> dir = LIST_ITERATOR_DIRECTION_FORWARD) \<or> (oid > node_id nz \<and> dir = LIST_ITERATOR_DIRECTION_REVERSE)"
    have absent: "find_id s oid ys = NULL" if "?sorted" "?exit"
    proof -
      have "sorted_wrt (dir_order dir) (map (nid s) ys)" using Cons.prems(3) that(1) by simp
      then have "oid \<notin> nid s ` set ys" using that(2) dir ys idz by (auto simp: dir_order_def split: if_splits)
      then show ?thesis by (rule find_id_absent)
    qed
    show ?thesis
      using IH absent False cur(2)
      by (subst ListSearch_loop.simps) (auto simp: cur nd id e(1) ll ys nz idz)
  qed
qed


text \<open>
  A list in sorted state: ascending IDs, and the middle pointer, which steers the search, is null or points
  into the list. The header of an empty list says nothing about its order.
\<close>

definition sorted_list :: "'a list_state_scheme \<Rightarrow> lptr \<Rightarrow> ptr list \<Rightarrow> bool" where
  "sorted_list s l xs \<longleftrightarrow> is_list s l xs \<and> sorted_wrt (<) (map (nid s) xs) \<and>
     (xs \<noteq> [] \<longrightarrow> (\<exists>ll. ll_at l s = Some ll \<and> ll_sorted ll \<and> (ll_middle ll = NULL \<or> ll_middle ll \<in> set xs)))"

text \<open>What the search needs of a list: no order, or a sorted state it can trust.\<close>

definition searchable :: "'a list_state_scheme \<Rightarrow> lptr \<Rightarrow> ptr list \<Rightarrow> bool" where
  "searchable s l xs \<longleftrightarrow> is_list s l xs \<and>
     (\<forall>ll. ll_at l s = Some ll \<and> ll_sorted ll \<and> ll_middle ll \<noteq> NULL \<longrightarrow>
        (\<exists>m. node_at (ll_middle ll) s = Some m) \<and> sorted_wrt (<) (map (nid s) xs))"

lemma sorted_list_searchable: "sorted_list s l xs \<Longrightarrow> xs \<noteq> [] \<Longrightarrow> searchable s l xs"
  using is_list_nodes by (fastforce simp: sorted_list_def searchable_def)

lemma find_id_rev:
  assumes "sorted_wrt (<) (map (nid s) xs)"
  shows "find_id s oid (rev xs) = find_id s oid xs"
proof (cases "oid \<in> nid s ` set xs")
  case True
  then obtain as x bs where xs: "xs = as @ x # bs" and x: "nid s x = oid"
    by (metis imageE in_set_conv_decomp)
  then have "oid \<notin> nid s ` set as" "oid \<notin> nid s ` set bs"
    using assms by (auto simp: sorted_wrt_append)
  moreover have "find_id s oid (cs @ ds) = (if oid \<in> nid s ` set cs then find_id s oid cs else find_id s oid ds)" for cs ds
    by (induction cs) auto
  ultimately show ?thesis using xs x by auto
qed (simp add: find_id_absent)

lemma find_id_eq_NULL:
  assumes "is_list s l xs"
  shows "find_id s oid xs = NULL \<longleftrightarrow> oid \<notin> nid s ` set xs"
  using is_list_nodes [OF assms] by (induction xs rule: list.induct) (auto simp: find_id_def split: option.splits)

lemma nid_lists [simp]: "nid (s\<lparr>lists := f\<rparr>) = nid s"
  by (simp add: nid_def fun_eq_iff)

lemma find_id_lists [simp]: "find_id (s\<lparr>lists := f\<rparr>) oid xs = find_id s oid xs"
  by (simp add: find_id_def)

lemma ListSearch_ok:
  assumes crit: "crit_ok s" and xs: "searchable s l xs" "list_unlocked s l"
  shows "ListSearch l oid s = Some (find_id s oid xs, s)"
proof -
  obtain ll where ll: "ll_at l s = Some ll" "ll_head ll = first_or xs NULL" "ll_tail ll = last_or NULL xs"
    "ll_lock ll = 0" and d: "dseg (nodes s) NULL xs NULL"
    and so: "ll_sorted ll \<and> ll_middle ll \<noteq> NULL \<Longrightarrow> (\<exists>m. node_at (ll_middle ll) s = Some m) \<and> sorted_wrt (<) (map (nid s) xs)"
    using xs by (auto simp: searchable_def is_list_def list_unlocked_def)
  note L = ll_at_SomeD [OF ll(1)]
  let ?ll = "ll\<lparr>ll_lock := 1\<rparr>"
  let ?t = "s\<lparr>lists := (lists s)(l \<mapsto> ?ll)\<rparr>"
  have lock: "ListLock l LIST_LOCK_MODE_READ s = Some (OS_RES_OK, ?t)"
    using ll crit by (simp add: ListLock_eq)
  have at: "ll_at l ?t = Some ?ll" using L by simp
  have unlock: "ListUnlock l ?t = Some (OS_RES_OK, s)"
    using ll crit L by (auto simp: ListUnlock_eq lists_triv)
  have crit': "crit_ok ?t" using crit by simp
  have search: "(do { ((r, it), s) \<leftarrow> ListIteratorInit iterator_uninit l dir ?t;
       p \<leftarrow> (if r = OS_RES_OK then ListSearch_loop l oid dir it s else Some NULL);
       (r, s) \<leftarrow> ListUnlock l s;
       Some (p, s) }) = Some (find_id s oid xs, s)"
    if dir: "dir = LIST_ITERATOR_DIRECTION_FORWARD \<or>
         dir = LIST_ITERATOR_DIRECTION_REVERSE \<and> ll_sorted ll \<and> ll_middle ll \<noteq> NULL" for dir
  proof -
    let ?ys = "if dir = LIST_ITERATOR_DIRECTION_FORWARD then xs else rev xs"
    have v: "valid_dir dir" using dir by auto
    have c: "chain dir (nodes ?t) ?ys"
      using dir chain_forward [OF d] chain_reverse [OF d] by auto
    have "last_or NULL xs = first_or (rev xs) NULL" by (simp add: first_or_def last_or_def hd_rev)
    then have h: "(if dir = LIST_ITERATOR_DIRECTION_FORWARD then ll_head ?ll else ll_tail ?ll) = first_or ?ys NULL"
      using ll by simp
    obtain it where it: "ListIteratorInit iterator_uninit l dir ?t = Some ((OS_RES_OK, it), ?t)" "it_at it dir ?ys"
      using ListIteratorInit_ok [OF crit' at _ v c h] by auto
    have s': "sorted_wrt (dir_order dir) (map (nid s) ?ys)" if "ll_sorted ll \<and> ll_middle ll \<noteq> NULL"
      using so [OF that] dir by (auto simp: dir_order_def [abs_def] rev_map [symmetric] sorted_wrt_rev)
    have "find_id s oid ?ys = find_id s oid xs"
      using dir so find_id_rev [of s xs oid] by auto
    then have "ListSearch_loop l oid dir it ?t = Some (find_id s oid xs)"
      using ListSearch_loop_find [OF v at it(2) c] s' by simp
    then show ?thesis by (simp add: it unlock)
  qed
  show ?thesis
  proof (cases "ll_sorted ll \<and> ll_middle ll \<noteq> NULL")
    case True
    then obtain m where "node_at (ll_middle ll) s = Some m" using so by auto
    then show ?thesis
      using True search [of LIST_ITERATOR_DIRECTION_FORWARD] search [of LIST_ITERATOR_DIRECTION_REVERSE] L
      by (simp add: ListSearch_def lock)
  next
    case False
    then show ?thesis
      using search [of LIST_ITERATOR_DIRECTION_FORWARD] L by (simp add: ListSearch_def lock)
  qed
qed

lemma ListNodeChildFromId_ok:
  assumes "crit_ok s" and "searchable s l xs" and "list_unlocked s l"
  shows "ListNodeChildFromId l oid s =
    Some (if find_id s oid xs = NULL then NULL else child (the (nodes s (find_id s oid xs))), s)"
proof (cases "find_id s oid xs = NULL")
  case False
  then have "find_id s oid xs \<in> set xs" by (induction xs) (auto split: if_splits)
  then obtain n where "node_at (find_id s oid xs) s = Some n"
    using assms(2) is_list_nodes by (force simp: searchable_def)
  then show ?thesis using False node_at_SomeD by (fastforce simp: ListNodeChildFromId_def ListSearch_ok [OF assms])
qed (simp add: ListNodeChildFromId_def ListSearch_ok [OF assms])

subsection \<open>Printing\<close>

lemma PrintToBuffer_loop_ids:
  assumes "it_at it LIST_ITERATOR_DIRECTION_FORWARD ys" and "chain LIST_ITERATOR_DIRECTION_FORWARD (nodes s) ys"
  shows "PrintToBuffer_loop it out s = Some (out @ map (nid s) ys)"
  using assms
proof (induction ys arbitrary: it out)
  case (Cons y ys)
  obtain nd where nd: "node_at y s = Some nd" "y \<noteq> NULL" using Cons.prems(2) by (auto simp: node_at_def)
  obtain it' where e: "LIST_ITERATOR_END it s = Some (ys \<noteq> [], it')" "it_at it' LIST_ITERATOR_DIRECTION_FORWARD ys"
    using LIST_ITERATOR_END_step [OF _ Cons.prems(1,2)] by blast
  have cur: "it_current_node it = y" using Cons.prems(1) by (simp add: it_at_def)
  have i: "nid s y = node_id nd" using node_at_SomeD [OF nd(1)] by (simp add: nid_def)
  show ?case
    using Cons.IH [OF e(2)] Cons.prems(2) nd(2)
    by (cases "ys = []"; subst PrintToBuffer_loop.simps) (simp_all add: cur nd(1) i e(1))
next
  case Nil
  then have "it_current_node it = NULL" by (simp add: it_at_def)
  then show ?case by (subst PrintToBuffer_loop.simps) (simp add: LIST_ITERATOR_END_def ListIteratorNext_def)
qed

text \<open>All IDs are written in order; the list stays read-locked, and the next request to write it is refused.\<close>

lemma ListPrintToBuffer_locks:
  assumes "crit_ok s" and "is_list s l xs" and "list_unlocked s l"
  shows "\<exists>ll t. ListPrintToBuffer True l s = Some ((Some (ll_size ll, 1, map (nid s) xs), Some (PrintToBuffer_size (ll_size ll))), t) \<and>
    ll_at l s = Some ll \<and> ll_at l t = Some (ll\<lparr>ll_lock := 1\<rparr>) \<and> ListLock l LIST_LOCK_MODE_WRITE t = Some (OS_RES_LOCKED, t)"
proof -
  obtain ll where ll: "ll_at l s = Some ll" "ll_head ll = first_or xs NULL" "ll_lock ll = 0" and d: "dseg (nodes s) NULL xs NULL"
    using assms(2,3) by (auto simp: is_list_def list_unlocked_def)
  note L = ll_at_SomeD [OF ll(1)]
  let ?ll = "ll\<lparr>ll_lock := 1\<rparr>"
  let ?t = "s\<lparr>lists := (lists s)(l \<mapsto> ?ll)\<rparr>"
  have lock: "ListLock l LIST_LOCK_MODE_READ s = Some (OS_RES_OK, ?t)" using ll assms(1) by (simp add: ListLock_eq)
  have at: "ll_at l ?t = Some ?ll" "crit_ok ?t" using L assms(1) by simp_all
  have c: "chain LIST_ITERATOR_DIRECTION_FORWARD (nodes ?t) xs" using chain_forward [OF d] by simp
  obtain it where it: "ListIteratorInit iterator_uninit l LIST_ITERATOR_DIRECTION_FORWARD ?t = Some ((OS_RES_OK, it), ?t)"
    "it_at it LIST_ITERATOR_DIRECTION_FORWARD xs"
    using ListIteratorInit_ok [OF at(2,1) _ _ c, of iterator_uninit] ll(2) by auto
  have "ListPrintToBuffer True l s = Some ((Some (ll_size ll, 1, map (nid s) xs), Some (PrintToBuffer_size (ll_size ll))), ?t)"
    using PrintToBuffer_loop_ids [OF it(2) c] L by (simp add: ListPrintToBuffer_def lock it(1))
  moreover have "ListLock l LIST_LOCK_MODE_WRITE ?t = Some (OS_RES_LOCKED, ?t)" using at by (simp add: ListLock_eq)
  ultimately show ?thesis using ll(1) at(1) by blast
qed

end
