(* ===== verification/ListSorted.thy ===== *)
theory ListSorted
  imports ListSearch
begin

text \<open>
  Sorted lists: insertion in ID order, and what removal and moving keep of the order.
\<close>

subsection \<open>Identifiers under list operations\<close>

lemma nid_frame: "list_frame s t l N \<Longrightarrow> nid t p = nid s p"
proof -
  assume "list_frame s t l N"
  then have "same_payload (nodes s) (nodes t)" by (simp add: list_frame_def)
  then have e: "map_option (\<lambda>n. n\<lparr>next_node := NULL, prev_node := NULL\<rparr>) (nodes s p) =
      map_option (\<lambda>n. n\<lparr>next_node := NULL, prev_node := NULL\<rparr>) (nodes t p)"
    by (simp add: same_payload_def)
  show "nid t p = nid s p"
  proof (cases "nodes s p")
    case None
    then show ?thesis using e by (simp add: nid_def)
  next
    case (Some n)
    then show ?thesis
      using \<open>same_payload (nodes s) (nodes t)\<close> by (auto elim!: same_payload_fields simp: nid_def)
  qed
qed

lemma nid_node_at: "node_at p s = Some n \<Longrightarrow> nid s p = node_id n"
  using node_at_SomeD by (fastforce simp: nid_def)

lemma list_frame_header:
  assumes "list_frame s t l N" and "ll_at l t = Some a" and "ll_lock b = ll_lock a" and "ll_id_group b = ll_id_group a"
  shows "list_frame s (t\<lparr>lists := (lists t)(l \<mapsto> b)\<rparr>) l N"
proof -
  have "t = s\<lparr>nodes := nodes t, lists := lists t\<rparr>" using assms(1) by (simp add: list_frame_def)
  then have "t\<lparr>lists := f\<rparr> = s\<lparr>nodes := nodes t, lists := lists t\<rparr>\<lparr>lists := f\<rparr>" for f by (rule arg_cong)
  then show ?thesis using assms ll_at_SomeD [OF assms(2)] by (auto simp: list_frame_def ll_at_def)
qed

lemma is_list_header:
  assumes "is_list t l xs" and "ll_at l t = Some a"
    and "ll_head b = ll_head a" "ll_tail b = ll_tail a" "ll_size b = ll_size a"
  shows "is_list (t\<lparr>lists := (lists t)(l \<mapsto> b)\<rparr>) l xs"
  using assms ll_at_SomeD [OF assms(2)] by (auto simp: is_list_def)

subsection \<open>The loop of the sorted insertion\<close>

lemma strict_sorted_insort:
  assumes "sorted_wrt (<) (map f xs)" and "f x \<notin> f ` set xs"
  shows "sorted_wrt (<) (map f (insort_key f x xs))"
  using assms by (simp add: strict_sorted_iff sorted_insort_key distinct_insort_key)

lemma AddSorted_body_ok:
  assumes crit: "crit_ok s" and xs: "is_list s l (bs @ c # cs)" "list_unlocked s l" "length (bs @ c # cs) < 255"
    and n: "node_at node s = Some n" "node_id n \<noteq> ID_INVALID" "node \<notin> set (bs @ c # cs)"
    and so: "sorted_wrt (<) (map (nid s) (c # cs))"
    and it: "it_at it LIST_ITERATOR_DIRECTION_FORWARD (c # cs)"
  shows "if nid s node = nid s c then ListNodeAddSorted_body l node r it s = Some ((OS_RES_ERROR, True), s)
    else if nid s node > nid s c \<and> cs \<noteq> [] \<and> nid s node \<ge> nid s (hd cs)
    then ListNodeAddSorted_body l node r it s = Some ((r, False), s)
    else \<exists>t. ListNodeAddSorted_body l node r it s = Some ((OS_RES_OK, True), t)
      \<and> is_list t l (bs @ insort_key (nid s) node (c # cs)) \<and> list_frame s t l (insert node (set (bs @ c # cs)))
      \<and> middle_kept s t l (\<lambda>_. False)"
proof -
  obtain nc where nc: "node_at c s = Some nc" using is_list_nodes [OF xs(1), of c] by auto
  have cur: "it_current_node it = c" "it_next_node it = first_or cs NULL" "c \<noteq> NULL"
    using it node_at_SomeD [OF nc] by (simp_all add: it_at_def)
  note ids = nid_node_at [OF nc] nid_node_at [OF n(1)]
  obtain ta where ta: "ListNodeAddAtNode l node c LIST_ADD_AFTER s = Some (OS_RES_OK, ta)"
     "is_list ta l (bs @ c # node # cs)" "list_frame s ta l (insert node (set (bs @ c # cs)))" "middle_kept s ta l (\<lambda>_. False)"
    using AddAtNode_after [OF crit xs n] by auto
  obtain tb where tb: "ListNodeAddAtNode l node c LIST_ADD_BEFORE s = Some (OS_RES_OK, tb)"
     "is_list tb l (bs @ node # c # cs)" "list_frame s tb l (insert node (set (bs @ c # cs)))" "middle_kept s tb l (\<lambda>_. False)"
    using AddAtNode_before [OF crit xs n] by auto
  show ?thesis
  proof (cases cs)
    case Nil
    then show ?thesis using ta tb cur nc n(1) ids by (auto simp: ListNodeAddSorted_body_def)
  next
    case (Cons d ds)
    obtain nd where nd: "node_at d s = Some nd" using is_list_nodes [OF xs(1), of d] Cons by auto
    then show ?thesis
      using Cons ta tb cur nc n(1) ids nid_node_at [OF nd] node_at_SomeD [OF nd] so
      by (auto simp: ListNodeAddSorted_body_def)
  qed
qed

lemma AddSorted_loop_ok:
  assumes "crit_ok s" and "is_list s l (bs @ c # cs)" "list_unlocked s l" "length (bs @ c # cs) < 255"
    and n: "node_at node s = Some n" "node_id n \<noteq> ID_INVALID" "node \<notin> set (bs @ c # cs)"
    and "sorted_wrt (<) (map (nid s) (c # cs))"
    and "it_at it LIST_ITERATOR_DIRECTION_FORWARD (c # cs)"
  shows "if nid s node \<in> nid s ` set (c # cs) then ListNodeAddSorted_loop l node r it s = Some (OS_RES_ERROR, s)
    else \<exists>t. ListNodeAddSorted_loop l node r it s = Some (OS_RES_OK, t)
      \<and> is_list t l (bs @ insort_key (nid s) node (c # cs)) \<and> list_frame s t l (insert node (set (bs @ c # cs)))
      \<and> middle_kept s t l (\<lambda>_. False)"
  using assms
proof (induction cs arbitrary: bs c it r)
  case Nil
  note body = AddSorted_body_ok [OF Nil, of r]
  show ?case using body by (subst (1 2) ListNodeAddSorted_loop.simps) (auto split: if_splits)
next
  case (Cons d ds)
  note body = AddSorted_body_ok [OF Cons.prems, of r]
  have ch: "chain LIST_ITERATOR_DIRECTION_FORWARD (nodes s) (c # d # ds)"
    using Cons.prems(2) by (intro chain_forward [of _ "last_or NULL bs"]) (simp add: is_list_def)
  obtain it' where it': "LIST_ITERATOR_END it s = Some (True, it')" "it_at it' LIST_ITERATOR_DIRECTION_FORWARD (d # ds)"
    using LIST_ITERATOR_END_step [OF _ Cons.prems(9) ch] by auto
  have lt: "nid s c < nid s d" "\<forall>e\<in>set ds. nid s d < nid s e" using Cons.prems(8) by auto
  show ?case
  proof (cases "nid s node > nid s c \<and> nid s node \<ge> nid s d")
    case True
    have IH: "if nid s node \<in> nid s ` set (d # ds) then ListNodeAddSorted_loop l node r it' s = Some (OS_RES_ERROR, s)
      else \<exists>t. ListNodeAddSorted_loop l node r it' s = Some (OS_RES_OK, t)
        \<and> is_list t l ((bs @ [c]) @ insort_key (nid s) node (d # ds)) \<and> list_frame s t l (insert node (set ((bs @ [c]) @ d # ds)))
        \<and> middle_kept s t l (\<lambda>_. False)"
      by (rule Cons.IH) (use Cons.prems it' in auto)
    have e: "ListNodeAddSorted_loop l node r it s = ListNodeAddSorted_loop l node r it' s"
      using body True it'(1) by (subst ListNodeAddSorted_loop.simps) auto
    show ?thesis using IH True unfolding e by (auto simp: insert_commute split: if_splits)
  next
    case False
    have b: "if nid s node = nid s c then ListNodeAddSorted_body l node r it s = Some ((OS_RES_ERROR, True), s)
      else \<exists>t. ListNodeAddSorted_body l node r it s = Some ((OS_RES_OK, True), t)
      \<and> is_list t l (bs @ insort_key (nid s) node (c # d # ds)) \<and> list_frame s t l (insert node (set (bs @ c # d # ds)))
      \<and> middle_kept s t l (\<lambda>_. False)"
      using body False by auto
    show ?thesis
    proof (cases "nid s node = nid s c")
      case True
      then show ?thesis using b by (subst ListNodeAddSorted_loop.simps) auto
    next
      case ne: False
      then have "nid s node \<notin> nid s ` set (c # d # ds)" using False lt by fastforce
      then show ?thesis using b ne by (subst (2) ListNodeAddSorted_loop.simps) auto
    qed
  qed
qed


subsection \<open>The middle pointer\<close>

text \<open>The middle pointer is null or points into the list, and stays so after an insertion.\<close>

definition middle_in :: "'a list_state_scheme \<Rightarrow> lptr \<Rightarrow> ptr set \<Rightarrow> bool" where
  "middle_in s l N \<longleftrightarrow> (\<exists>ll. ll_at l s = Some ll \<and> (ll_middle ll = NULL \<or> ll_middle ll \<in> N))"

lemma is_list_neighbours:
  assumes "is_list s l xs" and "x \<in> set xs"
  obtains n where "node_at x s = Some n" "next_node n = NULL \<or> next_node n \<in> set xs" "prev_node n = NULL \<or> prev_node n \<in> set xs"
proof -
  obtain k where k: "k < length xs" "xs ! k = x" using assms(2) by (auto simp: in_set_conv_nth)
  have "dseg (nodes s) NULL xs NULL" using assms(1) by (simp add: is_list_def)
  from dseg_nth [OF this k(1)] show thesis
    using k that by (auto simp: node_at_def split: if_splits)
qed

lemma ll_middle_triv: "ll_middle ll = m \<Longrightarrow> ll\<lparr>ll_middle := m, ll_sorted := b\<rparr> = ll\<lparr>ll_sorted := b\<rparr>"
  by (cases ll) simp

lemma AddSorted_middle_ok:
  assumes crit: "crit_ok s" and xs: "is_list s l xs" "list_unlocked s l" and node: "node \<in> set xs"
    and mid: "middle_in s l (set xs)"
  shows "\<exists>t. ListNodeAddSorted_middle l node s = Some t \<and> is_list t l xs \<and> middle_in t l (set xs)
    \<and> (\<exists>ll. ll_at l t = Some ll \<and> ll_sorted ll) \<and> (\<forall>s0 N. list_frame s0 s l N \<longrightarrow> list_frame s0 t l N)"
proof -
  obtain ll where ll: "ll_at l s = Some ll" "ll_lock ll = 0" "ll_middle ll = NULL \<or> ll_middle ll \<in> set xs"
    using xs(2) mid by (auto simp: list_unlocked_def middle_in_def)
  note L = ll_at_SomeD [OF ll(1)]
  obtain n where n: "node_at node s = Some n" using is_list_neighbours [OF xs(1) node] by blast
  have "\<exists>m. ListNodeAddSorted_middle l node s = Some (s\<lparr>lists := (lists s)(l \<mapsto> ll\<lparr>ll_middle := m, ll_sorted := True\<rparr>)\<rparr>)
     \<and> (m = NULL \<or> m \<in> set xs)"
  proof (cases "ll_middle ll = NULL")
    case True
    then show ?thesis
      using ll L by (intro exI [of _ NULL]) (simp add: ListNodeAddSorted_middle_def ll_update_eq ll_middle_triv)
  next
    case False
    then have "ll_middle ll \<in> set xs" using ll(3) by simp
    then obtain m where m: "node_at (ll_middle ll) s = Some m"
        "next_node m = NULL \<or> next_node m \<in> set xs" "prev_node m = NULL \<or> prev_node m \<in> set xs"
      using is_list_neighbours [OF xs(1)] by blast
    show ?thesis
      using ll L False m n crit
      by (intro exI [of _ "if ll_size ll mod 2 = 0 then ll_middle ll else if node_id n > node_id m then next_node m
             else if node_id n < node_id m then prev_node m else ll_middle ll"])
        (simp add: ListNodeAddSorted_middle_def ll_update_eq ListSizeGet_eq ll_middle_triv)
  qed
  then obtain m where m: "ListNodeAddSorted_middle l node s = Some (s\<lparr>lists := (lists s)(l \<mapsto> ll\<lparr>ll_middle := m, ll_sorted := True\<rparr>)\<rparr>)"
    "m = NULL \<or> m \<in> set xs" by blast
  then show ?thesis
    using L is_list_header [OF xs(1) ll(1)] list_frame_header [OF _ ll(1)] by (auto simp: middle_in_def)
qed

subsection \<open>Sorted insertion\<close>

lemma sorted_listD:
  assumes "sorted_list s l xs"
  shows "is_list s l xs" "sorted_wrt (<) (map (nid s) xs)"
    "xs \<noteq> [] \<Longrightarrow> middle_in s l (set xs)" "xs \<noteq> [] \<Longrightarrow> \<exists>ll. ll_at l s = Some ll \<and> ll_sorted ll"
  using assms by (auto simp: sorted_list_def middle_in_def)

lemma middle_kept_in: "middle_kept s t l f \<Longrightarrow> middle_in s l N \<Longrightarrow> N \<subseteq> M \<Longrightarrow> middle_in t l M"
  by (auto simp: middle_kept_def middle_in_def)

lemma AddSorted_enter:
  assumes crit: "crit_ok s" and xs: "sorted_list s l xs" "list_unlocked s l" "length xs < 255"
    and n: "node_at node s = Some n" "node_id n \<noteq> ID_INVALID"
  obtains it where "it_at it LIST_ITERATOR_DIRECTION_FORWARD xs" "it_list it = l"
    "ListNodeAddSorted l node s = do {
       (result, s) \<leftarrow> ListNodeAddSorted_loop l node OS_RES_LOCKED it s;
       s \<leftarrow> (if result = OS_RES_OK then ListNodeAddSorted_middle l node s else Some s);
       Some (result, s) }"
proof -
  obtain ll where ll: "ll_at l s = Some ll" "ll_head ll = first_or xs NULL" "ll_lock ll = 0" "unat (ll_size ll) = length xs"
    and d: "dseg (nodes s) NULL xs NULL" and so: "xs \<noteq> [] \<longrightarrow> ll_sorted ll"
    using xs by (auto simp: sorted_list_def is_list_def list_unlocked_def)
  note L = ll_at_SomeD [OF ll(1)] and N = node_at_SomeD [OF n(1)]
  have sz: "ll_size ll \<noteq> LIST_SIZE_MAX" "xs = [] \<longleftrightarrow> ll_size ll = 0"
    using small_size [OF ll(4) xs(3)] by auto
  obtain it where it: "ListIteratorInit iterator_uninit l LIST_ITERATOR_DIRECTION_FORWARD s = Some ((OS_RES_OK, it), s)"
     "it_at it LIST_ITERATOR_DIRECTION_FORWARD xs" "it_list it = l"
    using ListIteratorInit_ok [OF crit ll(1) _ _ chain_forward [OF d]] ll by auto
  have triv: "s\<lparr>nodes := (nodes s)(node \<mapsto> n)\<rparr> = s" using N by (intro nodes_triv) simp
  have size: "ListSizeGet l s = Some (ll_size ll, s)" using crit ll by (simp add: ListSizeGet_eq)
  show thesis
    by (rule that [OF it(2,3)])
      (use so sz n ll triv in \<open>auto simp: ListNodeAddSorted_def size node_update_eq it\<close>)
qed

lemma ListNodeAddSorted_ok:
  assumes crit: "crit_ok s" and xs: "sorted_list s l xs" "list_unlocked s l" "length xs < 255"
    and n: "node_at node s = Some n" "node_id n \<noteq> ID_INVALID" "node \<notin> set xs"
  shows "if nid s node \<in> nid s ` set xs then ListNodeAddSorted l node s = Some (OS_RES_ERROR, s)
    else \<exists>t. ListNodeAddSorted l node s = Some (OS_RES_OK, t) \<and> sorted_list t l (insort_key (nid s) node xs)
      \<and> list_frame s t l (insert node (set xs))"
proof -
  obtain it where it: "it_at it LIST_ITERATOR_DIRECTION_FORWARD xs" "it_list it = l"
    "ListNodeAddSorted l node s = do {
       (result, s) \<leftarrow> ListNodeAddSorted_loop l node OS_RES_LOCKED it s;
       s \<leftarrow> (if result = OS_RES_OK then ListNodeAddSorted_middle l node s else Some s);
       Some (result, s) }"
    by (rule AddSorted_enter [OF crit xs n(1,2)])
  note il = sorted_listD [OF xs(1)]
  let ?xs = "insort_key (nid s) node xs"
  have conclude: ?thesis
    if t: "ListNodeAddSorted_loop l node OS_RES_LOCKED it s = Some (OS_RES_OK, t)" "is_list t l ?xs"
       "list_frame s t l (insert node (set xs))" "middle_in t l (set ?xs)" and fresh: "nid s node \<notin> nid s ` set xs" for t
  proof -
    have u: "crit_ok t" "list_unlocked t l" using crit xs(2) t(3) list_frame_crit list_frame_unlocked by blast+
    have "node \<in> set ?xs" by (simp add: set_insort_key)
    from AddSorted_middle_ok [OF u(1) t(2) u(2) this t(4)] obtain t' where t':
      "ListNodeAddSorted_middle l node t = Some t'" "is_list t' l ?xs" "middle_in t' l (set ?xs)"
      "\<exists>ll. ll_at l t' = Some ll \<and> ll_sorted ll" "list_frame s t' l (insert node (set xs))"
      using t(3) by blast
    have "nid t' = nid s" using nid_frame [OF t'(5)] by auto
    then have "sorted_list t' l ?xs"
      using t'(2-4) strict_sorted_insort [OF il(2) fresh] by (auto simp: sorted_list_def middle_in_def)
    then show ?thesis using fresh t' it(3) t(1) by simp
  qed
  show ?thesis
  proof (cases xs)
    case Nil
    obtain t where t: "ListNodeAddAtPosition l node LIST_POSITION_HEAD s = Some (OS_RES_OK, t)"
      "is_list t l [node]" "list_frame s t l {node}"
      using AddAtPosition_head [OF crit il(1) xs(2,3) n] Nil by auto
    obtain a ll where a: "ll_at l t = Some a" and ll: "ll_at l s = Some ll" "ll_size ll = 0"
      using t(3) il(1) Nil by (auto simp: list_frame_def is_list_def unat_eq_zero)
    let ?t = "t\<lparr>lists := (lists t)(l \<mapsto> a\<lparr>ll_middle := node\<rparr>)\<rparr>"
    have "is_list ?t l [node]" "list_frame s ?t l {node}" "middle_in ?t l {node}"
      using is_list_header [OF t(2) a] list_frame_header [OF t(3) a] ll_at_SomeD [OF a] by (auto simp: middle_in_def)
    moreover have "ListNodeAddSorted_loop l node OS_RES_LOCKED it s = Some (OS_RES_OK, ?t)"
      using it(1,2) Nil ll t(1) a
      by (subst ListNodeAddSorted_loop.simps) (simp add: ListNodeAddSorted_body_def it_at_def ll_update_eq)
    ultimately show ?thesis using conclude Nil by simp
  next
    case (Cons c cs)
    have mid: "middle_in s l (set xs)" using il(3) Cons by simp
    have loop: "if nid s node \<in> nid s ` set xs then ListNodeAddSorted_loop l node OS_RES_LOCKED it s = Some (OS_RES_ERROR, s)
      else \<exists>t. ListNodeAddSorted_loop l node OS_RES_LOCKED it s = Some (OS_RES_OK, t)
        \<and> is_list t l ?xs \<and> list_frame s t l (insert node (set xs)) \<and> middle_kept s t l (\<lambda>_. False)"
      by (rule AddSorted_loop_ok [where s = s and l = l and bs = "[]" and c = c and cs = cs and node = node, unfolded append_Nil, folded Cons])
        (use crit il(1,2) xs(2,3) n it(1) in auto)
    show ?thesis
    proof (cases "nid s node \<in> nid s ` set xs")
      case True
      then show ?thesis using loop it(3) by simp
    next
      case False
      then obtain t where t: "ListNodeAddSorted_loop l node OS_RES_LOCKED it s = Some (OS_RES_OK, t)"
        "is_list t l ?xs" "list_frame s t l (insert node (set xs))" "middle_kept s t l (\<lambda>_. False)"
        using loop by auto
      have "middle_in t l (set ?xs)" by (rule middle_kept_in [OF t(4) mid]) (auto simp: set_insort_key)
      then show ?thesis using conclude t(1-3) False by blast
    qed
  qed
qed

text \<open>A node without an ID gets the next one of the list's group first.\<close>

lemma AddSorted_fresh_id:
  assumes crit: "crit_ok s" and xs: "sorted_list s l xs" "list_unlocked s l" "length xs < 255"
    and n: "node_at node s = Some n" "node_id n = ID_INVALID"
    and g: "\<exists>ll. ll_at l s = Some ll \<and> ll_id_group ll = g" "KIdRequest g s = (oid, s\<lparr>IdPools := ps\<rparr>)" "oid \<noteq> ID_INVALID"
  shows "ListNodeAddSorted l node s =
     ListNodeAddSorted l node (s\<lparr>IdPools := ps, nodes := (nodes s)(node \<mapsto> n\<lparr>node_id := oid\<rparr>)\<rparr>)"
proof -
  obtain ll where ll: "ll_at l s = Some ll" "ll_lock ll = 0" "unat (ll_size ll) = length xs" "ll_id_group ll = g"
    and so: "xs \<noteq> [] \<longrightarrow> ll_sorted ll"
    using xs g(1) by (auto simp: sorted_list_def is_list_def list_unlocked_def)
  note L = ll_at_SomeD [OF ll(1)] and N = node_at_SomeD [OF n(1)]
  have sz: "ll_size ll \<noteq> LIST_SIZE_MAX" "xs = [] \<longleftrightarrow> ll_size ll = 0"
    using small_size [OF ll(3) xs(3)] by auto
  let ?t = "s\<lparr>IdPools := ps, nodes := (nodes s)(node \<mapsto> n\<lparr>node_id := oid\<rparr>)\<rparr>"
  have size: "ListSizeGet l s = Some (ll_size ll, s)" "ListSizeGet l ?t = Some (ll_size ll, ?t)"
    using crit ll L by (simp_all add: ListSizeGet_eq)
  have "node_at node ?t = Some (n\<lparr>node_id := oid\<rparr>)" "ll_at l ?t = Some ll" using N L ll by simp_all
  then show ?thesis
    using sz n ll g so N by (auto simp: ListNodeAddSorted_def size node_update_eq IListIdRequest_def)
qed

end
