(* ===== verification/Queue.thy ===== *)
theory Queue
  imports Prelude
begin

text \<open>
  The interface of a first-in first-out queue, as linked lists, message queues and the receive ring of a driver provide it:
  \<open>rep s q\<close> says that the state \<open>s\<close> holds the queue \<open>q\<close>, and \<open>fit q v\<close> that \<open>v\<close> can be put into \<open>q\<close>.
\<close>

datatype 'v qop = Enq 'v | Deq

text \<open>The abstract queue: the outputs of a sequence of operations and the final queue.\<close>

fun qrun :: "('v list \<Rightarrow> 'v \<Rightarrow> bool) \<Rightarrow> 'v qop list \<Rightarrow> 'v list \<Rightarrow> ('v list \<times> 'v list) option" where
  "qrun fit [] q = Some ([], q)"
| "qrun fit (Enq v # ops) q = (if fit q v then qrun fit ops (q @ [v]) else None)"
| "qrun fit (Deq # ops) [] = None"
| "qrun fit (Deq # ops) (v # q) = do { (out, q') \<leftarrow> qrun fit ops q; Some (v # out, q') }"

text \<open>The same sequence on a state, with the given operations.\<close>

fun srun :: "('v \<Rightarrow> 's \<Rightarrow> 's option) \<Rightarrow> ('s \<Rightarrow> ('v \<times> 's) option) \<Rightarrow> 'v qop list \<Rightarrow> 's \<Rightarrow> ('v list \<times> 's) option" where
  "srun enq deq [] s = Some ([], s)"
| "srun enq deq (Enq v # ops) s = do { s \<leftarrow> enq v s; srun enq deq ops s }"
| "srun enq deq (Deq # ops) s = do { (v, s) \<leftarrow> deq s; (out, s) \<leftarrow> srun enq deq ops s; Some (v # out, s) }"

text \<open>
  The interface of a queue whose operations use up a resource, such as room in a pool: \<open>rep n s q\<close> says that the state
  \<open>s\<close> holds the queue \<open>q\<close> and has the resource for \<open>n\<close> more operations.
\<close>

locale counted_queue =
  fixes enq :: "'v \<Rightarrow> 's \<Rightarrow> 's option" and deq :: "'s \<Rightarrow> ('v \<times> 's) option"
    and rep :: "nat \<Rightarrow> 's \<Rightarrow> 'v list \<Rightarrow> bool" and fit :: "'v list \<Rightarrow> 'v \<Rightarrow> bool"
  assumes enq_law: "rep (Suc n) s q \<Longrightarrow> fit q v \<Longrightarrow> \<exists>t. enq v s = Some t \<and> rep n t (q @ [v])"
    and deq_law: "rep (Suc n) s (v # q) \<Longrightarrow> \<exists>t. deq s = Some (v, t) \<and> rep n t q"
begin

lemma run_refines:
  assumes "rep (n + length ops) s q" and "qrun fit ops q = Some (out, q')"
  shows "\<exists>t. srun enq deq ops s = Some (out, t) \<and> rep n t q'"
  using assms
proof (induction ops arbitrary: s q out)
  case (Cons op ops)
  have s: "rep (Suc (n + length ops)) s q" using Cons.prems(1) by simp
  show ?case
  proof (cases op)
    case (Enq v)
    then obtain t where "enq v s = Some t" "rep (n + length ops) t (q @ [v])"
      using Cons.prems(2) enq_law [OF s] by (auto split: if_splits)
    then show ?thesis using Cons.IH Cons.prems(2) Enq by (auto split: if_splits)
  next
    case Deq
    then obtain v r out' where q: "q = v # r" "qrun fit ops r = Some (out', q')" "out = v # out'"
      using Cons.prems(2) by (cases q) (auto split: bind_splits)
    then obtain t where "deq s = Some (v, t)" "rep (n + length ops) t r" using deq_law s by blast
    moreover obtain u where "srun enq deq ops t = Some (out', u)" "rep n u q'"
      using Cons.IH [OF calculation(2) q(2)] by blast
    ultimately show ?thesis using q Deq by simp
  qed
qed simp

end

text \<open>The queue whose operations use up nothing.\<close>

locale fifo_queue =
  fixes enq :: "'v \<Rightarrow> 's \<Rightarrow> 's option" and deq :: "'s \<Rightarrow> ('v \<times> 's) option"
    and rep :: "'s \<Rightarrow> 'v list \<Rightarrow> bool" and fit :: "'v list \<Rightarrow> 'v \<Rightarrow> bool"
  assumes enq_law: "rep s q \<Longrightarrow> fit q v \<Longrightarrow> \<exists>t. enq v s = Some t \<and> rep t (q @ [v])"
    and deq_law: "rep s (v # q) \<Longrightarrow> \<exists>t. deq s = Some (v, t) \<and> rep t q"

sublocale fifo_queue \<subseteq> counted: counted_queue enq deq "\<lambda>_. rep" fit
  by unfold_locales (fact enq_law deq_law)+

context fifo_queue
begin

lemma run_refines:
  assumes "rep s q" and "qrun fit ops q = Some (out, q')"
  shows "\<exists>t. srun enq deq ops s = Some (out, t) \<and> rep t q'"
  using counted.run_refines [OF assms] .

end

text \<open>Everything that goes into the abstract queue comes out in the same order, or is still in it.\<close>

fun put :: "'v qop list \<Rightarrow> 'v list" where
  "put [] = []"
| "put (Enq v # ops) = v # put ops"
| "put (Deq # ops) = put ops"

lemma qrun_order: "qrun fit ops q = Some (out, q') \<Longrightarrow> out @ q' = q @ put ops"
  by (induction fit ops q arbitrary: out rule: qrun.induct) (auto split: if_splits bind_splits)

text \<open>
  The interface of a module whose calls return results and are described by a function on an abstract state: \<open>spec op a\<close> is the
  result and the new abstract state, or \<open>None\<close> for a call that the description leaves out. \<open>runs\<close> makes a sequence of calls.
\<close>

fun runs :: "('op \<Rightarrow> 's \<Rightarrow> ('res \<times> 's) option) \<Rightarrow> 'op list \<Rightarrow> 's \<Rightarrow> ('res list \<times> 's) option" where
  "runs call [] s = Some ([], s)"
| "runs call (op # ops) s = do { (r, s) \<leftarrow> call op s; (rs, s) \<leftarrow> runs call ops s; Some (r # rs, s) }"

locale refined_calls =
  fixes call :: "'op \<Rightarrow> 's \<Rightarrow> ('res \<times> 's) option" and spec :: "'op \<Rightarrow> 'a \<Rightarrow> ('res \<times> 'a) option" and rep :: "'s \<Rightarrow> 'a \<Rightarrow> bool"
  assumes call_law: "rep s a \<Longrightarrow> spec op a = Some (r, b) \<Longrightarrow> \<exists>t. call op s = Some (r, t) \<and> rep t b"
begin

lemma runs_refine:
  assumes "rep s a" and "runs spec ops a = Some (rs, b)"
  shows "\<exists>t. runs call ops s = Some (rs, t) \<and> rep t b"
  using assms
proof (induction ops arbitrary: s a rs)
  case (Cons op ops)
  then obtain r c rs' where a: "spec op a = Some (r, c)" "runs spec ops c = Some (rs', b)" "rs = r # rs'"
    by (auto split: bind_splits)
  then obtain t where t: "call op s = Some (r, t)" "rep t c" using call_law [OF Cons.prems(1)] by blast
  then show ?case using Cons.IH [OF t(2) a(2)] a by auto
qed simp

end

end
