(* ===== verification/Allocator.thy ===== *)
theory Allocator
  imports Memory
begin

text \<open>
  The block structure of a pool and the correctness of allocation. A pool is a sequence of free blocks of
  16 bytes, all zero, and of allocations of \<open>k\<close> blocks whose first word is their size in bytes. Allocation
  is first fit over that sequence, freeing turns an allocation back into free blocks.
\<close>

subsection \<open>Words in the byte heap\<close>

lemma heap_get_put32: "heap_get32 (heap_put32 h i v) i = v"
  using join_bytes [of v] by (simp add: heap_get32_def heap_put32_def)

lemma heap_get32_cong:
  "(\<And>j. i \<le> j \<Longrightarrow> j < i + 4 \<Longrightarrow> h j = h' j) \<Longrightarrow> heap_get32 h i = heap_get32 h' i"
  by (simp add: heap_get32_def)

lemma heap_get32_zero: "(\<forall>j < 16. h (i + j) = 0) \<Longrightarrow> heap_get32 h i = 0"
proof -
  assume "\<forall>j < 16. h (i + j) = 0"
  then have a: "h (i + j) = 0" if "j < 16" for j using that by blast
  show ?thesis unfolding heap_get32_def using a [of 0] a [of 1] a [of 2] a [of 3] by simp
qed

lemma heap_put32_other: "j < i \<or> i + 4 \<le> j \<Longrightarrow> heap_put32 h i v j = h j"
  by (auto simp: heap_put32_def)

subsection \<open>Blocks of a pool\<close>

datatype seg = Free | Used nat

fun seg_len :: "seg \<Rightarrow> nat" where
  "seg_len Free = 16"
| "seg_len (Used k) = 16 * k"

definition segs_len :: "seg list \<Rightarrow> nat" where
  "segs_len xs = sum_list (map seg_len xs)"

lemma segs_len_simps [simp]:
  "segs_len [] = 0" "segs_len (x # xs) = seg_len x + segs_len xs"
  "segs_len (xs @ ys) = segs_len xs + segs_len ys" "segs_len (replicate n Free) = 16 * n"
  by (simp_all add: segs_len_def sum_list_replicate)

fun layout :: "(nat \<Rightarrow> U8_t) \<Rightarrow> nat \<Rightarrow> seg list \<Rightarrow> bool" where
  "layout h i [] \<longleftrightarrow> True"
| "layout h i (Free # xs) \<longleftrightarrow> (\<forall>j < 16. h (i + j) = 0) \<and> layout h (i + 16) xs"
| "layout h i (Used k # xs) \<longleftrightarrow>
     0 < k \<and> unat (heap_get32 h i) = 16 * k \<and> layout h (i + 16 * k) xs"

lemma layout_append: "layout h i (xs @ ys) \<longleftrightarrow> layout h i xs \<and> layout h (i + segs_len xs) ys"
proof (induction xs arbitrary: i)
  case (Cons x xs)
  then show ?case by (cases x) (auto simp: add.assoc)
qed simp

lemma layout_frees: "layout h i (replicate n Free) \<longleftrightarrow> (\<forall>j < 16 * n. h (i + j) = 0)"
proof (induction n arbitrary: i)
  case (Suc n)
  have "(\<forall>j < 16 + m. h (i + j) = 0) \<longleftrightarrow> (\<forall>j < 16. h (i + j) = 0) \<and> (\<forall>j < m. h (i + 16 + j) = 0)" for m
    by (auto simp: add.assoc) (metis add.commute le_add_diff_inverse less_diff_conv2 not_le add.assoc)
  with Suc show ?case by simp
qed simp

lemma layout_frame:
  assumes "layout h i xs" and "\<And>j. i \<le> j \<Longrightarrow> j < i + segs_len xs \<Longrightarrow> h' j = h j"
  shows "layout h' i xs"
  using assms
proof (induction xs arbitrary: i)
  case (Cons x xs)
  have "layout h' (i + seg_len x) xs"
    using Cons.prems by (intro Cons.IH) (cases x; auto)+
  moreover have "heap_get32 h' i = heap_get32 h i" if "x = Used k" "0 < k" for k
    using Cons.prems(2) that by (intro heap_get32_cong) auto
  ultimately show ?case using Cons.prems by (cases x) auto
qed simp

lemma layout_pos: "layout h i xs \<Longrightarrow> x \<in> set xs \<Longrightarrow> 16 \<le> seg_len x"
  by (induction h i xs rule: layout.induct) auto

lemma layout_unique:
  "layout h i xs \<Longrightarrow> layout h i ys \<Longrightarrow> segs_len xs = segs_len ys \<Longrightarrow> xs = ys"
proof (induction xs arbitrary: i ys)
  case Nil
  then show ?case using layout_pos [of h i ys] by (cases ys) fastforce+
next
  case (Cons x xs)
  from Cons.prems obtain y ys' where ys: "ys = y # ys'"
    by (cases ys) (cases x; auto)+
  have "x = y"
    using Cons.prems ys heap_get32_zero [of h i] by (cases x; cases y) auto
  with Cons ys show ?case by (cases x) auto
qed

subsection \<open>First fit\<close>

text \<open>
  The scan over the blocks: \<open>f\<close> consecutive free blocks have been seen from position \<open>i\<close> on.
\<close>

fun first_fit :: "nat \<Rightarrow> nat \<Rightarrow> nat \<Rightarrow> seg list \<Rightarrow> nat \<times> nat" where
  "first_fit n f i [] = (f, i)"
| "first_fit n f i (x # xs) =
     (if n \<le> f then (f, i)
      else case x of Free \<Rightarrow> first_fit n (f + 1) i xs
           | Used k \<Rightarrow> first_fit n 0 (i + 16 * f + 16 * k) xs)"

text \<open>A run of \<open>n\<close> free blocks after the segments \<open>as\<close>.\<close>

definition fits :: "nat \<Rightarrow> seg list \<Rightarrow> seg list \<Rightarrow> bool" where
  "fits n as xs \<longleftrightarrow> (\<exists>bs. xs = as @ replicate n Free @ bs)"

lemma fits_Used:
  assumes "f < n"
  shows "fits n as (replicate f Free @ Used k # xs) \<longleftrightarrow>
    (\<exists>as'. as = replicate f Free @ Used k # as' \<and> fits n as' xs)"
proof
  assume "fits n as (replicate f Free @ Used k # xs)"
  then obtain bs where e: "replicate f Free @ Used k # xs = as @ replicate n Free @ bs"
    by (auto simp: fits_def)
  have "f < length as"
  proof (rule ccontr)
    assume "\<not> f < length as"
    then have "f - length as < n" using assms by linarith
    with \<open>\<not> f < length as\<close> have "(as @ replicate n Free @ bs) ! f = Free"
      by (simp add: nth_append)
    moreover have "(replicate f Free @ Used k # xs) ! f = Used k" by (simp add: nth_append)
    ultimately show False using e by simp
  qed
  then have "take (Suc f) as = take (Suc f) (replicate f Free @ Used k # xs)"
    using e by simp
  also have "\<dots> = replicate f Free @ [Used k]" by simp
  finally have "as = (replicate f Free @ [Used k]) @ drop (Suc f) as"
    by (metis append_take_drop_id)
  then have "as = replicate f Free @ Used k # drop (Suc f) as" by simp
  with e show "\<exists>as'. as = replicate f Free @ Used k # as' \<and> fits n as' xs"
    by (metis fits_def append.assoc append_Cons same_append_eq list.inject)
qed (auto simp: fits_def)

lemma first_fit_correct:
  assumes "0 < n" and "f \<le> n"
  shows "(\<exists>as. first_fit n f i xs = (n, i + segs_len as) \<and> fits n as (replicate f Free @ xs)
            \<and> (\<forall>as'. fits n as' (replicate f Free @ xs) \<longrightarrow> length as \<le> length as'))
       \<or> (fst (first_fit n f i xs) < n \<and> (\<forall>as. \<not> fits n as (replicate f Free @ xs)))"
  using assms(2)
proof (induction xs arbitrary: f i)
  case Nil
  show ?case
  proof (cases "f = n")
    case True
    then have "fits n [] (replicate f Free)" by (simp add: fits_def)
    with True show ?thesis by (auto intro: exI [of _ "[]"])
  next
    case False
    have "\<not> fits n as (replicate f Free)" for as
    proof
      assume "fits n as (replicate f Free)"
      then have "length (replicate f Free) \<ge> n" unfolding fits_def by (metis length_append length_replicate le_add1 le_add2 order_trans)
      with Nil False show False by simp
    qed
    with Nil False show ?thesis by auto
  qed
next
  case (Cons x xs)
  show ?case
  proof (cases "f = n")
    case True
    then have "fits n [] (replicate f Free @ x # xs)" by (simp add: fits_def)
    with True show ?thesis by (auto intro: exI [of _ "[]"])
  next
    case False
    show ?thesis
    proof (cases x)
      case Free
      have r: "replicate f Free @ Free # xs = replicate (Suc f) Free @ xs"
        by (simp add: replicate_app_Cons_same)
      show ?thesis using Cons.IH [of "Suc f" i] Cons.prems False unfolding Free r by auto
    next
      case (Used k)
      have fu: "fits n as (replicate f Free @ x # xs) \<longleftrightarrow>
          (\<exists>as'. as = replicate f Free @ Used k # as' \<and> fits n as' xs)" for as
        using fits_Used [of f n] Cons.prems False Used by simp
      have ff: "first_fit n f i (x # xs) = first_fit n 0 (i + 16 * f + 16 * k) xs"
        using False Cons.prems Used by simp
      from Cons.IH [OF le0, of "i + 16 * f + 16 * k"] show ?thesis
      proof (elim disjE exE conjE, goal_cases)
        case (1 as)
        let ?as = "replicate f Free @ Used k # as"
        have "first_fit n f i (x # xs) = (n, i + segs_len ?as)" using ff 1 by simp
        moreover have "fits n ?as (replicate f Free @ x # xs)" using fu 1 by auto
        moreover have "length ?as \<le> length as'" if "fits n as' (replicate f Free @ x # xs)" for as'
          using that 1 by (auto simp: fu)
        ultimately show ?case by blast
      next
        case 2
        then show ?case using ff fu by auto
      qed
    qed
  qed
qed


lemma first_fit_bound: "fst (first_fit n f i xs) \<le> f + length xs"
proof (induction xs arbitrary: f i)
  case (Cons x xs)
  show ?case
    using Cons [of "f + 1" i] Cons [of 0 "i + 16 * f + seg_len x"] by (cases x) auto
qed simp

subsection \<open>The scan of \<open>MemAlloc\<close>\<close>

lemma unat_add_small:
  "unat (a :: U32_t) + unat b < 2 ^ 32 \<Longrightarrow> unat (a + b) = unat a + unat b"
  by (simp add: unat_word_ariths)

lemma MemAlloc_scan_first_fit:
  assumes "layout (OsHeap s) (unat index + 16 * f) xs"
    and "e = unat index + 16 * f + segs_len xs" and "unat pool_end + 1 = e"
    and "e \<le> unat (TotalHeapSize s)" and "unat (TotalHeapSize s) < 2 ^ 31"
    and "unat bf = f" and "unat off = 16 * f"
  shows "\<exists>bf' index'. MemAlloc_scan n pool_end bf index off s = Some (bf', index')
     \<and> (unat bf', unat index') = first_fit (unat n) f (unat index) xs"
  using assms
proof (induction xs arbitrary: f index bf off)
  case Nil
  have "\<not> index + off < pool_end"
    using Nil by (simp add: word_less_nat_alt unat_add_small)
  then show ?case using Nil by (subst MemAlloc_scan.simps) auto
next
  case (Cons x xs)
  have len: "16 \<le> seg_len x" using layout_pos Cons.prems(1) by simp
  have io: "unat (index + off) = unat index + 16 * f"
    using Cons.prems len by (simp add: unat_add_small)
  have c: "index + off < pool_end \<and> unat (index + off) + 4 \<le> unat (TotalHeapSize s)"
    using Cons.prems len by (simp add: word_less_nat_alt io)
  have n: "bf < n \<longleftrightarrow> f < unat n" using Cons.prems by (simp add: word_less_nat_alt)
  show ?case
  proof (cases "f < unat n")
    case False
    then show ?thesis using n Cons.prems by (subst MemAlloc_scan.simps) auto
  next
    case True
    let ?w = "heap_get32 (OsHeap s) (unat index + 16 * f)"
    have step: "MemAlloc_scan n pool_end bf index off s =
        (if ?w = 0 then MemAlloc_scan n pool_end (bf + 1) index (off + MEM_BLOCK_SIZE) s
         else MemAlloc_scan n pool_end 0 (index + (off + ?w)) 0 s)"
      using True n c by (subst MemAlloc_scan.simps) (simp add: Heap_read32_def io)
    show ?thesis
    proof (cases x)
      case Free
      have "unat (bf + 1) = f + 1" "unat (off + MEM_BLOCK_SIZE) = 16 * (f + 1)"
        using Cons.prems len by (simp_all add: unat_add_small MEM_BLOCK_SIZE_def)
      with Free Cons.prems step True heap_get32_zero [of "OsHeap s" "unat index + 16 * f"]
      show ?thesis using Cons.IH [of index "f + 1" "bf + 1" "off + MEM_BLOCK_SIZE"]
        by (simp add: algebra_simps)
    next
      case (Used k)
      have w: "unat ?w = 16 * k" "?w \<noteq> 0" using Used Cons.prems(1) by auto
      have ow: "unat (off + ?w) = 16 * f + 16 * k"
        using Cons.prems(2-) Used w by (simp add: unat_add_small)
      have "unat (index + (off + ?w)) = unat index + 16 * f + 16 * k"
        using Cons.prems(2-) Used ow by (subst unat_add_small) simp_all
      with Used Cons.prems step True w
      show ?thesis using Cons.IH [of "index + (off + ?w)" 0 0 0] by (simp add: algebra_simps)
    qed
  qed
qed


subsection \<open>Well-formed pools\<close>

definition free_blocks :: "seg list \<Rightarrow> nat" where
  "free_blocks xs = length (filter (\<lambda>x. x = Free) xs)"

lemma free_blocks_simps [simp]:
  "free_blocks [] = 0" "free_blocks (Free # xs) = Suc (free_blocks xs)"
  "free_blocks (Used k # xs) = free_blocks xs" "free_blocks (xs @ ys) = free_blocks xs + free_blocks ys"
  "free_blocks (replicate n Free) = n"
  by (simp_all add: free_blocks_def)

lemma free_blocks_len: "16 * free_blocks xs \<le> segs_len xs"
proof (induction xs)
  case (Cons x xs)
  then show ?case by (cases x) auto
qed simp

text \<open>The pool \<open>pid\<close> is in use, lies in the heap, consists of the blocks \<open>xs\<close> and counts its free bytes.\<close>

definition pool_ok :: "'a mem_state_scheme \<Rightarrow> Id_t \<Rightarrow> seg list \<Rightarrow> bool" where
  "pool_ok s pid xs \<longleftrightarrow>
     (let p = PoolTable s ! unat pid in
      unat pid < length (PoolTable s) \<and> pid < TotalHeapPools s \<and> pool_size p > 0 \<and>
      start_index p \<le> end_index p \<and> unat (end_index p) + 1 = unat (start_index p) + segs_len xs \<and>
      unat (end_index p) + 1 \<le> unat (TotalHeapSize s) \<and> unat (TotalHeapSize s) < 2 ^ 31 \<and>
      layout (OsHeap s) (unat (start_index p)) xs \<and>
      unat (mem_left p) = 16 * free_blocks xs \<and> HeapBase s > 0)"

abbreviation pool_start :: "'a mem_state_scheme \<Rightarrow> Id_t \<Rightarrow> nat" where
  "pool_start s pid \<equiv> unat (start_index (PoolTable s ! unat pid))"

definition mem_access :: "'a mem_state_scheme \<Rightarrow> Id_t \<Rightarrow> bool" where
  "mem_access s pid \<longleftrightarrow> pid = ObjectPoolId s \<longrightarrow> KCoreFlagGet CORE_FLAG_KERNEL_MODE s \<noteq> 0"

text \<open>Blocks an allocation of \<open>n\<close> bytes takes, with its size word.\<close>

definition blocks_for :: "nat \<Rightarrow> nat" where
  "blocks_for n = (n + 4 + 15) div 16"

lemma blocks_for_pos: "0 < blocks_for n" "n \<le> 16 * blocks_for n - 4" "16 * blocks_for n < n + 20"
  unfolding blocks_for_def by linarith+

lemma blocks_for_word:
  assumes "unat n < 2 ^ 31"
  shows "unat (MEM_BYTES_TO_BLOCKS (n + MEM_ALLOC_SIZE_SIZE_BYTES)) = blocks_for (unat n)"
proof -
  have n4: "unat (n + 4) = unat n + 4" using assms by (simp add: unat_add_small)
  have d: "unat ((n + 4) div 16) = (unat n + 4) div 16" by (simp add: unat_div n4)
  have "(n + 4) mod 16 = 0 \<longleftrightarrow> (unat n + 4) mod 16 = 0"
    by (simp add: word_unat_eq_iff unat_mod n4)
  moreover have "unat ((n + 4) div 16 + 1) = (unat n + 4) div 16 + 1"
    using assms d by (subst unat_add_small) auto
  moreover have "(19 + x) div 16 = (if (x + 4) mod 16 = 0 then (x + 4) div 16 else Suc ((x + 4) div 16))"
    for x :: nat
  proof -
    let ?q = "(x + 4) div 16" and ?r = "(x + 4) mod 16"
    have x: "x + 4 = 16 * ?q + ?r" by (rule mult_div_mod_eq [symmetric])
    then have "19 + x = (?r + 15) + ?q * 16" by linarith
    then have "(19 + x) div 16 = ((?r + 15) + ?q * 16) div 16" by (rule arg_cong)
    also have "\<dots> = ?q + (?r + 15) div 16" by (rule div_mult_self1) simp
    also have "(?r + 15) div 16 = (if ?r = 0 then 0 else 1)"
    proof -
      have "?r < 16" by simp
      then show ?thesis by (auto intro!: div_nat_eqI)
    qed
    finally show ?thesis by simp
  qed
  ultimately show ?thesis
    by (simp add: MEM_BYTES_TO_BLOCKS_def MEM_ALLOC_SIZE_SIZE_BYTES_def MEM_BLOCK_SIZE_def blocks_for_def d)
qed

text \<open>The state after \<open>n\<close> blocks at index \<open>i\<close> of the pool have been allocated, and after they are freed.\<close>

definition alloc_state :: "Id_t \<Rightarrow> nat \<Rightarrow> nat \<Rightarrow> 'a mem_state_scheme \<Rightarrow> 'a mem_state_scheme" where
  "alloc_state pid i n s =
     Pool_update pid (\<lambda>p. p\<lparr>mem_left := mem_left p - word_of_nat (16 * n), pmb_N := pmb_N p + 1\<rparr>)
       (s\<lparr>OsHeap := heap_put32 (OsHeap s) i (word_of_nat (16 * n))\<rparr>)"

definition free_state :: "Id_t \<Rightarrow> nat \<Rightarrow> nat \<Rightarrow> 'a mem_state_scheme \<Rightarrow> 'a mem_state_scheme" where
  "free_state pid i n s =
     Pool_update pid (\<lambda>p. p\<lparr>mem_left := mem_left p + word_of_nat (16 * n), pmb_N := pmb_N p - 1\<rparr>)
       (s\<lparr>OsHeap := heap_zero (OsHeap s) i (i + 16 * n)\<rparr>)"

lemma crit_enter_mem [simp]:
  "HeapBase (crit_enter s) = HeapBase s" "OsHeap (crit_enter s) = OsHeap s"
  "PoolTable (crit_enter s) = PoolTable s" "TotalHeapPools (crit_enter s) = TotalHeapPools s"
  "TotalHeapSize (crit_enter s) = TotalHeapSize s" "HeapIndexEnd (crit_enter s) = HeapIndexEnd s"
  "ObjectPoolId (crit_enter s) = ObjectPoolId s"
  by (simp_all add: crit_enter_def)

lemma crit_enter_mem_update [simp]:
  "(crit_enter s)\<lparr>OsHeap := h\<rparr> = crit_enter (s\<lparr>OsHeap := h\<rparr>)"
  "(crit_enter s)\<lparr>PoolTable := t\<rparr> = crit_enter (s\<lparr>PoolTable := t\<rparr>)"
  by (simp_all add: crit_enter_def)

lemma crit_ok_mem_update [simp]:
  "crit_ok (s\<lparr>OsHeap := h\<rparr>) = crit_ok s" "crit_ok (s\<lparr>PoolTable := t\<rparr>) = crit_ok s"
  by (simp_all add: crit_ok_def)

lemma Pool_update_crit_enter [simp]: "Pool_update pid f (crit_enter s) = crit_enter (Pool_update pid f s)"
  by (simp add: Pool_update_def)

lemma crit_ok_Pool_update [simp]: "crit_ok (Pool_update pid f s) = crit_ok s"
  by (simp add: Pool_update_def)

lemma pool_ok_crit_enter [simp]: "pool_ok (crit_enter s) pid xs = pool_ok s pid xs"
  by (simp add: pool_ok_def)

lemma crit_ok_alloc_state [simp]: "crit_ok (alloc_state pid i n s) = crit_ok s"
  "crit_ok (free_state pid i n s) = crit_ok s"
  by (simp_all add: alloc_state_def free_state_def)

subsection \<open>Correctness of \<open>MemAlloc\<close>\<close>

lemma MemAlloc_eq:
  assumes ok: "pool_ok s pid xs" and crit: "crit_ok s" and acc: "mem_access s pid" and n0: "nbytes \<noteq> 0"
  defines "n \<equiv> blocks_for (unat nbytes)"
  shows "(\<exists>as. fits n as xs \<and> (\<forall>as'. fits n as' xs \<longrightarrow> length as \<le> length as')
       \<and> MemAlloc pid nbytes s = Some (HeapBase s + (pool_start s pid + segs_len as + 4),
           alloc_state pid (pool_start s pid + segs_len as) n s))
     \<or> ((\<forall>as. \<not> fits n as xs) \<and> MemAlloc pid nbytes s = Some (NULL, s))"
proof (cases "mem_left (PoolTable s ! unat pid) < nbytes")
  case True
  have "\<not> fits n as xs" for as
  proof
    assume "fits n as xs"
    then have "n \<le> free_blocks xs" by (auto simp: fits_def)
    then have "unat nbytes \<le> unat (mem_left (PoolTable s ! unat pid))"
      using ok blocks_for_pos(2) [of "unat nbytes"] by (simp add: pool_ok_def Let_def n_def)
    with True show False by (simp add: word_less_nat_alt)
  qed
  moreover have "MemAlloc pid nbytes s = Some (NULL, s)"
    using ok True n0 by (auto simp: MemAlloc_def pool_ok_def Pool_at_def Let_def)
  ultimately show ?thesis by blast
next
  case False
  let ?p = "PoolTable s ! unat pid"
  have seg: "segs_len xs \<le> unat (TotalHeapSize s)" "unat (TotalHeapSize s) < 2 ^ 31"
    and start: "pool_start s pid + segs_len xs = unat (end_index ?p) + 1"
    using ok by (auto simp: pool_ok_def Let_def)
  have nb: "unat nbytes < 2 ^ 31"
    using False ok free_blocks_len [of xs] seg by (simp add: pool_ok_def Let_def word_less_nat_alt)
  let ?sb = "MEM_BYTES_TO_BLOCKS (nbytes + MEM_ALLOC_SIZE_SIZE_BYTES)"
  have sb: "unat ?sb = n" using blocks_for_word [OF nb] by (simp add: n_def)
  obtain bf idx where scan: "MemAlloc_scan ?sb (end_index ?p) 0 (start_index ?p) 0 (crit_enter s) = Some (bf, idx)"
    and ff: "(unat bf, unat idx) = first_fit n 0 (pool_start s pid) xs"
    using MemAlloc_scan_first_fit [of "crit_enter s" "start_index ?p" 0 xs "unat (end_index ?p) + 1" "end_index ?p" 0 0 ?sb]
      ok by (auto simp: pool_ok_def Let_def sb)
  have enough: "bf \<ge> ?sb \<longleftrightarrow> n \<le> unat bf" by (simp add: word_le_nat_alt sb)
  have size_w: "?sb * MEM_BLOCK_SIZE = word_of_nat (16 * n)"
    using sb by (metis MEM_BLOCK_SIZE_def mult.commute of_nat_mult of_nat_numeral of_nat_unat ucast_id)
  have notrestr: "\<not> (pid = ObjectPoolId s \<and> KCoreFlagGet CORE_FLAG_KERNEL_MODE s = 0)"
    using acc by (auto simp: mem_access_def)
  have unfold: "MemAlloc pid nbytes s = do {
       (addr, t) \<leftarrow> (if bf \<ge> ?sb then do {
              t \<leftarrow> Heap_write32 idx (word_of_nat (16 * n)) (crit_enter s);
              Some (HeapBase t + (unat idx + MEM_ALLOC_DATA_OFFSET), Pool_update pid (\<lambda>p. p\<lparr>mem_left := mem_left p - word_of_nat (16 * n), pmb_N := pmb_N p + 1\<rparr>) t)
            } else Some (NULL, crit_enter s));
       t \<leftarrow> OsCritSectEnd t;
       Some (addr, t) }"
    using ok False n0 crit notrestr scan size_w
    by (auto simp: MemAlloc_def pool_ok_def Pool_at_def Let_def kcore simp del: of_nat_mult)
  from first_fit_correct [OF blocks_for_pos(1) le0, of "unat nbytes" "pool_start s pid" xs]
  show ?thesis
  proof (elim disjE exE conjE, goal_cases)
    case (1 as)
    then have bf: "unat bf = n" and idx: "unat idx = pool_start s pid + segs_len as" and fit: "fits n as xs"
      using ff by (simp_all add: n_def)
    have "segs_len as + 16 * n \<le> segs_len xs" "0 < n"
      using fit blocks_for_pos(1) by (auto simp: fits_def n_def)
    moreover have "unat (end_index ?p) + 1 \<le> unat (TotalHeapSize s)"
      using ok by (simp add: pool_ok_def Let_def)
    ultimately have "unat idx + 4 \<le> unat (TotalHeapSize s)"
      using idx start by linarith
    then have "MemAlloc pid nbytes s = Some (HeapBase s + (pool_start s pid + segs_len as + 4),
           alloc_state pid (pool_start s pid + segs_len as) n s)"
      unfolding unfold using enough bf idx crit
      by (simp add: Heap_write32_def MEM_ALLOC_DATA_OFFSET_def alloc_state_def kcore del: of_nat_mult)
    then show ?case using 1 fit by (auto simp: n_def)
  next
    case 2
    then have "\<not> bf \<ge> ?sb" using ff enough by (simp add: n_def) (metis fst_conv not_le)
    then show ?case using 2 crit by (simp add: unfold n_def kcore)
  qed
qed


lemma segs_len_small: "pool_ok s pid xs \<Longrightarrow> pool_start s pid + segs_len xs \<le> unat (TotalHeapSize s)"
  "pool_ok s pid xs \<Longrightarrow> pool_start s pid + segs_len xs < 2 ^ 31"
  by (auto simp: pool_ok_def Let_def)

lemma pool_ok_alloc:
  assumes ok: "pool_ok s pid (as @ replicate n Free @ bs)" and n: "0 < n"
  shows "pool_ok (alloc_state pid (pool_start s pid + segs_len as) n s) pid (as @ Used n # bs)"
proof -
  let ?i = "pool_start s pid + segs_len as" and ?p = "PoolTable s ! unat pid"
  let ?h = "heap_put32 (OsHeap s) ?i (word_of_nat (16 * n))"
  have lay: "layout (OsHeap s) (pool_start s pid) as" "layout (OsHeap s) (?i + 16 * n) bs"
    using ok by (auto simp: pool_ok_def Let_def layout_append add.assoc)
  have small: "16 * n < 2 ^ 31" using segs_len_small [OF ok] by simp
  have "layout ?h (pool_start s pid) as"
    using lay(1) by (rule layout_frame) (simp add: heap_put32_other)
  moreover have "layout ?h (?i + 16 * n) bs"
    using lay(2) n by (elim layout_frame) (simp add: heap_put32_other)
  moreover have "unat (heap_get32 ?h ?i) = 16 * n"
    using small by (simp add: heap_get_put32 unat_of_nat del: of_nat_mult)
  ultimately have "layout ?h (pool_start s pid) (as @ Used n # bs)"
    using n by (simp add: layout_append)
  moreover have "unat (mem_left ?p - word_of_nat (16 * n)) = 16 * free_blocks (as @ Used n # bs)"
  proof -
    have "unat (mem_left ?p) = 16 * free_blocks as + 16 * n + 16 * free_blocks bs"
      using ok by (simp add: pool_ok_def Let_def)
    moreover have "unat (word_of_nat (16 * n) :: U32_t) = 16 * n"
      using small by (simp add: unat_of_nat del: of_nat_mult)
    ultimately show ?thesis by (subst unat_sub) (simp_all add: word_le_nat_alt del: of_nat_mult)
  qed
  ultimately show ?thesis
    using ok by (auto simp: pool_ok_def Let_def alloc_state_def Pool_update_def)
qed

lemma pool_ok_free:
  assumes ok: "pool_ok s pid (as @ Used k # bs)"
  shows "pool_ok (free_state pid (pool_start s pid + segs_len as) k s) pid (as @ replicate k Free @ bs)"
proof -
  let ?i = "pool_start s pid + segs_len as" and ?p = "PoolTable s ! unat pid"
  let ?h = "heap_zero (OsHeap s) ?i (?i + 16 * k)"
  have lay: "layout (OsHeap s) (pool_start s pid) as" "layout (OsHeap s) (?i + 16 * k) bs"
    using ok by (auto simp: pool_ok_def Let_def layout_append)
  have small: "16 * k < 2 ^ 31" using segs_len_small [OF ok] by simp
  have "layout ?h (pool_start s pid) as"
    using lay(1) by (rule layout_frame) (simp add: heap_zero_def)
  moreover have "layout ?h (?i + 16 * k) bs"
    using lay(2) by (rule layout_frame) (simp add: heap_zero_def)
  moreover have "layout ?h ?i (replicate k Free)"
    by (simp add: layout_frees heap_zero_def)
  ultimately have "layout ?h (pool_start s pid) (as @ replicate k Free @ bs)"
    by (simp add: layout_append add.assoc)
  moreover have "unat (mem_left ?p + word_of_nat (16 * k)) = 16 * free_blocks (as @ replicate k Free @ bs)"
  proof -
    have l: "unat (mem_left ?p) = 16 * free_blocks as + 16 * free_blocks bs"
      using ok by (simp add: pool_ok_def Let_def)
    have k: "unat (word_of_nat (16 * k) :: U32_t) = 16 * k"
      using small by (simp add: unat_of_nat del: of_nat_mult)
    have "16 * free_blocks as + 16 * k + 16 * free_blocks bs < 2 ^ 31"
      using segs_len_small(2) [OF ok] free_blocks_len [of as] free_blocks_len [of bs] by simp
    with l k show ?thesis by (subst unat_add_small) (simp_all del: of_nat_mult)
  qed
  ultimately show ?thesis
    using ok by (auto simp: pool_ok_def Let_def free_state_def Pool_update_def)
qed

lemma free_alloc_state:
  assumes ok: "pool_ok s pid (as @ replicate n Free @ bs)" and n: "0 < n"
  shows "free_state pid (pool_start s pid + segs_len as) n (alloc_state pid (pool_start s pid + segs_len as) n s) = s"
proof -
  let ?i = "pool_start s pid + segs_len as"
  have "\<forall>j < 16 * n. OsHeap s (?i + j) = 0"
    using ok by (auto simp: pool_ok_def Let_def layout_append layout_frees)
  then have z: "OsHeap s j = 0" if "?i \<le> j" "j < ?i + 16 * n" for j
    using that by (metis le_add_diff_inverse less_diff_conv2 add.commute nat_add_left_cancel_less)
  have "heap_zero (heap_put32 (OsHeap s) ?i (word_of_nat (16 * n))) ?i (?i + 16 * n) = OsHeap s"
    using n z by (auto simp: heap_zero_def fun_eq_iff heap_put32_other)
  then show ?thesis
    using ok by (auto simp: free_state_def alloc_state_def Pool_update_def pool_ok_def Let_def)
qed


subsection \<open>All pools of the heap\<close>

abbreviation pool_used :: "'a mem_state_scheme \<Rightarrow> nat \<Rightarrow> bool" where
  "pool_used s i \<equiv> i < unat (TotalHeapPools s) \<and> pool_size (PoolTable s ! i) > 0"

definition mem_wf :: "'a mem_state_scheme \<Rightarrow> (nat \<Rightarrow> seg list) \<Rightarrow> bool" where
  "mem_wf s B \<longleftrightarrow>
     unat (TotalHeapPools s) \<le> length (PoolTable s) \<and>
     (\<forall>i. pool_used s i \<longrightarrow> pool_ok s (word_of_nat i) (B i)) \<and>
     (\<forall>i j. pool_used s i \<and> pool_used s j \<and> i \<noteq> j \<longrightarrow>
        end_index (PoolTable s ! i) < start_index (PoolTable s ! j) \<or>
        end_index (PoolTable s ! j) < start_index (PoolTable s ! i))"

lemma unat_pool: "i < unat (n :: Id_t) \<Longrightarrow> unat (word_of_nat i :: Id_t) = i"
proof -
  assume "i < unat n"
  moreover have "unat n < 2 ^ 32" using unsigned_less [of n] by simp
  ultimately show ?thesis by (simp add: unat_of_nat)
qed

lemma mem_wf_pool: "mem_wf s B \<Longrightarrow> pool_used s (unat pid) \<Longrightarrow> pool_ok s pid (B (unat pid))"
  by (auto simp: mem_wf_def)

lemma mem_wf_disjoint:
  assumes "mem_wf s B" and "pool_used s i" and "pool_used s j" and "i \<noteq> j"
  shows "unat (start_index (PoolTable s ! i)) + segs_len (B i) \<le> unat (start_index (PoolTable s ! j)) \<or>
     unat (start_index (PoolTable s ! j)) + segs_len (B j) \<le> unat (start_index (PoolTable s ! i))"
proof -
  have "pool_ok s (word_of_nat i) (B i)" "pool_ok s (word_of_nat j) (B j)"
    using assms by (auto simp: mem_wf_def)
  then have "unat (end_index (PoolTable s ! i)) + 1 = unat (start_index (PoolTable s ! i)) + segs_len (B i)"
    "unat (end_index (PoolTable s ! j)) + 1 = unat (start_index (PoolTable s ! j)) + segs_len (B j)"
    using assms by (auto simp: pool_ok_def Let_def unat_pool)
  moreover have "end_index (PoolTable s ! i) < start_index (PoolTable s ! j) \<or>
        end_index (PoolTable s ! j) < start_index (PoolTable s ! i)"
    using assms by (auto simp: mem_wf_def)
  ultimately show ?thesis by (auto simp: word_less_nat_alt)
qed

lemma find_unique:
  assumes "i < n" and "P i" and "\<And>j. j < n \<Longrightarrow> P j \<Longrightarrow> j = i"
  shows "find P [0 ..< n] = Some i"
proof -
  have "\<forall>j < i. \<not> P j" using assms by (metis less_trans less_irrefl)
  with assms(1,2) show ?thesis by (subst find_Some_iff) (intro exI [of _ i], simp)
qed

lemma IPoolIdFromPointer_pool:
  assumes wf: "mem_wf s B" and u: "pool_used s (unat pid)"
    and p: "HeapBase s + pool_start s pid \<le> p" "p + 1 < HeapBase s + (pool_start s pid + segs_len (B (unat pid)))"
  shows "IPoolIdFromPointer p s = Some pid"
proof -
  let ?P = "\<lambda>i. pool_size (PoolTable s ! i) > 0 \<and> p \<ge> HeapBase s + unat (start_index (PoolTable s ! i))
                  \<and> p < HeapBase s + unat (end_index (PoolTable s ! i))"
  have e: "unat (end_index (PoolTable s ! i)) + 1 = unat (start_index (PoolTable s ! i)) + segs_len (B i)"
    if "pool_used s i" for i
    using wf that by (auto simp: mem_wf_def pool_ok_def Let_def unat_pool)
  have "find ?P [0 ..< unat (TotalHeapPools s)] = Some (unat pid)"
  proof (rule find_unique)
    show "?P (unat pid)" using e [OF u] p u by auto
    fix j assume j: "j < unat (TotalHeapPools s)" "?P j"
    then show "j = unat pid"
      using mem_wf_disjoint [OF wf, of j "unat pid"] u e [OF u] e [of j] p by auto
  qed (use u in simp)
  then show ?thesis
    using wf by (simp add: IPoolIdFromPointer_def Pool_find_def mem_wf_def)
qed

lemma MemFree_eq:
  assumes wf: "mem_wf s B" and u: "pool_used s (unat pid)" and B: "B (unat pid) = as @ Used k # bs"
    and crit: "crit_ok s" and acc: "mem_access s pid" and inv: "pid \<noteq> ID_INVALID"
  shows "MemFree (Some (HeapBase s + (pool_start s pid + segs_len as + 4))) s =
     Some ((OS_RES_OK, Some NULL), free_state pid (pool_start s pid + segs_len as) k s)"
proof -
  let ?i = "pool_start s pid + segs_len as" and ?p = "HeapBase s + (pool_start s pid + segs_len as + 4)"
  have ok: "pool_ok s pid (as @ Used k # bs)" using mem_wf_pool [OF wf u] B by simp
  then have k: "0 < k" and w: "unat (heap_get32 (OsHeap s) ?i) = 16 * k"
    by (auto simp: pool_ok_def Let_def layout_append)
  have e: "?i + 16 * k \<le> unat (TotalHeapSize s)" "?i + 16 * k < 2 ^ 31"
    using segs_len_small [OF ok] by auto
  have "IPoolIdFromPointer ?p s = Some pid"
    using k by (intro IPoolIdFromPointer_pool [OF wf u]) (auto simp: B)
  moreover have "\<not> (pid = ObjectPoolId s \<and> KCoreFlagGet CORE_FLAG_KERNEL_MODE s = 0)"
    using acc by (auto simp: mem_access_def)
  moreover have ui: "unat (word_of_nat ?i :: U32_t) = ?i" using e by (simp add: unat_of_nat del: of_nat_add)
  moreover have "heap_get32 (OsHeap s) ?i = word_of_nat (16 * k)"
    using w by (metis of_nat_unat ucast_id)
  moreover have "HeapBase s + (?i + 4) - HeapBase s - MEM_ALLOC_DATA_OFFSET = ?i"
    by (simp add: MEM_ALLOC_DATA_OFFSET_def)
  moreover have "MEM_ALLOC_DATA_OFFSET \<le> ?i + 4" by (simp add: MEM_ALLOC_DATA_OFFSET_def)
  moreover have "unat (word_of_nat (16 * k) :: U32_t) = 16 * k" using e by (simp add: unat_of_nat del: of_nat_mult)
  ultimately show ?thesis
    using crit inv k e
    by (simp add: MemFree_def kcore Heap_read32_def Heap_clear_def free_state_def Let_def
        del: of_nat_mult of_nat_add)
qed

lemma pool_ok_frame:
  assumes "pool_ok s pid xs" and "PoolTable t ! unat pid = PoolTable s ! unat pid"
    and "length (PoolTable t) = length (PoolTable s)" and "TotalHeapPools t = TotalHeapPools s"
    and "TotalHeapSize t = TotalHeapSize s" and "HeapBase t = HeapBase s"
    and "\<And>j. pool_start s pid \<le> j \<Longrightarrow> j < pool_start s pid + segs_len xs \<Longrightarrow> OsHeap t j = OsHeap s j"
  shows "pool_ok t pid xs"
proof -
  have "layout (OsHeap t) (pool_start s pid) xs"
    using assms by (auto simp: pool_ok_def Let_def intro: layout_frame)
  with assms show ?thesis by (simp add: pool_ok_def Let_def)
qed

text \<open>A change inside one pool that keeps that pool's place and its invariant keeps all pools.\<close>

lemma mem_wf_update:
  assumes wf: "mem_wf s B" and u: "pool_used s (unat pid)" and ok: "pool_ok t pid xs"
    and tab: "PoolTable t = (PoolTable s)[unat pid := q]" and q: "start_index q = start_index (PoolTable s ! unat pid)"
      "end_index q = end_index (PoolTable s ! unat pid)"
    and eq: "TotalHeapPools t = TotalHeapPools s" "TotalHeapSize t = TotalHeapSize s" "HeapBase t = HeapBase s"
    and heap: "\<And>j. j < pool_start s pid \<or> pool_start s pid + segs_len (B (unat pid)) \<le> j \<Longrightarrow> OsHeap t j = OsHeap s j"
  shows "mem_wf t (B(unat pid := xs))"
proof -
  have l: "unat pid < length (PoolTable s)" using u wf by (auto simp: mem_wf_def)
  have used: "pool_used t i \<Longrightarrow> pool_used s i" for i
    using u tab eq by (cases "i = unat pid") (auto simp: nth_list_update)
  have "pool_ok t (word_of_nat i) ((B(unat pid := xs)) i)" if "pool_used t i" for i
  proof (cases "i = unat pid")
    case False
    have us: "pool_used s i" using used that by blast
    have "pool_ok s (word_of_nat i) (B i)" using wf us by (auto simp: mem_wf_def)
    then have "pool_ok t (word_of_nat i) (B i)"
    proof (rule pool_ok_frame)
      fix j assume "pool_start s (word_of_nat i) \<le> j" "j < pool_start s (word_of_nat i) + segs_len (B i)"
      then show "OsHeap t j = OsHeap s j"
        using mem_wf_disjoint [OF wf us u False] us by (intro heap) (auto simp: unat_pool)
    qed (use us False unat_pool [of i "TotalHeapPools s"] in \<open>simp_all add: tab eq\<close>)
    with False show ?thesis by simp
  qed (use ok in simp)
  moreover have "end_index (PoolTable t ! i) < start_index (PoolTable t ! j) \<or>
        end_index (PoolTable t ! j) < start_index (PoolTable t ! i)"
    if "pool_used t i" "pool_used t j" "i \<noteq> j" for i j
  proof -
    have "start_index (PoolTable t ! m) = start_index (PoolTable s ! m)"
      "end_index (PoolTable t ! m) = end_index (PoolTable s ! m)" for m
      using l by (cases "m = unat pid"; simp add: tab q)+
    with used [OF that(1)] used [OF that(2)] that wf show ?thesis by (auto simp: mem_wf_def)
  qed
  ultimately show ?thesis
    using wf eq tab by (auto simp: mem_wf_def)
qed


subsection \<open>The interface of an allocator\<close>

text \<open>
  What a client relies on: an allocation either changes nothing and gives null, or adds one live block that
  overlaps no other; a live block can be released. \<open>live\<close> is a set of addresses with sizes.
\<close>

definition blocks_disjoint :: "(ptr \<times> nat) set \<Rightarrow> bool" where
  "blocks_disjoint L \<longleftrightarrow>
     (\<forall>p m q k. (p, m) \<in> L \<and> (q, k) \<in> L \<and> (p, m) \<noteq> (q, k) \<longrightarrow> p + m \<le> q \<or> q + k \<le> p)"

datatype alloc_op = AAlloc U32_t | ARelease nat

fun alloc_run :: "(U32_t \<Rightarrow> 's \<Rightarrow> (ptr \<times> 's) option) \<Rightarrow> (ptr \<Rightarrow> 's \<Rightarrow> 's option) \<Rightarrow>
    alloc_op list \<Rightarrow> ptr list \<Rightarrow> 's \<Rightarrow> (ptr list \<times> 's) option" where
  "alloc_run al rl [] held s = Some (held, s)"
| "alloc_run al rl (AAlloc n # ops) held s = do {
     (p, s) \<leftarrow> al n s;
     alloc_run al rl ops (if p = NULL then held else p # held) s
   }"
| "alloc_run al rl (ARelease i # ops) held s =
     (if i < length held
      then do { s \<leftarrow> rl (held ! i) s; alloc_run al rl ops (take i held @ drop (Suc i) held) s }
      else alloc_run al rl ops held s)"

lemma remove_nth:
  assumes "i < length xs" and "distinct xs"
  shows "distinct (take i xs @ drop (Suc i) xs)" and "set (take i xs @ drop (Suc i) xs) = set xs - {xs ! i}"
proof -
  have e: "xs = take i xs @ xs ! i # drop (Suc i) xs" using assms(1) by (rule id_take_nth_drop)
  then have "distinct (take i xs @ xs ! i # drop (Suc i) xs)" using assms(2) by simp
  then show "distinct (take i xs @ drop (Suc i) xs)" by auto
  have "set xs = set (take i xs @ xs ! i # drop (Suc i) xs)" using e by simp
  with \<open>distinct (take i xs @ xs ! i # drop (Suc i) xs)\<close>
  show "set (take i xs @ drop (Suc i) xs) = set xs - {xs ! i}" by auto
qed

lemma fst_image_remove:
  assumes "(a, m) \<in> L" and "\<And>k. (a, k) \<in> L \<Longrightarrow> k = m"
  shows "fst ` (L - {(a, m)}) = fst ` L - {a}"
proof (intro equalityI subsetI)
  fix x assume "x \<in> fst ` (L - {(a, m)})"
  then obtain z where z: "z \<in> L" "z \<noteq> (a, m)" "x = fst z" by (elim imageE DiffE) simp
  then have "x \<noteq> a" using assms(2) [of "snd z"] by (cases z) auto
  with z show "x \<in> fst ` L - {a}" by simp
next
  fix x assume "x \<in> fst ` L - {a}"
  then obtain z where "z \<in> L" "x = fst z" "x \<noteq> a" by (elim imageE DiffE) simp
  then have "z \<in> L - {(a, m)}" by (cases z) simp
  with \<open>x = fst z\<close> show "x \<in> fst ` (L - {(a, m)})" by (rule image_eqI)
qed

locale allocator =
  fixes alloc :: "U32_t \<Rightarrow> 's \<Rightarrow> (ptr \<times> 's) option"
    and release :: "ptr \<Rightarrow> 's \<Rightarrow> 's option"
    and live :: "'s \<Rightarrow> (ptr \<times> nat) set"
    and alloc_inv :: "'s \<Rightarrow> bool"
  assumes alloc_law: "alloc_inv s \<Longrightarrow> \<exists>p t. alloc n s = Some (p, t) \<and> alloc_inv t \<and>
       (if p = NULL then live t = live s
        else \<exists>m \<ge> unat n. 0 < m \<and> live t = insert (p, m) (live s) \<and>
               (\<forall>(q, k) \<in> live s. p + m \<le> q \<or> q + k \<le> p))"
    and release_law: "alloc_inv s \<Longrightarrow> (p, m) \<in> live s \<Longrightarrow>
       \<exists>t. release p s = Some t \<and> alloc_inv t \<and> live t = live s - {(p, m)}"
    and live_pos: "alloc_inv s \<Longrightarrow> (p, m) \<in> live s \<Longrightarrow> 0 < m"
begin

lemma live_address_unique:
  "alloc_inv s \<Longrightarrow> blocks_disjoint (live s) \<Longrightarrow> (p, m) \<in> live s \<Longrightarrow> (p, k) \<in> live s \<Longrightarrow> m = k"
  using live_pos [of s p m] live_pos [of s p k] unfolding blocks_disjoint_def
  by (metis Pair_inject add_le_same_cancel1 not_le)

lemma run_disjoint:
  "alloc_inv s \<Longrightarrow> blocks_disjoint (live s) \<Longrightarrow> fst ` live s = set held \<Longrightarrow> distinct held \<Longrightarrow>
     \<exists>held' t. alloc_run alloc release ops held s = Some (held', t) \<and> alloc_inv t
       \<and> blocks_disjoint (live t) \<and> fst ` live t = set held' \<and> distinct held'"
proof (induction ops arbitrary: held s)
  case (Cons op ops)
  show ?case
  proof (cases op)
    case (AAlloc n)
    obtain p t where a: "alloc n s = Some (p, t)" "alloc_inv t"
      and l: "if p = NULL then live t = live s
        else \<exists>m \<ge> unat n. 0 < m \<and> live t = insert (p, m) (live s) \<and> (\<forall>(q, k) \<in> live s. p + m \<le> q \<or> q + k \<le> p)"
      using alloc_law [OF Cons.prems(1)] by blast
    show ?thesis
    proof (cases "p = NULL")
      case True
      then show ?thesis using a l Cons.IH [of t held] Cons.prems AAlloc by simp
    next
      case False
      then obtain m where m: "0 < m" "live t = insert (p, m) (live s)"
        and d: "\<forall>(q, k) \<in> live s. p + m \<le> q \<or> q + k \<le> p" using l by auto
      have "blocks_disjoint (live t)"
        using Cons.prems(2) d m by (auto simp: blocks_disjoint_def)
      moreover have "p \<notin> set held"
      proof
        assume "p \<in> set held"
        then obtain k where "(p, k) \<in> live s" using Cons.prems(3) by (metis fst_conv imageE prod.collapse)
        then show False using d m live_pos [OF Cons.prems(1)] by fastforce
      qed
      ultimately show ?thesis
        using a m False Cons.IH [of t "p # held"] Cons.prems AAlloc by simp
    qed
  next
    case (ARelease i)
    show ?thesis
    proof (cases "i < length held")
      case True
      then have "held ! i \<in> fst ` live s" using Cons.prems(3) by simp
      then obtain m where m: "(held ! i, m) \<in> live s" by auto
      obtain t where t: "release (held ! i) s = Some t" "alloc_inv t" "live t = live s - {(held ! i, m)}"
        using release_law [OF Cons.prems(1) m] by blast
      have "blocks_disjoint (live t)" using Cons.prems(2) t by (auto simp: blocks_disjoint_def)
      moreover have "fst ` live t = set held - {held ! i}"
        unfolding t(3) Cons.prems(3) [symmetric]
        using live_address_unique [OF Cons.prems(1,2) m] by (intro fst_image_remove m) blast
      ultimately show ?thesis
        using t Cons.IH [of t "take i held @ drop (Suc i) held"] Cons.prems(4) ARelease True
          remove_nth [OF True Cons.prems(4)] by simp
    qed (use Cons ARelease in simp)
  qed
qed auto

end


subsection \<open>The pools of the heap as allocators\<close>

definition pool_live :: "Id_t \<Rightarrow> 'a mem_state_scheme \<Rightarrow> (ptr \<times> nat) set" where
  "pool_live pid s =
     {(p, m). \<exists>as k bs. pool_ok s pid (as @ Used k # bs) \<and>
        p = HeapBase s + (pool_start s pid + segs_len as + 4) \<and> m = 16 * k - 4}"

definition pool_inv :: "Id_t \<Rightarrow> 'a mem_state_scheme \<Rightarrow> bool" where
  "pool_inv pid s \<longleftrightarrow> (\<exists>B. mem_wf s B) \<and> pool_used s (unat pid) \<and> crit_ok s \<and> mem_access s pid"

definition MemRelease :: "ptr \<Rightarrow> 'a mem_state_scheme \<Rightarrow> 'a mem_state_scheme option" where
  "MemRelease p s = do {
     ((r, pp), s) \<leftarrow> MemFree (Some p) s;
     if r = OS_RES_OK then Some s else None
   }"

lemma pool_ok_unique: "pool_ok s pid xs \<Longrightarrow> pool_ok s pid ys \<Longrightarrow> xs = ys"
  by (rule layout_unique [of "OsHeap s" "pool_start s pid"]) (auto simp: pool_ok_def Let_def)

text \<open>The live blocks of the segments \<open>xs\<close> from index \<open>i\<close> on, in address order.\<close>

fun live_segs :: "nat \<Rightarrow> seg list \<Rightarrow> (nat \<times> nat) set" where
  "live_segs i [] = {}"
| "live_segs i (Free # xs) = live_segs (i + 16) xs"
| "live_segs i (Used k # xs) = insert (i + 4, 16 * k - 4) (live_segs (i + 16 * k) xs)"

lemma live_segs_append: "live_segs i (xs @ ys) = live_segs i xs \<union> live_segs (i + segs_len xs) ys"
proof (induction xs arbitrary: i)
  case (Cons x xs)
  then show ?case by (cases x) (auto simp: add.assoc)
qed simp

lemma live_segs_frees [simp]: "live_segs i (replicate n Free) = {}"
  by (induction n arbitrary: i) auto

lemma live_segs_range: "layout h i xs \<Longrightarrow> (p, m) \<in> live_segs i xs \<Longrightarrow> i + 4 \<le> p \<and> p + m \<le> i + segs_len xs \<and> 0 < m"
proof (induction xs arbitrary: i)
  case (Cons x xs)
  show ?case
  proof (cases x)
    case Free
    then have "i + 16 + 4 \<le> p \<and> p + m \<le> i + 16 + segs_len xs \<and> 0 < m"
      using Cons.prems by (intro Cons.IH) auto
    with Free show ?thesis by simp
  next
    case (Used k)
    show ?thesis
    proof (cases "(p, m) = (i + 4, 16 * k - 4)")
      case False
      then have "i + 16 * k + 4 \<le> p \<and> p + m \<le> i + 16 * k + segs_len xs \<and> 0 < m"
        using Cons.prems Used by (intro Cons.IH) auto
      with Used show ?thesis by simp
    qed (use Cons.prems Used in auto)
  qed
qed simp

lemma live_segs_iff:
  "(p, m) \<in> live_segs i xs \<longleftrightarrow> (\<exists>as k bs. xs = as @ Used k # bs \<and> p = i + segs_len as + 4 \<and> m = 16 * k - 4)"
proof
  assume "(p, m) \<in> live_segs i xs"
  then show "\<exists>as k bs. xs = as @ Used k # bs \<and> p = i + segs_len as + 4 \<and> m = 16 * k - 4"
  proof (induction xs arbitrary: i)
    case (Cons x xs)
    show ?case
    proof (cases "(p, m) \<in> live_segs (i + seg_len x) xs")
      case True
      then obtain as k bs where "xs = as @ Used k # bs" "p = i + seg_len x + segs_len as + 4" "m = 16 * k - 4"
        using Cons.IH by blast
      then show ?thesis by (intro exI [of _ "x # as"] exI [of _ k] exI [of _ bs]) simp
    next
      case False
      with Cons.prems obtain k where "x = Used k" "p = i + 4" "m = 16 * k - 4" by (cases x) auto
      then show ?thesis by (intro exI [of _ "[]"] exI [of _ k] exI [of _ xs]) simp
    qed
  qed simp
qed (auto simp: live_segs_append)

lemma pool_live_eq:
  "pool_ok s pid xs \<Longrightarrow> pool_live pid s = (\<lambda>(p, m). (HeapBase s + p, m)) ` live_segs (pool_start s pid) xs"
proof (intro set_eqI iffI)
  fix z assume ok: "pool_ok s pid xs" and "z \<in> pool_live pid s"
  then obtain as k bs where "pool_ok s pid (as @ Used k # bs)"
    "z = (HeapBase s + (pool_start s pid + segs_len as + 4), 16 * k - 4)" by (auto simp: pool_live_def)
  then show "z \<in> (\<lambda>(p, m). (HeapBase s + p, m)) ` live_segs (pool_start s pid) xs"
    using pool_ok_unique [OF ok] live_segs_iff [of "pool_start s pid + segs_len as + 4" "16 * k - 4"] by force
next
  fix z assume ok: "pool_ok s pid xs" and "z \<in> (\<lambda>(p, m). (HeapBase s + p, m)) ` live_segs (pool_start s pid) xs"
  then obtain p m where "z = (HeapBase s + p, m)" "(p, m) \<in> live_segs (pool_start s pid) xs" by auto
  then show "z \<in> pool_live pid s" using ok by (auto simp: live_segs_iff pool_live_def)
qed

lemma pool_inv_id: "pool_inv pid s \<Longrightarrow> pid \<noteq> ID_INVALID"
proof
  assume "pool_inv pid s" and "pid = ID_INVALID"
  then have "unat ID_INVALID < unat (TotalHeapPools s)" by (auto simp: pool_inv_def)
  moreover have "unat (TotalHeapPools s) < 2 ^ 32" using unsigned_less [of "TotalHeapPools s"] by simp
  ultimately show False by (simp add: ID_INVALID_def)
qed

lemma alloc_state_frame [simp]:
  "HeapBase (alloc_state pid i n s) = HeapBase s" "HeapBase (free_state pid i n s) = HeapBase s"
  "TotalHeapPools (alloc_state pid i n s) = TotalHeapPools s"
  "TotalHeapPools (free_state pid i n s) = TotalHeapPools s"
  "TotalHeapSize (alloc_state pid i n s) = TotalHeapSize s"
  "TotalHeapSize (free_state pid i n s) = TotalHeapSize s"
  "mem_access (alloc_state pid i n s) = mem_access s" "mem_access (free_state pid i n s) = mem_access s"
  by (simp_all add: alloc_state_def free_state_def Pool_update_def mem_access_def KCoreFlagGet_def fun_eq_iff)

lemma alloc_state_pool [simp]:
  assumes "unat pid < length (PoolTable s)"
  shows "pool_start (alloc_state pid i n s) pid = pool_start s pid"
    "pool_start (free_state pid i n s) pid = pool_start s pid"
    "pool_size (PoolTable (alloc_state pid i n s) ! unat pid) = pool_size (PoolTable s ! unat pid)"
    "pool_size (PoolTable (free_state pid i n s) ! unat pid) = pool_size (PoolTable s ! unat pid)"
  using assms by (simp_all add: alloc_state_def free_state_def Pool_update_def)

lemma PoolTable_alloc_state:
  "PoolTable (alloc_state pid i n s) = (PoolTable s)[unat pid := (PoolTable s ! unat pid)
     \<lparr>mem_left := mem_left (PoolTable s ! unat pid) - word_of_nat (16 * n), pmb_N := pmb_N (PoolTable s ! unat pid) + 1\<rparr>]"
  "PoolTable (free_state pid i n s) = (PoolTable s)[unat pid := (PoolTable s ! unat pid)
     \<lparr>mem_left := mem_left (PoolTable s ! unat pid) + word_of_nat (16 * n), pmb_N := pmb_N (PoolTable s ! unat pid) - 1\<rparr>]"
  by (simp_all add: alloc_state_def free_state_def Pool_update_def)

lemma mem_wf_alloc:
  assumes wf: "mem_wf s B" and u: "pool_used s (unat pid)" and B: "B (unat pid) = as @ replicate n Free @ bs" and n: "0 < n"
  shows "mem_wf (alloc_state pid (pool_start s pid + segs_len as) n s) (B(unat pid := as @ Used n # bs))"
proof (rule mem_wf_update [OF wf u _ PoolTable_alloc_state(1)])
  have ok: "pool_ok s pid (as @ replicate n Free @ bs)" using mem_wf_pool [OF wf u] B by simp
  then show "pool_ok (alloc_state pid (pool_start s pid + segs_len as) n s) pid (as @ Used n # bs)"
    using n by (rule pool_ok_alloc)
  fix j assume "j < pool_start s pid \<or> pool_start s pid + segs_len (B (unat pid)) \<le> j"
  then show "OsHeap (alloc_state pid (pool_start s pid + segs_len as) n s) j = OsHeap s j"
    using n B by (auto simp: alloc_state_def Pool_update_def intro!: heap_put32_other)
qed simp_all

lemma mem_wf_free:
  assumes wf: "mem_wf s B" and u: "pool_used s (unat pid)" and B: "B (unat pid) = as @ Used k # bs"
  shows "mem_wf (free_state pid (pool_start s pid + segs_len as) k s) (B(unat pid := as @ replicate k Free @ bs))"
proof (rule mem_wf_update [OF wf u _ PoolTable_alloc_state(2)])
  have ok: "pool_ok s pid (as @ Used k # bs)" using mem_wf_pool [OF wf u] B by simp
  then show "pool_ok (free_state pid (pool_start s pid + segs_len as) k s) pid (as @ replicate k Free @ bs)"
    by (rule pool_ok_free)
  fix j assume "j < pool_start s pid \<or> pool_start s pid + segs_len (B (unat pid)) \<le> j"
  then show "OsHeap (free_state pid (pool_start s pid + segs_len as) k s) j = OsHeap s j"
    using B by (auto simp: free_state_def Pool_update_def heap_zero_def)
qed simp_all


lemma pool_alloc_law:
  assumes "pool_inv pid s"
  shows "\<exists>p t. MemAlloc pid n s = Some (p, t) \<and> pool_inv pid t \<and>
       (if p = NULL then pool_live pid t = pool_live pid s
        else \<exists>m \<ge> unat n. 0 < m \<and> pool_live pid t = insert (p, m) (pool_live pid s) \<and>
               (\<forall>(q, k) \<in> pool_live pid s. p + m \<le> q \<or> q + k \<le> p))"
proof -
  obtain B where wf: "mem_wf s B" and u: "pool_used s (unat pid)" and crit: "crit_ok s" and acc: "mem_access s pid"
    using assms by (auto simp: pool_inv_def)
  have ok: "pool_ok s pid (B (unat pid))" by (rule mem_wf_pool [OF wf u])
  have len: "unat pid < length (PoolTable s)" using ok by (simp add: pool_ok_def Let_def)
  show ?thesis
  proof (cases "n = 0")
    case True
    then show ?thesis using assms by (auto simp: MemAlloc_def)
  next
    case False
    let ?n = "blocks_for (unat n)"
    from MemAlloc_eq [OF ok crit acc False] show ?thesis
    proof (elim disjE exE conjE, goal_cases)
      case (1 as)
      then obtain bs where B: "B (unat pid) = as @ replicate ?n Free @ bs" by (auto simp: fits_def)
      let ?i = "pool_start s pid + segs_len as"
      let ?t = "alloc_state pid ?i ?n s" and ?p = "HeapBase s + (?i + 4)" and ?m = "16 * ?n - 4"
      have ok': "pool_ok ?t pid (as @ Used ?n # bs)"
        using pool_ok_alloc [of s pid as ?n bs] ok B blocks_for_pos(1) by simp
      have inv: "pool_inv pid ?t"
        using mem_wf_alloc [OF wf u B blocks_for_pos(1)] u crit acc len by (auto simp: pool_inv_def)
      have live: "pool_live pid ?t = insert (?p, ?m) (pool_live pid s)"
        unfolding pool_live_eq [OF ok'] pool_live_eq [OF ok] B
        by (simp add: live_segs_append len add.assoc)
      have sep1: "?p + ?m \<le> q \<or> q + k \<le> ?p" if live: "(q, k) \<in> pool_live pid s" for q k
      proof -
        have l: "layout (OsHeap s) (pool_start s pid) as" "layout (OsHeap s) (?i + 16 * ?n) bs"
          using ok B by (auto simp: pool_ok_def Let_def layout_append add.assoc)
        obtain q' where q: "q = HeapBase s + q'"
          and "(q', k) \<in> live_segs (pool_start s pid) as \<union> live_segs (?i + 16 * ?n) bs"
          using live unfolding pool_live_eq [OF ok] B by (auto simp: live_segs_append add.assoc)
        then show ?thesis
          using live_segs_range [OF l(1)] live_segs_range [OF l(2)] blocks_for_pos(1) [of "unat n"]
          by (elim UnE) fastforce+
      qed
      then have sep: "\<forall>(q, k) \<in> pool_live pid s. ?p + ?m \<le> q \<or> q + k \<le> ?p" by blast
      have m: "unat n \<le> ?m" "0 < ?m"
        using blocks_for_pos(1) [of "unat n"] blocks_for_pos(2) [of "unat n"] by auto
      have nz: "?p \<noteq> NULL" by simp
      have "\<exists>m \<ge> unat n. 0 < m \<and> pool_live pid ?t = insert (?p, m) (pool_live pid s) \<and>
               (\<forall>(q, k) \<in> pool_live pid s. ?p + m \<le> q \<or> q + k \<le> ?p)"
        by (rule exI [of _ ?m], intro conjI m live sep)
      with 1(3) inv nz show ?case
        by (intro exI [of _ ?p] exI [of _ ?t] conjI) (simp_all only: if_False)
    qed (use assms in auto)
  qed
qed

lemma pool_release_law:
  assumes inv: "pool_inv pid s" and live: "(p, m) \<in> pool_live pid s"
  shows "\<exists>t. MemRelease p s = Some t \<and> pool_inv pid t \<and> pool_live pid t = pool_live pid s - {(p, m)}"
proof -
  obtain B where wf: "mem_wf s B" and u: "pool_used s (unat pid)" and crit: "crit_ok s" and acc: "mem_access s pid"
    using inv by (auto simp: pool_inv_def)
  have ok: "pool_ok s pid (B (unat pid))" by (rule mem_wf_pool [OF wf u])
  have len: "unat pid < length (PoolTable s)" using ok by (simp add: pool_ok_def Let_def)
  obtain as k bs where okx: "pool_ok s pid (as @ Used k # bs)"
    and p: "p = HeapBase s + (pool_start s pid + segs_len as + 4)" and m: "m = 16 * k - 4"
    using live by (auto simp: pool_live_def)
  have B: "B (unat pid) = as @ Used k # bs" by (rule pool_ok_unique [OF ok okx])
  let ?i = "pool_start s pid + segs_len as"
  let ?t = "free_state pid ?i k s"
  have ok': "pool_ok ?t pid (as @ replicate k Free @ bs)" by (rule pool_ok_free [OF okx])
  have k: "0 < k" using okx by (auto simp: pool_ok_def Let_def layout_append)
  have "pool_inv pid ?t"
    using mem_wf_free [OF wf u B] u crit acc len by (auto simp: pool_inv_def)
  moreover have "MemRelease p s = Some ?t"
    using MemFree_eq [OF wf u B crit acc pool_inv_id [OF inv]] by (simp add: MemRelease_def p)
  moreover have "pool_live pid ?t = pool_live pid s - {(p, m)}"
  proof -
    have l: "layout (OsHeap s) (pool_start s pid) as" "layout (OsHeap s) (?i + 16 * k) bs"
      using okx by (auto simp: pool_ok_def Let_def layout_append)
    have n: "(?i + 4, m) \<notin> live_segs (pool_start s pid) as \<union> live_segs (?i + 16 * k) bs"
      using live_segs_range [OF l(1), of "?i + 4" m] live_segs_range [OF l(2), of "?i + 4" m] k by auto
    have "live_segs (pool_start s pid) (as @ replicate k Free @ bs) =
        live_segs (pool_start s pid) (as @ Used k # bs) - {(?i + 4, m)}"
      using n m by (auto simp: live_segs_append add.assoc)
    moreover have "inj (\<lambda>(q, k). (HeapBase s + q, k :: nat))" by (auto intro!: injI)
    ultimately show ?thesis
      unfolding pool_live_eq [OF ok'] pool_live_eq [OF okx] p
      by (simp add: len image_set_diff)
  qed
  ultimately show ?thesis by blast
qed

interpretation pool: allocator "MemAlloc pid" MemRelease "pool_live pid" "pool_inv pid" for pid
proof (unfold_locales, goal_cases)
  case (1 s n)
  then show ?case by (rule pool_alloc_law)
next
  case (2 s p m)
  then show ?case by (rule pool_release_law)
next
  case (3 s p m)
  then show ?case
  proof -
    obtain B where "pool_ok s pid (B (unat pid))"
      using 3(1) mem_wf_pool by (auto simp: pool_inv_def)
    with 3(2) show ?thesis
      by (auto simp: pool_live_eq pool_ok_def Let_def dest!: live_segs_range [rotated])
  qed
qed

end
