(* ===== verification/Pools.thy ===== *)
theory Pools
  imports Allocator
begin

text \<open>
  Creation of pools and the initial heap: \<open>MemPoolCreate\<close> places a new pool in free space and keeps the
  heap well formed, and \<open>KMemInit\<close> establishes it with one object pool.
\<close>

lemma U32_lt: "unat (x :: U32_t) < 2 ^ 32"
  using unsigned_less [of x] by simp

subsection \<open>The search for space\<close>

definition pools_aligned :: "'a mem_state_scheme \<Rightarrow> bool" where
  "pools_aligned s \<longleftrightarrow> unat (HeapIndexEnd s) + 1 = unat (TotalHeapSize s) \<and>
     unat (TotalHeapSize s) < 2 ^ 31 \<and> unat (TotalHeapSize s) mod 16 = 0 \<and>
     (\<forall>i. pool_used s i \<longrightarrow> unat (start_index (PoolTable s ! i)) mod 16 = 0 \<and>
         (unat (end_index (PoolTable s ! i)) + 1) mod 16 = 0)"

definition index_free :: "'a mem_state_scheme \<Rightarrow> nat \<Rightarrow> bool" where
  "index_free s j \<longleftrightarrow> (\<forall>i. pool_used s i \<longrightarrow>
     j < unat (start_index (PoolTable s ! i)) \<or> unat (end_index (PoolTable s ! i)) < j)"

text \<open>A gap in which a pool of \<open>n\<close> blocks can be placed.\<close>

definition pool_gap :: "'a mem_state_scheme \<Rightarrow> nat \<Rightarrow> nat \<Rightarrow> bool" where
  "pool_gap s n k \<longleftrightarrow> k mod 16 = 0 \<and> k + 16 * n \<le> unat (TotalHeapSize s) \<and> (\<forall>b < n. index_free s (k + 16 * b))"

lemma IPoolIdFromIndex_cases:
  assumes "unat (TotalHeapPools s) \<le> length (PoolTable s)"
  obtains "IPoolIdFromIndex index s = Some ID_INVALID" "index_free s (unat index)"
  | pid where "IPoolIdFromIndex index s = Some pid" "pid \<noteq> ID_INVALID" "pool_used s (unat pid)"
      "start_index (PoolTable s ! unat pid) \<le> index" "index \<le> end_index (PoolTable s ! unat pid)"
proof -
  let ?P = "\<lambda>i. index \<ge> start_index (PoolTable s ! i) \<and> index \<le> end_index (PoolTable s ! i)
     \<and> pool_size (PoolTable s ! i) > 0"
  show thesis
  proof (cases "find ?P [0 ..< unat (TotalHeapPools s)]")
    case None
    have "index_free s (unat index)"
      using None by (auto simp: find_None_iff index_free_def word_le_nat_alt not_le)
    moreover have "IPoolIdFromIndex index s = Some ID_INVALID"
      using assms None by (simp add: IPoolIdFromIndex_def Pool_find_def)
    ultimately show thesis by (rule that(1) [rotated])
  next
    case (Some i)
    then have i: "i < unat (TotalHeapPools s)" "?P i" by (auto simp: find_Some_iff)
    have u: "unat (word_of_nat i :: Id_t) = i" by (rule unat_pool [OF i(1)])
    have "word_of_nat i \<noteq> ID_INVALID"
    proof
      assume "word_of_nat i = ID_INVALID"
      then have "i = unat ID_INVALID" using u by simp
      with i(1) U32_lt [of "TotalHeapPools s"] show False by (simp add: ID_INVALID_def)
    qed
    moreover have "IPoolIdFromIndex index s = Some (word_of_nat i)"
      using assms Some by (simp add: IPoolIdFromIndex_def Pool_find_def)
    ultimately show thesis using i by (intro that(2) [of "word_of_nat i"]) (simp_all add: u)
  qed
qed

text \<open>
  The scan ends: its position \<open>index + index_offset\<close> moves up at every step. It ends either with enough
  blocks, all of them free, or at the end of the heap; it passes over no gap.
\<close>

lemma no_gap_behind:
  assumes "unat (HeapIndexEnd s) + 1 = unat (TotalHeapSize s)" "unat (TotalHeapSize s) mod 16 = 0"
    and k: "\<forall>j < i. \<not> pool_gap s n j" "i mod 16 = 0" "i + 16 * b \<ge> unat (HeapIndexEnd s)" "b < n"
  shows "\<not> pool_gap s n j"
proof
  assume g: "pool_gap s n j"
  then have "i \<le> j" using k(1) by (meson not_less)
  moreover have "j + 16 * n \<le> unat (TotalHeapSize s)" using g by (simp add: pool_gap_def)
  moreover have "unat (TotalHeapSize s) \<le> i + 16 * b" using assms(1,2) k(2,3) by presburger
  ultimately show False using k(4) by linarith
qed

lemma no_gap_skipped:
  assumes u: "pool_used s p" "unat (start_index (PoolTable s ! p)) \<le> i + 16 * b" "i + 16 * b \<le> unat (end_index (PoolTable s ! p))"
    and k: "\<forall>j < i. \<not> pool_gap s n j" "i mod 16 = 0" "b < n" and j: "j \<le> unat (end_index (PoolTable s ! p))"
  shows "\<not> pool_gap s n j"
proof
  assume g: "pool_gap s n j"
  then have ij: "i \<le> j" using k(1) by (meson not_less)
  show False
  proof (cases "j \<le> i + 16 * b")
    case True
    have "j mod 16 = 0" using g by (simp add: pool_gap_def)
    then obtain x y where "i = 16 * x" "j = 16 * y" using k(2) by (auto simp: mod_eq_0_iff_dvd elim!: dvdE)
    then have c: "i + 16 * b = j + 16 * (x + b - y)" "x + b - y < n" using True ij k(3) by auto
    then have "index_free s (j + 16 * (x + b - y))" using g by (simp add: pool_gap_def)
    then show False using u unfolding index_free_def c(1) by fastforce
  next
    case False
    have "index_free s (j + 16 * 0)" using g k(3) unfolding pool_gap_def by blast
    then show False using u j False unfolding index_free_def by fastforce
  qed
qed

lemma MemPoolCreate_scan_total:
  assumes "mem_wf s B" and "pools_aligned s"
    and "unat index + 16 * unat bf \<le> unat (TotalHeapSize s)" and "unat index mod 16 = 0"
    and "unat off = 16 * unat bf" and "\<forall>b < unat bf. index_free s (unat index + 16 * b)" and "bf \<le> req"
    and "\<forall>j < unat index. \<not> pool_gap s (unat req) j"
  shows "\<exists>bf' index' off'. MemPoolCreate_scan req bf index off s = Some (bf', index', off')
     \<and> unat index' + 16 * unat bf' \<le> unat (TotalHeapSize s) \<and> unat index' mod 16 = 0
     \<and> unat off' = 16 * unat bf' \<and> (\<forall>b < unat bf'. index_free s (unat index' + 16 * b))
     \<and> bf' \<le> req \<and> (\<forall>j < unat index'. \<not> pool_gap s (unat req) j)
     \<and> (bf' = req \<or> (\<forall>j. \<not> pool_gap s (unat req) j))"
  using assms(3-)
proof (induction "unat (TotalHeapSize s) - (unat index + 16 * unat bf)" arbitrary: bf index off rule: less_induct)
  case less
  have size: "unat (TotalHeapSize s) < 2 ^ 31" "unat (HeapIndexEnd s) + 1 = unat (TotalHeapSize s)"
    "unat (TotalHeapSize s) mod 16 = 0"
    using assms(2) by (auto simp: pools_aligned_def)
  have io: "unat (index + off) = unat index + 16 * unat bf"
    using less.prems size by (simp add: unat_add_small)
  show ?case
  proof (cases "bf < req \<and> index + off < HeapIndexEnd s")
    case False
    then have "bf = req \<or> (\<forall>j. \<not> pool_gap s (unat req) j)"
      using no_gap_behind [OF size(2,3) less.prems(6,2), of "unat bf"] less.prems(5)
      by (auto simp: word_less_nat_alt word_le_nat_alt io word_unat_eq_iff)
    then show ?thesis using False less.prems by (subst MemPoolCreate_scan.simps) auto
  next
    case True
    then have lt: "unat index + 16 * unat bf + 1 < unat (TotalHeapSize s)"
      using size by (auto simp: word_less_nat_alt io)
    have "(unat index + 16 * unat bf) mod 16 = 0" using less.prems(2) by simp
    with lt size have lt16: "unat index + 16 * unat bf + 16 \<le> unat (TotalHeapSize s)" by presburger
    have len: "unat (TotalHeapPools s) \<le> length (PoolTable s)" using assms(1) by (simp add: mem_wf_def)
    show ?thesis
    proof (rule IPoolIdFromIndex_cases [OF len, of "index + off"])
      assume a: "IPoolIdFromIndex (index + off) s = Some ID_INVALID" "index_free s (unat (index + off))"
      have b: "unat (bf + 1) = unat bf + 1" "unat (off + MEM_BLOCK_SIZE) = 16 * unat (bf + 1)"
        using lt16 size less.prems by (simp_all add: unat_add_small MEM_BLOCK_SIZE_def)
      have "MemPoolCreate_scan req bf index off s = MemPoolCreate_scan req (bf + 1) index (off + MEM_BLOCK_SIZE) s"
        using True a by (subst MemPoolCreate_scan.simps) simp
      moreover have "bf + 1 \<le> req" using True by (metis inc_le)
      moreover have "\<forall>c < unat (bf + 1). index_free s (unat index + 16 * c)"
        using less.prems(4) a(2) b(1) io by (auto simp: less_Suc_eq)
      moreover have "unat (TotalHeapSize s) - (unat index + 16 * unat (bf + 1)) <
          unat (TotalHeapSize s) - (unat index + 16 * unat bf)"
        using lt16 b(1) by (intro diff_less_mono2) simp_all
      moreover have "unat index + 16 * unat (bf + 1) \<le> unat (TotalHeapSize s)" using lt16 b(1) by simp
      ultimately show ?thesis
        using less.hyps [of index "bf + 1" "off + MEM_BLOCK_SIZE"] less.prems(2,6) b(2) by simp
    next
      fix pid
      assume a: "IPoolIdFromIndex (index + off) s = Some pid" "pid \<noteq> ID_INVALID" "pool_used s (unat pid)"
        "start_index (PoolTable s ! unat pid) \<le> index + off" "index + off \<le> end_index (PoolTable s ! unat pid)"
      let ?e = "end_index (PoolTable s ! unat pid)"
      have ok: "pool_ok s pid (B (unat pid))" by (rule mem_wf_pool [OF assms(1) a(3)])
      have e: "unat ?e + 1 \<le> unat (TotalHeapSize s)" using ok by (simp add: pool_ok_def Let_def)
      have e1: "unat (?e + 1) = unat ?e + 1" using e size by (simp add: unat_add_small)
      have ge: "unat index + 16 * unat bf \<le> unat ?e" using a(5) by (simp add: word_le_nat_alt io)
      have "MemPoolCreate_scan req bf index off s = MemPoolCreate_scan req 0 (?e + 1) 0 s"
        using True a len by (subst MemPoolCreate_scan.simps) (simp add: Pool_at_def)
      moreover have "(unat ?e + 1) mod 16 = 0" using assms(2) a(3) by (auto simp: pools_aligned_def)
      moreover have "unat (TotalHeapSize s) - unat (?e + 1) < unat (TotalHeapSize s) - (unat index + 16 * unat bf)"
        using e e1 ge lt by (intro diff_less_mono2) simp_all
      moreover have "\<forall>j < unat (?e + 1). \<not> pool_gap s (unat req) j"
        using no_gap_skipped [OF a(3) _ _ less.prems(6,2), of "unat bf"] a(4,5) True e1
        by (simp add: word_le_nat_alt word_less_nat_alt io less_Suc_eq_le)
      ultimately show ?thesis
        using less.hyps [of "?e + 1" 0 0] e e1 by simp
    qed
  qed
qed


lemma MemPoolCreate_search_ok:
  assumes "unat (TotalHeapPools s) \<le> length (PoolTable s)" and "i < unat (TotalHeapPools s)"
    and "\<not> pool_used s i" and "\<forall>j < i. pool_used s j" and "j \<le> i"
  shows "MemPoolCreate_search (word_of_nat j) s = Some (word_of_nat i)"
  using assms(5)
proof (induction "i - j" arbitrary: j)
  case 0
  have "unat (word_of_nat i :: Id_t) = i" by (rule unat_pool [OF assms(2)])
  with 0 show ?case
    using assms by (subst MemPoolCreate_search.simps) (simp add: Pool_at_def)
next
  case (Suc n)
  then have "j < i" by simp
  have u: "unat (word_of_nat j :: Id_t) = j"
    using \<open>j < i\<close> assms(2) by (intro unat_pool [of _ "TotalHeapPools s"]) simp
  have "MemPoolCreate_search (word_of_nat j) s = MemPoolCreate_search (word_of_nat (Suc j)) s"
    using assms(1,2,4) \<open>j < i\<close> u
    by (subst MemPoolCreate_search.simps) (auto simp: Pool_at_def word_less_nat_alt add.commute)
  also have "\<dots> = Some (word_of_nat i)" using Suc by (intro Suc.hyps(1)) auto
  finally show ?case .
qed

text \<open>The new pool table entry, and the state after a pool of \<open>size\<close> bytes has been placed at \<open>index\<close>.\<close>

definition pool_created :: "Id_t \<Rightarrow> U32_t \<Rightarrow> U32_t \<Rightarrow> 'a mem_state_scheme \<Rightarrow> 'a mem_state_scheme" where
  "pool_created pid psize index s = Pool_update pid (\<lambda>p. p\<lparr>end_index := index + psize - 1,
     start_index := index, mem_left := psize, pool_size := psize, pmb_N := 0\<rparr>) s"

lemma blocks_of_multiple:
  assumes "unat psize mod 16 = 0"
  shows "unat (MEM_BYTES_TO_BLOCKS psize) = unat psize div 16"
  using assms by (simp add: MEM_BYTES_TO_BLOCKS_def MEM_BLOCK_SIZE_def unat_div unat_mod word_unat_eq_iff)

lemma MemPoolCreate_eq:
  assumes wf: "mem_wf s B" and al: "pools_aligned s" and crit: "crit_ok s"
    and i: "i < unat (TotalHeapPools s)" "\<not> pool_used s i" "\<forall>j < i. pool_used s j"
    and ps: "psize \<noteq> 0" "psize \<le> TotalHeapSize s" "unat psize mod 16 = 0"
  shows "(MemPoolCreate psize s = Some (ID_INVALID, s) \<and> (\<forall>k. \<not> pool_gap s (unat psize div 16) k)) \<or>
    (\<exists>index. MemPoolCreate psize s = Some (word_of_nat i, pool_created (word_of_nat i) psize index s)
       \<and> pool_gap s (unat psize div 16) (unat index) \<and> (\<forall>k < unat index. \<not> pool_gap s (unat psize div 16) k))"
proof -
  let ?req = "MEM_BYTES_TO_BLOCKS psize"
  have req: "unat ?req = unat psize div 16" by (rule blocks_of_multiple [OF ps(3)])
  have wf': "mem_wf (crit_enter s) B"
    using wf by (simp add: mem_wf_def)
  have al': "pools_aligned (crit_enter s)" using al by (simp add: pools_aligned_def)
  have free: "index_free (crit_enter s) = index_free s" by (simp add: index_free_def fun_eq_iff)
  then have gap: "pool_gap (crit_enter s) = pool_gap s" by (simp add: pool_gap_def fun_eq_iff)
  obtain bf index off where scan: "MemPoolCreate_scan ?req 0 0 0 (crit_enter s) = Some (bf, index, off)"
    and in_heap: "unat index + 16 * unat bf \<le> unat (TotalHeapSize s)" and ia: "unat index mod 16 = 0"
    and off: "unat off = 16 * unat bf" and fr: "\<forall>b < unat bf. index_free s (unat index + 16 * b)" and le: "bf \<le> ?req"
    and first: "\<forall>k < unat index. \<not> pool_gap s (unat ?req) k" "bf = ?req \<or> (\<forall>k. \<not> pool_gap s (unat ?req) k)"
    using MemPoolCreate_scan_total [OF wf' al', of 0 0 0 ?req] by (auto simp: free gap)
  have lt: "word_of_nat i < TotalHeapPools s"
    using i(1) by (simp add: word_less_nat_alt unat_pool [OF i(1)])
  have search: "MemPoolCreate_search 0 (crit_enter s) = Some (word_of_nat i)"
    using MemPoolCreate_search_ok [of "crit_enter s" i 0] i wf by (simp add: mem_wf_def)
  have unfold: "MemPoolCreate psize s =
      (if bf \<ge> ?req then Some (word_of_nat i, Pool_update (word_of_nat i) (\<lambda>p. p\<lparr>end_index := index + off - 1,
                     start_index := index, mem_left := psize, pool_size := psize, pmb_N := 0\<rparr>) s)
       else Some (ID_INVALID, s))"
    using ps(1,2) crit scan lt
    by (auto simp: MemPoolCreate_def kcore search Let_def)
  show ?thesis
  proof (cases "bf \<ge> ?req")
    case True
    with le have "bf = ?req" by simp
    moreover have "16 dvd unat psize" using ps(3) by (simp add: mod_eq_0_iff_dvd)
    ultimately have bf: "16 * unat bf = unat psize" using req by simp
    then have "off = psize" using off by (simp add: word_unat_eq_iff)
    moreover have "unat bf = unat psize div 16" using bf by simp
    ultimately show ?thesis
      using unfold True in_heap bf ia fr first(1) req by (auto simp: pool_created_def pool_gap_def intro!: exI [of _ index])
  next
    case False
    then have "\<forall>k. \<not> pool_gap s (unat ?req) k" using first(2) by auto
    then show ?thesis using unfold False req by simp
  qed
qed


text \<open>When every entry of the table is used, the search reads the entry behind the last one the kernel knows of.\<close>

lemma MemPoolCreate_search_full:
  assumes "unat (TotalHeapPools s) \<le> length (PoolTable s)" and "\<forall>j < unat (TotalHeapPools s). pool_used s j" and "j \<le> unat (TotalHeapPools s)"
  shows "MemPoolCreate_search (word_of_nat j) s = (if length (PoolTable s) = unat (TotalHeapPools s) then None else Some (TotalHeapPools s))"
  using assms(3)
proof (induction "unat (TotalHeapPools s) - j" arbitrary: j)
  case 0
  then have "j = unat (TotalHeapPools s)" by simp
  then have "word_of_nat j = TotalHeapPools s" by simp
  then show ?case using assms(1) by (subst MemPoolCreate_search.simps) (simp add: Pool_at_def)
next
  case (Suc n)
  then have "j < unat (TotalHeapPools s)" by simp
  then have u: "unat (word_of_nat j :: Id_t) = j" by (rule unat_pool)
  have "MemPoolCreate_search (word_of_nat j) s = MemPoolCreate_search (word_of_nat (Suc j)) s"
    using assms(1,2) \<open>j < unat (TotalHeapPools s)\<close> u
    by (subst MemPoolCreate_search.simps) (auto simp: Pool_at_def word_less_nat_alt add.commute)
  also have "\<dots> = (if length (PoolTable s) = unat (TotalHeapPools s) then None else Some (TotalHeapPools s))"
    using Suc by (intro Suc.hyps(1)) auto
  finally show ?case .
qed

lemma MemPoolCreate_full:
  assumes "mem_wf s B" and "crit_ok s" and "\<forall>j < unat (TotalHeapPools s). pool_used s j" and "psize \<noteq> 0" "psize \<le> TotalHeapSize s"
  shows "MemPoolCreate psize s = (if length (PoolTable s) = unat (TotalHeapPools s) then None else Some (ID_INVALID, s))"
  using MemPoolCreate_search_full [of "crit_enter s" 0] assms by (auto simp: mem_wf_def MemPoolCreate_def kcore)

lemma multiple_16_gap:
  assumes "(a :: nat) mod 16 = 0" and "b mod 16 = 0" and "a < b"
  shows "a + 16 \<le> b"
proof -
  obtain i j where "a = 16 * i" "b = 16 * j" using assms(1,2) by (auto simp: mod_eq_0_iff_dvd elim!: dvdE)
  then show ?thesis using assms(3) by simp
qed

lemma index_free_block:
  assumes al: "pools_aligned s" and u: "pool_used s i" and a: "unat j mod 16 = 0" and f: "index_free s (unat j)"
  shows "unat j + 16 \<le> unat (start_index (PoolTable s ! i)) \<or> unat (end_index (PoolTable s ! i)) < unat j"
proof -
  have "unat (start_index (PoolTable s ! i)) mod 16 = 0" using al u by (simp add: pools_aligned_def)
  moreover have "unat j < unat (start_index (PoolTable s ! i)) \<or> unat (end_index (PoolTable s ! i)) < unat j"
    using f u by (simp add: index_free_def)
  ultimately show ?thesis using a multiple_16_gap [of "unat j" "unat (start_index (PoolTable s ! i))"] by auto
qed

text \<open>Consecutive free blocks lie on one side of every used pool.\<close>

lemma free_blocks_disjoint:
  assumes al: "pools_aligned s" and u: "pool_used s i" and a: "(k :: nat) mod 16 = 0"
    and f: "\<forall>b < n. index_free s (k + 16 * b)" and se: "start_index (PoolTable s ! i) \<le> end_index (PoolTable s ! i)"
  shows "k + 16 * n \<le> unat (start_index (PoolTable s ! i)) \<or> unat (end_index (PoolTable s ! i)) < k \<or> n = 0"
  using f
proof (induction n)
  case (Suc n)
  let ?s = "unat (start_index (PoolTable s ! i))" and ?e = "unat (end_index (PoolTable s ! i))"
  have m: "?s mod 16 = 0" "(?e + 1) mod 16 = 0" using al u by (simp_all add: pools_aligned_def)
  have se': "?s \<le> ?e" using se by (simp add: word_le_nat_alt)
  have last: "k + 16 * n < ?s \<or> ?e < k + 16 * n" using Suc.prems u by (auto simp: index_free_def)
  have gap: "k + 16 * n < ?s \<Longrightarrow> k + 16 * Suc n \<le> ?s"
    using multiple_16_gap [of "k + 16 * n" ?s] a m(1) by simp
  show ?case
  proof (cases "n = 0")
    case True
    then show ?thesis using last gap by auto
  next
    case False
    then have "k + 16 * n \<le> ?s \<or> ?e < k" using Suc by auto
    then show ?thesis using last gap se' by linarith
  qed
qed simp

text \<open>The heap outside the used pools is zero.\<close>

definition unused_zero :: "'a mem_state_scheme \<Rightarrow> bool" where
  "unused_zero s \<longleftrightarrow> (\<forall>j < unat (TotalHeapSize s). index_free s j \<longrightarrow> OsHeap s j = 0)"

lemma MemPoolCreate_wf:
  assumes wf: "mem_wf s B" and al: "pools_aligned s" and crit: "crit_ok s" and z: "unused_zero s" and base: "HeapBase s > 0"
    and i: "i < unat (TotalHeapPools s)" "\<not> pool_used s i" "\<forall>j < i. pool_used s j"
    and ps: "psize \<noteq> 0" "psize \<le> TotalHeapSize s" "unat psize mod 16 = 0"
  shows "(MemPoolCreate psize s = Some (ID_INVALID, s) \<and> (\<forall>k. \<not> pool_gap s (unat psize div 16) k)) \<or>
    (\<exists>index t. MemPoolCreate psize s = Some (word_of_nat i, t) \<and> t = pool_created (word_of_nat i) psize index s
       \<and> pool_gap s (unat psize div 16) (unat index) \<and> (\<forall>k < unat index. \<not> pool_gap s (unat psize div 16) k)
       \<and> mem_wf t (B(i := replicate (unat psize div 16) Free)) \<and> pools_aligned t \<and> unused_zero t
       \<and> (\<forall>j. pool_used t j \<longleftrightarrow> j = i \<or> pool_used s j))"
proof (cases "MemPoolCreate psize s = Some (ID_INVALID, s) \<and> (\<forall>k. \<not> pool_gap s (unat psize div 16) k)")
  case False
  let ?pid = "word_of_nat i :: Id_t" and ?n = "unat psize div 16"
  obtain index where r: "MemPoolCreate psize s = Some (?pid, pool_created ?pid psize index s)"
    and gap: "pool_gap s ?n (unat index)" "\<forall>k < unat index. \<not> pool_gap s ?n k"
    using MemPoolCreate_eq [OF wf al crit i ps] False by blast
  have "16 * ?n = unat psize" using ps(3) by (simp add: mod_eq_0_iff_dvd)
  then have in_heap: "unat index + unat psize \<le> unat (TotalHeapSize s)" and ia: "unat index mod 16 = 0"
    and fr: "\<forall>b < ?n. index_free s (unat index + 16 * b)"
    using gap(1) by (auto simp: pool_gap_def)
  let ?t = "pool_created ?pid psize index s"
  have up: "unat ?pid = i" by (rule unat_pool [OF i(1)])
  have len: "i < length (PoolTable s)" using wf i(1) by (simp add: mem_wf_def)
  have size: "unat (TotalHeapSize s) < 2 ^ 31" "unat (TotalHeapSize s) mod 16 = 0"
    using al by (simp_all add: pools_aligned_def)
  have n: "16 * ?n = unat psize" "0 < unat psize"
    using ps by (simp_all add: mod_eq_0_iff_dvd word_unat_eq_iff)
  have e: "unat (index + psize - 1) + 1 = unat index + unat psize"
  proof -
    have "unat (index + psize) = unat index + unat psize" using in_heap size by (simp add: unat_add_small)
    moreover from this n have "index + psize \<noteq> 0" by (metis add_is_0 less_irrefl unat_0)
    ultimately show ?thesis using n by (simp add: unat_minus_one)
  qed
  have tab: "PoolTable ?t ! j = (if j = i then (PoolTable s ! i)\<lparr>end_index := index + psize - 1,
      start_index := index, mem_left := psize, pool_size := psize, pmb_N := 0\<rparr> else PoolTable s ! j)" for j
    using len by (simp add: pool_created_def Pool_update_def up)
  have frame [simp]: "TotalHeapPools ?t = TotalHeapPools s" "TotalHeapSize ?t = TotalHeapSize s"
    "HeapBase ?t = HeapBase s" "OsHeap ?t = OsHeap s" "HeapIndexEnd ?t = HeapIndexEnd s"
    "length (PoolTable ?t) = length (PoolTable s)"
    by (simp_all add: pool_created_def Pool_update_def)
  have used: "pool_used ?t j \<longleftrightarrow> j = i \<or> pool_used s j" for j
    using i(1) ps(1) by (auto simp: tab word_gt_0)
  have okj: "pool_ok s (word_of_nat j) (B j)" if "pool_used s j" for j using wf that by (simp add: mem_wf_def)
  have sides: "unat index + unat psize \<le> unat (start_index (PoolTable s ! j)) \<or> unat (end_index (PoolTable s ! j)) < unat index"
    if u: "pool_used s j" for j
  proof -
    have "j < unat (TotalHeapPools s)" using u by simp
    then have "start_index (PoolTable s ! j) \<le> end_index (PoolTable s ! j)"
      using okj [OF u] by (simp add: pool_ok_def Let_def unat_pool)
    then show ?thesis using free_blocks_disjoint [OF al u ia fr] n by auto
  qed
  have new: "pool_ok ?t ?pid (replicate ?n Free)"
  proof -
    have "OsHeap s (unat index + j) = 0" if "j < unat psize" for j
    proof -
      have "index_free s (unat index + j)"
        unfolding index_free_def
      proof (intro allI impI)
        fix m assume "pool_used s m"
        then show "unat index + j < unat (start_index (PoolTable s ! m)) \<or> unat (end_index (PoolTable s ! m)) < unat index + j"
          using sides [of m] that by linarith
      qed
      then show ?thesis using z in_heap that by (simp add: unused_zero_def)
    qed
    then have "layout (OsHeap s) (unat index) (replicate ?n Free)" by (simp add: layout_frees n)
    moreover have "?pid < TotalHeapPools s" using i(1) by (simp add: word_less_nat_alt up)
    moreover have "index \<le> index + psize - 1" using e n by (simp add: word_le_nat_alt)
    ultimately show ?thesis
      using e n in_heap size base len ps(1) by (simp add: pool_ok_def Let_def tab up word_gt_0)
  qed
  have old: "pool_ok ?t (word_of_nat j) (B j)" if "pool_used s j" "j \<noteq> i" for j
    using okj [OF that(1)]
  proof (rule pool_ok_frame)
    have "j < unat (TotalHeapPools s)" using that by simp
    then show "PoolTable ?t ! unat (word_of_nat j :: Id_t) = PoolTable s ! unat (word_of_nat j :: Id_t)"
      using that(2) unat_pool [of j "TotalHeapPools s"] by (simp add: tab)
  qed simp_all
  have "mem_wf ?t (B(i := replicate ?n Free))"
    unfolding mem_wf_def
  proof (intro conjI allI impI)
    show "unat (TotalHeapPools ?t) \<le> length (PoolTable ?t)" using wf by (simp add: mem_wf_def)
    fix j assume "pool_used ?t j"
    then show "pool_ok ?t (word_of_nat j) ((B(i := replicate ?n Free)) j)"
      using new old used [of j] by auto
  next
    fix j k assume a: "pool_used ?t j \<and> pool_used ?t k \<and> j \<noteq> k"
    then have "j = i \<or> pool_used s j" "k = i \<or> pool_used s k" using used by blast+
    then show "end_index (PoolTable ?t ! j) < start_index (PoolTable ?t ! k) \<or>
        end_index (PoolTable ?t ! k) < start_index (PoolTable ?t ! j)"
      using a sides [of j] sides [of k] e wf unfolding tab mem_wf_def
      by (auto simp: word_less_nat_alt)
  qed
  moreover have "pools_aligned ?t"
    unfolding pools_aligned_def
  proof (intro conjI allI impI)
    fix j assume "pool_used ?t j"
    then show "unat (start_index (PoolTable ?t ! j)) mod 16 = 0" "(unat (end_index (PoolTable ?t ! j)) + 1) mod 16 = 0"
      using al used [of j] ia e ps(3) by (auto simp: tab pools_aligned_def mod_add_eq [symmetric])
  qed (use al in \<open>simp_all add: pools_aligned_def\<close>)
  moreover have "unused_zero ?t"
    unfolding unused_zero_def
  proof (intro allI impI)
    fix j assume j: "j < unat (TotalHeapSize ?t)" and f: "index_free ?t j"
    have "index_free s j"
      unfolding index_free_def
    proof (intro allI impI)
      fix m assume m: "pool_used s m"
      then have "m \<noteq> i" using i(2) by auto
      with m f used [of m] show "j < unat (start_index (PoolTable s ! m)) \<or> unat (end_index (PoolTable s ! m)) < j"
        unfolding index_free_def tab by auto
    qed
    then show "OsHeap ?t j = 0" using z j by (simp add: unused_zero_def)
  qed
  ultimately show ?thesis using r used gap by blast
qed blast


subsection \<open>The initial heap\<close>

lemma MemPoolCreate_scan_empty:
  assumes len: "unat (TotalHeapPools s) \<le> length (PoolTable s)" and no: "\<And>i. \<not> pool_used s i"
    and size: "unat (HeapIndexEnd s) + 1 = unat (TotalHeapSize s)" "unat (TotalHeapSize s) < 2 ^ 31"
      "16 * unat req \<le> unat (TotalHeapSize s)"
    and "bf \<le> req" and "unat off = 16 * unat bf"
  shows "\<exists>off'. MemPoolCreate_scan req bf 0 off s = Some (req, 0, off') \<and> unat off' = 16 * unat req"
  using assms(6,7)
proof (induction "unat req - unat bf" arbitrary: bf off)
  case 0
  then have "bf = req" by (simp add: word_le_nat_alt word_unat_eq_iff)
  then show ?case using 0 by (subst MemPoolCreate_scan.simps) simp
next
  case (Suc n)
  then have lt: "unat bf < unat req" by simp
  have b: "unat (bf + 1) = unat bf + 1" "unat (off + MEM_BLOCK_SIZE) = 16 * (unat bf + 1)"
    using lt size Suc.prems by (simp_all add: unat_add_small MEM_BLOCK_SIZE_def)
  have "IPoolIdFromIndex off s = Some ID_INVALID"
    using IPoolIdFromIndex_cases [OF len, of off] no by metis
  moreover have "bf < req" "off < HeapIndexEnd s"
    using lt size Suc.prems by (simp_all add: word_less_nat_alt)
  ultimately have "MemPoolCreate_scan req bf 0 off s = MemPoolCreate_scan req (bf + 1) 0 (off + MEM_BLOCK_SIZE) s"
    by (subst MemPoolCreate_scan.simps) simp
  moreover have "bf + 1 \<le> req" using lt b by (simp add: word_le_nat_alt)
  ultimately show ?case using Suc.hyps(1) [of "bf + 1" "off + MEM_BLOCK_SIZE"] Suc.hyps(2) b by simp
qed

lemma MemPoolCreate_empty:
  assumes "mem_wf s B" and "pools_aligned s" and "crit_ok s" and no: "\<And>i. \<not> pool_used s i"
    and "TotalHeapPools s > 0" and ps: "psize \<noteq> 0" "psize \<le> TotalHeapSize s" "unat psize mod 16 = 0"
  shows "\<exists>t. MemPoolCreate psize s = Some (0, t)"
proof -
  let ?c = "crit_enter s"
  have len: "unat (TotalHeapPools ?c) \<le> length (PoolTable ?c)" using assms(1) by (simp add: mem_wf_def)
  have size: "unat (HeapIndexEnd ?c) + 1 = unat (TotalHeapSize ?c)" "unat (TotalHeapSize ?c) < 2 ^ 31"
    using assms(2) by (simp_all add: pools_aligned_def)
  have pos: "0 < unat (TotalHeapPools s)" using assms(5) by (simp add: word_less_nat_alt)
  have req: "16 * unat (MEM_BYTES_TO_BLOCKS psize) \<le> unat (TotalHeapSize ?c)"
    using ps(2,3) by (simp add: blocks_of_multiple word_le_nat_alt)
  have "MemPoolCreate_search (word_of_nat 0) ?c = Some (word_of_nat 0)"
    using len pos no by (intro MemPoolCreate_search_ok) auto
  moreover obtain off where "MemPoolCreate_scan (MEM_BYTES_TO_BLOCKS psize) 0 0 0 ?c = Some (MEM_BYTES_TO_BLOCKS psize, 0, off)"
    using MemPoolCreate_scan_empty [OF len _ size req, of 0 0] no by auto
  ultimately show ?thesis
    using ps(1,2) assms(3,5) by (auto simp: MemPoolCreate_def kcore Let_def)
qed

text \<open>The state in which \<open>KMemInit\<close> creates the object pool: the table and the heap are cleared.\<close>

definition mem_cleared :: "ptr \<Rightarrow> U32_t \<Rightarrow> Pmb_t list \<Rightarrow> 'a mem_state_scheme \<Rightarrow> 'a mem_state_scheme" where
  "mem_cleared heap heap_size table s = s\<lparr>HeapBase := heap, TotalHeapPools := 2, TotalHeapSize := heap_size, HeapIndexEnd := heap_size - 1,
     PoolTable := map (\<lambda>p. p\<lparr>start_index := 0, end_index := 0, pool_size := 0, mem_left := 0\<rparr>) table, OsHeap := heap_zero (OsHeap s) 0 (unat heap_size)\<rparr>"

lemma mem_cleared_ok:
  assumes "crit_ok s" and "heap \<noteq> NULL" and table: "length table = MEM_NUM_POOLS"
    and hs: "unat heap_size mod 16 = 0" "unat heap_size < 2 ^ 31" "0 < heap_size"
  defines "c \<equiv> mem_cleared heap heap_size table s"
  shows "mem_wf c B" "pools_aligned c" "unused_zero c" "crit_ok c" "\<not> pool_used c i" "TotalHeapSize c = heap_size" "0 < TotalHeapPools c" "0 < HeapBase c"
proof -
  have no: "\<not> pool_used c i" for i
    using table by (cases "i = 0"; cases "i = 1") (simp_all add: c_def mem_cleared_def MEM_NUM_POOLS_def)
  show "\<not> pool_used c i" by (rule no)
  have "unat (TotalHeapPools c) \<le> length (PoolTable c)" using table by (simp add: c_def mem_cleared_def MEM_NUM_POOLS_def)
  then show "mem_wf c B" unfolding mem_wf_def using no by blast
  have "unat (heap_size - 1) + 1 = unat heap_size" using hs(3) by (subst unat_minus_one) (auto simp: word_less_nat_alt)
  then have "unat (HeapIndexEnd c) + 1 = unat (TotalHeapSize c)" by (simp add: c_def mem_cleared_def)
  moreover show size: "TotalHeapSize c = heap_size" "0 < TotalHeapPools c" "0 < HeapBase c"
    using assms(2) by (simp_all add: c_def mem_cleared_def word_gt_0)
  ultimately show "pools_aligned c" unfolding pools_aligned_def using no hs by metis
  show "unused_zero c" by (simp add: unused_zero_def c_def mem_cleared_def heap_zero_def)
  show "crit_ok c" using assms(1) by (simp add: c_def mem_cleared_def crit_ok_def)
qed

lemma object_pool_id_irrelevant:
  "mem_wf (t\<lparr>ObjectPoolId := n\<rparr>) B = mem_wf t B" "pools_aligned (t\<lparr>ObjectPoolId := n\<rparr>) = pools_aligned t"
  "unused_zero (t\<lparr>ObjectPoolId := n\<rparr>) = unused_zero t" "pool_used (t\<lparr>ObjectPoolId := n\<rparr>) j = pool_used t j"
  by (simp_all add: mem_wf_def pool_ok_def pools_aligned_def unused_zero_def index_free_def)

text \<open>
  Memory initialisation over a heap of whole blocks leaves one used pool, the object pool with ID 0; it
  consists of free blocks only and takes all the heap but the user part. The heap is well formed.
\<close>

lemma KMemInit_object_pool:
  assumes crit: "crit_ok s" and heap: "heap \<noteq> NULL" and table: "length table = MEM_NUM_POOLS"
    and hs: "unat heap_size mod 16 = 0" "unat heap_size < 2 ^ 31"
    and us: "user_heap_size < heap_size" "unat user_heap_size mod 16 = 0"
  shows "\<exists>t. KMemInit heap heap_size user_heap_size (Some table) s = Some (OS_RES_OK, t) \<and> ObjectPoolId t = 0
     \<and> mem_wf t (\<lambda>_. replicate ((unat heap_size - unat user_heap_size) div 16) Free)
     \<and> pools_aligned t \<and> unused_zero t \<and> pool_used t 0 \<and> \<not> pool_used t 1"
proof -
  let ?ps = "heap_size - user_heap_size" and ?c = "mem_cleared heap heap_size table s"
  let ?B = "\<lambda>_ :: nat. replicate (unat ?ps div 16) Free"
  have ps: "unat ?ps = unat heap_size - unat user_heap_size" "?ps \<noteq> 0" "?ps \<le> heap_size" "0 < heap_size"
    using us(1) by (auto simp: unat_sub word_less_nat_alt word_le_nat_alt)
  have psm: "unat ?ps mod 16 = 0" using ps(1) hs(1) us by (simp add: mod_eq_0_iff_dvd word_less_nat_alt)
  note c = mem_cleared_ok [OF crit heap table hs ps(4)]
  obtain t0 where t0: "MemPoolCreate ?ps ?c = Some (0, t0)"
    using MemPoolCreate_empty [OF c(1,2,4,5,7) ps(2)] ps(3) psm c(6) by auto
  have "0 < unat (TotalHeapPools ?c)" "\<forall>j < 0. pool_used ?c j" "?ps \<le> TotalHeapSize ?c"
    using c(6,7) ps by (simp_all add: word_less_nat_alt)
  note R = MemPoolCreate_wf [OF c(1,2,4,3,8) this(1) c(5) this(2) ps(2) this(3) psm]
  have nn: "MemPoolCreate ?ps ?c \<noteq> Some (ID_INVALID, ?c)" using t0 by (simp add: ID_INVALID_def)
  from R [of ?B] obtain t
    where t: "MemPoolCreate ?ps ?c = Some (word_of_nat 0, t)" "mem_wf t (?B(0 := replicate (unat ?ps div 16) Free))" "pools_aligned t"
      "unused_zero t" "\<forall>j. pool_used t j \<longleftrightarrow> j = 0 \<or> pool_used ?c j"
    using nn by (elim disjE exE conjE) (erule (1) notE, rule that)
  have used: "pool_used t 0" "\<not> pool_used t 1" using t(5) [THEN spec, of 0] t(5) [THEN spec, of 1] c(5) [of 1] by simp_all
  have "heap_size \<noteq> 0" using ps(4) by auto
  then have "KMemInit heap heap_size user_heap_size (Some table) s = Some (OS_RES_OK, t\<lparr>ObjectPoolId := 0\<rparr>)"
    using t(1) heap table unfolding mem_cleared_def
    by (simp add: KMemInit_def MEM_NUM_POOLS_def Heap_clear_def Let_def ID_INVALID_def)
  moreover have "?B(0 := replicate (unat ?ps div 16) Free) = ?B" by (simp add: fun_eq_iff)
  then have "mem_wf t ?B" using t(2) by (simp only:)
  ultimately show ?thesis
    unfolding ps(1) [symmetric] using t(3,4) used by (intro exI [of _ "t\<lparr>ObjectPoolId := 0\<rparr>"]) (simp add: object_pool_id_irrelevant)
qed

definition mem_bss :: mem_state where
  "mem_bss = \<lparr>KernelReg = KernelReg core_bss, GlobalIntEnabled = True, env_d2u = env_d2u core_bss,
     IdPools = [], HeapBase = NULL, OsHeap = (\<lambda>_. 0xAA), PoolTable = [], TotalHeapPools = 0,
     TotalHeapSize = 0, HeapIndexEnd = 0, ObjectPoolId = 0\<rparr>"

lemma KMemInit_object_pool_witness:
  "\<exists>t. KMemInit 0x20000000 0x3C00 0x400 (Some (replicate 2 \<lparr>start_index = 7, end_index = 7, pool_size = 7, mem_left = 7, pmb_N = 0\<rparr>)) mem_bss
     = Some (OS_RES_OK, t) \<and> ObjectPoolId t = 0 \<and> mem_wf t (\<lambda>_. replicate 896 Free)"
proof -
  have "crit_ok mem_bss" by (simp add: crit_ok_def mem_bss_def core_bss_def)
  from KMemInit_object_pool [OF this, where heap = "0x20000000" and heap_size = "0x3C00" and user_heap_size = "0x400"
      and table = "replicate 2 \<lparr>start_index = 7, end_index = 7, pool_size = 7, mem_left = 7, pmb_N = 0\<rparr>"]
  show ?thesis by (auto simp: MEM_NUM_POOLS_def)
qed

text \<open>
  C27. What \<open>MemPoolCreate\<close> does for a size of whole blocks, in a well-formed heap. A size of 0 or above that of the heap is refused.
  When every entry of the pool table is used, the call reads the entry behind the table, and refuses only when the table happens to
  be longer. Otherwise it takes the first unused entry, and it succeeds exactly when there is a gap between the pools that is large
  enough: the new pool is put into the first one and consists of free blocks only. No pools overlap, all are aligned to blocks,
  the heap outside the pools stays zero, and no other pool is touched.
\<close>

theorem MemPoolCreate_keeps_wf:
  assumes "mem_wf s B" and "pools_aligned s" and "crit_ok s" and "unused_zero s" and "HeapBase s > 0" and "unat psize mod 16 = 0"
  shows "(if psize = 0 \<or> psize > TotalHeapSize s then MemPoolCreate psize s = Some (ID_INVALID, s)
     else if \<forall>j < unat (TotalHeapPools s). pool_used s j
     then MemPoolCreate psize s = (if length (PoolTable s) = unat (TotalHeapPools s) then None else Some (ID_INVALID, s))
     else \<exists>i < unat (TotalHeapPools s). \<not> pool_used s i \<and> (\<forall>j < i. pool_used s j) \<and>
       (if \<exists>k. pool_gap s (unat psize div 16) k
        then \<exists>index t. pool_gap s (unat psize div 16) (unat index) \<and> (\<forall>k < unat index. \<not> pool_gap s (unat psize div 16) k) \<and>
          MemPoolCreate psize s = Some (word_of_nat i, t) \<and> t = pool_created (word_of_nat i) psize index s \<and>
          mem_wf t (B(i := replicate (unat psize div 16) Free)) \<and> pools_aligned t \<and> unused_zero t \<and>
          (\<forall>j. pool_used t j \<longleftrightarrow> j = i \<or> pool_used s j)
        else MemPoolCreate psize s = Some (ID_INVALID, s)))"
proof (cases "psize = 0 \<or> psize > TotalHeapSize s")
  case False
  then have ps: "psize \<noteq> 0" "psize \<le> TotalHeapSize s" by auto
  show ?thesis
  proof (cases "\<forall>j < unat (TotalHeapPools s). pool_used s j")
    case True
    then show ?thesis using MemPoolCreate_full [OF assms(1,3) True ps] False by simp
  next
    case nf: False
    let ?P = "\<lambda>i. i < unat (TotalHeapPools s) \<and> \<not> pool_used s i"
    have "\<exists>i. ?P i" using nf by blast
    then have "\<exists>i. ?P i \<and> (\<forall>j < i. \<not> ?P j)" unfolding exists_least_iff [of ?P] .
    then obtain i where i: "i < unat (TotalHeapPools s)" "\<not> pool_used s i" and l: "\<forall>j < i. \<not> ?P j" by blast
    have less: "\<forall>j < i. pool_used s j" using l less_trans [OF _ i(1)] by blast
    note W = MemPoolCreate_wf [OF assms(1-5) i less ps assms(6)]
    show ?thesis
      unfolding if_not_P [OF False] if_not_P [OF nf]
    proof (intro exI [of _ i] conjI i less)
      show "if \<exists>k. pool_gap s (unat psize div 16) k
        then \<exists>index t. pool_gap s (unat psize div 16) (unat index) \<and> (\<forall>k < unat index. \<not> pool_gap s (unat psize div 16) k) \<and>
          MemPoolCreate psize s = Some (word_of_nat i, t) \<and> t = pool_created (word_of_nat i) psize index s \<and>
          mem_wf t (B(i := replicate (unat psize div 16) Free)) \<and> pools_aligned t \<and> unused_zero t \<and>
          (\<forall>j. pool_used t j \<longleftrightarrow> j = i \<or> pool_used s j)
        else MemPoolCreate psize s = Some (ID_INVALID, s)"
      proof (cases "\<exists>k. pool_gap s (unat psize div 16) k")
        case True
        with W show ?thesis unfolding if_P [OF True] by blast
      next
        case none: False
        with W show ?thesis unfolding if_not_P [OF none] by blast
      qed
    qed
  qed
qed (auto simp: MemPoolCreate_def)

text \<open>A small heap of 64 bytes with a used object pool of one block, for the witnesses below.\<close>

definition small_heap :: mem_state where
  "small_heap = mem_bss\<lparr>HeapBase := 0x1000, OsHeap := (\<lambda>_. 0), TotalHeapPools := 2, TotalHeapSize := 64,
     HeapIndexEnd := 63, PoolTable := [\<lparr>start_index = 0, end_index = 15, pool_size = 16, mem_left = 16, pmb_N = 0\<rparr>,
       \<lparr>start_index = 0, end_index = 0, pool_size = 0, mem_left = 0, pmb_N = 0\<rparr>]\<rparr>"

lemma small_heap_simps [simp]:
  "HeapBase small_heap = 0x1000" "OsHeap small_heap = (\<lambda>_. 0)" "TotalHeapPools small_heap = 2"
  "TotalHeapSize small_heap = 64" "HeapIndexEnd small_heap = 63" "length (PoolTable small_heap) = 2"
  "PoolTable small_heap ! 0 = \<lparr>start_index = 0, end_index = 15, pool_size = 16, mem_left = 16, pmb_N = 0\<rparr>"
  "PoolTable small_heap ! Suc 0 = \<lparr>start_index = 0, end_index = 0, pool_size = 0, mem_left = 0, pmb_N = 0\<rparr>"
  by (simp_all add: small_heap_def)

lemma small_heap_used: "pool_used small_heap i \<longleftrightarrow> i = 0"
  by (cases "i = 0"; cases "i = 1") simp_all

lemma small_pool_ok: "pool_ok small_heap 0 [Free]"
  by (simp add: pool_ok_def Let_def)

lemma small_heap_wf: "mem_wf small_heap (\<lambda>_. [Free])"
  unfolding mem_wf_def small_heap_used using small_pool_ok by auto

lemma small_heap_ok: "pools_aligned small_heap" "crit_ok small_heap" "unused_zero small_heap" "HeapBase small_heap > 0"
proof -
  show "pools_aligned small_heap" unfolding pools_aligned_def small_heap_used by simp
  show "crit_ok small_heap" by (simp add: small_heap_def crit_ok_def mem_bss_def core_bss_def)
qed (simp_all add: unused_zero_def)

theorem MemPoolCreate_keeps_wf_witness:
  "\<exists>t. MemPoolCreate 32 small_heap = Some (1, t) \<and> mem_wf t ((\<lambda>_. [Free])(1 := replicate 2 Free))"
proof -
  have c: "\<not> ((32 :: U32_t) = 0 \<or> 32 > TotalHeapSize small_heap)" by simp
  have "\<not> pool_used small_heap 1" unfolding small_heap_used by simp
  moreover have "1 < unat (TotalHeapPools small_heap)" by simp
  ultimately have u: "\<not> (\<forall>j < unat (TotalHeapPools small_heap). pool_used small_heap j)" by blast
  have "pool_gap small_heap 2 16" unfolding pool_gap_def index_free_def small_heap_used by simp
  then have g: "\<exists>k. pool_gap small_heap (unat (32 :: U32_t) div 16) k" by auto
  have m: "unat (32 :: U32_t) mod 16 = 0" by simp
  obtain i t where i: "i < unat (TotalHeapPools small_heap)" "\<not> pool_used small_heap i" "MemPoolCreate 32 small_heap = Some (word_of_nat i, t)"
    "mem_wf t ((\<lambda>_. [Free])(i := replicate (unat (32 :: U32_t) div 16) Free))"
    using MemPoolCreate_keeps_wf [OF small_heap_wf small_heap_ok m] unfolding if_not_P [OF c] if_not_P [OF u] if_P [OF g] by blast
  then have "i = 1" using small_heap_used [of i] by simp
  with i(3,4) show ?thesis by auto
qed

text \<open>
  C25. First fit: on a well-formed pool with access granted, an allocation of \<open>n\<close> bytes takes the first run
  of enough free blocks and returns the address behind the size word, or returns null and changes nothing
  when there is no such run.
\<close>

theorem MemAlloc_first_fit:
  assumes "pool_ok s pid xs" and "crit_ok s" and "mem_access s pid" and "n \<noteq> 0"
  shows "(\<exists>as. fits (blocks_for (unat n)) as xs
       \<and> (\<forall>as'. fits (blocks_for (unat n)) as' xs \<longrightarrow> length as \<le> length as')
       \<and> MemAlloc pid n s = Some (HeapBase s + (pool_start s pid + segs_len as + 4),
           alloc_state pid (pool_start s pid + segs_len as) (blocks_for (unat n)) s))
     \<or> ((\<forall>as. \<not> fits (blocks_for (unat n)) as xs) \<and> MemAlloc pid n s = Some (NULL, s))"
  by (rule MemAlloc_eq [OF assms])

lemma small_access: "mem_access (small_heap\<lparr>ObjectPoolId := 1\<rparr>) 0"
  by (simp add: mem_access_def)

theorem MemAlloc_first_fit_witness:
  "MemAlloc 0 13 (small_heap\<lparr>ObjectPoolId := 1\<rparr>) = Some (NULL, small_heap\<lparr>ObjectPoolId := 1\<rparr>)"
proof -
  have ok: "pool_ok (small_heap\<lparr>ObjectPoolId := 1\<rparr>) 0 [Free]"
    using small_pool_ok by (simp add: pool_ok_def)
  have crit: "crit_ok (small_heap\<lparr>ObjectPoolId := 1\<rparr>)" using small_heap_ok(2) by (simp add: crit_ok_def)
  have "\<not> fits (blocks_for 13) as [Free]" for as
  proof
    assume "fits (blocks_for 13) as [Free]"
    then obtain bs where "[Free] = as @ replicate 2 Free @ bs" by (auto simp: fits_def blocks_for_def)
    then have "length [Free] = length as + 2 + length bs" by (metis length_append length_replicate add.assoc)
    then show False by simp
  qed
  with MemAlloc_first_fit [OF ok crit small_access, of 13] show ?thesis by auto
qed

text \<open>
  C26. Freeing what was just allocated gives back the state before the allocation, byte for byte, with the
  free-space and allocation counters.
\<close>

theorem MemAlloc_MemFree_roundtrip:
  assumes "pool_inv pid s" and "MemAlloc pid n s = Some (p, t)" and "p \<noteq> NULL"
  shows "MemFree (Some p) t = Some ((OS_RES_OK, Some NULL), s)"
proof -
  obtain B where wf: "mem_wf s B" and u: "pool_used s (unat pid)" and crit: "crit_ok s" and acc: "mem_access s pid"
    using assms(1) by (auto simp: pool_inv_def)
  have ok: "pool_ok s pid (B (unat pid))" by (rule mem_wf_pool [OF wf u])
  have len: "unat pid < length (PoolTable s)" using ok by (simp add: pool_ok_def Let_def)
  have "n \<noteq> 0" using assms(2,3) by (auto simp: MemAlloc_def)
  let ?n = "blocks_for (unat n)"
  obtain as bs where B: "B (unat pid) = as @ replicate ?n Free @ bs"
    and p: "p = HeapBase s + (pool_start s pid + segs_len as + 4)" and t: "t = alloc_state pid (pool_start s pid + segs_len as) ?n s"
    using MemAlloc_eq [OF ok crit acc \<open>n \<noteq> 0\<close>] assms(2,3) by (auto simp: fits_def)
  have wf': "mem_wf t (B(unat pid := as @ Used ?n # bs))"
    unfolding t by (rule mem_wf_alloc [OF wf u B blocks_for_pos(1)])
  have "MemFree (Some (HeapBase t + (pool_start t pid + segs_len as + 4))) t =
     Some ((OS_RES_OK, Some NULL), free_state pid (pool_start t pid + segs_len as) ?n t)"
    using u crit acc len pool_inv_id [OF assms(1)] by (intro MemFree_eq [OF wf' _ _ _ _]) (auto simp: t)
  moreover have "free_state pid (pool_start s pid + segs_len as) ?n t = s"
    unfolding t using ok by (intro free_alloc_state [of s pid as ?n bs]) (simp_all add: B blocks_for_pos(1))
  ultimately show ?thesis using len by (simp add: t p)
qed

lemma small_pool_inv: "pool_inv 0 (small_heap\<lparr>ObjectPoolId := 1\<rparr>)"
proof -
  have "mem_wf (small_heap\<lparr>ObjectPoolId := 1\<rparr>) (\<lambda>_. [Free])"
    using small_heap_wf by (simp add: mem_wf_def pool_ok_def)
  then show ?thesis
    using small_heap_ok(2) small_access small_heap_used [of 0] by (auto simp: pool_inv_def crit_ok_def)
qed

theorem MemAlloc_MemFree_roundtrip_witness:
  "\<exists>p t. MemAlloc 0 12 (small_heap\<lparr>ObjectPoolId := 1\<rparr>) = Some (p, t) \<and> p \<noteq> NULL
     \<and> MemFree (Some p) t = Some ((OS_RES_OK, Some NULL), small_heap\<lparr>ObjectPoolId := 1\<rparr>)"
proof -
  have ok: "pool_ok (small_heap\<lparr>ObjectPoolId := 1\<rparr>) 0 [Free]"
    using small_pool_ok by (simp add: pool_ok_def)
  have crit: "crit_ok (small_heap\<lparr>ObjectPoolId := 1\<rparr>)" using small_heap_ok(2) by (simp add: crit_ok_def)
  have "fits (blocks_for 12) [] [Free]" by (simp add: fits_def blocks_for_def)
  with MemAlloc_eq [OF ok crit small_access, of 12]
  obtain p t where "MemAlloc 0 12 (small_heap\<lparr>ObjectPoolId := 1\<rparr>) = Some (p, t)" "p \<noteq> NULL" by auto
  with MemAlloc_MemFree_roundtrip [OF small_pool_inv] show ?thesis by blast
qed

text \<open>
  Whatever sequence of allocations and releases a client makes in a pool, every call returns, the blocks it
  holds are pairwise disjoint and are exactly the live ones: no address is handed out twice.
\<close>

lemma MemAlloc_runs_disjoint:
  assumes "pool_inv pid s" and "pool_live pid s = {}"
  shows "\<exists>held t. alloc_run (MemAlloc pid) MemRelease ops [] s = Some (held, t)
     \<and> blocks_disjoint (pool_live pid t) \<and> fst ` pool_live pid t = set held \<and> distinct held"
  using pool.run_disjoint [OF assms(1), of "[]" ops] assms(2) by (auto simp: blocks_disjoint_def)

lemma MemAlloc_runs_disjoint_witness:
  "\<exists>held t. alloc_run (MemAlloc 0) MemRelease [AAlloc 4, AAlloc 4, ARelease 0, AAlloc 8] [] (small_heap\<lparr>ObjectPoolId := 1\<rparr>) = Some (held, t)
     \<and> blocks_disjoint (pool_live 0 t) \<and> distinct held"
proof -
  have "pool_ok (small_heap\<lparr>ObjectPoolId := 1\<rparr>) 0 [Free]" using small_pool_ok by (simp add: pool_ok_def)
  then have "pool_live 0 (small_heap\<lparr>ObjectPoolId := 1\<rparr>) = {}" by (simp add: pool_live_eq)
  from MemAlloc_runs_disjoint [OF small_pool_inv this, of "[AAlloc 4, AAlloc 4, ARelease 0, AAlloc 8]"]
  show ?thesis by blast
qed

end
