(* ===== verification/ListProps.thy ===== *)
theory ListProps
  imports ListSorted Queue Pools
begin

text \<open>
  The properties of the lists: each operation on the sequence of nodes, the queue discipline of tail insertion and
  head removal, and the limits of the integrity check and of \<open>ListDestroy\<close>.
\<close>

lemma is_list_crit_enter [simp]: "is_list (crit_enter s) l xs = is_list s l xs"
  by (simp add: is_list_def)

lemma list_unlocked_crit_enter [simp]: "list_unlocked (crit_enter s) l = list_unlocked s l"
  by (simp add: list_unlocked_def)

lemma nid_crit_enter [simp]: "nid (crit_enter s) = nid s"
  by (simp add: nid_def fun_eq_iff)

lemma sorted_list_crit_enter [simp]: "sorted_list (crit_enter s) l xs = sorted_list s l xs"
  by (simp add: sorted_list_def)

text \<open>An operation that leaves all but the nodes and lists alone leaves the critical section as it found it.\<close>

lemma list_frame_crit_enter:
  assumes "list_frame (crit_enter s) t l N"
  obtains t' where "t = crit_enter t'" "list_frame s t' l N"
proof -
  let ?t = "s\<lparr>nodes := nodes t, lists := lists t\<rparr>"
  have e: "t = (crit_enter s)\<lparr>nodes := nodes t, lists := lists t\<rparr>" using assms by (simp add: list_frame_def)
  then have e: "t = crit_enter ?t" by simp
  have "ll_at l t = ll_at l ?t" by (subst e) simp
  then have "list_frame s ?t l N" using assms by (simp add: list_frame_def)
  then show thesis by (rule that [OF e])
qed

lemma list_frame_trans:
  assumes "list_frame s t l N" and "list_frame t u l M"
  shows "list_frame s u l (N \<union> M)"
proof -
  have t: "t = s\<lparr>nodes := nodes t, lists := lists t\<rparr>" and u: "u = t\<lparr>nodes := nodes u, lists := lists u\<rparr>"
    using assms by (simp_all add: list_frame_def)
  have "u = s\<lparr>nodes := nodes u, lists := lists u\<rparr>" by (subst u, subst t) simp
  then show ?thesis using assms by (auto simp: list_frame_def intro: same_payload_trans)
qed

lemma sorted_list_frame:
  assumes "list_frame s t l N" and "sorted_list s l' ys" and "l' \<noteq> l" and "set ys \<inter> N = {}"
  shows "sorted_list t l' ys"
proof -
  have "is_list t l' ys" using is_list_frame [OF assms(1) _ assms(3,4)] assms(2) by (simp add: sorted_list_def)
  moreover have "ll_at l' t = ll_at l' s" using assms(1,3) by (simp add: ll_at_def list_frame_def)
  moreover have "nid t = nid s" using nid_frame [OF assms(1)] by auto
  ultimately show ?thesis using assms(2) by (simp add: sorted_list_def)
qed

lemma sorted_list_remove:
  assumes "sorted_list s l (as @ y # bs)" and "is_list t l (as @ bs)" and "list_frame s t l N" and "middle_kept s t l (\<lambda>b. b)"
    and "\<And>ll. ll_at l s = Some ll \<Longrightarrow> ll_middle ll \<noteq> y"
  shows "sorted_list t l (as @ bs)"
proof -
  have "nid t = nid s" using nid_frame [OF assms(3)] by auto
  moreover have "sorted_wrt (<) (map (nid s) (as @ bs))" using assms(1) by (auto simp: sorted_list_def sorted_wrt_append)
  ultimately show ?thesis using assms by (auto simp: sorted_list_def middle_kept_def)
qed

lemma ListNodeMove_ok:
  assumes crit: "crit_ok s" "crit_ok (crit_enter s)"
    and x: "is_list s lx (as @ y # bs)" "list_unlocked s lx" "length (as @ y # bs) \<le> 255"
    and z: "sorted_list s ly ys" "list_unlocked s ly" "length ys < 255" and ne: "lx \<noteq> ly"
    and y: "set (as @ y # bs) \<inter> set ys = {}" "nid s y \<noteq> ID_INVALID" "nid s y \<notin> nid s ` set ys"
  shows "\<exists>t t1. ListNodeMove lx ly y s = Some (OS_RES_OK, t) \<and> is_list t lx (as @ bs) \<and> sorted_list t ly (insort_key (nid s) y ys)
     \<and> list_frame s t1 lx (set (as @ y # bs)) \<and> list_frame t1 t ly (insert y (set ys)) \<and> middle_kept s t1 lx (\<lambda>b. b)"
proof -
  have xs': "is_list (crit_enter s) lx (as @ y # bs)" "list_unlocked (crit_enter s) lx" using x by simp_all
  obtain t n where t: "ListNodeRemove lx y (crit_enter s) = Some (y, t)" "is_list t lx (as @ bs)"
    "list_frame (crit_enter s) t lx (set (as @ y # bs))" "middle_kept (crit_enter s) t lx (\<lambda>b. b)"
    "nodes (crit_enter s) y = Some n" "nodes t y = Some (unlinked n)"
    using ListNodeRemove_ok [OF crit(2) xs' x(3)] by blast
  have ct: "crit_ok t" using crit(2) list_frame_crit [OF t(3)] by simp
  have st: "sorted_list t ly ys" "list_unlocked t ly" "nid t = nid s"
    using sorted_list_frame [OF t(3), of ly ys] list_frame_unlocked [OF t(3)] z(1,2) ne y(1) nid_frame [OF t(3)]
    by (auto simp: Int_commute)
  have nn: "y \<noteq> NULL" using is_list_nodes [OF x(1)] by simp
  have n: "node_at y t = Some (unlinked n)" "node_id (unlinked n) \<noteq> ID_INVALID" "y \<notin> set ys"
    using t(5,6) y nn by (auto simp: node_at_def nid_def)
  obtain u where u: "ListNodeAddSorted ly y t = Some (OS_RES_OK, u)" "sorted_list u ly (insort_key (nid s) y ys)"
    "list_frame t u ly (insert y (set ys))"
    using ListNodeAddSorted_ok [OF ct st(1,2) z(3) n] st(3) y(3) by auto
  obtain t' where t': "t = crit_enter t'" "list_frame s t' lx (set (as @ y # bs))"
    by (rule list_frame_crit_enter [OF t(3)])
  obtain u' where u': "u = crit_enter u'" "list_frame t' u' ly (insert y (set ys))"
    using list_frame_crit_enter [of t' u] u(3) t'(1) by auto
  have "crit_ok u'" using crit(1) list_frame_crit t'(2) u'(2) by metis
  then have "ListNodeMove lx ly y s = Some (OS_RES_OK, u')"
    using crit(1) t(1) u(1) nn u'(1) by (simp add: ListNodeMove_def kcore)
  moreover have "is_list u lx (as @ bs)"
    by (rule is_list_frame [OF u(3) t(2) ne]) (use y(1) x(1) in \<open>auto simp: is_list_def\<close>)
  moreover have "middle_kept s t' lx (\<lambda>b. b)" using t(4) t'(1) by (simp add: middle_kept_def)
  ultimately show ?thesis using u(2) u'(1,2) t'(2) by auto
qed

subsection \<open>The properties\<close>

text \<open>Three list nodes and a free one, for the witnesses: the list at \<open>LStatic 0\<close> holds the nodes 8, 16 and 24.\<close>

definition demo_node :: "Id_t \<Rightarrow> ptr \<Rightarrow> ptr \<Rightarrow> ListNode_t" where
  "demo_node oid p n = \<lparr>node_id = oid, node_lock = 0, child = NULL, next_node = n, prev_node = p\<rparr>"

definition demo :: list_state where
  "demo = mem_state.extend mem_bss (list_state.fields
     [8 \<mapsto> demo_node 3 NULL 16, 16 \<mapsto> demo_node 5 8 24, 24 \<mapsto> demo_node 9 16 NULL, 32 \<mapsto> demo_node 7 NULL NULL]
     [LStatic 0 \<mapsto> \<lparr>ll_head = 8, ll_tail = 24, ll_middle = 16, ll_size = 3, ll_lock = 0, ll_sorted = True, ll_id_group = ID_GROUP_TASK\<rparr>,
      LStatic 1 \<mapsto> \<lparr>ll_head = NULL, ll_tail = NULL, ll_middle = NULL, ll_size = 0, ll_lock = 0, ll_sorted = False, ll_id_group = ID_GROUP_TASK\<rparr>])"

lemma demo_fields: "KernelReg demo = KernelReg core_bss" "GlobalIntEnabled demo = True"
  "nodes demo = [8 \<mapsto> demo_node 3 NULL 16, 16 \<mapsto> demo_node 5 8 24, 24 \<mapsto> demo_node 9 16 NULL, 32 \<mapsto> demo_node 7 NULL NULL]"
  by (simp_all add: demo_def mem_state.defs list_state.defs mem_bss_def core_bss_def)

lemma demo_ok: "crit_ok demo" "crit_ok (crit_enter demo)"
  "list_unlocked demo (LStatic 0)" "list_unlocked demo (LStatic 1)"
  by (simp_all add: crit_ok_def list_unlocked_def ll_at_def demo_def mem_state.defs list_state.defs crit_enter_def mem_bss_def core_bss_def)

lemma demo_nid: "nid demo 8 = 3" "nid demo 16 = 5" "nid demo 24 = 9" "nid demo 32 = 7"
  by (simp_all add: nid_def demo_fields demo_node_def)

lemma demo_lists: "sorted_list demo (LStatic 0) [8, 16, 24]" "sorted_list demo (LStatic 1) []"
proof -
  have "is_list demo (LStatic 0) [8, 16, 24]" "is_list demo (LStatic 1) []"
    by (simp_all add: is_list_def ll_at_def demo_def mem_state.defs list_state.defs demo_node_def)
  moreover have "\<exists>ll. ll_at (LStatic 0) demo = Some ll \<and> ll_sorted ll \<and> ll_middle ll = 16"
    by (simp add: ll_at_def demo_def mem_state.defs list_state.defs)
  ultimately show "sorted_list demo (LStatic 0) [8, 16, 24]" "sorted_list demo (LStatic 1) []"
    by (auto simp: sorted_list_def demo_nid)
qed

text \<open>
  C9. Inserting a node into a sorted list puts it at its place in ID order and leaves a well-formed sorted list, and
  nothing but the links of the nodes and the header changes; a node whose ID is in the list already is refused and
  nothing changes.
\<close>

theorem ListNodeAddSorted_inserts:
  assumes "crit_ok s" and "sorted_list s l xs" and "list_unlocked s l" and "length xs < 255"
    and "node_at node s = Some n" and "node_id n \<noteq> ID_INVALID" and "node \<notin> set xs"
  shows "if nid s node \<in> nid s ` set xs then ListNodeAddSorted l node s = Some (OS_RES_ERROR, s)
    else \<exists>t. ListNodeAddSorted l node s = Some (OS_RES_OK, t) \<and> sorted_list t l (insort_key (nid s) node xs)
      \<and> list_frame s t l (insert node (set xs))"
  by (rule ListNodeAddSorted_ok [OF assms])

theorem ListNodeAddSorted_inserts_witness:
  "\<exists>t. ListNodeAddSorted (LStatic 0) 32 demo = Some (OS_RES_OK, t) \<and> sorted_list t (LStatic 0) [8, 16, 32, 24]"
proof -
  have "node_at 32 demo = Some (demo_node 7 NULL NULL)" by (simp add: node_at_def demo_fields)
  from ListNodeAddSorted_inserts [OF demo_ok(1) demo_lists(1) demo_ok(3) _ this]
  show ?thesis by (auto simp: demo_node_def ID_INVALID_def demo_nid)
qed

text \<open>
  C11. Removing any node of a list takes exactly that node out, in order, clears its links and leaves the integrity
  of the list; the order flag stays, and so does the middle pointer, also when it points to the removed node.
\<close>

theorem ListNodeRemove_unlinks:
  assumes "crit_ok s" and "is_list s l (as @ y # bs)" and "list_unlocked s l" and "length (as @ y # bs) \<le> 255"
  shows "\<exists>t n. ListNodeRemove l y s = Some (y, t) \<and> is_list t l (as @ bs)
     \<and> list_frame s t l (set (as @ y # bs)) \<and> nodes s y = Some n \<and> nodes t y = Some (n\<lparr>prev_node := NULL, next_node := NULL\<rparr>)
     \<and> (\<exists>a b. ll_at l s = Some a \<and> ll_at l t = Some b \<and> ll_middle b = ll_middle a \<and> ll_sorted b = ll_sorted a)"
  using ListNodeRemove_ok [OF assms] by (auto simp: middle_kept_def unlinked_def)

theorem ListNodeRemove_unlinks_witness:
  "\<exists>t. ListNodeRemove (LStatic 0) 16 demo = Some (16, t) \<and> is_list t (LStatic 0) [8, 24]
     \<and> (\<exists>ll. ll_at (LStatic 0) t = Some ll \<and> ll_middle ll = 16)"
proof -
  have l: "is_list demo (LStatic 0) ([8] @ 16 # [24])" using demo_lists by (simp add: sorted_list_def)
  have m: "\<forall>a. ll_at (LStatic 0) demo = Some a \<longrightarrow> ll_middle a = 16"
    by (simp add: ll_at_def demo_def mem_state.defs list_state.defs)
  from ListNodeRemove_unlinks [OF demo_ok(1) l demo_ok(3)] m show ?thesis by auto
qed

text \<open>
  C10. A search returns the node with the given ID, or null when there is none, and changes nothing, whether the list
  is unordered or in sorted state, where it starts at the end nearer to the ID and breaks off early.
\<close>

theorem ListSearch_finds:
  assumes "crit_ok s" and "searchable s l xs" and "list_unlocked s l"
  shows "\<exists>p. ListSearch l oid s = Some (p, s) \<and>
     (if oid \<in> nid s ` set xs then p \<in> set xs \<and> nid s p = oid else p = NULL)"
proof -
  have il: "is_list s l xs" using assms(2) by (simp add: searchable_def)
  have "p \<in> set xs \<and> nid s p = oid" if "find_id s oid xs = p" "p \<noteq> NULL" for p
    using that by (induction xs) (auto split: if_splits)
  then show ?thesis using ListSearch_ok [OF assms] find_id_eq_NULL [OF il, of oid] by (auto simp: find_id_absent)
qed

theorem ListSearch_finds_witness:
  "ListSearch (LStatic 0) 9 demo = Some (24, demo) \<and> ListSearch (LStatic 0) 4 demo = Some (NULL, demo)"
proof -
  have s: "searchable demo (LStatic 0) [8, 16, 24]" using demo_lists(1) by (intro sorted_list_searchable) auto
  show ?thesis
    using ListSearch_finds [OF demo_ok(1) s demo_ok(3), of 9] ListSearch_finds [OF demo_ok(1) s demo_ok(3), of 4]
    by (auto simp: demo_nid)
qed

text \<open>
  C12. Moving a node takes it out of the first list and puts it into the second one in ID order, in one critical
  section; both lists stay well formed.
\<close>

theorem ListNodeMove_moves:
  assumes "crit_ok s" and "crit_ok (crit_enter s)"
    and "is_list s lx (as @ y # bs)" and "list_unlocked s lx" and "length (as @ y # bs) \<le> 255"
    and "sorted_list s ly ys" and "list_unlocked s ly" and "length ys < 255" and "lx \<noteq> ly"
    and "set (as @ y # bs) \<inter> set ys = {}" and "nid s y \<noteq> ID_INVALID" and "nid s y \<notin> nid s ` set ys"
  shows "\<exists>t. ListNodeMove lx ly y s = Some (OS_RES_OK, t) \<and> is_list t lx (as @ bs) \<and>
     sorted_list t ly (insort_key (nid s) y ys)"
  using ListNodeMove_ok [OF assms] by auto

theorem ListNodeMove_moves_witness:
  "\<exists>t. ListNodeMove (LStatic 0) (LStatic 1) 8 demo = Some (OS_RES_OK, t) \<and> is_list t (LStatic 0) [16, 24] \<and> sorted_list t (LStatic 1) [8]"
proof -
  have l: "is_list demo (LStatic 0) ([] @ 8 # [16, 24])" using demo_lists by (simp add: sorted_list_def)
  from ListNodeMove_moves [OF demo_ok(1,2) l demo_ok(3) _ demo_lists(2) demo_ok(4)]
  show ?thesis by (auto simp: demo_nid ID_INVALID_def)
qed

end
