(* ===== verification/ListFifo.thy ===== *)
theory ListFifo
  imports ListProps
begin

text \<open>
  Lists as first-in first-out queues, and the limits of the list module: the byte counter of the integrity check and
  the removal loop of \<open>ListDestroy\<close>.
\<close>

subsection \<open>A list as a queue\<close>

definition list_enq :: "lptr \<Rightarrow> ptr \<Rightarrow> 'a list_state_scheme \<Rightarrow> 'a list_state_scheme option" where
  "list_enq l node s = do {
     (r, s) \<leftarrow> ListNodeAddAtPosition l node LIST_POSITION_TAIL s;
     if r = OS_RES_OK then Some s else None
   }"

text \<open>The list holds the nodes \<open>q\<close>, all of them from the set \<open>N\<close> of nodes that exist and have an ID.\<close>

definition list_queue :: "lptr \<Rightarrow> ptr set \<Rightarrow> 'a list_state_scheme \<Rightarrow> ptr list \<Rightarrow> bool" where
  "list_queue l N s q \<longleftrightarrow> crit_ok s \<and> is_list s l q \<and> list_unlocked s l \<and> length q \<le> 255 \<and> set q \<subseteq> N \<and>
     (\<forall>v\<in>N. v \<noteq> NULL \<and> nodes s v \<noteq> None \<and> nid s v \<noteq> ID_INVALID)"

definition list_fit :: "ptr set \<Rightarrow> ptr list \<Rightarrow> ptr \<Rightarrow> bool" where
  "list_fit N q v \<longleftrightarrow> v \<in> N \<and> v \<notin> set q \<and> length q < 255"

lemma list_queue_frame:
  assumes "list_queue l N s q" and "list_frame s t l M" and "is_list t l q'" and "length q' \<le> 255" and "set q' \<subseteq> N"
  shows "list_queue l N t q'"
proof -
  have "nodes t v \<noteq> None" if "v \<in> N" for v
  proof -
    have "nodes s v \<noteq> None" using assms(1) that by (auto simp: list_queue_def)
    then obtain n where "nodes s v = Some n" by blast
    moreover have "same_payload (nodes s) (nodes t)" using assms(2) by (simp add: list_frame_def)
    ultimately show ?thesis by (auto elim: same_payload_fields)
  qed
  then show ?thesis
    using assms nid_frame [OF assms(2)] list_frame_crit [OF assms(2)] list_frame_unlocked [OF assms(2)]
    by (auto simp: list_queue_def)
qed

interpretation node_queue: fifo_queue "list_enq l" "ListNodeRemoveFromHead l" "list_queue l N" "list_fit N" for l N
proof
  fix s :: "'a list_state_scheme" and q v
  assume s: "list_queue l N s q" and v: "list_fit N q v"
  then obtain n where n: "node_at v s = Some n" "node_id n \<noteq> ID_INVALID" "v \<notin> set q"
    by (auto simp: list_queue_def list_fit_def node_at_def nid_def)
  obtain t where t: "ListNodeAddAtPosition l v LIST_POSITION_TAIL s = Some (OS_RES_OK, t)"
     "is_list t l (q @ [v])" "list_frame s t l (insert v (set q))"
    using AddAtPosition_tail [of s l q v n] n s v unfolding list_queue_def list_fit_def by blast
  have "list_queue l N t (q @ [v])"
    by (rule list_queue_frame [OF s t(3,2)]) (use s v in \<open>auto simp: list_queue_def list_fit_def\<close>)
  then show "\<exists>t. list_enq l v s = Some t \<and> list_queue l N t (q @ [v])" using t(1) by (simp add: list_enq_def)
next
  fix s :: "'a list_state_scheme" and q v
  assume s: "list_queue l N s (v # q)"
  then have l: "crit_ok s" "is_list s l ([] @ v # q)" "list_unlocked s l" "length ([] @ v # q) \<le> 255" by (auto simp: list_queue_def)
  obtain t where t: "ListNodeRemove l v s = Some (v, t)" "is_list t l q" "list_frame s t l (set (v # q))"
    using ListNodeRemove_ok [OF l] by auto
  obtain ll where "ll_at l s = Some ll" "ll_head ll = v" using l(2) by (auto simp: is_list_def)
  moreover have "list_queue l N t q"
    by (rule list_queue_frame [OF s t(3,2)]) (use s in \<open>auto simp: list_queue_def\<close>)
  ultimately show "\<exists>t. ListNodeRemoveFromHead l s = Some (v, t) \<and> list_queue l N t q"
    using t(1) by (simp add: ListNodeRemoveFromHead_def)
qed

text \<open>
  C6. Appending at the tail and removing at the head is a queue: any sequence of both that the abstract queue
  allows succeeds, and the nodes come out in the order in which they went in.
\<close>

theorem list_fifo:
  assumes "list_queue l N s q" and "qrun (list_fit N) ops q = Some (out, q')"
  shows "\<exists>t. srun (list_enq l) (ListNodeRemoveFromHead l) ops s = Some (out, t) \<and> list_queue l N t q'
     \<and> out @ q' = q @ put ops"
  using node_queue.run_refines [OF assms] qrun_order [OF assms(2)] by blast

theorem list_fifo_witness:
  "\<exists>t. srun (list_enq (LStatic 1)) (ListNodeRemoveFromHead (LStatic 1)) [Enq 32, Enq 8, Deq, Enq 32, Deq] demo = Some ([32, 8], t)"
proof -
  have "list_queue (LStatic 1) {8, 32} demo []"
    using demo_lists(2) demo_ok by (auto simp: list_queue_def sorted_list_def demo_nid ID_INVALID_def demo_fields)
  from list_fifo [OF this, of "[Enq 32, Enq 8, Deq, Enq 32, Deq]"] show ?thesis by (auto simp: list_fit_def)
qed

subsection \<open>The integrity check counts in a byte\<close>

lemma nav_next_long:
  assumes "dseg (nodes s) p xs NULL" and "k < length xs" and "unat lsz = length xs" and "256 \<le> length xs"
  shows "ListIntegrityVerify_nav ListNodePeekNext i lsz (xs ! k) s = Some False"
  using assms(2)
proof (induction "length xs - k" arbitrary: k i)
  case (Suc m)
  have "unat i < 256" using unsigned_less [of i] by simp
  then have c: "(ucast i :: U16_t) < lsz" using assms(3,4) by (simp add: word_less_nat_alt unat_ucast_8_16)
  obtain nd where nd: "node_at (xs ! k) s = Some nd" "next_node nd = (if Suc k < length xs then xs ! Suc k else NULL)" "xs ! k \<noteq> NULL"
    using dseg_nth [OF assms(1) Suc.prems] by (auto simp: node_at_def)
  show ?case
  proof (cases "Suc k < length xs")
    case True
    then have "xs ! Suc k \<noteq> NULL" using dseg_nth [OF assms(1) True] by auto
    moreover have "ListIntegrityVerify_nav ListNodePeekNext (i + 1) lsz (xs ! Suc k) s = Some False"
      using Suc.hyps(2) True by (intro Suc.hyps(1)) auto
    ultimately show ?thesis using c nd True by (subst ListIntegrityVerify_nav.simps) (simp add: ListNodePeekNext_def)
  next
    case False
    then show ?thesis using c nd by (subst ListIntegrityVerify_nav.simps) (simp add: ListNodePeekNext_def)
  qed
qed simp

lemma nav_prev_long:
  assumes "dseg (nodes s) NULL xs n" and "k < length xs" and "unat lsz = length xs" and "256 \<le> length xs"
  shows "ListIntegrityVerify_nav ListNodePeekPrev i lsz (xs ! k) s = Some False"
  using assms(2)
proof (induction k arbitrary: i)
  case 0
  have "unat i < 256" using unsigned_less [of i] by simp
  then have c: "(ucast i :: U16_t) < lsz" using assms(3,4) by (simp add: word_less_nat_alt unat_ucast_8_16)
  obtain nd where "node_at (xs ! 0) s = Some nd" "prev_node nd = NULL" "xs ! 0 \<noteq> NULL"
    using dseg_nth [OF assms(1) 0] by (auto simp: node_at_def)
  then show ?case using c by (subst ListIntegrityVerify_nav.simps) (simp add: ListNodePeekPrev_def)
next
  case (Suc k)
  have "unat i < 256" using unsigned_less [of i] by simp
  then have c: "(ucast i :: U16_t) < lsz" using assms(3,4) by (simp add: word_less_nat_alt unat_ucast_8_16)
  obtain nd where nd: "node_at (xs ! Suc k) s = Some nd" "prev_node nd = xs ! k" "xs ! Suc k \<noteq> NULL"
    using dseg_nth [OF assms(1) Suc.prems] by (auto simp: node_at_def)
  have "xs ! k \<noteq> NULL" using dseg_nth [OF assms(1), of k] Suc.prems by auto
  moreover have "ListIntegrityVerify_nav ListNodePeekPrev (i + 1) lsz (xs ! k) s = Some False"
    using Suc by simp
  ultimately show ?case using c nd by (subst ListIntegrityVerify_nav.simps) (simp add: ListNodePeekPrev_def)
qed

text \<open>
  C28. The integrity check accepts every well-formed list of up to 255 nodes and leaves it as it was. A well-formed
  list of 256 nodes or more it reports as broken in both directions, and it leaves the list read-locked, so that no
  later call can change it.
\<close>

theorem ListIntegrityVerify_bound:
  assumes crit: "crit_ok s" and xs: "is_list s l xs" "list_unlocked s l" "xs \<noteq> []"
  shows "if length xs \<le> 255 then ListIntegrityVerify l s = Some (LIST_INTEGRITY_RESULT_LIST_INTACT, s)
    else \<exists>t ll. ListIntegrityVerify l s = Some (LIST_INTEGRITY_RESULT_CORRUPT_NAV_BOTH, t)
      \<and> ll_at l t = Some ll \<and> ll_lock ll = 1"
proof (cases "length xs \<le> 255")
  case True
  then show ?thesis using ListIntegrityVerify_ok [OF crit xs(1,2)] xs(3) by simp
next
  case False
  then have long: "256 \<le> length xs" by simp
  obtain ll where ll: "ll_at l s = Some ll" "ll_head ll = first_or xs NULL" "ll_tail ll = last_or NULL xs"
    "unat (ll_size ll) = length xs" "ll_lock ll = 0" and d: "dseg (nodes s) NULL xs NULL"
    using xs(1,2) by (auto simp: is_list_def list_unlocked_def)
  note L = ll_at_SomeD [OF ll(1)]
  let ?t = "s\<lparr>lists := (lists s)(l \<mapsto> ll\<lparr>ll_lock := 1\<rparr>)\<rparr>"
  let ?n = "length xs - 1"
  have lock: "ListIsLocked l s = Some False" "ListLock l LIST_LOCK_MODE_READ s = Some (OS_RES_OK, ?t)"
    using crit ll L by (simp_all add: ListIsLocked_def ListLock_eq)
  have size: "ListSizeGet l ?t = Some (ll_size ll, ?t)"
    using crit L by (subst ListSizeGet_eq [where ll = "ll\<lparr>ll_lock := 1\<rparr>"]) auto
  have n: "?n < length xs" "0 < length xs" "1 < length xs" "?n - 1 < length xs" "?n \<noteq> 0" using long by auto
  have ends: "last_or NULL xs = xs ! ?n" "first_or xs NULL = xs ! 0"
    using xs(3) by (simp_all add: last_or_def first_or_def last_conv_nth hd_conv_nth)
  obtain h where h: "node_at (xs ! 0) s = Some h" "prev_node h = NULL" "next_node h \<noteq> NULL" "xs ! 0 \<noteq> NULL"
    using dseg_nth [OF d n(2)] dseg_nth [OF d n(3)] n(3) by (auto simp: node_at_def)
  obtain e where e: "node_at (xs ! ?n) s = Some e" "next_node e = NULL" "prev_node e \<noteq> NULL"
    using dseg_nth [OF d n(1)] dseg_nth [OF d n(4)] n(5) Suc_pred' [OF n(2)] by (auto simp: node_at_def)
  have sz: "ll_size ll \<noteq> 0" using ll(4) n(2) by auto
  have d': "dseg (nodes ?t) NULL xs NULL" using d by simp
  note nav = nav_next_long [OF d' n(2) ll(4) long, of 1] nav_prev_long [OF d' n(1) ll(4) long, of 1]
  have peek: "ListNodePeek l LIST_POSITION_HEAD ?t = Some (xs ! 0)" "ListNodePeek l LIST_POSITION_TAIL ?t = Some (xs ! ?n)"
    using L ll(2,3) ends by (simp_all add: ListNodePeek_def LIST_POSITION_HEAD_def LIST_POSITION_TAIL_def)
  have at: "ll_at l ?t = Some (ll\<lparr>ll_lock := 1\<rparr>)" "node_at (ll_head ll) s = Some h" "node_at (ll_tail ll) s = Some e"
    using L ll(2,3) ends h e by simp_all
  have "ListIntegrityVerify l s = Some (LIST_INTEGRITY_RESULT_CORRUPT_NAV_BOTH, ?t)"
    using conjunct1 [OF L] h(4)
    by (simp add: ListIntegrityVerify_def lock size sz at h(2,3) e(2,3) peek nav nav [unfolded One_nat_def] LIST_INTEGRITY_RESULT_LIST_INTACT_def
        LIST_INTEGRITY_RESULT_CORRUPT_NAV_FW_def LIST_INTEGRITY_RESULT_CORRUPT_NAV_BOTH_def)
  then show ?thesis using False at(1) by auto
qed

theorem ListIntegrityVerify_bound_witness:
  "ListIntegrityVerify (LStatic 0) demo = Some (LIST_INTEGRITY_RESULT_LIST_INTACT, demo)"
  using ListIntegrityVerify_bound [of demo "LStatic 0" "[8, 16, 24]"] demo_ok demo_lists(1) by (simp add: sorted_list_def)

subsection \<open>Destroying a list\<close>

text \<open>
  \<open>ListDestroy\<close> does not return on a list of one node: it removes the node, hands it to \<open>ListNodeDeinit\<close>,
  which removes it from the now empty list once more and dereferences the null neighbour. On an empty list it
  returns and leaves the list locked for writing.
\<close>

lemma ListDestroy_single_crashes:
  assumes crit: "crit_ok s" and xs: "is_list s l [y]" "list_unlocked s l"
  shows "ListDestroy l s = None"
proof -
  have l: "is_list s l ([] @ y # [])" using xs(1) by simp
  obtain t n where t: "ListNodeRemove l y s = Some (y, t)" "is_list t l []" "list_frame s t l {y}" "nodes t y = Some (unlinked n)"
    using ListNodeRemove_ok [OF crit l xs(2)] by auto
  have ct: "crit_ok t" "list_unlocked t l" using crit xs(2) list_frame_crit [OF t(3)] list_frame_unlocked [OF t(3)] by auto
  obtain b where b: "ll_at l t = Some b" "ll_head b = NULL" "ll_tail b = NULL" "ll_size b = 0" "ll_lock b = 0"
    using t(2) ct(2) by (auto simp: is_list_def list_unlocked_def unat_eq_zero)
  obtain a where a: "ll_at l s = Some a" "ll_head a = y" "ll_size a = 1" "ll_lock a = 0"
    using xs by (auto simp: is_list_def list_unlocked_def word_unat_eq_iff)
  have y: "y \<noteq> NULL" using is_list_nodes [OF xs(1)] by simp
  have "ListNodeRemove l y t = None"
    using b ct(1) t(4) y ll_at_SomeD [OF b(1)]
    by (simp add: ListNodeRemove_def ListIsLocked_def ListLock_eq ll_update_eq node_at_def Let_def node_update_def)
  moreover have "l \<noteq> LNULL" using ll_at_SomeD [OF a(1)] by simp
  ultimately show ?thesis
    using a t(1) y by (simp add: ListDestroy_def ListIsLocked_def ListDestroy_loop.simps [of l 0] ListNodeRemoveFromHead_def ListNodeDeinit_def)
qed

lemma ListDestroy_single_crashes_witness:
  "\<exists>t. ListNodeAddAtPosition (LStatic 1) 32 LIST_POSITION_TAIL demo = Some (OS_RES_OK, t) \<and> ListDestroy (LStatic 1) t = None"
proof -
  have l: "is_list demo (LStatic 1) []" using demo_lists(2) by (simp add: sorted_list_def)
  have n: "node_at 32 demo = Some (demo_node 7 NULL NULL)" by (simp add: node_at_def demo_fields)
  obtain t where t: "ListNodeAddAtPosition (LStatic 1) 32 LIST_POSITION_TAIL demo = Some (OS_RES_OK, t)"
     "is_list t (LStatic 1) [32]" "list_frame demo t (LStatic 1) {32}"
    using AddAtPosition_tail [OF demo_ok(1) l demo_ok(4) _ n] by (auto simp: demo_node_def ID_INVALID_def)
  have "crit_ok t" "list_unlocked t (LStatic 1)"
    using demo_ok list_frame_crit [OF t(3)] list_frame_unlocked [OF t(3)] by auto
  from ListDestroy_single_crashes [OF this(1) t(2) this(2)] t(1) show ?thesis by blast
qed

end
