(* ===== verification/Fletcher.thy ===== *)
theory Fletcher
  imports Prelude
begin

text \<open>
  \<^verbatim>\<open>Fletcher.c\<close>: the 16-bit Fletcher checksum, which the event module uses as the hash of an event. The two
  running sums are kept below 255 and added in \<^verbatim>\<open>int\<close>, so no addition wraps; they are natural numbers here.
\<close>

fun FletcherLoop :: "U8_t list \<Rightarrow> nat \<Rightarrow> nat \<times> nat \<Rightarrow> (nat \<times> nat) option" where
  "FletcherLoop data 0 (sum1, sum2) = Some (sum1, sum2)"
| "FletcherLoop [] (Suc len) (sum1, sum2) = None"
| "FletcherLoop (d # data) (Suc len) (sum1, sum2) =
     (let sum1 = (sum1 + unat d) mod 0xFF; sum2 = (sum2 + sum1) mod 0xFF
      in FletcherLoop data len (sum1, sum2))"

definition FletcherGenerate :: "U8_t list \<Rightarrow> U16_t \<Rightarrow> U16_t option" where
  "FletcherGenerate data dlen =
     (if dlen = 0 then Some 0
      else do {
        (sum1, sum2) \<leftarrow> FletcherLoop data (unat dlen) (0, 0);
        let cb0 = 0xFF - (sum1 + sum2) mod 0xFF;
        let cb1 = 0xFF - (sum1 + cb0) mod 0xFF;
        Some (push_bit 8 (word_of_nat cb0) OR word_of_nat cb1)
      })"

definition FletcherVerify :: "U16_t \<Rightarrow> U8_t list \<Rightarrow> U16_t \<Rightarrow> bool option" where
  "FletcherVerify fletcher data dlen =
     (if dlen = 0 then Some False
      else do {
        new_fletcher \<leftarrow> FletcherGenerate data dlen;
        Some (fletcher = new_fletcher)
      })"

subsection \<open>What the checksum detects\<close>

fun fsums :: "nat list \<Rightarrow> nat \<times> nat \<Rightarrow> nat \<times> nat" where
  "fsums [] p = p"
| "fsums (d # ds) (a, b) = fsums ds (a + d, b + (a + d))"

lemma fsums_append: "fsums (xs @ ys) p = fsums ys (fsums xs p)"
  by (induction xs p rule: fsums.induct) simp_all

lemma fsums_shift: "fsums ds (a, b) = (fst (fsums ds (0, 0)) + a, snd (fsums ds (0, 0)) + b + length ds * a)"
proof (induction ds arbitrary: a b)
  case (Cons d ds)
  show ?case
    using Cons.IH [of "a + d" "b + (a + d)"] Cons.IH [of d d] by (simp add: algebra_simps)
qed simp

lemma fsums_mod:
  assumes "a mod m = a' mod m" and "b mod m = b' mod (m :: nat)"
  shows "fst (fsums ds (a, b)) mod m = fst (fsums ds (a', b')) mod m"
    and "snd (fsums ds (a, b)) mod m = snd (fsums ds (a', b')) mod m"
proof -
  show "fst (fsums ds (a, b)) mod m = fst (fsums ds (a', b')) mod m"
    unfolding fsums_shift [of ds a b] fsums_shift [of ds a' b'] fst_conv
    by (intro mod_add_cong refl assms)
  show "snd (fsums ds (a, b)) mod m = snd (fsums ds (a', b')) mod m"
    unfolding fsums_shift [of ds a b] fsums_shift [of ds a' b'] snd_conv
    by (intro mod_add_cong mod_mult_cong refl assms)
qed

lemma FletcherLoop_sums:
  "n \<le> length data \<Longrightarrow> a < 255 \<Longrightarrow> b < 255 \<Longrightarrow>
     FletcherLoop data n (a, b) =
       Some (fst (fsums (map unat (take n data)) (a, b)) mod 255,
             snd (fsums (map unat (take n data)) (a, b)) mod 255)"
proof (induction data n "(a, b)" arbitrary: a b rule: FletcherLoop.induct)
  case (3 d data len a b)
  let ?a = "(a + unat d) mod 255" let ?b = "(b + ?a) mod 255"
  let ?ds = "map unat (take len data)"
  have "FletcherLoop data len (?a, ?b) =
      Some (fst (fsums ?ds (?a, ?b)) mod 255, snd (fsums ?ds (?a, ?b)) mod 255)"
    using 3 by (simp add: Let_def)
  moreover have "fst (fsums ?ds (?a, ?b)) mod 255 = fst (fsums ?ds (a + unat d, b + (a + unat d))) mod 255"
      and "snd (fsums ?ds (?a, ?b)) mod 255 = snd (fsums ?ds (a + unat d, b + (a + unat d))) mod 255"
    by (rule fsums_mod; simp add: mod_add_right_eq)+
  ultimately show ?case by (simp add: Let_def)
qed simp_all

text \<open>The two sums of a message in closed form: the sum of its bytes, and the sum weighted by position.\<close>

definition byte_sum :: "U8_t list \<Rightarrow> nat" where
  "byte_sum data = sum_list (map unat data)"

fun weighted_sum :: "U8_t list \<Rightarrow> nat" where
  "weighted_sum [] = 0"
| "weighted_sum (d # ds) = length (d # ds) * unat d + weighted_sum ds"

lemma fsums_closed:
  "fsums (map unat ds) (a, b) = (a + byte_sum ds, b + length ds * a + weighted_sum ds)"
  by (induction ds arbitrary: a b) (simp_all add: byte_sum_def algebra_simps)

lemma FletcherLoop_closed:
  assumes "n \<le> length data"
  shows "FletcherLoop data n (0, 0) =
    Some (byte_sum (take n data) mod 255, weighted_sum (take n data) mod 255)"
  using assms by (simp add: FletcherLoop_sums fsums_closed)

lemma byte_sum_append: "byte_sum (xs @ ys) = byte_sum xs + byte_sum ys"
  by (simp add: byte_sum_def)

lemma weighted_sum_append:
  "weighted_sum (xs @ ys) = weighted_sum xs + length ys * byte_sum xs + weighted_sum ys"
  by (induction xs) (simp_all add: byte_sum_def algebra_simps)

text \<open>The two check bytes of a result.\<close>

definition check_bytes :: "U16_t \<Rightarrow> U8_t list" where
  "check_bytes h = [ucast (drop_bit 8 h), ucast h]"

lemma no_high_bit:
  assumes "(c :: nat) < 2 ^ k" and "k \<le> n" shows "\<not> bit c n"
proof -
  have "c < 2 ^ n" using assms by (meson order.strict_trans2 one_le_numeral power_increasing)
  then show ?thesis by (simp add: bit_iff_odd)
qed

lemma check_bytes_pack:
  assumes "c0 < 256" and "c1 < 256"
  shows "check_bytes (push_bit 8 (word_of_nat c0) OR word_of_nat c1) = [word_of_nat c0, word_of_nat c1]"
  using no_high_bit [of c0 8] no_high_bit [of c1 8] assms
  by (auto simp: check_bytes_def bit_eq_iff bit_simps)

lemma mod_complement: "(x + (255 - x mod 255)) mod 255 = (0 :: nat)"
proof -
  have "x + (255 - x mod 255) = 255 * (x div 255) + 255"
    using mult_div_mod_eq [of 255 x] mod_less_divisor [of 255 x] by linarith
  then show ?thesis by simp
qed

lemma mod_cancel:
  assumes "(x + z) mod m = 0" and "(y + z) mod m = (0 :: nat)"
  shows "x mod m = y mod m"
proof -
  have "m dvd x - y" "m dvd y - x"
    using dvd_diff_nat [of m "x + z" "y + z"] dvd_diff_nat [of m "y + z" "x + z"] assms
    by (simp_all add: mod_eq_0_iff_dvd)
  then show ?thesis
    using mod_eq_dvd_iff_nat [of y x m] mod_eq_dvd_iff_nat [of x y m] nat_le_linear [of x y] by metis
qed

lemma FletcherGenerate_bytes:
  assumes "unat dlen \<le> length data" and "dlen \<noteq> 0"
  defines "s1 \<equiv> byte_sum (take (unat dlen) data)" and "s2 \<equiv> weighted_sum (take (unat dlen) data)"
  obtains h c0 c1 where "FletcherGenerate data dlen = Some h"
    and "check_bytes h = [word_of_nat c0, word_of_nat c1]"
    and "0 < c0" "c0 < 256" "0 < c1" "c1 < 256"
    and "(s1 + s2 + c0) mod 255 = 0" and "(s1 + c0 + c1) mod 255 = 0"
proof -
  let ?c0 = "255 - (s1 mod 255 + s2 mod 255) mod 255"
  let ?c1 = "255 - (s1 mod 255 + ?c0) mod 255"
  show thesis
  proof (rule that [of _ ?c0 ?c1])
    show "FletcherGenerate data dlen = Some (push_bit 8 (word_of_nat ?c0) OR word_of_nat ?c1)"
      using assms by (simp add: FletcherGenerate_def FletcherLoop_closed)
    show "check_bytes (push_bit 8 (word_of_nat ?c0) OR word_of_nat ?c1) = [word_of_nat ?c0, word_of_nat ?c1]"
      by (rule check_bytes_pack) (simp_all add: less_Suc_eq_le)
    show "(s1 + s2 + ?c0) mod 255 = 0" using mod_complement [of "s1 + s2"] by (simp add: mod_add_eq)
    show "(s1 + ?c0 + ?c1) mod 255 = 0"
      by (simp only: mod_add_left_eq mod_complement)
  qed (simp_all add: less_Suc_eq_le)
qed

text \<open>
  C22. The defining property of the checksum: with its two check bytes appended, both running sums of a
  message are 0 modulo 255; \<open>FletcherVerify\<close> accepts exactly the generated checksum.
\<close>

theorem Fletcher_check_bytes:
  assumes "unat dlen = length data" and "dlen \<noteq> 0"
  shows "\<exists>h. FletcherGenerate data dlen = Some h
     \<and> byte_sum (data @ check_bytes h) mod 255 = 0
     \<and> weighted_sum (data @ check_bytes h) mod 255 = 0
     \<and> (\<forall>g. FletcherVerify g data dlen = Some (g = h))"
proof -
  obtain h c0 c1 where h: "FletcherGenerate data dlen = Some h"
      "check_bytes h = [word_of_nat c0, word_of_nat c1]" "c0 < 256" "c1 < 256"
    and s: "(byte_sum data + weighted_sum data + c0) mod 255 = 0" "(byte_sum data + c0 + c1) mod 255 = 0"
    by (rule FletcherGenerate_bytes [of dlen data]) (use assms in auto)
  have c: "unat (word_of_nat c0 :: U8_t) = c0" "unat (word_of_nat c1 :: U8_t) = c1"
    using h by (simp_all add: unat_of_nat)
  have "byte_sum (check_bytes h) = c0 + c1" "weighted_sum (check_bytes h) = 2 * c0 + c1"
    "length (check_bytes h) = 2"
    using h(2) c by (simp_all add: byte_sum_def)
  then have "byte_sum (data @ check_bytes h) = byte_sum data + c0 + c1"
    and "weighted_sum (data @ check_bytes h) =
        (byte_sum data + weighted_sum data + c0) + (byte_sum data + c0 + c1)"
    by (simp_all add: byte_sum_append weighted_sum_append)
  with s h(1) assms(2) show ?thesis by (auto simp: FletcherVerify_def mod_eq_0_iff_dvd)
qed

theorem Fletcher_check_bytes_witness:
  "unat (3 :: U16_t) = length [0x41 :: U8_t, 0x42, 0xFF] \<and>
   (\<exists>h. FletcherGenerate [0x41, 0x42, 0xFF] 3 = Some h
     \<and> byte_sum ([0x41, 0x42, 0xFF] @ check_bytes h) mod 255 = 0)"
  using Fletcher_check_bytes [of 3 "[0x41, 0x42, 0xFF]"] by auto

text \<open>
  Two messages of one length have the same checksum exactly when their byte sums and their weighted sums
  agree modulo 255. So the checksum tells apart any two messages that differ in one byte, unless the byte
  is 0 in one and 255 in the other, which it never tells apart.
\<close>

lemma Fletcher_collision_iff:
  assumes "unat dlen = length xs" and "length ys = length xs" and "dlen \<noteq> 0"
  shows "FletcherGenerate xs dlen = FletcherGenerate ys dlen \<longleftrightarrow>
     byte_sum xs mod 255 = byte_sum ys mod 255 \<and> weighted_sum xs mod 255 = weighted_sum ys mod 255"
proof
  assume "byte_sum xs mod 255 = byte_sum ys mod 255 \<and> weighted_sum xs mod 255 = weighted_sum ys mod 255"
  then show "FletcherGenerate xs dlen = FletcherGenerate ys dlen"
    using assms by (simp add: FletcherGenerate_def FletcherLoop_closed)
next
  assume eq: "FletcherGenerate xs dlen = FletcherGenerate ys dlen"
  obtain h c0 c1 where h: "FletcherGenerate xs dlen = Some h"
      "check_bytes h = [word_of_nat c0, word_of_nat c1]" "c0 < 256" "c1 < 256"
    and s: "(byte_sum xs + weighted_sum xs + c0) mod 255 = 0" "(byte_sum xs + c0 + c1) mod 255 = 0"
    by (rule FletcherGenerate_bytes [of dlen xs]) (use assms in auto)
  obtain h' d0 d1 where h': "FletcherGenerate ys dlen = Some h'"
      "check_bytes h' = [word_of_nat d0, word_of_nat d1]" "d0 < 256" "d1 < 256"
    and s': "(byte_sum ys + weighted_sum ys + d0) mod 255 = 0" "(byte_sum ys + d0 + d1) mod 255 = 0"
    by (rule FletcherGenerate_bytes [of dlen ys]) (use assms in auto)
  have "(word_of_nat c0 :: U8_t) = word_of_nat d0" "(word_of_nat c1 :: U8_t) = word_of_nat d1"
    using eq h h' by simp_all
  then have "c0 = d0" "c1 = d1"
    using h h' by (auto dest!: arg_cong [of _ _ unat] simp: unat_of_nat)
  have b: "byte_sum xs mod 255 = byte_sum ys mod 255"
    using mod_cancel [of "byte_sum xs" "c0 + c1" 255 "byte_sum ys"] s(2) s'(2) \<open>c0 = d0\<close> \<open>c1 = d1\<close>
    by (simp add: add.assoc)
  have "(weighted_sum xs + byte_sum xs) mod 255 = (weighted_sum ys + byte_sum ys) mod 255"
    using mod_cancel [of "weighted_sum xs + byte_sum xs" c0 255 "weighted_sum ys + byte_sum ys"]
      s(1) s'(1) \<open>c0 = d0\<close> by (simp add: ac_simps)
  moreover have "(byte_sum xs + (254 * byte_sum xs)) mod 255 = 0"
      "(byte_sum xs + (254 * byte_sum ys)) mod 255 = 0"
    using mod_add_cong [OF b refl, of "254 * byte_sum ys"] by simp_all
  ultimately have "weighted_sum xs mod 255 = weighted_sum ys mod 255"
    using mod_add_cong [of "weighted_sum xs + byte_sum xs" 255 "weighted_sum ys + byte_sum ys"
        "254 * byte_sum xs" "254 * byte_sum ys"] mod_mult_cong [OF refl b, of 254]
    by (simp add: add.assoc)
  with b show "byte_sum xs mod 255 = byte_sum ys mod 255 \<and>
      weighted_sum xs mod 255 = weighted_sum ys mod 255" by simp
qed

lemma Fletcher_collision_iff_witness:
  "FletcherGenerate [0x00, 0x00, 0x00, 0x01] 4 = FletcherGenerate [0xFF, 0x00, 0x00, 0x01 :: U8_t] 4 \<and>
   FletcherGenerate [0x02, 0x01] 2 \<noteq> FletcherGenerate [0x01, 0x02 :: U8_t] 2"
  using Fletcher_collision_iff [of 4 "[0x00, 0x00, 0x00, 0x01]" "[0xFF, 0x00, 0x00, 0x01]"]
    Fletcher_collision_iff [of 2 "[0x02, 0x01]" "[0x01, 0x02]"]
  by (simp add: byte_sum_def)

end
