(* ===== verification/Event.thy ===== *)
theory Event
  imports Lists Fletcher
begin

text \<open>
  \<^verbatim>\<open>Event.c\<close>: events, kept in the list of emitted events and in the event lists of the tasks. An event's ID in
  its list is the Fletcher checksum of its source and code.

  An \<^verbatim>\<open>Event_t\<close> begins with its list node, so both have one address; the node is in \<open>nodes\<close>, the other fields
  in \<open>events\<close>. An object that was freed reads as zeros until its address is allocated again, as \<open>MemFree\<close>
  clears its bytes. The sizes are those of the 32-bit ARM ABI with 4-byte enums. \<^verbatim>\<open>EventListPrint\<close> only
  prints and is not modelled.
\<close>

definition EVENT_FLAG_NONE :: U8_t where "EVENT_FLAG_NONE = 0x00"
definition EVENT_FLAG_NO_HANDLER :: U8_t where "EVENT_FLAG_NO_HANDLER = 0x80"
definition EVENT_FLAG_PERMANENT :: U8_t where "EVENT_FLAG_PERMANENT = 0x40"
definition EVENT_FLAG_NO_TIMEOUT :: U8_t where "EVENT_FLAG_NO_TIMEOUT = 0x20"
definition EVENT_FLAG_ADDRESSED :: U8_t where "EVENT_FLAG_ADDRESSED = 0x10"
definition EVENT_FLAG_TIMED_OUT :: U8_t where "EVENT_FLAG_TIMED_OUT = 0x08"
definition EVENT_FLAG_OCCURRED :: U8_t where "EVENT_FLAG_OCCURRED = 0x04"

definition EVENT_TYPE_CREATE :: U32_t where "EVENT_TYPE_CREATE = 0x00010000"
definition EVENT_TYPE_DELETE :: U32_t where "EVENT_TYPE_DELETE = 0x00020000"
definition EVENT_TYPE_ACCESS :: U32_t where "EVENT_TYPE_ACCESS = 0x00030000"
definition EVENT_TYPE_STATE_CHANGE :: U32_t where "EVENT_TYPE_STATE_CHANGE = 0x00040000"
definition EVENT_TYPE_EXCEPTION :: U32_t where "EVENT_TYPE_EXCEPTION = 0x00050000"
definition EVENT_TYPE_SIGNAL :: U32_t where "EVENT_TYPE_SIGNAL = 0x00060000"

definition EVENT_TYPE_GET :: "U32_t \<Rightarrow> U8_t" where
  "EVENT_TYPE_GET evt = ucast (drop_bit 16 (evt AND 0x00FF0000))"

definition EVENT_FLAG_GET :: "U32_t \<Rightarrow> U8_t \<Rightarrow> U8_t" where
  "EVENT_FLAG_GET evt flag = ucast (drop_bit 24 (evt AND 0xFF000000)) AND flag"

definition EVENT_FLAG_SET :: "U32_t \<Rightarrow> U8_t \<Rightarrow> U32_t" where
  "EVENT_FLAG_SET evt flag = evt OR (push_bit 24 (ucast flag) AND 0xFF000000)"

definition EVENT_FLAG_CLEAR :: "U32_t \<Rightarrow> U8_t \<Rightarrow> U32_t" where
  "EVENT_FLAG_CLEAR evt flag = evt AND NOT (push_bit 24 (ucast flag) AND 0xFF000000)"

definition MOCK_EVENT :: U32_t where "MOCK_EVENT = EVENT_TYPE_CREATE OR 0x0000FEEF"

definition PRTOS_CONFIG_EVENT_LIFE_TIME_TICKS :: U32_t where "PRTOS_CONFIG_EVENT_LIFE_TIME_TICKS = 3"
definition OS_TIMEOUT_INFINITE :: U32_t where "OS_TIMEOUT_INFINITE = 0xFFFFFFFF"
definition OS_TIMEOUT_NONE :: U32_t where "OS_TIMEOUT_NONE = 0x00000000"
definition SIZEOF_EVENT :: U32_t where "SIZEOF_EVENT = 40"

record Event_t =
  life_time_us :: U32_t
  life_time_us_cnt :: U32_t
  occurrence_cnt :: U8_t
  source_id :: Id_t
  event_code :: U32_t

record event_state = list_state +
  events :: "ptr \<Rightarrow> Event_t option"
  EmittedEventLifetimeUs :: U32_t

text \<open>The static list header of the emitted events.\<close>

definition EventList :: lptr where "EventList = LStatic 0"

subsection \<open>Objects with a list node\<close>

definition zero_node :: ListNode_t where
  "zero_node = \<lparr>node_id = 0, node_lock = 0, child = NULL, next_node = NULL, prev_node = NULL\<rparr>"

definition zero_list :: LinkedList_t where
  "zero_list = \<lparr>ll_head = NULL, ll_tail = NULL, ll_middle = NULL, ll_size = 0, ll_lock = 0,
     ll_sorted = False, ll_id_group = 0\<rparr>"

definition node_clear :: "ptr \<Rightarrow> 'a list_state_scheme \<Rightarrow> 'a list_state_scheme" where
  "node_clear p s = s\<lparr>nodes := (nodes s)(p \<mapsto> zero_node)\<rparr>"

definition zero_event :: Event_t where
  "zero_event = \<lparr>life_time_us = 0, life_time_us_cnt = 0, occurrence_cnt = 0, source_id = 0, event_code = 0\<rparr>"

definition event_at :: "ptr \<Rightarrow> 'a event_state_scheme \<Rightarrow> Event_t option" where
  "event_at p s = (if p = NULL then None else events s p)"

definition event_update :: "ptr \<Rightarrow> (Event_t \<Rightarrow> Event_t) \<Rightarrow> 'a event_state_scheme \<Rightarrow> 'a event_state_scheme option" where
  "event_update p f s = do { e \<leftarrow> event_at p s; Some (s\<lparr>events := (events s)(p \<mapsto> f e)\<rparr>) }"

text \<open>The bytes of an event object become zero, when it is allocated and when it is freed.\<close>

definition event_clear :: "ptr \<Rightarrow> 'a event_state_scheme \<Rightarrow> 'a event_state_scheme" where
  "event_clear p s = (node_clear p s)\<lparr>events := (events s)(p \<mapsto> zero_event)\<rparr>"

definition event_alloc :: "'a event_state_scheme \<Rightarrow> (ptr \<times> 'a event_state_scheme) option" where
  "event_alloc s = do {
     ((obj, obj_data), s) \<leftarrow> KMemAllocObject SIZEOF_EVENT 0 None s;
     Some (obj, event_clear obj s)
   }"

definition event_free :: "ptr \<Rightarrow> 'a event_state_scheme \<Rightarrow> (OsResult_t \<times> 'a event_state_scheme) option" where
  "event_free p s = do {
     ((result, obj, obj_data), s) \<leftarrow> KMemFreeObject (Some p) None s;
     Some (result, if result = OS_RES_OK then event_clear p s else s)
   }"

subsection \<open>Creating and finding events\<close>

definition EventInit :: "'a event_state_scheme \<Rightarrow> (OsResult_t \<times> 'a event_state_scheme) option" where
  "EventInit s = do {
     (r, s) \<leftarrow> ListInit EventList 0 s;
     Some (OS_RES_OK, s\<lparr>EmittedEventLifetimeUs := OsTickPeriodGet s * PRTOS_CONFIG_EVENT_LIFE_TIME_TICKS\<rparr>)
   }"

definition EventListRefGet :: lptr where "EventListRefGet = EventList"

text \<open>The eight bytes of \<^verbatim>\<open>event_concat\<close> in memory order, low byte first.\<close>

definition U64_bytes :: "U64_t \<Rightarrow> U8_t list" where
  "U64_bytes w = map (\<lambda>i. ucast (drop_bit (8 * i) w)) [0 ..< 8]"

definition EventToHash :: "Id_t \<Rightarrow> U32_t \<Rightarrow> U16_t option" where
  "EventToHash src code =
     (let event_concat = 0 OR push_bit 32 (ucast src :: U64_t) OR ucast code
      in FletcherGenerate (U64_bytes event_concat) 8)"

definition EventCreate :: "Id_t \<Rightarrow> U32_t \<Rightarrow> U32_t \<Rightarrow> 'a event_state_scheme \<Rightarrow> (ptr \<times> 'a event_state_scheme) option" where
  "EventCreate src code life s = do {
     (new_event, s) \<leftarrow> event_alloc s;
     if new_event = NULL then Some (NULL, s)
     else do {
       s \<leftarrow> event_update new_event (\<lambda>e. e\<lparr>life_time_us := life, life_time_us_cnt := 0, occurrence_cnt := 0,
              source_id := src, event_code := code\<rparr>) s;
       (r, s) \<leftarrow> ListNodeInit new_event new_event s;
       Some (new_event, s)
     }
   }"

definition EventAddToList :: "lptr \<Rightarrow> ptr \<Rightarrow> 'a event_state_scheme \<Rightarrow> (OsResult_t \<times> 'a event_state_scheme) option" where
  "EventAddToList event_list event s =
     (if event_list = LNULL \<or> event = NULL then Some (OS_RES_INVALID_ARGUMENT, s)
      else ListNodeAddAtPosition event_list event LIST_POSITION_TAIL s)"

definition EventLifeTimeReset :: "ptr \<Rightarrow> 'a event_state_scheme \<Rightarrow> 'a event_state_scheme option" where
  "EventLifeTimeReset event s = event_update event (\<lambda>e. e\<lparr>life_time_us_cnt := 0\<rparr>) s"

text \<open>\<open>out\<close> is the value of \<^verbatim>\<open>*out_event_id\<close>, or \<open>None\<close> when that pointer is null.\<close>

definition EventRegister ::
  "lptr \<Rightarrow> Id_t \<Rightarrow> U32_t \<Rightarrow> U8_t \<Rightarrow> U32_t \<Rightarrow> Id_t option \<Rightarrow> 'a event_state_scheme \<Rightarrow>
     ((OsResult_t \<times> Id_t option) \<times> 'a event_state_scheme) option" where
  "EventRegister task_event_list object_id code flgs life out s = do {
     hash \<leftarrow> EventToHash object_id code;
     (node, s) \<leftarrow> ListSearch task_event_list (ucast hash) s;
     if node \<noteq> NULL then do {
       new_event \<leftarrow> ListNodeChildGet node s;
       e \<leftarrow> event_at new_event s;
       s \<leftarrow> (if EVENT_FLAG_GET (event_code e) EVENT_FLAG_NO_TIMEOUT = 0 then EventLifeTimeReset new_event s
             else Some s);
       Some ((OS_RES_FAIL, out), s)
     } else do {
       let new_event_code = code;
       let new_event_code = (if life = OS_TIMEOUT_INFINITE
             then EVENT_FLAG_SET new_event_code EVENT_FLAG_NO_TIMEOUT else new_event_code);
       let new_event_code = EVENT_FLAG_SET new_event_code flgs;
       (new_event, s) \<leftarrow> EventCreate object_id new_event_code life s;
       if new_event \<noteq> NULL then do {
         s \<leftarrow> node_update new_event (\<lambda>n. n\<lparr>node_id := ucast hash\<rparr>) s;
         (result, s) \<leftarrow> ListNodeAddAtPosition task_event_list new_event LIST_POSITION_TAIL s;
         if result = OS_RES_OK then do {
           oid \<leftarrow> ListNodeIdGet new_event s;
           Some ((result, map_option (\<lambda>_. oid) out), s)
         } else do {
           (r, s) \<leftarrow> event_free new_event s;
           Some ((result, map_option (\<lambda>_. ID_INVALID) out), s)
         }
       } else Some ((OS_RES_ERROR, out), s)
     }
   }"

definition EventEmit :: "Id_t \<Rightarrow> U32_t \<Rightarrow> U8_t \<Rightarrow> 'a event_state_scheme \<Rightarrow> (OsResult_t \<times> 'a event_state_scheme) option" where
  "EventEmit src code flgs s = do {
     hash \<leftarrow> EventToHash src code;
     (node, s) \<leftarrow> ListSearch EventList (ucast hash) s;
     if node \<noteq> NULL then do {
       event \<leftarrow> ListNodeChildGet node s;
       s \<leftarrow> EventLifeTimeReset event s;
       Some (OS_RES_FAIL, s)
     } else do {
       let new_event_code = EVENT_FLAG_SET code flgs;
       (new_event, s) \<leftarrow> EventCreate src new_event_code (EmittedEventLifetimeUs s) s;
       if new_event \<noteq> NULL then do {
         s \<leftarrow> node_update new_event (\<lambda>n. n\<lparr>node_id := ucast hash\<rparr>) s;
         (result, s) \<leftarrow> ListNodeAddAtPosition EventList new_event LIST_POSITION_TAIL s;
         if result = OS_RES_OK then Some (OS_RES_OK, s)
         else do {
           (r, s) \<leftarrow> event_free new_event s;
           Some (OS_RES_ERROR, s)
         }
       } else Some (OS_RES_ERROR, s)
     }
   }"

text \<open>\<open>EventPeekHead\<close> asks for the size of the list of emitted events, whatever list it is given.\<close>

definition EventPeekHead :: "lptr \<Rightarrow> 'a event_state_scheme \<Rightarrow> ptr option" where
  "EventPeekHead list s = do {
     el \<leftarrow> ll_at EventList s;
     if ll_size el = 0 then Some NULL
     else do {
       pk_node \<leftarrow> ListNodePeek list LIST_POSITION_HEAD s;
       if pk_node = NULL then Some NULL else ListNodeChildGet pk_node s
     }
   }"

definition EventPeekNext :: "ptr \<Rightarrow> 'a event_state_scheme \<Rightarrow> ptr option" where
  "EventPeekNext event s =
     (if event \<noteq> NULL then do {
        nxt \<leftarrow> ListNodePeekNext event s;
        if nxt \<noteq> NULL then ListNodeChildGet nxt s else Some NULL
      } else Some NULL)"

definition EventPeekPrev :: "ptr \<Rightarrow> 'a event_state_scheme \<Rightarrow> ptr option" where
  "EventPeekPrev event s =
     (if event \<noteq> NULL then do {
        prv \<leftarrow> ListNodePeekPrev event s;
        if prv \<noteq> NULL then ListNodeChildGet prv s else Some NULL
      } else Some NULL)"

subsection \<open>Counters and flags\<close>

text \<open>The status of type \<^verbatim>\<open>S8_t\<close> is 0 or -1, the word with all bits set.\<close>

definition EventOccurrenceCountIncrement :: "ptr \<Rightarrow> 'a event_state_scheme \<Rightarrow> (S8_t \<times> 'a event_state_scheme) option" where
  "EventOccurrenceCountIncrement event s = do {
     e \<leftarrow> event_at event s;
     if occurrence_cnt e < 255 then do {
       s \<leftarrow> event_update event (\<lambda>e. e\<lparr>occurrence_cnt := occurrence_cnt e + 1\<rparr>) s;
       Some (0, s)
     } else Some (- 1, s)
   }"

definition EventOccurrenceCountReset :: "ptr \<Rightarrow> 'a event_state_scheme \<Rightarrow> 'a event_state_scheme option" where
  "EventOccurrenceCountReset event s = event_update event (\<lambda>e. e\<lparr>occurrence_cnt := 0\<rparr>) s"

definition EventLifeTimeIncrement :: "ptr \<Rightarrow> U32_t \<Rightarrow> 'a event_state_scheme \<Rightarrow> (S8_t \<times> 'a event_state_scheme) option" where
  "EventLifeTimeIncrement event t_us s = do {
     e \<leftarrow> event_at event s;
     if life_time_us_cnt e + t_us < life_time_us e then do {
       s \<leftarrow> event_update event (\<lambda>e. e\<lparr>life_time_us_cnt := life_time_us_cnt e + t_us\<rparr>) s;
       Some (0, s)
     } else Some (- 1, s)
   }"

definition EventFlagSet :: "ptr \<Rightarrow> U8_t \<Rightarrow> 'a event_state_scheme \<Rightarrow> (OsResult_t \<times> 'a event_state_scheme) option" where
  "EventFlagSet event flag s =
     (if event = NULL then Some (OS_RES_INVALID_ARGUMENT, s)
      else do {
        s \<leftarrow> event_update event (\<lambda>e. e\<lparr>event_code := EVENT_FLAG_SET (event_code e) flag\<rparr>) s;
        Some (OS_RES_OK, s)
      })"

definition EventFlagClear :: "ptr \<Rightarrow> U8_t \<Rightarrow> 'a event_state_scheme \<Rightarrow> (OsResult_t \<times> 'a event_state_scheme) option" where
  "EventFlagClear event flag s =
     (if event = NULL then Some (OS_RES_INVALID_ARGUMENT, s)
      else do {
        s \<leftarrow> event_update event (\<lambda>e. e\<lparr>event_code := EVENT_FLAG_CLEAR (event_code e) flag\<rparr>) s;
        Some (OS_RES_OK, s)
      })"

definition EventFlagGet :: "ptr \<Rightarrow> U8_t \<Rightarrow> 'a event_state_scheme \<Rightarrow> bool option" where
  "EventFlagGet event flag s = do { e \<leftarrow> event_at event s; Some (EVENT_FLAG_GET (event_code e) flag \<noteq> 0) }"

definition EventIsEqual :: "ptr \<Rightarrow> ptr \<Rightarrow> 'a event_state_scheme \<Rightarrow> bool option" where
  "EventIsEqual event_x event_y s = do {
     x \<leftarrow> event_at event_x s;
     y \<leftarrow> event_at event_y s;
     Some (source_id x = source_id y \<and> event_code x AND 0x00FFFFFF = event_code y AND 0x00FFFFFF)
   }"

definition EventIsMock :: "ptr \<Rightarrow> 'a event_state_scheme \<Rightarrow> bool option" where
  "EventIsMock event s = do {
     e \<leftarrow> event_at event s;
     Some (source_id e = ID_INVALID \<and> event_code e = MOCK_EVENT)
   }"

definition EventHasOccurred :: "ptr \<Rightarrow> 'a event_state_scheme \<Rightarrow> bool option" where
  "EventHasOccurred event s = do { e \<leftarrow> event_at event s; Some (EVENT_FLAG_GET (event_code e) EVENT_FLAG_OCCURRED \<noteq> 0) }"

definition EventIsType :: "ptr \<Rightarrow> U32_t \<Rightarrow> 'a event_state_scheme \<Rightarrow> bool option" where
  "EventIsType event type s = do { e \<leftarrow> event_at event s; Some (EVENT_TYPE_GET (event_code e) = EVENT_TYPE_GET type) }"

definition EventHasTimedOut :: "ptr \<Rightarrow> 'a event_state_scheme \<Rightarrow> bool option" where
  "EventHasTimedOut event s = do { e \<leftarrow> event_at event s; Some (EVENT_FLAG_GET (event_code e) EVENT_FLAG_TIMED_OUT \<noteq> 0) }"

subsection \<open>Handling and destroying events\<close>

definition EventHandle :: "ptr \<Rightarrow> 'a event_state_scheme \<Rightarrow> 'a event_state_scheme option" where
  "EventHandle event s =
     (if event \<noteq> NULL then
        event_update event (\<lambda>e. e\<lparr>event_code := EVENT_FLAG_CLEAR (event_code e) (EVENT_FLAG_TIMED_OUT OR EVENT_FLAG_OCCURRED),
          life_time_us_cnt := 0, occurrence_cnt := 0\<rparr>) s
      else Some s)"

definition event_due :: "ptr \<Rightarrow> 'a event_state_scheme \<Rightarrow> bool option" where
  "event_due event s = do {
     e \<leftarrow> event_at event s;
     Some (EVENT_FLAG_GET (event_code e) EVENT_FLAG_OCCURRED \<noteq> 0 \<or> EVENT_FLAG_GET (event_code e) EVENT_FLAG_TIMED_OUT \<noteq> 0)
   }"

definition EventHandleFromId :: "lptr \<Rightarrow> Id_t \<Rightarrow> 'a event_state_scheme \<Rightarrow> (ptr \<times> 'a event_state_scheme) option" where
  "EventHandleFromId list event_id s = do {
     (rm_node, s) \<leftarrow> ListSearch list event_id s;
     if rm_node \<noteq> NULL then do {
       rm_event \<leftarrow> ListNodeChildGet rm_node s;
       due \<leftarrow> event_due rm_event s;
       if due then do {
         (r, s) \<leftarrow> ListNodeRemove list rm_node s;
         Some (rm_event, s)
       } else Some (NULL, s)
     } else Some (NULL, s)
   }"

text \<open>The loop of \<open>EventHandleFifo\<close>, with the number of turns left.\<close>

fun EventHandleFifo_loop :: "nat \<Rightarrow> lptr \<Rightarrow> ptr \<Rightarrow> 'a event_state_scheme \<Rightarrow> (ptr \<times> 'a event_state_scheme) option" where
  "EventHandleFifo_loop 0 list rm_node s = Some (NULL, s)"
| "EventHandleFifo_loop (Suc k) list rm_node s =
     (if rm_node \<noteq> NULL then do {
        next_rm_node \<leftarrow> ListNodePeekNext rm_node s;
        rm_event \<leftarrow> ListNodeChildGet rm_node s;
        due \<leftarrow> event_due rm_event s;
        if due then do {
          (r, s) \<leftarrow> ListNodeRemove list rm_node s;
          Some (rm_event, s)
        } else EventHandleFifo_loop k list next_rm_node s
      } else Some (NULL, s))"

definition EventHandleFifo :: "lptr \<Rightarrow> 'a event_state_scheme \<Rightarrow> (ptr \<times> 'a event_state_scheme) option" where
  "EventHandleFifo list s =
     (if list = LNULL then Some (NULL, s)
      else do {
        ll \<leftarrow> ll_at list s;
        rm_node \<leftarrow> ListNodePeek list LIST_POSITION_HEAD s;
        EventHandleFifo_loop (unat (ll_size ll)) list rm_node s
      })"

definition EventDestroy :: "lptr \<Rightarrow> ptr \<Rightarrow> 'a event_state_scheme \<Rightarrow> (OsResult_t \<times> 'a event_state_scheme) option" where
  "EventDestroy list event s =
     (if event = NULL then Some (OS_RES_INVALID_ARGUMENT, s)
      else do {
        let list = (if list = LNULL then EventList else list);
        inl \<leftarrow> ListNodeIsInList list event s;
        s \<leftarrow> (if inl then do { (r, s) \<leftarrow> ListNodeRemove list event s; Some s } else Some s);
        (r, s) \<leftarrow> event_free event s;
        Some (OS_RES_OK, s)
      })"

partial_function (option) EventListDestroy_loop ::
  "lptr \<Rightarrow> ptr \<Rightarrow> 'a event_state_scheme \<Rightarrow> (OsResult_t \<times> 'a event_state_scheme) option" where
  "EventListDestroy_loop list node s = do {
     event \<leftarrow> ListNodeChildGet node s;
     (result, s) \<leftarrow> EventDestroy list event s;
     n \<leftarrow> node_at node s;
     if next_node n \<noteq> NULL then EventListDestroy_loop list (next_node n) s else Some (result, s)
   }"

definition EventListDestroy :: "lptr \<Rightarrow> 'a event_state_scheme \<Rightarrow> (OsResult_t \<times> 'a event_state_scheme) option" where
  "EventListDestroy list s =
     (if list = LNULL then Some (OS_RES_INVALID_ARGUMENT, s)
      else if list = EventList then Some (OS_RES_RESTRICTED, s)
      else do {
        ll \<leftarrow> ll_at list s;
        if ll_size ll > 0 then EventListDestroy_loop list (ll_head ll) s else Some (OS_RES_OK, s)
      })"

definition EventListSizeGet :: "lptr \<Rightarrow> 'a event_state_scheme \<Rightarrow> ListSize_t option" where
  "EventListSizeGet event_list s =
     (if event_list = LNULL then Some 0 else do { ll \<leftarrow> ll_at event_list s; Some (ll_size ll) })"

definition EventListContainsEvent ::
  "lptr \<Rightarrow> Id_t \<Rightarrow> U32_t \<Rightarrow> 'a event_state_scheme \<Rightarrow> (ptr \<times> 'a event_state_scheme) option" where
  "EventListContainsEvent event_list src code s = do {
     hash \<leftarrow> EventToHash src code;
     (node, s) \<leftarrow> ListSearch event_list (ucast hash) s;
     event \<leftarrow> ListNodeChildGet node s;
     Some (event, s)
   }"

definition EventFromId :: "lptr \<Rightarrow> Id_t \<Rightarrow> 'a event_state_scheme \<Rightarrow> (ptr \<times> 'a event_state_scheme) option" where
  "EventFromId list event_id s = do {
     (node, s) \<leftarrow> ListSearch list event_id s;
     if node \<noteq> NULL then do { event \<leftarrow> ListNodeChildGet node s; Some (event, s) } else Some (NULL, s)
   }"

text \<open>\<open>EventListPrint\<close> prints a line for each event: its place, its source and its code. It returns the lines; the heading has the size.\<close>

partial_function (option) EventListPrint_loop ::
  "lptr \<Rightarrow> ListSize_t \<Rightarrow> ptr \<Rightarrow> ptr \<Rightarrow> (ListSize_t \<times> Id_t \<times> U32_t) list \<Rightarrow> 'a event_state_scheme \<Rightarrow> (ListSize_t \<times> Id_t \<times> U32_t) list option" where
  "EventListPrint_loop list i node event out s = do {
     ll \<leftarrow> ll_at list s;
     if i < ll_size ll then do {
       e \<leftarrow> event_at event s;
       let out = out @ [(i, source_id e, event_code e)];
       node \<leftarrow> ListNodePeekNext node s;
       if node = NULL then Some out
       else do {
         event \<leftarrow> ListNodeChildGet node s;
         EventListPrint_loop list (i + 1) node event out s
       }
     } else Some out
   }"

definition EventListPrint ::
  "lptr \<Rightarrow> 'a event_state_scheme \<Rightarrow> ((ListSize_t \<times> (ListSize_t \<times> Id_t \<times> U32_t) list) option \<times> 'a event_state_scheme) option" where
  "EventListPrint list s = do {
     (r, s) \<leftarrow> ListLock list LIST_LOCK_MODE_READ s;
     if r \<noteq> OS_RES_OK then Some (None, s)
     else do {
       node \<leftarrow> ListNodePeek list LIST_POSITION_HEAD s;
       out \<leftarrow> (if node \<noteq> NULL then do {
           ll \<leftarrow> ll_at list s;
           event \<leftarrow> ListNodeChildGet node s;
           out \<leftarrow> EventListPrint_loop list 0 node event [] s;
           Some (Some (ll_size ll, out))
         } else Some None);
       (r, s) \<leftarrow> ListUnlock list s;
       Some (out, s)
     }
   }"

end
