(* ===== verification/Task.thy ===== *)
theory Task
  imports Event
begin

text \<open>
  \<^verbatim>\<open>Task.c\<close> and \<^verbatim>\<open>SystemCall.c\<close>: task control blocks and the task API of the cooperative kernel. The
  handler of a task is a function address. The event list embedded in the task control block at \<open>p\<close> is the list
  \<open>LIn p\<close>. Task names and the preemptive part are switched off by the configuration.
\<close>

datatype TaskState_t = TASK_STATE_DISABLED | TASK_STATE_IDLE | TASK_STATE_WAITING | TASK_STATE_ACTIVE
  | TASK_STATE_RUNNING | TASK_STATE_CRITICAL | TASK_STATE_UNDEFINED

type_synonym TaskCat_t = U8_t
type_synonym Prio_t = U8_t
type_synonym TaskFlags_t = U8_t

definition TASK_CAT_OS :: TaskCat_t where "TASK_CAT_OS = 4"
definition TASK_CAT_REALTIME :: TaskCat_t where "TASK_CAT_REALTIME = 3"
definition TASK_CAT_HIGH :: TaskCat_t where "TASK_CAT_HIGH = 2"
definition TASK_CAT_MEDIUM :: TaskCat_t where "TASK_CAT_MEDIUM = 1"
definition TASK_CAT_LOW :: TaskCat_t where "TASK_CAT_LOW = 0"

definition TASK_PARAMETER_NONE :: U8_t where "TASK_PARAMETER_NONE = 0x00"
definition TASK_PARAMETER_START :: U8_t where "TASK_PARAMETER_START = 0x01"
definition TASK_PARAMETER_ESSENTIAL :: U8_t where "TASK_PARAMETER_ESSENTIAL = 0x02"
definition TASK_PARAMETER_NO_PREEM :: U8_t where "TASK_PARAMETER_NO_PREEM = 0x08"

definition TASK_FLAG_DELETE :: TaskFlags_t where "TASK_FLAG_DELETE = 0x80"
definition TASK_FLAG_INIT :: TaskFlags_t where "TASK_FLAG_INIT = 0x40"
definition TASK_FLAG_ESSENTIAL :: TaskFlags_t where "TASK_FLAG_ESSENTIAL = 0x20"
definition TASK_FLAG_NO_PREEM :: TaskFlags_t where "TASK_FLAG_NO_PREEM = 0x10"

definition OS_TASK_PRIO_LIMIT_HIGH :: Prio_t where "OS_TASK_PRIO_LIMIT_HIGH = 5"
definition OS_TASK_PRIO_LIMIT_LOW :: Prio_t where "OS_TASK_PRIO_LIMIT_LOW = 1"
definition PRTOS_CONFIG_REAL_TIME_TASK_DEADLINE_DEFAULT_MS :: U32_t where
  "PRTOS_CONFIG_REAL_TIME_TASK_DEADLINE_DEFAULT_MS = 15"

definition TASK_EVENT_ACTIVATE :: U32_t where "TASK_EVENT_ACTIVATE = EVENT_TYPE_STATE_CHANGE OR 0x00004000"
definition TASK_EVENT_SLEEP :: U32_t where "TASK_EVENT_SLEEP = EVENT_TYPE_STATE_CHANGE OR 0x00002000"

definition SIZEOF_TCB :: U32_t where "SIZEOF_TCB = 80"

record Tcb_t =
  t_handler :: ptr
  p_arg :: ptr
  v_arg :: U32_t
  t_flags :: TaskFlags_t
  priority :: Prio_t
  category :: TaskCat_t
  t_state :: TaskState_t
  run_time_us :: U32_t
  active_time_us :: U32_t
  deadline_time_us :: U32_t

text \<open>\<open>last_micros\<close> is the static variable of \<open>KTaskRunTimeUpdate\<close>.\<close>

record task_state = event_state +
  tcbs :: "ptr \<Rightarrow> Tcb_t option"
  TcbRunning :: ptr
  TcbIdle :: ptr
  KTidIdle :: Id_t
  last_micros :: U32_t

definition TcbList :: lptr where "TcbList = LStatic 1"
definition TcbWaitList :: lptr where "TcbWaitList = LStatic 2"

definition zero_tcb :: Tcb_t where
  "zero_tcb = \<lparr>t_handler = NULL, p_arg = NULL, v_arg = 0, t_flags = 0, priority = 0, category = 0,
     t_state = TASK_STATE_UNDEFINED, run_time_us = 0, active_time_us = 0, deadline_time_us = 0\<rparr>"

definition tcb_at :: "ptr \<Rightarrow> 'a task_state_scheme \<Rightarrow> Tcb_t option" where
  "tcb_at p s = (if p = NULL then None else tcbs s p)"

definition tcb_update :: "ptr \<Rightarrow> (Tcb_t \<Rightarrow> Tcb_t) \<Rightarrow> 'a task_state_scheme \<Rightarrow> 'a task_state_scheme option" where
  "tcb_update p f s = do { t \<leftarrow> tcb_at p s; Some (s\<lparr>tcbs := (tcbs s)(p \<mapsto> f t)\<rparr>) }"

text \<open>The bytes of a task control block, its node and its event list included, become zero.\<close>

definition tcb_clear :: "ptr \<Rightarrow> 'a task_state_scheme \<Rightarrow> 'a task_state_scheme" where
  "tcb_clear p s = (node_clear p s)\<lparr>lists := (lists s)(LIn p \<mapsto> zero_list), tcbs := (tcbs s)(p \<mapsto> zero_tcb)\<rparr>"

definition tcb_alloc :: "'a task_state_scheme \<Rightarrow> (ptr \<times> 'a task_state_scheme) option" where
  "tcb_alloc s = do {
     ((obj, obj_data), s) \<leftarrow> KMemAllocObject SIZEOF_TCB 0 None s;
     Some (obj, tcb_clear obj s)
   }"

definition tcb_free :: "ptr \<Rightarrow> 'a task_state_scheme \<Rightarrow> (OsResult_t \<times> 'a task_state_scheme) option" where
  "tcb_free p s = do {
     ((result, obj, obj_data), s) \<leftarrow> KMemFreeObject (Some p) None s;
     Some (result, if result = OS_RES_OK then tcb_clear p s else s)
   }"

subsection \<open>Priorities, flags and states\<close>

text \<open>The arithmetic is done in \<^verbatim>\<open>int\<close> and truncated to a byte.\<close>

definition KTaskCalculateInvPriority :: "Prio_t \<Rightarrow> TaskCat_t \<Rightarrow> Prio_t" where
  "KTaskCalculateInvPriority P Mj =
     (if Mj > 0 then word_of_nat (unat P div (unat Mj * 5) + 1) else word_of_nat (unat P + 1))"

definition KTaskCalculatePriority :: "TaskCat_t \<Rightarrow> Prio_t \<Rightarrow> Prio_t" where
  "KTaskCalculatePriority Mj Mi = word_of_int (uint Mj * 5 + uint Mi - 1)"

definition KTaskStateSet :: "ptr \<Rightarrow> TaskState_t \<Rightarrow> 'a task_state_scheme \<Rightarrow> 'a task_state_scheme option" where
  "KTaskStateSet tcb new_state s = tcb_update tcb (\<lambda>t. t\<lparr>t_state := new_state\<rparr>) s"

definition KTaskFlagSet :: "ptr \<Rightarrow> TaskFlags_t \<Rightarrow> 'a task_state_scheme \<Rightarrow> 'a task_state_scheme option" where
  "KTaskFlagSet tcb flag s = tcb_update tcb (\<lambda>t. t\<lparr>t_flags := t_flags t OR flag\<rparr>) s"

definition KTaskFlagClear :: "ptr \<Rightarrow> TaskFlags_t \<Rightarrow> 'a task_state_scheme \<Rightarrow> 'a task_state_scheme option" where
  "KTaskFlagClear tcb flag s = tcb_update tcb (\<lambda>t. t\<lparr>t_flags := t_flags t AND NOT flag\<rparr>) s"

definition KTaskFlagGet :: "ptr \<Rightarrow> TaskFlags_t \<Rightarrow> 'a task_state_scheme \<Rightarrow> U8_t option" where
  "KTaskFlagGet tcb flag s = do { t \<leftarrow> tcb_at tcb s; Some (t_flags t AND flag) }"

subsection \<open>Finding task control blocks\<close>

definition KTcbWaitListRefGet :: lptr where "KTcbWaitListRefGet = TcbWaitList"
definition KTcbListRefGet :: lptr where "KTcbListRefGet = TcbList"
definition KTcbIdleGet :: "'a task_state_scheme \<Rightarrow> ptr" where "KTcbIdleGet s = TcbIdle s"

definition KTcbFromId :: "Id_t \<Rightarrow> 'a task_state_scheme \<Rightarrow> (ptr \<times> 'a task_state_scheme) option" where
  "KTcbFromId task_id s = do {
     (node, s) \<leftarrow> ListSearch TcbList task_id s;
     if node \<noteq> NULL then do { p \<leftarrow> ListNodeChildGet node s; Some (p, s) }
     else do {
       (node, s) \<leftarrow> ListSearch TcbWaitList task_id s;
       if node \<noteq> NULL then do { p \<leftarrow> ListNodeChildGet node s; Some (p, s) }
       else Some (NULL, s)
     }
   }"

definition KTcbLocationGet :: "ptr \<Rightarrow> 'a task_state_scheme \<Rightarrow> (lptr \<times> 'a task_state_scheme) option" where
  "KTcbLocationGet tcb s = do {
     n \<leftarrow> node_at tcb s;
     (node, s) \<leftarrow> ListSearch TcbList (node_id n) s;
     if node \<noteq> NULL then Some (TcbList, s)
     else do {
       n \<leftarrow> node_at tcb s;
       (node, s) \<leftarrow> ListSearch TcbWaitList (node_id n) s;
       Some (if node \<noteq> NULL then TcbWaitList else LNULL, s)
     }
   }"

definition KTcbMove :: "ptr \<Rightarrow> lptr \<Rightarrow> lptr \<Rightarrow> 'a task_state_scheme \<Rightarrow> (OsResult_t \<times> 'a task_state_scheme) option" where
  "KTcbMove to_move from_list to_list s =
     (if KCoreFlagGet CORE_FLAG_KERNEL_MODE s = 0 then Some (OS_RES_RESTRICTED, s)
      else if to_move = NULL then Some (OS_RES_INVALID_ARGUMENT, s)
      else ListNodeMove from_list to_list to_move s)"

definition KTcbSwap :: "ptr \<Rightarrow> ptr \<Rightarrow> lptr \<Rightarrow> 'a task_state_scheme \<Rightarrow> 'a task_state_scheme option" where
  "KTcbSwap x y list s = do { (r, s) \<leftarrow> ListNodeSwap list x y s; Some s }"

definition KTcbDestroy :: "ptr \<Rightarrow> lptr \<Rightarrow> 'a task_state_scheme \<Rightarrow> (OsResult_t \<times> 'a task_state_scheme) option" where
  "KTcbDestroy tcb list s = do {
     t \<leftarrow> tcb_at tcb s;
     (result, s) \<leftarrow> EventListDestroy (LIn tcb) s;
     (result, s) \<leftarrow> (if result = OS_RES_OK then ListNodeDeinit list tcb s else Some (result, s));
     if result = OS_RES_OK then tcb_free tcb s else Some (result, s)
   }"

definition KTcbRunningRefSet :: "ptr \<Rightarrow> 'a task_state_scheme \<Rightarrow> 'a task_state_scheme" where
  "KTcbRunningRefSet tcb s = s\<lparr>TcbRunning := tcb\<rparr>"

subsection \<open>Run time and activation\<close>

definition KTaskRunTimeUpdate :: "'a task_state_scheme \<Rightarrow> 'a task_state_scheme option" where
  "KTaskRunTimeUpdate s = do {
     (curr_micros, s) \<leftarrow> OsRunTimeMicrosGet s;
     if curr_micros = 0 then Some s
     else do {
       let t_accu_us = (if curr_micros \<ge> last_micros s then curr_micros - last_micros s else last_micros s - curr_micros);
       let s = s\<lparr>last_micros := curr_micros\<rparr>;
       if t_accu_us \<noteq> 0 then tcb_update (TcbRunning s) (\<lambda>t. t\<lparr>run_time_us := run_time_us t + t_accu_us\<rparr>) s
       else Some s
     }
   }"

definition KTaskRunTimeReset :: "ptr \<Rightarrow> 'a task_state_scheme \<Rightarrow> 'a task_state_scheme option" where
  "KTaskRunTimeReset tcb s = tcb_update tcb (\<lambda>t. t\<lparr>run_time_us := 0\<rparr>) s"

definition KTaskActivateRequest :: "ptr \<Rightarrow> 'a task_state_scheme \<Rightarrow> (OsResult_t \<times> 'a task_state_scheme) option" where
  "KTaskActivateRequest tcb s = do {
     t \<leftarrow> tcb_at tcb s;
     if t_state t = TASK_STATE_WAITING \<or> t_state t = TASK_STATE_IDLE then do {
       s \<leftarrow> tcb_update tcb (\<lambda>t. t\<lparr>t_state := TASK_STATE_ACTIVE\<rparr>) s;
       Some (OS_RES_OK, s)
     } else Some (OS_RES_FAIL, s)
   }"

definition ITaskResume :: "Id_t \<Rightarrow> 'a task_state_scheme \<Rightarrow> (OsResult_t \<times> 'a task_state_scheme) option" where
  "ITaskResume task_id s = EventEmit task_id TASK_EVENT_ACTIVATE EVENT_FLAG_ADDRESSED s"

definition TaskNotify :: "Id_t \<Rightarrow> U32_t \<Rightarrow> 'a task_state_scheme \<Rightarrow> (OsResult_t \<times> 'a task_state_scheme) option" where
  "TaskNotify task_id arg s =
     (if task_id = ID_INVALID then Some (OS_RES_INVALID_ID, s)
      else do {
        (tcb, s) \<leftarrow> KTcbFromId task_id s;
        if tcb \<noteq> NULL then do {
          s \<leftarrow> tcb_update tcb (\<lambda>t. t\<lparr>v_arg := arg\<rparr>) s;
          ITaskResume task_id s
        } else Some (OS_RES_ERROR, s)
      })"

definition TaskResume :: "Id_t \<Rightarrow> 'a task_state_scheme \<Rightarrow> (OsResult_t \<times> 'a task_state_scheme) option" where
  "TaskResume task_id s = (if task_id = ID_INVALID then Some (OS_RES_INVALID_ID, s) else ITaskResume task_id s)"

subsection \<open>Creating and deleting tasks\<close>

text \<open>The parameters of a new task: its flags, and whether it is started.\<close>

definition TaskCreate_parameters :: "ptr \<Rightarrow> U8_t \<Rightarrow> U32_t \<Rightarrow> 'a task_state_scheme \<Rightarrow> 'a task_state_scheme option" where
  "TaskCreate_parameters new_tcb param varg s =
     (if param \<noteq> TASK_PARAMETER_NONE then do {
        s \<leftarrow> (if param AND TASK_PARAMETER_ESSENTIAL \<noteq> 0 then KTaskFlagSet new_tcb TASK_FLAG_ESSENTIAL s else Some s);
        s \<leftarrow> (if param AND TASK_PARAMETER_NO_PREEM \<noteq> 0 then KTaskFlagSet new_tcb TASK_FLAG_NO_PREEM s else Some s);
        if param AND TASK_PARAMETER_START \<noteq> 0 then do {
          n \<leftarrow> node_at new_tcb s;
          (r, s) \<leftarrow> TaskNotify (node_id n) varg s;
          Some s
        } else Some s
      } else Some s)"

definition TaskCreate ::
  "ptr \<Rightarrow> TaskCat_t \<Rightarrow> Prio_t \<Rightarrow> U8_t \<Rightarrow> U32_t \<Rightarrow> ptr \<Rightarrow> U32_t \<Rightarrow> 'a task_state_scheme \<Rightarrow> (Id_t \<times> 'a task_state_scheme) option" where
  "TaskCreate handler cat prio param stack_size arg varg s =
     (if prio < OS_TASK_PRIO_LIMIT_LOW \<or> prio > OS_TASK_PRIO_LIMIT_HIGH then Some (ID_INVALID, s)
      else if cat > TASK_CAT_OS then Some (ID_INVALID, s)
      else if cat = TASK_CAT_OS \<and> KCoreFlagGet CORE_FLAG_KERNEL_MODE s = 0 then Some (ID_INVALID, s)
      else do {
        (new_tcb, s) \<leftarrow> tcb_alloc s;
        if new_tcb = NULL then Some (ID_INVALID, s)
        else do {
          (r, s) \<leftarrow> ListNodeInit new_tcb new_tcb s;
          (r, s) \<leftarrow> ListInit (LIn new_tcb) 0 s;
          s \<leftarrow> tcb_update new_tcb (\<lambda>t. t\<lparr>t_handler := handler, priority := KTaskCalculatePriority cat prio,
                 category := cat, p_arg := arg, v_arg := varg, t_state := TASK_STATE_IDLE, active_time_us := 0,
                 run_time_us := 0, deadline_time_us := PRTOS_CONFIG_REAL_TIME_TASK_DEADLINE_DEFAULT_MS, t_flags := 0\<rparr>) s;
          (result, s) \<leftarrow> ListNodeAddSorted TcbList new_tcb s;
          if result \<noteq> OS_RES_OK then do {
            (r, s) \<leftarrow> ListNodeDeinit LNULL new_tcb s;
            (r, s) \<leftarrow> tcb_free new_tcb s;
            Some (ID_INVALID, s)
          } else do {
            s \<leftarrow> TaskCreate_parameters new_tcb param varg s;
            n \<leftarrow> node_at new_tcb s;
            Some (node_id n, s)
          }
        }
      })"

text \<open>\<open>task_id\<close> is the value of \<^verbatim>\<open>*task_id\<close>, or \<open>None\<close> when the pointer is null.\<close>

definition TaskDelete ::
  "Id_t option \<Rightarrow> 'a task_state_scheme \<Rightarrow> ((OsResult_t \<times> Id_t option) \<times> 'a task_state_scheme) option" where
  "TaskDelete task_id s = do {
     (tcb, task_id, s) \<leftarrow> (case task_id of None \<Rightarrow> Some (TcbRunning s, None, s)
       | Some oid \<Rightarrow> do {
           n \<leftarrow> node_at (TcbRunning s) s;
           (tcb, s) \<leftarrow> (if oid = node_id n then Some (TcbRunning s, s) else KTcbFromId oid s);
           Some (tcb, Some ID_INVALID, s)
         });
     if tcb \<noteq> NULL then do {
       s \<leftarrow> KTaskFlagSet tcb TASK_FLAG_DELETE s;
       Some ((OS_RES_OK, task_id), s)
     } else Some ((OS_RES_ERROR, task_id), s)
   }"

text \<open>The idle task is the function at \<open>idle\<close>.\<close>

definition KTaskInit :: "ptr \<Rightarrow> 'a task_state_scheme \<Rightarrow> (OsResult_t \<times> 'a task_state_scheme) option" where
  "KTaskInit idle s = do {
     (res, s) \<leftarrow> ListInit TcbList ID_GROUP_TASK s;
     s \<leftarrow> (if res = OS_RES_OK then do { (r, s) \<leftarrow> ListInit TcbWaitList ID_GROUP_TASK s; Some s } else Some s);
     let s = s\<lparr>TcbIdle := NULL\<rparr>;
     if res = OS_RES_OK then do {
       (tid, s) \<leftarrow> TaskCreate idle TASK_CAT_LOW 1 TASK_PARAMETER_ESSENTIAL 0 NULL 0 s;
       let s = s\<lparr>KTidIdle := tid\<rparr>;
       if tid = ID_INVALID then Some (OS_RES_CRIT_ERROR, s)
       else do {
         (tcb, s) \<leftarrow> KTcbFromId (KTidIdle s) s;
         let s = s\<lparr>TcbIdle := tcb\<rparr>;
         Some (if TcbIdle s = NULL then OS_RES_CRIT_ERROR else res, s)
       }
     } else Some (res, s)
   }"

subsection \<open>Attributes of tasks\<close>

text \<open>What the getters and setters share: the task with the ID, the running one for \<open>ID_INVALID\<close>.\<close>

definition tcb_or_running :: "Id_t \<Rightarrow> 'a task_state_scheme \<Rightarrow> (ptr \<times> 'a task_state_scheme) option" where
  "tcb_or_running task_id s = (if task_id = ID_INVALID then Some (TcbRunning s, s) else KTcbFromId task_id s)"

definition TaskRealTimeDeadlineSet :: "Id_t \<Rightarrow> U32_t \<Rightarrow> 'a task_state_scheme \<Rightarrow> (OsResult_t \<times> 'a task_state_scheme) option" where
  "TaskRealTimeDeadlineSet rt_task_id t_ms s =
     (if rt_task_id = ID_INVALID then Some (OS_RES_INVALID_ID, s)
      else do {
        (tcb, s) \<leftarrow> KTcbFromId rt_task_id s;
        if tcb \<noteq> NULL then do {
          (r, s) \<leftarrow> ListNodeLock tcb LIST_LOCK_MODE_WRITE s;
          if r = OS_RES_OK then do {
            t \<leftarrow> tcb_at tcb s;
            (result, s) \<leftarrow> (if category t = TASK_CAT_REALTIME then do {
                s \<leftarrow> tcb_update tcb (\<lambda>t. t\<lparr>deadline_time_us := t_ms\<rparr>) s;
                Some (OS_RES_OK, s)
              } else Some (OS_RES_INVALID_ID, s));
            (r, s) \<leftarrow> ListNodeUnlock tcb s;
            Some (result, s)
          } else Some (OS_RES_ERROR, s)
        } else Some (OS_RES_ERROR, s)
      })"

definition TaskPrioritySet :: "Id_t \<Rightarrow> Prio_t \<Rightarrow> 'a task_state_scheme \<Rightarrow> (OsResult_t \<times> 'a task_state_scheme) option" where
  "TaskPrioritySet task_id new_priority s =
     (if new_priority < OS_TASK_PRIO_LIMIT_LOW \<or> new_priority > OS_TASK_PRIO_LIMIT_HIGH
      then Some (OS_RES_INVALID_ARGUMENT, s)
      else do {
        (tcb, s) \<leftarrow> tcb_or_running task_id s;
        if tcb \<noteq> NULL then do {
          (r, s) \<leftarrow> ListNodeLock tcb LIST_LOCK_MODE_WRITE s;
          if r = OS_RES_OK then do {
            s \<leftarrow> tcb_update tcb (\<lambda>t. t\<lparr>priority := KTaskCalculatePriority (category t) new_priority\<rparr>) s;
            (r, s) \<leftarrow> ListNodeUnlock tcb s;
            Some (OS_RES_OK, s)
          } else Some (OS_RES_ERROR, s)
        } else Some (OS_RES_ERROR, s)
      })"

definition TaskPriorityGet :: "Id_t \<Rightarrow> 'a task_state_scheme \<Rightarrow> (Prio_t \<times> 'a task_state_scheme) option" where
  "TaskPriorityGet task_id s = do {
     (tcb, s) \<leftarrow> tcb_or_running task_id s;
     if tcb \<noteq> NULL then do {
       (r, s) \<leftarrow> ListNodeLock tcb LIST_LOCK_MODE_READ s;
       if r = OS_RES_OK then do {
         t \<leftarrow> tcb_at tcb s;
         (r, s) \<leftarrow> ListNodeUnlock tcb s;
         Some (priority t, s)
       } else Some (0, s)
     } else Some (0, s)
   }"

definition TaskStateGet :: "Id_t \<Rightarrow> 'a task_state_scheme \<Rightarrow> (TaskState_t \<times> 'a task_state_scheme) option" where
  "TaskStateGet task_id s = do {
     (tcb, s) \<leftarrow> tcb_or_running task_id s;
     if tcb \<noteq> NULL then do {
       (r, s) \<leftarrow> ListNodeLock tcb LIST_LOCK_MODE_READ s;
       if r = OS_RES_OK then do {
         t \<leftarrow> tcb_at tcb s;
         (r, s) \<leftarrow> ListNodeUnlock tcb s;
         Some (t_state t, s)
       } else Some (TASK_STATE_UNDEFINED, s)
     } else Some (TASK_STATE_UNDEFINED, s)
   }"

definition TaskRunTimeGet :: "'a task_state_scheme \<Rightarrow> (U32_t \<times> 'a task_state_scheme) option" where
  "TaskRunTimeGet s =
     (if TcbRunning s = NULL then Some (0, s)
      else do {
        (r, s) \<leftarrow> ListNodeLock (TcbRunning s) LIST_LOCK_MODE_READ s;
        if r = OS_RES_OK then do {
          t \<leftarrow> tcb_at (TcbRunning s) s;
          (r, s) \<leftarrow> ListNodeUnlock (TcbRunning s) s;
          Some (run_time_us t, s)
        } else Some (0, s)
      })"

subsection \<open>Polling for events\<close>

text \<open>
  The state of an event: 0 for occurred, also when the event is locked, 1 for timed out, -1 for neither, -3 when
  there is none.
\<close>

definition ITaskEventStateGet :: "ptr \<Rightarrow> 'a task_state_scheme \<Rightarrow> (S8_t \<times> 'a task_state_scheme) option" where
  "ITaskEventStateGet event s =
     (if event \<noteq> NULL then do {
        (r, s) \<leftarrow> ListNodeLock event LIST_LOCK_MODE_READ s;
        if r = OS_RES_OK then do {
          occurred \<leftarrow> EventHasOccurred event s;
          timed_out \<leftarrow> EventHasTimedOut event s;
          (r, s) \<leftarrow> ListNodeUnlock event s;
          Some (if occurred then 0 else if timed_out then 1 else - 1, s)
        } else Some (0, s)
      } else Some (- 3, s))"

definition ITaskEventHandle :: "ptr \<Rightarrow> 'a task_state_scheme \<Rightarrow> (S8_t \<times> 'a task_state_scheme) option" where
  "ITaskEventHandle event s = do {
     let list = (if TcbRunning s \<noteq> NULL then LIn (TcbRunning s) else LNULL);
     if event \<noteq> NULL then do {
       (r, s) \<leftarrow> ListNodeLock event LIST_LOCK_MODE_WRITE s;
       s \<leftarrow> (if r = OS_RES_OK then do {
           permanent \<leftarrow> EventFlagGet event EVENT_FLAG_PERMANENT s;
           if permanent then EventHandle event s
           else do { (r, s) \<leftarrow> EventDestroy list event s; Some s }
         } else Some s);
       (r, s) \<leftarrow> ListNodeUnlock event s;
       Some (0, s)
     } else Some (- 1, s)
   }"

definition ITaskEventRegister ::
  "ptr \<Rightarrow> Id_t \<Rightarrow> U32_t \<Rightarrow> U8_t \<Rightarrow> U32_t \<Rightarrow> Id_t option \<Rightarrow> 'a task_state_scheme \<Rightarrow>
     ((OsResult_t \<times> Id_t option) \<times> 'a task_state_scheme) option" where
  "ITaskEventRegister tcb object_id event flgs timeout_ms event_id s =
     (if tcb \<noteq> NULL then do {
        (r, s) \<leftarrow> ListNodeLock tcb LIST_LOCK_MODE_WRITE s;
        if r = OS_RES_OK then do {
          ((result, event_id), s) \<leftarrow> EventRegister (LIn tcb) object_id event flgs (ConvertMsToUs timeout_ms s) event_id s;
          (r, s) \<leftarrow> ListNodeUnlock tcb s;
          Some ((result, event_id), s)
        } else Some ((OS_RES_ERROR, event_id), s)
      } else Some ((OS_RES_ERROR, event_id), s))"

definition TaskPollAdd :: "Id_t \<Rightarrow> U32_t \<Rightarrow> U32_t \<Rightarrow> 'a task_state_scheme \<Rightarrow> (OsResult_t \<times> 'a task_state_scheme) option" where
  "TaskPollAdd object_id event timeout_ms s = do {
     ((result, event_id), s) \<leftarrow>
       ITaskEventRegister (TcbRunning s) object_id event EVENT_FLAG_PERMANENT timeout_ms (Some ID_INVALID) s;
     Some (result, s)
   }"

definition TaskPollRemove :: "Id_t \<Rightarrow> U32_t \<Rightarrow> 'a task_state_scheme \<Rightarrow> (OsResult_t \<times> 'a task_state_scheme) option" where
  "TaskPollRemove object_id event s = do {
     (evt, s) \<leftarrow> EventListContainsEvent (LIn (TcbRunning s)) object_id event s;
     if evt \<noteq> NULL then EventDestroy (LIn (TcbRunning s)) evt s else Some (OS_RES_ERROR, s)
   }"

text \<open>The label \<^verbatim>\<open>new_poll\<close>: register the event with the running task.\<close>

definition TaskPoll_new :: "Id_t \<Rightarrow> U32_t \<Rightarrow> U32_t \<Rightarrow> 'a task_state_scheme \<Rightarrow> (OsResult_t \<times> 'a task_state_scheme) option" where
  "TaskPoll_new object_id event timeout_ms s = do {
     ((result, event_id), s) \<leftarrow> ITaskEventRegister (TcbRunning s) object_id event EVENT_FLAG_NONE timeout_ms None s;
     Some (if result = OS_RES_OK then OS_RES_POLL else result, s)
   }"

definition TaskPoll :: "Id_t \<Rightarrow> U32_t \<Rightarrow> U32_t \<Rightarrow> bool \<Rightarrow> 'a task_state_scheme \<Rightarrow> (OsResult_t \<times> 'a task_state_scheme) option" where
  "TaskPoll object_id event timeout_ms add_poll s = do {
     (sub_event, s) \<leftarrow> EventListContainsEvent (LIn (TcbRunning s)) object_id event s;
     if sub_event = NULL then
       (if add_poll then TaskPoll_new object_id event timeout_ms s else Some (OS_RES_FAIL, s))
     else do {
       (event_state, s) \<leftarrow> ITaskEventStateGet sub_event s;
       (result, s) \<leftarrow> (if event_state = - 1 then Some (OS_RES_POLL, s)
         else if event_state = 0 then do { (r, s) \<leftarrow> ITaskEventHandle sub_event s; Some (OS_RES_EVENT, s) }
         else if event_state = 1 then do { (r, s) \<leftarrow> ITaskEventHandle sub_event s; Some (OS_RES_TIMEOUT, s) }
         else Some (OS_RES_ERROR, s));
       if add_poll then TaskPoll_new object_id event timeout_ms s else Some (result, s)
     }
   }"

definition TaskSleep :: "U32_t \<Rightarrow> 'a task_state_scheme \<Rightarrow> (OsResult_t \<times> 'a task_state_scheme) option" where
  "TaskSleep t_ms s =
     (if t_ms > 0 then TaskPoll ID_INVALID TASK_EVENT_SLEEP t_ms True s else Some (OS_RES_INVALID_ARGUMENT, s))"

subsection \<open>System calls\<close>

definition KSysCallPoll :: "Id_t \<Rightarrow> U32_t \<Rightarrow> U32_t \<Rightarrow> bool \<Rightarrow> 'a task_state_scheme \<Rightarrow> (OsResult_t \<times> 'a task_state_scheme) option" where
  "KSysCallPoll object_id event timeout_ms add_poll s = TaskPoll object_id event timeout_ms add_poll s"

definition KSysCallWait :: "Id_t \<Rightarrow> U32_t \<Rightarrow> U32_t \<Rightarrow> 'a task_state_scheme \<Rightarrow> (OsResult_t \<times> 'a task_state_scheme) option" where
  "KSysCallWait object_id event timeout_ms s = Some (OS_RES_ERROR, s)"

text \<open>The macros around a polled system call, in the cooperative configuration; the result is \<^verbatim>\<open>*p_res\<close>.\<close>

definition SYS_CALL_EVENT_HANDLE :: "Id_t \<Rightarrow> U32_t \<Rightarrow> 'a task_state_scheme \<Rightarrow> (OsResult_t \<times> 'a task_state_scheme) option" where
  "SYS_CALL_EVENT_HANDLE obj_id evt s = do {
     (n, s) \<leftarrow> OsIsrNestCountGet s;
     if n = 0 then KSysCallPoll obj_id evt OS_TIMEOUT_INFINITE False s else Some (OS_RES_FAIL, s)
   }"

definition SYS_CALL_EVENT_REGISTER :: "Id_t \<Rightarrow> U32_t \<Rightarrow> U32_t \<Rightarrow> 'a task_state_scheme \<Rightarrow> (OsResult_t \<times> 'a task_state_scheme) option" where
  "SYS_CALL_EVENT_REGISTER obj_id evt t_out s = do {
     (n, s) \<leftarrow> OsIsrNestCountGet s;
     if n = 0 then KSysCallPoll obj_id evt t_out True s else Some (OS_RES_ERROR, s)
   }"

text \<open>
  How a module polls for an event at its entry: \<^verbatim>\<open>SYS_CALL_EVENT_HANDLE\<close> followed by the \<^verbatim>\<open>TIMEOUT\<close> and \<^verbatim>\<open>POLL\<close>
  branches, which return their result; in the other cases the module goes on.
\<close>

definition sys_call_enter ::
  "Id_t \<Rightarrow> U32_t \<Rightarrow> (OsResult_t \<Rightarrow> 'a task_state_scheme \<Rightarrow> (OsResult_t \<times> 'a task_state_scheme) option) \<Rightarrow>
     'a task_state_scheme \<Rightarrow> (OsResult_t \<times> 'a task_state_scheme) option" where
  "sys_call_enter obj_id evt rest s = do {
     (result, s) \<leftarrow> SYS_CALL_EVENT_HANDLE obj_id evt s;
     if result = OS_RES_TIMEOUT \<or> result = OS_RES_POLL then Some (result, s) else rest result s
   }"

subsection \<open>The running task\<close>

text \<open>\<^verbatim>\<open>KCoreTaskRunningGet\<close> of \<^verbatim>\<open>Core.c\<close>, and the task module's name for it.\<close>

definition KCoreTaskRunningGet :: "'a task_state_scheme \<Rightarrow> (Id_t \<times> 'a task_state_scheme) option" where
  "KCoreTaskRunningGet s = do {
     s \<leftarrow> KERNEL_REG_LOCK s;
     let run = kr_tcb_running (KernelReg s);
     (r, s) \<leftarrow> ListNodeLock run LIST_LOCK_MODE_READ s;
     (oid, s) \<leftarrow> (if r = OS_RES_OK then do {
         oid \<leftarrow> ListNodeIdGet run s;
         (r, s) \<leftarrow> ListNodeUnlock run s;
         Some (oid, s)
       } else Some (ID_INVALID, s));
     Some (oid, KERNEL_REG_UNLOCK s)
   }"

definition TaskIdGet :: "'a task_state_scheme \<Rightarrow> (Id_t \<times> 'a task_state_scheme) option" where
  "TaskIdGet s = KCoreTaskRunningGet s"

text \<open>\<^verbatim>\<open>KernelTaskCreate\<close> of \<^verbatim>\<open>KernelTask.c\<close>.\<close>

definition KernelTaskCreate ::
  "ptr \<Rightarrow> Prio_t \<Rightarrow> U8_t \<Rightarrow> U32_t \<Rightarrow> ptr \<Rightarrow> U32_t \<Rightarrow> 'a task_state_scheme \<Rightarrow> (Id_t \<times> 'a task_state_scheme) option" where
  "KernelTaskCreate handler prio add_param stack_size arg varg s = do {
     (n, s) \<leftarrow> KCoreKernelModeEnter s;
     (task_id, s) \<leftarrow> TaskCreate handler TASK_CAT_OS prio (TASK_PARAMETER_NO_PREEM OR TASK_PARAMETER_START OR add_param)
       stack_size arg varg s;
     (n, s) \<leftarrow> KCoreKernelModeExit s;
     Some (task_id, s)
   }"

text \<open>
  \<open>TaskJoin\<close> is compiled with the events of executed tasks; it polls for the deletion of a task when the events of created and deleted tasks are
  compiled too (\<open>create_delete\<close>), and fails otherwise.
\<close>

definition TaskJoin :: "bool \<Rightarrow> Id_t \<Rightarrow> U32_t \<Rightarrow> 'a task_state_scheme \<Rightarrow> (OsResult_t \<times> 'a task_state_scheme) option" where
  "TaskJoin create_delete task_id timeout s =
     (if create_delete then TaskPoll task_id EVENT_TYPE_DELETE timeout True s else Some (OS_RES_ERROR, s))"

end
