(* ===== verification/Scheduler.thy ===== *)
theory Scheduler
  imports Task
begin

text \<open>
  \<^verbatim>\<open>Scheduler.c\<close>: the execution queue, kept in order of descending priority, and the event broker, which in
  every cycle compares the emitted events with the events the tasks listen to, activates tasks and lets
  events and polls age. The fields of \<^verbatim>\<open>struct EventBrokerArgs\<close> are arguments here. A \<^verbatim>\<open>while(1)\<close> trap is \<open>None\<close>.
\<close>

record sched_state = task_state +
  SchedEventList :: lptr
  broker_micros :: U32_t

definition ExecutionQueue :: lptr where "ExecutionQueue = LStatic 3"

definition KSchedulerInit :: "lptr \<Rightarrow> 'a sched_state_scheme \<Rightarrow> 'a sched_state_scheme option" where
  "KSchedulerInit event_list s = do {
     (r, s) \<leftarrow> ListInit ExecutionQueue ID_GROUP_TASK s;
     (r, s) \<leftarrow> EventEmit ID_INVALID MOCK_EVENT EVENT_FLAG_NONE s;
     if r \<noteq> OS_RES_OK then None else Some (s\<lparr>SchedEventList := event_list\<rparr>)
   }"

definition KSchedulerQueueTaskPop :: "'a sched_state_scheme \<Rightarrow> (ptr \<times> 'a sched_state_scheme) option" where
  "KSchedulerQueueTaskPop s = do {
     (n, s) \<leftarrow> ListSizeGet ExecutionQueue s;
     if n \<noteq> 0 then do {
       (node, s) \<leftarrow> ListNodeRemoveFromHead ExecutionQueue s;
       tcb \<leftarrow> ListNodeChildGet node s;
       Some (tcb, s)
     } else Some (NULL, s)
   }"

definition KSchedulerQueueSizeGet :: "'a sched_state_scheme \<Rightarrow> (U32_t \<times> 'a sched_state_scheme) option" where
  "KSchedulerQueueSizeGet s = do { (n, s) \<leftarrow> ListSizeGet ExecutionQueue s; Some (ucast n, s) }"

subsection \<open>Insertion into the execution queue\<close>

text \<open>The loop compares priorities and inserts before the first task of lower priority; the flag says whether it did.\<close>

partial_function (option) AddDescendingPriority_loop ::
  "lptr \<Rightarrow> ptr \<Rightarrow> ListIterator \<Rightarrow> 'a sched_state_scheme \<Rightarrow> (bool \<times> 'a sched_state_scheme) option" where
  "AddDescendingPriority_loop to_list task it s =
     (if it_current_node it \<noteq> NULL then do {
        compare_task \<leftarrow> ListNodeChildGet (it_current_node it) s;
        t \<leftarrow> tcb_at task s;
        c \<leftarrow> tcb_at compare_task s;
        if priority t > priority c then do {
          (r, s) \<leftarrow> ListNodeAddAtNode to_list task (it_current_node it) LIST_ADD_BEFORE s;
          if r \<noteq> OS_RES_OK then None else Some (True, s)
        } else do {
          (more, it) \<leftarrow> LIST_ITERATOR_END it s;
          if more then AddDescendingPriority_loop to_list task it s else Some (False, s)
        }
      } else do {
        (r, s) \<leftarrow> ListNodeAddAtPosition to_list task LIST_POSITION_TAIL s;
        if r \<noteq> OS_RES_OK then None else Some (True, s)
      })"

definition ISchedulerTaskAddDescendingPriority ::
  "lptr \<Rightarrow> lptr \<Rightarrow> ptr \<Rightarrow> 'a sched_state_scheme \<Rightarrow> 'a sched_state_scheme option" where
  "ISchedulerTaskAddDescendingPriority from_list to_list task s = do {
     (rm, s) \<leftarrow> ListNodeRemove from_list task s;
     if rm = NULL then None
     else do {
       (n, s) \<leftarrow> ListSizeGet to_list s;
       if n = 0 then do {
         (r, s) \<leftarrow> ListNodeAddAtPosition to_list task LIST_POSITION_HEAD s;
         Some s
       } else do {
         ((r, it), s) \<leftarrow> ListIteratorInit iterator_uninit to_list LIST_ITERATOR_DIRECTION_FORWARD s;
         (added, s) \<leftarrow> (if r = OS_RES_OK then AddDescendingPriority_loop to_list task it s else Some (False, s));
         if added then Some s
         else do {
           (r, s) \<leftarrow> ListNodeAddAtPosition to_list task LIST_POSITION_TAIL s;
           Some s
         }
       }
     }
   }"

subsection \<open>The event broker\<close>

text \<open>The comparison of one emitted event with one event that the task listens to.\<close>

definition TaskEventsCompare_body ::
  "ptr \<Rightarrow> ptr \<Rightarrow> bool \<Rightarrow> U32_t \<Rightarrow> ptr \<Rightarrow> 'a sched_state_scheme \<Rightarrow> 'a sched_state_scheme option" where
  "TaskEventsCompare_body task compare_event last_event delta_us task_event s = do {
     eq \<leftarrow> EventIsEqual compare_event task_event s;
     s \<leftarrow> (if eq then do {
         (r, s) \<leftarrow> EventFlagSet task_event EVENT_FLAG_OCCURRED s;
         (r, s) \<leftarrow> EventFlagClear task_event EVENT_FLAG_TIMED_OUT s;
         s \<leftarrow> EventLifeTimeReset task_event s;
         (r, s) \<leftarrow> EventOccurrenceCountIncrement task_event s;
         Some s
       } else if last_event then do {
         no_timeout \<leftarrow> EventFlagGet task_event EVENT_FLAG_NO_TIMEOUT s;
         timed_out \<leftarrow> EventFlagGet task_event EVENT_FLAG_TIMED_OUT s;
         if \<not> no_timeout \<and> \<not> timed_out then do {
           (r, s) \<leftarrow> EventLifeTimeIncrement task_event delta_us s;
           if r = - 1 then do { (r, s) \<leftarrow> EventFlagSet task_event EVENT_FLAG_TIMED_OUT s; Some s } else Some s
         } else Some s
       } else Some s);
     occurred \<leftarrow> EventFlagGet task_event EVENT_FLAG_OCCURRED s;
     timed_out \<leftarrow> EventFlagGet task_event EVENT_FLAG_TIMED_OUT s;
     if occurred \<or> timed_out then KTaskStateSet task TASK_STATE_ACTIVE s else Some s
   }"

partial_function (option) TaskEventsCompare_loop ::
  "ptr \<Rightarrow> ptr \<Rightarrow> bool \<Rightarrow> U32_t \<Rightarrow> ListIterator \<Rightarrow> 'a sched_state_scheme \<Rightarrow> 'a sched_state_scheme option" where
  "TaskEventsCompare_loop task compare_event last_event delta_us it s =
     (if it_current_node it \<noteq> NULL then do {
        task_event \<leftarrow> ListNodeChildGet (it_current_node it) s;
        s \<leftarrow> TaskEventsCompare_body task compare_event last_event delta_us task_event s;
        (more, it) \<leftarrow> LIST_ITERATOR_END it s;
        if more then TaskEventsCompare_loop task compare_event last_event delta_us it s else Some s
      } else Some s)"

definition ISchedulerTaskEventsCompare ::
  "lptr \<Rightarrow> ptr \<Rightarrow> ptr \<Rightarrow> bool \<Rightarrow> U32_t \<Rightarrow> 'a sched_state_scheme \<Rightarrow> 'a sched_state_scheme option" where
  "ISchedulerTaskEventsCompare task_list task compare_event last_event delta_us s = do {
     ((r, it), s) \<leftarrow> ListIteratorInit iterator_uninit (LIn task) LIST_ITERATOR_DIRECTION_FORWARD s;
     s \<leftarrow> (if r = OS_RES_OK then TaskEventsCompare_loop task compare_event last_event delta_us it s else Some s);
     if task_list \<noteq> ExecutionQueue then do {
       t \<leftarrow> tcb_at task s;
       if t_state t = TASK_STATE_ACTIVE then ISchedulerTaskAddDescendingPriority task_list ExecutionQueue task s
       else Some s
     } else Some s
   }"

partial_function (option) TaskListCompare_loop ::
  "lptr \<Rightarrow> ptr \<Rightarrow> bool \<Rightarrow> U32_t \<Rightarrow> ListIterator \<Rightarrow> 'a sched_state_scheme \<Rightarrow> 'a sched_state_scheme option" where
  "TaskListCompare_loop task_list compare_event last_event delta_us it s =
     (if it_current_node it \<noteq> NULL then do {
        task \<leftarrow> ListNodeChildGet (it_current_node it) s;
        s \<leftarrow> ISchedulerTaskEventsCompare task_list task compare_event last_event delta_us s;
        (more, it) \<leftarrow> LIST_ITERATOR_END it s;
        if more then TaskListCompare_loop task_list compare_event last_event delta_us it s else Some s
      } else Some s)"

definition ISchedulerTaskListCompare ::
  "lptr \<Rightarrow> ptr \<Rightarrow> bool \<Rightarrow> U32_t \<Rightarrow> 'a sched_state_scheme \<Rightarrow> 'a sched_state_scheme option" where
  "ISchedulerTaskListCompare task_list compare_event last_event delta_us s = do {
     ((r, it), s) \<leftarrow> ListIteratorInit iterator_uninit task_list LIST_ITERATOR_DIRECTION_FORWARD s;
     if r = OS_RES_OK then TaskListCompare_loop task_list compare_event last_event delta_us it s else Some s
   }"

text \<open>The loop over the task lists of the kernel, followed by the execution queue.\<close>

fun compare_lists :: "lptr list \<Rightarrow> ptr \<Rightarrow> bool \<Rightarrow> U32_t \<Rightarrow> 'a sched_state_scheme \<Rightarrow> 'a sched_state_scheme option" where
  "compare_lists [] compare_event last_event delta_us s = Some s"
| "compare_lists (l # ls) compare_event last_event delta_us s = do {
     s \<leftarrow> ISchedulerTaskListCompare l compare_event last_event delta_us s;
     compare_lists ls compare_event last_event delta_us s
   }"

text \<open>An addressed event activates the task that its source field names, unless it is queued already.\<close>

definition broker_addressed :: "ptr \<Rightarrow> 'a sched_state_scheme \<Rightarrow> 'a sched_state_scheme option" where
  "broker_addressed occurred_event s = do {
     e \<leftarrow> event_at occurred_event s;
     (tcb, s) \<leftarrow> KTcbFromId (source_id e) s;
     if tcb \<noteq> NULL then do {
       (list, s) \<leftarrow> KTcbLocationGet tcb s;
       if list \<noteq> LNULL \<and> list \<noteq> ExecutionQueue then do {
         s \<leftarrow> KTaskStateSet tcb TASK_STATE_ACTIVE s;
         ISchedulerTaskAddDescendingPriority list ExecutionQueue tcb s
       } else Some s
     } else Some s
   }"

text \<open>The label \<^verbatim>\<open>event_cleanup\<close>: an emitted event other than the mock event ages and is destroyed at its end.\<close>

definition event_cleanup :: "ptr \<Rightarrow> U32_t \<Rightarrow> 'a sched_state_scheme \<Rightarrow> 'a sched_state_scheme option" where
  "event_cleanup occurred_event delta_us s = do {
     mock \<leftarrow> EventIsMock occurred_event s;
     if \<not> mock then do {
       (r, s) \<leftarrow> EventLifeTimeIncrement occurred_event delta_us s;
       if r = - 1 then do { (r, s) \<leftarrow> EventDestroy LNULL occurred_event s; Some s } else Some s
     } else Some s
   }"

definition broker_body ::
  "lptr list \<Rightarrow> U32_t \<Rightarrow> ListIterator \<Rightarrow> 'a sched_state_scheme \<Rightarrow> 'a sched_state_scheme option" where
  "broker_body tcb_lists delta_us it s = do {
     occurred_event \<leftarrow> ListNodeChildGet (it_current_node it) s;
     let last_event = (it_next_node it = NULL);
     addressed \<leftarrow> EventFlagGet occurred_event EVENT_FLAG_ADDRESSED s;
     s \<leftarrow> (if addressed then broker_addressed occurred_event s else Some s);
     s \<leftarrow> (if addressed \<and> \<not> last_event then Some s
           else do {
             s \<leftarrow> compare_lists tcb_lists occurred_event last_event delta_us s;
             ISchedulerTaskListCompare ExecutionQueue occurred_event last_event delta_us s
           });
     event_cleanup occurred_event delta_us s
   }"

partial_function (option) broker_loop ::
  "lptr list \<Rightarrow> U32_t \<Rightarrow> ListIterator \<Rightarrow> 'a sched_state_scheme \<Rightarrow> 'a sched_state_scheme option" where
  "broker_loop tcb_lists delta_us it s =
     (if it_current_node it \<noteq> NULL then do {
        s \<leftarrow> broker_body tcb_lists delta_us it s;
        (more, it) \<leftarrow> LIST_ITERATOR_END it s;
        if more then broker_loop tcb_lists delta_us it s else Some s
      } else Some s)"

text \<open>
  \<open>broker_micros\<close> is the static variable of the cycle. \<open>last_event\<close> starts false and is set at the last node of the
  list, so it is a function of the iterator.
\<close>

definition ISchedulerEventBrokerCycle :: "lptr list \<Rightarrow> 'a sched_state_scheme \<Rightarrow> 'a sched_state_scheme option" where
  "ISchedulerEventBrokerCycle tcb_lists s = do {
     el \<leftarrow> ll_at (SchedEventList s) s;
     if ll_size el = 0 then None
     else do {
       (delta_us, s) \<leftarrow> OsRunTimeMicrosDelta (broker_micros s) s;
       (micros, s) \<leftarrow> OsRunTimeMicrosGet s;
       let s = s\<lparr>broker_micros := micros\<rparr>;
       ((r, it), s) \<leftarrow> ListIteratorInit iterator_uninit (SchedEventList s) LIST_ITERATOR_DIRECTION_FORWARD s;
       if r = OS_RES_OK then broker_loop tcb_lists delta_us it s else Some s
     }
   }"

definition KSchedulerCycle :: "lptr list \<Rightarrow> 'a sched_state_scheme \<Rightarrow> 'a sched_state_scheme option" where
  "KSchedulerCycle tcb_lists s = ISchedulerEventBrokerCycle tcb_lists s"

end
