(* ===== verification/Timer.thy ===== *)
theory Timer
  imports Scheduler
begin

text \<open>
  \<^verbatim>\<open>Timer.c\<close>: software timers. The overflow callback is application code: the argument \<open>callback\<close> gives, for a
  function address, the effect of calling it with the timer's ID and context. \<open>TimerStartAll\<close>, \<open>TimerStopAll\<close>
  and \<open>TimerResetAll\<close> share a loop that never advances its index.
\<close>

datatype TmrState_t = TIMER_STATE_STOPPED | TIMER_STATE_RUNNING | TIMER_STATE_WAITING | TIMER_STATE_INVALID

definition TIMER_PARAMETER_ON :: U8_t where "TIMER_PARAMETER_ON = 0x01"
definition TIMER_PARAMETER_PERIODIC :: U8_t where "TIMER_PARAMETER_PERIODIC = 0x02"
definition TIMER_PARAMETER_AR :: U8_t where "TIMER_PARAMETER_AR = 0x04"

definition TIMER_PARAMETER_ITR_SET :: "U8_t \<Rightarrow> U8_t" where "TIMER_PARAMETER_ITR_SET itr = push_bit 3 itr"
definition TIMER_PARAMETER_ITR_GET :: "U8_t \<Rightarrow> U8_t" where "TIMER_PARAMETER_ITR_GET param = drop_bit 3 (param AND 0xF8)"

definition TIMER_EVENT_OVERFLOW :: U32_t where "TIMER_EVENT_OVERFLOW = EVENT_TYPE_STATE_CHANGE OR 0x00000001"
definition PRTOS_CONFIG_TIMER_INTERVAL_RESOLUTION_MS :: U32_t where "PRTOS_CONFIG_TIMER_INTERVAL_RESOLUTION_MS = 50"
definition SIZEOF_TIMER :: U32_t where "SIZEOF_TIMER = 44"

record Timer_t =
  ovf_callback :: ptr
  tm_context :: ptr
  tm_state :: TmrState_t
  parameter :: U8_t
  T_us :: U32_t
  ticks :: U32_t

record timer_state = sched_state +
  timers :: "ptr \<Rightarrow> Timer_t option"
  KTidTimerUpdate :: Id_t

definition TimerList :: lptr where "TimerList = LStatic 4"

definition zero_timer :: Timer_t where
  "zero_timer = \<lparr>ovf_callback = NULL, tm_context = NULL, tm_state = TIMER_STATE_STOPPED, parameter = 0, T_us = 0, ticks = 0\<rparr>"

definition timer_at :: "ptr \<Rightarrow> 'a timer_state_scheme \<Rightarrow> Timer_t option" where
  "timer_at p s = (if p = NULL then None else timers s p)"

definition timer_update :: "ptr \<Rightarrow> (Timer_t \<Rightarrow> Timer_t) \<Rightarrow> 'a timer_state_scheme \<Rightarrow> 'a timer_state_scheme option" where
  "timer_update p f s = do { t \<leftarrow> timer_at p s; Some (s\<lparr>timers := (timers s)(p \<mapsto> f t)\<rparr>) }"

definition timer_clear :: "ptr \<Rightarrow> 'a timer_state_scheme \<Rightarrow> 'a timer_state_scheme" where
  "timer_clear p s = (node_clear p s)\<lparr>timers := (timers s)(p \<mapsto> zero_timer)\<rparr>"

definition timer_alloc :: "'a timer_state_scheme \<Rightarrow> (ptr \<times> 'a timer_state_scheme) option" where
  "timer_alloc s = do {
     ((obj, obj_data), s) \<leftarrow> KMemAllocObject SIZEOF_TIMER 0 None s;
     Some (obj, timer_clear obj s)
   }"

definition timer_free :: "ptr \<Rightarrow> 'a timer_state_scheme \<Rightarrow> (OsResult_t \<times> 'a timer_state_scheme) option" where
  "timer_free p s = do {
     ((result, obj, obj_data), s) \<leftarrow> KMemFreeObject (Some p) None s;
     Some (result, if result = OS_RES_OK then timer_clear p s else s)
   }"

subsection \<open>Creating, finding and deleting timers\<close>

definition KTimerInit :: "ptr \<Rightarrow> 'a timer_state_scheme \<Rightarrow> (OsResult_t \<times> 'a timer_state_scheme) option" where
  "KTimerInit update_task s = do {
     (r, s) \<leftarrow> ListInit TimerList ID_GROUP_TIMER s;
     (tid, s) \<leftarrow> KernelTaskCreate update_task 1 TASK_PARAMETER_ESSENTIAL 0 NULL PRTOS_CONFIG_TIMER_INTERVAL_RESOLUTION_MS s;
     let s = s\<lparr>KTidTimerUpdate := tid\<rparr>;
     Some (if tid \<noteq> ID_INVALID then OS_RES_OK else OS_RES_ERROR, s)
   }"

definition ITimerFromId :: "Id_t \<Rightarrow> 'a timer_state_scheme \<Rightarrow> (ptr \<times> 'a timer_state_scheme) option" where
  "ITimerFromId timer_id s = do {
     (node, s) \<leftarrow> ListSearch TimerList timer_id s;
     if node \<noteq> NULL then do { p \<leftarrow> ListNodeChildGet node s; Some (p, s) } else Some (NULL, s)
   }"

definition ITimerCreate :: "'a timer_state_scheme \<Rightarrow> (ptr \<times> 'a timer_state_scheme) option" where
  "ITimerCreate s = do {
     (new_timer, s) \<leftarrow> timer_alloc s;
     if new_timer = NULL then Some (NULL, s)
     else do {
       (r, s) \<leftarrow> ListNodeInit new_timer new_timer s;
       (result, s) \<leftarrow> ListNodeAddSorted TimerList new_timer s;
       if result \<noteq> OS_RES_OK then do {
         (r, s) \<leftarrow> ListNodeDeinit TimerList new_timer s;
         (r, s) \<leftarrow> timer_free new_timer s;
         Some (NULL, s)
       } else do {
         s \<leftarrow> timer_update new_timer (\<lambda>t. t\<lparr>T_us := 0, tm_state := TIMER_STATE_STOPPED, ticks := 0, parameter := 0,
                ovf_callback := NULL\<rparr>) s;
         Some (new_timer, s)
       }
     }
   }"

definition TimerDelete :: "Id_t \<Rightarrow> 'a timer_state_scheme \<Rightarrow> ((OsResult_t \<times> Id_t) \<times> 'a timer_state_scheme) option" where
  "TimerDelete timer_id s =
     (if timer_id = ID_INVALID then Some ((OS_RES_INVALID_ID, timer_id), s)
      else do {
        (rm_timer, s) \<leftarrow> ITimerFromId timer_id s;
        if rm_timer \<noteq> NULL then do {
          (r, s) \<leftarrow> ListNodeDeinit TimerList rm_timer s;
          (r, s) \<leftarrow> timer_free rm_timer s;
          Some ((OS_RES_OK, ID_INVALID), s)
        } else Some ((OS_RES_ERROR, timer_id), s)
      })"

subsection \<open>Access to one timer\<close>

text \<open>A change of the timer with the given ID, in a write access block; the result tells whether it was made.\<close>

definition timer_write :: "Id_t \<Rightarrow> (Timer_t \<Rightarrow> Timer_t) \<Rightarrow> 'a timer_state_scheme \<Rightarrow> (unit \<times> 'a timer_state_scheme) option" where
  "timer_write timer_id f = LIST_NODE_ACCESS LIST_LOCK_MODE_WRITE TimerList timer_id (\<lambda>node s. do {
     tmp_timer \<leftarrow> ListNodeChildGet node s;
     s \<leftarrow> timer_update tmp_timer f s;
     Some ((), s)
   }) ()"

definition timer_read :: "Id_t \<Rightarrow> (Timer_t \<Rightarrow> 'r) \<Rightarrow> 'r \<Rightarrow> 'a timer_state_scheme \<Rightarrow> ('r \<times> 'a timer_state_scheme) option" where
  "timer_read timer_id f x = LIST_NODE_ACCESS LIST_LOCK_MODE_READ TimerList timer_id (\<lambda>node s. do {
     tmp_timer \<leftarrow> ListNodeChildGet node s;
     t \<leftarrow> timer_at tmp_timer s;
     Some (f t, s)
   }) x"

definition TimerReset :: "Id_t \<Rightarrow> 'a timer_state_scheme \<Rightarrow> (OsResult_t \<times> 'a timer_state_scheme) option" where
  "TimerReset timer_id s =
     LIST_NODE_ACCESS LIST_LOCK_MODE_WRITE TimerList timer_id (\<lambda>node s. do {
       tmp_timer \<leftarrow> ListNodeChildGet node s;
       if tmp_timer \<noteq> NULL then do {
         s \<leftarrow> timer_update tmp_timer (\<lambda>t. t\<lparr>ticks := 0\<rparr>) s;
         Some (OS_RES_OK, s)
       } else Some (OS_RES_ERROR, s)
     }) OS_RES_ERROR s"

definition TimerPause :: "Id_t \<Rightarrow> 'a timer_state_scheme \<Rightarrow> (unit \<times> 'a timer_state_scheme) option" where
  "TimerPause timer_id s = timer_write timer_id (\<lambda>t. t\<lparr>tm_state := TIMER_STATE_WAITING\<rparr>) s"

definition TimerStop :: "Id_t \<Rightarrow> 'a timer_state_scheme \<Rightarrow> (unit \<times> 'a timer_state_scheme) option" where
  "TimerStop timer_id s = timer_write timer_id (\<lambda>t. t\<lparr>tm_state := TIMER_STATE_STOPPED, ticks := 0\<rparr>) s"

definition TimerStart :: "Id_t \<Rightarrow> 'a timer_state_scheme \<Rightarrow> (unit \<times> 'a timer_state_scheme) option" where
  "TimerStart timer_id s = timer_write timer_id (\<lambda>t. t\<lparr>tm_state := TIMER_STATE_RUNNING\<rparr>) s"

definition TimerStateGet :: "Id_t \<Rightarrow> 'a timer_state_scheme \<Rightarrow> (TmrState_t \<times> 'a timer_state_scheme) option" where
  "TimerStateGet timer_id s = timer_read timer_id tm_state TIMER_STATE_INVALID s"

definition TimerTicksGet :: "Id_t \<Rightarrow> 'a timer_state_scheme \<Rightarrow> (U32_t \<times> 'a timer_state_scheme) option" where
  "TimerTicksGet timer_id s = timer_read timer_id ticks 0 s"

definition TimerIntervalSet :: "Id_t \<Rightarrow> U32_t \<Rightarrow> 'a timer_state_scheme \<Rightarrow> (unit \<times> 'a timer_state_scheme) option" where
  "TimerIntervalSet timer_id new_interval_ms s = timer_write timer_id (\<lambda>t. t\<lparr>T_us := new_interval_ms * 1000\<rparr>) s"

definition TimerIntervalGet :: "Id_t \<Rightarrow> 'a timer_state_scheme \<Rightarrow> (U32_t \<times> 'a timer_state_scheme) option" where
  "TimerIntervalGet timer_id s = timer_read timer_id T_us 0 s"

definition TimerIterationsGet :: "Id_t \<Rightarrow> 'a timer_state_scheme \<Rightarrow> (U8_t \<times> 'a timer_state_scheme) option" where
  "TimerIterationsGet timer_id s = timer_read timer_id (\<lambda>t. TIMER_PARAMETER_ITR_GET (parameter t)) 0 s"

definition TimerIterationsSet :: "Id_t \<Rightarrow> U8_t \<Rightarrow> 'a timer_state_scheme \<Rightarrow> (OsResult_t \<times> 'a timer_state_scheme) option" where
  "TimerIterationsSet timer_id iterations s =
     (let result = (if iterations > 31 \<or> iterations = 0 then OS_RES_INVALID_ARGUMENT else OS_RES_OK)
      in LIST_NODE_ACCESS LIST_LOCK_MODE_WRITE TimerList timer_id (\<lambda>node s. do {
        tmp_timer \<leftarrow> ListNodeChildGet node s;
        if tmp_timer \<noteq> NULL \<and> result = OS_RES_OK then do {
          s \<leftarrow> timer_update tmp_timer (\<lambda>t. t\<lparr>parameter := (parameter t AND 0x07) OR TIMER_PARAMETER_ITR_SET iterations\<rparr>) s;
          Some (result, s)
        } else Some (OS_RES_ERROR, s)
      }) result s)"

definition TimerParameterGet :: "Id_t \<Rightarrow> 'a timer_state_scheme \<Rightarrow> (U8_t \<times> 'a timer_state_scheme) option" where
  "TimerParameterGet timer_id s = timer_read timer_id parameter 0 s"

definition TimerParameterSet :: "Id_t \<Rightarrow> U8_t \<Rightarrow> 'a timer_state_scheme \<Rightarrow> (unit \<times> 'a timer_state_scheme) option" where
  "TimerParameterSet timer_id paramtr s = timer_write timer_id (\<lambda>t. t\<lparr>parameter := paramtr\<rparr>) s"

definition TimerCreate :: "U32_t \<Rightarrow> U8_t \<Rightarrow> ptr \<Rightarrow> ptr \<Rightarrow> 'a timer_state_scheme \<Rightarrow> (Id_t \<times> 'a timer_state_scheme) option" where
  "TimerCreate interval_ms param overflow_callback ctx s =
     (if interval_ms = 0 then Some (ID_INVALID, s)
      else do {
        (new_timer, s) \<leftarrow> ITimerCreate s;
        if new_timer = NULL then Some (ID_INVALID, s)
        else do {
          new_timer_id \<leftarrow> ListNodeIdGet new_timer s;
          s \<leftarrow> timer_update new_timer (\<lambda>t. t\<lparr>T_us := interval_ms * 1000, parameter := param,
                 ovf_callback := overflow_callback, tm_context := ctx\<rparr>) s;
          s \<leftarrow> (if param AND TIMER_PARAMETER_ON \<noteq> 0 then do { (u, s) \<leftarrow> TimerStart new_timer_id s; Some s } else Some s);
          Some (new_timer_id, s)
        }
      })"

subsection \<open>All timers\<close>

text \<open>The body of the loop, and the loop; the index \<open>i\<close> is 0 throughout.\<close>

definition timer_all_body :: "(Timer_t \<Rightarrow> Timer_t) \<Rightarrow> 'a timer_state_scheme \<Rightarrow> (ptr \<times> 'a timer_state_scheme) option" where
  "timer_all_body f s = do {
     node \<leftarrow> ListNodePeek TimerList 0 s;
     list_pointer \<leftarrow> ListNodeChildGet node s;
     s \<leftarrow> (if list_pointer \<noteq> NULL then timer_update list_pointer f s else Some s);
     Some (list_pointer, s)
   }"

partial_function (option) timer_all_loop ::
  "(Timer_t \<Rightarrow> Timer_t) \<Rightarrow> ptr \<Rightarrow> 'a timer_state_scheme \<Rightarrow> 'a timer_state_scheme option" where
  "timer_all_loop f list_pointer s =
     (if list_pointer \<noteq> NULL then do {
        (list_pointer, s) \<leftarrow> timer_all_body f s;
        timer_all_loop f list_pointer s
      } else Some s)"

definition timer_all :: "(Timer_t \<Rightarrow> Timer_t) \<Rightarrow> 'a timer_state_scheme \<Rightarrow> 'a timer_state_scheme option" where
  "timer_all f s = do {
     node \<leftarrow> ListNodePeek TimerList 0 s;
     list_pointer \<leftarrow> ListNodeChildGet node s;
     timer_all_loop f list_pointer s
   }"

definition TimerStartAll :: "'a timer_state_scheme \<Rightarrow> 'a timer_state_scheme option" where
  "TimerStartAll s = timer_all (\<lambda>t. t\<lparr>tm_state := TIMER_STATE_RUNNING\<rparr>) s"

definition TimerStopAll :: "'a timer_state_scheme \<Rightarrow> 'a timer_state_scheme option" where
  "TimerStopAll s = timer_all (\<lambda>t. t\<lparr>tm_state := TIMER_STATE_STOPPED\<rparr>) s"

definition TimerResetAll :: "'a timer_state_scheme \<Rightarrow> 'a timer_state_scheme option" where
  "TimerResetAll s = timer_all (\<lambda>t. t\<lparr>ticks := 0\<rparr>) s"

text \<open>What happens to a timer that overflows, after its event and its callback: the new timer, and whether to delete it.\<close>

definition timer_overflow :: "Timer_t \<Rightarrow> Timer_t \<times> bool" where
  "timer_overflow t =
     (let t = (if parameter t AND TIMER_PARAMETER_AR \<noteq> 0 then t\<lparr>ticks := 0\<rparr> else t);
          t = (if parameter t AND TIMER_PARAMETER_ON \<noteq> 0 then t\<lparr>tm_state := TIMER_STATE_RUNNING\<rparr> else t)
      in if parameter t AND TIMER_PARAMETER_PERIODIC = 0 then
           (let iter = TIMER_PARAMETER_ITR_GET (parameter t) - 1
            in if iter = 0 then (t, True) else (t\<lparr>parameter := parameter t OR TIMER_PARAMETER_ITR_SET iter\<rparr>, False))
         else (t, False))"

definition KTimerUpdate_body ::
  "(ptr \<Rightarrow> Id_t \<Rightarrow> ptr \<Rightarrow> 'a timer_state_scheme \<Rightarrow> 'a timer_state_scheme option) \<Rightarrow> U32_t \<Rightarrow> ptr \<Rightarrow>
     'a timer_state_scheme \<Rightarrow> 'a timer_state_scheme option" where
  "KTimerUpdate_body callback t_us node s = do {
     timer \<leftarrow> ListNodeChildGet node s;
     t \<leftarrow> timer_at timer s;
     if tm_state t = TIMER_STATE_RUNNING then do {
       s \<leftarrow> timer_update timer (\<lambda>t. t\<lparr>ticks := ticks t + t_us\<rparr>) s;
       t \<leftarrow> timer_at timer s;
       if ticks t \<ge> T_us t then do {
         timer_id \<leftarrow> ListNodeIdGet timer s;
         s \<leftarrow> timer_update timer (\<lambda>t. t\<lparr>tm_state := TIMER_STATE_WAITING\<rparr>) s;
         (r, s) \<leftarrow> EventEmit timer_id TIMER_EVENT_OVERFLOW EVENT_FLAG_NONE s;
         t \<leftarrow> timer_at timer s;
         s \<leftarrow> (if ovf_callback t \<noteq> NULL then do {
             oid \<leftarrow> ListNodeIdGet timer s;
             callback (ovf_callback t) oid (tm_context t) s
           } else Some s);
         t \<leftarrow> timer_at timer s;
         s \<leftarrow> timer_update timer (\<lambda>t. fst (timer_overflow t)) s;
         if snd (timer_overflow t) then do { (r, s) \<leftarrow> TimerDelete timer_id s; Some s } else Some s
       } else Some s
     } else Some s
   }"

partial_function (option) KTimerUpdate_loop ::
  "(ptr \<Rightarrow> Id_t \<Rightarrow> ptr \<Rightarrow> 'a timer_state_scheme \<Rightarrow> 'a timer_state_scheme option) \<Rightarrow> U32_t \<Rightarrow> ListIterator \<Rightarrow>
     'a timer_state_scheme \<Rightarrow> 'a timer_state_scheme option" where
  "KTimerUpdate_loop callback t_us it s = do {
     s \<leftarrow> (if it_current_node it \<noteq> NULL then KTimerUpdate_body callback t_us (it_current_node it) s else Some s);
     (more, it) \<leftarrow> LIST_ITERATOR_END it s;
     if more then KTimerUpdate_loop callback t_us it s else Some s
   }"

definition KTimerUpdateAll ::
  "(ptr \<Rightarrow> Id_t \<Rightarrow> ptr \<Rightarrow> 'a timer_state_scheme \<Rightarrow> 'a timer_state_scheme option) \<Rightarrow> U32_t \<Rightarrow>
     'a timer_state_scheme \<Rightarrow> 'a timer_state_scheme option" where
  "KTimerUpdateAll callback t_us s = do {
     list_pointer \<leftarrow> ListNodePeek TimerList LIST_POSITION_HEAD s;
     if list_pointer \<noteq> NULL then do {
       ((r, it), s) \<leftarrow> ListIteratorInit iterator_uninit TimerList LIST_ITERATOR_DIRECTION_FORWARD s;
       if r = OS_RES_OK then KTimerUpdate_loop callback t_us it s else Some s
     } else Some s
   }"

end
