(* ===== verification/Eventgroup.thy ===== *)
theory Eventgroup
  imports Timer
begin

text \<open>
  \<^verbatim>\<open>Eventgroup.c\<close>: groups of eight event flags, with an event for every change of a flag.
\<close>

definition EVENTGROUP_EVENT_FLAG_SET :: "U8_t \<Rightarrow> U32_t" where
  "EVENTGROUP_EVENT_FLAG_SET flag_mask = EVENT_TYPE_STATE_CHANGE OR 0x00001000 OR ucast flag_mask"

definition EVENTGROUP_EVENT_FLAG_CLEAR :: "U8_t \<Rightarrow> U32_t" where
  "EVENTGROUP_EVENT_FLAG_CLEAR flag_mask = EVENT_TYPE_STATE_CHANGE OR 0x00002000 OR ucast flag_mask"

definition SIZEOF_EVENTGROUP :: U32_t where "SIZEOF_EVENTGROUP = 28"

record EventGrp_t =
  eg_id :: Id_t
  event_reg :: U8_t

record eventgroup_state = timer_state +
  eventgroups :: "ptr \<Rightarrow> EventGrp_t option"

definition EventGroupList :: lptr where "EventGroupList = LStatic 5"

definition eventgroup_at :: "ptr \<Rightarrow> 'a eventgroup_state_scheme \<Rightarrow> EventGrp_t option" where
  "eventgroup_at p s = (if p = NULL then None else eventgroups s p)"

definition eventgroup_update ::
  "ptr \<Rightarrow> (EventGrp_t \<Rightarrow> EventGrp_t) \<Rightarrow> 'a eventgroup_state_scheme \<Rightarrow> 'a eventgroup_state_scheme option" where
  "eventgroup_update p f s = do { g \<leftarrow> eventgroup_at p s; Some (s\<lparr>eventgroups := (eventgroups s)(p \<mapsto> f g)\<rparr>) }"

definition eventgroup_clear :: "ptr \<Rightarrow> 'a eventgroup_state_scheme \<Rightarrow> 'a eventgroup_state_scheme" where
  "eventgroup_clear p s = (node_clear p s)\<lparr>eventgroups := (eventgroups s)(p \<mapsto> \<lparr>eg_id = 0, event_reg = 0\<rparr>)\<rparr>"

definition eventgroup_alloc :: "'a eventgroup_state_scheme \<Rightarrow> (ptr \<times> 'a eventgroup_state_scheme) option" where
  "eventgroup_alloc s = do {
     ((obj, obj_data), s) \<leftarrow> KMemAllocObject SIZEOF_EVENTGROUP 0 None s;
     Some (obj, eventgroup_clear obj s)
   }"

definition eventgroup_free :: "ptr \<Rightarrow> 'a eventgroup_state_scheme \<Rightarrow> (OsResult_t \<times> 'a eventgroup_state_scheme) option" where
  "eventgroup_free p s = do {
     ((result, obj, obj_data), s) \<leftarrow> KMemFreeObject (Some p) None s;
     Some (result, if result = OS_RES_OK then eventgroup_clear p s else s)
   }"

definition KEventgroupInit :: "'a eventgroup_state_scheme \<Rightarrow> (OsResult_t \<times> 'a eventgroup_state_scheme) option" where
  "KEventgroupInit s = do { (r, s) \<leftarrow> ListInit EventGroupList ID_GROUP_EVENTGROUP s; Some (OS_RES_OK, s) }"

definition EventgroupCreate :: "'a eventgroup_state_scheme \<Rightarrow> (Id_t \<times> 'a eventgroup_state_scheme) option" where
  "EventgroupCreate s = do {
     (new_eventgrp, s) \<leftarrow> eventgroup_alloc s;
     if new_eventgrp = NULL then Some (ID_INVALID, s)
     else do {
       (r, s) \<leftarrow> ListNodeInit new_eventgrp new_eventgrp s;
       (r, s) \<leftarrow> ListNodeAddSorted EventGroupList new_eventgrp s;
       if r \<noteq> OS_RES_OK then do {
         (r, s) \<leftarrow> eventgroup_free new_eventgrp s;
         Some (ID_INVALID, s)
       } else do {
         s \<leftarrow> eventgroup_update new_eventgrp (\<lambda>g. g\<lparr>event_reg := 0\<rparr>) s;
         n \<leftarrow> node_at new_eventgrp s;
         Some (node_id n, s)
       }
     }
   }"

text \<open>The argument and the second result are the values of \<^verbatim>\<open>*eventgroup_id\<close>.\<close>

definition EventgroupDelete ::
  "Id_t \<Rightarrow> 'a eventgroup_state_scheme \<Rightarrow> ((OsResult_t \<times> Id_t) \<times> 'a eventgroup_state_scheme) option" where
  "EventgroupDelete eventgroup_id s =
     (if eventgroup_id = ID_INVALID then Some ((OS_RES_INVALID_ID, eventgroup_id), s)
      else if IdIsInGroup eventgroup_id ID_GROUP_EVENTGROUP = 0 then Some ((OS_RES_INVALID_ID, eventgroup_id), s)
      else do {
        ll \<leftarrow> ll_at EventGroupList s;
        if ll_lock ll \<noteq> 0 then Some ((OS_RES_LOCKED, eventgroup_id), s)
        else do {
          (node, s) \<leftarrow> ListSearch EventGroupList eventgroup_id s;
          eventgroup \<leftarrow> ListNodeChildGet node s;
          (r, s) \<leftarrow> ListNodeDeinit EventGroupList node s;
          (r, s) \<leftarrow> eventgroup_free eventgroup s;
          Some ((OS_RES_OK, ID_INVALID), s)
        }
      })"

text \<open>
  The loops over the bits of the mask, from the top bit down: for every bit that is set an event is emitted, and
  each of them carries the whole mask. The result is that of the last one.
\<close>

fun emit_bits ::
  "nat \<Rightarrow> U8_t \<Rightarrow> U8_t \<Rightarrow> Id_t \<Rightarrow> U32_t \<Rightarrow> OsResult_t \<Rightarrow> 'a eventgroup_state_scheme \<Rightarrow> (OsResult_t \<times> 'a eventgroup_state_scheme) option" where
  "emit_bits 0 bitmask msk src code result s = Some (result, s)"
| "emit_bits (Suc i) bitmask msk src code result s = do {
     (result, s) \<leftarrow> (if bitmask AND msk \<noteq> 0 then EventEmit src code EVENT_FLAG_NONE s else Some (result, s));
     emit_bits i (drop_bit 1 bitmask) msk src code result s
   }"

definition EventgroupFlagsSet :: "Id_t \<Rightarrow> U8_t \<Rightarrow> 'a eventgroup_state_scheme \<Rightarrow> (unit \<times> 'a eventgroup_state_scheme) option" where
  "EventgroupFlagsSet eventgroup_id msk s =
     LIST_NODE_ACCESS LIST_LOCK_MODE_WRITE EventGroupList eventgroup_id (\<lambda>node s. do {
       eventgroup \<leftarrow> ListNodeChildGet node s;
       if eventgroup \<noteq> NULL then do {
         s \<leftarrow> eventgroup_update eventgroup (\<lambda>g. g\<lparr>event_reg := event_reg g OR msk\<rparr>) s;
         (r, s) \<leftarrow> emit_bits 8 0x80 msk eventgroup_id (EVENTGROUP_EVENT_FLAG_SET msk) OS_RES_OK s;
         Some ((), s)
       } else Some ((), s)
     }) () s"

definition EventgroupFlagsClear ::
  "Id_t \<Rightarrow> U8_t \<Rightarrow> 'a eventgroup_state_scheme \<Rightarrow> (OsResult_t \<times> 'a eventgroup_state_scheme) option" where
  "EventgroupFlagsClear eventgroup_id msk s =
     LIST_NODE_ACCESS LIST_LOCK_MODE_WRITE EventGroupList eventgroup_id (\<lambda>node s. do {
       eventgroup \<leftarrow> ListNodeChildGet node s;
       if eventgroup \<noteq> NULL then do {
         s \<leftarrow> eventgroup_update eventgroup (\<lambda>g. g\<lparr>event_reg := event_reg g AND NOT msk\<rparr>) s;
         emit_bits 8 0x80 msk eventgroup_id (EVENTGROUP_EVENT_FLAG_CLEAR msk) OS_RES_OK s
       } else Some (OS_RES_ERROR, s)
     }) OS_RES_LOCKED s"

definition EventgroupFlagsGet :: "Id_t \<Rightarrow> U8_t \<Rightarrow> 'a eventgroup_state_scheme \<Rightarrow> (U8_t \<times> 'a eventgroup_state_scheme) option" where
  "EventgroupFlagsGet eventgroup_id msk s =
     LIST_NODE_ACCESS LIST_LOCK_MODE_READ EventGroupList eventgroup_id (\<lambda>node s. do {
       eventgroup \<leftarrow> ListNodeChildGet node s;
       if eventgroup \<noteq> NULL then do { g \<leftarrow> eventgroup_at eventgroup s; Some (event_reg g AND msk, s) }
       else Some (0, s)
     }) 0 s"

definition EventgroupFlagsAreSet :: "Id_t \<Rightarrow> U8_t \<Rightarrow> 'a eventgroup_state_scheme \<Rightarrow> (U8_t \<times> 'a eventgroup_state_scheme) option" where
  "EventgroupFlagsAreSet eventgroup_id msk s =
     LIST_NODE_ACCESS LIST_LOCK_MODE_READ EventGroupList eventgroup_id (\<lambda>node s. do {
       eventgroup \<leftarrow> ListNodeChildGet node s;
       if eventgroup \<noteq> NULL then do { g \<leftarrow> eventgroup_at eventgroup s; Some (if event_reg g AND msk = msk then 1 else 0, s) }
       else Some (0, s)
     }) 0 s"

definition EventgroupFlagsRequireCleared ::
  "Id_t \<Rightarrow> U8_t \<Rightarrow> U32_t \<Rightarrow> 'a eventgroup_state_scheme \<Rightarrow> (OsResult_t \<times> 'a eventgroup_state_scheme) option" where
  "EventgroupFlagsRequireCleared eventgroup_id msk timeout s =
     sys_call_enter eventgroup_id (EVENTGROUP_EVENT_FLAG_CLEAR msk) (\<lambda>result s.
       LIST_NODE_ACCESS LIST_LOCK_MODE_READ EventGroupList eventgroup_id (\<lambda>node s. do {
         (flgs, s) \<leftarrow> EventgroupFlagsGet eventgroup_id msk s;
         if flgs \<noteq> 0 then SYS_CALL_EVENT_REGISTER eventgroup_id (EVENTGROUP_EVENT_FLAG_CLEAR msk) timeout s
         else Some (OS_RES_OK, s)
       }) result s) s"

definition EventgroupFlagsRequireSet ::
  "Id_t \<Rightarrow> U8_t \<Rightarrow> U32_t \<Rightarrow> 'a eventgroup_state_scheme \<Rightarrow> (OsResult_t \<times> 'a eventgroup_state_scheme) option" where
  "EventgroupFlagsRequireSet eventgroup_id msk timeout s =
     sys_call_enter eventgroup_id (EVENTGROUP_EVENT_FLAG_SET msk) (\<lambda>result s.
       LIST_NODE_ACCESS LIST_LOCK_MODE_READ EventGroupList eventgroup_id (\<lambda>node s. do {
         (flgs, s) \<leftarrow> EventgroupFlagsGet eventgroup_id msk s;
         if flgs = 0 then SYS_CALL_EVENT_REGISTER eventgroup_id (EVENTGROUP_EVENT_FLAG_SET msk) timeout s
         else Some (OS_RES_OK, s)
       }) result s) s"

end
