(* ===== verification/Semaphore.thy ===== *)
theory Semaphore
  imports Eventgroup
begin

text \<open>
  \<^verbatim>\<open>Semaphore.c\<close>: binary semaphores. \<open>owner_task_ids\<close> points to an array of IDs in the OS heap, which is read and
  written as bytes. The recursive and the counting type exist only as constants in the code.
\<close>

definition SEMAPHORE_TYPE_MUTEX_BINARY :: U8_t where "SEMAPHORE_TYPE_MUTEX_BINARY = 0x01"
definition SEMAPHORE_TYPE_MUTEX_RECURSIVE :: U8_t where "SEMAPHORE_TYPE_MUTEX_RECURSIVE = 0x02"
definition SEMAPHORE_TYPE_COUNTING :: U8_t where "SEMAPHORE_TYPE_COUNTING = 0x03"
definition SEM_EVENT_RELEASE :: U32_t where "SEM_EVENT_RELEASE = EVENT_TYPE_ACCESS OR 0x00002000"
definition SIZEOF_SEM :: U32_t where "SIZEOF_SEM = 28"

record Sem_t =
  sem_type :: U8_t
  max_cnt :: U8_t
  aq_cnt :: U8_t
  owner_task_ids :: ptr

record sem_state = eventgroup_state +
  sems :: "ptr \<Rightarrow> Sem_t option"

definition SemList :: lptr where "SemList = LStatic 6"

definition zero_sem :: Sem_t where "zero_sem = \<lparr>sem_type = 0, max_cnt = 0, aq_cnt = 0, owner_task_ids = NULL\<rparr>"

definition sem_at :: "ptr \<Rightarrow> 'a sem_state_scheme \<Rightarrow> Sem_t option" where
  "sem_at p s = (if p = NULL then None else sems s p)"

definition sem_update :: "ptr \<Rightarrow> (Sem_t \<Rightarrow> Sem_t) \<Rightarrow> 'a sem_state_scheme \<Rightarrow> 'a sem_state_scheme option" where
  "sem_update p f s = do { m \<leftarrow> sem_at p s; Some (s\<lparr>sems := (sems s)(p \<mapsto> f m)\<rparr>) }"

definition sem_clear :: "ptr \<Rightarrow> 'a sem_state_scheme \<Rightarrow> 'a sem_state_scheme" where
  "sem_clear p s = (node_clear p s)\<lparr>sems := (sems s)(p \<mapsto> zero_sem)\<rparr>"

text \<open>A word of the OS heap through a pointer.\<close>

definition heap_index :: "ptr \<Rightarrow> 'a mem_state_scheme \<Rightarrow> nat option" where
  "heap_index p s = (if p \<noteq> NULL \<and> HeapBase s \<le> p \<and> p < HeapBase s + unat (TotalHeapSize s) then Some (p - HeapBase s) else None)"

definition word_read :: "ptr \<Rightarrow> 'a mem_state_scheme \<Rightarrow> U32_t option" where
  "word_read p s = do { i \<leftarrow> heap_index p s; Heap_read32 (word_of_nat i) s }"

definition word_write :: "ptr \<Rightarrow> U32_t \<Rightarrow> 'a mem_state_scheme \<Rightarrow> 'a mem_state_scheme option" where
  "word_write p v s = do { i \<leftarrow> heap_index p s; Heap_write32 (word_of_nat i) v s }"

definition KSemaphoreInit :: "'a sem_state_scheme \<Rightarrow> (OsResult_t \<times> 'a sem_state_scheme) option" where
  "KSemaphoreInit s = do { (r, s) \<leftarrow> ListInit SemList ID_GROUP_SEMAPHORE s; Some (OS_RES_OK, s) }"

definition ISemaphoreFromId :: "Id_t \<Rightarrow> 'a sem_state_scheme \<Rightarrow> (ptr \<times> 'a sem_state_scheme) option" where
  "ISemaphoreFromId sem_id s = do {
     (node, s) \<leftarrow> ListSearch SemList sem_id s;
     if node \<noteq> NULL then do { p \<leftarrow> ListNodeChildGet node s; Some (p, s) } else Some (NULL, s)
   }"

text \<open>
  The condition on the type is a disjunction with a non-zero constant in the code, so it always holds. The
  allocation gives the semaphore and the pointer to its data.
\<close>

definition SemaphoreCreate :: "U8_t \<Rightarrow> U8_t \<Rightarrow> 'a sem_state_scheme \<Rightarrow> (Id_t \<times> 'a sem_state_scheme) option" where
  "SemaphoreCreate type max_count s = do {
     ((new_sem, data), s) \<leftarrow> KMemAllocObject SIZEOF_SEM (4 * ucast max_count) (Some NULL) s;
     let new_sem_data = (case data of None \<Rightarrow> NULL | Some d \<Rightarrow> d);
     let s = sem_clear new_sem s;
     if new_sem \<noteq> NULL then do {
       (r, s) \<leftarrow> ListNodeInit new_sem new_sem s;
       if r = OS_RES_OK then do {
         (r, s) \<leftarrow> ListNodeAddSorted SemList new_sem s;
         if r = OS_RES_OK then do {
           s \<leftarrow> sem_update new_sem (\<lambda>m. m\<lparr>sem_type := type,
                  max_cnt := (if type = SEMAPHORE_TYPE_MUTEX_BINARY \<or> SEMAPHORE_TYPE_MUTEX_RECURSIVE \<noteq> 0 then 1 else max_count),
                  aq_cnt := 0, owner_task_ids := new_sem_data\<rparr>) s;
           n \<leftarrow> node_at new_sem s;
           Some (node_id n, s)
         } else do {
           ((result, obj, obj_data), s) \<leftarrow> KMemFreeObject (Some new_sem) (Some new_sem_data) s;
           Some (ID_INVALID, if result = OS_RES_OK then sem_clear new_sem s else s)
         }
       } else Some (ID_INVALID, s)
     } else Some (ID_INVALID, s)
   }"

text \<open>
  \<open>SemaphoreDelete\<close> passes \<open>owner_task_ids\<close> itself where \<open>KMemFreeObject\<close> expects the address of a pointer: the
  first word of the array is taken for the pointer to free, and is overwritten when that succeeds.
\<close>

definition SemaphoreDelete :: "Id_t \<Rightarrow> 'a sem_state_scheme \<Rightarrow> ((OsResult_t \<times> Id_t) \<times> 'a sem_state_scheme) option" where
  "SemaphoreDelete sem_id s = do {
     (sem, s) \<leftarrow> ISemaphoreFromId sem_id s;
     if sem \<noteq> NULL then do {
       (r, s) \<leftarrow> ListNodeDeinit SemList sem s;
       m \<leftarrow> sem_at sem s;
       let ids_ptr = owner_task_ids m;
       data \<leftarrow> (if ids_ptr = NULL then Some None else do { w \<leftarrow> word_read ids_ptr s; Some (Some (unat w)) });
       ((result, obj, data'), s) \<leftarrow> KMemFreeObject (Some sem) data s;
       s \<leftarrow> (case data' of None \<Rightarrow> Some s | Some d \<Rightarrow> word_write ids_ptr (word_of_nat d) s);
       Some ((OS_RES_OK, ID_INVALID), if result = OS_RES_OK then sem_clear sem s else s)
     } else Some ((OS_RES_ERROR, sem_id), s)
   }"

definition SemaphoreAcquire :: "Id_t \<Rightarrow> U32_t \<Rightarrow> 'a sem_state_scheme \<Rightarrow> (OsResult_t \<times> 'a sem_state_scheme) option" where
  "SemaphoreAcquire sem_id timeout s =
     sys_call_enter sem_id SEM_EVENT_RELEASE (\<lambda>result s.
       LIST_NODE_ACCESS LIST_LOCK_MODE_WRITE SemList sem_id (\<lambda>node s. do {
         sem \<leftarrow> ListNodeChildGet node s;
         if sem \<noteq> NULL then do {
           m \<leftarrow> sem_at sem s;
           if sem_type m = SEMAPHORE_TYPE_MUTEX_BINARY then
             (if aq_cnt m = 0 then do {
                s \<leftarrow> sem_update sem (\<lambda>m. m\<lparr>aq_cnt := aq_cnt m + 1\<rparr>) s;
                (tid, s) \<leftarrow> KCoreTaskRunningGet s;
                s \<leftarrow> word_write (owner_task_ids m) tid s;
                Some (OS_RES_OK, s)
              } else SYS_CALL_EVENT_REGISTER sem_id SEM_EVENT_RELEASE timeout s)
           else Some (result, s)
         } else Some (OS_RES_ERROR, s)
       }) result s) s"

definition SemaphoreRelease :: "Id_t \<Rightarrow> 'a sem_state_scheme \<Rightarrow> (OsResult_t \<times> 'a sem_state_scheme) option" where
  "SemaphoreRelease sem_id s =
     LIST_NODE_ACCESS LIST_LOCK_MODE_WRITE SemList sem_id (\<lambda>node s. do {
       sem \<leftarrow> ListNodeChildGet node s;
       if sem \<noteq> NULL then do {
         m \<leftarrow> sem_at sem s;
         if sem_type m = SEMAPHORE_TYPE_MUTEX_BINARY then
           (if aq_cnt m = 1 then do {
              s \<leftarrow> sem_update sem (\<lambda>m. m\<lparr>aq_cnt := aq_cnt m - 1, owner_task_ids := NULL\<rparr>) s;
              Some (OS_RES_OK, s)
            } else Some (OS_RES_LOCKED, s))
         else if sem_type m = SEMAPHORE_TYPE_MUTEX_RECURSIVE then Some (OS_RES_ERROR, s)
         else if sem_type m = SEMAPHORE_TYPE_COUNTING then Some (OS_RES_ERROR, s)
         else Some (OS_RES_LOCKED, s)
       } else Some (OS_RES_ERROR, s)
     }) OS_RES_LOCKED s"

definition SemaphoreCountGet :: "Id_t \<Rightarrow> 'a sem_state_scheme \<Rightarrow> (U8_t \<times> 'a sem_state_scheme) option" where
  "SemaphoreCountGet sem_id s =
     LIST_NODE_ACCESS LIST_LOCK_MODE_READ SemList sem_id (\<lambda>node s. do {
       sem \<leftarrow> ListNodeChildGet node s;
       m \<leftarrow> sem_at sem s;
       Some (aq_cnt m, s)
     }) 0 s"

definition SemaphoreCountReset :: "Id_t \<Rightarrow> 'a sem_state_scheme \<Rightarrow> (OsResult_t \<times> 'a sem_state_scheme) option" where
  "SemaphoreCountReset sem_id s =
     LIST_NODE_ACCESS LIST_LOCK_MODE_WRITE SemList sem_id (\<lambda>node s. do {
       sem \<leftarrow> ListNodeChildGet node s;
       if sem \<noteq> NULL then do {
         s \<leftarrow> sem_update sem (\<lambda>m. m\<lparr>aq_cnt := 0\<rparr>) s;
         Some (OS_RES_OK, s)
       } else Some (OS_RES_LOCKED, s)
     }) OS_RES_LOCKED s"

end
