(* ===== verification/Mailbox.thy ===== *)
theory Mailbox
  imports Semaphore
begin

text \<open>
  \<^verbatim>\<open>Mailbox.c\<close>: mailboxes with slots of a fixed width, a pend counter for every slot, and a list of owners. The
  buffer and the counters are bytes of the OS heap. The data a caller passes or wants is a list of bytes.
\<close>

definition MAILBOX_EVENT_POST :: "U8_t \<Rightarrow> U32_t" where "MAILBOX_EVENT_POST addr = EVENT_TYPE_ACCESS OR 0x00001000 OR ucast addr"
definition MAILBOX_EVENT_PEND :: "U8_t \<Rightarrow> U32_t" where "MAILBOX_EVENT_PEND addr = EVENT_TYPE_ACCESS OR 0x00002000 OR ucast addr"
definition MAILBOX_EVENT_POST_ANY :: U32_t where "MAILBOX_EVENT_POST_ANY = EVENT_TYPE_ACCESS OR 0x00003000"
definition SIZEOF_MAILBOX :: U32_t where "SIZEOF_MAILBOX = 56"

record Mailbox_t =
  owners :: IdList_t
  mb_size :: U8_t
  mb_width :: U8_t
  mb_buffer :: ptr
  pend_counters :: ptr

record mailbox_state = sem_state +
  mailboxes :: "ptr \<Rightarrow> Mailbox_t option"

definition MailboxList :: lptr where "MailboxList = LStatic 7"

definition zero_mailbox :: Mailbox_t where
  "zero_mailbox = \<lparr>owners = \<lparr>ids = replicate ID_LIST_SIZE_MAX 0, n_ids = 0\<rparr>, mb_size = 0, mb_width = 0,
     mb_buffer = NULL, pend_counters = NULL\<rparr>"

definition mailbox_at :: "ptr \<Rightarrow> 'a mailbox_state_scheme \<Rightarrow> Mailbox_t option" where
  "mailbox_at p s = (if p = NULL then None else mailboxes s p)"

definition mailbox_update :: "ptr \<Rightarrow> (Mailbox_t \<Rightarrow> Mailbox_t) \<Rightarrow> 'a mailbox_state_scheme \<Rightarrow> 'a mailbox_state_scheme option" where
  "mailbox_update p f s = do { m \<leftarrow> mailbox_at p s; Some (s\<lparr>mailboxes := (mailboxes s)(p \<mapsto> f m)\<rparr>) }"

definition mailbox_clear :: "ptr \<Rightarrow> 'a mailbox_state_scheme \<Rightarrow> 'a mailbox_state_scheme" where
  "mailbox_clear p s = (node_clear p s)\<lparr>mailboxes := (mailboxes s)(p \<mapsto> zero_mailbox)\<rparr>"

text \<open>\<open>KMemFreeObject\<close> on a mailbox and its buffer.\<close>

definition mailbox_free :: "ptr \<Rightarrow> ptr option \<Rightarrow> 'a mailbox_state_scheme \<Rightarrow> (OsResult_t \<times> 'a mailbox_state_scheme) option" where
  "mailbox_free p buffer s = do {
     ((result, obj, obj_data), s) \<leftarrow> KMemFreeObject (Some p) buffer s;
     Some (result, if result = OS_RES_OK then mailbox_clear p s else s)
   }"

subsection \<open>Bytes of the heap\<close>

definition byte_read :: "ptr \<Rightarrow> 'a mem_state_scheme \<Rightarrow> U8_t option" where
  "byte_read p s = do { i \<leftarrow> heap_index p s; Some (OsHeap s i) }"

definition byte_write :: "ptr \<Rightarrow> U8_t \<Rightarrow> 'a mem_state_scheme \<Rightarrow> 'a mem_state_scheme option" where
  "byte_write p v s = do { i \<leftarrow> heap_index p s; Some (s\<lparr>OsHeap := (OsHeap s)(i := v)\<rparr>) }"

text \<open>\<^verbatim>\<open>memcpy\<close> out of and into the heap.\<close>

fun bytes_read :: "nat \<Rightarrow> ptr \<Rightarrow> 'a mem_state_scheme \<Rightarrow> U8_t list option" where
  "bytes_read 0 p s = Some []"
| "bytes_read (Suc n) p s = do { b \<leftarrow> byte_read p s; bs \<leftarrow> bytes_read n (p + 1) s; Some (b # bs) }"

fun bytes_write :: "U8_t list \<Rightarrow> ptr \<Rightarrow> 'a mem_state_scheme \<Rightarrow> 'a mem_state_scheme option" where
  "bytes_write [] p s = Some s"
| "bytes_write (b # bs) p s = do { s \<leftarrow> byte_write p b s; bytes_write bs (p + 1) s }"

subsection \<open>Operations\<close>

definition KMailboxInit :: "'a mailbox_state_scheme \<Rightarrow> (OsResult_t \<times> 'a mailbox_state_scheme) option" where
  "KMailboxInit s = do { (r, s) \<leftarrow> ListInit MailboxList ID_GROUP_MAILBOX s; Some (OS_RES_OK, s) }"

definition KMailboxFromId :: "Id_t \<Rightarrow> 'a mailbox_state_scheme \<Rightarrow> (ptr \<times> 'a mailbox_state_scheme) option" where
  "KMailboxFromId mailbox_id s = do {
     (node, s) \<leftarrow> ListSearch MailboxList mailbox_id s;
     if node \<noteq> NULL then do { p \<leftarrow> ListNodeChildGet node s; Some (p, s) } else Some (NULL, s)
   }"

definition MailboxCreate ::
  "U8_t \<Rightarrow> U8_t \<Rightarrow> IdList_t option \<Rightarrow> 'a mailbox_state_scheme \<Rightarrow> (Id_t \<times> 'a mailbox_state_scheme) option" where
  "MailboxCreate mailbox_size mailbox_width owner_list s =
     (if mailbox_size = 0 \<or> mailbox_width = 0 \<or> owner_list = None then Some (ID_INVALID, s)
      else do {
        ((new_mailbox, data), s) \<leftarrow> KMemAllocObject SIZEOF_MAILBOX (ucast mailbox_size * ucast mailbox_width) (Some NULL) s;
        let buffer = (case data of None \<Rightarrow> NULL | Some d \<Rightarrow> d);
        let s = mailbox_clear new_mailbox s;
        if new_mailbox = NULL then Some (ID_INVALID, s)
        else do {
          s \<leftarrow> mailbox_update new_mailbox (\<lambda>m. m\<lparr>mb_buffer := buffer\<rparr>) s;
          ((counters, d), s) \<leftarrow> KMemAllocObject (ucast mailbox_size) 0 None s;
          s \<leftarrow> mailbox_update new_mailbox (\<lambda>m. m\<lparr>pend_counters := counters\<rparr>) s;
          if counters = NULL then do {
            (r, s) \<leftarrow> mailbox_free new_mailbox (Some buffer) s;
            Some (ID_INVALID, s)
          } else do {
            (r, s) \<leftarrow> ListNodeInit new_mailbox new_mailbox s;
            (r, s) \<leftarrow> ListNodeAddSorted MailboxList new_mailbox s;
            if r \<noteq> OS_RES_OK then do {
              (r, s) \<leftarrow> KMemFreeObject (Some counters) None s;
              (r, s) \<leftarrow> mailbox_free new_mailbox (Some buffer) s;
              Some (ID_INVALID, s)
            } else do {
              m \<leftarrow> mailbox_at new_mailbox s;
              let copied = IdListCopy (Some (owners m)) owner_list;
              s \<leftarrow> mailbox_update new_mailbox (\<lambda>m. m\<lparr>mb_size := mailbox_size, mb_width := mailbox_width,
                     owners := (case copied of None \<Rightarrow> owners m | Some l \<Rightarrow> l)\<rparr>) s;
              oid \<leftarrow> ListNodeIdGet new_mailbox s;
              Some (oid, s)
            }
          }
        }
      })"

definition MailboxDelete :: "Id_t \<Rightarrow> 'a mailbox_state_scheme \<Rightarrow> ((OsResult_t \<times> Id_t) \<times> 'a mailbox_state_scheme) option" where
  "MailboxDelete mailbox_id s = do {
     (mailbox, s) \<leftarrow> KMailboxFromId mailbox_id s;
     if mailbox \<noteq> NULL then do {
       (r, s) \<leftarrow> ListNodeDeinit MailboxList mailbox s;
       m \<leftarrow> mailbox_at mailbox s;
       (r, s) \<leftarrow> KMemFreeObject (Some (pend_counters m)) None s;
       (r, s) \<leftarrow> mailbox_free mailbox (Some (mb_buffer m)) s;
       Some ((OS_RES_OK, ID_INVALID), s)
     } else Some ((OS_RES_ERROR, mailbox_id), s)
   }"

text \<open>The loop over the first \<open>n\<close> entries of the owner array from entry \<open>i\<close> on; past the array it is out of bounds.\<close>

fun owner_loop :: "nat \<Rightarrow> nat \<Rightarrow> Id_t list \<Rightarrow> Id_t \<Rightarrow> bool option" where
  "owner_loop 0 i xs tid = Some False"
| "owner_loop (Suc k) i xs tid =
     (if i < length xs then (if xs ! i = tid then Some True else owner_loop k (i + 1) xs tid) else None)"

definition ITaskIsOwner :: "ptr \<Rightarrow> Id_t \<Rightarrow> 'a mailbox_state_scheme \<Rightarrow> bool option" where
  "ITaskIsOwner mailbox tid s = do {
     m \<leftarrow> mailbox_at mailbox s;
     owner_loop (unat (n_ids (owners m))) 0 (ids (owners m)) tid
   }"

text \<open>
  The counter is indexed by \<open>address\<close> before the address is multiplied by the width, and by the product, cut to a
  byte, after that.
\<close>

definition IMailboxWrite ::
  "Id_t \<Rightarrow> U8_t \<Rightarrow> U8_t list \<Rightarrow> U32_t \<Rightarrow> bool \<Rightarrow> 'a mailbox_state_scheme \<Rightarrow> (OsResult_t \<times> 'a mailbox_state_scheme) option" where
  "IMailboxWrite mailbox_id address data timeout force s =
     sys_call_enter mailbox_id (MAILBOX_EVENT_PEND address) (\<lambda>result s.
       LIST_NODE_ACCESS LIST_LOCK_MODE_WRITE MailboxList mailbox_id (\<lambda>node s. do {
         mailbox \<leftarrow> ListNodeChildGet node s;
         if mailbox = NULL then Some (OS_RES_ERROR, s)
         else do {
           m \<leftarrow> mailbox_at mailbox s;
           if int (unat address) > int (unat (mb_size m)) - 1 then Some (OS_RES_INVALID_ARGUMENT, s)
           else do {
             cnt \<leftarrow> byte_read (pend_counters m + unat address) s;
             (result, s) \<leftarrow> (if cnt \<noteq> 0 \<and> \<not> force then
                 (if timeout \<noteq> OS_TIMEOUT_NONE then SYS_CALL_EVENT_REGISTER mailbox_id (MAILBOX_EVENT_PEND address) timeout s
                  else Some (OS_RES_LOCKED, s))
               else Some (OS_RES_OK, s));
             if result = OS_RES_OK then do {
               let address = address * mb_width m;
               src \<leftarrow> (if unat (mb_width m) \<le> length data then Some (take (unat (mb_width m)) data) else None);
               s \<leftarrow> bytes_write src (mb_buffer m + unat address) s;
               s \<leftarrow> byte_write (pend_counters m + unat address) (IdListCount (Some (owners m))) s;
               (r, s) \<leftarrow> EventEmit mailbox_id (MAILBOX_EVENT_POST address) EVENT_FLAG_NONE s;
               (r, s) \<leftarrow> EventEmit mailbox_id MAILBOX_EVENT_POST_ANY EVENT_FLAG_NONE s;
               Some (result, s)
             } else Some (result, s)
           }
         }
       }) result s) s"

definition MailboxPost ::
  "Id_t \<Rightarrow> U8_t \<Rightarrow> U8_t list \<Rightarrow> U32_t \<Rightarrow> 'a mailbox_state_scheme \<Rightarrow> (OsResult_t \<times> 'a mailbox_state_scheme) option" where
  "MailboxPost mailbox_id address data timeout s = IMailboxWrite mailbox_id address data timeout False s"

definition MailboxUpdate ::
  "Id_t \<Rightarrow> U8_t \<Rightarrow> U8_t list \<Rightarrow> U32_t \<Rightarrow> 'a mailbox_state_scheme \<Rightarrow> (OsResult_t \<times> 'a mailbox_state_scheme) option" where
  "MailboxUpdate mailbox_id address data timeout s = IMailboxWrite mailbox_id address data timeout True s"

text \<open>
  The block of \<open>MailboxPend\<close>, with the bytes at \<open>data\<close> before and after. The result is what the poll at the entry
  gave only when the block does not run.
\<close>

definition MailboxPend_block ::
  "Id_t \<Rightarrow> U8_t \<Rightarrow> U8_t list \<Rightarrow> U32_t \<Rightarrow> ptr \<Rightarrow> 'a mailbox_state_scheme \<Rightarrow>
     ((OsResult_t \<times> U8_t list) \<times> 'a mailbox_state_scheme) option" where
  "MailboxPend_block mailbox_id address data timeout node s = do {
     mailbox \<leftarrow> ListNodeChildGet node s;
     (tid, s) \<leftarrow> KCoreTaskRunningGet s;
     owner \<leftarrow> ITaskIsOwner mailbox tid s;
     if \<not> owner then Some ((OS_RES_RESTRICTED, data), s)
     else do {
       m \<leftarrow> mailbox_at mailbox s;
       if int (unat address) > int (unat (mb_size m)) - 1 then Some ((OS_RES_INVALID_ARGUMENT, data), s)
       else do {
         cnt \<leftarrow> byte_read (pend_counters m + unat address) s;
         (result, s) \<leftarrow> (if cnt = 0 then
             (if timeout \<noteq> OS_TIMEOUT_NONE then SYS_CALL_EVENT_REGISTER mailbox_id (MAILBOX_EVENT_POST address) timeout s
              else Some (OS_RES_LOCKED, s))
           else Some (OS_RES_OK, s));
         if result = OS_RES_OK then do {
           let address = address * mb_width m;
           bytes \<leftarrow> bytes_read (unat (mb_width m)) (mb_buffer m + unat address) s;
           data \<leftarrow> (if length bytes \<le> length data then Some (bytes @ drop (length bytes) data) else None);
           cnt \<leftarrow> byte_read (pend_counters m + unat address) s;
           s \<leftarrow> byte_write (pend_counters m + unat address) (cnt - 1) s;
           (r, s) \<leftarrow> EventEmit mailbox_id (MAILBOX_EVENT_PEND address) EVENT_FLAG_NONE s;
           Some ((result, data), s)
         } else Some ((result, data), s)
       }
     }
   }"

definition MailboxPend ::
  "Id_t \<Rightarrow> U8_t \<Rightarrow> U8_t list \<Rightarrow> U32_t \<Rightarrow> 'a mailbox_state_scheme \<Rightarrow> ((OsResult_t \<times> U8_t list) \<times> 'a mailbox_state_scheme) option" where
  "MailboxPend mailbox_id address data timeout s = do {
     (result, s) \<leftarrow> SYS_CALL_EVENT_HANDLE mailbox_id (MAILBOX_EVENT_PEND address) s;
     if result = OS_RES_TIMEOUT \<or> result = OS_RES_POLL then Some ((result, data), s)
     else LIST_NODE_ACCESS LIST_LOCK_MODE_WRITE MailboxList mailbox_id
            (MailboxPend_block mailbox_id address data timeout) (result, data) s
   }"

definition MailboxPendCounterGet :: "Id_t \<Rightarrow> U8_t \<Rightarrow> 'a mailbox_state_scheme \<Rightarrow> (U8_t \<times> 'a mailbox_state_scheme) option" where
  "MailboxPendCounterGet mailbox_id address s =
     LIST_NODE_ACCESS LIST_LOCK_MODE_READ MailboxList mailbox_id (\<lambda>node s. do {
       mailbox \<leftarrow> ListNodeChildGet node s;
       m \<leftarrow> mailbox_at mailbox s;
       cnt \<leftarrow> byte_read (pend_counters m + unat address) s;
       Some (cnt, s)
     }) 0 s"

end
