(* ===== verification/Ringbuffer.thy ===== *)
theory Ringbuffer
  imports Mailbox
begin

text \<open>
  \<^verbatim>\<open>Ringbuffer.c\<close>: byte ring buffers. The buffer is allocated in the OS heap or provided by the application; the
  bytes outside the OS heap are \<open>user_mem\<close>, \<open>None\<close> where no object of the application lies. The data a caller
  passes or receives is a list of bytes, read and written at the index the code uses.
\<close>

definition RINGBUF_LOCK_READ_MASK :: U8_t where "RINGBUF_LOCK_READ_MASK = 0x80"
definition RINGBUF_LOCK_WRITE_MASK :: U8_t where "RINGBUF_LOCK_WRITE_MASK = 0x40"

definition RINGBUF_EVENT_DATA_IN :: U32_t where "RINGBUF_EVENT_DATA_IN = EVENT_TYPE_ACCESS OR 0x00001000"
definition RINGBUF_EVENT_DATA_OUT :: U32_t where "RINGBUF_EVENT_DATA_OUT = EVENT_TYPE_ACCESS OR 0x00002000"
definition RINGBUF_EVENT_EMPTY :: U32_t where "RINGBUF_EVENT_EMPTY = EVENT_TYPE_STATE_CHANGE OR 0x00001000"
definition RINGBUF_EVENT_FULL :: U32_t where "RINGBUF_EVENT_FULL = EVENT_TYPE_STATE_CHANGE OR 0x00002000"
definition RINGBUF_EVENT_PURGE :: U32_t where "RINGBUF_EVENT_PURGE = EVENT_TYPE_STATE_CHANGE OR 0x00003000"
definition SIZEOF_RINGBUF :: U32_t where "SIZEOF_RINGBUF = 56"

record Ringbuf_t =
  rb_buffer :: ptr
  ext_buffer :: bool
  rb_size :: U32_t
  dcount :: U32_t
  rw_lock :: U8_t
  rb_head :: ptr
  rb_tail :: ptr
  write_index :: U32_t
  read_index :: U32_t

record ringbuf_state = mailbox_state +
  ringbufs :: "ptr \<Rightarrow> Ringbuf_t option"
  user_mem :: "ptr \<Rightarrow> U8_t option"

definition RingbufList :: lptr where "RingbufList = LStatic 8"

definition zero_ringbuf :: Ringbuf_t where
  "zero_ringbuf = \<lparr>rb_buffer = NULL, ext_buffer = False, rb_size = 0, dcount = 0, rw_lock = 0, rb_head = NULL,
     rb_tail = NULL, write_index = 0, read_index = 0\<rparr>"

definition ringbuf_at :: "ptr \<Rightarrow> 'a ringbuf_state_scheme \<Rightarrow> Ringbuf_t option" where
  "ringbuf_at p s = (if p = NULL then None else ringbufs s p)"

definition ringbuf_update :: "ptr \<Rightarrow> (Ringbuf_t \<Rightarrow> Ringbuf_t) \<Rightarrow> 'a ringbuf_state_scheme \<Rightarrow> 'a ringbuf_state_scheme option" where
  "ringbuf_update p f s = do { r \<leftarrow> ringbuf_at p s; Some (s\<lparr>ringbufs := (ringbufs s)(p \<mapsto> f r)\<rparr>) }"

definition ringbuf_clear :: "ptr \<Rightarrow> 'a ringbuf_state_scheme \<Rightarrow> 'a ringbuf_state_scheme" where
  "ringbuf_clear p s = (node_clear p s)\<lparr>ringbufs := (ringbufs s)(p \<mapsto> zero_ringbuf)\<rparr>"

definition ringbuf_free :: "ptr \<Rightarrow> ptr option \<Rightarrow> 'a ringbuf_state_scheme \<Rightarrow> (OsResult_t \<times> 'a ringbuf_state_scheme) option" where
  "ringbuf_free p buffer s = do {
     ((result, obj, obj_data), s) \<leftarrow> KMemFreeObject (Some p) buffer s;
     Some (result, if result = OS_RES_OK then ringbuf_clear p s else s)
   }"

text \<open>A byte in the OS heap or in the application's memory.\<close>

definition any_read :: "ptr \<Rightarrow> 'a ringbuf_state_scheme \<Rightarrow> U8_t option" where
  "any_read p s = (case heap_index p s of Some i \<Rightarrow> Some (OsHeap s i) | None \<Rightarrow> user_mem s p)"

definition any_write :: "ptr \<Rightarrow> U8_t \<Rightarrow> 'a ringbuf_state_scheme \<Rightarrow> 'a ringbuf_state_scheme option" where
  "any_write p v s = (case heap_index p s of Some i \<Rightarrow> Some (s\<lparr>OsHeap := (OsHeap s)(i := v)\<rparr>)
     | None \<Rightarrow> (if user_mem s p = None then None else Some (s\<lparr>user_mem := (user_mem s)(p \<mapsto> v)\<rparr>)))"

subsection \<open>Locks and indices\<close>

text \<open>The lock functions: the new lock byte, and 0 or -1.\<close>

definition IRingbufLockWrite :: "U8_t \<Rightarrow> int \<times> U8_t" where
  "IRingbufLockWrite lock = (if lock AND RINGBUF_LOCK_WRITE_MASK \<noteq> 0 then (- 1, lock) else (0, lock OR RINGBUF_LOCK_WRITE_MASK))"

definition IRingbufUnlockWrite :: "U8_t \<Rightarrow> int \<times> U8_t" where
  "IRingbufUnlockWrite lock = (if lock AND RINGBUF_LOCK_WRITE_MASK = 0 then (- 1, lock) else (0, lock AND NOT RINGBUF_LOCK_WRITE_MASK))"

definition IRingbufLockRead :: "U8_t \<Rightarrow> int \<times> U8_t" where
  "IRingbufLockRead lock = (if lock AND RINGBUF_LOCK_READ_MASK \<noteq> 0 then (- 1, lock) else (0, lock OR RINGBUF_LOCK_READ_MASK))"

definition IRingbufUnlockRead :: "U8_t \<Rightarrow> int \<times> U8_t" where
  "IRingbufUnlockRead lock = (if lock AND RINGBUF_LOCK_READ_MASK = 0 then (- 1, lock) else (0, lock AND NOT RINGBUF_LOCK_READ_MASK))"

definition IRingbufBlockNextGet :: "Ringbuf_t \<Rightarrow> U32_t \<Rightarrow> U32_t" where
  "IRingbufBlockNextGet r index = (if index = rb_size r - 1 then 0 else index + 1)"

subsection \<open>Creating, finding and deleting\<close>

definition KRingbufInit :: "'a ringbuf_state_scheme \<Rightarrow> (OsResult_t \<times> 'a ringbuf_state_scheme) option" where
  "KRingbufInit s = do { (r, s) \<leftarrow> ListInit RingbufList ID_GROUP_RINGBUF s; Some (OS_RES_OK, s) }"

definition IRingbufFromId :: "Id_t \<Rightarrow> 'a ringbuf_state_scheme \<Rightarrow> (ptr \<times> 'a ringbuf_state_scheme) option" where
  "IRingbufFromId ringbuf_id s = do {
     (node, s) \<leftarrow> ListSearch RingbufList ringbuf_id s;
     if node \<noteq> NULL then do { p \<leftarrow> ListNodeChildGet node s; Some (p, s) } else Some (NULL, s)
   }"

definition RingbufCreate :: "ptr \<Rightarrow> U32_t \<Rightarrow> 'a ringbuf_state_scheme \<Rightarrow> (Id_t \<times> 'a ringbuf_state_scheme) option" where
  "RingbufCreate buffer sz s = do {
     (new_ringbuf, int_buffer, s) \<leftarrow> (if buffer = NULL then do {
         ((obj, data), s) \<leftarrow> KMemAllocObject SIZEOF_RINGBUF sz (Some NULL) s;
         let d = (case data of None \<Rightarrow> NULL | Some d \<Rightarrow> d);
         Some (obj, d, s)
       } else do {
         ((obj, data), s) \<leftarrow> KMemAllocObject SIZEOF_RINGBUF 0 None s;
         Some (obj, NULL, s)
       });
     let s = ringbuf_clear new_ringbuf s;
     if new_ringbuf = NULL then Some (ID_INVALID, s)
     else do {
       s \<leftarrow> ringbuf_update new_ringbuf (\<lambda>r. r\<lparr>rb_buffer := (if buffer = NULL then int_buffer else buffer), ext_buffer := (buffer \<noteq> NULL)\<rparr>) s;
       (r, s) \<leftarrow> ListNodeInit new_ringbuf new_ringbuf s;
       (r, s) \<leftarrow> ListNodeAddSorted RingbufList new_ringbuf s;
       if r \<noteq> OS_RES_OK then do {
         (r, s) \<leftarrow> ringbuf_free new_ringbuf (Some int_buffer) s;
         Some (ID_INVALID, s)
       } else do {
         s \<leftarrow> ringbuf_update new_ringbuf (\<lambda>r. r\<lparr>rb_size := sz, rb_head := rb_buffer r, rb_tail := rb_buffer r + unat (sz - 1),
                read_index := sz - 1, write_index := 0\<rparr>) s;
         oid \<leftarrow> ListNodeIdGet new_ringbuf s;
         Some (oid, s)
       }
     }
   }"

definition RingbufDelete :: "Id_t \<Rightarrow> 'a ringbuf_state_scheme \<Rightarrow> ((OsResult_t \<times> Id_t) \<times> 'a ringbuf_state_scheme) option" where
  "RingbufDelete ringbuf_id s = do {
     (ringbuf, s) \<leftarrow> IRingbufFromId ringbuf_id s;
     if ringbuf = NULL then Some ((OS_RES_ERROR, ringbuf_id), s)
     else do {
       r \<leftarrow> ringbuf_at ringbuf s;
       let buffer = (if ext_buffer r then None else Some (rb_buffer r));
       (res, s) \<leftarrow> ListNodeDeinit RingbufList ringbuf s;
       (res, s) \<leftarrow> ringbuf_free ringbuf buffer s;
       Some ((OS_RES_OK, ID_INVALID), s)
     }
   }"

subsection \<open>Writing and reading\<close>

text \<open>The copy loops, with the number of turns that the length still allows and the index \<open>i\<close>.\<close>

fun RingbufWrite_loop ::
  "nat \<Rightarrow> U8_t list \<Rightarrow> nat \<Rightarrow> ptr \<Rightarrow> 'a ringbuf_state_scheme \<Rightarrow> (nat \<times> 'a ringbuf_state_scheme) option" where
  "RingbufWrite_loop 0 data i p s = Some (i, s)"
| "RingbufWrite_loop (Suc k) data i p s = do {
     r \<leftarrow> ringbuf_at p s;
     d \<leftarrow> (if i < length data then Some (data ! i) else None);
     s \<leftarrow> any_write (rb_buffer r + unat (write_index r)) d s;
     s \<leftarrow> ringbuf_update p (\<lambda>r. r\<lparr>dcount := dcount r + 1, write_index := IRingbufBlockNextGet r (write_index r)\<rparr>) s;
     r \<leftarrow> ringbuf_at p s;
     if write_index r = read_index r \<and> dcount r \<noteq> 0 then Some (i + 1, s)
     else RingbufWrite_loop k data (i + 1) p s
   }"

fun RingbufRead_loop ::
  "nat \<Rightarrow> U8_t list \<Rightarrow> nat \<Rightarrow> ptr \<Rightarrow> 'a ringbuf_state_scheme \<Rightarrow> ((nat \<times> U8_t list) \<times> 'a ringbuf_state_scheme) option" where
  "RingbufRead_loop 0 target i p s = Some ((i, target), s)"
| "RingbufRead_loop (Suc k) target i p s = do {
     s \<leftarrow> ringbuf_update p (\<lambda>r. r\<lparr>read_index := IRingbufBlockNextGet r (read_index r)\<rparr>) s;
     r \<leftarrow> ringbuf_at p s;
     if read_index r = write_index r \<and> dcount r = 0 then Some ((i, target), s)
     else do {
       b \<leftarrow> any_read (rb_buffer r + unat (read_index r)) s;
       target \<leftarrow> (if i < length target then Some (target[i := b]) else None);
       s \<leftarrow> ringbuf_update p (\<lambda>r. r\<lparr>dcount := dcount r - 1\<rparr>) s;
       RingbufRead_loop k target (i + 1) p s
     }
   }"

text \<open>The result and the new value of \<^verbatim>\<open>*length\<close>. An unknown ID leads to a null dereference.\<close>

definition RingbufWrite ::
  "Id_t \<Rightarrow> U8_t list \<Rightarrow> U32_t \<Rightarrow> U32_t \<Rightarrow> 'a ringbuf_state_scheme \<Rightarrow> ((OsResult_t \<times> U32_t) \<times> 'a ringbuf_state_scheme) option" where
  "RingbufWrite ringbuf_id data len timeout s = do {
     (ringbuf, s) \<leftarrow> IRingbufFromId ringbuf_id s;
     r \<leftarrow> ringbuf_at ringbuf s;
     if dcount r = rb_size r then do {
       (e, s) \<leftarrow> EventEmit ringbuf_id RINGBUF_EVENT_FULL EVENT_FLAG_NONE s;
       Some ((OS_RES_FAIL, 0), s)
     } else do {
       let (status, lock) = IRingbufLockWrite (rw_lock r);
       s \<leftarrow> ringbuf_update ringbuf (\<lambda>r. r\<lparr>rw_lock := lock\<rparr>) s;
       if status = 0 then do {
         (i, s) \<leftarrow> RingbufWrite_loop (unat len) data 0 ringbuf s;
         (e, s) \<leftarrow> EventEmit ringbuf_id RINGBUF_EVENT_DATA_IN EVENT_FLAG_NONE s;
         r \<leftarrow> ringbuf_at ringbuf s;
         s \<leftarrow> (if dcount r = rb_size r then do { (e, s) \<leftarrow> EventEmit ringbuf_id RINGBUF_EVENT_FULL EVENT_FLAG_NONE s; Some s } else Some s);
         s \<leftarrow> ringbuf_update ringbuf (\<lambda>r. r\<lparr>rw_lock := snd (IRingbufUnlockWrite (rw_lock r))\<rparr>) s;
         Some ((OS_RES_OK, word_of_nat i), s)
       } else Some ((OS_RES_LOCKED, 0), s)
     }
   }"

text \<open>The result, the new value of \<^verbatim>\<open>*amount\<close> and the bytes at \<open>target\<close>.\<close>

definition RingbufRead ::
  "Id_t \<Rightarrow> U8_t list \<Rightarrow> U32_t \<Rightarrow> U32_t \<Rightarrow> 'a ringbuf_state_scheme \<Rightarrow>
     ((OsResult_t \<times> U32_t \<times> U8_t list) \<times> 'a ringbuf_state_scheme) option" where
  "RingbufRead ringbuf_id target amount timeout s = do {
     (ringbuf, s) \<leftarrow> IRingbufFromId ringbuf_id s;
     r \<leftarrow> ringbuf_at ringbuf s;
     if dcount r = 0 then do {
       (e, s) \<leftarrow> EventEmit ringbuf_id RINGBUF_EVENT_EMPTY EVENT_FLAG_NONE s;
       Some ((OS_RES_FAIL, 0, target), s)
     } else do {
       let (status, lock) = IRingbufLockRead (rw_lock r);
       s \<leftarrow> ringbuf_update ringbuf (\<lambda>r. r\<lparr>rw_lock := lock\<rparr>) s;
       if status = 0 then do {
         ((i, target), s) \<leftarrow> RingbufRead_loop (unat amount) target 0 ringbuf s;
         (e, s) \<leftarrow> EventEmit ringbuf_id RINGBUF_EVENT_DATA_OUT EVENT_FLAG_NONE s;
         r \<leftarrow> ringbuf_at ringbuf s;
         s \<leftarrow> (if dcount r = 0 then do { (e, s) \<leftarrow> EventEmit ringbuf_id RINGBUF_EVENT_EMPTY EVENT_FLAG_NONE s; Some s } else Some s);
         s \<leftarrow> ringbuf_update ringbuf (\<lambda>r. r\<lparr>rw_lock := snd (IRingbufUnlockRead (rw_lock r))\<rparr>) s;
         Some ((OS_RES_OK, word_of_nat i, target), s)
       } else Some ((OS_RES_LOCKED, 0, target), s)
     }
   }"

partial_function (option) RingbufDump_loop ::
  "Id_t \<Rightarrow> U8_t list \<Rightarrow> U32_t \<Rightarrow> U32_t \<Rightarrow> 'a ringbuf_state_scheme \<Rightarrow> ((U32_t \<times> U8_t list) \<times> 'a ringbuf_state_scheme) option" where
  "RingbufDump_loop ringbuf_id target count amount s = do {
     ((r, amount, rest), s) \<leftarrow> RingbufRead ringbuf_id (drop (unat count) target) amount OS_TIMEOUT_INFINITE s;
     let target = take (unat count) target @ rest;
     let count = count + 1;
     if amount \<noteq> 0 then RingbufDump_loop ringbuf_id target count amount s else Some ((count, target), s)
   }"

definition RingbufDump :: "Id_t \<Rightarrow> U8_t list \<Rightarrow> 'a ringbuf_state_scheme \<Rightarrow> ((U32_t \<times> U8_t list) \<times> 'a ringbuf_state_scheme) option" where
  "RingbufDump ringbuf_id target s = RingbufDump_loop ringbuf_id target 0 0 s"

definition RingbufPurge :: "Id_t \<Rightarrow> 'a ringbuf_state_scheme \<Rightarrow> (OsResult_t \<times> 'a ringbuf_state_scheme) option" where
  "RingbufPurge ringbuf_id s = do {
     (ringbuf, s) \<leftarrow> IRingbufFromId ringbuf_id s;
     if ringbuf = NULL then Some (OS_RES_LOCKED, s)
     else do {
       r \<leftarrow> ringbuf_at ringbuf s;
       let (status, lock) = IRingbufLockRead (rw_lock r);
       s \<leftarrow> ringbuf_update ringbuf (\<lambda>r. r\<lparr>rw_lock := lock\<rparr>) s;
       if status = 0 then do {
         let (status, lock) = IRingbufLockWrite lock;
         s \<leftarrow> ringbuf_update ringbuf (\<lambda>r. r\<lparr>rw_lock := lock\<rparr>) s;
         if status = 0 then do {
           s \<leftarrow> ringbuf_update ringbuf (\<lambda>r. r\<lparr>dcount := 0, write_index := 0, read_index := rb_size r - 1\<rparr>) s;
           (result, s) \<leftarrow> EventEmit ringbuf_id RINGBUF_EVENT_PURGE EVENT_FLAG_NONE s;
           s \<leftarrow> ringbuf_update ringbuf (\<lambda>r. r\<lparr>rw_lock := snd (IRingbufUnlockWrite (snd (IRingbufUnlockRead (rw_lock r))))\<rparr>) s;
           Some (result, s)
         } else Some (OS_RES_OK, s)
       } else Some (OS_RES_OK, s)
     }
   }"

subsection \<open>Searching and counting\<close>

text \<open>The inner loop of the search: how many bytes of the query were looked at, whether the last one matched, and the index.\<close>

fun RingbufSearch_match ::
  "nat \<Rightarrow> U8_t list \<Rightarrow> nat \<Rightarrow> bool \<Rightarrow> Ringbuf_t \<Rightarrow> U32_t \<Rightarrow> 'a ringbuf_state_scheme \<Rightarrow> (nat \<times> bool \<times> U32_t) option" where
  "RingbufSearch_match 0 query j found r data_index s = Some (j, found, data_index)"
| "RingbufSearch_match (Suc k) query j found r data_index s = do {
     b \<leftarrow> any_read (rb_buffer r + unat data_index) s;
     q \<leftarrow> (if j < length query then Some (query ! j) else None);
     if b = q then RingbufSearch_match k query (j + 1) True r (IRingbufBlockNextGet r data_index) s
     else Some (j, False, data_index)
   }"

partial_function (option) RingbufSearch_loop ::
  "U8_t list \<Rightarrow> U32_t \<Rightarrow> Ringbuf_t \<Rightarrow> U32_t \<Rightarrow> bool \<Rightarrow> U32_t \<Rightarrow> U32_t \<Rightarrow> 'a ringbuf_state_scheme \<Rightarrow> U32_t option" where
  "RingbufSearch_loop query query_length r i found data_index occ_index s =
     (if i \<le> dcount r then do {
        (j, found, data_index) \<leftarrow> RingbufSearch_match (unat query_length) query 0 found r data_index s;
        RingbufSearch_loop query query_length r (i + word_of_nat j + 1) found (IRingbufBlockNextGet r data_index)
          (if found then data_index else occ_index) s
      } else Some occ_index)"

definition RingbufSearchIndex :: "Id_t \<Rightarrow> U8_t list \<Rightarrow> U32_t \<Rightarrow> 'a ringbuf_state_scheme \<Rightarrow> (U32_t \<times> 'a ringbuf_state_scheme) option" where
  "RingbufSearchIndex ringbuf_id query query_length s = do {
     (ringbuf, s) \<leftarrow> IRingbufFromId ringbuf_id s;
     if ringbuf \<noteq> NULL then do {
       r \<leftarrow> ringbuf_at ringbuf s;
       occ \<leftarrow> RingbufSearch_loop query query_length r 0 False (read_index r) 0 s;
       Some (occ, s)
     } else Some (0, s)
   }"

definition RingbufDataCountGet :: "Id_t \<Rightarrow> 'a ringbuf_state_scheme \<Rightarrow> (U32_t \<times> 'a ringbuf_state_scheme) option" where
  "RingbufDataCountGet ringbuf_id s = do {
     (ringbuf, s) \<leftarrow> IRingbufFromId ringbuf_id s;
     if ringbuf = NULL then Some (0, s) else do { r \<leftarrow> ringbuf_at ringbuf s; Some (dcount r, s) }
   }"

definition RingbufDataSpaceGet :: "Id_t \<Rightarrow> 'a ringbuf_state_scheme \<Rightarrow> (U32_t \<times> 'a ringbuf_state_scheme) option" where
  "RingbufDataSpaceGet ringbuf_id s = do {
     (ringbuf, s) \<leftarrow> IRingbufFromId ringbuf_id s;
     if ringbuf = NULL then Some (0, s) else do { r \<leftarrow> ringbuf_at ringbuf s; Some (rb_size r - dcount r, s) }
   }"

end
