(* ===== verification/Message.thy ===== *)
theory Message
  imports Ringbuffer
begin

text \<open>
  \<^verbatim>\<open>Message.c\<close>: message queues. A queue is an object with a node in the list of queues and a list of its own (at
  \<open>LIn queue\<close>); a message is copied into an object with a list node, appended at the tail and taken from the head.
\<close>

definition MESSAGE_EVENT_SEND :: U32_t where "MESSAGE_EVENT_SEND = EVENT_TYPE_ACCESS OR 0x00000001"
definition MESSAGE_EVENT_RECEIVE :: U32_t where "MESSAGE_EVENT_RECEIVE = EVENT_TYPE_ACCESS OR 0x00000002"
definition SIZEOF_MESSAGE_QUEUE :: U32_t where "SIZEOF_MESSAGE_QUEUE = 48"
definition SIZEOF_MESSAGE_NODE :: U32_t where "SIZEOF_MESSAGE_NODE = 36"

datatype MessageDataType_t =
    MSG_DATA_TYPE_INVALID | MSG_DATA_TYPE_U8 | MSG_DATA_TYPE_U16 | MSG_DATA_TYPE_U32 | MSG_DATA_TYPE_S8
  | MSG_DATA_TYPE_S16 | MSG_DATA_TYPE_S32 | MSG_DATA_TYPE_FLOAT | MSG_DATA_TYPE_ARRAY | MSG_DATA_TYPE_STRING

text \<open>The union of a value and a pointer with its length.\<close>

datatype MessageData = MsgValue U32_t | MsgPointer bool ptr U32_t

record Message_t =
  msg_type :: MessageDataType_t
  msg_data :: MessageData

record MessageQueue_t =
  max_size :: U32_t
  owner_task :: Id_t

record message_state = ringbuf_state +
  message_queues :: "ptr \<Rightarrow> MessageQueue_t option"
  message_nodes :: "ptr \<Rightarrow> Message_t option"

definition MessageQueueList :: lptr where "MessageQueueList = LStatic 9"

definition queue_at :: "ptr \<Rightarrow> 'a message_state_scheme \<Rightarrow> MessageQueue_t option" where
  "queue_at p s = (if p = NULL then None else message_queues s p)"

definition message_at :: "ptr \<Rightarrow> 'a message_state_scheme \<Rightarrow> Message_t option" where
  "message_at p s = (if p = NULL then None else message_nodes s p)"

definition queue_update ::
  "ptr \<Rightarrow> (MessageQueue_t \<Rightarrow> MessageQueue_t) \<Rightarrow> 'a message_state_scheme \<Rightarrow> 'a message_state_scheme option" where
  "queue_update p f s = do { q \<leftarrow> queue_at p s; Some (s\<lparr>message_queues := (message_queues s)(p \<mapsto> f q)\<rparr>) }"

text \<open>The bytes of a queue and of a message node become zero, when they are allocated and when they are freed.\<close>

definition queue_clear :: "ptr \<Rightarrow> 'a message_state_scheme \<Rightarrow> 'a message_state_scheme" where
  "queue_clear p s = (node_clear p s)\<lparr>lists := (lists s)(LIn p \<mapsto> zero_list),
     message_queues := (message_queues s)(p \<mapsto> \<lparr>max_size = 0, owner_task = 0\<rparr>)\<rparr>"

definition message_clear :: "ptr \<Rightarrow> 'a message_state_scheme \<Rightarrow> 'a message_state_scheme" where
  "message_clear p s = (node_clear p s)\<lparr>message_nodes := (message_nodes s)(p \<mapsto> \<lparr>msg_type = MSG_DATA_TYPE_U8, msg_data = MsgValue 0\<rparr>)\<rparr>"

definition message_alloc :: "'a message_state_scheme \<Rightarrow> (ptr \<times> 'a message_state_scheme) option" where
  "message_alloc s = do {
     ((obj, obj_data), s) \<leftarrow> KMemAllocObject SIZEOF_MESSAGE_NODE 0 None s;
     Some (obj, message_clear obj s)
   }"

definition message_free :: "ptr \<Rightarrow> 'a message_state_scheme \<Rightarrow> (OsResult_t \<times> 'a message_state_scheme) option" where
  "message_free p s = do {
     ((result, obj, obj_data), s) \<leftarrow> KMemFreeObject (Some p) None s;
     Some (result, if result = OS_RES_OK then message_clear p s else s)
   }"

subsection \<open>Queues\<close>

definition KMessageInit :: "'a message_state_scheme \<Rightarrow> 'a message_state_scheme option" where
  "KMessageInit s = do { (r, s) \<leftarrow> ListInit MessageQueueList ID_GROUP_MESSAGE_QUEUE s; Some s }"

text \<open>The result code is what the function returns, in place of the ID.\<close>

definition MessageQueueCreate :: "Id_t \<Rightarrow> U32_t \<Rightarrow> 'a message_state_scheme \<Rightarrow> (OsResult_t \<times> 'a message_state_scheme) option" where
  "MessageQueueCreate task_id limit s =
     (if limit > 0 then do {
        ((queue, data), s) \<leftarrow> KMemAllocObject SIZEOF_MESSAGE_QUEUE 0 None s;
        let s = queue_clear queue s;
        if queue \<noteq> NULL then do {
          s \<leftarrow> queue_update queue (\<lambda>q. q\<lparr>max_size := limit, owner_task := task_id\<rparr>) s;
          (result, s) \<leftarrow> ListNodeInit queue queue s;
          (result, s) \<leftarrow> (if result = OS_RES_OK then ListNodeAddSorted MessageQueueList queue s else Some (result, s));
          s \<leftarrow> (if result = OS_RES_OK then do { (r, s) \<leftarrow> ListInit (LIn queue) ID_GROUP_MESSAGE_QUEUE s; Some s }
                else do {
                  ((r, obj, d), s) \<leftarrow> KMemFreeObject (Some queue) None s;
                  Some (if r = OS_RES_OK then queue_clear queue s else s)
                });
          Some (result, s)
        } else Some (OS_RES_ERROR, s)
      } else Some (OS_RES_INVALID_ARGUMENT, s))"

definition MessageQueueSizeGet :: "Id_t \<Rightarrow> 'a message_state_scheme \<Rightarrow> (U32_t \<times> 'a message_state_scheme) option" where
  "MessageQueueSizeGet msg_queue_id s =
     LIST_NODE_ACCESS LIST_LOCK_MODE_WRITE MessageQueueList msg_queue_id (\<lambda>node s. do {
       queue \<leftarrow> ListNodeChildGet node s;
       if queue \<noteq> NULL then do { (n, s) \<leftarrow> ListSizeGet (LIn queue) s; Some (ucast n, s) } else Some (0, s)
     }) 0 s"

subsection \<open>Sending\<close>

text \<open>The part of \<open>MessageSend\<close> that makes a node for the message and appends it; the queue has space.\<close>

definition MessageSend_append ::
  "Id_t \<Rightarrow> ptr \<Rightarrow> Message_t \<Rightarrow> 'a message_state_scheme \<Rightarrow> (OsResult_t \<times> 'a message_state_scheme) option" where
  "MessageSend_append msg_queue_id queue msg s = do {
     (msg_node, s) \<leftarrow> message_alloc s;
     if msg_node \<noteq> NULL then do {
       (result, s) \<leftarrow> ListNodeInit msg_node msg_node s;
       (result, s) \<leftarrow> (if result = OS_RES_OK then do {
           let s = s\<lparr>message_nodes := (message_nodes s)(msg_node \<mapsto> msg)\<rparr>;
           (r, s) \<leftarrow> ListNodeIdSet msg_node msg_queue_id s;
           ListNodeAddAtPosition (LIn queue) msg_node LIST_POSITION_TAIL s
         } else Some (result, s));
       if result \<noteq> OS_RES_OK then do {
         (r, s) \<leftarrow> ListNodeDeinit (LIn queue) msg_node s;
         (r, s) \<leftarrow> message_free msg_node s;
         Some (result, s)
       } else do {
         (e, s) \<leftarrow> EventEmit msg_queue_id MESSAGE_EVENT_SEND EVENT_FLAG_NONE s;
         Some (result, s)
       }
     } else Some (OS_RES_ERROR, s)
   }"

definition MessageSend_block ::
  "Id_t \<Rightarrow> Message_t \<Rightarrow> U32_t \<Rightarrow> ptr \<Rightarrow> 'a message_state_scheme \<Rightarrow> (OsResult_t \<times> 'a message_state_scheme) option" where
  "MessageSend_block msg_queue_id msg timeout_ms node s = do {
     queue \<leftarrow> ListNodeChildGet node s;
     if queue \<noteq> NULL then do {
       ll \<leftarrow> ll_at (LIn queue) s;
       q \<leftarrow> queue_at queue s;
       if ucast (ll_size ll) < max_size q then MessageSend_append msg_queue_id queue msg s
       else SYS_CALL_EVENT_REGISTER msg_queue_id MESSAGE_EVENT_RECEIVE timeout_ms s
     } else Some (OS_RES_ERROR, s)
   }"

text \<open>The message is \<open>None\<close> for a null pointer.\<close>

definition MessageSend ::
  "Id_t \<Rightarrow> Message_t option \<Rightarrow> U32_t \<Rightarrow> 'a message_state_scheme \<Rightarrow> (OsResult_t \<times> 'a message_state_scheme) option" where
  "MessageSend msg_queue_id message timeout_ms s =
     sys_call_enter msg_queue_id MESSAGE_EVENT_RECEIVE (\<lambda>result s.
       (case message of
          None \<Rightarrow> Some (result, s)
        | Some msg \<Rightarrow>
            if msg_queue_id \<noteq> ID_INVALID
            then LIST_NODE_ACCESS LIST_LOCK_MODE_WRITE MessageQueueList msg_queue_id
                   (MessageSend_block msg_queue_id msg timeout_ms) OS_RES_ERROR s
            else Some (result, s))) s"

text \<open>The loop of \<open>MessageMulticast\<close>; the list of queues is consumed from its end.\<close>

partial_function (option) MessageMulticast_loop ::
  "IdList_t option \<Rightarrow> Message_t option \<Rightarrow> U32_t \<Rightarrow> OsResult_t \<Rightarrow> 'a message_state_scheme \<Rightarrow>
     ((OsResult_t \<times> IdList_t option) \<times> 'a message_state_scheme) option" where
  "MessageMulticast_loop msg_queue_ids message timeout_ms res s = do {
     (msg_queue_id, msg_queue_ids) \<leftarrow> IdListIdRemove msg_queue_ids;
     if msg_queue_id = ID_INVALID then Some ((res, msg_queue_ids), s)
     else do {
       (res, s) \<leftarrow> MessageSend msg_queue_id message timeout_ms s;
       if res = OS_RES_OK \<or> res = OS_RES_POLL \<or> res = OS_RES_EVENT
       then MessageMulticast_loop msg_queue_ids message timeout_ms res s
       else Some ((res, msg_queue_ids), s)
     }
   }"

definition MessageMulticast ::
  "IdList_t option \<Rightarrow> Message_t option \<Rightarrow> U32_t \<Rightarrow> 'a message_state_scheme \<Rightarrow>
     ((OsResult_t \<times> IdList_t option) \<times> 'a message_state_scheme) option" where
  "MessageMulticast msg_queue_ids message timeout_ms s =
     MessageMulticast_loop msg_queue_ids message timeout_ms OS_RES_FAIL s"

subsection \<open>Receiving\<close>

text \<open>The message at the caller's pointer is an argument and a result. Taking a node from a locked queue gives a null node, whose child is read.\<close>

definition MessageReceive_take ::
  "Id_t \<Rightarrow> ptr \<Rightarrow> Message_t \<Rightarrow> 'a message_state_scheme \<Rightarrow> ((OsResult_t \<times> Message_t) \<times> 'a message_state_scheme) option" where
  "MessageReceive_take msg_queue_id queue msg s = do {
     (node, s) \<leftarrow> ListNodeRemoveFromHead (LIn queue) s;
     msg_node \<leftarrow> ListNodeChildGet node s;
     if msg_node \<noteq> NULL then do {
       msg \<leftarrow> message_at msg_node s;
       (result, s) \<leftarrow> message_free msg_node s;
       (e, s) \<leftarrow> EventEmit msg_queue_id MESSAGE_EVENT_RECEIVE EVENT_FLAG_NONE s;
       Some ((result, msg), s)
     } else Some ((OS_RES_ERROR, msg), s)
   }"

definition MessageReceive_block ::
  "Id_t \<Rightarrow> Message_t \<Rightarrow> U32_t \<Rightarrow> ptr \<Rightarrow> 'a message_state_scheme \<Rightarrow> ((OsResult_t \<times> Message_t) \<times> 'a message_state_scheme) option" where
  "MessageReceive_block msg_queue_id msg timeout_ms node s = do {
     queue \<leftarrow> ListNodeChildGet node s;
     if queue \<noteq> NULL then do {
       q \<leftarrow> queue_at queue s;
       (tid, s) \<leftarrow> TaskIdGet s;
       if owner_task q = tid then do {
         ll \<leftarrow> ll_at (LIn queue) s;
         if ll_size ll > 0 then MessageReceive_take msg_queue_id queue msg s
         else do {
           (result, s) \<leftarrow> SYS_CALL_EVENT_REGISTER msg_queue_id MESSAGE_EVENT_SEND timeout_ms s;
           Some ((result, msg), s)
         }
       } else Some ((OS_RES_RESTRICTED, msg), s)
     } else Some ((OS_RES_ERROR, msg), s)
   }"

definition MessageReceive ::
  "Id_t \<Rightarrow> Message_t option \<Rightarrow> U32_t \<Rightarrow> 'a message_state_scheme \<Rightarrow>
     ((OsResult_t \<times> Message_t option) \<times> 'a message_state_scheme) option" where
  "MessageReceive msg_queue_id message timeout_ms s = do {
     (result, s) \<leftarrow> SYS_CALL_EVENT_HANDLE msg_queue_id MESSAGE_EVENT_SEND s;
     if result = OS_RES_TIMEOUT \<or> result = OS_RES_POLL then Some ((result, message), s)
     else
       (case message of
          None \<Rightarrow> Some ((result, None), s)
        | Some msg \<Rightarrow>
            if msg_queue_id \<noteq> ID_INVALID
            then do {
              ((result, msg), s) \<leftarrow> LIST_NODE_ACCESS LIST_LOCK_MODE_WRITE MessageQueueList msg_queue_id
                (MessageReceive_block msg_queue_id msg timeout_ms) (OS_RES_ERROR, msg) s;
              Some ((result, Some msg), s)
            }
            else Some ((result, Some msg), s))
   }"

end
