(* ===== verification/Kernel.thy ===== *)
theory Kernel
  imports Message
begin

text \<open>
  The part of \<^verbatim>\<open>Core.c\<close> above the modules: the OS tick, the task switch, the dispatch at the end of a task and the
  questions an application asks about tasks. The configuration is the cooperative one. A tick interrupt is a call of
  \<open>OsTick\<close>; where the code waits for the interrupt, one turn of the model's loop is one tick, and the wait is endless
  (\<open>None\<close>) when interrupts are off. \<^verbatim>\<open>PortOsTimerTicksSet\<close> and \<^verbatim>\<open>PortOsIntFlagClear\<close> only reach the hardware.
\<close>

subsection \<open>Tasks and events\<close>

definition OsTasksTotalGet :: "'a message_state_scheme \<Rightarrow> (U32_t \<times> 'a message_state_scheme) option" where
  "OsTasksTotalGet s = do {
     (a, s) \<leftarrow> ListSizeGet (kr_tcb_list (KernelReg s)) s;
     (b, s) \<leftarrow> ListSizeGet (kr_tcb_wait_list (KernelReg s)) s;
     (c, s) \<leftarrow> KSchedulerQueueSizeGet s;
     Some (ucast a + ucast b + c + 1, s)
   }"

definition OsTasksActiveGet :: "'a message_state_scheme \<Rightarrow> (U32_t \<times> 'a message_state_scheme) option" where
  "OsTasksActiveGet s = do {
     (b, s) \<leftarrow> ListSizeGet (kr_tcb_wait_list (KernelReg s)) s;
     (c, s) \<leftarrow> KSchedulerQueueSizeGet s;
     Some (ucast b + c + 1, s)
   }"

definition OsEventsTotalGet :: "'a message_state_scheme \<Rightarrow> U32_t option" where
  "OsEventsTotalGet s = do { n \<leftarrow> EventListSizeGet (kr_event_list (KernelReg s)) s; Some (ucast n) }"

definition OsTaskExists :: "Id_t \<Rightarrow> 'a message_state_scheme \<Rightarrow> (bool \<times> 'a message_state_scheme) option" where
  "OsTaskExists task_id s =
     (if IdIsInGroup task_id ID_GROUP_TASK = 0 then Some (False, s)
      else do { (tcb, s) \<leftarrow> KTcbFromId task_id s; Some (tcb \<noteq> NULL, s) })"

definition OsCurrentTaskGet :: "'a message_state_scheme \<Rightarrow> (Id_t \<times> 'a message_state_scheme) option" where
  "OsCurrentTaskGet s = do {
     let run = kr_tcb_running (KernelReg s);
     (r, s) \<leftarrow> ListNodeLock run LIST_LOCK_MODE_READ s;
     if r = OS_RES_OK then do {
       oid \<leftarrow> ListNodeIdGet run s;
       (r, s) \<leftarrow> ListNodeUnlock run s;
       Some (oid, s)
     } else Some (ID_INVALID, s)
   }"

definition OS_VERSION :: U16_t where "OS_VERSION = 0x0041"

definition OsVersionGet :: U16_t where "OsVersionGet = OS_VERSION"

subsection \<open>The task switch\<close>

definition reg_running :: "ptr \<Rightarrow> 'a core_state_scheme \<Rightarrow> 'a core_state_scheme" where
  "reg_running tcb s = s\<lparr>KernelReg := (KernelReg s)\<lparr>kr_tcb_running := tcb\<rparr>\<rparr>"

text \<open>Where the running task goes: the wait list, the task list, or away when it is to be deleted.\<close>

definition ICoreSwitchTask_leave :: "'a message_state_scheme \<Rightarrow> 'a message_state_scheme option" where
  "ICoreSwitchTask_leave s = do {
     let run = kr_tcb_running (KernelReg s);
     (n, s) \<leftarrow> ListSizeGet (LIn run) s;
     if n \<noteq> 0 then do {
       s \<leftarrow> KTaskStateSet run TASK_STATE_WAITING s;
       (r, s) \<leftarrow> ListNodeAddSorted (kr_tcb_wait_list (KernelReg s)) run s;
       Some s
     } else do {
       del \<leftarrow> KTaskFlagGet run TASK_FLAG_DELETE s;
       if del = 0 then do {
         s \<leftarrow> KTaskStateSet run TASK_STATE_IDLE s;
         (r, s) \<leftarrow> ListNodeAddSorted (kr_tcb_list (KernelReg s)) run s;
         Some s
       } else do {
         t \<leftarrow> tcb_at run s;
         if category t \<noteq> TASK_CAT_OS \<or> run \<noteq> kr_tcb_idle (KernelReg s) then do {
           (r, s) \<leftarrow> KTcbDestroy run LNULL s;
           Some s
         } else do {
           s \<leftarrow> KTaskStateSet run TASK_STATE_IDLE s;
           s \<leftarrow> KTaskFlagClear run TASK_FLAG_DELETE s;
           (r, s) \<leftarrow> ListNodeAddSorted (kr_tcb_list (KernelReg s)) run s;
           Some s
         }
       }
     }
   }"

definition ICoreSwitchTask :: "'a message_state_scheme \<Rightarrow> 'a message_state_scheme option" where
  "ICoreSwitchTask s =
     (if KCoreFlagGet CORE_FLAG_KERNEL_MODE s = 0 then Some s
      else do {
        s \<leftarrow> ICoreSwitchTask_leave s;
        (tcb, s) \<leftarrow> KSchedulerQueueTaskPop s;
        s \<leftarrow> (if tcb = NULL then do {
            (n, s) \<leftarrow> ListNodeRemove (kr_tcb_list (KernelReg s)) (kr_tcb_idle (KernelReg s)) s;
            Some (reg_running (kr_tcb_idle (KernelReg s)) s)
          } else Some (reg_running tcb s));
        s \<leftarrow> KTaskStateSet (kr_tcb_running (KernelReg s)) TASK_STATE_RUNNING s;
        Some (KTcbRunningRefSet (kr_tcb_running (KernelReg s)) s)
      })"

subsection \<open>The tick\<close>

text \<open>The array \<^verbatim>\<open>TcbLists\<close>, as \<open>OsInit\<close> fills it.\<close>

definition TcbLists :: "'a message_state_scheme \<Rightarrow> lptr list" where
  "TcbLists s = [kr_tcb_wait_list (KernelReg s), kr_tcb_list (KernelReg s)]"

definition ICoreTickCoop_body :: "'a message_state_scheme \<Rightarrow> 'a message_state_scheme option" where
  "ICoreTickCoop_body s = do {
     s \<leftarrow> KCoreFlagSet CORE_FLAG_TICK s;
     s \<leftarrow> (if KCoreFlagGet CORE_FLAG_DISPATCH s = 0 then ICoreRunTimeAccumulate (kr_tick_period_us (KernelReg s)) s else Some s);
     s \<leftarrow> ICoreRunTimeUpdate s;
     s \<leftarrow> KTaskRunTimeUpdate s;
     s \<leftarrow> (if KCoreFlagGet CORE_FLAG_DISPATCH s \<noteq> 0 \<and> kr_isr_nest_counter (KernelReg s) = 1 then do {
         s \<leftarrow> KTaskRunTimeReset (kr_tcb_running (KernelReg s)) s;
         s \<leftarrow> ICoreSwitchTask s;
         KCoreFlagClear CORE_FLAG_DISPATCH s
       } else Some s);
     free \<leftarrow> (if kr_scheduler_lock (KernelReg s) \<noteq> 0 then Some False
       else do {
         a \<leftarrow> ListIsLocked (kr_tcb_wait_list (KernelReg s)) s;
         if a then Some False
         else do {
           b \<leftarrow> ListIsLocked (kr_tcb_list (KernelReg s)) s;
           if b then Some False
           else do { c \<leftarrow> ListIsLocked (kr_event_list (KernelReg s)) s; Some (\<not> c) }
         }
       });
     s \<leftarrow> (if free then KSchedulerCycle (TcbLists s) s else Some s);
     (n, s) \<leftarrow> KSchedulerQueueSizeGet s;
     s \<leftarrow> (if n \<noteq> 0 then KCoreFlagClear CORE_FLAG_IDLE s else Some s);
     KCoreFlagClear CORE_FLAG_TICK s
   }"

definition ICoreTickCoop :: "'a message_state_scheme \<Rightarrow> 'a message_state_scheme option" where
  "ICoreTickCoop s = do {
     s \<leftarrow> OsIsrBegin s;
     s \<leftarrow> OsCritSectBegin s;
     (n, s) \<leftarrow> KCoreKernelModeEnter s;
     s \<leftarrow> (if KCoreFlagGet CORE_FLAG_TICK s = 0 then ICoreTickCoop_body s else Some s);
     (n, s) \<leftarrow> KCoreKernelModeExit s;
     s \<leftarrow> OsCritSectEnd s;
     OsIsrEnd s
   }"

definition OsTick :: "'a message_state_scheme \<Rightarrow> 'a message_state_scheme option" where
  "OsTick s = (if kr_tcb_running (KernelReg s) \<noteq> NULL then ICoreTickCoop s else Some s)"

subsection \<open>Waiting for the tick\<close>

definition ICoreOsIntEnable :: "'a core_state_scheme \<Rightarrow> 'a core_state_scheme option" where
  "ICoreOsIntEnable s = KCoreFlagSet CORE_FLAG_OS_IRQ_EN s"

definition ICoreOsIntDisable :: "'a core_state_scheme \<Rightarrow> 'a core_state_scheme option" where
  "ICoreOsIntDisable s = KCoreFlagClear CORE_FLAG_OS_IRQ_EN s"

text \<open>The tick interrupt can come: \<^verbatim>\<open>PortOsIntEnable\<close> is called together with the flag being set.\<close>

definition tick_enabled :: "'a core_state_scheme \<Rightarrow> bool" where
  "tick_enabled s \<longleftrightarrow> GlobalIntEnabled s \<and> KCoreFlagGet CORE_FLAG_OS_IRQ_EN s \<noteq> 0"

text \<open>Busy waiting until a tick has cleared a flag.\<close>

partial_function (option) wait_flag_cleared ::
  "CoreFlags_t \<Rightarrow> 'a message_state_scheme \<Rightarrow> 'a message_state_scheme option" where
  "wait_flag_cleared flag s =
     (if KCoreFlagGet flag s \<noteq> 0
      then (if tick_enabled s then do { s \<leftarrow> OsTick s; wait_flag_cleared flag s } else None)
      else Some s)"

text \<open>\<open>tc_us\<close> is the timer count of the port in microseconds, which \<^verbatim>\<open>CORE_OS_TIMER_TICKS_TO_US\<close> computes in floating point.\<close>

definition ICoreTickInvoke :: "U32_t \<Rightarrow> 'a message_state_scheme \<Rightarrow> 'a message_state_scheme option" where
  "ICoreTickInvoke tc_us s = do {
     s \<leftarrow> ICoreRunTimeAccumulate tc_us s;
     s \<leftarrow> KCoreFlagSet CORE_FLAG_DISPATCH s;
     wait_flag_cleared CORE_FLAG_DISPATCH s
   }"

subsection \<open>The kernel tasks\<close>

definition KernelTaskIdle :: "'a message_state_scheme \<Rightarrow> 'a message_state_scheme option" where
  "KernelTaskIdle s = do {
     s \<leftarrow> KCoreFlagSet CORE_FLAG_IDLE s;
     wait_flag_cleared CORE_FLAG_IDLE s
   }"

text \<open>The static variables of \<open>KernelTaskTimerUpdate\<close>; the callbacks of timers are a parameter.\<close>

record kernel_state = message_state +
  kt_init_done :: bool
  kt_sleep_time :: U32_t
  kt_micros :: U32_t

definition KernelTaskTimerUpdate ::
  "(ptr \<Rightarrow> Id_t \<Rightarrow> ptr \<Rightarrow> 'a kernel_state_scheme \<Rightarrow> 'a kernel_state_scheme option) \<Rightarrow> U32_t \<Rightarrow>
     'a kernel_state_scheme \<Rightarrow> 'a kernel_state_scheme option" where
  "KernelTaskTimerUpdate callback varg s = do {
     let s = (if \<not> kt_init_done s then s\<lparr>kt_sleep_time := varg, kt_init_done := True\<rparr> else s);
     (t_accu_us, s) \<leftarrow> OsRunTimeMicrosDelta (kt_micros s) s;
     s \<leftarrow> (if t_accu_us = 0 then Some s
       else do {
         (m, s) \<leftarrow> OsRunTimeMicrosGet s;
         KTimerUpdateAll callback t_accu_us (s\<lparr>kt_micros := m\<rparr>)
       });
     (r, s) \<leftarrow> TaskSleep (kt_sleep_time s) s;
     Some s
   }"

end
