(* ===== verification/HexId.thy ===== *)
theory HexId
  imports Convert IdType
begin

text \<open>
  \<^verbatim>\<open>ConvertHexStringToId\<close> of \<^verbatim>\<open>Convert.c\<close>, which reads the ID of a task on the command line of the shell. What \<^verbatim>\<open>sscanf\<close> does with
  the format \<^verbatim>\<open>%08x\<close> is written out as the C standard has it: blanks are skipped; a sign, the prefix \<^verbatim>\<open>0x\<close> and hexadecimal
  digits follow, at most eight characters together; without a digit nothing is stored.
\<close>

definition is_space :: "U8_t \<Rightarrow> bool" where "is_space c \<longleftrightarrow> c = 0x20 \<or> (9 \<le> c \<and> c \<le> 13)"

definition hex_digit :: "U8_t \<Rightarrow> nat option" where
  "hex_digit c =
     (if 0x30 \<le> c \<and> c \<le> 0x39 then Some (unat (c - 0x30))
      else if 0x41 \<le> c \<and> c \<le> 0x46 then Some (unat (c - 0x37))
      else if 0x61 \<le> c \<and> c \<le> 0x66 then Some (unat (c - 0x57)) else None)"

fun hex_run :: "nat \<Rightarrow> U8_t list \<Rightarrow> nat list" where
  "hex_run (Suc n) (c # cs) = (case hex_digit c of None \<Rightarrow> [] | Some d \<Rightarrow> d # hex_run n cs)"
| "hex_run n cs = []"

definition hex_value :: "nat list \<Rightarrow> nat" where "hex_value = foldl (\<lambda>v d. 16 * v + d) 0"

definition scan_sign :: "nat \<times> U8_t list \<Rightarrow> bool \<times> nat \<times> U8_t list" where
  "scan_sign = (\<lambda>(w, cs). case cs of [] \<Rightarrow> (False, w, cs)
     | c # cs' \<Rightarrow> if c = 0x2D then (True, w - 1, cs') else if c = 0x2B then (False, w - 1, cs') else (False, w, cs))"

definition scan_prefix :: "nat \<times> U8_t list \<Rightarrow> nat \<times> U8_t list" where
  "scan_prefix = (\<lambda>(w, cs). case cs of c # x # cs' \<Rightarrow> if c = 0x30 \<and> (x = 0x78 \<or> x = 0x58) then (w - 2, cs') else (w, cs)
     | _ \<Rightarrow> (w, cs))"

definition sscanf_08x :: "U8_t list \<Rightarrow> U32_t option" where
  "sscanf_08x str =
     (let (neg, w, cs) = scan_sign (8, dropWhile is_space str);
          (w, cs) = scan_prefix (w, cs);
          ds = hex_run w cs;
          v = word_of_nat (hex_value ds)
      in if ds = [] then None else Some (if neg then - v else v))"

definition ConvertHexStringToId :: "U8_t list \<Rightarrow> Id_t" where
  "ConvertHexStringToId hex_id_str = (let id0 = ID_INVALID in case sscanf_08x hex_id_str of None \<Rightarrow> id0 | Some v \<Rightarrow> v)"

subsection \<open>Digits\<close>

text \<open>A number in hexadecimal digits, capital or small.\<close>

definition hex_char :: "bool \<Rightarrow> nat \<Rightarrow> U8_t" where
  "hex_char capital d = (if d < 10 then 0x30 else if capital then 0x37 else 0x57) + word_of_nat d"

fun nibbles :: "nat \<Rightarrow> nat \<Rightarrow> nat list" where
  "nibbles 0 v = []"
| "nibbles (Suc n) v = nibbles n (v div 16) @ [v mod 16]"

definition hex_text :: "bool \<Rightarrow> nat \<Rightarrow> nat \<Rightarrow> U8_t list" where
  "hex_text capital n v = map (hex_char capital) (nibbles n v)"

lemma sixteen: "d < 16 \<Longrightarrow> d \<in> {0, 1, 2, 3, 4, 5, 6, 7, 8, 9, 10, 11, 12, 13, 14, 15 :: nat}"
  unfolding insert_iff empty_iff by presburger

lemma hex_digit_char: "d < 16 \<Longrightarrow> hex_digit (hex_char capital d) = Some d"
  by (drule sixteen) (cases capital; elim insertE emptyE; simp add: hex_digit_def hex_char_def)

lemma hex_digit_starts: "hex_digit c = Some d \<Longrightarrow> \<not> is_space c \<and> c \<noteq> 0x2D \<and> c \<noteq> 0x2B \<and> c \<noteq> 0x78 \<and> c \<noteq> 0x58"
  by (auto simp: hex_digit_def is_space_def word_le_nat_alt split: if_splits)

lemma nibbles_props: "length (nibbles n v) = n" "\<forall>d \<in> set (nibbles n v). d < 16" "hex_value (nibbles n v) = v mod 16 ^ n"
proof (induction n arbitrary: v)
  case (Suc n)
  { case 3 show ?case using Suc(3) [of "v div 16"] mod_mult2_eq [of v 16 "16 ^ n"] by (simp add: hex_value_def) }
qed (simp_all add: hex_value_def)

lemma hex_run_text:
  "\<forall>d \<in> set ds. d < 16 \<Longrightarrow> length ds \<le> w \<Longrightarrow> w = length ds \<or> rest = [] \<Longrightarrow> hex_run w (map (hex_char capital) ds @ rest) = ds"
proof (induction ds arbitrary: w)
  case (Cons d ds)
  then show ?case by (cases w) (auto simp: hex_digit_char)
qed (cases rest; auto)

lemma hex_run_stop: "hex_digit c = None \<Longrightarrow> hex_run w (c # cs) = []"
  by (cases w) auto

lemma nibbles_numeral: "nibbles (numeral k) v = nibbles (pred_numeral k) (v div 16) @ [v mod 16]"
  by (subst numeral_eq_Suc) (rule nibbles.simps(2))

text \<open>
  The ID whose hexadecimal digits are given, in capital or small letters, is the ID that is read, leading zeros included; after
  eight digits reading stops, whatever follows. A text that does not begin with a digit, a sign or a blank gives no valid ID.
\<close>

lemma ConvertHexStringToId_digits:
  assumes "0 < n" and "n \<le> 8" and "v < 16 ^ n"
  shows "ConvertHexStringToId (hex_text capital n v @ (if n = 8 then rest else [])) = word_of_nat v \<and>
    (hex_digit c = None \<and> \<not> is_space c \<and> c \<noteq> 0x2B \<and> c \<noteq> 0x2D \<longrightarrow> ConvertHexStringToId (c # cs) = ID_INVALID)"
proof (rule conjI)
  let ?ds = "nibbles n v" and ?r = "if n = 8 then rest else []"
  have ds: "\<forall>d \<in> set ?ds. d < 16" "length ?ds = n" "hex_value ?ds = v" using nibbles_props assms(3) by simp_all
  obtain d ds' where d: "?ds = d # ds'" using ds(2) assms(1) by (cases ?ds) auto
  let ?c = "hex_char capital d" and ?cs = "map (hex_char capital) ?ds @ ?r"
  have c: "\<not> is_space ?c" "?c \<noteq> 0x2D" "?c \<noteq> 0x2B" using hex_digit_starts [OF hex_digit_char] ds(1) d by auto
  have "scan_sign (8, dropWhile is_space ?cs) = (False, 8, ?cs)" using c by (simp add: scan_sign_def d)
  moreover have "scan_prefix (8, ?cs) = (8, ?cs)"
  proof (cases ds')
    case Nil
    then show ?thesis using ds(2) d by (auto simp: scan_prefix_def)
  next
    case (Cons e ds'')
    then show ?thesis using hex_digit_starts [OF hex_digit_char, of e capital] ds(1) d by (auto simp: scan_prefix_def)
  qed
  moreover have "hex_run 8 ?cs = ?ds" using ds assms(2) by (intro hex_run_text) auto
  ultimately show "ConvertHexStringToId (hex_text capital n v @ ?r) = word_of_nat v"
    using ds(3) d by (simp add: ConvertHexStringToId_def sscanf_08x_def hex_text_def)
next
  have "scan_prefix (8, c # cs) = (8, c # cs)" if "hex_digit c = None"
    using that by (cases cs) (auto simp: scan_prefix_def hex_digit_def)
  then show "hex_digit c = None \<and> \<not> is_space c \<and> c \<noteq> 0x2B \<and> c \<noteq> 0x2D \<longrightarrow> ConvertHexStringToId (c # cs) = ID_INVALID"
    by (simp add: ConvertHexStringToId_def sscanf_08x_def scan_sign_def hex_run_stop)
qed

text \<open>The example of the header file, and a word in its place.\<close>

lemma ConvertHexStringToId_digits_witness:
  "ConvertHexStringToId [0x30, 0x31, 0x30, 0x30, 0x31, 0x34, 0x32, 0x41] = 0x0100142A \<and> ConvertHexStringToId [0x72] = ID_INVALID"
  using ConvertHexStringToId_digits [of 8 "0x0100142A" True "[]" "0x72" "[]"]
  by (simp add: hex_text_def hex_char_def nibbles_numeral hex_digit_def is_space_def)

end
