(* ===== verification/Shell.thy ===== *)
theory Shell
  imports Kernel HexId
begin

text \<open>
  \<^verbatim>\<open>Shell.c\<close> and the built-in commands: the command table, the reading and splitting of a line, and the task that
  executes a command. What the shell prints has no effect on the state. Function addresses and the address of the
  receive buffer are the parameters collected in \<open>symbols\<close>; the callbacks of commands are a parameter.
  Pointers in memory are words of the OS heap, and strings end with a zero byte.
\<close>

definition SHELL_MAX_COMMAND_COUNT :: nat where "SHELL_MAX_COMMAND_COUNT = 10"
definition SHELL_MAX_LINE_LENGTH :: nat where "SHELL_MAX_LINE_LENGTH = 200"
definition SHELL_MAX_TOKEN_COUNT :: nat where "SHELL_MAX_TOKEN_COUNT = 10"
definition SHELL_MAX_TOKEN_LENGTH :: nat where "SHELL_MAX_TOKEN_LENGTH = 10"
definition SHELL_MAX_COMMAND_LENGTH :: nat where "SHELL_MAX_COMMAND_LENGTH = 10"
definition SplitChars :: "U8_t list" where "SplitChars = [0x20]"
definition IgnoreChars :: "U8_t list" where "IgnoreChars = [0x3D]"
definition LineTerminatorChar :: U8_t where "LineTerminatorChar = 0x0A"

text \<open>The bytes of \<^verbatim>\<open>cmd\<close> up to the terminating zero.\<close>

record ShellCommand =
  cmd :: "U8_t list"
  callback_init :: ptr
  callback_help :: ptr
  callback_execute :: ptr
  min_tokens :: U8_t
  max_tokens :: U8_t

record shell_state = kernel_state +
  ShellRxRingbuf :: Id_t
  ShellPool :: Id_t
  ShellCommandSet :: "ShellCommand list"
  TotalShellCommands :: U8_t
  TidShellParse :: Id_t
  line_write_index :: U8_t
  LineBuffer :: "U8_t list"

record symbols =
  sym_idle :: ptr
  sym_timer_update :: ptr
  sym_shell_parse :: ptr
  sym_shell_execute :: ptr
  sym_rx_buffer :: ptr
  sym_help_config :: ptr
  sym_execute_config :: ptr
  sym_execute_help :: ptr
  sym_help_run :: ptr
  sym_execute_run :: ptr

definition ShellCommandShellConfig :: "symbols \<Rightarrow> ShellCommand" where
  "ShellCommandShellConfig y = \<lparr>cmd = [0x63, 0x66, 0x67], callback_init = NULL, callback_help = sym_help_config y,
     callback_execute = sym_execute_config y, min_tokens = 1, max_tokens = 4\<rparr>"

definition ShellCommandHelp :: "symbols \<Rightarrow> ShellCommand" where
  "ShellCommandHelp y = \<lparr>cmd = [0x68, 0x65, 0x6C, 0x70], callback_init = NULL, callback_help = NULL,
     callback_execute = sym_execute_help y, min_tokens = 1, max_tokens = 2\<rparr>"

definition ShellCommandRun :: "symbols \<Rightarrow> ShellCommand" where
  "ShellCommandRun y = \<lparr>cmd = [0x72, 0x75, 0x6E], callback_init = NULL, callback_help = sym_help_run y,
     callback_execute = sym_execute_run y, min_tokens = 2, max_tokens = 2\<rparr>"

subsection \<open>The command table\<close>

definition ShellCommandRegister :: "ShellCommand \<Rightarrow> 'a shell_state_scheme \<Rightarrow> OsResult_t \<times> 'a shell_state_scheme" where
  "ShellCommandRegister c s =
     (if unat (TotalShellCommands s) \<ge> SHELL_MAX_COMMAND_COUNT then (OS_RES_FAIL, s)
      else (OS_RES_OK, s\<lparr>ShellCommandSet := (ShellCommandSet s)[unat (TotalShellCommands s) := c],
              TotalShellCommands := TotalShellCommands s + 1\<rparr>))"

text \<open>The index of the command in the table; the loop goes on after a match, so the last one counts.\<close>

definition ShellCommandFromName :: "U8_t list \<Rightarrow> 'a shell_state_scheme \<Rightarrow> nat option" where
  "ShellCommandFromName name s =
     foldl (\<lambda>r i. if cmd (ShellCommandSet s ! i) = name then Some i else r) None [0..<unat (TotalShellCommands s)]"

subsection \<open>Strings and tokens in memory\<close>

partial_function (option) c_string :: "ptr \<Rightarrow> 'a ringbuf_state_scheme \<Rightarrow> U8_t list option" where
  "c_string p s = do {
     b \<leftarrow> any_read p s;
     if b = 0 then Some [] else do { bs \<leftarrow> c_string (p + 1) s; Some (b # bs) }
   }"

text \<open>\<open>tokens[i]\<close> of an array of pointers.\<close>

definition token_ptr :: "ptr \<Rightarrow> nat \<Rightarrow> 'a mem_state_scheme \<Rightarrow> ptr option" where
  "token_ptr args i s = do { w \<leftarrow> word_read (args + 4 * i) s; Some (unat w) }"

fun TokensContainArgument_loop :: "nat \<Rightarrow> nat \<Rightarrow> ptr \<Rightarrow> U8_t list \<Rightarrow> 'a ringbuf_state_scheme \<Rightarrow> S8_t option" where
  "TokensContainArgument_loop 0 i tokens argument s = Some (- 1)"
| "TokensContainArgument_loop (Suc k) i tokens argument s = do {
     p \<leftarrow> token_ptr tokens i s;
     t \<leftarrow> c_string p s;
     if t = argument then Some (word_of_nat i) else TokensContainArgument_loop k (i + 1) tokens argument s
   }"

definition IShellCommandTokensContainArgument :: "ptr \<Rightarrow> U8_t \<Rightarrow> U8_t list \<Rightarrow> 'a ringbuf_state_scheme \<Rightarrow> S8_t option" where
  "IShellCommandTokensContainArgument tokens n_tokens argument s = TokensContainArgument_loop (unat n_tokens) 0 tokens argument s"

definition token_put :: "ptr \<Rightarrow> U8_t \<Rightarrow> U8_t \<Rightarrow> U8_t \<Rightarrow> 'a ringbuf_state_scheme \<Rightarrow> 'a ringbuf_state_scheme option" where
  "token_put args cnt w b s = do { p \<leftarrow> token_ptr args (unat cnt) s; any_write (p + unat w) b s }"

text \<open>
  The loop of \<open>IShellSplitLine\<close> at index \<open>i\<close> with the token count and the write index. The limits of the two are
  swapped in the code, which has no effect as both are 10.
\<close>

partial_function (option) IShellSplitLine_loop ::
  "U8_t list \<Rightarrow> ptr \<Rightarrow> U8_t \<Rightarrow> U8_t \<Rightarrow> nat \<Rightarrow> 'a ringbuf_state_scheme \<Rightarrow> ((U8_t \<times> U8_t) \<times> 'a ringbuf_state_scheme) option" where
  "IShellSplitLine_loop line args token_cnt token_w_index i s = do {
     c \<leftarrow> (if i < length line then Some (line ! i) else None);
     if c \<noteq> 0 \<and> i < SHELL_MAX_LINE_LENGTH then
       (if c \<in> set SplitChars then do {
          s \<leftarrow> token_put args token_cnt token_w_index 0 s;
          if token_cnt + 1 > word_of_nat SHELL_MAX_TOKEN_LENGTH then Some ((token_cnt, token_w_index), s)
          else IShellSplitLine_loop line args (token_cnt + 1) 0 (i + 1) s
        } else if c \<notin> set IgnoreChars then do {
          s \<leftarrow> token_put args token_cnt token_w_index c s;
          if token_w_index + 1 > word_of_nat SHELL_MAX_TOKEN_COUNT then Some ((token_cnt, token_w_index), s)
          else IShellSplitLine_loop line args token_cnt (token_w_index + 1) (i + 1) s
        } else IShellSplitLine_loop line args token_cnt token_w_index (i + 1) s)
     else Some ((token_cnt, token_w_index), s)
   }"

definition IShellSplitLine :: "U8_t list \<Rightarrow> ptr \<Rightarrow> 'a ringbuf_state_scheme \<Rightarrow> (U8_t \<times> 'a ringbuf_state_scheme) option" where
  "IShellSplitLine line args s = do {
     ((token_cnt, token_w_index), s) \<leftarrow> IShellSplitLine_loop line args 0 0 0 s;
     s \<leftarrow> token_put args token_cnt token_w_index 0 s;
     Some (token_cnt + 1, s)
   }"

subsection \<open>Initialisation\<close>

definition KShellInit :: "symbols \<Rightarrow> 'a shell_state_scheme \<Rightarrow> (OsResult_t \<times> 'a shell_state_scheme) option" where
  "KShellInit y s = do {
     (rb, s) \<leftarrow> RingbufCreate (sym_rx_buffer y) (word_of_nat SHELL_MAX_LINE_LENGTH * 2) s;
     let s = s\<lparr>ShellRxRingbuf := rb\<rparr>;
     (pool, s) \<leftarrow> MemPoolCreate (word_of_nat SHELL_MAX_TOKEN_COUNT * word_of_nat SHELL_MAX_TOKEN_LENGTH * 2) s;
     let s = s\<lparr>ShellPool := pool\<rparr>;
     if ShellRxRingbuf s = ID_INVALID \<or> ShellPool s = ID_INVALID then do {
       ((r, rb), s) \<leftarrow> RingbufDelete (ShellRxRingbuf s) s;
       (r, s) \<leftarrow> MemPoolDelete (ShellPool s) (s\<lparr>ShellRxRingbuf := rb\<rparr>);
       Some (OS_RES_ERROR, s)
     } else do {
       let s = s\<lparr>TotalShellCommands := 0\<rparr>;
       let (r, s) = ShellCommandRegister (ShellCommandShellConfig y) s;
       let (r, s) = ShellCommandRegister (ShellCommandHelp y) s;
       let (r, s) = ShellCommandRegister (ShellCommandRun y) s;
       (tid, s) \<leftarrow> KernelTaskCreate (sym_shell_parse y) 3 TASK_PARAMETER_NONE 0 NULL 0 s;
       let s = s\<lparr>TidShellParse := tid\<rparr>;
       if tid = ID_INVALID then Some (OS_RES_ERROR, s) else TaskNotify tid 0 s
     }
   }"

subsection \<open>The shell tasks\<close>

text \<open>The allocations for the tokens: \<open>k\<close> of them are left, the next is number \<open>i\<close>.\<close>

fun token_allocs :: "nat \<Rightarrow> nat \<Rightarrow> ptr \<Rightarrow> 'a shell_state_scheme \<Rightarrow> 'a shell_state_scheme option" where
  "token_allocs 0 i tokens s = Some s"
| "token_allocs (Suc k) i tokens s = do {
     (t, s) \<leftarrow> MemAlloc (ShellPool s) (word_of_nat SHELL_MAX_TOKEN_LENGTH) s;
     s \<leftarrow> word_write (tokens + 4 * i) (word_of_nat t) s;
     token_allocs k (i + 1) tokens s
   }"

text \<open>A complete line: allocate the tokens, split the line, create the task that executes the command.\<close>

definition TaskShellParse_line :: "symbols \<Rightarrow> 'a shell_state_scheme \<Rightarrow> 'a shell_state_scheme option" where
  "TaskShellParse_line y s = do {
     let s = s\<lparr>LineBuffer := (LineBuffer s)[unat (line_write_index s) := 0]\<rparr>;
     (tokens, s) \<leftarrow> MemAlloc (ShellPool s) (word_of_nat SHELL_MAX_TOKEN_COUNT) s;
     s \<leftarrow> token_allocs SHELL_MAX_TOKEN_COUNT 0 tokens s;
     s \<leftarrow> (if tokens = NULL then Some s
       else do {
         (n_tokens, s) \<leftarrow> IShellSplitLine (LineBuffer s) tokens s;
         (tid, s) \<leftarrow> TaskCreate (sym_shell_execute y) TASK_CAT_LOW 5 TASK_PARAMETER_START 0 tokens (ucast n_tokens) s;
         Some s
       });
     Some (s\<lparr>LineBuffer := replicate SHELL_MAX_LINE_LENGTH 0\<rparr>)
   }"

definition TaskShellParse :: "symbols \<Rightarrow> 'a shell_state_scheme \<Rightarrow> 'a shell_state_scheme option" where
  "TaskShellParse y s = do {
     (result, s) \<leftarrow> TaskPoll (ShellRxRingbuf s) RINGBUF_EVENT_DATA_IN OS_TIMEOUT_INFINITE True s;
     if result = OS_RES_EVENT \<or> result = OS_RES_POLL then do {
       (read_amount, s) \<leftarrow> RingbufDataCountGet (ShellRxRingbuf s) s;
       ((r, read_amount, rest), s) \<leftarrow>
         RingbufRead (ShellRxRingbuf s) (drop (unat (line_write_index s)) (LineBuffer s)) read_amount OS_TIMEOUT_INFINITE s;
       let s = s\<lparr>LineBuffer := take (unat (line_write_index s)) (LineBuffer s) @ rest\<rparr>;
       if read_amount \<noteq> 0 then do {
         let s = s\<lparr>line_write_index := line_write_index s + (ucast read_amount - 1)\<rparr>;
         c \<leftarrow> (if unat (line_write_index s) < length (LineBuffer s) then Some (LineBuffer s ! unat (line_write_index s)) else None);
         if c = LineTerminatorChar then TaskShellParse_line y s
         else if unat (line_write_index s) < SHELL_MAX_COMMAND_LENGTH - 1
         then Some (s\<lparr>line_write_index := line_write_index s + ucast read_amount\<rparr>)
         else Some (s\<lparr>LineBuffer := replicate SHELL_MAX_LINE_LENGTH 0\<rparr>)
       } else Some s
     } else Some s
   }"

text \<open>The search for the command of a line, from entry \<open>i\<close> of the table, with \<open>k\<close> entries left.\<close>

fun TaskShellExecute_loop ::
  "(ptr \<Rightarrow> ptr \<Rightarrow> U8_t \<Rightarrow> 'a shell_state_scheme \<Rightarrow> 'a shell_state_scheme option) \<Rightarrow> nat \<Rightarrow> nat \<Rightarrow> ptr \<Rightarrow> U8_t \<Rightarrow>
     'a shell_state_scheme \<Rightarrow> 'a shell_state_scheme option" where
  "TaskShellExecute_loop callback 0 i tokens n_tokens s = Some s"
| "TaskShellExecute_loop callback (Suc k) i tokens n_tokens s = do {
     p \<leftarrow> token_ptr tokens 0 s;
     name \<leftarrow> c_string p s;
     let c = ShellCommandSet s ! i;
     if name = cmd c then
       (if n_tokens \<le> max_tokens c \<and> n_tokens \<ge> min_tokens c \<and> callback_execute c \<noteq> NULL
        then callback (callback_execute c) tokens n_tokens s else Some s)
     else TaskShellExecute_loop callback k (i + 1) tokens n_tokens s
   }"

text \<open>\<open>tokens\<close> is passed where the address of a pointer is expected: the first token is what is freed and set to null.\<close>

definition TaskShellExecute ::
  "(ptr \<Rightarrow> ptr \<Rightarrow> U8_t \<Rightarrow> 'a shell_state_scheme \<Rightarrow> 'a shell_state_scheme option) \<Rightarrow> ptr \<Rightarrow> U32_t \<Rightarrow>
     'a shell_state_scheme \<Rightarrow> 'a shell_state_scheme option" where
  "TaskShellExecute callback tokens varg s = do {
     (tid, s) \<leftarrow> TaskIdGet s;
     s \<leftarrow> TaskShellExecute_loop callback (unat (TotalShellCommands s)) 0 tokens (ucast varg) s;
     p \<leftarrow> token_ptr tokens 0 s;
     ((r, p), s) \<leftarrow> MemFree (Some p) s;
     s \<leftarrow> (case p of None \<Rightarrow> Some s | Some p \<Rightarrow> word_write tokens (word_of_nat p) s);
     ((r, tid), s) \<leftarrow> TaskDelete (Some tid) s;
     Some s
   }"

definition PortDebugCallbackReadChars :: "U8_t list \<Rightarrow> U32_t \<Rightarrow> 'a shell_state_scheme \<Rightarrow> 'a shell_state_scheme option" where
  "PortDebugCallbackReadChars received n s = do { (r, s) \<leftarrow> RingbufWrite (ShellRxRingbuf s) received n OS_TIMEOUT_NONE s; Some s }"

subsection \<open>Built-in commands\<close>

text \<open>The help of a command only prints; what is left is the access to the tokens, which reads token 2 of 2.\<close>

definition ShellCommandExecuteHelp :: "ptr \<Rightarrow> U8_t \<Rightarrow> 'a shell_state_scheme \<Rightarrow> (OsResult_t \<times> 'a shell_state_scheme) option" where
  "ShellCommandExecuteHelp tokens n_tokens s =
     (if n_tokens = 2 then do { p \<leftarrow> token_ptr tokens 2 s; name \<leftarrow> c_string p s; Some (OS_RES_OK, s) }
      else Some (OS_RES_OK, s))"

definition ShellCommandExecuteConfig :: "ptr \<Rightarrow> U8_t \<Rightarrow> 'a shell_state_scheme \<Rightarrow> (OsResult_t \<times> 'a shell_state_scheme) option" where
  "ShellCommandExecuteConfig tokens n_tokens s = Some (OS_RES_OK, s)"

definition ShellCommandExecuteRun ::
  "ptr \<Rightarrow> U8_t \<Rightarrow> 'a shell_state_scheme \<Rightarrow> (OsResult_t \<times> 'a shell_state_scheme) option" where
  "ShellCommandExecuteRun tokens n_tokens s = do {
     p \<leftarrow> token_ptr tokens 1 s;
     txt \<leftarrow> c_string p s;
     let task_id = ConvertHexStringToId txt;
     (exists, s) \<leftarrow> OsTaskExists task_id s;
     if exists then do { (r, s) \<leftarrow> TaskNotify task_id 0 s; Some (OS_RES_OK, s) } else Some (OS_RES_OK, s)
   }"

end
