(* ===== verification/Prescaler.thy ===== *)
theory Prescaler
  imports Core Complex_Main
begin

text \<open>
  \<open>ICoreCalculatePrescaler\<close> of \<^verbatim>\<open>Core.c\<close>: the prescaler and the compare value of the OS timer for a tick frequency. The
  values of type \<^verbatim>\<open>float\<close> are rational numbers with the rounding of single precision written out; \<open>None\<close> is infinity, the
  quotient of one by zero. All other values are far from the limits of the type.
\<close>

subsection \<open>Single precision\<close>

text \<open>The exponent that brings a positive number into the range of a 24 bit significand; 300 steps are more than the type has exponents.\<close>

fun significand_exp :: "nat \<Rightarrow> rat \<Rightarrow> int \<Rightarrow> int" where
  "significand_exp 0 x e = e"
| "significand_exp (Suc k) x e =
     (if x < 2 ^ 23 then significand_exp k (2 * x) (e - 1)
      else if 2 ^ 24 \<le> x then significand_exp k (x / 2) (e + 1) else e)"

definition round_even :: "rat \<Rightarrow> int" where
  "round_even x = (let n = \<lfloor>x\<rfloor>; r = x - of_int n in if r < 1 / 2 \<or> (r = 1 / 2 \<and> even n) then n else n + 1)"

definition to_float :: "rat \<Rightarrow> rat" where
  "to_float x = (if x \<le> 0 then 0 else let e = significand_exp 300 x 0 in of_int (round_even (x / 2 powi e)) * 2 powi e)"

definition float_mult :: "rat option \<Rightarrow> rat \<Rightarrow> rat option" where
  "float_mult a b = map_option (\<lambda>a. to_float (a * b)) a"

definition float_gt :: "rat option \<Rightarrow> rat \<Rightarrow> bool" where
  "float_gt a b = (case a of None \<Rightarrow> True | Some a \<Rightarrow> a > b)"

subsection \<open>The computation\<close>

definition PRTOS_CONFIG_F_OS_TIMER_HZ :: nat where "PRTOS_CONFIG_F_OS_TIMER_HZ = 72000000"
definition PRTOS_CONFIG_F_OS_HZ :: U16_t where "PRTOS_CONFIG_F_OS_HZ = 1000"

text \<open>The chain of conditions that chooses a prescaler.\<close>

definition prescaler_of :: "U8_t \<Rightarrow> U16_t \<Rightarrow> U16_t" where
  "prescaler_of presc_cnt old =
     (if presc_cnt = 1 then 1 else if presc_cnt = 2 then 8 else if presc_cnt = 3 then 65 else if presc_cnt = 4 then 256
      else if presc_cnt = 5 then 1024 else old)"

partial_function (option) CalculatePrescaler_loop ::
  "rat option \<Rightarrow> U8_t \<Rightarrow> rat option \<Rightarrow> U16_t \<Rightarrow> (rat option \<times> U16_t) option" where
  "CalculatePrescaler_loop tick_t presc_cnt tmp_ovf prescaler =
     (if presc_cnt < 5 \<or> float_gt tmp_ovf 0xFFFF then do {
        let prescaler = prescaler_of presc_cnt prescaler;
        let f_os_timer = to_float (of_nat (PRTOS_CONFIG_F_OS_TIMER_HZ div unat prescaler));
        let tmp_ovf = float_mult tick_t f_os_timer;
        if float_gt tmp_ovf 0xFFFF then CalculatePrescaler_loop tick_t (presc_cnt + 1) tmp_ovf prescaler
        else Some (tmp_ovf, prescaler)
      } else Some (tmp_ovf, prescaler))"

text \<open>
  The prescaler, the compare value and the tick period go into the kernel register, and the compare value is returned. The
  fields \<^verbatim>\<open>f_cpu\<close> and \<^verbatim>\<open>f_os_timer\<close> are written here and read nowhere else.
\<close>

definition ICoreCalculatePrescaler :: "U16_t \<Rightarrow> 'a core_state_scheme \<Rightarrow> (U16_t \<times> 'a core_state_scheme) option" where
  "ICoreCalculatePrescaler f_os s = do {
     let tick_t = (if f_os = 0 then None else Some (to_float (1 / of_nat (unat f_os))));
     let s = s\<lparr>KernelReg := (KernelReg s)\<lparr>kr_f_os := f_os\<rparr>\<rparr>;
     (tmp_ovf, prescaler) \<leftarrow> CalculatePrescaler_loop tick_t 1 (Some 0xFFEE) (kr_prescaler (KernelReg s));
     let s = s\<lparr>KernelReg := (KernelReg s)\<lparr>kr_prescaler := prescaler\<rparr>\<rparr>;
     t \<leftarrow> tmp_ovf;
     let ovf = word_of_int (\<lfloor>t\<rfloor> - 1);
     p \<leftarrow> float_mult tick_t (to_float 1000000);
     let s = s\<lparr>KernelReg := (KernelReg s)\<lparr>kr_tick_period_us := word_of_int \<lfloor>p\<rfloor>\<rparr>\<rparr>;
     let s = s\<lparr>KernelReg := (KernelReg s)\<lparr>kr_ovf := ovf\<rparr>\<rparr>;
     Some (ovf, s)
   }"

subsection \<open>Rounding\<close>

lemma significand_exp_numeral:
  "significand_exp (numeral k) x e =
     (if x < 2 ^ 23 then significand_exp (pred_numeral k) (2 * x) (e - 1)
      else if 2 ^ 24 \<le> x then significand_exp (pred_numeral k) (x / 2) (e + 1) else e)"
  by (simp add: numeral_eq_Suc)

text \<open>The exponent found brings the number into the range.\<close>

lemma powi_step: "x / 2 powi (a - (e - 1)) = x / 2 / 2 powi (a - e)" "x / 2 powi (a - (e + 1)) = x * 2 / 2 powi (a - e)"
  for x :: rat
proof -
  have "a - (e - 1) = (a - e) + 1" "a - (e + 1) = (a - e) - 1" by simp_all
  then show "x / 2 powi (a - (e - 1)) = x / 2 / 2 powi (a - e)" "x / 2 powi (a - (e + 1)) = x * 2 / 2 powi (a - e)"
    by (simp_all add: power_int_add power_int_diff)
qed

lemma exp_down:
  "x < 2 ^ 24 \<Longrightarrow> 2 ^ 23 \<le> x * 2 ^ k \<Longrightarrow>
   2 ^ 23 \<le> x / 2 powi (significand_exp k x e - e) \<and> x / 2 powi (significand_exp k x e - e) < 2 ^ 24"
proof (induction k arbitrary: x e)
  case (Suc k)
  show ?case
  proof (cases "x < 2 ^ 23")
    case True
    then show ?thesis using Suc.IH [of "2 * x" "e - 1"] Suc.prems powi_step(1) [of "2 * x"] by simp
  qed (use Suc.prems in auto)
qed simp

lemma exp_up:
  "2 ^ 23 \<le> x \<Longrightarrow> x < 2 ^ 24 * 2 ^ k \<Longrightarrow>
   2 ^ 23 \<le> x / 2 powi (significand_exp k x e - e) \<and> x / 2 powi (significand_exp k x e - e) < 2 ^ 24"
proof (induction k arbitrary: x e)
  case (Suc k)
  show ?case
  proof (cases "2 ^ 24 \<le> x")
    case True
    then show ?thesis using Suc.IH [of "x / 2" "e + 1"] Suc.prems powi_step(2) [of "x / 2"] by simp
  qed (use Suc.prems in auto)
qed simp

lemma round_even_near: "\<bar>of_int (round_even y) - y\<bar> \<le> 1 / 2"
  using floor_correct [of y] by (auto simp: round_even_def Let_def abs_le_iff)

lemma scale_near: "0 < z \<Longrightarrow> \<bar>r - x / z\<bar> \<le> c \<Longrightarrow> \<bar>r * z - x\<bar> \<le> c * z" for x :: rat
proof -
  assume z: "0 < z" and c: "\<bar>r - x / z\<bar> \<le> c"
  have "r * z - x = (r - x / z) * z" using z by (simp add: field_simps)
  then have "\<bar>r * z - x\<bar> = \<bar>r - x / z\<bar> * z" using z by (simp add: abs_mult)
  also have "\<dots> \<le> c * z" by (rule mult_right_mono [OF c]) (use z in simp)
  finally show ?thesis .
qed

text \<open>The relative error of a rounded number.\<close>

lemma to_float_near:
  assumes "1 / 2 ^ 40 \<le> x" and "x < 2 ^ 40"
  shows "x * (1 - 1 / 2 ^ 24) \<le> to_float x \<and> to_float x \<le> x * (1 + 1 / 2 ^ 24)"
proof -
  let ?e = "significand_exp 300 x 0"
  let ?y = "x / 2 powi ?e"
  have "2 ^ 23 \<le> ?y"
  proof (cases "x < 2 ^ 24")
    case True
    have "(2 :: rat) ^ 23 \<le> 1 / 2 ^ 40 * 2 ^ 300" by simp
    also have "\<dots> \<le> x * 2 ^ 300" by (rule mult_right_mono [OF assms(1)]) simp
    finally show ?thesis using exp_down [OF True, of 300 0] by simp
  next
    case False
    have "x < 2 ^ 24 * 2 ^ 300" using assms(2) by (rule less_le_trans) simp
    then show ?thesis using exp_up [of x 300 0] False by simp
  qed
  then have "\<bar>of_int (round_even ?y) - ?y\<bar> \<le> ?y / 2 ^ 24" using round_even_near [of ?y] by simp
  then have "\<bar>of_int (round_even ?y) * 2 powi ?e - x\<bar> \<le> ?y / 2 ^ 24 * 2 powi ?e" by (intro scale_near) simp_all
  moreover have "?y / 2 ^ 24 * 2 powi ?e = x / 2 ^ 24" by simp
  moreover have "0 < x" using assms(1) by (rule less_le_trans [rotated]) simp
  ultimately have "\<bar>to_float x - x\<bar> \<le> x / 2 ^ 24" by (simp add: to_float_def Let_def)
  then have "to_float x - x \<le> x / 2 ^ 24" "- (to_float x - x) \<le> x / 2 ^ 24" using abs_le_D1 abs_le_D2 by blast+
  then show ?thesis by (simp add: right_diff_distrib distrib_left)
qed

subsection \<open>When the search returns\<close>

definition prescalers :: "U16_t set" where "prescalers = {1, 8, 65, 256, 1024}"

definition timer_ticks :: "rat option \<Rightarrow> U16_t \<Rightarrow> rat option" where
  "timer_ticks tick_t q = float_mult tick_t (to_float (of_nat (PRTOS_CONFIG_F_OS_TIMER_HZ div unat q)))"

lemma loop_diverges:
  assumes "\<forall>q \<in> prescalers. float_gt (timer_ticks tick_t q) 0xFFFF"
  shows "CalculatePrescaler_loop tick_t 1 tmp p = None"
proof -
  have no: "False" if "CalculatePrescaler_loop tick_t c tmp p = Some r" "c = 1 \<or> (p \<in> prescalers \<and> float_gt tmp 0xFFFF)" for c tmp p r
    using that assms
  proof (induction rule: CalculatePrescaler_loop.raw_induct [rotated, consumes 1])
    case (1 loop tick_t c tmp p r)
    have q: "prescaler_of c p \<in> prescalers" using 1(3) by (auto simp: prescaler_of_def prescalers_def)
    have "c < 5 \<or> float_gt tmp 0xFFFF" using 1(3) by auto
    with 1(2,4) q have "loop tick_t (c + 1) (timer_ticks tick_t (prescaler_of c p)) (prescaler_of c p) = Some r"
      by (simp add: timer_ticks_def Let_def)
    from 1(1) [OF this] 1(4) q show False by blast
  qed
  show ?thesis using no [of 1 tmp p] by (cases "CalculatePrescaler_loop tick_t 1 tmp p") blast+
qed

lemma loop_step:
  "CalculatePrescaler_loop tick_t c tmp p =
     (if c < 5 \<or> float_gt tmp 0xFFFF then
        (let q = prescaler_of c p in if float_gt (timer_ticks tick_t q) 0xFFFF then CalculatePrescaler_loop tick_t (c + 1) (timer_ticks tick_t q) q
          else Some (timer_ticks tick_t q, q))
      else Some (tmp, p))"
  by (subst CalculatePrescaler_loop.simps) (simp add: timer_ticks_def Let_def)

lemma loop_returns:
  assumes "q \<in> prescalers" and "\<not> float_gt (timer_ticks tick_t q) 0xFFFF"
  shows "\<exists>q \<in> prescalers. \<not> float_gt (timer_ticks tick_t q) 0xFFFF \<and> CalculatePrescaler_loop tick_t 1 tmp p = Some (timer_ticks tick_t q, q)"
proof -
  let ?L = "CalculatePrescaler_loop tick_t" and ?t = "timer_ticks tick_t"
  have "?L 1 tmp p = (if float_gt (?t 1) 0xFFFF then ?L 2 (?t 1) 1 else Some (?t 1, 1))"
    "?L 2 u 1 = (if float_gt (?t 8) 0xFFFF then ?L 3 (?t 8) 8 else Some (?t 8, 8))"
    "?L 3 u 8 = (if float_gt (?t 65) 0xFFFF then ?L 4 (?t 65) 65 else Some (?t 65, 65))"
    "?L 4 u 65 = (if float_gt (?t 256) 0xFFFF then ?L 5 (?t 256) 256 else Some (?t 256, 256))"
    "?L 5 v 256 = (if float_gt v 0xFFFF then if float_gt (?t 1024) 0xFFFF then ?L 6 (?t 1024) 1024 else Some (?t 1024, 1024) else Some (v, 256))"
    for u v
    by (subst loop_step, simp add: prescaler_of_def Let_def)+
  then show ?thesis using assms by (auto simp: prescalers_def)
qed

lemma timer_ticks_near:
  assumes "2 \<le> f" and "f < 2 ^ 16"
  shows "\<not> float_gt (timer_ticks (Some (to_float (1 / of_nat f))) 1024) 0xFFFF"
proof -
  define x :: rat where "x = 1 / of_nat f"
  let ?t = "to_float x" and ?h = "to_float 70312 :: rat"
  have f: "(2 :: rat) \<le> of_nat f" "of_nat f < (2 ^ 16 :: rat)"
    using assms by (metis of_nat_le_iff of_nat_numeral, metis of_nat_less_iff of_nat_numeral of_nat_power)
  have x: "1 / 2 ^ 16 \<le> x" "x \<le> 1 / 2" using f by (simp_all add: x_def field_simps)
  have t: "1 / 2 ^ 17 \<le> ?t" "?t \<le> 501 / 1000" using to_float_near [of x] x by simp_all
  have h: "1 \<le> ?h" "?h \<le> 70400" using to_float_near [of 70312] by simp_all
  have "?t * ?h \<le> 501 / 1000 * 70400" by (rule mult_mono) (use t h in simp_all)
  moreover have "1 / 2 ^ 17 * 1 \<le> ?t * ?h" by (rule mult_mono) (use t h in simp_all)
  ultimately have "to_float (?t * ?h) \<le> 0xFFFF" using to_float_near [of "?t * ?h"] by simp
  then show ?thesis by (simp add: timer_ticks_def float_mult_def float_gt_def PRTOS_CONFIG_F_OS_TIMER_HZ_def x_def)
qed

lemma to_float_one: "to_float 1 = 1"
  by (simp add: to_float_def power_int_def round_even_def Let_def power_one_over significand_exp_numeral)

lemma timer_ticks_one:
  assumes "q \<in> prescalers"
  shows "float_gt (timer_ticks (Some 1) q) 0xFFFF"
proof -
  have "PRTOS_CONFIG_F_OS_TIMER_HZ div unat q \<in> {72000000, 9000000, 1107692, 281250, 70312}"
    using assms by (auto simp: prescalers_def PRTOS_CONFIG_F_OS_TIMER_HZ_def)
  moreover have "0xFFFF < to_float (to_float x)" if "70000 \<le> x" "x \<le> 80000000" for x
  proof -
    have "69000 \<le> to_float x" "to_float x \<le> 90000000" using to_float_near [of x] that by simp_all
    then show ?thesis using to_float_near [of "to_float x"] by simp
  qed
  ultimately show ?thesis by (auto simp: timer_ticks_def float_mult_def float_gt_def)
qed

text \<open>Rounding of a concrete number.\<close>

lemma floor_rat: "\<lfloor>numeral a / numeral b :: rat\<rfloor> = numeral a div numeral b"
  using floor_divide_of_int_eq [of "numeral a" "numeral b", where 'a = rat] by simp

lemmas to_float_eval = to_float_def power_int_def round_even_def Let_def power_one_over significand_exp_numeral floor_rat

lemma configured_floats:
  "to_float (1 / 1000) = 8589935 / 8589934592" "to_float 72000000 = 72000000" "to_float 9000000 = 9000000"
  "to_float 1000000 = 1000000" "to_float (8589935 / 8589934592 * 72000000) = 72000"
  "to_float (8589935 / 8589934592 * 9000000) = 9000" "to_float (8589935 / 8589934592 * 1000000) = 16384001 / 16384"
  by (simp_all add: to_float_eval)

text \<open>The search at the configured frequency.\<close>

lemma configured_loop: "CalculatePrescaler_loop (Some (to_float (1 / 1000))) 1 tmp p = Some (Some 9000, 8)"
proof -
  let ?t = "Some (to_float (1 / 1000))"
  have t: "timer_ticks ?t 1 = Some 72000" "timer_ticks ?t 8 = Some 9000"
    unfolding configured_floats(1) using configured_floats
    by (simp_all add: timer_ticks_def float_mult_def PRTOS_CONFIG_F_OS_TIMER_HZ_def)
  have "CalculatePrescaler_loop ?t 1 tmp p = CalculatePrescaler_loop ?t 2 (Some 72000) 1"
    by (subst loop_step) (simp add: t Let_def prescaler_of_def float_gt_def)
  moreover have "CalculatePrescaler_loop ?t 2 (Some 72000) 1 = Some (Some 9000, 8)"
    by (subst loop_step) (simp add: t Let_def prescaler_of_def float_gt_def)
  ultimately show ?thesis by simp
qed

lemma prescaler_configured:
  "ICoreCalculatePrescaler PRTOS_CONFIG_F_OS_HZ s =
     Some (8999, s\<lparr>KernelReg := (KernelReg s)\<lparr>kr_prescaler := 8, kr_f_os := 1000, kr_ovf := 8999, kr_tick_period_us := 1000\<rparr>\<rparr>)"
proof -
  let ?t = "Some (to_float (1 / 1000))"
  have t: "float_mult ?t (to_float 1000000) = Some (16384001 / 16384)"
    unfolding configured_floats(1,4) using configured_floats by (simp add: float_mult_def)
  show ?thesis using configured_loop t by (simp add: ICoreCalculatePrescaler_def PRTOS_CONFIG_F_OS_HZ_def floor_rat)
qed

text \<open>
  C39. The search for a prescaler ends exactly for tick frequencies from 2 Hz up; for 0 and 1 it goes on for ever, since the largest
  prescaler does not do and the counter never stops. At the configured 1000 Hz it takes the prescaler 8 and counts 9000 ticks of
  the timer of 72 MHz, which is a tick of 1000 microseconds exactly.
\<close>

theorem prescaler_found:
  "(ICoreCalculatePrescaler f_os s \<noteq> None \<longleftrightarrow> 2 \<le> f_os) \<and>
   ICoreCalculatePrescaler PRTOS_CONFIG_F_OS_HZ s =
     Some (8999, s\<lparr>KernelReg := (KernelReg s)\<lparr>kr_prescaler := 8, kr_f_os := 1000, kr_ovf := 8999, kr_tick_period_us := 1000\<rparr>\<rparr>)"
proof
  let ?p = "kr_prescaler (KernelReg s)"
  consider "f_os = 0" | "f_os = 1" | "2 \<le> f_os" by (force simp: word_unat_eq_iff word_le_nat_alt)
  then show "ICoreCalculatePrescaler f_os s \<noteq> None \<longleftrightarrow> 2 \<le> f_os"
  proof cases
    case 1
    have "float_gt (timer_ticks None q) 0xFFFF" for q by (simp add: timer_ticks_def float_mult_def float_gt_def)
    then show ?thesis using 1 loop_diverges [of None] by (simp add: ICoreCalculatePrescaler_def)
  next
    case 2
    then show ?thesis using loop_diverges [of "Some 1"] timer_ticks_one by (simp add: ICoreCalculatePrescaler_def to_float_one word_le_nat_alt)
  next
    case 3
    let ?t = "Some (to_float (1 / of_nat (unat f_os)))"
    have "2 \<le> unat f_os" "unat f_os < 2 ^ 16" using 3 unsigned_less [of f_os] by (simp_all add: word_le_nat_alt)
    then have "\<not> float_gt (timer_ticks ?t 1024) 0xFFFF" by (rule timer_ticks_near)
    moreover have "1024 \<in> prescalers" by (simp add: prescalers_def)
    ultimately obtain q where q: "CalculatePrescaler_loop ?t 1 (Some 0xFFEE) ?p = Some (timer_ticks ?t q, q)"
      using loop_returns by blast
    have "f_os \<noteq> 0" using 3 by auto
    then show ?thesis using q 3 by (simp add: ICoreCalculatePrescaler_def timer_ticks_def float_mult_def Let_def)
  qed
qed (rule prescaler_configured)

end
