(* ===== verification/System.thy ===== *)
theory System
  imports Shell Convert Prescaler
begin

text \<open>
  Start-up and the run loop of \<^verbatim>\<open>Core.c\<close>. The handler of a task is a parameter, a function of its
  address and arguments; so is the timer count at its end. Log output, the watchdog (switched off) and the port
  calls have no effect on the state. Semaphores are switched off in the configuration, so \<open>OsInit\<close> does not
  initialise them; it does not initialise the message queues either.
\<close>

definition PRTOS_CONFIG_OS_HEAP_SIZE_BYTES :: U32_t where "PRTOS_CONFIG_OS_HEAP_SIZE_BYTES = 0x3C00"
definition PRTOS_CONFIG_USER_HEAP_SIZE_BYTES :: U32_t where "PRTOS_CONFIG_USER_HEAP_SIZE_BYTES = 0x400"

text \<open>The first part: the register, kernel mode and the tick timer.\<close>

definition OsInit_register :: "'a core_state_scheme \<Rightarrow> 'a core_state_scheme option" where
  "OsInit_register s = do {
     let s = s\<lparr>KernelReg := (KernelReg s)\<lparr>kr_lock := 0\<rparr>\<rparr>;
     s \<leftarrow> KERNEL_REG_LOCK s;
     let s = s\<lparr>KernelReg := (KernelReg s)\<lparr>kr_os_running := 1, kr_kernel_mode_nest_counter := 0, kr_isr_nest_counter := 0,
        kr_crit_sect_nest_counter := 0, kr_micros := 0, kr_hours := 0, kr_t_accu := 0, kr_scheduler_lock := 0\<rparr>\<rparr>;
     let s = KERNEL_REG_UNLOCK s;
     s \<leftarrow> KCoreFlagClear CORE_FLAG_ALL s;
     s \<leftarrow> OsCritSectBegin s;
     (n, s) \<leftarrow> KCoreKernelModeEnter s;
     (os_timer_ovf, s) \<leftarrow> ICoreCalculatePrescaler PRTOS_CONFIG_F_OS_HZ s;
     Some s
   }"

text \<open>The task lists go into the register.\<close>

definition OsInit_lists :: "'a task_state_scheme \<Rightarrow> 'a task_state_scheme" where
  "OsInit_lists s = s\<lparr>KernelReg := (KernelReg s)\<lparr>kr_tcb_list := KTcbListRefGet, kr_tcb_wait_list := KTcbWaitListRefGet,
     kr_tcb_idle := KTcbIdleGet s, kr_tcb_running := NULL\<rparr>\<rparr>"

text \<open>The optional modules that are configured, and the end of \<open>OsInit\<close>.\<close>

definition OsInit_optional :: "symbols \<Rightarrow> OsResult_t \<Rightarrow> 'a shell_state_scheme \<Rightarrow> (OsResult_t \<times> 'a shell_state_scheme) option" where
  "OsInit_optional y status s = do {
     (r, s) \<leftarrow> KEventgroupInit s;
     (r, s) \<leftarrow> KMailboxInit s;
     (r, s) \<leftarrow> KRingbufInit s;
     (r, s) \<leftarrow> KShellInit y s;
     (n, s) \<leftarrow> KCoreKernelModeExit s;
     s \<leftarrow> OsCritSectEnd s;
     Some (status, s)
   }"

text \<open>
  \<open>heap\<close> and \<open>pool_table\<close> are the static arrays. The result is the status and the value stored at
  \<^verbatim>\<open>*status_optional\<close>; a null argument is \<open>False\<close>.
\<close>

definition OsInit ::
  "symbols \<Rightarrow> ptr \<Rightarrow> Pmb_t list \<Rightarrow> bool \<Rightarrow> 'a shell_state_scheme \<Rightarrow>
     ((OsResult_t \<times> OsResult_t option) \<times> 'a shell_state_scheme) option" where
  "OsInit y heap pool_table status_optional s =
     (if \<not> status_optional then Some ((OS_RES_INVALID_ARGUMENT, None), s)
      else do {
        s \<leftarrow> OsInit_register s;
        let s = KIdInit s;
        (status, s) \<leftarrow> KMemInit heap PRTOS_CONFIG_OS_HEAP_SIZE_BYTES PRTOS_CONFIG_USER_HEAP_SIZE_BYTES (Some pool_table) s;
        if status = OS_RES_CRIT_ERROR then Some ((status, Some OS_RES_OK), s)
        else do {
          (status, s) \<leftarrow> KTaskInit (sym_idle y) s;
          if status = OS_RES_CRIT_ERROR then Some ((status, Some OS_RES_OK), s)
          else do {
            let s = OsInit_lists s;
            (status, s) \<leftarrow> EventInit s;
            if status \<noteq> OS_RES_OK then Some ((status, Some OS_RES_OK), s)
            else do {
              let s = s\<lparr>KernelReg := (KernelReg s)\<lparr>kr_event_list := EventListRefGet\<rparr>\<rparr>;
              s \<leftarrow> KSchedulerInit (kr_event_list (KernelReg s)) s;
              (status, s) \<leftarrow> KTimerInit (sym_timer_update y) s;
              if status = OS_RES_CRIT_ERROR then Some ((status, Some OS_RES_OK), s)
              else do {
                (status, s) \<leftarrow> OsInit_optional y status s;
                Some ((status, Some OS_RES_OK), s)
              }
            }
          }
        }
      })"

subsection \<open>Functions outside the configuration\<close>

text \<open>
  \<^verbatim>\<open>OsHeapSet\<close> is compiled when the heap is external, and gives the value of the pointer \<^verbatim>\<open>OsHeap\<close> after the call;
  \<^verbatim>\<open>OsWdtIsr\<close> is compiled with the watchdog and ends in \<^verbatim>\<open>while(1)\<close>. \<^verbatim>\<open>OsReset\<close> has an empty body.
\<close>

definition OsHeapSet :: "ptr \<Rightarrow> ptr \<Rightarrow> ptr" where
  "OsHeapSet os_heap heap = (if heap = NULL \<and> os_heap \<noteq> NULL then os_heap else heap)"

definition OsWdtIsr :: "'a core_state_scheme \<Rightarrow> 'a core_state_scheme option" where
  "OsWdtIsr s = do { s \<leftarrow> OsIsrBegin s; s \<leftarrow> OsCritSectBegin s; None }"

definition OsReset :: "'a core_state_scheme \<Rightarrow> 'a core_state_scheme" where "OsReset s = s"

subsection \<open>The run loop\<close>

text \<open>What \<open>OsStart\<close> does before its loop.\<close>

definition OsStart_begin :: "Id_t \<Rightarrow> 'a shell_state_scheme \<Rightarrow> 'a shell_state_scheme option" where
  "OsStart_begin start_task_id s = do {
     s \<leftarrow> OsCritSectBegin s;
     (n, s) \<leftarrow> KCoreKernelModeEnter s;
     s \<leftarrow> (if start_task_id \<noteq> ID_INVALID then do {
         (tcb, s) \<leftarrow> KTcbFromId start_task_id s;
         Some (reg_running (if tcb = NULL then kr_tcb_idle (KernelReg s) else tcb) s)
       } else Some (reg_running (kr_tcb_idle (KernelReg s)) s));
     (n, s) \<leftarrow> ListNodeRemove (kr_tcb_list (KernelReg s)) (kr_tcb_running (KernelReg s)) s;
     s \<leftarrow> KTaskStateSet (kr_tcb_running (KernelReg s)) TASK_STATE_RUNNING s;
     let s = KTcbRunningRefSet (kr_tcb_running (KernelReg s)) s;
     (n, s) \<leftarrow> KCoreKernelModeExit s;
     s \<leftarrow> OsSchedulerUnlock s;
     s \<leftarrow> ICoreOsIntEnable s;
     OsCritSectEnd s
   }"

text \<open>One turn of the loop: execute the handler of the running task, then invoke the tick that switches tasks.\<close>

definition OsStart_turn ::
  "(ptr \<Rightarrow> ptr \<Rightarrow> U32_t \<Rightarrow> 'a shell_state_scheme \<Rightarrow> 'a shell_state_scheme option) \<Rightarrow> ('a shell_state_scheme \<Rightarrow> U32_t) \<Rightarrow>
     'a shell_state_scheme \<Rightarrow> 'a shell_state_scheme option" where
  "OsStart_turn execute timer_us s = do {
     t \<leftarrow> tcb_at (kr_tcb_running (KernelReg s)) s;
     if t_handler t \<noteq> NULL then do {
       s \<leftarrow> execute (t_handler t) (p_arg t) (v_arg t) s;
       ICoreTickInvoke (timer_us s) s
     } else None
   }"

partial_function (option) OsStart_loop ::
  "(ptr \<Rightarrow> ptr \<Rightarrow> U32_t \<Rightarrow> 'a shell_state_scheme \<Rightarrow> 'a shell_state_scheme option) \<Rightarrow> ('a shell_state_scheme \<Rightarrow> U32_t) \<Rightarrow>
     'a shell_state_scheme \<Rightarrow> 'a shell_state_scheme option" where
  "OsStart_loop execute timer_us s =
     (if kr_os_running (KernelReg s) \<noteq> 0 then do {
        s \<leftarrow> OsStart_turn execute timer_us s;
        OsStart_loop execute timer_us s
      } else Some s)"

definition OsStart ::
  "(ptr \<Rightarrow> ptr \<Rightarrow> U32_t \<Rightarrow> 'a shell_state_scheme \<Rightarrow> 'a shell_state_scheme option) \<Rightarrow> ('a shell_state_scheme \<Rightarrow> U32_t) \<Rightarrow> Id_t \<Rightarrow>
     'a shell_state_scheme \<Rightarrow> 'a shell_state_scheme option" where
  "OsStart execute timer_us start_task_id s = do {
     s \<leftarrow> OsStart_begin start_task_id s;
     OsStart_loop execute timer_us s
   }"

end
