(* ===== verification/Sample.thy ===== *)
theory Sample
  imports System
begin

text \<open>
  The static storage of the kernel before \<open>OsInit\<close>, all zero, with a free critical section and no object anywhere. It
  is the base of the concrete states at which the theorems are applied.
\<close>

definition shell_bss :: shell_state where
  "shell_bss = \<lparr>KernelReg = KernelReg core_bss, GlobalIntEnabled = True, env_d2u = env_d2u core_bss,
     IdPools = [], HeapBase = NULL, OsHeap = (\<lambda>_. 0), PoolTable = [], TotalHeapPools = 0, TotalHeapSize = 0,
     HeapIndexEnd = 0, ObjectPoolId = 0, nodes = Map.empty, lists = Map.empty, events = Map.empty,
     EmittedEventLifetimeUs = 0, tcbs = Map.empty, TcbRunning = NULL, TcbIdle = NULL, KTidIdle = 0, last_micros = 0,
     SchedEventList = LNULL, broker_micros = 0, timers = Map.empty, KTidTimerUpdate = 0, eventgroups = Map.empty,
     sems = Map.empty, mailboxes = Map.empty, ringbufs = Map.empty, user_mem = Map.empty, message_queues = Map.empty,
     message_nodes = Map.empty, kt_init_done = False, kt_sleep_time = 0, kt_micros = 0, ShellRxRingbuf = 0,
     ShellPool = ID_INVALID, ShellCommandSet = [], TotalShellCommands = 0, TidShellParse = 0, line_write_index = 0,
     LineBuffer = replicate SHELL_MAX_LINE_LENGTH 0\<rparr>"

lemma shell_bss_simps [simp]:
  "KernelReg shell_bss = KernelReg core_bss" "GlobalIntEnabled shell_bss = True" "nodes shell_bss = Map.empty"
  "lists shell_bss = Map.empty" "events shell_bss = Map.empty" "tcbs shell_bss = Map.empty" "TcbRunning shell_bss = NULL"
  "timers shell_bss = Map.empty" "ringbufs shell_bss = Map.empty" "user_mem shell_bss = Map.empty" "sems shell_bss = Map.empty"
  "OsHeap shell_bss = (\<lambda>_. 0)" "HeapBase shell_bss = NULL" "TotalHeapSize shell_bss = 0" "PoolTable shell_bss = []"
  "env_d2u shell_bss = env_d2u core_bss" "mailboxes shell_bss = Map.empty" "message_queues shell_bss = Map.empty"
  "ShellCommandSet shell_bss = []" "TotalShellCommands shell_bss = 0" "eventgroups shell_bss = Map.empty"
  by (simp_all add: shell_bss_def)

lemma shell_bss_crit: "crit_ok shell_bss"
  by (simp add: crit_ok_def core_bss_def)

text \<open>A node with its ID and its child, and a list header.\<close>

definition sample_node :: "Id_t \<Rightarrow> ptr \<Rightarrow> ptr \<Rightarrow> ptr \<Rightarrow> ListNode_t" where
  "sample_node oid c p n = \<lparr>node_id = oid, node_lock = 0, child = c, next_node = n, prev_node = p\<rparr>"

lemma sample_node_simps [simp]: "node_id (sample_node oid c p n) = oid" "child (sample_node oid c p n) = c"
  "prev_node (sample_node oid c p n) = p" "next_node (sample_node oid c p n) = n" "node_lock (sample_node oid c p n) = 0"
  by (simp_all add: sample_node_def)

definition sample_list :: "ptr \<Rightarrow> ptr \<Rightarrow> ListSize_t \<Rightarrow> LinkedList_t" where
  "sample_list h t n = \<lparr>ll_head = h, ll_tail = t, ll_middle = NULL, ll_size = n, ll_lock = 0, ll_sorted = False, ll_id_group = 0\<rparr>"

lemma sample_list_simps [simp]: "ll_head (sample_list h t n) = h" "ll_tail (sample_list h t n) = t" "ll_size (sample_list h t n) = n"
  "ll_lock (sample_list h t n) = 0" "ll_sorted (sample_list h t n) = False" "ll_middle (sample_list h t n) = NULL"
  by (simp_all add: sample_list_def)

end
