(* ===== verification/RunQueue.thy ===== *)
theory RunQueue
  imports ListFifo Sample
begin

text \<open>
  The execution queue as a priority queue: the insertion of \<open>ISchedulerTaskAddDescendingPriority\<close> against a stable
  insertion on lists.
\<close>

subsection \<open>Stable insertion\<close>

fun prio_insert :: "('v \<Rightarrow> 'k::linorder) \<Rightarrow> 'v \<Rightarrow> 'v list \<Rightarrow> 'v list" where
  "prio_insert f x [] = [x]"
| "prio_insert f x (y # ys) = (if f x > f y then x # y # ys else y # prio_insert f x ys)"

definition prio_sorted :: "('v \<Rightarrow> 'k::linorder) \<Rightarrow> 'v list \<Rightarrow> bool" where
  "prio_sorted f = sorted_wrt (\<lambda>a b. f a \<ge> f b)"

lemma set_prio_insert [simp]: "set (prio_insert f x ys) = insert x (set ys)"
  by (induction ys) auto

lemma length_prio_insert [simp]: "length (prio_insert f x ys) = Suc (length ys)"
  by (induction ys) auto

lemma distinct_prio_insert [simp]: "distinct (prio_insert f x ys) \<longleftrightarrow> x \<notin> set ys \<and> distinct ys"
  by (induction ys) auto

lemma prio_insert_sorted: "prio_sorted f ys \<Longrightarrow> prio_sorted f (prio_insert f x ys)"
  by (induction ys) (auto simp: prio_sorted_def)

lemma prio_insert_last: "\<forall>y\<in>set ys. \<not> f x > f y \<Longrightarrow> prio_insert f x ys = ys @ [x]"
  by (induction ys) auto

lemma prio_insert_cong: "(\<And>y. y \<in> insert x (set ys) \<Longrightarrow> f y = g y) \<Longrightarrow> prio_insert f x ys = prio_insert g x ys"
  by (induction ys) auto

text \<open>Inserting one after the other gives what came first first among equals.\<close>

lemma filter_prio_insert:
  assumes "prio_sorted f ys"
  shows "filter (\<lambda>y. f y = k) (prio_insert f x ys) = filter (\<lambda>y. f y = k) ys @ (if f x = k then [x] else [])"
  using assms
proof (induction ys)
  case (Cons y ys)
  then have "f x > f y \<Longrightarrow> f x = k \<Longrightarrow> filter (\<lambda>z. f z = k) (y # ys) = []"
    by (fastforce simp: prio_sorted_def filter_empty_conv)
  with Cons show ?case by (auto simp: prio_sorted_def)
qed simp

lemma fold_prio_insert_sorted: "prio_sorted f ys \<Longrightarrow> prio_sorted f (fold (prio_insert f) xs ys)"
  by (induction xs arbitrary: ys) (auto simp: prio_insert_sorted)

lemma filter_fold_prio_insert:
  "prio_sorted f ys \<Longrightarrow> filter (\<lambda>y. f y = k) (fold (prio_insert f) xs ys) = filter (\<lambda>y. f y = k) (ys @ xs)"
  by (induction xs arbitrary: ys) (auto simp: filter_prio_insert prio_insert_sorted)

subsection \<open>Tasks in a list\<close>

definition task_prio :: "'a task_state_scheme \<Rightarrow> ptr \<Rightarrow> Prio_t" where
  "task_prio s p = priority (the (tcbs s p))"

text \<open>A node of a task list: its child is its task, and it has an ID.\<close>

definition task_node :: "'a task_state_scheme \<Rightarrow> ptr \<Rightarrow> bool" where
  "task_node s p \<longleftrightarrow> p \<noteq> NULL \<and> tcbs s p \<noteq> None \<and> (\<exists>n. nodes s p = Some n \<and> child n = p \<and> node_id n \<noteq> ID_INVALID)"

lemma list_frame_task:
  assumes "list_frame s t l N"
  shows "tcbs t = tcbs s" "task_prio t = task_prio s" "task_node s p \<Longrightarrow> task_node t p"
proof -
  obtain h g where t: "t = s\<lparr>nodes := h, lists := g\<rparr>" using assms by (auto simp: list_frame_def)
  then show e: "tcbs t = tcbs s" "task_prio t = task_prio s" by (simp_all add: task_prio_def fun_eq_iff)
  have "same_payload (nodes s) (nodes t)" using assms by (simp add: list_frame_def)
  then show "task_node s p \<Longrightarrow> task_node t p" using e(1) by (auto simp: task_node_def elim!: same_payload_fields)
qed

lemma task_nodeD:
  assumes "task_node s p"
  obtains n t where "node_at p s = Some n" "child n = p" "node_id n \<noteq> ID_INVALID" "tcb_at p s = Some t" "priority t = task_prio s p"
  using assms by (auto simp: task_node_def node_at_def tcb_at_def task_prio_def)

subsection \<open>The loop\<close>

lemma AddDescendingPriority_loop_ok:
  assumes "crit_ok s" and "is_list s l (bs @ c # cs)" "list_unlocked s l" "length (bs @ c # cs) < 255"
    and "task_node s x" "x \<notin> set (bs @ c # cs)" "\<forall>y\<in>set (c # cs). task_node s y"
    and "it_at it LIST_ITERATOR_DIRECTION_FORWARD (c # cs)"
  shows "if \<forall>y\<in>set (c # cs). \<not> task_prio s x > task_prio s y then AddDescendingPriority_loop l x it s = Some (False, s)
    else \<exists>t. AddDescendingPriority_loop l x it s = Some (True, t) \<and> is_list t l (bs @ prio_insert (task_prio s) x (c # cs))
      \<and> list_frame s t l (insert x (set (bs @ c # cs)))"
  using assms
proof (induction cs arbitrary: bs c it)
  case Nil
  obtain n tx where x: "node_at x s = Some n" "node_id n \<noteq> ID_INVALID" "tcb_at x s = Some tx" "priority tx = task_prio s x"
    by (rule task_nodeD [OF Nil(5)])
  obtain nc tc where c: "node_at c s = Some nc" "child nc = c" "tcb_at c s = Some tc" "priority tc = task_prio s c"
    by (rule task_nodeD [of s c]) (use Nil(7) in auto)
  have cur: "it_current_node it = c" "c \<noteq> NULL" using Nil(8) node_at_SomeD [OF c(1)] by (simp_all add: it_at_def)
  have ch: "chain LIST_ITERATOR_DIRECTION_FORWARD (nodes s) [c]"
    using Nil(2) by (intro chain_forward [of _ "last_or NULL bs"]) (simp add: is_list_def)
  obtain it' where "LIST_ITERATOR_END it s = Some (False, it')"
    using LIST_ITERATOR_END_step [OF _ Nil(8) ch] by auto
  moreover obtain t where "ListNodeAddAtNode l x c LIST_ADD_BEFORE s = Some (OS_RES_OK, t)" "is_list t l (bs @ x # c # [])"
    "list_frame s t l (insert x (set (bs @ c # [])))"
    using AddAtNode_before [OF Nil(1-4) x(1,2) Nil(6)] by auto
  ultimately show ?case
    using x c cur by (subst (1 2) AddDescendingPriority_loop.simps) (auto simp: ListNodeChildGet_def)
next
  case (Cons d ds)
  obtain n tx where x: "node_at x s = Some n" "node_id n \<noteq> ID_INVALID" "tcb_at x s = Some tx" "priority tx = task_prio s x"
    by (rule task_nodeD [OF Cons.prems(5)])
  obtain nc tc where c: "node_at c s = Some nc" "child nc = c" "tcb_at c s = Some tc" "priority tc = task_prio s c"
    by (rule task_nodeD [of s c]) (use Cons.prems(7) in auto)
  have cur: "it_current_node it = c" "c \<noteq> NULL" using Cons.prems(8) node_at_SomeD [OF c(1)] by (simp_all add: it_at_def)
  have ch: "chain LIST_ITERATOR_DIRECTION_FORWARD (nodes s) (c # d # ds)"
    using Cons.prems(2) by (intro chain_forward [of _ "last_or NULL bs"]) (simp add: is_list_def)
  obtain it' where it': "LIST_ITERATOR_END it s = Some (True, it')" "it_at it' LIST_ITERATOR_DIRECTION_FORWARD (d # ds)"
    using LIST_ITERATOR_END_step [OF _ Cons.prems(8) ch] by auto
  show ?case
  proof (cases "task_prio s x > task_prio s c")
    case True
    obtain t where "ListNodeAddAtNode l x c LIST_ADD_BEFORE s = Some (OS_RES_OK, t)" "is_list t l (bs @ x # c # d # ds)"
      "list_frame s t l (insert x (set (bs @ c # d # ds)))"
      using AddAtNode_before [OF Cons.prems(1-4) x(1,2) Cons.prems(6)] by auto
    then show ?thesis
      using x c cur True by (subst (2) AddDescendingPriority_loop.simps) (auto simp: ListNodeChildGet_def)
  next
    case False
    have e: "AddDescendingPriority_loop l x it s = AddDescendingPriority_loop l x it' s"
      using x c cur False it'(1) by (subst AddDescendingPriority_loop.simps) (auto simp: ListNodeChildGet_def)
    have IH: "if \<forall>y\<in>set (d # ds). \<not> task_prio s x > task_prio s y then AddDescendingPriority_loop l x it' s = Some (False, s)
      else \<exists>t. AddDescendingPriority_loop l x it' s = Some (True, t) \<and> is_list t l ((bs @ [c]) @ prio_insert (task_prio s) x (d # ds))
        \<and> list_frame s t l (insert x (set ((bs @ [c]) @ d # ds)))"
      by (rule Cons.IH) (use Cons.prems it'(2) in auto)
    show ?thesis using IH False unfolding e by (auto split: if_splits)
  qed
qed

subsection \<open>The whole insertion\<close>

text \<open>Two lists of tasks with no node in common.\<close>

definition task_lists :: "'a task_state_scheme \<Rightarrow> lptr \<Rightarrow> ptr list \<Rightarrow> lptr \<Rightarrow> ptr list \<Rightarrow> bool" where
  "task_lists s lx xs ly ys \<longleftrightarrow> crit_ok s \<and> lx \<noteq> ly \<and> is_list s lx xs \<and> list_unlocked s lx \<and> is_list s ly ys \<and> list_unlocked s ly \<and>
     set xs \<inter> set ys = {} \<and> length xs + length ys \<le> 255 \<and> (\<forall>p\<in>set xs \<union> set ys. task_node s p)"

lemma AddDescendingPriority_ok:
  assumes "task_lists s lx (as @ x # bs) ly ys"
  shows "\<exists>t. ISchedulerTaskAddDescendingPriority lx ly x s = Some t
     \<and> task_lists t lx (as @ bs) ly (prio_insert (task_prio s) x ys) \<and> tcbs t = tcbs s"
proof -
  have s: "crit_ok s" "lx \<noteq> ly" "is_list s lx (as @ x # bs)" "list_unlocked s lx" "is_list s ly ys" "list_unlocked s ly"
    "x \<notin> set ys" "length (as @ x # bs) \<le> 255" "length ys < 255" "\<forall>p\<in>set (as @ x # bs) \<union> set ys. task_node s p"
    and disj: "set (as @ x # bs) \<inter> set ys = {}"
    using assms by (auto simp: task_lists_def)
  obtain t where t: "ListNodeRemove lx x s = Some (x, t)" "is_list t lx (as @ bs)" "list_frame s t lx (set (as @ x # bs))"
    using ListNodeRemove_ok [OF s(1,3,4,8)] by blast
  note ft = list_frame_task [OF t(3)]
  have y: "crit_ok t" "is_list t ly ys" "list_unlocked t ly" "list_unlocked t lx"
    using list_frame_crit [OF t(3)] is_list_frame [OF t(3) s(5)] list_frame_unlocked [OF t(3)] s disj by (auto simp: Int_commute)
  have tn: "task_node t p" if "p \<in> set (as @ x # bs) \<union> set ys" for p using s(10) ft(3) that by blast
  obtain n where n: "node_at x t = Some n" "node_id n \<noteq> ID_INVALID" by (rule task_nodeD [of t x]) (use tn in auto)
  have "x \<noteq> NULL" using is_list_nodes [OF s(3)] by simp
  obtain ll where ll: "ll_at ly t = Some ll" "ll_head ll = first_or ys NULL" "unat (ll_size ll) = length ys" "ll_lock ll = 0"
    and d: "dseg (nodes t) NULL ys NULL"
    using y(2,3) by (auto simp: is_list_def list_unlocked_def)
  have sz: "ListSizeGet ly t = Some (ll_size ll, t)" "ll_size ll = 0 \<longleftrightarrow> ys = []"
    using ListSizeGet_eq [OF y(1) ll(1)] ll(3,4) by (auto simp: unat_eq_zero)
  obtain t' where t': "ListNodeAddAtPosition ly x LIST_POSITION_TAIL t = Some (OS_RES_OK, t')" "is_list t' ly (ys @ [x])"
    "list_frame t t' ly (insert x (set ys))"
    using AddAtPosition_tail [OF y(1-3) s(9) n s(7)] by blast
  have "\<exists>u. ISchedulerTaskAddDescendingPriority lx ly x s = Some u \<and> is_list u ly (prio_insert (task_prio s) x ys)
     \<and> list_frame t u ly (insert x (set ys))"
  proof (cases ys)
    case Nil
    obtain u where "ListNodeAddAtPosition ly x LIST_POSITION_HEAD t = Some (OS_RES_OK, u)" "is_list u ly (x # ys)"
      "list_frame t u ly (insert x (set ys))"
      using AddAtPosition_head [OF y(1-3) s(9) n s(7)] by blast
    then show ?thesis using Nil sz t(1) \<open>x \<noteq> NULL\<close> by (simp add: ISchedulerTaskAddDescendingPriority_def)
  next
    case (Cons c cs)
    obtain it where it: "ListIteratorInit iterator_uninit ly LIST_ITERATOR_DIRECTION_FORWARD t = Some ((OS_RES_OK, it), t)"
      "it_at it LIST_ITERATOR_DIRECTION_FORWARD (c # cs)"
      using ListIteratorInit_ok [OF y(1) ll(1), of LIST_ITERATOR_DIRECTION_FORWARD "c # cs"] chain_forward [OF d] ll(2,4) Cons by auto
    have loop: "if \<forall>y\<in>set (c # cs). \<not> task_prio t x > task_prio t y then AddDescendingPriority_loop ly x it t = Some (False, t)
      else \<exists>u. AddDescendingPriority_loop ly x it t = Some (True, u) \<and> is_list u ly ([] @ prio_insert (task_prio t) x (c # cs))
        \<and> list_frame t u ly (insert x (set ([] @ c # cs)))"
      by (rule AddDescendingPriority_loop_ok) (use y s tn it Cons in auto)
    show ?thesis
    proof (cases "\<forall>y\<in>set ys. \<not> task_prio s x > task_prio s y")
      case True
      then show ?thesis using loop Cons sz t(1) it(1) t' ft(2) \<open>x \<noteq> NULL\<close> prio_insert_last [OF True]
        by (auto simp: ISchedulerTaskAddDescendingPriority_def)
    next
      case False
      then show ?thesis using loop Cons sz t(1) it(1) ft(2) \<open>x \<noteq> NULL\<close>
        by (auto simp: ISchedulerTaskAddDescendingPriority_def split: if_splits)
    qed
  qed
  then obtain u where u: "ISchedulerTaskAddDescendingPriority lx ly x s = Some u" "is_list u ly (prio_insert (task_prio s) x ys)"
    "list_frame t u ly (insert x (set ys))" by blast
  note fu = list_frame_task [OF u(3)]
  have "is_list u lx (as @ bs)" by (rule is_list_frame [OF u(3) t(2) s(2)]) (use disj s(3) in \<open>auto simp: is_list_def\<close>)
  then have "task_lists u lx (as @ bs) ly (prio_insert (task_prio s) x ys)"
    using u s y t disj fu(3) tn list_frame_crit [OF u(3)] list_frame_unlocked [OF u(3)] assms s(3)
    by (auto simp: task_lists_def is_list_def)
  then show ?thesis using u(1) fu(1) ft(1) by auto
qed

subsection \<open>The interface of a queue of ready tasks\<close>

text \<open>Queueing several tasks, and taking several.\<close>

fun ready_all :: "('v \<Rightarrow> 's \<Rightarrow> 's option) \<Rightarrow> 'v list \<Rightarrow> 's \<Rightarrow> 's option" where
  "ready_all ready [] s = Some s"
| "ready_all ready (x # xs) s = do { s \<leftarrow> ready x s; ready_all ready xs s }"

fun next_all :: "('s \<Rightarrow> ('v \<times> 's) option) \<Rightarrow> nat \<Rightarrow> 's \<Rightarrow> ('v list \<times> 's) option" where
  "next_all next_task 0 s = Some ([], s)"
| "next_all next_task (Suc k) s = do { (v, s) \<leftarrow> next_task s; (vs, s) \<leftarrow> next_all next_task k s; Some (v # vs, s) }"

text \<open>
  A priority queue over tasks that wait elsewhere: \<open>rep s w q\<close> says that in state \<open>s\<close> the tasks \<open>w\<close> wait and \<open>q\<close> are
  queued. \<open>ready\<close> queues a waiting task, \<open>next_task\<close> takes the first one of the queue.
\<close>

locale ready_queue =
  fixes ready :: "'v \<Rightarrow> 's \<Rightarrow> 's option" and next_task :: "'s \<Rightarrow> ('v \<times> 's) option"
    and rep :: "'s \<Rightarrow> 'v list \<Rightarrow> 'v list \<Rightarrow> bool" and f :: "'v \<Rightarrow> 'k::linorder"
  assumes ready_law: "rep s w q \<Longrightarrow> x \<in> set w \<Longrightarrow> \<exists>t. ready x s = Some t \<and> rep t (remove1 x w) (prio_insert f x q)"
    and next_law: "rep s w (v # q) \<Longrightarrow> \<exists>t. next_task s = Some (v, t) \<and> rep t w q"
    and distinct_law: "rep s w q \<Longrightarrow> distinct w"
begin

lemma ready_all_rep:
  assumes "rep s w q" and "set xs \<subseteq> set w" and "distinct xs"
  shows "\<exists>t w'. ready_all ready xs s = Some t \<and> rep t w' (fold (prio_insert f) xs q)"
  using assms
proof (induction xs arbitrary: s w q)
  case (Cons x xs)
  obtain t where t: "ready x s = Some t" "rep t (remove1 x w) (prio_insert f x q)"
    using ready_law Cons.prems by (metis list.set_intros(1) subsetD)
  have "set xs \<subseteq> set (remove1 x w)" using Cons.prems distinct_law [OF Cons.prems(1)] by auto
  from Cons.IH [OF t(2) this] Cons.prems(3) t(1) show ?case by auto
qed auto

lemma next_all_rep:
  assumes "rep s w (q @ r)"
  shows "\<exists>t. next_all next_task (length q) s = Some (q, t) \<and> rep t w r"
  using assms
proof (induction q arbitrary: s)
  case (Cons v q)
  then obtain t where "next_task s = Some (v, t)" "rep t w (q @ r)" using next_law by fastforce
  with Cons.IH [OF this(2)] show ?case by auto
qed simp

text \<open>Whatever tasks become ready, they are taken by descending priority, and in order of arrival among equals.\<close>

lemma served_in_order:
  assumes "rep s w []" and "set xs \<subseteq> set w" and "distinct xs"
  shows "\<exists>t u ys. ready_all ready xs s = Some t \<and> next_all next_task (length xs) t = Some (ys, u)
    \<and> prio_sorted f ys \<and> (\<forall>k. filter (\<lambda>y. f y = k) ys = filter (\<lambda>y. f y = k) xs)"
proof -
  let ?ys = "fold (prio_insert f) xs []"
  obtain t w' where t: "ready_all ready xs s = Some t" "rep t w' (?ys @ [])" using ready_all_rep [OF assms] by auto
  have len: "length (fold (prio_insert f) xs q) = length xs + length q" for q by (induction xs arbitrary: q) auto
  have "prio_sorted f ?ys" by (rule fold_prio_insert_sorted) (simp add: prio_sorted_def)
  moreover have "\<forall>k. filter (\<lambda>y. f y = k) ?ys = filter (\<lambda>y. f y = k) xs"
    using filter_fold_prio_insert [of f "[]"] by (simp add: prio_sorted_def)
  ultimately show ?thesis using t(1) next_all_rep [OF t(2)] len [of "[]"] by auto
qed

end

subsection \<open>The execution queue\<close>

lemma QueueTaskPop_frame:
  assumes s: "crit_ok s" "is_list s ExecutionQueue (v # q)" "list_unlocked s ExecutionQueue" "length (v # q) \<le> 255" "task_node s v"
  shows "\<exists>t. KSchedulerQueueTaskPop s = Some (v, t) \<and> is_list t ExecutionQueue q \<and> list_frame s t ExecutionQueue (set (v # q))"
proof -
  obtain t where t: "ListNodeRemove ExecutionQueue v s = Some (v, t)" "is_list t ExecutionQueue q"
    "list_frame s t ExecutionQueue (set (v # q))"
    using ListNodeRemove_ok [of s ExecutionQueue "[]" v q] s by auto
  obtain ll where ll: "ll_at ExecutionQueue s = Some ll" "ll_head ll = v" "unat (ll_size ll) = Suc (length q)" "ll_lock ll = 0"
    using s(2,3) by (auto simp: is_list_def list_unlocked_def)
  have sz: "ListSizeGet ExecutionQueue s = Some (ll_size ll, s)" "ll_size ll \<noteq> 0"
    using ListSizeGet_eq [OF s(1) ll(1)] ll(3,4) by auto
  obtain n where "node_at v t = Some n" "child n = v" using task_nodeD [OF list_frame_task(3) [OF t(3) s(5)]] by blast
  then show ?thesis using sz ll t by (auto simp: KSchedulerQueueTaskPop_def ListNodeRemoveFromHead_def ListNodeChildGet_def)
qed

lemma QueueTaskPop_empty:
  assumes "crit_ok s" and "is_list s ExecutionQueue []" and "list_unlocked s ExecutionQueue"
  shows "KSchedulerQueueTaskPop s = Some (NULL, s)"
proof -
  obtain ll where ll: "ll_at ExecutionQueue s = Some ll" "unat (ll_size ll) = 0" "ll_lock ll = 0"
    using assms(2,3) by (auto simp: is_list_def list_unlocked_def)
  then show ?thesis using ListSizeGet_eq [OF assms(1) ll(1)] by (simp add: KSchedulerQueueTaskPop_def unat_eq_zero)
qed

lemma QueueTaskPop_ok:
  assumes "task_lists s lx xs ExecutionQueue (v # q)"
  shows "\<exists>t. KSchedulerQueueTaskPop s = Some (v, t) \<and> task_lists t lx xs ExecutionQueue q \<and> tcbs t = tcbs s"
proof -
  have s: "crit_ok s" "is_list s ExecutionQueue (v # q)" "list_unlocked s ExecutionQueue" "length (v # q) \<le> 255" "task_node s v"
    "is_list s lx xs" "list_unlocked s lx" "lx \<noteq> ExecutionQueue" "set (v # q) \<inter> set xs = {}"
    using assms by (auto simp: task_lists_def)
  obtain t where t: "KSchedulerQueueTaskPop s = Some (v, t)" "is_list t ExecutionQueue q" "list_frame s t ExecutionQueue (set (v # q))"
    using QueueTaskPop_frame [OF s(1-5)] by blast
  note ft = list_frame_task [OF t(3)]
  have "task_node t p" if "p \<in> set xs \<union> set (v # q)" for p using assms ft(3) that by (auto simp: task_lists_def)
  then have "task_lists t lx xs ExecutionQueue q"
    using assms t(2) s is_list_frame [OF t(3) s(6,8)] list_frame_crit [OF t(3)] list_frame_unlocked [OF t(3)]
    by (auto simp: task_lists_def)
  then show ?thesis using t(1) ft(1) by blast
qed

definition run_queue :: "lptr \<Rightarrow> (ptr \<Rightarrow> Prio_t) \<Rightarrow> 'a sched_state_scheme \<Rightarrow> ptr list \<Rightarrow> ptr list \<Rightarrow> bool" where
  "run_queue lx f s w q \<longleftrightarrow> task_lists s lx w ExecutionQueue q \<and> task_prio s = f"

interpretation exec_queue: ready_queue "ISchedulerTaskAddDescendingPriority lx ExecutionQueue" KSchedulerQueueTaskPop
  "run_queue lx f" f for lx f
proof
  fix s :: "'a sched_state_scheme" and w q x
  assume s: "run_queue lx f s w q" and x: "x \<in> set w"
  then obtain as bs where w: "w = as @ x # bs" "x \<notin> set as" by (meson split_list_first)
  then obtain t where "ISchedulerTaskAddDescendingPriority lx ExecutionQueue x s = Some t"
    "task_lists t lx (as @ bs) ExecutionQueue (prio_insert (task_prio s) x q)" "tcbs t = tcbs s"
    using AddDescendingPriority_ok s by (metis run_queue_def)
  then show "\<exists>t. ISchedulerTaskAddDescendingPriority lx ExecutionQueue x s = Some t \<and> run_queue lx f t (remove1 x w) (prio_insert f x q)"
    using s w by (auto simp: run_queue_def task_prio_def [abs_def] remove1_append)
next
  fix s :: "'a sched_state_scheme" and w q v
  assume "run_queue lx f s w (v # q)"
  then show "\<exists>t. KSchedulerQueueTaskPop s = Some (v, t) \<and> run_queue lx f t w q"
    using QueueTaskPop_ok by (force simp: run_queue_def task_prio_def [abs_def])
next
  fix s :: "'a sched_state_scheme" and w q
  show "run_queue lx f s w q \<Longrightarrow> distinct w" by (simp add: run_queue_def task_lists_def is_list_def)
qed


text \<open>Three tasks in the task list, at 16, 32 and 48, with the priorities 3, 7 and 3.\<close>

definition three_tasks :: shell_state where
  "three_tasks = shell_bss\<lparr>
     nodes := [16 \<mapsto> sample_node 1 16 NULL 32, 32 \<mapsto> sample_node 2 32 16 48, 48 \<mapsto> sample_node 3 48 32 NULL],
     lists := [TcbList \<mapsto> sample_list 16 48 3, ExecutionQueue \<mapsto> sample_list NULL NULL 0],
     tcbs := [16 \<mapsto> zero_tcb\<lparr>priority := 3\<rparr>, 32 \<mapsto> zero_tcb\<lparr>priority := 7\<rparr>, 48 \<mapsto> zero_tcb\<lparr>priority := 3\<rparr>]\<rparr>"

lemma three_tasks_ok: "run_queue TcbList (task_prio three_tasks) three_tasks [16, 32, 48] []"
  by (simp add: run_queue_def task_lists_def three_tasks_def is_list_def ll_at_def list_unlocked_def task_node_def
      TcbList_def ExecutionQueue_def crit_ok_def core_bss_def ID_INVALID_def)


end
