(* ===== verification/TimerProps.thy ===== *)
theory TimerProps
  imports Sample
begin

text \<open>
  Properties of the timers: what the iteration counter does, and the functions on all timers.
\<close>

subsection \<open>The iteration counter\<close>

lemma itr_byte_all:
  "list_all (\<lambda>n. let p = word_of_nat n :: U8_t; i = TIMER_PARAMETER_ITR_GET p; q = p OR TIMER_PARAMETER_ITR_SET (i - 1)
     in i \<noteq> 1 \<and> p AND TIMER_PARAMETER_PERIODIC = 0 \<longrightarrow> TIMER_PARAMETER_ITR_GET q \<noteq> 1 \<and> q AND TIMER_PARAMETER_PERIODIC = 0) [0..<256]"
  by code_simp

lemma itr_byte:
  fixes p :: U8_t
  assumes "TIMER_PARAMETER_ITR_GET p \<noteq> 1" "p AND TIMER_PARAMETER_PERIODIC = 0"
  shows "TIMER_PARAMETER_ITR_GET (p OR TIMER_PARAMETER_ITR_SET (TIMER_PARAMETER_ITR_GET p - 1)) \<noteq> 1"
    and "(p OR TIMER_PARAMETER_ITR_SET (TIMER_PARAMETER_ITR_GET p - 1)) AND TIMER_PARAMETER_PERIODIC = 0"
proof -
  have "unat p \<in> set [0..<256]" using unsigned_less [of p] by simp
  with itr_byte_all have "let p = word_of_nat (unat p) :: U8_t; i = TIMER_PARAMETER_ITR_GET p; q = p OR TIMER_PARAMETER_ITR_SET (i - 1)
     in i \<noteq> 1 \<and> p AND TIMER_PARAMETER_PERIODIC = 0 \<longrightarrow> TIMER_PARAMETER_ITR_GET q \<noteq> 1 \<and> q AND TIMER_PARAMETER_PERIODIC = 0"
    unfolding list_all_iff by blast
  with assms show "TIMER_PARAMETER_ITR_GET (p OR TIMER_PARAMETER_ITR_SET (TIMER_PARAMETER_ITR_GET p - 1)) \<noteq> 1"
    and "(p OR TIMER_PARAMETER_ITR_SET (TIMER_PARAMETER_ITR_GET p - 1)) AND TIMER_PARAMETER_PERIODIC = 0"
    by (simp_all add: Let_def)
qed

text \<open>What is left of a timer after a number of overflows that did not delete it.\<close>

definition overflows :: "nat \<Rightarrow> Timer_t \<Rightarrow> Timer_t" where
  "overflows n = (\<lambda>t. fst (timer_overflow t)) ^^ n"

lemma timer_overflow_parameter:
  assumes "parameter t AND TIMER_PARAMETER_PERIODIC = 0"
  shows "snd (timer_overflow t) \<longleftrightarrow> TIMER_PARAMETER_ITR_GET (parameter t) = 1"
    and "parameter (fst (timer_overflow t)) =
      (if TIMER_PARAMETER_ITR_GET (parameter t) = 1 then parameter t
       else parameter t OR TIMER_PARAMETER_ITR_SET (TIMER_PARAMETER_ITR_GET (parameter t) - 1))"
  using assms by (auto simp: timer_overflow_def Let_def)

lemma overflows_parameter:
  assumes "parameter t AND TIMER_PARAMETER_PERIODIC = 0"
  shows "parameter (overflows n t) AND TIMER_PARAMETER_PERIODIC = 0 \<and>
    (TIMER_PARAMETER_ITR_GET (parameter (overflows n t)) = 1 \<longleftrightarrow> TIMER_PARAMETER_ITR_GET (parameter t) = 1)"
proof (induction n)
  case 0
  with assms show ?case by (simp add: overflows_def)
next
  case (Suc n)
  then have per: "parameter (overflows n t) AND TIMER_PARAMETER_PERIODIC = 0"
    and itr: "TIMER_PARAMETER_ITR_GET (parameter (overflows n t)) = 1 \<longleftrightarrow> TIMER_PARAMETER_ITR_GET (parameter t) = 1"
    by auto
  have suc: "overflows (Suc n) t = fst (timer_overflow (overflows n t))" by (simp add: overflows_def)
  show ?case
  proof (cases "TIMER_PARAMETER_ITR_GET (parameter (overflows n t)) = 1")
    case True
    then show ?thesis using suc timer_overflow_parameter(2) [OF per] per itr by simp
  next
    case False
    then show ?thesis using suc timer_overflow_parameter(2) [OF per] itr_byte [OF False per] itr by simp
  qed
qed

text \<open>
  C31. A timer that is not periodic is deleted at an overflow exactly when its iteration count is 1. A count of 2
  or more, or 0, is never counted down: however often the timer overflows, it is not deleted.
\<close>

theorem timer_iterations_not_counted:
  assumes "parameter t AND TIMER_PARAMETER_PERIODIC = 0"
  shows "snd (timer_overflow (overflows n t)) \<longleftrightarrow> TIMER_PARAMETER_ITR_GET (parameter t) = 1"
  using timer_overflow_parameter(1) overflows_parameter [OF assms] by blast

theorem timer_iterations_not_counted_witness:
  "\<not> snd (timer_overflow (overflows 1000 (zero_timer\<lparr>parameter := TIMER_PARAMETER_ITR_SET 2\<rparr>)))
   \<and> snd (timer_overflow (overflows 0 (zero_timer\<lparr>parameter := TIMER_PARAMETER_ITR_SET 1\<rparr>)))"
  using timer_iterations_not_counted [of "zero_timer\<lparr>parameter := TIMER_PARAMETER_ITR_SET 2\<rparr>" 1000]
    timer_iterations_not_counted [of "zero_timer\<lparr>parameter := TIMER_PARAMETER_ITR_SET 1\<rparr>" 0]
  by (simp add: TIMER_PARAMETER_ITR_SET_def TIMER_PARAMETER_ITR_GET_def TIMER_PARAMETER_PERIODIC_def)

subsection \<open>All timers\<close>

text \<open>What the functions on all timers read: the object of the first node of the timer list.\<close>

definition timer_first :: "'a timer_state_scheme \<Rightarrow> ptr option" where
  "timer_first s = do { node \<leftarrow> ListNodePeek TimerList 0 s; ListNodeChildGet node s }"

text \<open>\<open>n\<close> passes through the loop, from the pointer \<open>p\<close>: \<open>None\<close> when the loop has ended before or a pass is undefined.\<close>

fun timer_passes :: "(Timer_t \<Rightarrow> Timer_t) \<Rightarrow> nat \<Rightarrow> ptr \<Rightarrow> 'a timer_state_scheme \<Rightarrow> (ptr \<times> 'a timer_state_scheme) option" where
  "timer_passes f 0 p s = Some (p, s)"
| "timer_passes f (Suc n) p s = (if p = NULL then None else do { (p, s) \<leftarrow> timer_all_body f s; timer_passes f n p s })"

lemma timer_first_timers: "timer_first (s\<lparr>timers := g\<rparr>) = timer_first s"
  by (simp add: timer_first_def ListNodePeek_def ListNodeChildGet_def node_at_def ll_at_def cong: if_cong)

lemma timer_all_body_step:
  assumes "timer_first s = Some c" and "c \<noteq> NULL"
  shows "timer_all_body f s = map_option (\<lambda>s. (c, s)) (timer_update c f s)"
proof -
  obtain p where "ListNodePeek TimerList 0 s = Some p" "ListNodeChildGet p s = Some c"
    using assms(1) by (auto simp: timer_first_def split: bind_splits)
  then show ?thesis using assms(2) by (cases "timer_update c f s") (simp_all add: timer_all_body_def)
qed

lemma timer_passes_go_on:
  assumes "timer_first s = Some c" and "c \<noteq> NULL" and "timer_at c s = Some x"
  shows "\<exists>t. timer_passes f n c s = Some (c, t)"
  using assms
proof (induction n arbitrary: s x)
  case (Suc n)
  let ?t = "s\<lparr>timers := (timers s)(c \<mapsto> f x)\<rparr>"
  have "timer_all_body f s = Some (c, ?t)"
    using Suc.prems timer_all_body_step [OF Suc.prems(1,2)] by (simp add: timer_update_def)
  moreover have "\<exists>t. timer_passes f n c ?t = Some (c, t)"
    using Suc.prems by (intro Suc.IH [of ?t "f x"]) (simp_all add: timer_first_timers timer_at_def)
  ultimately show ?case using Suc.prems(2) by simp
qed simp

lemma timer_all_loop_diverges:
  assumes "timer_all_loop f p s = Some t" "p \<noteq> NULL" "timer_first s = Some c" "c \<noteq> NULL"
  shows False
  using assms
proof (induction rule: timer_all_loop.raw_induct [rotated, consumes 1])
  case (1 loop f p s t)
  then obtain u where u: "timer_update c f s = Some u" "loop f c u = Some t"
    using timer_all_body_step [OF 1(4,5), of f] by (auto split: bind_splits if_splits)
  then have "timer_first u = Some c" using 1(4) by (auto simp: timer_update_def timer_first_timers split: bind_splits)
  with 1(1) [of f c u t] 1(5) u show ?case by simp
qed

lemma timer_all_first:
  assumes "timer_first s = Some c"
  shows "timer_all f s = (if c = NULL then Some s else None)"
proof -
  have all: "timer_all f s = timer_all_loop f c s" using assms by (auto simp: timer_all_def timer_first_def split: bind_splits)
  show ?thesis
  proof (cases "c = NULL")
    case True
    then show ?thesis unfolding all by (subst timer_all_loop.simps) simp
  next
    case False
    then show ?thesis unfolding all using timer_all_loop_diverges [OF _ False assms False, of f] by (cases "timer_all_loop f c s") auto
  qed
qed

text \<open>
  C30. \<open>TimerStartAll\<close>, \<open>TimerStopAll\<close> and \<open>TimerResetAll\<close> return exactly when the timer list is empty, and then change nothing.
  When the first node of the list holds a timer, they never return: no pass through their loops follows a null pointer, and after
  any number of passes the pointer is the first timer again, as the index does not advance.
\<close>

theorem timer_all_return_iff_empty:
  assumes "timer_first s = Some c" and "c \<noteq> NULL \<Longrightarrow> timer_at c s \<noteq> None"
  shows "if c = NULL then TimerStartAll s = Some s \<and> TimerStopAll s = Some s \<and> TimerResetAll s = Some s
    else TimerStartAll s = None \<and> TimerStopAll s = None \<and> TimerResetAll s = None \<and>
      (\<forall>f n. \<exists>t. timer_passes f n c s = Some (c, t))"
  using timer_all_first [OF assms(1)] timer_passes_go_on [OF assms(1)] assms(2)
  by (auto simp: TimerStartAll_def TimerStopAll_def TimerResetAll_def)

definition one_timer :: shell_state where
  "one_timer = shell_bss\<lparr>nodes := [16 \<mapsto> sample_node 1 16 NULL NULL], lists := [TimerList \<mapsto> sample_list 16 16 1],
     timers := [16 \<mapsto> zero_timer]\<rparr>"

theorem timer_all_return_iff_empty_witness:
  "TimerStartAll one_timer = None \<and> (\<exists>t. timer_passes (\<lambda>t. t\<lparr>tm_state := TIMER_STATE_RUNNING\<rparr>) 1000 16 one_timer = Some (16, t)) \<and>
   TimerStartAll (one_timer\<lparr>lists := [TimerList \<mapsto> sample_list NULL NULL 0]\<rparr>)
     = Some (one_timer\<lparr>lists := [TimerList \<mapsto> sample_list NULL NULL 0]\<rparr>)"
proof -
  have "timer_first one_timer = Some 16" "timer_at 16 one_timer \<noteq> None"
    "timer_first (one_timer\<lparr>lists := [TimerList \<mapsto> sample_list NULL NULL 0]\<rparr>) = Some NULL"
    by (simp_all add: one_timer_def timer_first_def timer_at_def ListNodePeek_def ListNodeChildGet_def ll_at_def node_at_def TimerList_def
        LIST_POSITION_HEAD_def LIST_POSITION_TAIL_def)
  then show ?thesis using timer_all_return_iff_empty [of one_timer 16] timer_all_return_iff_empty [of "one_timer\<lparr>lists := [TimerList \<mapsto> sample_list NULL NULL 0]\<rparr>" NULL]
    by auto
qed

end
