(* ===== verification/HeapStore.thy ===== *)
theory HeapStore
  imports Pools
begin

text \<open>
  What clients keep in the heap: a block that was allocated starts with zeros, and holds what its client wrote into it until it is
  released, whatever is allocated, released and written elsewhere in between.
\<close>

subsection \<open>The interface of a store\<close>

text \<open>
  An allocator whose blocks can be read and written byte by byte. A client holds blocks with the contents it expects in them; a
  write goes to byte \<open>j\<close> of the \<open>i\<close>-th block held, and only inside the size that was asked for.
\<close>

datatype store_op = SAlloc U32_t | SRelease nat | SWrite nat nat U8_t

fun store_run :: "(U32_t \<Rightarrow> 's \<Rightarrow> (ptr \<times> 's) option) \<Rightarrow> (ptr \<Rightarrow> 's \<Rightarrow> 's option) \<Rightarrow> (ptr \<Rightarrow> U8_t \<Rightarrow> 's \<Rightarrow> 's) \<Rightarrow>
    store_op list \<Rightarrow> (ptr \<times> U8_t list) list \<Rightarrow> 's \<Rightarrow> ((ptr \<times> U8_t list) list \<times> 's) option" where
  "store_run al rl poke [] held s = Some (held, s)"
| "store_run al rl poke (SAlloc n # ops) held s = do {
     (p, s) \<leftarrow> al n s;
     store_run al rl poke ops (if p = NULL then held else (p, replicate (unat n) 0) # held) s
   }"
| "store_run al rl poke (SRelease i # ops) held s =
     (if i < length held
      then do { s \<leftarrow> rl (fst (held ! i)) s; store_run al rl poke ops (take i held @ drop (Suc i) held) s }
      else store_run al rl poke ops held s)"
| "store_run al rl poke (SWrite i j v # ops) held s =
     (if i < length held \<and> j < length (snd (held ! i))
      then store_run al rl poke ops (held[i := (fst (held ! i), (snd (held ! i))[j := v])]) (poke (fst (held ! i) + j) v s)
      else store_run al rl poke ops held s)"

locale store = allocator alloc release live alloc_inv
  for alloc :: "U32_t \<Rightarrow> 's \<Rightarrow> (ptr \<times> 's) option" and release :: "ptr \<Rightarrow> 's \<Rightarrow> 's option"
    and live :: "'s \<Rightarrow> (ptr \<times> nat) set" and alloc_inv :: "'s \<Rightarrow> bool" +
  fixes peek :: "'s \<Rightarrow> ptr \<Rightarrow> U8_t" and poke :: "ptr \<Rightarrow> U8_t \<Rightarrow> 's \<Rightarrow> 's"
  assumes poke_law: "alloc_inv s \<Longrightarrow> (p, m) \<in> live s \<Longrightarrow> j < m \<Longrightarrow>
      alloc_inv (poke (p + j) v s) \<and> live (poke (p + j) v s) = live s \<and> peek (poke (p + j) v s) = (peek s)(p + j := v)"
    and alloc_keeps: "alloc_inv s \<Longrightarrow> alloc n s = Some (p, t) \<Longrightarrow> (q, k) \<in> live s \<Longrightarrow> j < k \<Longrightarrow> peek t (q + j) = peek s (q + j)"
    and alloc_zero: "alloc_inv s \<Longrightarrow> alloc n s = Some (p, t) \<Longrightarrow> p \<noteq> NULL \<Longrightarrow> j < unat n \<Longrightarrow> peek t (p + j) = 0"
    and release_keeps: "alloc_inv s \<Longrightarrow> (p, m) \<in> live s \<Longrightarrow> release p s = Some t \<Longrightarrow> (q, k) \<in> live s \<Longrightarrow> q \<noteq> p \<Longrightarrow> j < k \<Longrightarrow>
      peek t (q + j) = peek s (q + j)"
    and live_disjoint: "alloc_inv s \<Longrightarrow> blocks_disjoint (live s)"
begin

definition holds :: "(ptr \<times> U8_t list) list \<Rightarrow> 's \<Rightarrow> bool" where
  "holds held s \<longleftrightarrow> alloc_inv s \<and> distinct (map fst held) \<and>
     (\<forall>(p, c) \<in> set held. \<exists>m. (p, m) \<in> live s \<and> length c \<le> m \<and> (\<forall>j < length c. peek s (p + j) = c ! j))"

lemma holdsI:
  assumes "alloc_inv s" and "distinct (map fst held)"
    and "\<And>p c. (p, c) \<in> set held \<Longrightarrow> \<exists>m. (p, m) \<in> live s \<and> length c \<le> m \<and> (\<forall>j < length c. peek s (p + j) = c ! j)"
  shows "holds held s"
  using assms by (auto simp: holds_def)

lemma holdsD:
  assumes "holds held s" and "(p, c) \<in> set held"
  obtains m where "(p, m) \<in> live s" "length c \<le> m" "\<forall>j < length c. peek s (p + j) = c ! j"
  using assms unfolding holds_def by blast

lemma holds_alloc:
  assumes h: "holds held s"
  shows "\<exists>p t. alloc n s = Some (p, t) \<and> holds (if p = NULL then held else (p, replicate (unat n) 0) # held) t"
proof -
  have inv: "alloc_inv s" using h by (simp add: holds_def)
  obtain p t where t: "alloc n s = Some (p, t)" "alloc_inv t"
    and l: "if p = NULL then live t = live s
        else \<exists>m \<ge> unat n. 0 < m \<and> live t = insert (p, m) (live s) \<and> (\<forall>(q, k) \<in> live s. p + m \<le> q \<or> q + k \<le> p)"
    using alloc_law [OF inv] by blast
  have old: "\<exists>k. (q, k) \<in> live t \<and> length c \<le> k \<and> (\<forall>j < length c. peek t (q + j) = c ! j)" if mem: "(q, c) \<in> set held" for q c
  proof -
    obtain k where k: "(q, k) \<in> live s" "length c \<le> k" "\<forall>j < length c. peek s (q + j) = c ! j" by (rule holdsD [OF h mem])
    have "(q, k) \<in> live t" using k(1) l by (auto split: if_splits)
    then show ?thesis using k alloc_keeps [OF inv t(1) k(1)] by auto
  qed
  show ?thesis
  proof (cases "p = NULL")
    case True
    then show ?thesis using t old h by (intro exI [of _ p] exI [of _ t]) (simp add: holds_def, blast)
  next
    case False
    then obtain m where m: "unat n \<le> m" "0 < m" "live t = insert (p, m) (live s)" "\<forall>(q, k) \<in> live s. p + m \<le> q \<or> q + k \<le> p"
      using l by auto
    have "p \<noteq> q" if mem: "(q, c) \<in> set held" for q c
    proof -
      obtain k where "(q, k) \<in> live s" by (rule holdsD [OF h mem])
      then show ?thesis using m(2,4) live_pos [OF inv] by fastforce
    qed
    then have "p \<notin> fst ` set held" by force
    then have "holds ((p, replicate (unat n) 0) # held) t"
      using t(2) old h m(1,3) alloc_zero [OF inv t(1) False] by (intro holdsI) (auto simp: holds_def)
    then show ?thesis using t(1) False by auto
  qed
qed

lemma holds_release:
  assumes h: "holds held s" and i: "i < length held"
  shows "\<exists>t. release (fst (held ! i)) s = Some t \<and> holds (take i held @ drop (Suc i) held) t"
proof -
  let ?p = "fst (held ! i)"
  have inv: "alloc_inv s" and d: "distinct (map fst held)" using h by (simp_all add: holds_def)
  obtain m where m: "(?p, m) \<in> live s" using holdsD [OF h, of ?p "snd (held ! i)"] i by (metis nth_mem prod.collapse)
  obtain t where t: "release ?p s = Some t" "alloc_inv t" "live t = live s - {(?p, m)}" using release_law [OF inv m] by blast
  have e: "held = take i held @ held ! i # drop (Suc i) held" using i by (rule id_take_nth_drop)
  then have d': "distinct (map fst (take i held @ held ! i # drop (Suc i) held))" using d by simp
  have "holds (take i held @ drop (Suc i) held) t"
  proof (rule holdsI [OF t(2)])
    show "distinct (map fst (take i held @ drop (Suc i) held))" using d' by auto
    fix q c assume q: "(q, c) \<in> set (take i held @ drop (Suc i) held)"
    then have "q \<in> fst ` set (take i held) \<union> fst ` set (drop (Suc i) held)" by force
    then have "q \<noteq> ?p" using d' by auto
    moreover have "(q, c) \<in> set held" using q by (auto dest: in_set_takeD in_set_dropD)
    then obtain k where "(q, k) \<in> live s" "length c \<le> k" "\<forall>j < length c. peek s (q + j) = c ! j" using holdsD [OF h] by blast
    ultimately show "\<exists>k. (q, k) \<in> live t \<and> length c \<le> k \<and> (\<forall>j < length c. peek t (q + j) = c ! j)"
      using release_keeps [OF inv m t(1)] t(3) by (intro exI [of _ k]) auto
  qed
  with t(1) show ?thesis by blast
qed

lemma holds_write:
  assumes h: "holds held s" and i: "i < length held" "j < length (snd (held ! i))"
  shows "holds (held[i := (fst (held ! i), (snd (held ! i))[j := v])]) (poke (fst (held ! i) + j) v s)" (is "holds ?held ?t")
proof -
  let ?p = "fst (held ! i)" and ?c = "snd (held ! i)"
  have inv: "alloc_inv s" and d: "distinct (map fst held)" using h by (simp_all add: holds_def)
  have here: "(?p, ?c) \<in> set held" using i by simp
  obtain m where m: "(?p, m) \<in> live s" "length ?c \<le> m" "\<forall>j < length ?c. peek s (?p + j) = ?c ! j" using holdsD [OF h here] by blast
  have jm: "j < m" using i(2) m(2) by simp
  note t = poke_law [OF inv m(1) jm, of v]
  show ?thesis
  proof (rule holdsI)
    show "alloc_inv ?t" using t by blast
    have "map fst ?held = map fst held" by (rule nth_equalityI) (use i in \<open>auto simp: nth_list_update\<close>)
    then show "distinct (map fst ?held)" using d by simp
    fix q c assume q: "(q, c) \<in> set ?held"
    then obtain x where x: "x < length held" "(q, c) = ?held ! x" by (auto simp: in_set_conv_nth)
    show "\<exists>k. (q, k) \<in> live ?t \<and> length c \<le> k \<and> (\<forall>l < length c. peek ?t (q + l) = c ! l)"
    proof (cases "x = i")
      case True
      then have "q = ?p" "c = ?c[j := v]" using x i by simp_all
      then show ?thesis using m t by (intro exI [of _ m]) (auto simp: nth_list_update)
    next
      case False
      then have qx: "held ! x = (q, c)" using x by simp
      then have "(q, c) \<in> set held" using x(1) by (metis nth_mem)
      then obtain k where k: "(q, k) \<in> live s" "length c \<le> k" "\<forall>l < length c. peek s (q + l) = c ! l" using holdsD [OF h] by blast
      have "map fst held ! x \<noteq> map fst held ! i" using nth_eq_iff_index_eq [OF d, of x i] x(1) i(1) False by simp
      then have "q \<noteq> ?p" using x(1) i(1) qx by simp
      then have "?p + m \<le> q \<or> q + k \<le> ?p" using live_disjoint [OF inv] m(1) k(1) unfolding blocks_disjoint_def by blast
      then have "peek ?t (q + l) = c ! l" if "l < length c" for l using t k that jm by auto
      then show ?thesis using t k by auto
    qed
  qed
qed

lemma run_holds: "holds held s \<Longrightarrow> \<exists>held' t. store_run alloc release poke ops held s = Some (held', t) \<and> holds held' t"
proof (induction ops arbitrary: held s)
  case (Cons op ops)
  show ?case
  proof (cases op)
    case (SAlloc n)
    then show ?thesis using holds_alloc [OF Cons.prems, of n] Cons.IH by fastforce
  next
    case (SRelease i)
    then show ?thesis using holds_release [OF Cons.prems, of i] Cons.IH Cons.prems by (cases "i < length held") fastforce+
  next
    case (SWrite i j v)
    then show ?thesis using holds_write [OF Cons.prems, of i j v] Cons.IH Cons.prems by auto
  qed
qed auto

end

subsection \<open>The blocks of a pool as a store\<close>

text \<open>Reading and writing a byte of the heap through its address, as the clients do with the pointers \<open>MemAlloc\<close> gives them.\<close>

definition heap_peek :: "'a mem_state_scheme \<Rightarrow> ptr \<Rightarrow> U8_t" where
  "heap_peek s p = OsHeap s (p - HeapBase s)"

definition heap_poke :: "ptr \<Rightarrow> U8_t \<Rightarrow> 'a mem_state_scheme \<Rightarrow> 'a mem_state_scheme" where
  "heap_poke p v s = s\<lparr>OsHeap := (OsHeap s)(p - HeapBase s := v)\<rparr>"

lemma pool_live_cases:
  assumes inv: "pool_inv pid s" and live: "(p, m) \<in> pool_live pid s"
  obtains B as k bs where "mem_wf s B" "pool_used s (unat pid)" "crit_ok s" "mem_access s pid" "unat pid < length (PoolTable s)"
    "B (unat pid) = as @ Used k # bs" "pool_ok s pid (as @ Used k # bs)" "0 < k"
    "p = HeapBase s + (pool_start s pid + segs_len as + 4)" "m = 16 * k - 4"
proof -
  obtain B where wf: "mem_wf s B" and u: "pool_used s (unat pid)" and r: "crit_ok s" "mem_access s pid"
    using inv by (auto simp: pool_inv_def)
  have ok: "pool_ok s pid (B (unat pid))" by (rule mem_wf_pool [OF wf u])
  obtain as k bs where okx: "pool_ok s pid (as @ Used k # bs)"
    and p: "p = HeapBase s + (pool_start s pid + segs_len as + 4)" and m: "m = 16 * k - 4"
    using live by (auto simp: pool_live_def)
  have "0 < k" "unat pid < length (PoolTable s)" using okx by (auto simp: pool_ok_def Let_def layout_append)
  then show thesis using that wf u r pool_ok_unique [OF ok okx] okx p m by blast
qed

text \<open>Writing inside a live block changes no size word and no free block, so the pool keeps its structure.\<close>

lemma layout_poke:
  assumes "layout h i (as @ Used k # bs)" and "i + segs_len as + 4 \<le> x" and "x < i + segs_len as + 16 * k"
  shows "layout (h(x := v)) i (as @ Used k # bs)"
proof -
  have l: "layout h i as" "layout h (i + segs_len as + 16 * k) bs" using assms(1) by (simp_all add: layout_append)
  have "layout (h(x := v)) i as" by (rule layout_frame [OF l(1)]) (use assms(2) in auto)
  moreover have "layout (h(x := v)) (i + segs_len as + 16 * k) bs" by (rule layout_frame [OF l(2)]) (use assms(3) in auto)
  moreover have "heap_get32 (h(x := v)) (i + segs_len as) = heap_get32 h (i + segs_len as)"
    using assms(2) by (intro heap_get32_cong) auto
  ultimately show ?thesis using assms(1) by (simp add: layout_append)
qed

lemma pool_poke_keeps:
  assumes wf: "mem_wf s B" and u: "pool_used s (unat pid)" and B: "B (unat pid) = as @ Used k # bs"
    and ok: "pool_ok s pid (as @ Used k # bs)" and j: "j < 16 * k - 4"
    and p: "p = HeapBase s + (pool_start s pid + segs_len as + 4)"
  shows "mem_wf (heap_poke (p + j) v s) B" "pool_ok (heap_poke (p + j) v s) pid (as @ Used k # bs)"
    "heap_peek (heap_poke (p + j) v s) = (heap_peek s)(p + j := v)"
proof -
  let ?t = "heap_poke (p + j) v s"
  let ?x = "pool_start s pid + segs_len as + 4 + j"
  have t: "?t = s\<lparr>OsHeap := (OsHeap s)(?x := v)\<rparr>" by (simp add: heap_poke_def p add.assoc)
  show ok': "pool_ok ?t pid (as @ Used k # bs)"
    using ok layout_poke [of "OsHeap s" "pool_start s pid" as k bs ?x v] j unfolding t by (simp add: pool_ok_def Let_def)
  have "mem_wf ?t (B(unat pid := as @ Used k # bs))"
    by (rule mem_wf_update [OF wf u ok', of "PoolTable s ! unat pid"]) (use B j in \<open>auto simp: t\<close>)
  then show "mem_wf ?t B" using B by (metis fun_upd_triv)
  show "heap_peek ?t = (heap_peek s)(p + j := v)"
  proof
    fix a
    have "a - HeapBase s = ?x \<longleftrightarrow> a = p + j" unfolding p by linarith
    then show "heap_peek ?t a = ((heap_peek s)(p + j := v)) a" unfolding t heap_peek_def by simp
  qed
qed

lemma pool_poke_law:
  assumes inv: "pool_inv pid s" and live: "(p, m) \<in> pool_live pid s" and j: "j < m"
  shows "pool_inv pid (heap_poke (p + j) v s) \<and> pool_live pid (heap_poke (p + j) v s) = pool_live pid s
    \<and> heap_peek (heap_poke (p + j) v s) = (heap_peek s)(p + j := v)"
proof -
  obtain B as k bs where wf: "mem_wf s B" and u: "pool_used s (unat pid)" and r: "crit_ok s" "mem_access s pid"
    and B: "B (unat pid) = as @ Used k # bs" and ok: "pool_ok s pid (as @ Used k # bs)"
    and p: "p = HeapBase s + (pool_start s pid + segs_len as + 4)" and m: "m = 16 * k - 4"
    by (rule pool_live_cases [OF inv live])
  let ?t = "heap_poke (p + j) v s"
  note K = pool_poke_keeps [OF wf u B ok j [unfolded m] p, of v]
  have "mem_access ?t pid" using r by (simp add: heap_poke_def mem_access_def KCoreFlagGet_def)
  then have "pool_inv pid ?t" using u r K(1) by (auto simp: pool_inv_def heap_poke_def)
  moreover have "pool_live pid ?t = pool_live pid s" unfolding pool_live_eq [OF K(2)] pool_live_eq [OF ok] by (simp add: heap_poke_def)
  ultimately show ?thesis using K(3) by blast
qed

lemma pool_live_disjoint:
  assumes "pool_inv pid s"
  shows "blocks_disjoint (pool_live pid s)"
  unfolding blocks_disjoint_def
proof (intro allI impI, elim conjE)
  fix p m q l assume live: "(p, m) \<in> pool_live pid s" "(q, l) \<in> pool_live pid s" and ne: "(p, m) \<noteq> (q, l)"
  obtain as k bs where ok: "pool_ok s pid (as @ Used k # bs)" and k: "0 < k"
    and p: "p = HeapBase s + (pool_start s pid + segs_len as + 4)" and m: "m = 16 * k - 4"
    by (rule pool_live_cases [OF assms live(1)])
  let ?i = "pool_start s pid + segs_len as"
  have l: "layout (OsHeap s) (pool_start s pid) as" "layout (OsHeap s) (?i + 16 * k) bs"
    using ok by (auto simp: pool_ok_def Let_def layout_append)
  obtain x where q: "q = HeapBase s + x" and x: "(x, l) \<in> live_segs (pool_start s pid) (as @ Used k # bs)"
    using live(2) unfolding pool_live_eq [OF ok] by auto
  consider "(x, l) \<in> live_segs (pool_start s pid) as" | "(x, l) = (?i + 4, m)" | "(x, l) \<in> live_segs (?i + 16 * k) bs"
    using x m by (auto simp: live_segs_append)
  then show "p + m \<le> q \<or> q + l \<le> p"
  proof cases
    case 1
    then show ?thesis using live_segs_range [OF l(1) 1] p q by simp
  next
    case 2
    then show ?thesis using ne p q by simp
  next
    case 3
    then show ?thesis using live_segs_range [OF l(2) 3] p q m k by simp
  qed
qed

text \<open>An allocation changes only the four bytes of the size word it writes into free blocks; a release clears only its own blocks.\<close>

lemma MemAlloc_cases:
  assumes inv: "pool_inv pid s" and r: "MemAlloc pid n s = Some (p, t)"
  obtains "p = NULL" "t = s"
  | B as bs where "mem_wf s B" "B (unat pid) = as @ replicate (blocks_for (unat n)) Free @ bs"
    "pool_ok s pid (as @ replicate (blocks_for (unat n)) Free @ bs)"
    "p = HeapBase s + (pool_start s pid + segs_len as + 4)"
    "t = alloc_state pid (pool_start s pid + segs_len as) (blocks_for (unat n)) s"
proof -
  obtain B where wf: "mem_wf s B" and u: "pool_used s (unat pid)" and c: "crit_ok s" "mem_access s pid"
    using inv by (auto simp: pool_inv_def)
  have ok: "pool_ok s pid (B (unat pid))" by (rule mem_wf_pool [OF wf u])
  show thesis
  proof (cases "n = 0")
    case True
    then show thesis using that(1) r by (simp add: MemAlloc_def)
  next
    case False
    then show thesis using MemAlloc_eq [OF ok c False] r that wf ok by (auto simp: fits_def)
  qed
qed

lemma alloc_state_heap: "OsHeap (alloc_state pid i n s) = heap_put32 (OsHeap s) i (word_of_nat (16 * n))"
  "OsHeap (free_state pid i n s) = heap_zero (OsHeap s) i (i + 16 * n)"
  by (simp_all add: alloc_state_def free_state_def Pool_update_def)

lemma alloc_state_keeps:
  assumes ok: "pool_ok s pid (as @ replicate n Free @ bs)" and n: "0 < n" and live: "(q, k) \<in> pool_live pid s" and j: "j < k"
  shows "heap_peek (alloc_state pid (pool_start s pid + segs_len as) n s) (q + j) = heap_peek s (q + j)"
proof -
  let ?i = "pool_start s pid + segs_len as"
  have l: "layout (OsHeap s) (pool_start s pid) as" "layout (OsHeap s) (?i + 16 * n) bs"
    using ok by (auto simp: pool_ok_def Let_def layout_append add.assoc)
  obtain x where q: "q = HeapBase s + x" and x: "(x, k) \<in> live_segs (pool_start s pid) as \<union> live_segs (?i + 16 * n) bs"
    using live unfolding pool_live_eq [OF ok] by (auto simp: live_segs_append add.assoc)
  have "x + j < ?i \<or> ?i + 4 \<le> x + j"
    using x live_segs_range [OF l(1), of x k] live_segs_range [OF l(2), of x k] j n by auto
  then show ?thesis unfolding heap_peek_def by (simp add: alloc_state_heap q heap_put32_other)
qed

lemma free_state_keeps:
  assumes ok: "pool_ok s pid (as @ Used k # bs)" and q: "(q, l) \<in> pool_live pid s" "q \<noteq> HeapBase s + (pool_start s pid + segs_len as + 4)" and j: "j < l"
  shows "heap_peek (free_state pid (pool_start s pid + segs_len as) k s) (q + j) = heap_peek s (q + j)"
proof -
  let ?i = "pool_start s pid + segs_len as"
  have l: "layout (OsHeap s) (pool_start s pid) as" "layout (OsHeap s) (?i + 16 * k) bs"
    using ok by (auto simp: pool_ok_def Let_def layout_append)
  obtain x where x: "q = HeapBase s + x" "(x, l) \<in> live_segs (pool_start s pid) as \<union> live_segs (?i + 16 * k) bs"
    using q unfolding pool_live_eq [OF ok] by (auto simp: live_segs_append)
  then have "x + j < ?i \<or> ?i + 16 * k \<le> x + j"
    using live_segs_range [OF l(1), of x l] live_segs_range [OF l(2), of x l] j by auto
  then show ?thesis unfolding heap_peek_def by (auto simp: alloc_state_heap x(1) heap_zero_def)
qed

lemma pool_alloc_keeps:
  assumes inv: "pool_inv pid s" and r: "MemAlloc pid n s = Some (p, t)" and live: "(q, k) \<in> pool_live pid s" and j: "j < k"
  shows "heap_peek t (q + j) = heap_peek s (q + j)"
  using inv r
proof (cases rule: MemAlloc_cases)
  case (2 B as bs)
  then show ?thesis using alloc_state_keeps [OF 2(3) blocks_for_pos(1) live j] by simp
qed simp

lemma pool_alloc_zero:
  assumes inv: "pool_inv pid s" and r: "MemAlloc pid n s = Some (p, t)" and p: "p \<noteq> NULL" and j: "j < unat n"
  shows "heap_peek t (p + j) = 0"
  using inv r
proof (cases rule: MemAlloc_cases)
  case (2 B as bs)
  let ?n = "blocks_for (unat n)" and ?i = "pool_start s pid + segs_len as"
  have z: "\<forall>x < 16 * ?n. OsHeap s (?i + x) = 0"
    using 2(3) by (simp add: pool_ok_def Let_def layout_append layout_frees)
  have "4 + j < 16 * ?n" using j blocks_for_pos(1,2) [of "unat n"] by linarith
  then have "OsHeap s (?i + (4 + j)) = 0" using z by blast
  then show ?thesis unfolding 2(4,5) heap_peek_def by (simp add: alloc_state_heap heap_put32_other add.assoc)
qed (use p in simp)

lemma pool_release_keeps:
  assumes inv: "pool_inv pid s" and live: "(p, m) \<in> pool_live pid s" and r: "MemRelease p s = Some t"
    and q: "(q, l) \<in> pool_live pid s" "q \<noteq> p" and j: "j < l"
  shows "heap_peek t (q + j) = heap_peek s (q + j)"
proof -
  obtain B as k bs where wf: "mem_wf s B" and u: "pool_used s (unat pid)" and c: "crit_ok s" "mem_access s pid"
    and B: "B (unat pid) = as @ Used k # bs" and ok: "pool_ok s pid (as @ Used k # bs)" and k: "0 < k"
    and p: "p = HeapBase s + (pool_start s pid + segs_len as + 4)" and m: "m = 16 * k - 4"
    by (rule pool_live_cases [OF inv live])
  have t: "t = free_state pid (pool_start s pid + segs_len as) k s"
    using MemFree_eq [OF wf u B c pool_inv_id [OF inv]] r by (simp add: MemRelease_def p)
  show ?thesis unfolding t by (rule free_state_keeps [OF ok q(1) _ j]) (use q(2) p in simp)
qed

interpretation pool_store: store "MemAlloc pid" MemRelease "pool_live pid" "pool_inv pid" heap_peek heap_poke for pid
  by unfold_locales (fact pool_poke_law pool_alloc_keeps pool_alloc_zero pool_release_keeps pool_live_disjoint)+

text \<open>
  C4. A pool is a store: whatever a client allocates, releases and writes, in any order, every call returns, the blocks it holds
  never overlap, and each of them contains what was last written there, and zero where nothing has been written.
\<close>

theorem heap_contents:
  assumes "pool_inv pid s"
  shows "\<exists>held t. store_run (MemAlloc pid) MemRelease heap_poke ops [] s = Some (held, t)
    \<and> distinct (map fst held) \<and> blocks_disjoint (pool_live pid t)
    \<and> (\<forall>(p, c) \<in> set held. \<exists>m \<ge> length c. (p, m) \<in> pool_live pid t \<and> (\<forall>j < length c. heap_peek t (p + j) = c ! j))"
proof -
  have "pool_store.holds pid [] s" using assms by (intro pool_store.holdsI) auto
  then obtain held t where r: "store_run (MemAlloc pid) MemRelease heap_poke ops [] s = Some (held, t)" and h: "pool_store.holds pid held t"
    using pool_store.run_holds by blast
  have "blocks_disjoint (pool_live pid t)" using h by (intro pool_live_disjoint) (simp add: pool_store.holds_def)
  with r h show ?thesis by (intro exI [of _ held] exI [of _ t]) (fastforce simp: pool_store.holds_def)
qed

theorem heap_contents_witness:
  "\<exists>t. store_run (MemAlloc 0) MemRelease heap_poke [SAlloc 4, SWrite 0 1 7] [] (small_heap\<lparr>ObjectPoolId := 1\<rparr>) =
       Some ([(0x1004, [0, 7, 0, 0])], t) \<and> heap_peek t 0x1005 = 7"
proof -
  let ?s = "small_heap\<lparr>ObjectPoolId := 1\<rparr>" and ?ops = "[SAlloc 4, SWrite 0 1 7]"
  have ok: "pool_ok ?s 0 [Free]" using small_pool_ok by (simp add: pool_ok_def)
  have crit: "crit_ok ?s" using small_heap_ok(2) by (simp add: crit_ok_def)
  have one: "blocks_for (unat (4 :: U32_t)) = 1" by (simp add: blocks_for_def)
  have fits: "fits 1 as [Free] \<longleftrightarrow> as = []" for as
    by (cases as) (auto simp: fits_def)
  have "MemAlloc 0 4 ?s = Some (0x1004, alloc_state 0 0 1 ?s)"
    using MemAlloc_eq [OF ok crit small_access, of 4] unfolding one fits by auto
  moreover have "replicate 4 (0 :: U8_t) = [0, 0, 0, 0]" by (simp add: eval_nat_numeral)
  ultimately obtain t where t: "store_run (MemAlloc 0) MemRelease heap_poke ?ops [] ?s = Some ([(0x1004, [0, 7, 0, 0])], t)" by simp
  have "\<forall>j < 4. heap_peek t (0x1004 + j) = [0, 7, 0, 0] ! j"
    using heap_contents [OF small_pool_inv, of ?ops] unfolding t by auto
  from this [rule_format, of 1] t show ?thesis by auto
qed

end
