(* ===== verification/Objects.thy ===== *)
theory Objects
  imports HeapStore
begin

text \<open>
  Kernel objects: how \<open>KMemAllocObject\<close> and \<open>KMemFreeObject\<close> of \<^verbatim>\<open>Memory.c\<close> act on a well-formed object pool. All
  kernel modules create and delete their control blocks through them.
\<close>

subsection \<open>Kernel mode around an operation\<close>

text \<open>\<open>kernel_enter s\<close> is the state inside kernel mode entered in \<open>s\<close>; leaving it gives back \<open>s\<close>.\<close>

definition kernel_enter :: "'a core_state_scheme \<Rightarrow> 'a core_state_scheme" where
  "kernel_enter s = s\<lparr>KernelReg := (KernelReg s)\<lparr>kr_kernel_mode_nest_counter := kr_kernel_mode_nest_counter (KernelReg s) + 1,
     kr_sreg := (if kr_kernel_mode_nest_counter (KernelReg s) = 0 then kr_sreg (KernelReg s) OR CORE_FLAG_KERNEL_MODE
                 else kr_sreg (KernelReg s))\<rparr>\<rparr>"

definition kernel_ok :: "'a core_state_scheme \<Rightarrow> bool" where
  "kernel_ok s \<longleftrightarrow> kr_lock (KernelReg s) < 255 \<and> kr_kernel_mode_nest_counter (KernelReg s) < 255 \<and>
     (if kr_kernel_mode_nest_counter (KernelReg s) = 0 then KCoreFlagGet CORE_FLAG_KERNEL_MODE s = 0
      else KCoreFlagGet CORE_FLAG_KERNEL_MODE s \<noteq> 0)"

lemma core_inv_kernel_ok: "core_inv s \<Longrightarrow> kr_kernel_mode_nest_counter (KernelReg s) < 255 \<Longrightarrow> kernel_ok s"
  by (auto simp: core_inv_def kernel_ok_def KCoreFlagGet_def word_gt_0 split: if_splits)

lemma kernel_enter_frame [simp]:
  "kr_lock (KernelReg (kernel_enter s)) = kr_lock (KernelReg s)" "GlobalIntEnabled (kernel_enter s) = GlobalIntEnabled s"
  "kr_crit_sect_nest_counter (KernelReg (kernel_enter s)) = kr_crit_sect_nest_counter (KernelReg s)"
  "crit_ok (kernel_enter s) = crit_ok s"
  by (simp_all add: kernel_enter_def crit_ok_def)

lemma kernel_enter_mode: "kernel_ok s \<Longrightarrow> KCoreFlagGet CORE_FLAG_KERNEL_MODE (kernel_enter s) \<noteq> 0"
  by (auto simp: kernel_ok_def kernel_enter_def KCoreFlagGet_def mode_flag split: if_splits)

lemma kernel_enter_mem [simp]:
  "HeapBase (kernel_enter s) = HeapBase s" "OsHeap (kernel_enter s) = OsHeap s"
  "PoolTable (kernel_enter s) = PoolTable s" "TotalHeapPools (kernel_enter s) = TotalHeapPools s"
  "TotalHeapSize (kernel_enter s) = TotalHeapSize s" "HeapIndexEnd (kernel_enter s) = HeapIndexEnd s"
  "ObjectPoolId (kernel_enter s) = ObjectPoolId s"
  "alloc_state pid i n (kernel_enter t) = kernel_enter (alloc_state pid i n t)"
  "free_state pid i n (kernel_enter t) = kernel_enter (free_state pid i n t)"
  "alloc_state pid i n (crit_enter t) = crit_enter (alloc_state pid i n t)"
  by (simp_all add: kernel_enter_def crit_enter_def alloc_state_def free_state_def Pool_update_def)

lemma pool_ok_kernel_enter [simp]: "pool_ok (kernel_enter s) pid xs = pool_ok s pid xs"
  by (simp add: pool_ok_def)

lemma kernel_ok_simps [simp]: "kernel_ok (crit_enter s) = kernel_ok s" "kernel_ok (alloc_state pid i n s) = kernel_ok s"
  "kernel_ok (free_state pid i n s) = kernel_ok s"
  by (simp_all add: kernel_ok_def alloc_state_def free_state_def Pool_update_def KCoreFlagGet_def)

lemma mem_state_fields [simp]:
  "ObjectPoolId (alloc_state pid i n s) = ObjectPoolId s" "ObjectPoolId (free_state pid i n s) = ObjectPoolId s"
  "KernelReg (alloc_state pid i n s) = KernelReg s" "KernelReg (free_state pid i n s) = KernelReg s"
  by (simp_all add: alloc_state_def free_state_def Pool_update_def)

lemma KCoreKernelModeEnter_ok: "kernel_ok s \<Longrightarrow> \<exists>n. KCoreKernelModeEnter s = Some (n, kernel_enter s)"
  by (auto simp: KCoreKernelModeEnter_def kernel_ok_def kernel_enter_def KCoreFlagSet_def KERNEL_REG_LOCK_def
      KERNEL_REG_UNLOCK_def Let_def)

lemma flag_restored:
  assumes "(x :: 'a :: len word) AND f = 0"
  shows "(x OR f) AND NOT f = x"
proof (rule bit_word_eqI)
  fix n assume "n < LENGTH('a)"
  then show "bit ((x OR f) AND NOT f) n = bit x n"
    using arg_cong [OF assms, of "\<lambda>w. bit w n"] by (auto simp: bit_simps)
qed

lemma KCoreKernelModeExit_ok: "kernel_ok s \<Longrightarrow> \<exists>n. KCoreKernelModeExit (kernel_enter s) = Some (n, s)"
  using U8_plus1_nonzero [of "kr_kernel_mode_nest_counter (KernelReg s)"] U8_plus1_pos [of "kr_kernel_mode_nest_counter (KernelReg s)"]
  by (cases s, cases "KernelReg s")
     (auto simp: KCoreKernelModeExit_def kernel_ok_def kernel_enter_def KCoreFlagClear_def KERNEL_REG_LOCK_def
       KERNEL_REG_UNLOCK_def KCoreFlagGet_def Let_def flag_restored split: if_splits)

subsection \<open>Allocating and freeing\<close>

text \<open>The kernel may work on the object pool, whose segments are \<open>xs\<close>.\<close>

definition object_pool :: "'a mem_state_scheme \<Rightarrow> seg list \<Rightarrow> bool" where
  "object_pool s xs \<longleftrightarrow> pool_ok s (ObjectPoolId s) xs \<and> crit_ok s \<and> kr_crit_sect_nest_counter (KernelReg s) < 254 \<and> kernel_ok s"

lemma fits_free: "fits n as xs \<Longrightarrow> n \<le> free_blocks xs"
  by (auto simp: fits_def)

lemma blocks_for_word_le: "unat (n :: U32_t) \<le> 16 * blocks_for (unat n) - 4"
  by (rule blocks_for_pos)

lemma KMemAllocObject_eq:
  assumes "object_pool s xs" and "n \<noteq> 0"
  shows "(\<exists>as. fits (blocks_for (unat n)) as xs \<and> (\<forall>as'. fits (blocks_for (unat n)) as' xs \<longrightarrow> length as \<le> length as')
       \<and> KMemAllocObject n 0 d s = Some ((HeapBase s + (pool_start s (ObjectPoolId s) + segs_len as + 4), d),
           alloc_state (ObjectPoolId s) (pool_start s (ObjectPoolId s) + segs_len as) (blocks_for (unat n)) s))
     \<or> ((\<forall>as. \<not> fits (blocks_for (unat n)) as xs) \<and> KMemAllocObject n 0 d s = None)"
proof -
  let ?pid = "ObjectPoolId s" and ?u = "kernel_enter (crit_enter s)" and ?b = "blocks_for (unat n)"
  have p: "pool_ok s ?pid xs" and c: "crit_ok s" and c1: "crit_ok (crit_enter s)" and k: "kernel_ok s"
    using assms(1) crit_ok_enter [of s] by (auto simp: object_pool_def crit_ok_def)
  have acc: "mem_access ?u ?pid" using kernel_enter_mode [of "crit_enter s"] k by (simp add: mem_access_def)
  have at: "unat ?pid < length (PoolTable s)" "\<not> TotalHeapPools s \<le> ?pid"
    "unat (mem_left (PoolTable s ! unat ?pid)) = 16 * free_blocks xs" "HeapBase s > 0"
    using p by (auto simp: pool_ok_def Let_def)
  obtain a where enter: "KCoreKernelModeEnter (crit_enter s) = Some (a, ?u)"
    using KCoreKernelModeEnter_ok [of "crit_enter s"] k by auto
  have free: "MemPoolFreeSpaceGet ?pid ?u = Some (mem_left (PoolTable s ! unat ?pid), ?u)"
    using at c1 by (simp add: MemPoolFreeSpaceGet_def Pool_at_def kcore)
  have MA: "(\<exists>as. fits ?b as xs \<and> (\<forall>as'. fits ?b as' xs \<longrightarrow> length as \<le> length as') \<and>
       MemAlloc ?pid n ?u = Some (HeapBase s + (pool_start s ?pid + segs_len as + 4),
         kernel_enter (crit_enter (alloc_state ?pid (pool_start s ?pid + segs_len as) ?b s)))) \<or>
     ((\<forall>as. \<not> fits ?b as xs) \<and> MemAlloc ?pid n ?u = Some (NULL, ?u))"
    using MemAlloc_eq [of ?u ?pid xs n] p c1 acc assms(2) by simp
  show ?thesis
  proof (cases "\<exists>as. fits ?b as xs")
    case True
    then have "?b \<le> free_blocks xs" using fits_free by blast
    then have space: "\<not> mem_left (PoolTable s ! unat ?pid) < n"
      using blocks_for_word_le [of n] at(3) unfolding word_less_nat_alt by linarith
    obtain as where as: "fits ?b as xs" "\<forall>as'. fits ?b as' xs \<longrightarrow> length as \<le> length as'"
      "MemAlloc ?pid n ?u = Some (HeapBase s + (pool_start s ?pid + segs_len as + 4),
         kernel_enter (crit_enter (alloc_state ?pid (pool_start s ?pid + segs_len as) ?b s)))"
      using MA True by blast
    obtain b where exit: "KCoreKernelModeExit (kernel_enter (crit_enter (alloc_state ?pid (pool_start s ?pid + segs_len as) ?b s)))
        = Some (b, crit_enter (alloc_state ?pid (pool_start s ?pid + segs_len as) ?b s))"
      using KCoreKernelModeExit_ok [of "crit_enter (alloc_state ?pid (pool_start s ?pid + segs_len as) ?b s)"] k by auto
    have "HeapBase s + (pool_start s ?pid + segs_len as + 4) \<noteq> NULL" using at(4) by simp
    then have "KMemAllocObject n 0 d s = Some ((HeapBase s + (pool_start s ?pid + segs_len as + 4), d),
        alloc_state ?pid (pool_start s ?pid + segs_len as) ?b s)"
      using c enter free space as(3) exit by (simp add: KMemAllocObject_def kcore)
    with as show ?thesis by blast
  next
    case False
    then have "KMemAllocObject n 0 d s = None"
      using MA c enter free by (auto simp: KMemAllocObject_def kcore)
    with False show ?thesis by blast
  qed
qed

text \<open>The object goes into the first gap for it, and its data into the first gap that is left.\<close>

definition object_places :: "seg list \<Rightarrow> nat \<Rightarrow> nat \<Rightarrow> seg list \<Rightarrow> seg list \<Rightarrow> bool" where
  "object_places xs b c as cs \<longleftrightarrow> (\<exists>bs. xs = as @ replicate b Free @ bs \<and> (\<forall>as'. fits b as' xs \<longrightarrow> length as \<le> length as') \<and>
     fits c cs (as @ Used b # bs) \<and> (\<forall>cs'. fits c cs' (as @ Used b # bs) \<longrightarrow> length cs \<le> length cs'))"

lemma object_places_exist:
  assumes "fits b as xs" "\<forall>as'. fits b as' xs \<longrightarrow> length as \<le> length as'"
  obtains bs where "xs = as @ replicate b Free @ bs"
    "(\<exists>as cs. object_places xs b c as cs) \<longleftrightarrow> (\<exists>cs. fits c cs (as @ Used b # bs))"
proof -
  obtain bs where bs: "xs = as @ replicate b Free @ bs" using assms(1) by (auto simp: fits_def)
  have "\<exists>cs. object_places xs b c as cs" if ex: "\<exists>cs. fits c cs (as @ Used b # bs)"
  proof -
    obtain cs where "fits c cs (as @ Used b # bs)" "\<forall>cs'. fits c cs' (as @ Used b # bs) \<longrightarrow> length cs \<le> length cs'"
      using ex_has_least_nat [of "\<lambda>cs. fits c cs (as @ Used b # bs)" _ length] ex by blast
    then show ?thesis unfolding object_places_def using bs assms(2) by blast
  qed
  moreover have "\<exists>cs. fits c cs (as @ Used b # bs)" if pl: "object_places xs b c as' cs" for as' cs
  proof -
    obtain bs' where bs': "xs = as' @ replicate b Free @ bs'" "\<forall>as. fits b as xs \<longrightarrow> length as' \<le> length as"
      "fits c cs (as' @ Used b # bs')" using pl unfolding object_places_def by blast
    then have "fits b as' xs" by (auto simp: fits_def)
    then have "length as' = length as" using assms bs'(2) by (simp add: le_antisym)
    then have "as' = as" "bs' = bs" using bs bs'(1) by simp_all
    then show ?thesis using bs'(3) by blast
  qed
  ultimately show thesis using that [OF bs] by blast
qed

text \<open>The two blocks lie apart.\<close>

lemma fits_beside:
  assumes "fits c cs (as @ Used b # bs)"
  shows "segs_len cs + 16 * c \<le> segs_len as \<or> segs_len as + 16 * b \<le> segs_len cs \<or> c = 0"
proof -
  obtain ds where "as @ Used b # bs = cs @ replicate c Free @ ds" using assms by (auto simp: fits_def)
  then consider us where "as = cs @ us" "us @ Used b # bs = replicate c Free @ ds" | us where "cs = as @ us" "Used b # bs = us @ replicate c Free @ ds"
    by (auto simp: append_eq_append_conv2)
  then show ?thesis
  proof cases
    case 1
    have "c \<le> length us"
    proof (rule ccontr)
      assume "\<not> c \<le> length us"
      then have "(replicate c Free @ ds) ! length us = Free" by (simp add: nth_append)
      moreover have "(us @ Used b # bs) ! length us = Used b" by simp
      ultimately show False using 1(2) by simp
    qed
    then have "take c us = take c (us @ Used b # bs)" by simp
    also have "\<dots> = replicate c Free" using 1(2) by simp
    finally have "us = replicate c Free @ drop c us" by (metis append_take_drop_id)
    then have "segs_len us = 16 * c + segs_len (drop c us)" by (metis segs_len_simps(3,4))
    then show ?thesis using 1(1) by simp
  next
    case 2
    then show ?thesis by (cases us; cases c) auto
  qed
qed

lemma KMemAllocObject_data_eq:
  assumes pool: "object_pool s xs" and n: "n \<noteq> 0" and k: "k \<noteq> 0"
  defines "pid \<equiv> ObjectPoolId s" and "b \<equiv> blocks_for (unat n)" and "c \<equiv> blocks_for (unat k)"
  shows "(\<exists>as cs. object_places xs b c as cs \<and> KMemAllocObject n k (Some d) s =
      Some ((HeapBase s + (pool_start s pid + segs_len as + 4), Some (HeapBase s + (pool_start s pid + segs_len cs + 4))),
        alloc_state pid (pool_start s pid + segs_len cs) c (alloc_state pid (pool_start s pid + segs_len as) b s)))
    \<or> ((\<forall>as cs. \<not> object_places xs b c as cs) \<and> KMemAllocObject n k (Some d) s = None)"
    and "KMemAllocObject n k None s = None"
proof -
  let ?u = "\<lambda>s. kernel_enter (crit_enter s)"
  have p: "pool_ok s pid xs" and cr: "crit_ok s" "crit_ok (crit_enter s)" and ko: "kernel_ok s"
    using pool crit_ok_enter [of s] by (auto simp: object_pool_def crit_ok_def pid_def)
  have acc: "mem_access (?u s) pid" using kernel_enter_mode [of "crit_enter s"] ko by (simp add: mem_access_def)
  have at: "unat pid < length (PoolTable s)" "\<not> TotalHeapPools s \<le> pid" "unat (mem_left (PoolTable s ! unat pid)) = 16 * free_blocks xs" "HeapBase s > 0"
    using p by (auto simp: pool_ok_def Let_def)
  obtain m where enter: "KCoreKernelModeEnter (crit_enter s) = Some (m, ?u s)" using KCoreKernelModeEnter_ok [of "crit_enter s"] ko by auto
  have free: "MemPoolFreeSpaceGet pid (?u s) = Some (mem_left (PoolTable s ! unat pid), ?u s)"
    using at cr by (simp add: MemPoolFreeSpaceGet_def Pool_at_def kcore)
  note start = cr(1) enter free pid_def
  have MA: "(\<exists>as. fits b as xs \<and> (\<forall>as'. fits b as' xs \<longrightarrow> length as \<le> length as') \<and>
       MemAlloc pid n (?u s) = Some (HeapBase s + (pool_start s pid + segs_len as + 4), ?u (alloc_state pid (pool_start s pid + segs_len as) b s))) \<or>
     ((\<forall>as. \<not> fits b as xs) \<and> MemAlloc pid n (?u s) = Some (NULL, ?u s))"
    using MemAlloc_eq [of "?u s" pid xs n] p cr acc n by (simp add: b_def)
  have none: "KMemAllocObject n k e s = None" if "\<forall>as. \<not> fits b as xs" for e
    using MA that start by (auto simp: KMemAllocObject_def kcore)
  show "KMemAllocObject n k None s = None" using MA start k by (auto simp: KMemAllocObject_def kcore)
  show "(\<exists>as cs. object_places xs b c as cs \<and> KMemAllocObject n k (Some d) s =
      Some ((HeapBase s + (pool_start s pid + segs_len as + 4), Some (HeapBase s + (pool_start s pid + segs_len cs + 4))),
        alloc_state pid (pool_start s pid + segs_len cs) c (alloc_state pid (pool_start s pid + segs_len as) b s)))
    \<or> ((\<forall>as cs. \<not> object_places xs b c as cs) \<and> KMemAllocObject n k (Some d) s = None)"
  proof (cases "\<exists>as. fits b as xs")
    case False
    then have "\<forall>as cs. \<not> object_places xs b c as cs" by (auto simp: object_places_def fits_def)
    then show ?thesis using none False by blast
  next
    case True
    then obtain as where as: "fits b as xs" "\<forall>as'. fits b as' xs \<longrightarrow> length as \<le> length as'"
      "MemAlloc pid n (?u s) = Some (HeapBase s + (pool_start s pid + segs_len as + 4), ?u (alloc_state pid (pool_start s pid + segs_len as) b s))"
      using MA by blast
    obtain bs where bs: "xs = as @ replicate b Free @ bs" "(\<exists>as cs. object_places xs b c as cs) \<longleftrightarrow> (\<exists>cs. fits c cs (as @ Used b # bs))"
      by (rule object_places_exist [OF as(1,2)])
    let ?t = "alloc_state pid (pool_start s pid + segs_len as) b s"
    have p2: "pool_ok ?t pid (as @ Used b # bs)" using pool_ok_alloc [of s pid as b bs] p bs(1) blocks_for_pos(1) by (simp add: b_def)
    have MA2: "(\<exists>cs. fits c cs (as @ Used b # bs) \<and> (\<forall>cs'. fits c cs' (as @ Used b # bs) \<longrightarrow> length cs \<le> length cs') \<and>
         MemAlloc pid k (?u ?t) = Some (HeapBase s + (pool_start s pid + segs_len cs + 4), ?u (alloc_state pid (pool_start s pid + segs_len cs) c ?t))) \<or>
       ((\<forall>cs. \<not> fits c cs (as @ Used b # bs)) \<and> MemAlloc pid k (?u ?t) = Some (NULL, ?u ?t))"
    proof -
      have "crit_ok (alloc_state pid (pool_start s pid + segs_len as) b (crit_enter s))" using cr(2) by (simp only: crit_ok_alloc_state)
      then have "crit_ok (?u ?t)" by simp
      moreover have "KCoreFlagGet CORE_FLAG_KERNEL_MODE (?u ?t) \<noteq> 0" using kernel_enter_mode [of "crit_enter ?t"] ko by simp
      then have "mem_access (?u ?t) pid" unfolding mem_access_def by blast
      ultimately show ?thesis using MemAlloc_eq [of "?u ?t" pid "as @ Used b # bs" k] p2 cr k at(1) by (simp add: c_def)
    qed
    have ne: "HeapBase s + (pool_start s pid + segs_len as + 4) \<noteq> NULL" by simp
    show ?thesis
    proof (cases "\<exists>cs. fits c cs (as @ Used b # bs)")
      case False
      then have "MemAlloc pid k (?u ?t) = Some (NULL, ?u ?t)" using MA2 by blast
      then have "KMemAllocObject n k (Some d) s = None" using start as(3) k by (auto simp: KMemAllocObject_def kcore)
      then show ?thesis using False bs(2) by blast
    next
      case True
      then obtain cs where cs: "fits c cs (as @ Used b # bs)" "\<forall>cs'. fits c cs' (as @ Used b # bs) \<longrightarrow> length cs \<le> length cs'"
        "MemAlloc pid k (?u ?t) = Some (HeapBase s + (pool_start s pid + segs_len cs + 4), ?u (alloc_state pid (pool_start s pid + segs_len cs) c ?t))"
        using MA2 by blast
      have "b + c \<le> free_blocks xs" using fits_free [OF cs(1)] bs(1) by simp
      moreover have "unat (n + k) \<le> unat n + unat k" by (simp add: unat_word_ariths)
      ultimately have space: "\<not> mem_left (PoolTable s ! unat pid) < n + k"
        using blocks_for_word_le [of n] blocks_for_word_le [of k] at(3) unfolding word_less_nat_alt b_def c_def by linarith
      let ?v = "alloc_state pid (pool_start s pid + segs_len cs) c ?t"
      obtain e where "KCoreKernelModeExit (?u ?v) = Some (e, crit_enter ?v)" using KCoreKernelModeExit_ok [of "crit_enter ?v"] ko by auto
      then have "KMemAllocObject n k (Some d) s = Some ((HeapBase s + (pool_start s pid + segs_len as + 4),
          Some (HeapBase s + (pool_start s pid + segs_len cs + 4))), ?v)"
        using start space as(3) cs(3) k by (simp add: KMemAllocObject_def kcore)
      moreover have "object_places xs b c as cs" unfolding object_places_def using bs(1) as(2) cs(1,2) by blast
      ultimately show ?thesis by blast
    qed
  qed
qed

text \<open>
  C17. Creating a kernel object, with or without a block of data of its own. Without data, the call returns exactly when the object
  pool has a gap that is large enough. With data it returns exactly when the caller gives a place for the pointer and, once the object
  has taken the first gap for it, there is a gap for the data as well; the two blocks then lie apart. In all other
  cases the call does not come back: the code ends in an endless loop before it returns the null pointer that its callers check.
\<close>

theorem KMemAllocObject_returns_iff:
  assumes "object_pool s xs" and "n \<noteq> 0"
  shows "(KMemAllocObject n k d s \<noteq> None \<longleftrightarrow>
      (if k = 0 then \<exists>as. fits (blocks_for (unat n)) as xs
       else d \<noteq> None \<and> (\<exists>as cs. object_places xs (blocks_for (unat n)) (blocks_for (unat k)) as cs))) \<and>
    (\<forall>p d' t. KMemAllocObject n k d s = Some ((p, d'), t) \<longrightarrow> p \<noteq> NULL \<and>
      (if k = 0 then d' = d else \<exists>q. d' = Some q \<and> q \<noteq> NULL \<and> (p + unat n + 4 \<le> q \<or> q + unat k + 4 \<le> p)))"
proof (cases "k = 0")
  case True
  then show ?thesis using KMemAllocObject_eq [OF assms, of d] by auto
next
  case False
  show ?thesis
  proof (cases d)
    case None
    then show ?thesis using KMemAllocObject_data_eq(2) [OF assms False] False by simp
  next
    case (Some e)
    from KMemAllocObject_data_eq(1) [OF assms False, of e] show ?thesis
    proof (elim disjE exE conjE)
      fix as cs assume pl: "object_places xs (blocks_for (unat n)) (blocks_for (unat k)) as cs"
        and eq: "KMemAllocObject n k (Some e) s = Some ((HeapBase s + (pool_start s (ObjectPoolId s) + segs_len as + 4),
          Some (HeapBase s + (pool_start s (ObjectPoolId s) + segs_len cs + 4))),
          alloc_state (ObjectPoolId s) (pool_start s (ObjectPoolId s) + segs_len cs) (blocks_for (unat k))
            (alloc_state (ObjectPoolId s) (pool_start s (ObjectPoolId s) + segs_len as) (blocks_for (unat n)) s))"
      have "segs_len cs + 16 * blocks_for (unat k) \<le> segs_len as \<or> segs_len as + 16 * blocks_for (unat n) \<le> segs_len cs"
        using pl fits_beside blocks_for_pos(1) [of "unat k"] unfolding object_places_def by fastforce
      then have "HeapBase s + (pool_start s (ObjectPoolId s) + segs_len as + 4) + unat n + 4 \<le> HeapBase s + (pool_start s (ObjectPoolId s) + segs_len cs + 4) \<or>
          HeapBase s + (pool_start s (ObjectPoolId s) + segs_len cs + 4) + unat k + 4 \<le> HeapBase s + (pool_start s (ObjectPoolId s) + segs_len as + 4)"
        using blocks_for_pos(1,2) [of "unat k"] blocks_for_pos(1,2) [of "unat n"] by linarith
      then show ?thesis using pl eq Some False by auto
    qed (use Some False in auto)
  qed
qed

theorem KMemAllocObject_returns_iff_witness:
  "KMemAllocObject 8 0 None small_heap \<noteq> None \<and> KMemAllocObject 40 0 None small_heap = None \<and>
   KMemAllocObject 8 8 (Some NULL) small_heap = None"
proof -
  have "object_pool small_heap [Free]"
    using small_pool_ok small_heap_ok(2)
    by (simp add: object_pool_def kernel_ok_def small_heap_def mem_bss_def core_bss_def KCoreFlagGet_def mem_state.defs)
  note T = KMemAllocObject_returns_iff [OF this]
  have "fits (blocks_for 8) [] [Free]" by (simp add: fits_def blocks_for_def)
  moreover have "\<not> fits (blocks_for 40) as [Free]" for as
    using fits_free [of "blocks_for 40" as "[Free]"] by (auto simp: blocks_for_def)
  moreover have "\<not> object_places [Free] (blocks_for 8) (blocks_for 8) as cs" for as cs
  proof
    assume "object_places [Free] (blocks_for 8) (blocks_for 8) as cs"
    moreover have "blocks_for 8 = 1" by (simp add: blocks_for_def)
    ultimately obtain bs where x: "[Free] = as @ replicate 1 Free @ bs" "fits 1 cs (as @ Used 1 # bs)" unfolding object_places_def by auto
    have "length as + length bs = 0" using arg_cong [OF x(1), of length] by simp
    then have "fits 1 cs [Used 1]" using x(2) by simp
    from fits_free [OF this] show False by simp
  qed
  ultimately have ex: "\<exists>as. fits (blocks_for (unat (8 :: U32_t))) as [Free]" "\<not> (\<exists>as. fits (blocks_for (unat (40 :: U32_t))) as [Free])"
    "\<not> (\<exists>as cs. object_places [Free] (blocks_for (unat (8 :: U32_t))) (blocks_for (unat (8 :: U32_t))) as cs)" by auto
  have "(8 :: U32_t) \<noteq> 0" "(40 :: U32_t) \<noteq> 0" by simp_all
  note T8 = T [OF this(1)] and T40 = T [OF this(2)]
  have "KMemAllocObject 8 0 None small_heap \<noteq> None" using conjunct1 [OF T8 [of 0 None]] ex(1) unfolding if_P [OF refl] by blast
  moreover have "KMemAllocObject 40 0 None small_heap = None" using conjunct1 [OF T40 [of 0 None]] ex(2) unfolding if_P [OF refl] by blast
  moreover have "KMemAllocObject 8 8 (Some NULL) small_heap = None"
    using conjunct1 [OF T8 [of 8 "Some NULL"]] ex(3) unfolding if_not_P [OF \<open>(8 :: U32_t) \<noteq> 0\<close>] by blast
  ultimately show ?thesis by blast
qed

subsection \<open>The object store\<close>

text \<open>A pool with \<open>m\<close> adjacent free blocks somewhere.\<close>

definition roomy :: "nat \<Rightarrow> seg list \<Rightarrow> bool" where
  "roomy m xs \<longleftrightarrow> (\<exists>ys zs. xs = ys @ replicate m Free @ zs)"

lemma roomy_le: "roomy m xs \<Longrightarrow> k \<le> m \<Longrightarrow> roomy k xs"
  by (auto simp: roomy_def) (metis append_assoc le_add_diff_inverse replicate_add)

lemma roomy_append: "roomy m ys \<Longrightarrow> roomy m (xs @ ys @ zs)"
  unfolding roomy_def by (metis append_assoc)

text \<open>First fit takes at most the first blocks of the room.\<close>

lemma roomy_first_fit:
  assumes room: "roomy m xs" "b \<le> m" and xs: "xs = as @ replicate b Free @ bs"
    and least: "\<forall>as'. fits b as' xs \<longrightarrow> length as \<le> length as'"
  shows "roomy (m - b) bs"
proof -
  obtain ys zs where ys: "xs = ys @ replicate m Free @ zs" using room(1) by (auto simp: roomy_def)
  have "fits b ys xs" using ys room(2) by (auto simp: fits_def) (metis append_assoc le_add_diff_inverse replicate_add)
  then have le: "length as \<le> length ys" using least by blast
  have bs: "bs = drop (length as + b) (ys @ replicate m Free @ zs)" using xs ys by simp
  show ?thesis
  proof (cases "length as + b \<le> length ys")
    case True
    then have "bs = drop (length as + b) ys @ replicate m Free @ zs" using bs by simp
    then have "roomy m bs" by (auto simp: roomy_def)
    then show ?thesis by (rule roomy_le) simp
  next
    case False
    then have "length as + b - length ys - m = 0" "length as + b - length ys \<le> b" using le room(2) by auto
    then have "bs = [] @ replicate (m - (length as + b - length ys)) Free @ zs" using bs False by simp
    then have "roomy (m - (length as + b - length ys)) bs" unfolding roomy_def by blast
    then show ?thesis by (rule roomy_le) (use le in auto)
  qed
qed

lemma roomy_free:
  assumes "roomy m (as @ Used k # bs)"
  shows "roomy m (as @ replicate k Free @ bs)"
proof -
  obtain ys zs where ys: "as @ Used k # bs = ys @ replicate m Free @ zs" using assms by (auto simp: roomy_def)
  consider us where "as = ys @ us" "us @ Used k # bs = replicate m Free @ zs"
    | us where "as @ us = ys" "Used k # bs = us @ replicate m Free @ zs"
    using ys by (auto simp: append_eq_append_conv2)
  then show ?thesis
  proof cases
    case 1
    then consider vs where "us = replicate m Free @ vs" | vs where "us @ vs = replicate m Free" "Used k # bs = vs @ zs"
      by (auto simp: append_eq_append_conv2)
    then show ?thesis
    proof cases
      case 1
      then show ?thesis using \<open>as = ys @ us\<close> by (auto simp: roomy_def)
    next
      case 2
      have "Used k \<notin> set vs" using arg_cong [OF 2(1), of set] by (auto split: if_splits)
      then have "vs = []" using 2(2) by (cases vs) auto
      then have "as = ys @ replicate m Free" using 2 \<open>as = ys @ us\<close> by simp
      then show ?thesis by (auto simp: roomy_def)
    qed
  next
    case 2
    then show ?thesis
    proof (cases us)
      case Nil
      then show ?thesis using 2 by (cases m) (auto simp: roomy_def)
    next
      case (Cons u us')
      then have "bs = us' @ replicate m Free @ zs" using 2 by simp
      then show ?thesis unfolding roomy_def by (metis append_assoc)
    qed
  qed
qed

text \<open>
  How many blocks of three, the size of an event and of a message, the gaps can take; \<open>f\<close> free blocks have been seen before. First
  fit never lays such a block across the rest of a gap, so an allocation costs one of them and a release gives one back.
\<close>

fun slots :: "nat \<Rightarrow> seg list \<Rightarrow> nat" where
  "slots f [] = f div 3"
| "slots f (Free # xs) = slots (Suc f) xs"
| "slots f (Used k # xs) = f div 3 + slots 0 xs"

lemma slots_frees: "slots f (replicate n Free @ xs) = slots (f + n) xs"
proof (induction n arbitrary: f)
  case (Suc n)
  show ?case using Suc [of "Suc f"] by simp
qed simp

lemma slots_used: "slots f (xs @ Used k # bs) = slots f xs + slots 0 bs"
  by (induction f xs rule: slots.induct) auto

lemma slots_add3: "slots (f + 3) xs = Suc (slots f xs)"
proof (induction f xs rule: slots.induct)
  case (2 f xs)
  then show ?case by (simp del: add_Suc_shift)
qed simp_all

lemma div3_add: "f div 3 + g div 3 \<le> (f + g) div (3 :: nat)"
  by presburger

lemma slots_part: "f div 3 + slots g xs \<le> slots (f + g) xs"
proof (induction xs arbitrary: g)
  case Nil
  show ?case using div3_add by simp
next
  case (Cons x xs)
  show ?case
  proof (cases x)
    case Free
    then show ?thesis using Cons.IH [of "Suc g"] by simp
  next
    case (Used k)
    then show ?thesis using div3_add [of f g] by simp
  qed
qed

lemma slots_join: "slots f xs + slots 0 ys \<le> slots f (xs @ ys)"
proof (induction f xs rule: slots.induct)
  case (1 f)
  then show ?case using slots_part [of f 0 ys] by simp
qed auto

lemma slots_fits: "0 < slots f xs \<Longrightarrow> f < 3 \<Longrightarrow> \<exists>as. fits 3 as (replicate f Free @ xs)"
proof (induction f xs rule: slots.induct)
  case (2 f xs)
  have r: "replicate f Free @ Free # xs = replicate (Suc f) Free @ xs" by (simp add: replicate_app_Cons_same)
  show ?case
  proof (cases "Suc f < 3")
    case True
    then show ?thesis using 2 unfolding r by simp
  next
    case False
    then have "Suc f = 3" using 2 by simp
    then have "fits 3 [] (replicate (Suc f) Free @ xs)" by (simp add: fits_def)
    then show ?thesis unfolding r by blast
  qed
next
  case (3 f k xs)
  then obtain as where "fits 3 as xs" by auto
  then have "fits 3 (replicate f Free @ Used k # as) (replicate f Free @ Used k # xs)" by (auto simp: fits_def)
  then show ?case by blast
qed simp

lemma slots_alloc:
  assumes xs: "xs = as @ replicate 3 Free @ bs" and least: "\<forall>as'. fits 3 as' xs \<longrightarrow> length as \<le> length as'"
  shows "slots 0 xs = Suc (slots 0 (as @ Used k # bs))"
proof (cases as rule: rev_exhaust)
  case Nil
  then show ?thesis using xs slots_add3 [of 0 bs] by (simp add: slots_frees)
next
  case (snoc ps p)
  show ?thesis
  proof (cases p)
    case Free
    have "xs = ps @ replicate 3 Free @ Free # bs" using xs snoc Free by (simp add: replicate_app_Cons_same)
    then have "fits 3 ps xs" by (auto simp: fits_def)
    then have "length as \<le> length ps" using least by blast
    then show ?thesis using snoc by simp
  next
    case (Used m)
    then show ?thesis
      using xs snoc slots_used [of 0 ps m "replicate 3 Free @ bs"] slots_used [of 0 ps m "Used k # bs"] slots_add3 [of 0 bs]
      by (simp add: slots_frees)
  qed
qed

lemma slots_free: "slots 0 (as @ Used k # bs) + k div 3 \<le> slots 0 (as @ replicate k Free @ bs)"
  using slots_join [of 0 as "replicate k Free @ bs"] slots_part [of k 0 bs] by (simp add: slots_used slots_frees)

definition object_slots :: "'a mem_state_scheme \<Rightarrow> nat \<Rightarrow> bool" where
  "object_slots s n \<longleftrightarrow> (\<exists>xs. pool_ok s (ObjectPoolId s) xs \<and> n \<le> slots 0 xs)"

lemma object_slots_le: "object_slots s n \<Longrightarrow> m \<le> n \<Longrightarrow> object_slots s m"
  unfolding object_slots_def by (meson order_trans)

text \<open>The live objects stay, with their contents.\<close>

definition objects_kept :: "'a mem_state_scheme \<Rightarrow> 'a mem_state_scheme \<Rightarrow> bool" where
  "objects_kept s t \<longleftrightarrow> ObjectPoolId t = ObjectPoolId s \<and>
     (\<forall>q k. (q, k) \<in> pool_live (ObjectPoolId s) s \<longrightarrow>
       (q, k) \<in> pool_live (ObjectPoolId s) t \<and> (\<forall>j < k. heap_peek t (q + j) = heap_peek s (q + j)))"

lemma objects_kept_refl [simp]: "objects_kept s s"
  by (simp add: objects_kept_def)

lemma objects_kept_trans: "objects_kept s t \<Longrightarrow> objects_kept t u \<Longrightarrow> objects_kept s u"
  unfolding objects_kept_def by metis

text \<open>
  What a kernel module needs of the object pool: the heap is well formed, and there is room for \<open>m\<close> more blocks. The
  objects are the addresses of the blocks in use.
\<close>

definition objects_ok :: "'a mem_state_scheme \<Rightarrow> nat \<Rightarrow> bool" where
  "objects_ok s m \<longleftrightarrow> (\<exists>B. mem_wf s B \<and> roomy m (B (unat (ObjectPoolId s)))) \<and> pool_used s (unat (ObjectPoolId s)) \<and>
     crit_ok s \<and> kr_crit_sect_nest_counter (KernelReg s) < 254 \<and> kernel_ok s"

definition objects :: "'a mem_state_scheme \<Rightarrow> ptr set" where
  "objects s = fst ` pool_live (ObjectPoolId s) s"

text \<open>Only the heap and the pool table change.\<close>

definition heap_frame :: "'a mem_state_scheme \<Rightarrow> 'a mem_state_scheme \<Rightarrow> bool" where
  "heap_frame s t \<longleftrightarrow> t = s\<lparr>OsHeap := OsHeap t, PoolTable := PoolTable t\<rparr>"

lemma heap_frame_states [simp]: "heap_frame s (alloc_state pid i n s)" "heap_frame s (free_state pid i n s)"
  by (simp_all add: heap_frame_def alloc_state_def free_state_def Pool_update_def)

lemma pool_live_word: "(p, k) \<in> pool_live pid s \<Longrightarrow> unat (heap_get32 (OsHeap s) (p - 4 - HeapBase s)) = k + 4"
  by (auto simp: pool_live_def pool_ok_def Let_def layout_append)

lemma pool_live_address: "(p, k) \<in> pool_live pid s \<Longrightarrow> (p, m) \<in> pool_live pid s \<Longrightarrow> m = k"
  using pool_live_word [of p k pid s] pool_live_word [of p m pid s] by simp

lemma objects_ok_pool:
  assumes "objects_ok s m"
  shows "pool_inv (ObjectPoolId s) (kernel_enter (crit_enter s))" "pool_inv (ObjectPoolId s) (kernel_enter s)"
proof -
  have "crit_ok (crit_enter s)" using assms crit_ok_enter [of s] by (auto simp: objects_ok_def crit_ok_def)
  moreover have "mem_access (kernel_enter (crit_enter s)) pid" "mem_access (kernel_enter s) pid" for pid
    using kernel_enter_mode [of "crit_enter s"] kernel_enter_mode [of s] assms by (auto simp: objects_ok_def mem_access_def)
  ultimately show "pool_inv (ObjectPoolId s) (kernel_enter (crit_enter s))" "pool_inv (ObjectPoolId s) (kernel_enter s)"
    using assms by (auto simp: objects_ok_def pool_inv_def mem_wf_def)
qed

lemma pool_live_enter [simp]: "pool_live pid (kernel_enter s) = pool_live pid s" "pool_live pid (crit_enter s) = pool_live pid s"
  by (simp_all add: pool_live_def)

lemma objects_ok_slots:
  assumes "objects_ok s 0" and "object_slots s (Suc m)"
  shows "objects_ok s 3"
proof -
  obtain B where B: "mem_wf s B" "pool_used s (unat (ObjectPoolId s))" using assms(1) by (auto simp: objects_ok_def)
  obtain xs where "pool_ok s (ObjectPoolId s) xs" "0 < slots 0 xs" using assms(2) by (auto simp: object_slots_def)
  then have "0 < slots 0 (B (unat (ObjectPoolId s)))" using pool_ok_unique [OF _ mem_wf_pool [OF B]] by metis
  then have "roomy 3 (B (unat (ObjectPoolId s)))" using slots_fits [of 0 "B (unat (ObjectPoolId s))"] by (auto simp: roomy_def fits_def)
  then show ?thesis using assms(1) B(1) by (auto simp: objects_ok_def)
qed

lemma KMemAllocObject_ok:
  assumes ok: "objects_ok s m" and n: "n \<noteq> 0" "blocks_for (unat n) \<le> m"
  shows "\<exists>p t. KMemAllocObject n 0 d s = Some ((p, d), t) \<and> p \<noteq> NULL \<and> p \<notin> objects s \<and> objects t = insert p (objects s) \<and>
    objects_ok t (m - blocks_for (unat n)) \<and> heap_frame s t \<and> objects_kept s t \<and>
    (p, 16 * blocks_for (unat n) - 4) \<in> pool_live (ObjectPoolId s) t \<and>
    (blocks_for (unat n) = 3 \<longrightarrow> (\<forall>k. object_slots s (Suc k) \<longrightarrow> object_slots t k))"
proof -
  let ?pid = "ObjectPoolId s" and ?b = "blocks_for (unat n)"
  obtain B where B: "mem_wf s B" "roomy m (B (unat ?pid))" "pool_used s (unat ?pid)" using ok by (auto simp: objects_ok_def)
  let ?xs = "B (unat ?pid)"
  have pool: "object_pool s ?xs" using ok mem_wf_pool [OF B(1,3)] by (simp add: object_pool_def objects_ok_def)
  have some: "\<exists>as. fits ?b as ?xs" using roomy_le [OF B(2) n(2)] by (auto simp: roomy_def fits_def)
  obtain as where as: "fits ?b as ?xs" "\<forall>as'. fits ?b as' ?xs \<longrightarrow> length as \<le> length as'"
    and eq: "KMemAllocObject n 0 d s = Some ((HeapBase s + (pool_start s ?pid + segs_len as + 4), d),
        alloc_state ?pid (pool_start s ?pid + segs_len as) ?b s)"
    using KMemAllocObject_eq [OF pool n(1), of d] some by blast
  let ?p = "HeapBase s + (pool_start s ?pid + segs_len as + 4)" and ?t = "alloc_state ?pid (pool_start s ?pid + segs_len as) ?b s"
  obtain bs where bs: "?xs = as @ replicate ?b Free @ bs" using as(1) by (auto simp: fits_def)
  have "roomy (m - ?b) bs" by (rule roomy_first_fit [OF B(2) n(2) bs as(2)])
  then have "roomy (m - ?b) (as @ Used ?b # bs)" using roomy_append [of "m - ?b" bs "as @ [Used ?b]" "[]"] by simp
  moreover have wf: "mem_wf ?t (B(unat ?pid := as @ Used ?b # bs))" by (rule mem_wf_alloc [OF B(1,3) bs blocks_for_pos(1)])
  moreover have "pool_used ?t (unat ?pid)"
    using B(3) mem_wf_pool [OF B(1,3)] by (auto simp: alloc_state_def Pool_update_def pool_ok_def Let_def)
  ultimately have t: "objects_ok ?t (m - ?b)"
    using ok unfolding objects_ok_def by (auto intro!: exI [of _ "B(unat ?pid := as @ Used ?b # bs)"])
  have okx: "pool_ok s ?pid (as @ replicate ?b Free @ bs)" "pool_ok ?t ?pid (as @ Used ?b # bs)"
    using mem_wf_pool [OF B(1,3)] mem_wf_pool [OF wf \<open>pool_used ?t (unat ?pid)\<close>] bs by simp_all
  have nz: "?p \<noteq> NULL" by simp
  have len: "unat ?pid < length (PoolTable s)" using okx(1) by (simp add: pool_ok_def Let_def)
  have live: "pool_live ?pid ?t = insert (?p, 16 * ?b - 4) (pool_live ?pid s)"
    unfolding pool_live_eq [OF okx(1)] pool_live_eq [OF okx(2)] by (simp add: live_segs_append len add.assoc)
  have "layout (OsHeap s) (pool_start s ?pid + segs_len as) (replicate ?b Free)"
    using okx(1) by (auto simp: pool_ok_def Let_def layout_append)
  then have "heap_get32 (OsHeap s) (pool_start s ?pid + segs_len as) = 0"
    using blocks_for_pos(1) [of "unat n"] by (intro heap_get32_zero) (auto simp: layout_frees)
  then have "?p \<notin> objects s" using pool_live_word [of ?p _ ?pid s] by (fastforce simp: objects_def)
  moreover have "objects_kept s ?t"
    unfolding objects_kept_def using live alloc_state_keeps [OF okx(1) blocks_for_pos(1)] by simp
  moreover have "object_slots ?t k" if b3: "?b = 3" and sl: "object_slots s (Suc k)" for k
  proof -
    obtain xs where "pool_ok s ?pid xs" "Suc k \<le> slots 0 xs" using sl by (auto simp: object_slots_def)
    then have "Suc k \<le> slots 0 ?xs" using pool_ok_unique [OF _ okx(1)] bs by simp
    then have "k \<le> slots 0 (as @ Used ?b # bs)"
      using slots_alloc [OF bs [unfolded b3] as(2) [unfolded b3], of 3] b3 by simp
    then show ?thesis unfolding object_slots_def using okx(2) by auto
  qed
  ultimately show ?thesis using eq nz t live by (intro exI [of _ ?p] exI [of _ ?t]) (simp add: objects_def)
qed

lemma KMemAllocObject_slot:
  assumes ok: "objects_ok s 0" and sl: "object_slots s (Suc m)" and n: "n \<noteq> 0" "blocks_for (unat n) = 3"
  shows "\<exists>p t. KMemAllocObject n 0 d s = Some ((p, d), t) \<and> p \<noteq> NULL \<and> p \<notin> objects s \<and> objects t = insert p (objects s) \<and>
    objects_ok t 0 \<and> heap_frame s t \<and> objects_kept s t \<and> (p, 44) \<in> pool_live (ObjectPoolId s) t \<and> object_slots t m"
  using KMemAllocObject_ok [OF objects_ok_slots [OF ok sl] n(1), of d] n(2) sl by auto

lemma fst_remove: "(\<And>m. (p, m) \<in> L \<Longrightarrow> m = k) \<Longrightarrow> fst ` (L - {(p, k)}) = fst ` L - {p}"
  by force

lemma KMemFreeObject_ok:
  assumes ok: "objects_ok s m" and p: "p \<in> objects s"
  shows "\<exists>t. KMemFreeObject (Some p) None s = Some ((OS_RES_OK, Some NULL, None), t) \<and> objects t = objects s - {p} \<and>
    objects_ok t m \<and> heap_frame s t \<and> ObjectPoolId t = ObjectPoolId s \<and>
    (\<forall>q l. (q, l) \<in> pool_live (ObjectPoolId s) s \<and> q \<noteq> p \<longrightarrow> (q, l) \<in> pool_live (ObjectPoolId s) t \<and> (\<forall>j < l. heap_peek t (q + j) = heap_peek s (q + j))) \<and>
    ((p, 44) \<in> pool_live (ObjectPoolId s) s \<longrightarrow> (\<forall>k. object_slots s k \<longrightarrow> object_slots t (Suc k)))"
proof -
  let ?pid = "ObjectPoolId s" and ?u = "kernel_enter s"
  obtain B where B: "mem_wf s B" "roomy m (B (unat ?pid))" "pool_used s (unat ?pid)" using ok by (auto simp: objects_ok_def)
  have Bu: "mem_wf ?u B" "pool_used ?u (unat ?pid)" using B by (simp_all add: mem_wf_def)
  obtain k where k: "(p, k) \<in> pool_live ?pid s" using p by (auto simp: objects_def)
  then obtain as j bs where okx: "pool_ok s ?pid (as @ Used j # bs)"
    and pk: "p = HeapBase s + (pool_start s ?pid + segs_len as + 4)" "k = 16 * j - 4" by (auto simp: pool_live_def)
  have Beq: "B (unat ?pid) = as @ Used j # bs" by (rule pool_ok_unique [OF mem_wf_pool [OF B(1,3)] okx])
  let ?t = "free_state ?pid (pool_start s ?pid + segs_len as) j s"
  note inv = objects_ok_pool(2) [OF ok]
  have crit: "crit_ok ?u" "mem_access ?u ?pid" "kernel_ok s" using inv ok by (auto simp: pool_inv_def objects_ok_def)
  have free: "MemFree (Some p) ?u = Some ((OS_RES_OK, Some NULL), kernel_enter ?t)"
    using MemFree_eq [OF Bu Beq crit(1,2) pool_inv_id [OF inv]] pk by simp
  obtain a b where mode: "KCoreKernelModeEnter s = Some (a, ?u)" "KCoreKernelModeExit (kernel_enter ?t) = Some (b, ?t)"
    using KCoreKernelModeEnter_ok [OF crit(3)] KCoreKernelModeExit_ok [of ?t] crit(3) by auto
  have eq: "KMemFreeObject (Some p) None s = Some ((OS_RES_OK, Some NULL, None), ?t)"
    using mode free by (simp add: KMemFreeObject_def MemFree_def [of None])
  have "MemRelease p ?u = Some (kernel_enter ?t)" using free by (simp add: MemRelease_def)
  then have rest: "pool_live ?pid ?t = pool_live ?pid s - {(p, k)}"
    using pool_release_law [OF inv, of p k] k by simp
  then have "objects ?t = objects s - {p}"
    using fst_remove [of p "pool_live ?pid s" k] pool_live_address [OF k] unfolding objects_def mem_state_fields by metis
  moreover have "mem_wf ?t (B(unat ?pid := as @ replicate j Free @ bs))" by (rule mem_wf_free [OF B(1,3) Beq])
  moreover have "roomy m (as @ replicate j Free @ bs)" using roomy_free B(2) Beq by simp
  moreover have "pool_used ?t (unat ?pid)"
    using B(3) okx by (auto simp: free_state_def Pool_update_def pool_ok_def Let_def)
  moreover have "crit_ok ?t \<and> kr_crit_sect_nest_counter (KernelReg ?t) < 254 \<and> kernel_ok ?t" using ok by (simp add: objects_ok_def)
  ultimately have "objects_ok ?t m"
    unfolding objects_ok_def mem_state_fields
    by (intro conjI exI [of _ "B(unat ?pid := as @ replicate j Free @ bs)"]) simp_all
  moreover have "(q, l) \<in> pool_live ?pid ?t \<and> (\<forall>j < l. heap_peek ?t (q + j) = heap_peek s (q + j))"
    if "(q, l) \<in> pool_live ?pid s" "q \<noteq> p" for q l
    using rest that free_state_keeps [OF okx that(1)] pk(1) by simp
  moreover have "object_slots ?t (Suc m)" if p44: "(p, 44) \<in> pool_live ?pid s" and sl: "object_slots s m" for m
  proof -
    have "j = 3" using pool_live_address [OF k p44] pk(2) okx by (auto simp: pool_ok_def Let_def layout_append)
    obtain xs where "pool_ok s ?pid xs" "m \<le> slots 0 xs" using sl by (auto simp: object_slots_def)
    then have "m \<le> slots 0 (as @ Used j # bs)" using pool_ok_unique [OF _ okx] by blast
    then have "Suc m \<le> slots 0 (as @ replicate j Free @ bs)" using slots_free [of as j bs] \<open>j = 3\<close> by simp
    then show ?thesis unfolding object_slots_def using pool_ok_free [OF okx] by auto
  qed
  moreover have "ObjectPoolId ?t = ?pid" by simp
  ultimately show ?thesis using eq \<open>objects ?t = objects s - {p}\<close> heap_frame_states(2)
    by (intro exI [of _ ?t] conjI) blast+
qed

text \<open>Writing a byte into a live block of the object pool.\<close>

lemma object_poke:
  assumes ok: "objects_ok s m" and live: "(p, l) \<in> pool_live (ObjectPoolId s) s" and j: "j < l"
  shows "objects_ok (heap_poke (p + j) v s) m" "object_slots (heap_poke (p + j) v s) k = object_slots s k"
    "pool_live (ObjectPoolId s) (heap_poke (p + j) v s) = pool_live (ObjectPoolId s) s"
    "heap_peek (heap_poke (p + j) v s) = (heap_peek s)(p + j := v)"
    "HeapBase s < p" "p + j < HeapBase s + unat (TotalHeapSize s)"
proof -
  let ?pid = "ObjectPoolId s" and ?t = "heap_poke (p + j) v s"
  obtain B where B: "mem_wf s B" "roomy m (B (unat ?pid))" "pool_used s (unat ?pid)" using ok by (auto simp: objects_ok_def)
  obtain as n bs where okx: "pool_ok s ?pid (as @ Used n # bs)"
    and p: "p = HeapBase s + (pool_start s ?pid + segs_len as + 4)" "l = 16 * n - 4" using live by (auto simp: pool_live_def)
  have Beq: "B (unat ?pid) = as @ Used n # bs" by (rule pool_ok_unique [OF mem_wf_pool [OF B(1,3)] okx])
  note K = pool_poke_keeps [OF B(1,3) Beq okx j [unfolded p(2)] p(1), of v]
  have "KernelReg ?t = KernelReg s" "ObjectPoolId ?t = ?pid" "pool_used ?t (unat ?pid) = pool_used s (unat ?pid)" "crit_ok ?t = crit_ok s"
    by (simp_all add: heap_poke_def crit_ok_def)
  moreover from this have "kernel_ok ?t = kernel_ok s" by (simp add: kernel_ok_def KCoreFlagGet_def)
  ultimately show "objects_ok ?t m" using ok B(2) K(1) by (auto simp: objects_ok_def)
  have "pool_ok ?t ?pid xs \<longleftrightarrow> xs = as @ Used n # bs" "pool_ok s ?pid xs \<longleftrightarrow> xs = as @ Used n # bs" for xs
    using pool_ok_unique K(2) okx by blast+
  moreover have "ObjectPoolId ?t = ?pid" by (simp add: heap_poke_def)
  ultimately show "object_slots ?t k = object_slots s k" by (simp add: object_slots_def)
  show "pool_live ?pid ?t = pool_live ?pid s" unfolding pool_live_eq [OF K(2)] pool_live_eq [OF okx] by (simp add: heap_poke_def)
  show "heap_peek ?t = (heap_peek s)(p + j := v)" by (rule K(3))
  show "HeapBase s < p" by (simp add: p)
  show "p + j < HeapBase s + unat (TotalHeapSize s)" using okx j by (auto simp: pool_ok_def Let_def p)
qed

end
