(* ===== verification/EventProps.thy ===== *)
theory EventProps
  imports Objects ListFifo Sample
begin

text \<open>
  The list of emitted events: what \<open>EventEmit\<close> does to it, alone and in sequence, and what the hash that serves as the
  ID of an event means for two events that share it.
\<close>

subsection \<open>The object store under changes of other state\<close>

lemma objects_cong:
  assumes "HeapBase t = HeapBase s" "OsHeap t = OsHeap s" "PoolTable t = PoolTable s" "TotalHeapPools t = TotalHeapPools s"
    "TotalHeapSize t = TotalHeapSize s" "ObjectPoolId t = ObjectPoolId s" "KernelReg t = KernelReg s" "GlobalIntEnabled t = GlobalIntEnabled s"
  shows "objects t = objects s" "objects_ok t m = objects_ok s m"
proof -
  have "pool_ok t = pool_ok s" using assms by (intro ext) (simp add: pool_ok_def)
  then show "objects t = objects s" "objects_ok t m = objects_ok s m"
    using assms by (simp_all add: objects_def pool_live_def objects_ok_def mem_wf_def crit_ok_def kernel_ok_def KCoreFlagGet_def)
qed

lemma objects_kept_cong:
  assumes "HeapBase t = HeapBase s" "OsHeap t = OsHeap s" "PoolTable t = PoolTable s" "TotalHeapPools t = TotalHeapPools s"
    "TotalHeapSize t = TotalHeapSize s" "ObjectPoolId t = ObjectPoolId s"
  shows "objects_kept s t" "object_slots t k = object_slots s k" "pool_live pid t = pool_live pid s"
proof -
  have "pool_ok t = pool_ok s" using assms by (intro ext) (simp add: pool_ok_def)
  then show "objects_kept s t" "object_slots t k = object_slots s k" "pool_live pid t = pool_live pid s"
    using assms by (simp_all add: objects_kept_def object_slots_def pool_live_def heap_peek_def)
qed

lemma list_frame_state: "list_frame s t l N \<Longrightarrow> \<exists>h ls. t = s\<lparr>nodes := h, lists := ls\<rparr>"
  unfolding list_frame_def by blast

lemma heap_frame_state: "heap_frame s t \<Longrightarrow> \<exists>h pt. t = s\<lparr>OsHeap := h, PoolTable := pt\<rparr>"
  unfolding heap_frame_def by blast

lemma list_frame_kept: "list_frame s t l N \<Longrightarrow> objects_kept s t \<and> object_slots t k = object_slots s k \<and> pool_live pid t = pool_live pid s"
  using list_frame_state [of s t l N] objects_kept_cong [of t s] by fastforce

lemma list_frame_objects: "list_frame s t l N \<Longrightarrow> objects t = objects s \<and> objects_ok t m = objects_ok s m"
  using list_frame_state [of s t l N] objects_cong [of t s] by fastforce

subsection \<open>The pending events\<close>

text \<open>
  The emitted events are the nodes \<open>xs\<close>: each is an event object and the child of its own node, no two have the same ID, and
  the object pool has room for \<open>m\<close> more blocks.
\<close>

definition events_ok :: "'a event_state_scheme \<Rightarrow> ptr list \<Rightarrow> nat \<Rightarrow> bool" where
  "events_ok s xs m \<longleftrightarrow> objects_ok s m \<and> searchable s EventList xs \<and> list_unlocked s EventList \<and> distinct (map (nid s) xs) \<and>
     (\<forall>x \<in> set xs. x \<in> objects s \<and> child (the (nodes s x)) = x \<and> event_at x s \<noteq> None)"

text \<open>The ID of an event.\<close>

definition event_id :: "Id_t \<Rightarrow> U32_t \<Rightarrow> Id_t" where
  "event_id src code = ucast (the (EventToHash src code))"

lemma EventToHash_total: "\<exists>h. EventToHash src code = Some h"
proof -
  have l: "unat (8 :: U16_t) \<le> length (U64_bytes w)" for w by (simp add: U64_bytes_def)
  show ?thesis unfolding EventToHash_def Let_def
    by (rule FletcherGenerate_bytes [where data = "U64_bytes (0 OR push_bit 32 (ucast src) OR ucast code)" and dlen = 8, OF l]) auto
qed

lemma unat_ucast_16_32: "unat (ucast (h :: U16_t) :: U32_t) = unat h"
proof -
  have "unat h < 2 ^ 16" using unsigned_less [of h] by simp
  then show ?thesis by (simp add: unsigned_ucast_eq take_bit_nat_eq_self)
qed

lemma event_id_valid: "event_id src code \<noteq> ID_INVALID"
proof
  assume "event_id src code = ID_INVALID"
  then have "unat (event_id src code) = 4294967295" by (simp add: ID_INVALID_def)
  moreover have "unat (event_id src code) < 65536"
    using unsigned_less [of "the (EventToHash src code)"] by (simp add: event_id_def unat_ucast_16_32)
  ultimately show False by simp
qed

lemma find_id_in: "oid \<in> nid s ` set xs \<Longrightarrow> find_id s oid xs \<in> set xs \<and> nid s (find_id s oid xs) = oid"
  by (induction xs) auto

lemma EventEmit_pending:
  assumes ok: "events_ok s xs m" and h: "event_id src code \<in> nid s ` set xs"
  shows "\<exists>x e. x \<in> set xs \<and> nid s x = event_id src code \<and> event_at x s = Some e \<and>
    EventEmit src code flgs s = Some (OS_RES_FAIL, s\<lparr>events := (events s)(x \<mapsto> e\<lparr>life_time_us_cnt := 0\<rparr>)\<rparr>)"
proof -
  obtain w where w: "EventToHash src code = Some w" using EventToHash_total by blast
  let ?x = "find_id s (ucast w) xs"
  have o: "crit_ok s" "searchable s EventList xs" "list_unlocked s EventList" using ok by (auto simp: events_ok_def objects_ok_def)
  have x: "?x \<in> set xs" "nid s ?x = ucast w" using find_id_in [of "ucast w" s xs] h w by (auto simp: event_id_def)
  obtain n where n: "node_at ?x s = Some n" "?x \<noteq> NULL" using is_list_nodes [of s EventList xs ?x] x(1) o(2) by (auto simp: searchable_def)
  have c: "child n = ?x" "event_at ?x s \<noteq> None" using ok x(1) node_at_SomeD [OF n(1)] by (auto simp: events_ok_def)
  have "ListNodeChildGet ?x s = Some ?x" using n c(1) by (simp add: ListNodeChildGet_def)
  then have "EventEmit src code flgs s = Some (OS_RES_FAIL, s\<lparr>events := (events s)(?x \<mapsto> (the (event_at ?x s))\<lparr>life_time_us_cnt := 0\<rparr>)\<rparr>)"
    using w n(2) c(2) by (auto simp: EventEmit_def ListSearch_ok [OF o] EventLifeTimeReset_def event_update_def)
  then show ?thesis using x c w by (auto simp: event_id_def)
qed

lemma events_ok_refresh:
  assumes "events_ok s xs m" and "event_at x s = Some e"
  shows "events_ok (s\<lparr>events := (events s)(x \<mapsto> e')\<rparr>) xs m"
proof -
  let ?t = "s\<lparr>events := (events s)(x \<mapsto> e')\<rparr>"
  have o: "objects ?t = objects s" "objects_ok ?t m = objects_ok s m" by (rule objects_cong; simp)+
  have l: "searchable ?t EventList xs = searchable s EventList xs" "list_unlocked ?t EventList = list_unlocked s EventList" "nid ?t = nid s"
    by (simp_all add: searchable_def is_list_def list_unlocked_def ll_at_def node_at_def nid_def [abs_def])
  show ?thesis using assms by (auto simp: events_ok_def o l event_at_def split: if_splits)
qed

text \<open>Lists and pending events of which neither the header nor the nodes have changed.\<close>

lemma is_list_keep:
  assumes "is_list s l xs" and "lists t l = lists s l" and "\<And>y. y \<in> set xs \<Longrightarrow> nodes t y = nodes s y"
  shows "is_list t l xs"
proof -
  have "dseg (nodes t) NULL xs NULL = dseg (nodes s) NULL xs NULL" using assms(3) by (intro dseg_cong) auto
  moreover have "ll_at l t = ll_at l s" using assms(2) by (simp add: ll_at_def)
  ultimately show ?thesis using assms(1) unfolding is_list_def by simp
qed

lemma events_ok_keep:
  assumes "events_ok s xs m" and "objects_ok t m'" and "set xs \<subseteq> objects t" and "lists t EventList = lists s EventList"
    and n: "\<And>y. y \<in> set xs \<Longrightarrow> nodes t y = nodes s y" and "dom (nodes s) \<subseteq> dom (nodes t)" and "events t = events s"
  shows "events_ok t xs m'"
proof -
  have "dseg (nodes t) NULL xs NULL = dseg (nodes s) NULL xs NULL" using n by (intro dseg_cong) auto
  moreover have ll: "ll_at EventList t = ll_at EventList s" using assms(4) by (simp add: ll_at_def)
  moreover have "(\<exists>m. node_at p s = Some m) \<longrightarrow> (\<exists>m. node_at p t = Some m)" for p
    using assms(6) by (auto simp: node_at_def dom_def subset_iff)
  moreover have ids: "map (nid t) xs = map (nid s) xs" using n by (simp add: nid_def)
  moreover have "searchable s EventList xs" using assms(1) by (simp add: events_ok_def)
  ultimately have "searchable t EventList xs" unfolding searchable_def is_list_def by metis
  moreover have "distinct (map (nid t) xs)" using assms(1) unfolding ids events_ok_def by simp
  ultimately show ?thesis using assms by (auto simp: events_ok_def list_unlocked_def ll event_at_def split: if_splits)
qed

text \<open>The event object that \<open>EventEmit\<close> makes.\<close>

definition new_event :: "Id_t \<Rightarrow> U32_t \<Rightarrow> U8_t \<Rightarrow> U32_t \<Rightarrow> Event_t" where
  "new_event src code flgs life = \<lparr>life_time_us = life, life_time_us_cnt = 0, occurrence_cnt = 0, source_id = src,
     event_code = EVENT_FLAG_SET code flgs\<rparr>"

lemma child_frame: "list_frame s t l N \<Longrightarrow> nodes s x \<noteq> None \<Longrightarrow> child (the (nodes t x)) = child (the (nodes s x))"
  by (auto simp: list_frame_def elim: same_payload_fields)

lemma same_payload_dom: "same_payload h h' \<Longrightarrow> dom h = dom h'"
  unfolding same_payload_def fun_eq_iff dom_def by (metis option.map_disc_iff)

lemma unsorted_searchable: "middle_kept s t l (\<lambda>_. False) \<Longrightarrow> is_list t l xs \<Longrightarrow> searchable t l xs"
  by (auto simp: middle_kept_def searchable_def)

lemma events_nodes_swap: "s\<lparr>events := e, nodes := h\<rparr> = s\<lparr>nodes := h, events := e\<rparr>"
  by simp

text \<open>
  What an emitted event leaves alone: everything but the heap, the event objects, the list of emitted events and its nodes,
  so that an object that is not an event keeps its node.
\<close>

definition event_frame :: "'a event_state_scheme \<Rightarrow> 'a event_state_scheme \<Rightarrow> ptr list \<Rightarrow> bool" where
  "event_frame s t xs \<longleftrightarrow>
     (\<exists>hp pt h ls e. t = s\<lparr>OsHeap := hp, PoolTable := pt, nodes := h, lists := ls, events := e\<rparr>) \<and>
     (\<forall>x. x \<in> objects s \<and> x \<notin> set xs \<longrightarrow> nodes t x = nodes s x \<and> x \<in> objects t) \<and> dom (nodes s) \<subseteq> dom (nodes t) \<and> (\<forall>l. l \<noteq> EventList \<longrightarrow> lists t l = lists s l)"

lemma EventEmit_new:
  assumes ok: "events_ok s xs m" and h: "event_id src code \<notin> nid s ` set xs" and room: "3 \<le> m" "length xs < 255"
  shows "\<exists>t p. EventEmit src code flgs s = Some (OS_RES_OK, t) \<and> p \<notin> set xs \<and> events_ok t (xs @ [p]) (m - 3) \<and>
    event_at p t = Some (new_event src code flgs (EmittedEventLifetimeUs s)) \<and> nid t p = event_id src code \<and>
    (\<forall>x \<in> set xs. event_at x t = event_at x s \<and> nid t x = nid s x) \<and> event_frame s t xs \<and> p \<notin> objects s \<and>
    objects_kept s t \<and> (\<forall>k. object_slots s (Suc k) \<longrightarrow> object_slots t k)"
proof -
  obtain w where w: "EventToHash src code = Some w" using EventToHash_total by blast
  have o: "objects_ok s m" "crit_ok s" "searchable s EventList xs" "list_unlocked s EventList"
    and il: "is_list s EventList xs" using ok by (auto simp: events_ok_def objects_ok_def searchable_def)
  have search: "ListSearch EventList (ucast w) s = Some (NULL, s)"
    using ListSearch_ok [OF o(2-4)] find_id_absent [of "ucast w" s xs] h w by (simp add: event_id_def events_nodes_swap)
  have b: "blocks_for (unat SIZEOF_EVENT) = 3" "SIZEOF_EVENT \<noteq> 0" by (simp_all add: blocks_for_def SIZEOF_EVENT_def)
  obtain p t1 where p: "KMemAllocObject SIZEOF_EVENT 0 None s = Some ((p, None), t1)" "p \<noteq> NULL" "p \<notin> objects s"
    "objects t1 = insert p (objects s)" "objects_ok t1 (m - 3)" "heap_frame s t1" "objects_kept s t1"
    "\<forall>k. object_slots s (Suc k) \<longrightarrow> object_slots t1 k"
    using KMemAllocObject_ok [OF o(1) b(2), of None] b(1) room(1) by auto
  have px: "p \<notin> set xs" using ok p(3) by (auto simp: events_ok_def)
  obtain hp pt where t1: "t1 = s\<lparr>OsHeap := hp, PoolTable := pt\<rparr>" using heap_frame_state [OF p(6)] by blast
  let ?n = "zero_node\<lparr>child := p, node_id := event_id src code\<rparr>"
  let ?e = "new_event src code flgs (EmittedEventLifetimeUs s)"
  let ?t2 = "t1\<lparr>nodes := (nodes t1)(p \<mapsto> ?n), events := (events t1)(p \<mapsto> ?e)\<rparr>"
  have nid2: "nid ?t2 x = (if x = p then event_id src code else nid s x)" for x by (simp add: nid_def t1)
  have l2: "is_list ?t2 EventList xs" "list_unlocked ?t2 EventList" "node_at p ?t2 = Some ?n" "crit_ok ?t2"
    using il o(2,4) px p(2) by (simp_all add: t1 is_list_def list_unlocked_def ll_at_def node_at_def crit_ok_def EventList_def)
  obtain t where t: "ListNodeAddAtPosition EventList p LIST_POSITION_TAIL ?t2 = Some (OS_RES_OK, t)"
    "is_list t EventList (xs @ [p])" "list_frame ?t2 t EventList (insert p (set xs))" "middle_kept ?t2 t EventList (\<lambda>_. False)"
    using AddAtPosition_tail [OF l2(4,1,2) room(2) l2(3) _ px] event_id_valid by auto
  have "EventEmit src code flgs s = Some (OS_RES_OK, t)"
    using w search p(1,2) t(1)
    by (simp add: EventEmit_def EventCreate_def event_alloc_def event_clear_def node_clear_def event_update_def event_at_def
        ListNodeInit_def node_update_eq node_at_def t1 zero_node_def zero_event_def new_event_def event_id_def events_nodes_swap)
  moreover have "events_ok t (xs @ [p]) (m - 3)"
  proof -
    have "objects t = insert p (objects s)" "objects_ok t (m - 3)"
      using list_frame_objects [OF t(3), of "m - 3"] p(4,5) objects_cong(1) [of ?t2 t1] objects_cong(2) [of ?t2 t1 "m - 3"] by simp_all
    moreover have "nodes ?t2 x \<noteq> None" "child (the (nodes ?t2 x)) = x" if "x \<in> set (xs @ [p])" for x
      using that ok is_list_nodes [OF il, of x] node_at_SomeD by (fastforce simp: events_ok_def t1)+
    then have "child (the (nodes t x)) = x" if "x \<in> set (xs @ [p])" for x using child_frame [OF t(3)] that by metis
    moreover have "distinct (map (nid t) (xs @ [p]))"
      using ok h px nid2 by (auto simp: events_ok_def nid_frame [OF t(3)] distinct_map inj_on_def)
    moreover have "event_at x t \<noteq> None" if "x \<in> set (xs @ [p])" for x
      using that ok p(2) is_list_nodes [OF il, of x] list_frame_state [OF t(3)] by (auto simp: events_ok_def event_at_def t1)
    ultimately show ?thesis
      using ok unsorted_searchable [OF t(4,2)] list_frame_unlocked [OF t(3) l2(2)] by (auto simp: events_ok_def)
  qed
  moreover have "event_frame s t xs"
  proof -
    obtain h ls where t2: "t = ?t2\<lparr>nodes := h, lists := ls\<rparr>" using list_frame_state [OF t(3)] by blast
    have "\<forall>l. l \<noteq> EventList \<longrightarrow> ls l = lists s l" "\<forall>x. x \<noteq> p \<and> x \<notin> set xs \<longrightarrow> h x = nodes s x"
      using t(3) unfolding list_frame_def by (simp_all add: t2 t1)
    moreover have "objects t = insert p (objects s)" using list_frame_objects [OF t(3)] p(4) objects_cong(1) [of ?t2 t1] by simp
    moreover have "\<exists>hp pt h ls e. t = s\<lparr>OsHeap := hp, PoolTable := pt, nodes := h, lists := ls, events := e\<rparr>"
      unfolding t2 t1
      by (intro exI [of _ hp] exI [of _ pt] exI [of _ h] exI [of _ ls] exI [of _ "(events s)(p \<mapsto> ?e)"]) simp
    moreover have "dom (nodes s) \<subseteq> dom h"
    proof -
      have "same_payload (nodes ?t2) (nodes t)" using t(3) by (simp add: list_frame_def)
      then have "dom (nodes ?t2) = dom (nodes t)" by (rule same_payload_dom)
      then show ?thesis by (auto simp: t2 t1)
    qed
    ultimately show ?thesis using p(3) unfolding event_frame_def by (auto simp: t2 t1)
  qed
  moreover have "event_at p t = Some ?e" "\<forall>x \<in> set xs. event_at x t = event_at x s"
    using list_frame_state [OF t(3)] p(2) px by (auto simp: event_at_def t1)
  moreover have "nid t p = event_id src code" "\<forall>x \<in> set xs. nid t x = nid s x" using px nid2 nid_frame [OF t(3)] by auto
  moreover have "objects_kept s t" "\<forall>k. object_slots s (Suc k) \<longrightarrow> object_slots t k"
  proof -
    have k2: "objects_kept t1 ?t2" "object_slots ?t2 k = object_slots t1 k" for k by (rule objects_kept_cong; simp)+
    show "objects_kept s t" using objects_kept_trans [OF p(7)] objects_kept_trans [OF k2(1)] list_frame_kept [OF t(3)] by blast
    show "\<forall>k. object_slots s (Suc k) \<longrightarrow> object_slots t k" using p(8) k2(2) list_frame_kept [OF t(3)] by blast
  qed
  ultimately show ?thesis using px p(3) by blast
qed


lemma EventEmit_outcome:
  assumes "events_ok s xs m" and "3 \<le> m" and "length xs < 255"
  shows "\<exists>r t ys. EventEmit src code flgs s = Some (r, t) \<and> events_ok t ys (m - 3) \<and>
    (if event_id src code \<in> nid s ` set xs
     then r = OS_RES_FAIL \<and> ys = xs \<and> (\<exists>x e. x \<in> set xs \<and> nid s x = event_id src code \<and> event_at x s = Some e \<and>
       t = s\<lparr>events := (events s)(x \<mapsto> e\<lparr>life_time_us_cnt := 0\<rparr>)\<rparr>)
     else r = OS_RES_OK \<and> (\<exists>p. ys = xs @ [p] \<and> p \<notin> set xs \<and> nid t p = event_id src code \<and>
       event_at p t = Some (new_event src code flgs (EmittedEventLifetimeUs s)) \<and>
       (\<forall>x \<in> set xs. event_at x t = event_at x s \<and> nid t x = nid s x)))"
proof (cases "event_id src code \<in> nid s ` set xs")
  case True
  obtain x e where x: "x \<in> set xs" "nid s x = event_id src code" "event_at x s = Some e"
    "EventEmit src code flgs s = Some (OS_RES_FAIL, s\<lparr>events := (events s)(x \<mapsto> e\<lparr>life_time_us_cnt := 0\<rparr>)\<rparr>)"
    using EventEmit_pending [OF assms(1) True, of flgs] by blast
  have "events_ok s xs (m - 3)" using assms(1) roomy_le [of m _ "m - 3"] by (auto simp: events_ok_def objects_ok_def)
  from events_ok_refresh [OF this x(3), of "e\<lparr>life_time_us_cnt := 0\<rparr>"] x True show ?thesis by auto
next
  case False
  then show ?thesis using EventEmit_new [OF assms(1) False assms(2,3), of flgs] by auto
qed

text \<open>
  C13. Emitting an event. When an event with the same ID is pending, the new one is not queued, even if it is another one
  whose hash collides: the call fails and the pending event starts a new life. Otherwise the event is queued behind the
  others, with its own life time, and nothing else changes; the pending events stay well formed in both cases.
\<close>

theorem EventEmit_correct:
  assumes "events_ok s xs m" and "3 \<le> m" and "length xs < 255"
  shows "\<exists>r t ys. EventEmit src code flgs s = Some (r, t) \<and> events_ok t ys (m - 3) \<and>
    (if event_id src code \<in> nid s ` set xs
     then r = OS_RES_FAIL \<and> ys = xs \<and> (\<exists>x e. x \<in> set xs \<and> nid s x = event_id src code \<and> event_at x s = Some e \<and>
       t = s\<lparr>events := (events s)(x \<mapsto> e\<lparr>life_time_us_cnt := 0\<rparr>)\<rparr>)
     else r = OS_RES_OK \<and> (\<exists>p. ys = xs @ [p] \<and> p \<notin> set xs \<and> nid t p = event_id src code \<and>
       event_at p t = Some (new_event src code flgs (EmittedEventLifetimeUs s)) \<and>
       (\<forall>x \<in> set xs. event_at x t = event_at x s \<and> nid t x = nid s x)))"
  by (rule EventEmit_outcome [OF assms])

subsection \<open>Sequences of events\<close>

fun emit_all :: "(Id_t \<times> U32_t \<times> U8_t) list \<Rightarrow> 'a event_state_scheme \<Rightarrow> (OsResult_t list \<times> 'a event_state_scheme) option" where
  "emit_all [] s = Some ([], s)"
| "emit_all ((src, code, flgs) # es) s = do {
     (r, s) \<leftarrow> EventEmit src code flgs s;
     (rs, s) \<leftarrow> emit_all es s;
     Some (r # rs, s)
   }"

text \<open>The specification on IDs: an ID is queued once.\<close>

fun emit_spec :: "Id_t list \<Rightarrow> Id_t list \<Rightarrow> OsResult_t list \<times> Id_t list" where
  "emit_spec [] q = ([], q)"
| "emit_spec (h # hs) q = (if h \<in> set q then apfst ((#) OS_RES_FAIL) (emit_spec hs q)
     else apfst ((#) OS_RES_OK) (emit_spec hs (q @ [h])))"

lemma emit_all_refines:
  assumes "events_ok s xs m" and "3 * length es \<le> m" and "length xs + length es \<le> 255"
  shows "\<exists>rs t ys. emit_all es s = Some (rs, t) \<and> events_ok t ys (m - 3 * length es) \<and>
    emit_spec (map (\<lambda>(src, code, flgs). event_id src code) es) (map (nid s) xs) = (rs, map (nid t) ys)"
  using assms
proof (induction es arbitrary: s xs m)
  case (Cons e es)
  obtain src code flgs where e: "e = (src, code, flgs)" by (cases e)
  have room: "3 \<le> m" "length xs < 255" "3 * length es \<le> m - 3" "length xs + length es \<le> 255" "length (xs @ [p]) + length es \<le> 255" for p :: ptr using Cons.prems(2,3) by auto
  note emit = EventEmit_outcome [OF Cons.prems(1) room(1,2), of src code flgs]
  show ?case
  proof (cases "event_id src code \<in> nid s ` set xs")
    case True
    then obtain t where t: "EventEmit src code flgs s = Some (OS_RES_FAIL, t)" "events_ok t xs (m - 3)" "nid t = nid s"
      using emit by (auto simp: nid_def [abs_def])
    obtain rs u ys where "emit_all es t = Some (rs, u)" "events_ok u ys (m - 3 - 3 * length es)"
      "emit_spec (map (\<lambda>(src, code, flgs). event_id src code) es) (map (nid s) xs) = (rs, map (nid u) ys)"
      using Cons.IH [OF t(2) room(3,4)] t(3) by auto
    then show ?thesis using True t e by (auto simp: diff_diff_eq)
  next
    case False
    then obtain t p where t: "EventEmit src code flgs s = Some (OS_RES_OK, t)" "events_ok t (xs @ [p]) (m - 3)"
      "nid t p = event_id src code" "\<forall>x \<in> set xs. nid t x = nid s x"
      using emit by auto
    have q: "map (nid t) (xs @ [p]) = map (nid s) xs @ [event_id src code]" using t(3,4) by auto
    obtain rs u ys where "emit_all es t = Some (rs, u)" "events_ok u ys (m - 3 - 3 * length es)"
      "emit_spec (map (\<lambda>(src, code, flgs). event_id src code) es) (map (nid s) xs @ [event_id src code]) = (rs, map (nid u) ys)"
      using Cons.IH [OF t(2) room(3,5)] unfolding q by blast
    then show ?thesis using False t(1) e by (auto simp: diff_diff_eq)
  qed
qed auto


subsection \<open>Collisions\<close>

lemma byte_of_concat:
  fixes src code :: U32_t and k :: nat
  assumes "i < 4" and "k = 32"
  shows "(ucast (drop_bit (8 * i) (push_bit k (ucast src) OR ucast code :: U64_t)) :: U8_t) = ucast (drop_bit (8 * i) code)"
    and "(ucast (drop_bit (8 * (i + 4)) (push_bit k (ucast src) OR ucast code :: U64_t)) :: U8_t) = ucast (drop_bit (8 * i) src)"
proof -
  have "\<not> bit code (n + 8 * (i + 4))" for n
    using bit_imp_le_length [of code "n + 8 * (i + 4)"] by auto
  then show "(ucast (drop_bit (8 * i) (push_bit k (ucast src) OR ucast code :: U64_t)) :: U8_t) = ucast (drop_bit (8 * i) code)"
    "(ucast (drop_bit (8 * (i + 4)) (push_bit k (ucast src) OR ucast code :: U64_t)) :: U8_t) = ucast (drop_bit (8 * i) src)"
    using assms by (auto intro!: bit_word_eqI simp: bit_simps algebra_simps)
qed

lemma U64_bytes_concat:
  fixes src code :: U32_t
  shows
  "U64_bytes (0 OR push_bit 32 (ucast src) OR ucast code) =
     map (\<lambda>i. ucast (drop_bit (8 * i) code)) [0 ..< 4] @ map (\<lambda>i. ucast (drop_bit (8 * i) (src :: U32_t))) [0 ..< 4]"
proof -
  have "[0 ..< 8] = [0 ..< 4] @ map (\<lambda>i. i + 4) [0 ..< 4 :: nat]" by (simp add: upt_rec)
  then show ?thesis using byte_of_concat [of _ 32 src code] by (simp add: U64_bytes_def)
qed

text \<open>Two sources that differ in the lowest byte, 0 in one and 0xFF in the other.\<close>

lemma event_id_collision:
  fixes src code :: U32_t
  assumes "src AND 0xFF = 0"
  shows "event_id (src OR 0xFF) code = event_id src code"
proof -
  define a where "a = map (\<lambda>i. ucast (drop_bit (8 * i) code) :: U8_t) [0 ..< 4]"
  define b where "b = map (\<lambda>i. ucast (drop_bit (8 * i) src) :: U8_t) [1 ..< 4]"
  have m: "(0xFF :: U32_t) = mask 8" "(0xFF :: U8_t) = mask 8" by (simp_all add: mask_eq_exp_minus_1)
  have bits: "\<not> bit src n" if "n < 8" for n
    using arg_cong [OF assms, of "\<lambda>w. bit w n"] that unfolding m by (simp add: bit_simps)
  have low: "(ucast src :: U8_t) = 0" "(ucast (src OR 0xFF) :: U8_t) = 0xFF"
    unfolding m using bits by (auto intro!: bit_word_eqI simp: bit_simps)
  have high: "(ucast (drop_bit (8 * i) (src OR 0xFF)) :: U8_t) = ucast (drop_bit (8 * i) src)" if "1 \<le> i" for i
    unfolding m using that by (auto intro!: bit_word_eqI simp: bit_simps)
  have add_255: "(x + (255 + y)) mod 255 = (x + y) mod (255 :: nat)" "(x + (1020 + y)) mod 255 = (x + y) mod (255 :: nat)" for x y
    using mod_mult_self2 [of "x + y" 255 1] mod_mult_self2 [of "x + y" 255 4] by (simp_all add: ac_simps)
  have u: "[0 ..< 4] = 0 # [1 ..< 4 :: nat]" by (simp add: upt_rec)
  have x: "U64_bytes (0 OR push_bit 32 (ucast src) OR ucast code) = a @ 0 # b"
    "U64_bytes (0 OR push_bit 32 (ucast (src OR 0xFF)) OR ucast code) = a @ 0xFF # b"
    unfolding U64_bytes_concat u a_def b_def using low high by (simp_all del: upt_rec_numeral)
  have len: "length a = 4" "length b = 3" by (simp_all add: a_def b_def)
  have "FletcherGenerate (a @ 0 # b) 8 = FletcherGenerate (a @ 0xFF # b) 8"
    using Fletcher_collision_iff [of 8 "a @ 0 # b" "a @ 0xFF # b"] len
    by (simp add: byte_sum_append weighted_sum_append byte_sum_def add_255)
  then show ?thesis by (simp only: event_id_def EventToHash_def Let_def x)
qed


text \<open>
  C29. Two sources whose numbers differ only in the lowest byte, 0 in one and 255 in the other, as the first and the 256th
  object of a group do, have the same event IDs. While an event of the one is pending, the same event of the other is
  refused, and no event of its own is queued for it.
\<close>

theorem event_lost_by_collision:
  assumes "src AND 0xFF = 0" and "events_ok s xs m" and "3 \<le> m" and "length xs < 255"
    and "event_id src code \<in> nid s ` set xs"
  shows "\<exists>t. EventEmit (src OR 0xFF) code flgs s = Some (OS_RES_FAIL, t) \<and> events_ok t xs (m - 3) \<and>
    (\<forall>x \<in> set xs. \<exists>e e'. event_at x s = Some e \<and> event_at x t = Some e' \<and> source_id e' = source_id e)"
proof -
  have h: "event_id (src OR 0xFF) code \<in> nid s ` set xs" using event_id_collision [OF assms(1)] assms(5) by simp
  obtain x e where x: "x \<in> set xs" "event_at x s = Some e"
    "EventEmit (src OR 0xFF) code flgs s = Some (OS_RES_FAIL, s\<lparr>events := (events s)(x \<mapsto> e\<lparr>life_time_us_cnt := 0\<rparr>)\<rparr>)"
    using EventEmit_pending [OF assms(2) h, of flgs] by blast
  have "events_ok s xs (m - 3)" using assms(2) roomy_le [of m _ "m - 3"] by (auto simp: events_ok_def objects_ok_def)
  from events_ok_refresh [OF this x(2)] x assms(2) show ?thesis
    by (auto simp: event_at_def events_ok_def split: if_splits)
qed

subsection \<open>A concrete event list\<close>

text \<open>An object pool of eight blocks, all free, and an empty list of emitted events.\<close>

definition event_start :: shell_state where
  "event_start = shell_bss\<lparr>HeapBase := 0x1000, TotalHeapPools := 1, TotalHeapSize := 128, HeapIndexEnd := 127,
     PoolTable := [\<lparr>start_index = 0, end_index = 127, pool_size = 128, mem_left = 128, pmb_N = 0\<rparr>],
     EmittedEventLifetimeUs := 3000, lists := [EventList \<mapsto> sample_list NULL NULL 0]\<rparr>"

lemma event_start_used [simp]: "pool_used event_start i \<longleftrightarrow> i = 0"
  by (cases i) (simp_all add: event_start_def)

lemma event_start_simps [simp]:
  "ObjectPoolId event_start = 0" "HeapBase event_start = 0x1000" "start_index (PoolTable event_start ! 0) = 0"
  by (simp_all add: event_start_def shell_bss_def)

lemma event_start_wf: "mem_wf event_start (\<lambda>_. replicate 8 Free)"
proof -
  have "pool_ok event_start 0 (replicate 8 Free)"
    by (simp add: pool_ok_def Let_def event_start_def layout_frees segs_len_simps)
  then show ?thesis unfolding mem_wf_def by (auto simp: event_start_def)
qed

lemma event_start_kernel: "crit_ok event_start" "kernel_ok event_start" "kr_crit_sect_nest_counter (KernelReg event_start) < 254"
  by (simp_all add: event_start_def crit_ok_def kernel_ok_def core_bss_def KCoreFlagGet_def)

lemma event_start_ok: "events_ok event_start [] 8"
proof -
  have "roomy 8 (replicate 8 Free)" unfolding roomy_def by (metis append_Nil append_Nil2)
  then have "objects_ok event_start 8" using event_start_wf event_start_kernel unfolding objects_ok_def by auto
  moreover have "searchable event_start EventList []" "list_unlocked event_start EventList"
    by (simp_all add: searchable_def is_list_def list_unlocked_def ll_at_def event_start_def EventList_def)
  ultimately show ?thesis by (simp add: events_ok_def)
qed

theorem EventEmit_correct_witness:
  "\<exists>t p. EventEmit 0x06000000 0x00040003 0 event_start = Some (OS_RES_OK, t) \<and> events_ok t [p] 5 \<and>
     event_at p t = Some (new_event 0x06000000 0x00040003 0 3000)"
proof -
  have "EmittedEventLifetimeUs event_start = 3000" by (simp add: event_start_def)
  with EventEmit_correct [OF event_start_ok, where src = "0x06000000" and code = "0x00040003" and flgs = 0] show ?thesis by auto
qed

theorem event_lost_by_collision_witness:
  "\<exists>s t xs. emit_all [(0x06000000, 0x00040003, 0)] event_start = Some ([OS_RES_OK], s) \<and> events_ok s xs 5 \<and>
     EventEmit 0x060000FF 0x00040003 0 s = Some (OS_RES_FAIL, t) \<and> events_ok t xs 2"
proof -
  obtain s xs where s: "emit_all [(0x06000000, 0x00040003, 0)] event_start = Some ([OS_RES_OK], s)" "events_ok s xs 5"
    "map (nid s) xs = [event_id 0x06000000 0x00040003]"
    using emit_all_refines [OF event_start_ok, where es = "[(0x06000000, 0x00040003, 0)]"] by auto
  have "length xs = 1" "event_id 0x06000000 0x00040003 \<in> nid s ` set xs" using s(3) by auto
  then show ?thesis using event_lost_by_collision [OF _ s(2), where src = "0x06000000" and code = "0x00040003" and flgs = 0] s(1,2) by auto
qed

text \<open>
  C14. A sequence of emitted events, from a well-formed list and with room in the object pool, behaves as its
  specification on event IDs: every call answers, an ID that is pending is refused, and the others are queued once each,
  in the order of their first emission.
\<close>

theorem events_queued_once:
  assumes "events_ok s xs m" and "3 * length es \<le> m" and "length xs + length es \<le> 255"
  shows "\<exists>rs t ys. emit_all es s = Some (rs, t) \<and> events_ok t ys (m - 3 * length es) \<and> distinct (map (nid t) ys) \<and>
    emit_spec (map (\<lambda>(src, code, flgs). event_id src code) es) (map (nid s) xs) = (rs, map (nid t) ys)"
  using emit_all_refines [OF assms] by (force simp: events_ok_def)

theorem events_queued_once_witness:
  "\<exists>t. emit_all [(0x06000000, 0x00040003, 0), (0x060000FF, 0x00040003, 0)] event_start = Some ([OS_RES_OK, OS_RES_FAIL], t)"
  using events_queued_once [OF event_start_ok, where es = "[(0x06000000, 0x00040003, 0), (0x060000FF, 0x00040003, 0)]"]
    event_id_collision [of "0x06000000" "0x00040003"] by auto

end
