(* ===== verification/Access.thy ===== *)
theory Access
  imports EventProps
begin

text \<open>
  What the modules above the events share: the block between \<^verbatim>\<open>LIST_NODE_ACCESS\<close> macros on the node of an object, and what an
  emitted event leaves untouched.
\<close>

subsection \<open>Access to a node\<close>

definition node_lock_set :: "ptr \<Rightarrow> U8_t \<Rightarrow> 'a list_state_scheme \<Rightarrow> 'a list_state_scheme" where
  "node_lock_set p v s = s\<lparr>nodes := (nodes s)(p \<mapsto> (the (nodes s p))\<lparr>node_lock := v\<rparr>)\<rparr>"

text \<open>The lock value of a node that one reader or the writer has.\<close>

definition access_lock :: "U8_t \<Rightarrow> U8_t" where
  "access_lock mode = (if mode = LIST_LOCK_MODE_READ then 1 else 0x81)"

text \<open>The nodes \<open>xs\<close> of a list of kernel objects: each is the child of its own node and not locked, and no ID appears twice.\<close>

definition object_list :: "'a list_state_scheme \<Rightarrow> lptr \<Rightarrow> ptr list \<Rightarrow> bool" where
  "object_list s l xs \<longleftrightarrow> searchable s l xs \<and> list_unlocked s l \<and> distinct (map (nid s) xs) \<and>
     (\<forall>x \<in> set xs. \<exists>n. nodes s x = Some n \<and> child n = x \<and> node_lock n = 0)"

lemma object_list_nodes: "object_list s l xs \<Longrightarrow> x \<in> set xs \<Longrightarrow> x \<noteq> NULL"
  using is_list_nodes by (fastforce simp: object_list_def searchable_def)

lemma find_id_unique:
  assumes "distinct (map (nid s) xs)" and "x \<in> set xs"
  shows "find_id s (nid s x) xs = x"
  using assms by (induction xs) (auto simp: image_iff)

lemma ListSearch_object:
  "crit_ok s \<Longrightarrow> object_list s l xs \<Longrightarrow> x \<in> set xs \<Longrightarrow> ListSearch l (nid s x) s = Some (x, s)"
  using ListSearch_ok find_id_unique by (fastforce simp: object_list_def)

lemma ListSearch_no_object:
  "crit_ok s \<Longrightarrow> object_list s l xs \<Longrightarrow> oid \<notin> nid s ` set xs \<Longrightarrow> ListSearch l oid s = Some (NULL, s)"
  using ListSearch_ok find_id_absent by (fastforce simp: object_list_def)

lemma node_lock_ops:
  assumes "crit_ok s" and "nodes s x = Some n" and "x \<noteq> NULL"
  shows "node_lock n = 0 \<Longrightarrow> mode = LIST_LOCK_MODE_READ \<or> mode = LIST_LOCK_MODE_WRITE \<Longrightarrow>
      ListNodeLock x mode s = Some (OS_RES_OK, node_lock_set x (access_lock mode) s)"
    and "node_lock n = access_lock mode \<Longrightarrow> ListNodeUnlock x s = Some (OS_RES_OK, node_lock_set x 0 s)"
  using assms
  by (auto simp: ListNodeLock_def ListNodeUnlock_def node_at_def UtilLock_eq UtilUnlock_eq node_update_eq node_lock_set_def access_lock_def
      split: if_splits)

lemma LIST_NODE_ACCESS_ok:
  assumes "crit_ok s" and "object_list s l xs" and "x \<in> set xs" and "mode = LIST_LOCK_MODE_READ \<or> mode = LIST_LOCK_MODE_WRITE"
    and "block x (node_lock_set x (access_lock mode) s) = Some (r, t)" and "crit_ok t"
    and "nodes t x = Some n" and "node_lock n = access_lock mode"
  shows "LIST_NODE_ACCESS mode l (nid s x) block d s = Some (r, node_lock_set x 0 t)"
proof -
  have x: "x \<noteq> NULL" by (rule object_list_nodes [OF assms(2,3)])
  obtain k where k: "nodes s x = Some k" "node_lock k = 0" using assms(2,3) by (auto simp: object_list_def)
  show ?thesis
    using ListSearch_object [OF assms(1-3)] x node_lock_ops(1) [OF assms(1) k(1) x k(2) assms(4)]
      node_lock_ops(2) [OF assms(6,7) x assms(8)] assms(5)
    by (simp add: LIST_NODE_ACCESS_def)
qed

lemma LIST_NODE_ACCESS_none:
  "crit_ok s \<Longrightarrow> object_list s l xs \<Longrightarrow> oid \<notin> nid s ` set xs \<Longrightarrow> LIST_NODE_ACCESS mode l oid block d s = Some (d, s)"
  using ListSearch_no_object by (fastforce simp: LIST_NODE_ACCESS_def)

lemma node_lock_set_simps [simp]:
  "crit_ok (node_lock_set x v s) = crit_ok s" "KernelReg (node_lock_set x v s) = KernelReg s" "lists (node_lock_set x v s) = lists s"
  "y \<noteq> x \<Longrightarrow> nodes (node_lock_set x v s) y = nodes s y" "ll_at l (node_lock_set x v s) = ll_at l s"
  by (simp_all add: node_lock_set_def ll_at_def)

lemma node_lock_set_node: "nodes s x = Some n \<Longrightarrow> nodes (node_lock_set x v s) x = Some (n\<lparr>node_lock := v\<rparr>)"
  by (simp add: node_lock_set_def)

lemma nid_node_lock_set [simp]: "nodes s x \<noteq> None \<Longrightarrow> nid (node_lock_set x v s) = nid s"
  by (auto simp: nid_def [abs_def] node_lock_set_def fun_eq_iff)

text \<open>Locking a node does not disturb a list.\<close>

lemma dseg_same_links:
  assumes "\<And>x. x \<in> set xs \<Longrightarrow> \<exists>n m. h x = Some n \<and> h' x = Some m \<and> next_node m = next_node n \<and> prev_node m = prev_node n"
  shows "dseg h p xs q = dseg h' p xs q"
  using assms by (induction xs arbitrary: p) (fastforce)+

lemma searchable_node_lock_set:
  assumes "nodes s x = Some n" and "searchable s l xs"
  shows "searchable (node_lock_set x v s) l xs"
proof -
  have d: "dseg (nodes s) NULL xs NULL" using assms(2) by (simp add: searchable_def is_list_def)
  have "dseg (nodes s) NULL xs NULL = dseg (nodes (node_lock_set x v s)) NULL xs NULL"
    using assms(1) dseg_nonnull [OF d] by (intro dseg_same_links) (fastforce simp: node_lock_set_def)
  moreover have "(\<exists>m. node_at p (node_lock_set x v s) = Some m) \<longleftrightarrow> (\<exists>m. node_at p s = Some m)" for p
    using assms(1) by (auto simp: node_at_def node_lock_set_def)
  ultimately show ?thesis using assms by (auto simp: searchable_def is_list_def)
qed

lemma list_unlocked_node_lock_set [simp]: "list_unlocked (node_lock_set x v s) l = list_unlocked s l"
  by (simp add: list_unlocked_def)

subsection \<open>Emitted events\<close>

lemma events_ok_node_lock_set:
  assumes "events_ok s xs m" and "nodes s x = Some n"
  shows "events_ok (node_lock_set x v s) xs m"
proof -
  have o: "objects (node_lock_set x v s) = objects s" "objects_ok (node_lock_set x v s) m = objects_ok s m"
    by (rule objects_cong; simp add: node_lock_set_def)+
  have "child (the (nodes (node_lock_set x v s) y)) = child (the (nodes s y))" for y using assms(2) by (simp add: node_lock_set_def)
  moreover have "event_at y (node_lock_set x v s) = event_at y s" for y by (simp add: event_at_def node_lock_set_def)
  ultimately show ?thesis
    using assms searchable_node_lock_set [OF assms(2)] by (simp add: events_ok_def o)
qed

lemma event_frame_trans:
  "event_frame s t xs \<Longrightarrow> event_frame t u ys \<Longrightarrow> (\<And>x. x \<in> objects s \<Longrightarrow> x \<in> set ys \<Longrightarrow> x \<in> set xs) \<Longrightarrow> event_frame s u xs"
proof -
  assume st: "event_frame s t xs" and tu: "event_frame t u ys" and sub: "\<And>x. x \<in> objects s \<Longrightarrow> x \<in> set ys \<Longrightarrow> x \<in> set xs"
  obtain hp pt h ls e where t: "t = s\<lparr>OsHeap := hp, PoolTable := pt, nodes := h, lists := ls, events := e\<rparr>"
    using st by (auto simp: event_frame_def)
  obtain hp' pt' h' ls' e' where "u = t\<lparr>OsHeap := hp', PoolTable := pt', nodes := h', lists := ls', events := e'\<rparr>"
    using tu by (auto simp: event_frame_def)
  then have "u = s\<lparr>OsHeap := hp', PoolTable := pt', nodes := h', lists := ls', events := e'\<rparr>" by (simp add: t)
  then have "\<exists>hp pt h ls e. u = s\<lparr>OsHeap := hp, PoolTable := pt, nodes := h, lists := ls, events := e\<rparr>" by blast
  moreover have "nodes u x = nodes s x \<and> x \<in> objects u" if "x \<in> objects s" "x \<notin> set xs" for x
  proof -
    have "nodes t x = nodes s x" "x \<in> objects t" using st that by (simp_all add: event_frame_def)
    then show ?thesis using tu sub that by (auto simp: event_frame_def)
  qed
  moreover have "dom (nodes s) \<subseteq> dom (nodes t)" "dom (nodes t) \<subseteq> dom (nodes u)" using st tu by (simp_all add: event_frame_def)
  moreover have "\<forall>l. l \<noteq> EventList \<longrightarrow> lists u l = lists s l" using st tu by (simp add: event_frame_def)
  ultimately show ?thesis unfolding event_frame_def by (blast intro: subset_trans)
qed

lemma event_frame_refresh: "event_frame s (s\<lparr>events := e\<rparr>) xs"
proof -
  have "\<exists>hp pt h ls e'. s\<lparr>events := e\<rparr> = s\<lparr>OsHeap := hp, PoolTable := pt, nodes := h, lists := ls, events := e'\<rparr>"
    by (intro exI [of _ "OsHeap s"] exI [of _ "PoolTable s"] exI [of _ "nodes s"] exI [of _ "lists s"] exI [of _ e]) simp
  then show ?thesis unfolding event_frame_def using objects_cong(1) [of "s\<lparr>events := e\<rparr>" s] by auto
qed

text \<open>One emitted event, in short.\<close>

definition queue_id :: "Id_t \<Rightarrow> Id_t list \<Rightarrow> Id_t list" where
  "queue_id h q = (if h \<in> set q then q else q @ [h])"

lemma EventEmit_step:
  assumes "events_ok s xs m" and "3 \<le> m" and "length xs < 255"
  shows "\<exists>r t ys. EventEmit src code flgs s = Some (r, t) \<and> events_ok t ys (m - 3) \<and> event_frame s t xs \<and>
    map (nid t) ys = queue_id (event_id src code) (map (nid s) xs) \<and> set xs \<subseteq> set ys \<and> set ys \<inter> objects s \<subseteq> set xs"
proof (cases "event_id src code \<in> nid s ` set xs")
  case True
  obtain x e where x: "x \<in> set xs" "event_at x s = Some e"
    "EventEmit src code flgs s = Some (OS_RES_FAIL, s\<lparr>events := (events s)(x \<mapsto> e\<lparr>life_time_us_cnt := 0\<rparr>)\<rparr>)"
    using EventEmit_pending [OF assms(1) True, of flgs] by blast
  let ?t = "s\<lparr>events := (events s)(x \<mapsto> e\<lparr>life_time_us_cnt := 0\<rparr>)\<rparr>"
  have "events_ok s xs (m - 3)" using assms(1) roomy_le [of m _ "m - 3"] by (auto simp: events_ok_def objects_ok_def)
  then have "events_ok ?t xs (m - 3)" by (rule events_ok_refresh [OF _ x(2)])
  moreover have "map (nid ?t) xs = queue_id (event_id src code) (map (nid s) xs)"
    using True by (simp add: queue_id_def nid_def)
  ultimately show ?thesis using x(3) event_frame_refresh by (intro exI [of _ OS_RES_FAIL] exI [of _ ?t] exI [of _ xs]) auto
next
  case False
  obtain t p where t: "EventEmit src code flgs s = Some (OS_RES_OK, t)" "p \<notin> set xs" "events_ok t (xs @ [p]) (m - 3)"
    "nid t p = event_id src code" "\<forall>x \<in> set xs. nid t x = nid s x" "event_frame s t xs" "p \<notin> objects s"
    using EventEmit_new [OF assms(1) False assms(2,3), of flgs] by blast
  moreover have "map (nid t) (xs @ [p]) = queue_id (event_id src code) (map (nid s) xs)"
    using False t(4,5) by (simp add: queue_id_def)
  ultimately show ?thesis by (intro exI [of _ OS_RES_OK] exI [of _ t] exI [of _ "xs @ [p]"]) auto
qed

text \<open>
  The same with the room counted in places for events: an event costs one when it is new and nothing when it is pending.
\<close>

lemma events_ok_slots: "events_ok s xs 0 \<Longrightarrow> object_slots s (Suc k) \<Longrightarrow> events_ok s xs 3"
  using objects_ok_slots by (auto simp: events_ok_def)

lemma EventEmit_slot:
  assumes "events_ok s xs 0" and room: "event_id src code \<notin> nid s ` set xs \<Longrightarrow> object_slots s 1 \<and> length xs < 255"
  shows "\<exists>r t ys. EventEmit src code flgs s = Some (r, t) \<and> events_ok t ys 0 \<and> event_frame s t xs \<and>
    map (nid t) ys = queue_id (event_id src code) (map (nid s) xs) \<and> set ys \<inter> objects s \<subseteq> set xs \<and> objects_kept s t \<and>
    (\<forall>k. object_slots s (k + (if event_id src code \<in> nid s ` set xs then 0 else 1)) \<longrightarrow> object_slots t k)"
proof (cases "event_id src code \<in> nid s ` set xs")
  case True
  obtain x e where x: "x \<in> set xs" "event_at x s = Some e"
    "EventEmit src code flgs s = Some (OS_RES_FAIL, s\<lparr>events := (events s)(x \<mapsto> e\<lparr>life_time_us_cnt := 0\<rparr>)\<rparr>)"
    using EventEmit_pending [OF assms(1) True, of flgs] by blast
  let ?t = "s\<lparr>events := (events s)(x \<mapsto> e\<lparr>life_time_us_cnt := 0\<rparr>)\<rparr>"
  have "events_ok ?t xs 0" by (rule events_ok_refresh [OF assms(1) x(2)])
  moreover have "map (nid ?t) xs = queue_id (event_id src code) (map (nid s) xs)" using True by (simp add: queue_id_def nid_def)
  moreover have "objects_kept s ?t" "object_slots ?t k = object_slots s k" for k by (rule objects_kept_cong; simp)+
  ultimately show ?thesis using x(3) event_frame_refresh True by (intro exI [of _ OS_RES_FAIL] exI [of _ ?t] exI [of _ xs]) auto
next
  case False
  have ev: "events_ok s xs 3" "length xs < 255" using events_ok_slots [OF assms(1), of 0] room [OF False] by simp_all
  obtain t p where t: "EventEmit src code flgs s = Some (OS_RES_OK, t)" "p \<notin> set xs" "events_ok t (xs @ [p]) (3 - 3)"
    "nid t p = event_id src code" "\<forall>x \<in> set xs. nid t x = nid s x" "event_frame s t xs" "p \<notin> objects s"
    "objects_kept s t" "\<forall>k. object_slots s (Suc k) \<longrightarrow> object_slots t k"
    using EventEmit_new [OF ev(1) False order_refl ev(2), of flgs] by blast
  moreover have "map (nid t) (xs @ [p]) = queue_id (event_id src code) (map (nid s) xs)" using False t(4,5) by (simp add: queue_id_def)
  ultimately show ?thesis using False by (intro exI [of _ OS_RES_OK] exI [of _ t] exI [of _ "xs @ [p]"]) auto
qed

lemma object_list_keep:
  assumes "object_list s l gs" and "lists t l = lists s l" and n: "\<And>y. y \<in> set gs \<Longrightarrow> nodes t y = nodes s y"
    and d: "dom (nodes s) \<subseteq> dom (nodes t)"
  shows "object_list t l gs"
proof -
  have "dseg (nodes t) NULL gs NULL = dseg (nodes s) NULL gs NULL" using n by (intro dseg_cong) auto
  moreover have "ll_at l t = ll_at l s" using assms(2) by (simp add: ll_at_def)
  moreover have "(\<exists>m. node_at p s = Some m) \<longrightarrow> (\<exists>m. node_at p t = Some m)" for p
    using d by (auto simp: node_at_def dom_def subset_iff)
  moreover have ids: "map (nid t) gs = map (nid s) gs" using n by (simp add: nid_def)
  moreover have "searchable s l gs" using assms(1) by (simp add: object_list_def)
  ultimately have "searchable t l gs" unfolding searchable_def is_list_def by metis
  moreover have "distinct (map (nid t) gs)" using assms(1) unfolding ids object_list_def by simp
  ultimately show ?thesis using assms(1,2) n by (simp add: object_list_def list_unlocked_def ll_at_def split: if_splits)
qed

lemma dom_node_lock_set: "nodes s x \<noteq> None \<Longrightarrow> dom (nodes (node_lock_set x v s)) = dom (nodes s)"
  by (auto simp: node_lock_set_def)

lemma event_frame_dom: "event_frame s t xs \<Longrightarrow> dom (nodes s) \<subseteq> dom (nodes t)"
  by (simp add: event_frame_def)

text \<open>
  What an event costs: nothing when it is pending already. \<open>events_missing\<close> counts the events of a list that are not pending;
  emitting one of them pays for itself.
\<close>

definition event_cost :: "Id_t \<Rightarrow> Id_t list \<Rightarrow> nat" where
  "event_cost e pending = (if e \<in> set pending then 0 else 1)"

definition events_missing :: "Id_t list \<Rightarrow> Id_t list \<Rightarrow> nat" where
  "events_missing E pending = length (filter (\<lambda>e. e \<notin> set pending) E)"

lemma events_missing_queue_id:
  assumes "e \<in> set E"
  shows "event_cost e p + events_missing E (queue_id e p) \<le> events_missing E p"
proof (cases "e \<in> set p")
  case False
  have "filter (\<lambda>x. x \<notin> set (queue_id e p)) E = filter (\<lambda>x. x \<noteq> e) (filter (\<lambda>x. x \<notin> set p) E)"
    using False by (auto simp: queue_id_def intro: filter_cong)
  moreover have "e \<in> set (filter (\<lambda>x. x \<notin> set p) E)" using assms False by simp
  then have "length (filter (\<lambda>x. x \<noteq> e) (filter (\<lambda>x. x \<notin> set p) E)) < length (filter (\<lambda>x. x \<notin> set p) E)"
    by (rule length_filter_less) simp
  ultimately show ?thesis using False by (simp add: event_cost_def events_missing_def)
qed (simp add: event_cost_def queue_id_def)

lemma event_cost_le: "e \<in> set E \<Longrightarrow> event_cost e p \<le> events_missing E p"
  using events_missing_queue_id [of e E p] by simp

lemma length_queue_id: "length (queue_id e p) = length p + event_cost e p"
  by (simp add: queue_id_def event_cost_def)

subsection \<open>A concrete heap\<close>

text \<open>An object pool of 32 blocks; the first four are the object at 0x1004, the next four the one at 0x1044.\<close>

definition pool_512 :: shell_state where
  "pool_512 = event_start\<lparr>TotalHeapSize := 512, HeapIndexEnd := 511,
     PoolTable := [\<lparr>start_index = 0, end_index = 511, pool_size = 512, mem_left = 512, pmb_N = 0\<rparr>],
     KernelReg := (KernelReg core_bss)\<lparr>kr_tcb_running := 0x1044\<rparr>\<rparr>"

definition msg_heap :: shell_state where
  "msg_heap = alloc_state 0 64 4 (alloc_state 0 0 4 pool_512)"

lemma pool_512_used [simp]: "pool_used pool_512 i \<longleftrightarrow> i = 0"
  by (cases i) (simp_all add: pool_512_def event_start_def)

lemma pool_512_wf: "mem_wf pool_512 (\<lambda>_. replicate 32 Free)"
proof -
  have "pool_ok pool_512 0 (replicate 32 Free)"
    by (simp add: pool_ok_def Let_def pool_512_def event_start_def layout_frees)
  then show ?thesis unfolding mem_wf_def by (auto simp: pool_512_def event_start_def)
qed

lemma msg_heap_used [simp]: "pool_used msg_heap 0"
  by (simp add: msg_heap_def alloc_state_def Pool_update_def pool_512_def event_start_def)

lemma msg_heap_wf: "\<exists>B. mem_wf msg_heap B \<and> B 0 = Used 4 # Used 4 # replicate 24 Free"
proof -
  have r: "replicate 32 Free = replicate 4 Free @ replicate 28 Free" "replicate 28 Free = replicate 4 Free @ replicate 24 Free"
    unfolding replicate_add [symmetric] by simp_all
  have "start_index (PoolTable pool_512 ! 0) = 0" by (simp add: pool_512_def)
  then have wf: "mem_wf (alloc_state 0 0 4 pool_512) ((\<lambda>_. replicate 32 Free)(0 := Used 4 # replicate 28 Free))" (is "mem_wf ?s ?B")
    using mem_wf_alloc [OF pool_512_wf, of 0 "[]" 4 "replicate 28 Free"] r(1) by simp
  have "start_index (PoolTable ?s ! 0) = 0" "pool_used ?s 0"
    by (simp_all add: alloc_state_def Pool_update_def pool_512_def event_start_def)
  then have "mem_wf msg_heap (?B(0 := Used 4 # Used 4 # replicate 24 Free))"
    using mem_wf_alloc [OF wf, of 0 "[Used 4]" 4 "replicate 24 Free"] r(2) by (simp add: msg_heap_def)
  then show ?thesis by (intro exI conjI, assumption) simp
qed

lemma msg_heap_objects: "objects_ok msg_heap 24" "objects msg_heap = {0x1004, 0x1044}"
proof -
  obtain B where B: "mem_wf msg_heap B" "B 0 = Used 4 # Used 4 # replicate 24 Free" using msg_heap_wf by blast
  have k: "KernelReg msg_heap = (KernelReg core_bss)\<lparr>kr_tcb_running := 0x1044\<rparr>" "GlobalIntEnabled msg_heap" "ObjectPoolId msg_heap = 0" "HeapBase msg_heap = 0x1000"
      "start_index (PoolTable msg_heap ! 0) = 0"
    by (simp_all add: msg_heap_def alloc_state_def Pool_update_def pool_512_def) (simp_all add: event_start_def)
  have "roomy 24 (Used 4 # Used 4 # replicate 24 Free)"
    using roomy_append [of 24 "replicate 24 Free" "[Used 4, Used 4]" "[]"] by (simp add: roomy_def) (metis append_Nil append_Nil2)
  then show "objects_ok msg_heap 24"
    unfolding objects_ok_def k using B event_start_kernel
    by (intro conjI exI [of _ B]) (simp_all add: crit_ok_def kernel_ok_def core_bss_def KCoreFlagGet_def k)
  have "pool_ok msg_heap 0 (Used 4 # Used 4 # replicate 24 Free)" using mem_wf_pool [OF B(1), of 0] B(2) by simp
  then show "objects msg_heap = {0x1004, 0x1044}" unfolding objects_def k by (simp add: pool_live_eq k eval_nat_numeral)
qed


lemma msg_heap_slots: "object_slots msg_heap 8"
proof -
  obtain B where B: "mem_wf msg_heap B" "B 0 = Used 4 # Used 4 # replicate 24 Free" using msg_heap_wf by blast
  have "pool_ok msg_heap 0 (Used 4 # Used 4 # replicate 24 Free)" using mem_wf_pool [OF B(1), of 0] B(2) by simp
  moreover have "ObjectPoolId msg_heap = 0" by (simp add: msg_heap_def alloc_state_def Pool_update_def pool_512_def)
  moreover have "slots 0 (Used 4 # Used 4 # replicate 24 Free) = 8" using slots_frees [of 0 24 "[]"] by simp
  ultimately show ?thesis unfolding object_slots_def by force
qed

end
