(* ===== verification/RingProps.thy ===== *)
theory RingProps
  imports Access Sample Queue
begin

text \<open>
  The ring buffer as a bounded queue of bytes: the copy loops of \<open>RingbufWrite\<close> and \<open>RingbufRead\<close>, and the calls around them with their
  locks and events, against a list; and what happens beyond the limits that the loops do not check.
\<close>

subsection \<open>Memory\<close>

lemma heap_index_inj: "heap_index a s = Some i \<Longrightarrow> heap_index b s = Some i \<Longrightarrow> a = b"
  by (auto simp: heap_index_def split: if_splits)

lemma any_read_ringbufs [simp]: "any_read b (s\<lparr>ringbufs := f\<rparr>) = any_read b s"
  by (simp add: any_read_def heap_index_def)

lemma any_write_all:
  assumes "any_read a s \<noteq> None"
  shows "\<exists>t. any_write a v s = Some t \<and> (\<forall>b. any_read b t = (if b = a then Some v else any_read b s)) \<and> ringbufs t = ringbufs s"
proof (cases "heap_index a s")
  case None
  then have "any_write a v s = Some (s\<lparr>user_mem := (user_mem s)(a \<mapsto> v)\<rparr>)" using assms by (simp add: any_write_def any_read_def)
  moreover have "any_read b (s\<lparr>user_mem := (user_mem s)(a \<mapsto> v)\<rparr>) = (if b = a then Some v else any_read b s)" for b
    using None by (cases "heap_index b s") (auto simp: any_read_def heap_index_def split: if_splits)
  ultimately show ?thesis by simp
next
  case (Some i)
  then have "any_write a v s = Some (s\<lparr>OsHeap := (OsHeap s)(i := v)\<rparr>)" by (simp add: any_write_def)
  moreover have "any_read b (s\<lparr>OsHeap := (OsHeap s)(i := v)\<rparr>) = (if b = a then Some v else any_read b s)" for b
  proof -
    have "heap_index b (s\<lparr>OsHeap := f\<rparr>) = heap_index b s" for f by (simp add: heap_index_def)
    with Some heap_index_inj [OF Some, of b] show ?thesis by (cases "heap_index b s") (auto simp: any_read_def)
  qed
  ultimately show ?thesis by simp
qed

text \<open>The \<open>n\<close> bytes from \<open>b\<close> on are memory of the application, or lie in a live block of the object pool.\<close>

definition cells_ok :: "'a ringbuf_state_scheme \<Rightarrow> ptr \<Rightarrow> nat \<Rightarrow> bool" where
  "cells_ok s b n \<longleftrightarrow> (\<forall>i < n. heap_index (b + i) s = None \<and> user_mem s (b + i) \<noteq> None) \<or>
     (\<exists>m \<ge> n. (b, m) \<in> pool_live (ObjectPoolId s) s)"

text \<open>What writing into such bytes and updating ring buffers leaves as it is.\<close>

definition cells_frame :: "'a ringbuf_state_scheme \<Rightarrow> 'a ringbuf_state_scheme \<Rightarrow> bool" where
  "cells_frame s t \<longleftrightarrow> (\<exists>hp um rb. t = s\<lparr>OsHeap := hp, user_mem := um, ringbufs := rb\<rparr>) \<and> (\<forall>x. user_mem t x = None \<longleftrightarrow> user_mem s x = None) \<and>
     (objects_ok s 0 \<longrightarrow> objects_ok t 0) \<and> (\<forall>k. object_slots t k = object_slots s k) \<and>
     pool_live (ObjectPoolId s) t = pool_live (ObjectPoolId s) s"

lemma cells_frame_trans:
  assumes "cells_frame s t" and "cells_frame t u"
  shows "cells_frame s u"
proof -
  obtain hp um rb where t: "t = s\<lparr>OsHeap := hp, user_mem := um, ringbufs := rb\<rparr>" using assms(1) unfolding cells_frame_def by blast
  obtain hp' um' rb' where "u = t\<lparr>OsHeap := hp', user_mem := um', ringbufs := rb'\<rparr>" using assms(2) unfolding cells_frame_def by blast
  then have "u = s\<lparr>OsHeap := hp', user_mem := um', ringbufs := rb'\<rparr>" by (simp add: t)
  then have "\<exists>hp um rb. u = s\<lparr>OsHeap := hp, user_mem := um, ringbufs := rb\<rparr>" by blast
  moreover have "ObjectPoolId t = ObjectPoolId s" by (simp add: t)
  ultimately show ?thesis using assms unfolding cells_frame_def by simp
qed

lemma cells_frame_ringbufs: "cells_frame s (s\<lparr>ringbufs := f\<rparr>)"
proof -
  have "\<exists>hp um rb. s\<lparr>ringbufs := f\<rparr> = s\<lparr>OsHeap := hp, user_mem := um, ringbufs := rb\<rparr>"
    by (intro exI [of _ "OsHeap s"] exI [of _ "user_mem s"] exI [of _ f]) simp
  moreover have "objects_ok (s\<lparr>ringbufs := f\<rparr>) 0 = objects_ok s 0" by (rule objects_cong(2); simp)
  moreover have "object_slots (s\<lparr>ringbufs := f\<rparr>) k = object_slots s k" "pool_live pid (s\<lparr>ringbufs := f\<rparr>) = pool_live pid s" for k pid
    by (rule objects_kept_cong(2,3); simp)+
  ultimately show ?thesis by (simp add: cells_frame_def)
qed

lemma cells_frame_cells:
  assumes "cells_frame s t" and "cells_ok s b n"
  shows "cells_ok t b n"
proof -
  obtain hp um rb where "t = s\<lparr>OsHeap := hp, user_mem := um, ringbufs := rb\<rparr>" using assms(1) unfolding cells_frame_def by blast
  then have "heap_index x t = heap_index x s" "ObjectPoolId t = ObjectPoolId s" for x by (simp_all add: heap_index_def)
  then show ?thesis using assms by (simp add: cells_frame_def cells_ok_def)
qed

text \<open>The address of a byte of a live block.\<close>

lemma live_index:
  assumes "objects_ok s 0" and "(b, m) \<in> pool_live (ObjectPoolId s) s" and "i < m"
  shows "heap_index (b + i) s = Some (b + i - HeapBase s)"
  using object_poke(5,6) [OF assms] by (simp add: heap_index_def)

lemma cells_write:
  assumes ok: "objects_ok s 0" and c: "cells_ok s b n" and i: "i < n"
  shows "\<exists>t. any_write (b + i) v s = Some t \<and> cells_frame s t"
  using c unfolding cells_ok_def
proof
  assume u: "\<forall>i < n. heap_index (b + i) s = None \<and> user_mem s (b + i) \<noteq> None"
  let ?t = "s\<lparr>user_mem := (user_mem s)(b + i \<mapsto> v)\<rparr>"
  have "any_write (b + i) v s = Some ?t" using u i by (simp add: any_write_def)
  moreover have "\<exists>hp um rb. ?t = s\<lparr>OsHeap := hp, user_mem := um, ringbufs := rb\<rparr>"
    by (intro exI [of _ "OsHeap s"] exI [of _ "(user_mem s)(b + i \<mapsto> v)"] exI [of _ "ringbufs s"]) simp
  moreover have "objects_ok ?t 0 = objects_ok s 0" by (rule objects_cong(2); simp)
  moreover have "object_slots ?t k = object_slots s k" "pool_live pid ?t = pool_live pid s" for k pid
    by (rule objects_kept_cong(2,3); simp)+
  ultimately show ?thesis using u i by (auto simp: cells_frame_def)
next
  assume "\<exists>m \<ge> n. (b, m) \<in> pool_live (ObjectPoolId s) s"
  then obtain m where m: "(b, m) \<in> pool_live (ObjectPoolId s) s" "i < m" using i by auto
  let ?t = "heap_poke (b + i) v s"
  have "any_write (b + i) v s = Some ?t" using live_index [OF ok m] by (simp add: any_write_def heap_poke_def)
  moreover have "\<exists>hp um rb. ?t = s\<lparr>OsHeap := hp, user_mem := um, ringbufs := rb\<rparr>"
    by (intro exI [of _ "OsHeap ?t"] exI [of _ "user_mem s"] exI [of _ "ringbufs s"]) (simp add: heap_poke_def)
  moreover have "user_mem ?t = user_mem s" by (simp add: heap_poke_def)
  ultimately show ?thesis using object_poke [OF ok m] by (simp add: cells_frame_def)
qed

text \<open>Live blocks keep their bytes when events are emitted.\<close>

lemma cells_kept:
  assumes ok: "objects_ok s 0" "objects_ok t 0" and c: "cells_ok s b n" and k: "objects_kept s t"
    and e: "HeapBase t = HeapBase s" "TotalHeapSize t = TotalHeapSize s" "user_mem t = user_mem s"
  shows "cells_ok t b n" and "i < n \<Longrightarrow> any_read (b + i) t = any_read (b + i) s"
proof -
  have x: "heap_index y t = heap_index y s" "ObjectPoolId t = ObjectPoolId s" for y using e k by (simp_all add: heap_index_def objects_kept_def)
  show "cells_ok t b n" using c k e x by (auto simp: cells_ok_def objects_kept_def)
  assume i: "i < n"
  show "any_read (b + i) t = any_read (b + i) s"
  proof (cases "heap_index (b + i) s")
    case None
    then show ?thesis by (simp add: any_read_def x e)
  next
    case (Some a)
    then obtain m where m: "(b, m) \<in> pool_live (ObjectPoolId s) s" "i < m" using c i by (auto simp: cells_ok_def)
    then have "heap_peek t (b + i) = heap_peek s (b + i)" using k by (simp add: objects_kept_def)
    then show ?thesis using live_index [OF ok(1) m] by (simp add: any_read_def x heap_peek_def e)
  qed
qed

subsection \<open>Indices\<close>

text \<open>The position \<open>j\<close> places behind the last byte that was read.\<close>

definition slot :: "Ringbuf_t \<Rightarrow> nat \<Rightarrow> nat" where
  "slot r j = (unat (read_index r) + 1 + j) mod unat (rb_size r)"

lemma next_index:
  assumes "unat i < unat (rb_size r)"
  shows "unat (IRingbufBlockNextGet r i) = (unat i + 1) mod unat (rb_size r)"
proof (cases "i = rb_size r - 1")
  case True
  have "rb_size r \<noteq> 0" using assms by auto
  then have "unat i + 1 = unat (rb_size r)" using True by (simp add: unat_minus_one unat_gt_0)
  then show ?thesis using True by (simp add: IRingbufBlockNextGet_def)
next
  case False
  have "rb_size r \<noteq> 0" using assms by auto
  then have "unat i \<noteq> unat (rb_size r) - 1" using False by (simp add: word_unat_eq_iff unat_minus_one)
  then have "unat i + 1 < unat (rb_size r)" using assms by linarith
  moreover have "unat (i + 1) = unat i + 1" using calculation U32_less [of "rb_size r"]
    by (intro unat_inc) auto
  ultimately show ?thesis using False by (simp add: IRingbufBlockNextGet_def)
qed

lemma slot_lt: "0 < unat (rb_size r) \<Longrightarrow> slot r j < unat (rb_size r)"
  by (simp add: slot_def)

lemma slot_inj: "slot r i = slot r j \<Longrightarrow> i < unat (rb_size r) \<Longrightarrow> j < unat (rb_size r) \<Longrightarrow> i = j"
  unfolding slot_def by (rule mod_add_inj)

subsection \<open>The bytes in the buffer\<close>

text \<open>
  The ring buffer at \<open>p\<close> with the block of memory of its buffer holds the bytes \<open>q\<close>: the one after the read index is the
  oldest, and the write index is behind the last, which in a full buffer is where the oldest is.
\<close>

definition ring :: "ptr \<Rightarrow> 'a ringbuf_state_scheme \<Rightarrow> Ringbuf_t \<Rightarrow> U8_t list \<Rightarrow> bool" where
  "ring p s r q \<longleftrightarrow> ringbuf_at p s = Some r \<and> unat (read_index r) < unat (rb_size r) \<and>
     (\<forall>i < unat (rb_size r). any_read (rb_buffer r + i) s \<noteq> None) \<and>
     length q \<le> unat (rb_size r) \<and> unat (dcount r) = length q \<and> unat (write_index r) = slot r (length q) \<and>
     (\<forall>j < length q. any_read (rb_buffer r + slot r j) s = Some (q ! j))"

text \<open>The ring buffer after a byte was written, and after one was read.\<close>

definition written :: "Ringbuf_t \<Rightarrow> Ringbuf_t" where
  "written r = r\<lparr>dcount := dcount r + 1, write_index := IRingbufBlockNextGet r (write_index r)\<rparr>"

definition taken :: "Ringbuf_t \<Rightarrow> Ringbuf_t" where
  "taken r = r\<lparr>read_index := IRingbufBlockNextGet r (read_index r), dcount := dcount r - 1\<rparr>"

lemma written_simps [simp]: "rb_size (written r) = rb_size r" "rb_buffer (written r) = rb_buffer r" "rw_lock (written r) = rw_lock r"
  "read_index (written r) = read_index r" "rb_size (taken r) = rb_size r" "rb_buffer (taken r) = rb_buffer r" "rw_lock (taken r) = rw_lock r"
  by (simp_all add: written_def taken_def)

lemma ring_write1:
  assumes ring: "ring p s r q" and room: "length q < unat (rb_size r)"
  obtains t where "any_write (rb_buffer r + unat (write_index r)) v s = Some t"
    "ring p (t\<lparr>ringbufs := (ringbufs t)(p \<mapsto> written r)\<rparr>) (written r) (q @ [v])" "ringbufs t = ringbufs s"
proof -
  have s: "ringbuf_at p s = Some r" "unat (read_index r) < unat (rb_size r)"
    "\<And>i. i < unat (rb_size r) \<Longrightarrow> any_read (rb_buffer r + i) s \<noteq> None" "unat (dcount r) = length q"
    "unat (write_index r) = slot r (length q)" "\<And>j. j < length q \<Longrightarrow> any_read (rb_buffer r + slot r j) s = Some (q ! j)"
    using ring by (auto simp: ring_def)
  have n: "0 < unat (rb_size r)" using s(2) by simp
  have w: "unat (write_index r) < unat (rb_size r)" using s(5) slot_lt [OF n] by simp
  obtain t where t: "any_write (rb_buffer r + unat (write_index r)) v s = Some t"
    "\<And>b. any_read b t = (if b = rb_buffer r + unat (write_index r) then Some v else any_read b s)" "ringbufs t = ringbufs s"
    using any_write_all [OF s(3) [OF w], of v] by blast
  have slot: "slot (written r) j = slot r j" for j by (simp add: slot_def)
  have "unat (dcount (written r)) = Suc (length q)"
    using room U32_less [of "rb_size r"] s(4) by (simp add: written_def) (subst unat_inc, auto)
  moreover have "unat (write_index (written r)) = slot r (Suc (length q))"
    using next_index [OF w] s(5) by (simp add: written_def slot_def mod_Suc_eq)
  moreover have "any_read (rb_buffer r + slot r j) t = Some ((q @ [v]) ! j)" if "j < Suc (length q)" for j
  proof (cases "j = length q")
    case False
    then have "slot r j \<noteq> slot r (length q)" using slot_inj [of r j "length q"] that room by auto
    then show ?thesis using False that s(5,6) t(2) by (simp add: nth_append)
  qed (simp add: t(2) s(5))
  moreover have "any_read (rb_buffer r + i) t \<noteq> None" if "i < unat (rb_size r)" for i using s(3) [OF that] t(2) by simp
  moreover have "p \<noteq> NULL" using s(1) by (auto simp: ringbuf_at_def split: if_splits)
  ultimately have "ring p (t\<lparr>ringbufs := (ringbufs t)(p \<mapsto> written r)\<rparr>) (written r) (q @ [v])"
    using s(2) room by (auto simp: ring_def ringbuf_at_def slot)
  then show thesis using that t(1,3) by blast
qed

lemma ring_read1:
  assumes "ring p s r (v # q)"
  shows "any_read (rb_buffer r + unat (IRingbufBlockNextGet r (read_index r))) s = Some v"
    and "ring p (s\<lparr>ringbufs := (ringbufs s)(p \<mapsto> taken r)\<rparr>) (taken r) q"
proof -
  have s: "ringbuf_at p s = Some r" "unat (read_index r) < unat (rb_size r)" "Suc (length q) \<le> unat (rb_size r)"
    "\<And>i. i < unat (rb_size r) \<Longrightarrow> any_read (rb_buffer r + i) s \<noteq> None" "unat (dcount r) = Suc (length q)"
    "unat (write_index r) = slot r (Suc (length q))" "\<And>j. j < Suc (length q) \<Longrightarrow> any_read (rb_buffer r + slot r j) s = Some ((v # q) ! j)"
    using assms by (auto simp: ring_def)
  have nx: "unat (IRingbufBlockNextGet r (read_index r)) = slot r 0" using next_index [OF s(2)] by (simp add: slot_def)
  show "any_read (rb_buffer r + unat (IRingbufBlockNextGet r (read_index r))) s = Some v" using s(7) [of 0] nx by simp
  have slot: "slot (taken r) j = slot r (Suc j)" for j
    using nx mod_add_left_eq [of "Suc (unat (read_index r))" "unat (rb_size r)" "Suc j"] by (simp add: slot_def taken_def)
  have "unat (dcount r - 1) = length q" using s(5) by (subst unat_minus_one) auto
  moreover have "p \<noteq> NULL" using s(1) by (auto simp: ringbuf_at_def split: if_splits)
  moreover have "slot r 0 < unat (rb_size r)" using s(2) by (intro slot_lt) simp
  moreover have "any_read (rb_buffer r + slot r (Suc j)) s = Some (q ! j)" if "j < length q" for j using s(7) [of "Suc j"] that by simp
  ultimately show "ring p (s\<lparr>ringbufs := (ringbufs s)(p \<mapsto> taken r)\<rparr>) (taken r) q"
    using s(3,4,6) nx by (simp add: ring_def ringbuf_at_def slot) (simp add: taken_def)
qed

subsection \<open>The loops\<close>

declare RingbufWrite_loop.simps(2) [simp del] RingbufRead_loop.simps(2) [simp del]

lemma ring_at: "ring p s r q \<Longrightarrow> ringbuf_at p s = Some r"
  by (simp add: ring_def)

text \<open>
  One turn of the write loop, when a place is free. The loop stops when one place is left, and in a buffer of one byte; it does not
  stop when a byte is written into that last place.
\<close>

lemma write_loop_step:
  assumes ring: "ring p s r q" and room: "length q < unat (rb_size r)" and i: "i < length data"
  shows "\<exists>t u. any_write (rb_buffer r + unat (write_index r)) (data ! i) s = Some u \<and>
    t = u\<lparr>ringbufs := (ringbufs u)(p \<mapsto> written r)\<rparr> \<and> ring p t (written r) (q @ [data ! i]) \<and>
    RingbufWrite_loop (Suc k) data i p s =
      (if Suc (Suc (length q)) = unat (rb_size r) \<or> unat (rb_size r) = 1 then Some (i + 1, t) else RingbufWrite_loop k data (i + 1) p t)"
proof -
  obtain u where u: "any_write (rb_buffer r + unat (write_index r)) (data ! i) s = Some u" "ringbufs u = ringbufs s"
    and t: "ring p (u\<lparr>ringbufs := (ringbufs u)(p \<mapsto> written r)\<rparr>) (written r) (q @ [data ! i])"
    by (rule ring_write1 [OF ring room])
  have ru: "ringbuf_at p u = Some r" using u(2) ring_at [OF ring] by (auto simp: ringbuf_at_def split: if_splits)
  have d: "dcount (written r) \<noteq> 0" using t by (auto simp: ring_def)
  have "unat (read_index r) = slot r (unat (rb_size r) - 1)" using ring by (simp add: slot_def ring_def)
  moreover have "unat (write_index (written r)) = slot r (Suc (length q))" using t by (simp add: ring_def slot_def)
  moreover have "slot r (Suc (length q)) = slot r (unat (rb_size r) - 1) \<longleftrightarrow> Suc (Suc (length q)) = unat (rb_size r) \<or> unat (rb_size r) = 1"
  proof (cases "Suc (length q) = unat (rb_size r)")
    case True
    have "slot r (Suc (length q)) = slot r 0" unfolding slot_def True by (simp only: mod_add_self2 add_0_right)
    moreover have "slot r 0 = slot r (unat (rb_size r) - 1) \<longleftrightarrow> unat (rb_size r) = 1"
    proof
      assume e: "slot r 0 = slot r (unat (rb_size r) - 1)"
      have lt: "0 < unat (rb_size r)" "unat (rb_size r) - 1 < unat (rb_size r)" using room by linarith+
      have "0 = unat (rb_size r) - 1" by (rule slot_inj [OF e lt])
      then show "unat (rb_size r) = 1" using room by simp
    qed simp
    moreover have "Suc (Suc (length q)) \<noteq> unat (rb_size r)" using True by simp
    ultimately show ?thesis by simp
  next
    case False
    then have "slot r (Suc (length q)) = slot r (unat (rb_size r) - 1) \<longleftrightarrow> Suc (length q) = unat (rb_size r) - 1"
      using slot_inj [of r "Suc (length q)" "unat (rb_size r) - 1"] room by auto
    then show ?thesis using False room by auto
  qed
  ultimately have full: "write_index (written r) = read_index r \<longleftrightarrow> Suc (Suc (length q)) = unat (rb_size r) \<or> unat (rb_size r) = 1"
    by (simp add: word_unat_eq_iff)
  show ?thesis
    using t u(1) ru d full i ring_at [OF ring] ring_at [OF t]
    by (intro exI [of _ "u\<lparr>ringbufs := (ringbufs u)(p \<mapsto> written r)\<rparr>"] exI [of _ u])
      (simp add: ringbuf_update_def RingbufWrite_loop.simps(2) written_def)
qed

text \<open>How many bytes one call writes at most into a buffer of \<open>n\<close> bytes that holds \<open>l\<close> and is not full.\<close>

definition ring_space :: "nat \<Rightarrow> nat \<Rightarrow> nat" where
  "ring_space n l = (if Suc l = n then 1 else n - 1 - l)"

lemma write_loop:
  assumes "ring p s r q" and "length q < unat (rb_size r)" and "i + k \<le> length data"
    and "Suc (length q) = unat (rb_size r) \<Longrightarrow> k \<le> 1 \<or> unat (rb_size r) = 1"
    and "objects_ok s 0" and "cells_ok s (rb_buffer r) (unat (rb_size r))"
  shows "\<exists>t d w. RingbufWrite_loop k data i p s = Some (i + min k (ring_space (unat (rb_size r)) (length q)), t) \<and>
    ring p t (r\<lparr>dcount := d, write_index := w\<rparr>) (q @ take (min k (ring_space (unat (rb_size r)) (length q))) (drop i data)) \<and>
    cells_frame s t"
  using assms
proof (induction k arbitrary: s r q i)
  case 0
  have "cells_frame s s" using cells_frame_ringbufs [of s "ringbufs s"] by simp
  then show ?case using 0 by (intro exI [of _ s] exI [of _ "dcount r"] exI [of _ "write_index r"]) simp
next
  case (Suc k)
  let ?n = "unat (rb_size r)"
  have i: "i < length data" using Suc.prems(3) by simp
  obtain t u where u: "any_write (rb_buffer r + unat (write_index r)) (data ! i) s = Some u"
      "t = u\<lparr>ringbufs := (ringbufs u)(p \<mapsto> written r)\<rparr>"
    and t: "ring p t (written r) (q @ [data ! i])" "RingbufWrite_loop (Suc k) data i p s =
      (if Suc (Suc (length q)) = ?n \<or> ?n = 1 then Some (i + 1, t) else RingbufWrite_loop k data (i + 1) p t)"
    using write_loop_step [OF Suc.prems(1,2) i] by blast
  have "unat (write_index r) < ?n" using Suc.prems(1,2) slot_lt [of r] by (simp add: ring_def)
  then have "cells_frame s u" using cells_write [OF Suc.prems(5,6), of "unat (write_index r)" "data ! i"] u(1) by auto
  then have fr: "cells_frame s t" unfolding u(2) by (rule cells_frame_trans [OF _ cells_frame_ringbufs])
  have one: "take (Suc n) (drop i data) = data ! i # take n (drop (i + 1) data)" for n using i by (simp add: Cons_nth_drop_Suc [symmetric])
  show ?case
  proof (cases "Suc (length q) = ?n \<or> Suc (Suc (length q)) = ?n")
    case True
    then have m: "min (Suc k) (ring_space ?n (length q)) = 1" by (auto simp: ring_space_def)
    have "RingbufWrite_loop (Suc k) data i p s = Some (i + 1, t)"
    proof (cases "Suc (Suc (length q)) = ?n \<or> ?n = 1")
      case False
      then have "k = 0" using True Suc.prems(4) by auto
      then show ?thesis using t(2) by simp
    qed (simp add: t(2))
    then show ?thesis using t(1) fr one [of 0] unfolding m written_def by (intro exI [of _ t] exI [of _ "dcount r + 1"] exI) auto
  next
    case False
    then have m: "min (Suc k) (ring_space ?n (length q)) = Suc (min k (ring_space ?n (length (q @ [data ! i]))))" and n: "?n \<noteq> 1"
      using Suc.prems(2) by (auto simp: ring_space_def)
    have "cells_ok t (rb_buffer (written r)) (unat (rb_size (written r)))" using cells_frame_cells [OF fr Suc.prems(6)] by simp
    moreover have "objects_ok t 0" using fr Suc.prems(5) by (simp add: cells_frame_def)
    ultimately obtain v d w where v: "RingbufWrite_loop k data (i + 1) p t = Some (i + 1 + min k (ring_space ?n (length (q @ [data ! i]))), v)"
      "ring p v ((written r)\<lparr>dcount := d, write_index := w\<rparr>) ((q @ [data ! i]) @ take (min k (ring_space ?n (length (q @ [data ! i])))) (drop (i + 1) data))"
      "cells_frame t v"
      using Suc.IH [OF t(1), of "i + 1"] Suc.prems(2,3) False by auto
    have "(written r)\<lparr>dcount := d, write_index := w\<rparr> = r\<lparr>dcount := d, write_index := w\<rparr>" by (simp add: written_def)
    then show ?thesis
      using v(1,2) cells_frame_trans [OF fr v(3)] t(2) False n one unfolding m
      by (intro exI [of _ v] exI [of _ d] exI [of _ w]) simp
  qed
qed

lemma read_loop:
  assumes "ring p s r q" and "k \<le> length q" and "i + k \<le> length target"
  shows "\<exists>t d w. RingbufRead_loop k target i p s = Some ((i + k, take i target @ take k q @ drop (i + k) target), t) \<and>
    ring p t (r\<lparr>read_index := w, dcount := d\<rparr>) (drop k q) \<and> cells_frame s t"
  using assms
proof (induction k arbitrary: s r q i target)
  case 0
  have "cells_frame s s" using cells_frame_ringbufs [of s "ringbufs s"] by simp
  then show ?case using 0 by (intro exI [of _ s] exI [of _ "dcount r"] exI [of _ "read_index r"]) simp
next
  case (Suc k)
  then obtain v q' where q: "q = v # q'" by (cases q) auto
  let ?s = "s\<lparr>ringbufs := (ringbufs s)(p \<mapsto> taken r)\<rparr>"
  have "ring p s r (v # q')" using Suc.prems(1) q by simp
  note rd = ring_read1 [OF this]
  have d: "dcount r \<noteq> 0" using Suc.prems(1) q by (auto simp: ring_def)
  have i: "i < length target" using Suc.prems(3) by simp
  have "p \<noteq> NULL" using ring_at [OF Suc.prems(1)] by (auto simp: ringbuf_at_def split: if_splits)
  then have e: "RingbufRead_loop (Suc k) target i p s = RingbufRead_loop k (target[i := v]) (i + 1) p ?s"
    using ring_at [OF Suc.prems(1)] d rd(1) i by (simp add: ringbuf_update_def ringbuf_at_def RingbufRead_loop.simps(2) taken_def)
  have "take (Suc i) (target[i := v]) = take i target @ [v]" using i by (simp add: take_Suc_conv_app_nth)
  moreover obtain t d w where "RingbufRead_loop k (target[i := v]) (i + 1) p ?s =
      Some ((i + 1 + k, take (i + 1) (target[i := v]) @ take k q' @ drop (i + 1 + k) (target[i := v])), t)"
    "ring p t ((taken r)\<lparr>read_index := w, dcount := d\<rparr>) (drop k q')" "cells_frame ?s t"
    using Suc.IH [OF rd(2), of "i + 1" "target[i := v]"] Suc.prems(2,3) q by auto
  ultimately show ?case
    using cells_frame_trans [OF cells_frame_ringbufs] unfolding e
    by (intro exI [of _ t] exI [of _ d] exI [of _ w]) (auto simp: q taken_def)
qed

subsection \<open>The ring buffer as a queue\<close>

text \<open>The events that writing and reading emit.\<close>

definition ring_events :: "Id_t \<Rightarrow> Id_t list" where
  "ring_events rid = map (event_id rid) [RINGBUF_EVENT_DATA_IN, RINGBUF_EVENT_DATA_OUT, RINGBUF_EVENT_FULL, RINGBUF_EVENT_EMPTY]"

text \<open>
  The ring buffer \<open>p\<close> with the ID \<open>rid\<close>, one of the ring buffers \<open>rs\<close>, in a state in which it can be used: the object pool and
  the list of events have room for those of its events that are not pending, and its buffer is no other object of these.
\<close>

definition ring_state :: "Id_t \<Rightarrow> ptr list \<Rightarrow> ptr \<Rightarrow> 'a ringbuf_state_scheme \<Rightarrow> Ringbuf_t \<Rightarrow> U8_t list \<Rightarrow> bool" where
  "ring_state rid rs p s r q \<longleftrightarrow> (\<exists>evs m. events_ok s evs 0 \<and> object_slots s m \<and> object_list s RingbufList rs \<and> p \<in> set rs \<and>
     nid s p = rid \<and> set rs \<subseteq> objects s \<and> set evs \<inter> set rs = {} \<and> ring p s r q \<and> cells_ok s (rb_buffer r) (unat (rb_size r)) \<and>
     ((\<forall>i < unat (rb_size r). heap_index (rb_buffer r + i) s = None) \<or> rb_buffer r \<in> objects s - (set evs \<union> set rs)) \<and>
     events_missing (ring_events rid) (map (nid s) evs) \<le> m \<and> length evs + events_missing (ring_events rid) (map (nid s) evs) \<le> 255)"

lemma ring_stateD:
  assumes "ring_state rid rs p s r q"
  shows "ring p s r q" "objects_ok s 0" "cells_ok s (rb_buffer r) (unat (rb_size r))" "IRingbufFromId rid s = Some (p, s)"
    "ringbuf_at p s = Some r"
proof -
  obtain evs where S: "events_ok s evs 0" "object_list s RingbufList rs" "p \<in> set rs" "nid s p = rid" "ring p s r q"
    "cells_ok s (rb_buffer r) (unat (rb_size r))" using assms unfolding ring_state_def by blast
  show "ring p s r q" "cells_ok s (rb_buffer r) (unat (rb_size r))" by (fact S)+
  show ok: "objects_ok s 0" using S(1) by (simp add: events_ok_def)
  show "ringbuf_at p s = Some r" by (rule ring_at [OF S(5)])
  have "ListSearch RingbufList rid s = Some (p, s)" using ListSearch_object [OF _ S(2,3)] S(4) ok by (simp add: objects_ok_def)
  moreover have "p \<noteq> NULL" by (rule object_list_nodes [OF S(2,3)])
  moreover obtain n where "nodes s p = Some n" "child n = p" using S(2,3) by (auto simp: object_list_def)
  ultimately show "IRingbufFromId rid s = Some (p, s)" by (simp add: IRingbufFromId_def ListNodeChildGet_def node_at_def)
qed

lemma ring_state_cells:
  assumes "ring_state rid rs p s r q" and fr: "cells_frame s t" and ring: "ring p t r' q'" and r: "rb_size r' = rb_size r" "rb_buffer r' = rb_buffer r"
  shows "ring_state rid rs p t r' q'"
proof -
  obtain evs m where S: "events_ok s evs 0" "object_slots s m" "object_list s RingbufList rs" "p \<in> set rs" "nid s p = rid" "set rs \<subseteq> objects s"
    "set evs \<inter> set rs = {}" "cells_ok s (rb_buffer r) (unat (rb_size r))"
    "(\<forall>i < unat (rb_size r). heap_index (rb_buffer r + i) s = None) \<or> rb_buffer r \<in> objects s - (set evs \<union> set rs)"
    "events_missing (ring_events rid) (map (nid s) evs) \<le> m" "length evs + events_missing (ring_events rid) (map (nid s) evs) \<le> 255"
    using assms(1) unfolding ring_state_def by blast
  obtain hp um rb where t: "t = s\<lparr>OsHeap := hp, user_mem := um, ringbufs := rb\<rparr>" using fr unfolding cells_frame_def by blast
  have ob: "objects t = objects s" "objects_ok t 0" "object_slots t m"
    using fr S(1,2) unfolding objects_def cells_frame_def by (simp_all add: t events_ok_def)
  have eq: "nid t = nid s" "heap_index x t = heap_index x s" for x by (simp_all add: t nid_def [abs_def] heap_index_def)
  have "set evs \<subseteq> objects t" using S(1) ob(1) by (auto simp: events_ok_def)
  then have "events_ok t evs 0" by (intro events_ok_keep [OF S(1) ob(2)]) (simp_all add: t)
  moreover have "object_list t RingbufList rs" by (rule object_list_keep [OF S(3)]) (simp_all add: t)
  moreover have "cells_ok t (rb_buffer r) (unat (rb_size r))" by (rule cells_frame_cells [OF fr S(8)])
  ultimately show ?thesis
    using S(4-7,9-11) ob ring r unfolding ring_state_def eq by (intro exI [of _ evs] exI [of _ m] conjI) simp_all
qed

lemma ring_state_emit:
  assumes st: "ring_state rid rs p s r q" and e: "event_id rid code \<in> set (ring_events rid)"
  shows "\<exists>res t. EventEmit rid code flgs s = Some (res, t) \<and> ring_state rid rs p t r q"
proof -
  let ?E = "ring_events rid" and ?n = "unat (rb_size r)"
  obtain evs m where S: "events_ok s evs 0" "object_slots s m" "object_list s RingbufList rs" "p \<in> set rs" "nid s p = rid" "set rs \<subseteq> objects s"
    "set evs \<inter> set rs = {}" "ring p s r q" "cells_ok s (rb_buffer r) ?n"
    "(\<forall>i < ?n. heap_index (rb_buffer r + i) s = None) \<or> rb_buffer r \<in> objects s - (set evs \<union> set rs)"
    "events_missing ?E (map (nid s) evs) \<le> m" "length evs + events_missing ?E (map (nid s) evs) \<le> 255"
    using st unfolding ring_state_def by blast
  define c where "c = event_cost (event_id rid code) (map (nid s) evs)"
  note cost = events_missing_queue_id [OF e, of "map (nid s) evs", folded c_def]
  have "object_slots s 1 \<and> length evs < 255" if "event_id rid code \<notin> nid s ` set evs"
    using cost S(11,12) that object_slots_le [OF S(2), of 1] by (auto simp: c_def event_cost_def)
  then obtain res t ys where t: "EventEmit rid code flgs s = Some (res, t)" "events_ok t ys 0" "event_frame s t evs"
    "map (nid t) ys = queue_id (event_id rid code) (map (nid s) evs)" "set ys \<inter> objects s \<subseteq> set evs" "objects_kept s t"
    "\<forall>k. object_slots s (k + (if event_id rid code \<in> nid s ` set evs then 0 else 1)) \<longrightarrow> object_slots t k"
    using EventEmit_slot [OF S(1), of rid code flgs] by blast
  obtain hp pt h ls ev where u: "t = s\<lparr>OsHeap := hp, PoolTable := pt, nodes := h, lists := ls, events := ev\<rparr>"
    using t(3) unfolding event_frame_def by blast
  have keep: "nodes t x = nodes s x" "x \<in> objects t" if "x \<in> set rs" for x
    using t(3) S(6,7) that unfolding event_frame_def by blast+
  have ok: "objects_ok s 0" "objects_ok t 0" using S(1) t(2) by (simp_all add: events_ok_def)
  have x: "heap_index y t = heap_index y s" for y by (simp add: u heap_index_def)
  note C = cells_kept [OF ok S(9) t(6)]
  have cells: "cells_ok t (rb_buffer r) ?n" "i < ?n \<Longrightarrow> any_read (rb_buffer r + i) t = any_read (rb_buffer r + i) s" for i
    by (rule C; simp add: u)+
  have n: "0 < ?n" using S(8) by (simp add: ring_def)
  have at: "ringbuf_at p t = ringbuf_at p s" by (simp add: u ringbuf_at_def)
  have "ring p t r q" using S(8) cells(2) slot_lt [OF n] unfolding ring_def at by simp
  moreover have "object_list t RingbufList rs"
    using t(3) keep(1) event_frame_dom [OF t(3)] by (intro object_list_keep [OF S(3)]) (auto simp: event_frame_def RingbufList_def EventList_def)
  moreover have "nid t p = rid" using S(4,5) keep(1) [of p] by (simp add: nid_def)
  moreover have "set rs \<subseteq> objects t" "set ys \<inter> set rs = {}" using keep(2) S(6,7) t(5) by blast+
  moreover have "(\<forall>i < ?n. heap_index (rb_buffer r + i) t = None) \<or> rb_buffer r \<in> objects t - (set ys \<union> set rs)"
    using S(10) t(3,5) unfolding x event_frame_def by blast
  moreover have "object_slots t (m - c)"
    using t(7) S(2,11) cost by (auto simp: c_def event_cost_def split: if_splits)
  moreover have "events_missing ?E (map (nid t) ys) \<le> m - c" using cost S(11) unfolding t(4) by simp
  moreover have "length ys = length evs + c" using arg_cong [OF t(4), of length] by (simp add: length_queue_id c_def)
  then have "length ys + events_missing ?E (map (nid t) ys) \<le> 255" using cost S(12) unfolding t(4) by simp
  ultimately have "ring_state rid rs p t r q" using t(2) S(4) cells(1) unfolding ring_state_def by blast
  then show ?thesis using t(1) by blast
qed

lemma ring_state_lock:
  assumes st: "ring_state rid rs p s r q"
  shows "ringbuf_update p (\<lambda>r. r\<lparr>rw_lock := f r\<rparr>) s = Some (s\<lparr>ringbufs := (ringbufs s)(p \<mapsto> r\<lparr>rw_lock := f r\<rparr>)\<rparr>)"
    and "ring_state rid rs p (s\<lparr>ringbufs := (ringbufs s)(p \<mapsto> r\<lparr>rw_lock := w\<rparr>)\<rparr>) (r\<lparr>rw_lock := w\<rparr>) q"
proof -
  note D = ring_stateD [OF st]
  show "ringbuf_update p (\<lambda>r. r\<lparr>rw_lock := f r\<rparr>) s = Some (s\<lparr>ringbufs := (ringbufs s)(p \<mapsto> r\<lparr>rw_lock := f r\<rparr>)\<rparr>)"
    using D(5) by (simp add: ringbuf_update_def)
  have "p \<noteq> NULL" using D(5) by (auto simp: ringbuf_at_def split: if_splits)
  moreover have "slot (r\<lparr>rw_lock := w\<rparr>) = slot r" by (simp add: slot_def fun_eq_iff)
  ultimately have "ring p (s\<lparr>ringbufs := (ringbufs s)(p \<mapsto> r\<lparr>rw_lock := w\<rparr>)\<rparr>) (r\<lparr>rw_lock := w\<rparr>) q"
    using D(1) by (simp add: ring_def ringbuf_at_def)
  then show "ring_state rid rs p (s\<lparr>ringbufs := (ringbufs s)(p \<mapsto> r\<lparr>rw_lock := w\<rparr>)\<rparr>) (r\<lparr>rw_lock := w\<rparr>) q"
    by (rule ring_state_cells [OF st cells_frame_ringbufs]) simp_all
qed

lemma ring_locks [simp]: "IRingbufLockWrite 0 = (0, 0x40)" "IRingbufUnlockWrite 0x40 = (0, 0)" "IRingbufLockRead 0 = (0, 0x80)" "IRingbufUnlockRead 0x80 = (0, 0)"
  by (simp_all add: IRingbufLockWrite_def IRingbufUnlockWrite_def IRingbufLockRead_def IRingbufUnlockRead_def RINGBUF_LOCK_WRITE_MASK_def RINGBUF_LOCK_READ_MASK_def)

text \<open>The second event of a call, emitted in one of the cases.\<close>

lemma ring_state_emit_if:
  assumes st: "ring_state rid rs p s r q" and e: "event_id rid code \<in> set (ring_events rid)"
  shows "\<exists>t. (if b then do { (e, s) \<leftarrow> EventEmit rid code flgs s; Some s } else Some s) = Some t \<and> ring_state rid rs p t r q"
  using ring_state_emit [OF st e, of flgs] st by (cases b) auto

lemma RingbufWrite_ok:
  fixes rid :: Id_t
  assumes st: "ring_state rid rs p s r q" and lock: "rw_lock r = 0" and len: "unat len \<le> length data"
  defines "n \<equiv> unat (rb_size r)"
  assumes last: "Suc (length q) = n \<Longrightarrow> unat len \<le> 1 \<or> n = 1"
  shows "if length q = n then \<exists>t. RingbufWrite rid data len timeout s = Some ((OS_RES_FAIL, 0), t) \<and> ring_state rid rs p t r q
    else \<exists>t r'. RingbufWrite rid data len timeout s = Some ((OS_RES_OK, word_of_nat (min (unat len) (ring_space n (length q)))), t) \<and>
      ring_state rid rs p t r' (q @ take (min (unat len) (ring_space n (length q))) data) \<and> rw_lock r' = 0 \<and> rb_size r' = rb_size r"
proof -
  note D = ring_stateD [OF st]
  have ev: "event_id rid RINGBUF_EVENT_FULL \<in> set (ring_events rid)" "event_id rid RINGBUF_EVENT_DATA_IN \<in> set (ring_events rid)"
    by (simp_all add: ring_events_def)
  have dq: "dcount r = rb_size r \<longleftrightarrow> length q = n" "length q \<le> n" using D(1) by (auto simp: ring_def n_def word_unat_eq_iff)
  show ?thesis
  proof (cases "length q = n")
    case True
    then show ?thesis using ring_state_emit [OF st ev(1), of EVENT_FLAG_NONE] D(4,5) dq by (auto simp: RingbufWrite_def)
  next
    case False
    let ?k = "min (unat len) (ring_space n (length q))" and ?r1 = "r\<lparr>rw_lock := 0x40\<rparr>"
    let ?s1 = "s\<lparr>ringbufs := (ringbufs s)(p \<mapsto> ?r1)\<rparr>"
    have s1: "ring_state rid rs p ?s1 ?r1 q" by (rule ring_state_lock(2) [OF st])
    note D1 = ring_stateD [OF s1]
    have pre: "length q < unat (rb_size ?r1)" "0 + unat len \<le> length data"
      "Suc (length q) = unat (rb_size ?r1) \<Longrightarrow> unat len \<le> 1 \<or> unat (rb_size ?r1) = 1"
      using False dq(2) len last by (auto simp: n_def)
    obtain s2 d w where s2: "RingbufWrite_loop (unat len) data 0 p ?s1 = Some (?k, s2)"
      "ring p s2 (?r1\<lparr>dcount := d, write_index := w\<rparr>) (q @ take ?k data)" "cells_frame ?s1 s2"
      using write_loop [OF D1(1) pre D1(2,3)] by (auto simp: n_def)
    let ?r2 = "?r1\<lparr>dcount := d, write_index := w\<rparr>"
    have "ring_state rid rs p s2 ?r2 (q @ take ?k data)" by (rule ring_state_cells [OF s1 s2(3,2)]) simp_all
    then obtain e s3 where s3: "EventEmit rid RINGBUF_EVENT_DATA_IN EVENT_FLAG_NONE s2 = Some (e, s3)"
      "ring_state rid rs p s3 ?r2 (q @ take ?k data)" using ring_state_emit [OF _ ev(2)] by blast
    obtain s4 where s4: "(if dcount ?r2 = rb_size ?r2 then do { (e, s) \<leftarrow> EventEmit rid RINGBUF_EVENT_FULL EVENT_FLAG_NONE s3; Some s } else Some s3) = Some s4"
      "ring_state rid rs p s4 ?r2 (q @ take ?k data)" using ring_state_emit_if [OF s3(2) ev(1)] by blast
    note L = ring_state_lock(1) [OF s4(2), of "\<lambda>r. snd (IRingbufUnlockWrite (rw_lock r))"] ring_state_lock(2) [OF s4(2), of 0]
    let ?r5 = "?r2\<lparr>rw_lock := 0\<rparr>"
    have "RingbufWrite rid data len timeout s = Some ((OS_RES_OK, word_of_nat ?k), s4\<lparr>ringbufs := (ringbufs s4)(p \<mapsto> ?r5)\<rparr>)"
      using D(4,5) dq(1) False lock ring_state_lock(1) [OF st, of "\<lambda>_. 0x40"] s2(1) s3(1) ring_stateD(5) [OF s3(2)] s4(1) L(1)
      by (simp add: RingbufWrite_def)
    then show ?thesis using L(2) False by (intro iffD2 [OF if_not_P] exI conjI) (assumption | simp)+
  qed
qed

lemma RingbufRead_ok:
  fixes rid :: Id_t
  assumes st: "ring_state rid rs p s r q" and lock: "rw_lock r = 0"
  shows "q = [] \<Longrightarrow> \<exists>t. RingbufRead rid target amount timeout s = Some ((OS_RES_FAIL, 0, target), t) \<and> ring_state rid rs p t r q"
    and "q \<noteq> [] \<Longrightarrow> unat amount \<le> length q \<Longrightarrow> unat amount \<le> length target \<Longrightarrow>
      \<exists>t r'. RingbufRead rid target amount timeout s = Some ((OS_RES_OK, amount, take (unat amount) q @ drop (unat amount) target), t) \<and>
        ring_state rid rs p t r' (drop (unat amount) q) \<and> rw_lock r' = 0 \<and> rb_size r' = rb_size r"
proof -
  note D = ring_stateD [OF st]
  have ev: "event_id rid RINGBUF_EVENT_EMPTY \<in> set (ring_events rid)" "event_id rid RINGBUF_EVENT_DATA_OUT \<in> set (ring_events rid)"
    by (simp_all add: ring_events_def)
  have dq: "dcount r = 0 \<longleftrightarrow> q = []" using D(1) by (auto simp: ring_def word_unat_eq_iff)
  show "\<exists>t. RingbufRead rid target amount timeout s = Some ((OS_RES_FAIL, 0, target), t) \<and> ring_state rid rs p t r q" if "q = []"
    using ring_state_emit [OF st ev(1), of EVENT_FLAG_NONE] D(4,5) dq that by (auto simp: RingbufRead_def)
  assume q: "q \<noteq> []" and k: "unat amount \<le> length q" "unat amount \<le> length target"
  let ?k = "unat amount" and ?r1 = "r\<lparr>rw_lock := 0x80\<rparr>"
  let ?s1 = "s\<lparr>ringbufs := (ringbufs s)(p \<mapsto> ?r1)\<rparr>" and ?target = "take (unat amount) q @ drop (unat amount) target"
  have s1: "ring_state rid rs p ?s1 ?r1 q" by (rule ring_state_lock(2) [OF st])
  obtain s2 d w where s2: "RingbufRead_loop ?k target 0 p ?s1 = Some ((?k, ?target), s2)"
    "ring p s2 (?r1\<lparr>read_index := w, dcount := d\<rparr>) (drop ?k q)" "cells_frame ?s1 s2"
    using read_loop [OF ring_stateD(1) [OF s1] k(1), of 0 target] k(2) by auto
  let ?r2 = "?r1\<lparr>read_index := w, dcount := d\<rparr>"
  have "ring_state rid rs p s2 ?r2 (drop ?k q)" by (rule ring_state_cells [OF s1 s2(3,2)]) simp_all
  then obtain e s3 where s3: "EventEmit rid RINGBUF_EVENT_DATA_OUT EVENT_FLAG_NONE s2 = Some (e, s3)"
    "ring_state rid rs p s3 ?r2 (drop ?k q)" using ring_state_emit [OF _ ev(2)] by blast
  obtain s4 where s4: "(if dcount ?r2 = 0 then do { (e, s) \<leftarrow> EventEmit rid RINGBUF_EVENT_EMPTY EVENT_FLAG_NONE s3; Some s } else Some s3) = Some s4"
    "ring_state rid rs p s4 ?r2 (drop ?k q)" using ring_state_emit_if [OF s3(2) ev(1)] by blast
  note L = ring_state_lock(1) [OF s4(2), of "\<lambda>r. snd (IRingbufUnlockRead (rw_lock r))"] ring_state_lock(2) [OF s4(2), of 0]
  let ?r5 = "?r2\<lparr>rw_lock := 0\<rparr>"
  have "RingbufRead rid target amount timeout s = Some ((OS_RES_OK, amount, ?target), s4\<lparr>ringbufs := (ringbufs s4)(p \<mapsto> ?r5)\<rparr>)"
    using D(4,5) dq q lock ring_state_lock(1) [OF st, of "\<lambda>_. 0x80"] s2(1) s3(1) ring_stateD(5) [OF s3(2)] s4(1) L(1)
    by (simp add: RingbufRead_def)
  then show "\<exists>t r'. RingbufRead rid target amount timeout s = Some ((OS_RES_OK, amount, ?target), t) \<and>
      ring_state rid rs p t r' (drop ?k q) \<and> rw_lock r' = 0 \<and> rb_size r' = rb_size r"
    using L(2) by (intro exI conjI) (assumption | simp)+
qed


text \<open>A call, and its result: of a write how many bytes were taken, of a read the bytes.\<close>

datatype ring_op = RWrite "U8_t list" | RRead nat

datatype ring_res = Wrote OsResult_t nat | Got OsResult_t "U8_t list"

definition ring_call :: "Id_t \<Rightarrow> U32_t \<Rightarrow> ring_op \<Rightarrow> 'a ringbuf_state_scheme \<Rightarrow> (ring_res \<times> 'a ringbuf_state_scheme) option" where
  "ring_call rid timeout op s = (case op of
     RWrite bs \<Rightarrow> do { ((res, k), s) \<leftarrow> RingbufWrite rid bs (word_of_nat (length bs)) timeout s; Some (Wrote res (unat k), s) }
   | RRead k \<Rightarrow> do { ((res, k, target), s) \<leftarrow> RingbufRead rid (replicate k 0) (word_of_nat k) timeout s; Some (Got res (take (unat k) target), s) })"

text \<open>
  The queue of at most \<open>n\<close> bytes that a ring buffer is. A write into a full buffer fails; otherwise it takes what one call takes at
  most, which fills all places but one, or the last place. A read from an empty buffer fails. Left out are the write of more than one
  byte when one place is left, and the read of more bytes than there are, for these break the buffer (see below).
\<close>

definition ring_spec :: "nat \<Rightarrow> ring_op \<Rightarrow> U8_t list \<Rightarrow> (ring_res \<times> U8_t list) option" where
  "ring_spec n op q = (case op of
     RWrite bs \<Rightarrow> (if length q = n then Some (Wrote OS_RES_FAIL 0, q)
       else if 2 ^ 32 \<le> length bs \<or> Suc (length q) = n \<and> 1 < length bs \<and> n \<noteq> 1 then None
       else (let k = min (length bs) (ring_space n (length q)) in Some (Wrote OS_RES_OK k, q @ take k bs)))
   | RRead k \<Rightarrow> (if q = [] then Some (Got OS_RES_FAIL [], [])
       else if length q < k then None
       else Some (Got OS_RES_OK (take k q), drop k q)))"

definition ring_holds :: "Id_t \<Rightarrow> nat \<Rightarrow> 'a ringbuf_state_scheme \<Rightarrow> U8_t list \<Rightarrow> bool" where
  "ring_holds rid n s q \<longleftrightarrow> (\<exists>rs p r. ring_state rid rs p s r q \<and> unat (rb_size r) = n \<and> rw_lock r = 0)"

lemma ring_write_refines:
  assumes "ring_holds rid n s q" and "ring_spec n (RWrite bs) q = Some (res, q')"
  shows "\<exists>t. ring_call rid timeout (RWrite bs) s = Some (res, t) \<and> ring_holds rid n t q'"
proof -
  obtain rs p r where st: "ring_state rid rs p s r q" and n: "unat (rb_size r) = n" and lock: "rw_lock r = 0"
    using assms(1) unfolding ring_holds_def by blast
  let ?k = "min (length bs) (ring_space n (length q))"
  show ?thesis
  proof (cases "length q = n")
    case True
    then have r: "res = Wrote OS_RES_FAIL 0" "q' = q" using assms(2) by (simp_all add: ring_spec_def)
    have dq: "dcount r = rb_size r" using ring_stateD(1) [OF st] True n by (simp add: ring_def word_unat_eq_iff)
    have ev: "event_id rid RINGBUF_EVENT_FULL \<in> set (ring_events rid)" by (simp add: ring_events_def)
    obtain e t where "EventEmit rid RINGBUF_EVENT_FULL EVENT_FLAG_NONE s = Some (e, t)" "ring_state rid rs p t r q"
      using ring_state_emit [OF st ev] by blast
    then show ?thesis using r n lock dq ring_stateD(4,5) [OF st] by (auto simp: ring_call_def RingbufWrite_def ring_holds_def)
  next
    case False
    then have ok: "length bs < 2 ^ 32" "Suc (length q) = n \<Longrightarrow> length bs \<le> 1 \<or> n = 1"
      and r: "res = Wrote OS_RES_OK ?k" "q' = q @ take ?k bs"
      using assms(2) by (auto simp: ring_spec_def Let_def split: if_splits)
    have len: "unat (word_of_nat (length bs) :: U32_t) = length bs" using ok(1) by (simp add: unat_of_nat)
    have k: "unat (word_of_nat ?k :: U32_t) = ?k" using ok(1) by (simp add: unat_of_nat)
    have "unat (word_of_nat (length bs) :: U32_t) \<le> length bs"
      "Suc (length q) = unat (rb_size r) \<Longrightarrow> unat (word_of_nat (length bs) :: U32_t) \<le> 1 \<or> unat (rb_size r) = 1"
      using ok(2) unfolding len n by simp_all
    from RingbufWrite_ok [OF st lock this, of timeout] obtain t r' where t: "RingbufWrite rid bs (word_of_nat (length bs)) timeout s = Some ((OS_RES_OK, word_of_nat ?k), t)"
      "ring_state rid rs p t r' (q @ take ?k bs)" "rw_lock r' = 0" "rb_size r' = rb_size r"
      using False unfolding len n by auto
    have "ring_holds rid n t q'" unfolding ring_holds_def r(2) using t(2-4) n by metis
    then show ?thesis using t(1) r(1) k by (simp add: ring_call_def)
  qed
qed

lemma ring_read_refines:
  assumes "ring_holds rid n s q" and "ring_spec n (RRead k) q = Some (res, q')"
  shows "\<exists>t. ring_call rid timeout (RRead k) s = Some (res, t) \<and> ring_holds rid n t q'"
proof -
  obtain rs p r where st: "ring_state rid rs p s r q" and n: "unat (rb_size r) = n" and lock: "rw_lock r = 0"
    using assms(1) unfolding ring_holds_def by blast
  show ?thesis
  proof (cases "q = []")
    case True
    then obtain t where "RingbufRead rid (replicate k 0) (word_of_nat k) timeout s = Some ((OS_RES_FAIL, 0, replicate k 0), t)" "ring_state rid rs p t r q"
      using RingbufRead_ok(1) [OF st lock] by blast
    then show ?thesis using assms(2) True n lock by (auto simp: ring_call_def ring_spec_def ring_holds_def)
  next
    case False
    then have r: "res = Got OS_RES_OK (take k q)" "q' = drop k q" "k \<le> length q" using assms(2) by (auto simp: ring_spec_def split: if_splits)
    have "length q < 2 ^ 32" using ring_stateD(1) [OF st] U32_less [of "rb_size r"] by (simp add: ring_def)
    then have u: "unat (word_of_nat k :: U32_t) = k" using r(3) by (simp add: unat_of_nat)
    obtain t r' where t: "RingbufRead rid (replicate k 0) (word_of_nat k) timeout s = Some ((OS_RES_OK, word_of_nat k, take k q @ drop k (replicate k 0)), t)"
      "ring_state rid rs p t r' (drop k q)" "rw_lock r' = 0" "rb_size r' = rb_size r"
      using RingbufRead_ok(2) [OF st lock False, of "word_of_nat k" "replicate k 0" timeout] r(3) unfolding u by auto
    have "ring_holds rid n t q'" unfolding ring_holds_def r(2) using t(2-4) n by metis
    then show ?thesis using t(1) r(1,3) u by (simp add: ring_call_def)
  qed
qed

interpretation ring_calls: refined_calls "ring_call rid timeout" "ring_spec n" "ring_holds rid n" for rid timeout n
proof
  fix s :: "'a ringbuf_state_scheme" and q op res q'
  assume "ring_holds rid n s q" and "ring_spec n op q = Some (res, q')"
  then show "\<exists>t. ring_call rid timeout op s = Some (res, t) \<and> ring_holds rid n t q'"
    using ring_write_refines [of rid n s q] ring_read_refines [of rid n s q] by (cases op) blast+
qed

text \<open>The bytes that a sequence of calls has put in, and those it has taken out.\<close>

fun bytes_in :: "ring_op list \<Rightarrow> ring_res list \<Rightarrow> U8_t list" where
  "bytes_in (RWrite bs # ops) (Wrote res k # rs) = take k bs @ bytes_in ops rs"
| "bytes_in (op # ops) (r # rs) = bytes_in ops rs"
| "bytes_in ops rs = []"

fun bytes_out :: "ring_res list \<Rightarrow> U8_t list" where
  "bytes_out [] = []"
| "bytes_out (Got res bs # rs) = bs @ bytes_out rs"
| "bytes_out (Wrote res k # rs) = bytes_out rs"

lemma ring_spec_order: "runs (ring_spec n) ops q = Some (rs, q') \<Longrightarrow> bytes_out rs @ q' = q @ bytes_in ops rs"
proof (induction ops arbitrary: q rs)
  case (Cons op ops)
  then obtain r c rs' where a: "ring_spec n op q = Some (r, c)" "runs (ring_spec n) ops c = Some (rs', q')" "rs = r # rs'"
    by (auto split: bind_splits)
  have "bytes_out rs' @ q' = c @ bytes_in ops rs'" by (rule Cons.IH [OF a(2)])
  then show ?case using a(1,3) by (cases op) (auto simp: ring_spec_def Let_def split: if_splits)
qed simp


text \<open>A ring buffer of four bytes at 0x1004, with its buffer in the object at 0x1044, empty.\<close>

definition ring_start :: shell_state where
  "ring_start = msg_heap\<lparr>nodes := [0x1004 \<mapsto> sample_node 0x06000001 0x1004 NULL NULL],
     lists := [EventList \<mapsto> sample_list NULL NULL 0, RingbufList \<mapsto> sample_list 0x1004 0x1004 1],
     ringbufs := [0x1004 \<mapsto> zero_ringbuf\<lparr>rb_buffer := 0x1044, rb_size := 4, read_index := 3\<rparr>]\<rparr>"

lemma msg_heap_live: "(0x1044, 60) \<in> pool_live (ObjectPoolId msg_heap) msg_heap"
proof -
  obtain B where B: "mem_wf msg_heap B" "B 0 = Used 4 # Used 4 # replicate 24 Free" using msg_heap_wf by blast
  have ok: "pool_ok msg_heap 0 (Used 4 # Used 4 # replicate 24 Free)" using mem_wf_pool [OF B(1), of 0] B(2) by simp
  have k: "ObjectPoolId msg_heap = 0" "HeapBase msg_heap = 0x1000" "start_index (PoolTable msg_heap ! 0) = 0"
    by (simp_all add: msg_heap_def alloc_state_def Pool_update_def pool_512_def)
  show ?thesis unfolding k using pool_live_eq [OF ok] by (simp add: k eval_nat_numeral)
qed

lemma ring_start_holds: "ring_holds 0x06000001 4 ring_start []"
proof -
  let ?r = "zero_ringbuf\<lparr>rb_buffer := 0x1044, rb_size := 4, read_index := 3\<rparr>"
  have o: "objects ring_start = {0x1004, 0x1044}" "objects_ok ring_start 0"
    unfolding msg_heap_objects(2) [symmetric] using msg_heap_objects(1) roomy_le [of 24 _ 0]
    by (subst objects_cong [where s = msg_heap]; auto simp: ring_start_def objects_ok_def)+
  have k: "object_slots ring_start 4" "(0x1044, 60) \<in> pool_live (ObjectPoolId ring_start) ring_start"
    using objects_kept_cong(2) [of ring_start msg_heap] objects_kept_cong(3) [of ring_start msg_heap] object_slots_le [OF msg_heap_slots, of 4] msg_heap_live by (simp_all add: ring_start_def)
  have "events_ok ring_start [] 0"
    using o(2) by (simp add: events_ok_def searchable_def is_list_def list_unlocked_def ll_at_def ring_start_def EventList_def RingbufList_def)
  moreover have "object_list ring_start RingbufList [0x1004]"
    by (simp add: object_list_def searchable_def is_list_def list_unlocked_def ll_at_def ring_start_def nid_def node_at_def EventList_def RingbufList_def)
  moreover have "cells_ok ring_start 0x1044 4" unfolding cells_ok_def using k(2) by (intro disjI2 exI [of _ 60]) simp
  moreover have "any_read (0x1044 + i) ring_start \<noteq> None" if "i < 4" for i
    using live_index [OF o(2) k(2), of i] that by (simp add: any_read_def)
  then have "ring 0x1004 ring_start ?r []" by (simp add: ring_def ringbuf_at_def ring_start_def zero_ringbuf_def slot_def)
  moreover have "nid ring_start 0x1004 = 0x06000001" by (simp add: nid_def ring_start_def)
  moreover have "events_missing (ring_events 0x06000001) [] = 4" by (simp add: events_missing_def ring_events_def)
  ultimately have "ring_state 0x06000001 [0x1004] 0x1004 ring_start ?r []"
    unfolding ring_state_def using o k(1) by (intro exI [of _ "[]"] exI [of _ 4]) (simp add: zero_ringbuf_def)
  then show ?thesis unfolding ring_holds_def by (intro exI [of _ "[0x1004]"] exI [of _ "0x1004"] exI [of _ ?r]) (simp add: zero_ringbuf_def)
qed


subsection \<open>Beyond the limits\<close>

text \<open>
  Writing two bytes when one place is left breaks the buffer: the loop does not stop at the last place, and the second byte
  overwrites the oldest one, which was not read. The count is then one more than the size.
\<close>

lemma ring_overwrites_the_oldest:
  assumes ring: "ring p s r (x # q)" and last: "Suc (length (x # q)) = unat (rb_size r)"
  shows "\<exists>t r' u. RingbufWrite_loop 2 [a, b] 0 p s = Some (2, t) \<and> ringbuf_at p t = Some r' \<and> dcount r' = rb_size r + 1 \<and>
    RingbufRead_loop 1 [0] 0 p t = Some ((1, [b]), u)"
proof -
  let ?n = "IRingbufBlockNextGet r"
  obtain v where v: "ring p v (written r) (x # q @ [a])" "RingbufWrite_loop 2 [a, b] 0 p s = RingbufWrite_loop 1 [a, b] 1 p v"
  proof -
    have "length (x # q) < unat (rb_size r)" "0 < length [a, b]" using last by simp_all
    from write_loop_step [OF ring this, of 1] obtain v where v: "ring p v (written r) ((x # q) @ [[a, b] ! 0])"
      "RingbufWrite_loop (Suc 1) [a, b] 0 p s = (if Suc (Suc (length (x # q))) = unat (rb_size r) \<or> unat (rb_size r) = 1
         then Some (0 + 1, v) else RingbufWrite_loop 1 [a, b] (0 + 1) p v)" by blast
    have "\<not> (Suc (Suc (length (x # q))) = unat (rb_size r) \<or> unat (rb_size r) = 1)" "Suc 1 = (2 :: nat)" using last by auto
    then show thesis using that [of v] v by (simp add: numeral_2_eq_2)
  qed
  let ?w = "written r"
  have w: "ringbuf_at p v = Some ?w" "unat (read_index r) < unat (rb_size r)" "dcount ?w = rb_size r"
    "unat (write_index ?w) = slot r 0" "\<And>i. i < unat (rb_size r) \<Longrightarrow> any_read (rb_buffer r + i) v \<noteq> None"
  proof -
    show "ringbuf_at p v = Some ?w" by (rule ring_at [OF v(1)])
    show "unat (read_index r) < unat (rb_size r)" "\<And>i. i < unat (rb_size r) \<Longrightarrow> any_read (rb_buffer r + i) v \<noteq> None"
      using v(1) by (auto simp: ring_def)
    show "dcount ?w = rb_size r" using v(1) last by (simp add: ring_def word_unat_eq_iff)
    have "length (x # q @ [a]) = unat (rb_size r)" using last by simp
    then have "unat (write_index ?w) = slot ?w (unat (rb_size r))" using v(1) unfolding ring_def by metis
    then have "unat (write_index ?w) = slot r (unat (rb_size r))" by (simp add: slot_def)
    then show "unat (write_index ?w) = slot r 0" unfolding slot_def by (simp only: mod_add_self2 add_0_right)
  qed
  have lt: "slot r 0 < unat (rb_size r)" using w(2) by (intro slot_lt) simp
  have p: "p \<noteq> NULL" "ringbufs v p = Some ?w" using w(1) by (auto simp: ringbuf_at_def split: if_splits)
  obtain u where u: "any_write (rb_buffer r + slot r 0) b v = Some u" "any_read (rb_buffer r + slot r 0) u = Some b" "ringbufs u = ringbufs v"
    using any_write_all [OF w(5) [OF lt], of b] by auto
  let ?r = "written ?w"
  let ?t = "u\<lparr>ringbufs := (ringbufs u)(p \<mapsto> ?r)\<rparr>"
  have "RingbufWrite_loop 1 [a, b] 1 p v = Some (2, ?t)"
    using p w(1,4) u by (simp add: RingbufWrite_loop.simps(2) ringbuf_update_def ringbuf_at_def) (simp add: written_def)
  moreover have d: "dcount ?r = rb_size r + 1" using w(3) by (simp add: written_def [of ?w])
  moreover obtain z where "RingbufRead_loop 1 [0] 0 p ?t = Some ((1, [b]), z)"
  proof -
    have nx: "IRingbufBlockNextGet ?r (read_index ?r) = ?n (read_index r)" "unat (?n (read_index r)) = slot r 0"
      using next_index [OF w(2)] by (simp_all add: IRingbufBlockNextGet_def slot_def)
    have "unat (write_index ?r) = slot r 1"
      using next_index [of "write_index ?w" ?w] w(4) lt by (simp add: written_def [of ?w] slot_def mod_Suc_eq)
    moreover have "slot r 1 \<noteq> slot r 0" using slot_inj [of r 1 0] last by auto
    ultimately have "write_index ?r \<noteq> ?n (read_index r)" using nx(2) by auto
    then show thesis using p(1) u(2) nx that by (simp add: RingbufRead_loop.simps(2) ringbuf_update_def ringbuf_at_def)
  qed
  ultimately show ?thesis using v(2) p(1) by (intro exI [of _ ?t] exI [of _ ?r] exI [of _ z]) (simp add: ringbuf_at_def)
qed

text \<open>A ring buffer of four bytes at 64 over the application's memory from 8 on, with the bytes 5, 6, 7, 8 in it, empty.\<close>

definition small_ring :: shell_state where
  "small_ring = shell_bss\<lparr>user_mem := [8 \<mapsto> 5, 9 \<mapsto> 6, 10 \<mapsto> 7, 11 \<mapsto> 8],
     ringbufs := [64 \<mapsto> zero_ringbuf\<lparr>rb_buffer := 8, ext_buffer := True, rb_size := 4, read_index := 3\<rparr>]\<rparr>"

lemma small_ring_empty: "ring 64 small_ring (zero_ringbuf\<lparr>rb_buffer := 8, ext_buffer := True, rb_size := 4, read_index := 3\<rparr>) []"
proof -
  have "any_read (8 + i) small_ring \<noteq> None" if "i < 4" for i
    using that by (auto simp: any_read_def heap_index_def small_ring_def numeral_eq_Suc less_Suc_eq)
  then show ?thesis by (simp add: ring_def ringbuf_at_def small_ring_def zero_ringbuf_def slot_def)
qed

text \<open>
  Reading from an empty buffer breaks it: the loop returns no byte, but it has moved the read index on to the write
  index. The next byte that is written is lost: the read after it gives the byte behind, which was not written.
\<close>

lemma ring_overread_loses_a_byte:
  assumes "ring p s r []" and "2 \<le> unat (rb_size r)"
  shows "\<exists>t u w v. RingbufRead_loop (Suc k) target i p s = Some ((i, target), t) \<and>
    RingbufWrite_loop 1 [b] 0 p t = Some (1, u) \<and>
    any_read (rb_buffer r + slot r 1) s = Some v \<and> RingbufRead_loop 1 [0] 0 p u = Some ((1, [v]), w)"
proof -
  let ?n = "IRingbufBlockNextGet r"
  have r: "ringbuf_at p s = Some r" "unat (read_index r) < unat (rb_size r)" "dcount r = 0"
    "unat (write_index r) = slot r 0" "\<And>i. i < unat (rb_size r) \<Longrightarrow> any_read (rb_buffer r + i) s \<noteq> None"
    using assms(1) by (auto simp: ring_def unat_eq_0)
  have lt: "slot r 0 < unat (rb_size r)" "slot r 1 < unat (rb_size r)" using assms(2) by (auto intro: slot_lt)
  have n0: "?n (read_index r) = write_index r"
    using next_index [OF r(2)] r(4) by (simp add: word_unat_eq_iff slot_def)
  have n1: "unat (?n (write_index r)) = slot r 1"
    using next_index [of "write_index r" r] r(4) lt by (simp add: slot_def mod_Suc_eq)
  have ne: "slot r 1 \<noteq> slot r 0" using slot_inj [of r 1 0] assms(2) by auto
  then have nw: "?n (write_index r) \<noteq> write_index r" using n1 r(4) by auto
  have p: "p \<noteq> NULL" "ringbufs s p = Some r" using r(1) by (auto simp: ringbuf_at_def split: if_splits)
  let ?t = "s\<lparr>ringbufs := (ringbufs s)(p \<mapsto> r\<lparr>read_index := write_index r\<rparr>)\<rparr>"
  have 1: "RingbufRead_loop (Suc k) target i p s = Some ((i, target), ?t)"
    using p r n0 by (simp add: RingbufRead_loop.simps(2) ringbuf_update_def ringbuf_at_def)
  obtain t' where t': "any_write (rb_buffer r + unat (write_index r)) b ?t = Some t'"
    "\<And>a. any_read a t' = (if a = rb_buffer r + unat (write_index r) then Some b else any_read a s)" "ringbufs t' = ringbufs ?t"
    using any_write_all [of "rb_buffer r + unat (write_index r)" ?t b] r(4,5) lt by auto
  let ?r = "r\<lparr>read_index := write_index r, dcount := 1, write_index := ?n (write_index r)\<rparr>"
  let ?u = "t'\<lparr>ringbufs := (ringbufs t')(p \<mapsto> ?r)\<rparr>"
  have nr: "IRingbufBlockNextGet (r\<lparr>read_index := x\<rparr>) y = ?n y" "IRingbufBlockNextGet ?r y = ?n y" for x y
    by (simp_all add: IRingbufBlockNextGet_def)
  have 2: "RingbufWrite_loop 1 [b] 0 p ?t = Some (1, ?u)"
    using p(1) r(3) t'(1,3) nw by (simp add: RingbufWrite_loop.simps(2) ringbuf_update_def ringbuf_at_def nr)
  obtain v where v: "any_read (rb_buffer r + slot r 1) s = Some v" using r(5) [OF lt(2)] by auto
  have "any_read (rb_buffer r + unat (?n (write_index r))) t' = Some v" using t'(2) v n1 ne r(4) by simp
  then have 3: "\<exists>w. RingbufRead_loop 1 [0] 0 p ?u = Some ((1, [v]), w)"
    using p by (simp add: RingbufRead_loop.simps(2) ringbuf_update_def ringbuf_at_def nr)
  show ?thesis using 1 2 v 3 by blast
qed

lemma ring_overread_loses_a_byte_witness:
  "\<exists>t u w. RingbufRead_loop 1 [0] 0 64 small_ring = Some ((0, [0]), t) \<and> RingbufWrite_loop 1 [42] 0 64 t = Some (1, u) \<and>
    RingbufRead_loop 1 [0] 0 64 u = Some ((1, [6]), w)"
proof -
  let ?r = "zero_ringbuf\<lparr>rb_buffer := 8, ext_buffer := True, rb_size := 4, read_index := 3\<rparr>"
  have "any_read (rb_buffer ?r + slot ?r 1) small_ring = Some 6"
    by (simp add: slot_def any_read_def heap_index_def small_ring_def zero_ringbuf_def)
  then show ?thesis
    using ring_overread_loses_a_byte [OF small_ring_empty, of 0 "[0]" 0 42] by (auto simp: zero_ringbuf_def)
qed

end
