(* ===== verification/PollProps.thy ===== *)
theory PollProps
  imports Sample
begin

text \<open>
  How a task is woken: the comparison of an emitted event with an event that the task listens to, as a function on the
  latter, and the time after which a listener that hears nothing is timed out.
\<close>

subsection \<open>Event flags\<close>

lemma event_flag_word: "(0xFF000000 :: U32_t) = push_bit 24 (mask 8)"
  by (simp add: mask_eq_exp_minus_1 push_bit_eq_mult)

lemma EVENT_FLAG_GET_eq: "EVENT_FLAG_GET c g = ucast (drop_bit 24 c) AND g"
  unfolding EVENT_FLAG_GET_def event_flag_word by (auto intro!: bit_word_eqI simp: bit_simps)

lemma flag_single:
  assumes "k < 8"
  shows "EVENT_FLAG_GET c (push_bit k 1) \<noteq> 0 \<longleftrightarrow> bit c (24 + k)"
proof -
  have "ucast (drop_bit 24 c) AND push_bit k 1 = (if bit c (24 + k) then push_bit k 1 else 0 :: U8_t)"
    using assms by (auto intro!: bit_word_eqI simp: bit_simps)
  moreover have "push_bit k 1 \<noteq> (0 :: U8_t)" using assms by simp
  ultimately show ?thesis by (simp add: EVENT_FLAG_GET_eq)
qed

text \<open>The flags as bits of the event code.\<close>

lemma flag_bits:
  "EVENT_FLAG_GET c EVENT_FLAG_OCCURRED \<noteq> 0 \<longleftrightarrow> bit c 26" "EVENT_FLAG_GET c EVENT_FLAG_TIMED_OUT \<noteq> 0 \<longleftrightarrow> bit c 27"
  "EVENT_FLAG_GET c EVENT_FLAG_NO_TIMEOUT \<noteq> 0 \<longleftrightarrow> bit c 29"
  using flag_single [of 2 c] flag_single [of 3 c] flag_single [of 5 c]
  by (simp_all add: EVENT_FLAG_OCCURRED_def EVENT_FLAG_TIMED_OUT_def EVENT_FLAG_NO_TIMEOUT_def push_bit_eq_mult)

lemma flag_update_bits:
  "k < 8 \<Longrightarrow> bit (EVENT_FLAG_SET c f) (24 + k) \<longleftrightarrow> bit c (24 + k) \<or> bit f k"
  "k < 8 \<Longrightarrow> bit (EVENT_FLAG_CLEAR c f) (24 + k) \<longleftrightarrow> bit c (24 + k) \<and> \<not> bit f k"
  unfolding EVENT_FLAG_SET_def EVENT_FLAG_CLEAR_def event_flag_word by (auto simp: bit_simps)

definition flagged :: "Event_t \<Rightarrow> U8_t \<Rightarrow> bool" where
  "flagged e f \<longleftrightarrow> EVENT_FLAG_GET (event_code e) f \<noteq> 0"

lemma flagged_bits:
  "flagged e EVENT_FLAG_OCCURRED \<longleftrightarrow> bit (event_code e) 26" "flagged e EVENT_FLAG_TIMED_OUT \<longleftrightarrow> bit (event_code e) 27"
  "flagged e EVENT_FLAG_NO_TIMEOUT \<longleftrightarrow> bit (event_code e) 29"
  by (simp_all only: flagged_def flag_bits)

lemma flag_values: "bit EVENT_FLAG_OCCURRED n \<longleftrightarrow> n = 2" "bit EVENT_FLAG_TIMED_OUT n \<longleftrightarrow> n = 3"
proof -
  have e: "EVENT_FLAG_OCCURRED = push_bit 2 1" "EVENT_FLAG_TIMED_OUT = push_bit 3 1"
    by (simp_all add: EVENT_FLAG_OCCURRED_def EVENT_FLAG_TIMED_OUT_def push_bit_eq_mult)
  then show "bit EVENT_FLAG_OCCURRED n \<longleftrightarrow> n = 2" "bit EVENT_FLAG_TIMED_OUT n \<longleftrightarrow> n = 3"
    unfolding e bit_push_bit_iff by (auto simp: bit_1_iff)
qed

lemmas flag_updates = flag_update_bits [of 2, simplified] flag_update_bits [of 3, simplified] flag_update_bits [of 5, simplified]
  flag_values

subsection \<open>One comparison\<close>

text \<open>Source and code, without its flags, are the same.\<close>

definition same_event :: "Event_t \<Rightarrow> Event_t \<Rightarrow> bool" where
  "same_event c e \<longleftrightarrow> source_id c = source_id e \<and> event_code c AND 0x00FFFFFF = event_code e AND 0x00FFFFFF"

text \<open>
  What a listener \<open>e\<close> becomes in a comparison with the emitted event \<open>c\<close>: it has occurred, or it ages at the last event of the
  cycle, unless it has no time limit or is timed out.
\<close>

definition heard :: "Event_t \<Rightarrow> Event_t" where
  "heard e = e\<lparr>event_code := EVENT_FLAG_CLEAR (EVENT_FLAG_SET (event_code e) EVENT_FLAG_OCCURRED) EVENT_FLAG_TIMED_OUT,
     life_time_us_cnt := 0, occurrence_cnt := (if occurrence_cnt e < 255 then occurrence_cnt e + 1 else occurrence_cnt e)\<rparr>"

definition aged :: "U32_t \<Rightarrow> Event_t \<Rightarrow> Event_t" where
  "aged d e = (if flagged e EVENT_FLAG_NO_TIMEOUT \<or> flagged e EVENT_FLAG_TIMED_OUT then e
     else if life_time_us_cnt e + d < life_time_us e then e\<lparr>life_time_us_cnt := life_time_us_cnt e + d\<rparr>
     else e\<lparr>event_code := EVENT_FLAG_SET (event_code e) EVENT_FLAG_TIMED_OUT\<rparr>)"

definition compared :: "Event_t \<Rightarrow> bool \<Rightarrow> U32_t \<Rightarrow> Event_t \<Rightarrow> Event_t" where
  "compared c last_event d e = (if same_event c e then heard e else if last_event then aged d e else e)"

definition due :: "Event_t \<Rightarrow> bool" where
  "due e \<longleftrightarrow> flagged e EVENT_FLAG_OCCURRED \<or> flagged e EVENT_FLAG_TIMED_OUT"

text \<open>Storing an event, and the operations on one event in these terms.\<close>

definition put_event :: "ptr \<Rightarrow> Event_t \<Rightarrow> 'a event_state_scheme \<Rightarrow> 'a event_state_scheme" where
  "put_event p e s = s\<lparr>events := (events s)(p \<mapsto> e)\<rparr>"

lemma put_event_simps [simp]:
  "p \<noteq> NULL \<Longrightarrow> event_at p (put_event p e s) = Some e" "put_event p e' (put_event p e s) = put_event p e' s"
  "tcbs (put_event p e t) = tcbs t"
  by (simp_all add: put_event_def event_at_def)

lemma event_at_SomeD: "event_at p s = Some e \<Longrightarrow> p \<noteq> NULL \<and> events s p = Some e"
  by (auto simp: event_at_def split: if_splits)

lemma put_event_triv: "event_at p s = Some e \<Longrightarrow> put_event p e s = s"
  using event_at_SomeD by (fastforce simp: put_event_def fun_upd_idem)

lemma event_ops:
  assumes "event_at p s = Some e"
  shows "EventFlagSet p f s = Some (OS_RES_OK, put_event p (e\<lparr>event_code := EVENT_FLAG_SET (event_code e) f\<rparr>) s)"
    "EventFlagClear p f s = Some (OS_RES_OK, put_event p (e\<lparr>event_code := EVENT_FLAG_CLEAR (event_code e) f\<rparr>) s)"
    "EventFlagGet p f s = Some (flagged e f)"
    "EventLifeTimeReset p s = Some (put_event p (e\<lparr>life_time_us_cnt := 0\<rparr>) s)"
    "EventOccurrenceCountIncrement p s = Some (if occurrence_cnt e < 255 then (0, put_event p (e\<lparr>occurrence_cnt := occurrence_cnt e + 1\<rparr>) s) else (- 1, s))"
    "EventLifeTimeIncrement p d s = Some (if life_time_us_cnt e + d < life_time_us e
       then (0, put_event p (e\<lparr>life_time_us_cnt := life_time_us_cnt e + d\<rparr>) s) else (- 1, s))"
  using assms event_at_SomeD [OF assms]
  by (simp_all add: EventFlagSet_def EventFlagClear_def EventFlagGet_def EventLifeTimeReset_def EventOccurrenceCountIncrement_def
      EventLifeTimeIncrement_def event_update_def put_event_def flagged_def)

lemma EventIsEqual_eq: "event_at x s = Some c \<Longrightarrow> event_at y s = Some e \<Longrightarrow> EventIsEqual x y s = Some (same_event c e)"
  by (simp add: EventIsEqual_def same_event_def)

text \<open>The state with the listener \<open>e'\<close> at \<open>te\<close>, and the task at \<open>task\<close> active if it is due.\<close>

definition woken :: "ptr \<Rightarrow> ptr \<Rightarrow> Event_t \<Rightarrow> 'a sched_state_scheme \<Rightarrow> 'a sched_state_scheme" where
  "woken task te e s = (let s = put_event te e s in
     if due e then s\<lparr>tcbs := (tcbs s)(task \<mapsto> (the (tcbs s task))\<lparr>t_state := TASK_STATE_ACTIVE\<rparr>)\<rparr> else s)"

lemma tcb_at_SomeD: "tcb_at p s = Some e \<Longrightarrow> p \<noteq> NULL \<and> tcbs s p = Some e"
  by (auto simp: tcb_at_def split: if_splits)

lemma wake_eq:
  assumes "te \<noteq> NULL" and "tcb_at task s = Some tk"
  shows "(do { occurred \<leftarrow> EventFlagGet te EVENT_FLAG_OCCURRED (put_event te e s);
      timed_out \<leftarrow> EventFlagGet te EVENT_FLAG_TIMED_OUT (put_event te e s);
      if occurred \<or> timed_out then KTaskStateSet task TASK_STATE_ACTIVE (put_event te e s) else Some (put_event te e s) })
    = Some (woken task te e s)"
  using assms tcb_at_SomeD [OF assms(2)]
  by (simp add: event_ops woken_def due_def KTaskStateSet_def tcb_update_def tcb_at_def)

lemma TaskEventsCompare_body_eq:
  assumes "event_at ce s = Some c" and "event_at te s = Some e" and "tcb_at task s = Some tk"
  shows "TaskEventsCompare_body task ce last_event d te s = Some (woken task te (compared c last_event d e) s)"
proof -
  have te: "te \<noteq> NULL" using event_at_SomeD [OF assms(2)] by simp
  note wake = wake_eq [OF te assms(3)]
  note wake0 = wake [of e, unfolded put_event_triv [OF assms(2)]]
  note ops = event_ops [OF assms(2)] EventIsEqual_eq [OF assms(1,2)]
  consider "same_event c e" | "\<not> same_event c e" "last_event" | "\<not> same_event c e" "\<not> last_event" by blast
  then show ?thesis
  proof cases
    case 1
    then have "compared c last_event d e = heard e" by (simp add: compared_def)
    then show ?thesis
      using 1 te wake by (simp add: TaskEventsCompare_body_def ops event_ops heard_def)
  next
    case 2
    then have "compared c last_event d e = aged d e" by (simp add: compared_def)
    then show ?thesis
      using 2 te wake wake0 by (auto simp: TaskEventsCompare_body_def ops aged_def)
  next
    case 3
    then have "compared c last_event d e = e" by (simp add: compared_def)
    then show ?thesis using 3 wake0 by (simp add: TaskEventsCompare_body_def ops)
  qed
qed

lemma same_event_flags [simp]:
  "EVENT_FLAG_SET code f AND 0x00FFFFFF = code AND 0x00FFFFFF" "EVENT_FLAG_CLEAR code f AND 0x00FFFFFF = code AND 0x00FFFFFF"
proof -
  have m: "(0x00FFFFFF :: U32_t) = mask 24" by (simp add: mask_eq_exp_minus_1)
  show "EVENT_FLAG_SET code f AND 0x00FFFFFF = code AND 0x00FFFFFF" "EVENT_FLAG_CLEAR code f AND 0x00FFFFFF = code AND 0x00FFFFFF"
    unfolding m EVENT_FLAG_SET_def EVENT_FLAG_CLEAR_def event_flag_word by (auto intro!: bit_word_eqI simp: bit_simps)
qed

lemma same_event_aged [simp]: "same_event c (aged d e) = same_event c e"
  by (simp add: aged_def same_event_def)

lemma heard_flags: "flagged (heard e) EVENT_FLAG_OCCURRED" "\<not> flagged (heard e) EVENT_FLAG_TIMED_OUT"
  by (simp_all add: flagged_bits heard_def flag_updates)


text \<open>
  C15. A task and one event that it listens to, in one comparison of the broker with an emitted event. If source and code
  agree, the listener is marked as occurred and no longer as timed out, its age is reset and its count goes up, and
  the task becomes active. Otherwise the listener is left alone, except that at the last event of a cycle it ages. The task
  becomes active also when the listener is timed out, and no other event or task changes.
\<close>

theorem listener_compared:
  assumes "event_at ce s = Some c" and "event_at te s = Some e" and "tcb_at task s = Some tk"
  shows "\<exists>t e'. TaskEventsCompare_body task ce last_event d te s = Some t \<and> event_at te t = Some e' \<and>
    tcb_at task t = Some (if due e' then tk\<lparr>t_state := TASK_STATE_ACTIVE\<rparr> else tk) \<and>
    (if same_event c e then due e' \<and> \<not> flagged e' EVENT_FLAG_TIMED_OUT \<and> life_time_us_cnt e' = 0 \<and>
        unat (occurrence_cnt e') = min 255 (unat (occurrence_cnt e) + 1)
     else e' = (if last_event then aged d e else e)) \<and>
    (\<forall>p. p \<noteq> te \<longrightarrow> event_at p t = event_at p s) \<and> (\<forall>p. p \<noteq> task \<longrightarrow> tcb_at p t = tcb_at p s)"
proof -
  have n: "unat (if occurrence_cnt e < 255 then occurrence_cnt e + 1 else occurrence_cnt e) = min 255 (unat (occurrence_cnt e) + 1)"
  proof -
    have "unat (occurrence_cnt e) < 256" using unsigned_less [of "occurrence_cnt e"] by simp
    then show ?thesis using unat_inc [of "occurrence_cnt e"] by (auto simp: word_less_nat_alt)
  qed
  show ?thesis
    using TaskEventsCompare_body_eq [OF assms, of last_event d] event_at_SomeD [OF assms(2)] tcb_at_SomeD [OF assms(3)] heard_flags [of e] n
    by (auto simp: woken_def Let_def event_at_def tcb_at_def put_event_def compared_def due_def heard_def)
qed


theorem listener_compared_witness:
  "\<exists>t. TaskEventsCompare_body 16 32 False 0 48 (shell_bss\<lparr>tcbs := [16 \<mapsto> zero_tcb],
      events := [32 \<mapsto> zero_event\<lparr>source_id := 1\<rparr>, 48 \<mapsto> zero_event\<lparr>source_id := 1\<rparr>]\<rparr>) = Some t \<and>
    tcb_at 16 t = Some (zero_tcb\<lparr>t_state := TASK_STATE_ACTIVE\<rparr>)"
proof -
  let ?s = "shell_bss\<lparr>tcbs := [16 \<mapsto> zero_tcb],
      events := [32 \<mapsto> zero_event\<lparr>source_id := 1\<rparr>, 48 \<mapsto> zero_event\<lparr>source_id := 1\<rparr>]\<rparr>"
  have at: "event_at 32 ?s = Some (zero_event\<lparr>source_id := 1\<rparr>)" "event_at 48 ?s = Some (zero_event\<lparr>source_id := 1\<rparr>)"
    "tcb_at 16 ?s = Some zero_tcb" by (simp_all add: event_at_def tcb_at_def)
  have "same_event (zero_event\<lparr>source_id := 1\<rparr>) (zero_event\<lparr>source_id := 1\<rparr>)" by (simp add: same_event_def)
  with listener_compared [OF at, of False 0] show ?thesis by auto
qed

subsection \<open>Time-out\<close>

text \<open>The last comparison of each of a number of cycles, with the time that passed in each.\<close>

fun compare_cycles :: "ptr \<Rightarrow> ptr \<Rightarrow> ptr \<Rightarrow> U32_t list \<Rightarrow> 'a sched_state_scheme \<Rightarrow> 'a sched_state_scheme option" where
  "compare_cycles task ce te [] s = Some s"
| "compare_cycles task ce te (d # ds) s = do { s \<leftarrow> TaskEventsCompare_body task ce True d te s; compare_cycles task ce te ds s }"

lemma aged_cases:
  assumes "\<not> flagged e EVENT_FLAG_NO_TIMEOUT"
  shows "\<not> flagged (aged d e) EVENT_FLAG_NO_TIMEOUT" "flagged (aged d e) EVENT_FLAG_OCCURRED = flagged e EVENT_FLAG_OCCURRED"
    "life_time_us (aged d e) = life_time_us e"
    "flagged (aged d e) EVENT_FLAG_TIMED_OUT \<longleftrightarrow> flagged e EVENT_FLAG_TIMED_OUT \<or> \<not> life_time_us_cnt e + d < life_time_us e"
    "\<not> flagged (aged d e) EVENT_FLAG_TIMED_OUT \<Longrightarrow> life_time_us_cnt (aged d e) = life_time_us_cnt e + d"
    "flagged e EVENT_FLAG_TIMED_OUT \<Longrightarrow> aged d e = e"
  using assms by (auto simp: aged_def flagged_bits flag_updates split: if_splits)

text \<open>After timing out nothing changes any more; before it the age is the sum of the times.\<close>

lemma aged_fold:
  assumes "\<not> flagged e EVENT_FLAG_NO_TIMEOUT" and "\<forall>d \<in> set ds. unat (life_time_us e) + unat d < 2 ^ 32"
    and "\<not> flagged e EVENT_FLAG_TIMED_OUT" and "life_time_us_cnt e \<le> life_time_us e"
  shows "flagged (fold aged ds e) EVENT_FLAG_TIMED_OUT \<longleftrightarrow>
    ds \<noteq> [] \<and> unat (life_time_us e) \<le> unat (life_time_us_cnt e) + sum_list (map unat ds)"
  using assms
proof (induction ds arbitrary: e)
  case (Cons d ds)
  have stay: "fold aged ds e = e" if "flagged e EVENT_FLAG_TIMED_OUT" for e
    using that by (induction ds) (simp_all add: aged_def)
  have sum: "unat (life_time_us_cnt e + d) = unat (life_time_us_cnt e) + unat d"
    using Cons.prems(2,4) by (subst unat_word_ariths) (simp add: word_le_nat_alt)
  note c = aged_cases [OF Cons.prems(1), of d]
  show ?case
  proof (cases "flagged (aged d e) EVENT_FLAG_TIMED_OUT")
    case True
    then have "unat (life_time_us e) \<le> unat (life_time_us_cnt e) + unat d" using c(4) Cons.prems(3) sum by (simp add: word_less_nat_alt)
    then show ?thesis using True stay by simp
  next
    case False
    then have lt: "unat (life_time_us_cnt e) + unat d < unat (life_time_us e)" using c(4) sum by (simp add: word_less_nat_alt)
    have "flagged (fold aged ds (aged d e)) EVENT_FLAG_TIMED_OUT \<longleftrightarrow> ds \<noteq> [] \<and>
        unat (life_time_us (aged d e)) \<le> unat (life_time_us_cnt (aged d e)) + sum_list (map unat ds)"
      using Cons.prems(2) c(3) c(5) [OF False] lt sum by (intro Cons.IH c(1) False) (auto simp: word_le_nat_alt)
    then show ?thesis using c(3) c(5) [OF False] sum lt by (cases ds) auto
  qed
qed simp

lemma compare_cycles_eq:
  assumes "event_at ce s = Some c" and "event_at te s = Some e" and "tcb_at task s = Some tk" and "ce \<noteq> te" and "\<not> same_event c e"
    and "\<not> flagged e EVENT_FLAG_OCCURRED" and "\<not> flagged e EVENT_FLAG_NO_TIMEOUT" and "due e \<longrightarrow> t_state tk = TASK_STATE_ACTIVE"
  shows "\<exists>t. compare_cycles task ce te ds s = Some t \<and> event_at te t = Some (fold aged ds e) \<and>
    tcb_at task t = Some (if due (fold aged ds e) then tk\<lparr>t_state := TASK_STATE_ACTIVE\<rparr> else tk)"
  using assms
proof (induction ds arbitrary: s e tk)
  case (Cons d ds)
  obtain t where t: "TaskEventsCompare_body task ce True d te s = Some t" "event_at te t = Some (aged d e)" "event_at ce t = Some c"
    "tcb_at task t = Some (if due (aged d e) then tk\<lparr>t_state := TASK_STATE_ACTIVE\<rparr> else tk)"
    using listener_compared [OF Cons.prems(1-3), of True d] Cons.prems(1,4,5) by fastforce
  note c = aged_cases [OF Cons.prems(7), of d]
  have "due (fold aged ds (aged d e))" if "due (aged d e)"
  proof -
    have "fold aged ds (aged d e) = aged d e"
      using that c Cons.prems(6) by (induction ds) (auto simp: due_def aged_def)
    with that show ?thesis by simp
  qed
  then show ?case
    using Cons.IH [OF t(3,2,4) Cons.prems(4)] Cons.prems(5,6) c(1,2) t(1) by (auto split: if_splits)
qed (auto simp: due_def)

text \<open>
  C16. A task that listens, with a time limit, to an event that does not occur is timed out when the time that passed in
  the cycles of the broker reaches the limit, and not before; then the task becomes active. The sums must stay below
  the limit of the 32-bit counter.
\<close>

theorem listener_times_out:
  assumes "event_at ce s = Some c" and "event_at te s = Some e" and "tcb_at task s = Some tk" and "ce \<noteq> te" and "\<not> same_event c e"
    and "\<not> due e" and "\<not> flagged e EVENT_FLAG_NO_TIMEOUT" and "life_time_us_cnt e = 0"
    and "\<forall>d \<in> set ds. unat (life_time_us e) + unat d < 2 ^ 32" and "ds \<noteq> []"
  shows "\<exists>t e'. compare_cycles task ce te ds s = Some t \<and> event_at te t = Some e' \<and>
    (flagged e' EVENT_FLAG_TIMED_OUT \<longleftrightarrow> unat (life_time_us e) \<le> sum_list (map unat ds)) \<and>
    tcb_at task t = Some (if unat (life_time_us e) \<le> sum_list (map unat ds) then tk\<lparr>t_state := TASK_STATE_ACTIVE\<rparr> else tk)"
proof -
  have n: "\<not> flagged e EVENT_FLAG_OCCURRED" "\<not> flagged e EVENT_FLAG_TIMED_OUT" using assms(6) by (simp_all add: due_def)
  have out: "flagged (fold aged ds e) EVENT_FLAG_TIMED_OUT \<longleftrightarrow> unat (life_time_us e) \<le> sum_list (map unat ds)"
    using aged_fold [OF assms(7,9) n(2)] assms(8,10) by simp
  have "\<not> flagged (fold aged ds e) EVENT_FLAG_OCCURRED"
    using assms(7) n(1) aged_cases(1,2) by (induction ds arbitrary: e) auto
  then have "due (fold aged ds e) \<longleftrightarrow> unat (life_time_us e) \<le> sum_list (map unat ds)" using out by (simp add: due_def)
  with compare_cycles_eq [OF assms(1-5) n(1) assms(7), of ds] out assms(6) show ?thesis by auto
qed

theorem listener_times_out_witness:
  "\<exists>t. compare_cycles 16 32 48 [400, 500, 100] (shell_bss\<lparr>tcbs := [16 \<mapsto> zero_tcb],
      events := [32 \<mapsto> zero_event, 48 \<mapsto> zero_event\<lparr>source_id := 1, life_time_us := 1000\<rparr>]\<rparr>) = Some t \<and>
    tcb_at 16 t = Some (zero_tcb\<lparr>t_state := TASK_STATE_ACTIVE\<rparr>)"
proof -
  let ?e = "zero_event\<lparr>source_id := 1, life_time_us := 1000\<rparr>"
  let ?s = "shell_bss\<lparr>tcbs := [16 \<mapsto> zero_tcb], events := [32 \<mapsto> zero_event, 48 \<mapsto> ?e]\<rparr>"
  have at: "event_at 32 ?s = Some zero_event" "event_at 48 ?s = Some ?e" "tcb_at 16 ?s = Some zero_tcb"
    by (simp_all add: event_at_def tcb_at_def)
  have e: "\<not> same_event zero_event ?e" "\<not> due ?e" "\<not> flagged ?e EVENT_FLAG_NO_TIMEOUT"
    by (simp_all add: same_event_def zero_event_def due_def flagged_bits)
  show ?thesis using listener_times_out [OF at _ e, of "[400, 500, 100]"] by (auto simp: zero_event_def)
qed

end
