(* ===== verification/GroupProps.thy ===== *)
theory GroupProps
  imports Access
begin

text \<open>
  Event groups on top of the event list: setting flags queues one event, whatever the number of flags, and the flags can
  be read back.
\<close>

subsection \<open>The emission loop\<close>

text \<open>A bit of the mask is met within the next \<open>i\<close> turns.\<close>

definition hit :: "nat \<Rightarrow> U8_t \<Rightarrow> U8_t \<Rightarrow> bool" where
  "hit i bitmask msk \<longleftrightarrow> (\<exists>j < i. drop_bit j bitmask AND msk \<noteq> 0)"

lemma hit_Suc: "hit (Suc i) b msk \<longleftrightarrow> b AND msk \<noteq> 0 \<or> hit i (drop_bit 1 b) msk"
proof -
  have "(\<exists>j < Suc i. P j) \<longleftrightarrow> P 0 \<or> (\<exists>j < i. P (Suc j))" for P by (auto simp: less_Suc_eq_0_disj)
  then show ?thesis by (simp add: hit_def)
qed

lemma hit_all: "hit 8 0x80 msk \<longleftrightarrow> msk \<noteq> 0"
proof
  assume "msk \<noteq> 0"
  then obtain n where n: "bit msk n" using bit_eqI [of msk 0] by auto
  then have n8: "n < 8" using bit_imp_le_length [of msk n] by simp
  have "(0x80 :: U8_t) = push_bit 7 1" by (simp add: push_bit_eq_mult)
  then have "bit (drop_bit (7 - n) 0x80 AND msk) n"
    using n n8 by (simp add: bit_simps del: push_bit_of_1)
  then have "drop_bit (7 - n) 0x80 AND msk \<noteq> 0" by (intro notI) simp
  then show "hit 8 0x80 msk" unfolding hit_def by (intro exI [of _ "7 - n"]) simp
qed (auto simp: hit_def)

lemma emit_bits_pending:
  assumes "events_ok s xs m" and "event_id src code \<in> nid s ` set xs"
  shows "\<exists>r t. emit_bits i b msk src code res s = Some (r, t) \<and> events_ok t xs m \<and> nid t = nid s \<and> event_frame s t xs"
  using assms
proof (induction i arbitrary: s b res)
  case 0
  have "event_frame s s xs" using event_frame_refresh [where s = s and e = "events s" and xs = xs] by simp
  with 0 show ?case by simp
next
  case (Suc i)
  show ?case
  proof (cases "b AND msk = 0")
    case True
    then show ?thesis using Suc.IH [OF Suc.prems] by simp
  next
    case False
    obtain x e where x: "event_at x s = Some e"
      "EventEmit src code EVENT_FLAG_NONE s = Some (OS_RES_FAIL, s\<lparr>events := (events s)(x \<mapsto> e\<lparr>life_time_us_cnt := 0\<rparr>)\<rparr>)"
      using EventEmit_pending [OF Suc.prems, of EVENT_FLAG_NONE] by blast
    let ?u = "s\<lparr>events := (events s)(x \<mapsto> e\<lparr>life_time_us_cnt := 0\<rparr>)\<rparr>"
    have n: "nid ?u = nid s" by (simp add: nid_def [abs_def])
    have "event_id src code \<in> nid ?u ` set xs" using Suc.prems(2) n by simp
    then obtain r t where "emit_bits i (drop_bit 1 b) msk src code OS_RES_FAIL ?u = Some (r, t)" "events_ok t xs m" "nid t = nid ?u"
      "event_frame ?u t xs"
      using Suc.IH [OF events_ok_refresh [OF Suc.prems(1) x(1)]] by blast
    moreover have "event_frame s ?u xs" by (rule event_frame_refresh)
    then have "event_frame s t xs" using calculation(4) by (rule event_frame_trans)
    ultimately show ?thesis using False x(2) n by simp
  qed
qed

lemma emit_bits_queues:
  assumes "events_ok s xs m" and "3 \<le> m" and "length xs < 255"
  shows "\<exists>r t ys. emit_bits i b msk src code res s = Some (r, t) \<and> events_ok t ys (m - 3) \<and> event_frame s t xs \<and>
    map (nid t) ys = (if hit i b msk then queue_id (event_id src code) (map (nid s) xs) else map (nid s) xs) \<and>
    set ys \<inter> objects s \<subseteq> set xs"
  using assms
proof (induction i arbitrary: s b res)
  case 0
  have "event_frame s s xs" using event_frame_refresh [where s = s and e = "events s" and xs = xs] by simp
  moreover have "events_ok s xs (m - 3)" using 0(1) roomy_le [of m _ "m - 3"] by (auto simp: events_ok_def objects_ok_def)
  ultimately show ?case by (auto simp: hit_def)
next
  case (Suc i)
  show ?case
  proof (cases "b AND msk = 0")
    case True
    then show ?thesis using Suc.IH [OF Suc.prems] by (simp add: hit_Suc)
  next
    case False
    obtain r u ys where u: "EventEmit src code EVENT_FLAG_NONE s = Some (r, u)" "events_ok u ys (m - 3)" "event_frame s u xs"
      "map (nid u) ys = queue_id (event_id src code) (map (nid s) xs)" "set ys \<inter> objects s \<subseteq> set xs"
      using EventEmit_step [OF Suc.prems, of src code EVENT_FLAG_NONE] by blast
    have "event_id src code \<in> set (map (nid u) ys)" unfolding u(4) by (simp add: queue_id_def)
    then have "event_id src code \<in> nid u ` set ys" by simp
    then obtain r' t where t: "emit_bits i (drop_bit 1 b) msk src code r u = Some (r', t)" "events_ok t ys (m - 3)" "nid t = nid u"
      "event_frame u t ys"
      using emit_bits_pending [OF u(2)] by blast
    have "event_frame s t xs" using event_frame_trans [OF u(3) t(4)] u(5) by blast
    then show ?thesis using False u t by (auto simp: hit_Suc)
  qed
qed

subsection \<open>Setting and reading flags\<close>

lemma event_frame_crit: "event_frame s t xs \<Longrightarrow> crit_ok t = crit_ok s"
  by (auto simp: event_frame_def crit_ok_def)

text \<open>The event groups \<open>gs\<close>: objects that are not events, in the list of event groups.\<close>

definition groups_ok :: "'a eventgroup_state_scheme \<Rightarrow> ptr list \<Rightarrow> ptr list \<Rightarrow> bool" where
  "groups_ok s gs xs \<longleftrightarrow> object_list s EventGroupList gs \<and> set gs \<subseteq> objects s \<and> set gs \<inter> set xs = {} \<and>
     (\<forall>x \<in> set gs. eventgroup_at x s \<noteq> None)"


lemma events_ok_groups: "events_ok s xs m \<Longrightarrow> events_ok (s\<lparr>eventgroups := f\<rparr>) xs m"
proof -
  have "objects (s\<lparr>eventgroups := f\<rparr>) = objects s" "objects_ok (s\<lparr>eventgroups := f\<rparr>) k = objects_ok s k" for k
    by (rule objects_cong; simp)+
  moreover have "searchable (s\<lparr>eventgroups := f\<rparr>) l xs = searchable s l xs" "list_unlocked (s\<lparr>eventgroups := f\<rparr>) l = list_unlocked s l"
    "nid (s\<lparr>eventgroups := f\<rparr>) = nid s" "event_at x (s\<lparr>eventgroups := f\<rparr>) = event_at x s" for l x
    by (simp_all add: searchable_def is_list_def list_unlocked_def ll_at_def node_at_def nid_def [abs_def] event_at_def)
  ultimately show "events_ok s xs m \<Longrightarrow> events_ok (s\<lparr>eventgroups := f\<rparr>) xs m" by (simp add: events_ok_def)
qed

lemma group_written:
  fixes s :: "'a eventgroup_state_scheme" and f v
  assumes "events_ok s xs m" and "nodes s x = Some n"
  defines "u \<equiv> (node_lock_set x v s)\<lparr>eventgroups := f\<rparr>"
  shows "events_ok u xs m" "objects u = objects s" "nid u = nid s"
proof -
  show "events_ok u xs m" unfolding u_def by (intro events_ok_groups events_ok_node_lock_set [OF assms(1,2)])
  show "objects u = objects s" unfolding u_def by (rule objects_cong; simp add: node_lock_set_def)
  show "nid u = nid s" unfolding u_def using assms(2) nid_node_lock_set [of s x] by (simp add: nid_def [abs_def])
qed

lemma EventgroupFlagsGet_eq:
  assumes "crit_ok s" and "object_list s EventGroupList gs" and "x \<in> set gs" and "eventgroup_at x s = Some g"
  shows "EventgroupFlagsGet (nid s x) msk s = Some (event_reg g AND msk, s)"
proof -
  obtain n where n: "nodes s x = Some n" "child n = x" "node_lock n = 0" "x \<noteq> NULL"
    using assms(2,3) object_list_nodes [OF assms(2,3)] by (auto simp: object_list_def)
  let ?u = "node_lock_set x (access_lock LIST_LOCK_MODE_READ) s"
  have "eventgroup_at x ?u = Some g" using assms(4) by (simp add: eventgroup_at_def node_lock_set_def split: if_splits)
  then have "EventgroupFlagsGet (nid s x) msk s = Some (event_reg g AND msk, node_lock_set x 0 ?u)"
    unfolding EventgroupFlagsGet_def
    by (intro LIST_NODE_ACCESS_ok [OF assms(1-3)])
       (use n assms(1) in \<open>auto simp: ListNodeChildGet_def node_at_def node_lock_set_def\<close>)
  moreover have "node_lock_set x 0 ?u = s" using n by (simp add: node_lock_set_def fun_upd_idem)
  ultimately show ?thesis by simp
qed

text \<open>The effect of setting flags, and that the groups are still found afterwards.\<close>

lemma EventgroupFlagsSet_ok:
  assumes "groups_ok s gs xs" and "x \<in> set gs" and "eventgroup_at x s = Some g" and "events_ok s xs m" and "3 \<le> m" and "length xs < 255"
  shows "\<exists>t ys. EventgroupFlagsSet (nid s x) msk s = Some ((), t) \<and> events_ok t ys (m - 3) \<and> crit_ok t \<and>
    map (nid t) ys = (if msk = 0 then map (nid s) xs
      else queue_id (event_id (nid s x) (EVENTGROUP_EVENT_FLAG_SET msk)) (map (nid s) xs)) \<and>
    eventgroups t = (eventgroups s)(x \<mapsto> g\<lparr>event_reg := event_reg g OR msk\<rparr>) \<and> object_list t EventGroupList gs \<and> nid t x = nid s x"
proof -
  have gs: "object_list s EventGroupList gs" and crit: "crit_ok s" and xo: "x \<in> objects s" "x \<notin> set xs"
    using assms by (auto simp: groups_ok_def events_ok_def objects_ok_def)
  obtain n where n: "nodes s x = Some n" "child n = x" "node_lock n = 0" "x \<noteq> NULL"
    using gs assms(2) object_list_nodes [OF gs assms(2)] by (auto simp: object_list_def)
  let ?l = "node_lock_set x (access_lock LIST_LOCK_MODE_WRITE) s"
  let ?u = "?l\<lparr>eventgroups := (eventgroups s)(x \<mapsto> g\<lparr>event_reg := event_reg g OR msk\<rparr>)\<rparr>"
  let ?code = "EVENTGROUP_EVENT_FLAG_SET msk"
  have eg: "eventgroups ?l = eventgroups s" by (simp add: node_lock_set_def)
  have u: "events_ok ?u xs m" "objects ?u = objects s" "nid ?u = nid s" by (rule group_written [OF assms(4) n(1)])+
  from emit_bits_queues [OF u(1) assms(5,6), of 8 "0x80" msk "nid s x" ?code OS_RES_OK]
  obtain r t ys where t: "emit_bits 8 0x80 msk (nid s x) ?code OS_RES_OK ?u = Some (r, t)" "events_ok t ys (m - 3)"
    "event_frame ?u t xs" "map (nid t) ys = (if msk = 0 then map (nid s) xs else queue_id (event_id (nid s x) ?code) (map (nid s) xs))"
    unfolding hit_all u(2,3) by (auto split: if_splits)
  have tx: "nodes t x = Some (n\<lparr>node_lock := access_lock LIST_LOCK_MODE_WRITE\<rparr>)"
    using t(3) xo u(2) n unfolding event_frame_def by (auto simp: node_lock_set_def)
  let ?t = "node_lock_set x 0 t"
  have frame: "eventgroups t = (eventgroups s)(x \<mapsto> g\<lparr>event_reg := event_reg g OR msk\<rparr>)" "lists t EventGroupList = lists s EventGroupList"
    "\<And>y. y \<in> set gs \<Longrightarrow> nodes t y = nodes ?u y"
    using t(3) assms(1) unfolding event_frame_def u(2) by (auto simp: groups_ok_def EventList_def EventGroupList_def node_lock_set_def)
  have crit_t: "crit_ok t" using event_frame_crit [OF t(3)] crit by (simp add: crit_ok_def node_lock_set_def)
  have "EventgroupFlagsSet (nid s x) msk s = Some ((), ?t)"
    unfolding EventgroupFlagsSet_def
    using n t(1) assms(3) eg crit_t tx
    by (intro LIST_NODE_ACCESS_ok [OF crit gs assms(2)])
       (auto simp: ListNodeChildGet_def node_at_def node_lock_set_node eventgroup_update_def eventgroup_at_def)
  moreover have tn: "nodes ?t y = nodes s y" if "y \<in> set gs" for y
    using that frame(3) [of y] tx n by (cases "y = x") (auto simp: node_lock_set_def)
  moreover have "dom (nodes s) \<subseteq> dom (nodes ?t)"
    using event_frame_dom [OF t(3)] n tx dom_node_lock_set [of s x] dom_node_lock_set [of t x] by simp
  then have "object_list ?t EventGroupList gs" using frame(2) tn by (intro object_list_keep [OF gs]) simp_all
  moreover have "events_ok ?t ys (m - 3)" by (rule events_ok_node_lock_set [OF t(2) tx])
  moreover have "map (nid ?t) ys = map (nid t) ys" using tx by simp
  moreover have "nid ?t x = nid s x" using tn [OF assms(2)] by (simp add: nid_def [abs_def] del: nid_node_lock_set)
  moreover have "eventgroups ?t = eventgroups t" "crit_ok ?t" using crit_t by (simp_all add: node_lock_set_def crit_ok_def)
  ultimately show ?thesis using t(4) frame(1) by metis
qed

text \<open>
  C32. Setting flags of an event group: the group's register takes them up and no other group changes; when the mask is
  not empty, the flag event of the mask is queued, once for all its bits and unless it is pending already, although the code
  emits it for every bit. The flags can then be read back.
\<close>

theorem eventgroup_set_get:
  assumes "groups_ok s gs xs" and "x \<in> set gs" and "eventgroup_at x s = Some g" and "events_ok s xs m" and "3 \<le> m" and "length xs < 255"
  shows "\<exists>t ys. EventgroupFlagsSet (nid s x) msk s = Some ((), t) \<and> eventgroup_at x t = Some (g\<lparr>event_reg := event_reg g OR msk\<rparr>) \<and>
    (\<forall>y. y \<noteq> x \<longrightarrow> eventgroup_at y t = eventgroup_at y s) \<and> events_ok t ys (m - 3) \<and>
    map (nid t) ys = (if msk = 0 then map (nid s) xs
      else queue_id (event_id (nid s x) (EVENTGROUP_EVENT_FLAG_SET msk)) (map (nid s) xs)) \<and>
    EventgroupFlagsGet (nid s x) msk t = Some (msk, t)"
proof -
  obtain t ys where t: "EventgroupFlagsSet (nid s x) msk s = Some ((), t)" "events_ok t ys (m - 3)" "crit_ok t"
    "map (nid t) ys = (if msk = 0 then map (nid s) xs else queue_id (event_id (nid s x) (EVENTGROUP_EVENT_FLAG_SET msk)) (map (nid s) xs))"
    "eventgroups t = (eventgroups s)(x \<mapsto> g\<lparr>event_reg := event_reg g OR msk\<rparr>)" "object_list t EventGroupList gs" "nid t x = nid s x"
    using EventgroupFlagsSet_ok [OF assms] by metis
  have "x \<noteq> NULL" using assms(3) by (simp add: eventgroup_at_def split: if_splits)
  then have g: "eventgroup_at x t = Some (g\<lparr>event_reg := event_reg g OR msk\<rparr>)" "\<forall>y. y \<noteq> x \<longrightarrow> eventgroup_at y t = eventgroup_at y s"
    using t(5) by (simp_all add: eventgroup_at_def)
  have "EventgroupFlagsGet (nid t x) msk t = Some (msk, t)"
    using EventgroupFlagsGet_eq [OF t(3,6) assms(2) g(1), of msk] by (simp add: word_ao_absorbs)
  then show ?thesis using t g by metis
qed


text \<open>The first two blocks of the pool are the event group at 0x1004, which has no flags and the ID 0x05000000.\<close>

definition group_start :: shell_state where
  "group_start = (alloc_state 0 0 2 event_start)\<lparr>nodes := [0x1004 \<mapsto> sample_node 0x05000000 0x1004 NULL NULL],
     lists := [EventList \<mapsto> sample_list NULL NULL 0, EventGroupList \<mapsto> sample_list 0x1004 0x1004 1],
     eventgroups := [0x1004 \<mapsto> \<lparr>eg_id = 0, event_reg = 0\<rparr>]\<rparr>"

lemma two_blocks_used: "objects_ok (alloc_state 0 0 2 event_start) 6" "objects (alloc_state 0 0 2 event_start) = {0x1004}"
proof -
  let ?m = "alloc_state 0 0 2 event_start" and ?B = "(\<lambda>_. replicate 8 Free)(0 := Used 2 # replicate 6 Free)"
  have wf: "mem_wf ?m ?B"
    using mem_wf_alloc [OF event_start_wf, of 0 "[]" 2 "replicate 6 Free"] by (simp add: eval_nat_numeral)
  have "roomy 6 (Used 2 # replicate 6 Free)" unfolding roomy_def by (metis append_Cons append_Nil append_Nil2)
  moreover have "pool_used ?m 0" "crit_ok ?m" using event_start_kernel(1) by (simp_all add: alloc_state_def Pool_update_def crit_ok_def event_start_def)
  ultimately show "objects_ok ?m 6" using wf event_start_kernel unfolding objects_ok_def by auto
  have "pool_ok ?m 0 (Used 2 # replicate 6 Free)" using mem_wf_pool [OF wf, of 0] \<open>pool_used ?m 0\<close> by simp
  then show "objects ?m = {0x1004}"
    unfolding objects_def by (simp add: pool_live_eq eval_nat_numeral) (simp add: alloc_state_def Pool_update_def event_start_def)
qed


lemma group_start_ok: "events_ok group_start [] 6" "groups_ok group_start [0x1004] []"
proof -
  have same: "objects group_start = {0x1004}" "objects_ok group_start 6"
    unfolding two_blocks_used(2) [symmetric] using two_blocks_used(1)
    by (subst objects_cong [where s = "alloc_state 0 0 2 event_start"]; simp add: group_start_def)+
  show "events_ok group_start [] 6"
    using same(2) by (simp add: events_ok_def searchable_def is_list_def list_unlocked_def ll_at_def group_start_def EventList_def EventGroupList_def)
  show "groups_ok group_start [0x1004] []"
    using same(1) by (simp add: groups_ok_def object_list_def searchable_def is_list_def list_unlocked_def ll_at_def group_start_def
        EventGroupList_def eventgroup_at_def nid_def node_at_def)
qed

theorem eventgroup_set_get_witness:
  "\<exists>t. EventgroupFlagsSet 0x05000000 5 group_start = Some ((), t) \<and> EventgroupFlagsGet 0x05000000 5 t = Some (5, t)"
proof -
  have "eventgroup_at 0x1004 group_start = Some \<lparr>eg_id = 0, event_reg = 0\<rparr>" "nid group_start 0x1004 = 0x05000000"
    by (simp_all add: group_start_def eventgroup_at_def nid_def)
  with eventgroup_set_get [OF group_start_ok(2) _ _ group_start_ok(1), where x = "0x1004" and msk = 5] show ?thesis by auto
qed

end
