(* ===== verification/HalUart.thy ===== *)
theory HalUart
  imports RingProps
begin

text \<open>
  The UART driver of the ATMega port (\<^verbatim>\<open>ports/Atmel/ATMega/hal/uart/Hal_uart.c\<close>): a ring of received bytes per channel,
  filled by the receive interrupt and emptied by the client. The driver of the AT32UC3A port is the same but for the flush.
\<close>

subsection \<open>Data\<close>

definition UART_RX_BUFSIZE :: nat where "UART_RX_BUFSIZE = 20"
definition UART_CHANNEL_LOGGER :: U8_t where "UART_CHANNEL_LOGGER = 0"
definition F_CPU :: U32_t where "F_CPU = 16000000"

record HalUartInstance =
  channel :: U8_t
  baud_rate :: U32_t
  n_stop_bits :: U8_t
  rx_callback :: ptr
  rx_buffer :: "U8_t list"
  buffer_read_i :: U8_t
  buffer_write_i :: U8_t
  buffer_data_avail :: U8_t
  buffer_status :: U8_t

text \<open>
  The registers of one USART, and the positions of the bits the driver sets in them, which the header of the C library
  for the part gives.
\<close>

record avr_usart =
  UBRRH :: U8_t
  UBRRL :: U8_t
  UCSRB :: U8_t
  UCSRC :: U8_t

record usart_bits =
  RXEN :: nat
  TXEN :: nat
  RXCIE :: nat
  USBS :: nat
  UCSZ0 :: nat

text \<open>The instances, the handle the interrupt uses, the two USARTs, what has been sent and how often the transmitter was polled.\<close>

record uart_state =
  uart_handles :: "ptr \<rightharpoonup> HalUartInstance"
  uart_handle_0 :: ptr
  USART0 :: avr_usart
  USART1 :: avr_usart
  UDR0_sent :: "U8_t list"
  udre_polls :: nat

definition uart_at :: "ptr \<Rightarrow> uart_state \<Rightarrow> HalUartInstance option" where
  "uart_at p s = (if p = NULL then None else uart_handles s p)"

definition uart_set :: "ptr \<Rightarrow> HalUartInstance \<Rightarrow> uart_state \<Rightarrow> uart_state" where
  "uart_set p u s = s\<lparr>uart_handles := (uart_handles s)(p \<mapsto> u)\<rparr>"

subsection \<open>Initialisation\<close>

text \<open>\<open>int\<close> has 16 bits on this part, and the divisor is computed with 32 bits before it is stored in one.\<close>

definition UBBR_VALUE :: "U32_t \<Rightarrow> U16_t option" where
  "UBBR_VALUE baud = (if baud = 0 then None else Some (ucast (F_CPU div 16 div baud - 1)))"

definition usart_configure :: "usart_bits \<Rightarrow> U16_t \<Rightarrow> avr_usart \<Rightarrow> avr_usart" where
  "usart_configure b v r = (let
     r = r\<lparr>UBRRH := ucast (drop_bit 8 v)\<rparr>;
     r = r\<lparr>UBRRL := ucast v\<rparr>;
     r = r\<lparr>UCSRB := push_bit (RXEN b) 1 OR push_bit (TXEN b) 1\<rparr>;
     r = r\<lparr>UCSRC := push_bit (USBS b) 1 OR push_bit (UCSZ0 b) 3\<rparr>
   in r\<lparr>UCSRB := UCSRB r OR push_bit (RXCIE b) 1\<rparr>)"

definition HalUartInit :: "usart_bits \<Rightarrow> ptr \<Rightarrow> uart_state \<Rightarrow> uart_state option" where
  "HalUartInit b uart_handle s = do {
     u \<leftarrow> uart_at uart_handle s;
     let u = u\<lparr>buffer_read_i := of_nat (UART_RX_BUFSIZE - 1), buffer_write_i := of_nat (UART_RX_BUFSIZE - 1)\<rparr>;
     let u = u\<lparr>buffer_data_avail := 0, buffer_status := 0\<rparr>;
     let s = uart_set uart_handle u s;
     v \<leftarrow> UBBR_VALUE (baud_rate u);
     if channel u = UART_CHANNEL_LOGGER
     then Some (s\<lparr>USART0 := usart_configure b v (USART0 s), uart_handle_0 := uart_handle\<rparr>)
     else Some (s\<lparr>USART1 := usart_configure b v (USART1 s)\<rparr>)
   }"

subsection \<open>Sending\<close>

text \<open>
  The wait for an empty data register; \<open>udre n\<close> is what the hardware answers to the \<open>n\<close>-th poll. A transmitter that never
  gets ready hangs the driver.
\<close>

partial_function (option) wait_udre :: "(nat \<Rightarrow> bool) \<Rightarrow> nat \<Rightarrow> nat option" where
  "wait_udre udre n = (if udre n then Some (Suc n) else wait_udre udre (Suc n))"

definition HalUartSendChar :: "(nat \<Rightarrow> bool) \<Rightarrow> ptr \<Rightarrow> U8_t \<Rightarrow> uart_state \<Rightarrow> uart_state option" where
  "HalUartSendChar udre uart_handle character s = do {
     u \<leftarrow> uart_at uart_handle s;
     if channel u = UART_CHANNEL_LOGGER then do {
       n \<leftarrow> wait_udre udre (udre_polls s);
       Some (s\<lparr>udre_polls := n, UDR0_sent := UDR0_sent s @ [character]\<rparr>)
     } else Some s
   }"

text \<open>The string from index \<open>i\<close> on; without a terminator the code reads on past it, and the index is an \<open>int\<close> of 16 bits.\<close>

fun SendString_loop :: "(nat \<Rightarrow> bool) \<Rightarrow> ptr \<Rightarrow> nat \<Rightarrow> U8_t list \<Rightarrow> uart_state \<Rightarrow> uart_state option" where
  "SendString_loop udre uart_handle i [] s = None"
| "SendString_loop udre uart_handle i (c # str) s =
     (if c = 0 then Some s
      else do {
        s \<leftarrow> HalUartSendChar udre uart_handle c s;
        if i = 32767 then None else SendString_loop udre uart_handle (Suc i) str s
      })"

definition HalUartSendString :: "(nat \<Rightarrow> bool) \<Rightarrow> ptr \<Rightarrow> U8_t list \<Rightarrow> uart_state \<Rightarrow> uart_state option" where
  "HalUartSendString udre uart_handle str s = SendString_loop udre uart_handle 0 str s"

subsection \<open>Receiving\<close>

text \<open>
  The body of the receive loop, up to the condition. It gives the byte that goes to the target, or nothing when it leaves
  the loop because there is no data.
\<close>

definition HalUartReceive_body :: "HalUartInstance \<Rightarrow> (U8_t option \<times> HalUartInstance) option" where
  "HalUartReceive_body u =
     (if buffer_data_avail u = 0 then Some (None, u\<lparr>buffer_status := 0\<rparr>)
      else do {
        let u = (if unat (buffer_read_i u) = UART_RX_BUFSIZE - 1 then u\<lparr>buffer_read_i := 0\<rparr>
                 else u\<lparr>buffer_read_i := buffer_read_i u + 1\<rparr>);
        if unat (buffer_read_i u) < length (rx_buffer u) then do {
          let c = rx_buffer u ! unat (buffer_read_i u);
          Some (Some c, u\<lparr>buffer_data_avail := buffer_data_avail u - 1\<rparr>)
        } else None
      })"

text \<open>The do-while loop with the target array; a write behind its end is an error.\<close>

partial_function (option) HalUartReceive_loop ::
    "U8_t \<Rightarrow> U8_t \<Rightarrow> U8_t list \<Rightarrow> HalUartInstance \<Rightarrow> (U8_t \<times> U8_t list \<times> HalUartInstance) option" where
  "HalUartReceive_loop amount i tgt u = do {
     (c, u) \<leftarrow> HalUartReceive_body u;
     case c of
       None \<Rightarrow> Some (i, tgt, u)
     | Some c \<Rightarrow>
         if unat i < length tgt then do {
           let tgt = tgt[unat i := c];
           let i = i + 1;
           if i < amount \<and> buffer_data_avail u \<noteq> 0 then HalUartReceive_loop amount i tgt u
           else Some (i, tgt, u)
         } else None
   }"

definition HalUartReceive :: "ptr \<Rightarrow> U8_t list \<Rightarrow> U8_t \<Rightarrow> uart_state \<Rightarrow> ((U8_t \<times> U8_t list) \<times> uart_state) option" where
  "HalUartReceive uart_handle tgt amount s = do {
     u \<leftarrow> uart_at uart_handle s;
     if buffer_status u = 0 then Some ((0, tgt), s)
     else do {
       (i, tgt, u) \<leftarrow> HalUartReceive_loop amount 0 tgt u;
       let u = (if buffer_data_avail u = 0 then u\<lparr>buffer_status := 0\<rparr> else u\<lparr>buffer_status := 1\<rparr>);
       Some ((i, tgt), uart_set uart_handle u s)
     }
   }"

definition HalUartBufferDataAmountGet :: "ptr \<Rightarrow> uart_state \<Rightarrow> (U8_t \<times> uart_state) option" where
  "HalUartBufferDataAmountGet uart_handle s = do { u \<leftarrow> uart_at uart_handle s; Some (buffer_data_avail u, s) }"

definition HalUartBufferStatusGet :: "ptr \<Rightarrow> uart_state \<Rightarrow> (U8_t \<times> uart_state) option" where
  "HalUartBufferStatusGet uart_handle s = do { u \<leftarrow> uart_at uart_handle s; Some (buffer_status u, s) }"

text \<open>The scan is over the first bytes of the array, wherever the ring starts; \<open>k\<close> is the number of turns left.\<close>

fun BufferContains_loop :: "nat \<Rightarrow> U8_t \<Rightarrow> U8_t \<Rightarrow> HalUartInstance \<Rightarrow> U8_t option" where
  "BufferContains_loop 0 i check_char u = Some 0"
| "BufferContains_loop (Suc k) i check_char u =
     (if unat i < length (rx_buffer u)
      then if rx_buffer u ! unat i = check_char then Some i else BufferContains_loop k (i + 1) check_char u
      else None)"

definition HalUartBufferContains :: "ptr \<Rightarrow> U8_t \<Rightarrow> uart_state \<Rightarrow> (U8_t \<times> uart_state) option" where
  "HalUartBufferContains uart_handle check_char s = do {
     u \<leftarrow> uart_at uart_handle s;
     i \<leftarrow> BufferContains_loop (unat (buffer_data_avail u)) 0 check_char u;
     Some (i, s)
   }"

definition HalUartBufferFlush :: "ptr \<Rightarrow> uart_state \<Rightarrow> uart_state option" where
  "HalUartBufferFlush uart_handle s = do {
     u \<leftarrow> uart_at uart_handle s;
     let u = u\<lparr>buffer_read_i := of_nat (UART_RX_BUFSIZE - 1), buffer_write_i := of_nat (UART_RX_BUFSIZE - 1)\<rparr>;
     Some (uart_set uart_handle (u\<lparr>buffer_status := 0, buffer_data_avail := 0\<rparr>) s)
   }"

text \<open>In the driver of the AT32UC3A the flush leaves the amount of data as it is.\<close>

definition HalUartBufferFlush_AT32 :: "ptr \<Rightarrow> uart_state \<Rightarrow> uart_state option" where
  "HalUartBufferFlush_AT32 uart_handle s = do {
     u \<leftarrow> uart_at uart_handle s;
     let u = u\<lparr>buffer_read_i := of_nat (UART_RX_BUFSIZE - 1), buffer_write_i := of_nat (UART_RX_BUFSIZE - 1)\<rparr>;
     Some (uart_set uart_handle (u\<lparr>buffer_status := 0\<rparr>) s)
   }"

text \<open>The receive interrupt; \<open>c\<close> is the byte in the data register.\<close>

definition USART0_RX_advance :: "HalUartInstance \<Rightarrow> HalUartInstance" where
  "USART0_RX_advance u = (let free = int UART_RX_BUFSIZE - uint (buffer_data_avail u) in
     if unat (buffer_write_i u) = UART_RX_BUFSIZE - 1 \<and> free \<noteq> 0 then u\<lparr>buffer_write_i := 0\<rparr>
     else if free \<noteq> 0 then u\<lparr>buffer_write_i := buffer_write_i u + 1\<rparr>
     else u)"

definition USART0_RX_receive :: "U8_t \<Rightarrow> HalUartInstance \<Rightarrow> HalUartInstance option" where
  "USART0_RX_receive c u =
     (if buffer_status u \<noteq> 2 then do {
        let u = USART0_RX_advance u;
        let u = u\<lparr>buffer_status := 1\<rparr>;
        let u = (if unat (buffer_data_avail u) = UART_RX_BUFSIZE then u\<lparr>buffer_status := 2\<rparr> else u);
        if unat (buffer_write_i u) < length (rx_buffer u) then do {
          let u = u\<lparr>rx_buffer := (rx_buffer u)[unat (buffer_write_i u) := c]\<rparr>;
          Some (u\<lparr>buffer_data_avail := buffer_data_avail u + 1\<rparr>)
        } else None
      } else Some u)"

definition USART0_RX_vect :: "U8_t \<Rightarrow> uart_state \<Rightarrow> uart_state option" where
  "USART0_RX_vect c s = do {
     u \<leftarrow> uart_at (uart_handle_0 s) s;
     u \<leftarrow> USART0_RX_receive c u;
     Some (uart_set (uart_handle_0 s) u s)
   }"


subsection \<open>The ring\<close>

text \<open>The place \<open>j\<close> bytes behind the next one to be read, and what is in it.\<close>

definition place :: "HalUartInstance \<Rightarrow> nat \<Rightarrow> nat" where
  "place u j = (unat (buffer_read_i u) + 1 + j) mod 20"

definition cell :: "HalUartInstance \<Rightarrow> nat \<Rightarrow> U8_t" where
  "cell u j = rx_buffer u ! place u j"

definition uart_shape :: "HalUartInstance \<Rightarrow> bool" where
  "uart_shape u \<longleftrightarrow> length (rx_buffer u) = 20 \<and> unat (buffer_read_i u) < 20"

text \<open>The instance after \<open>k\<close> bytes have been read.\<close>

definition uart_skip :: "nat \<Rightarrow> HalUartInstance \<Rightarrow> HalUartInstance" where
  "uart_skip k u = u\<lparr>buffer_read_i := of_nat ((unat (buffer_read_i u) + k) mod 20),
     buffer_data_avail := buffer_data_avail u - of_nat k\<rparr>"

lemma unat_mod_20 [simp]: "unat (of_nat (n mod 20) :: U8_t) = n mod 20"
proof -
  have "n mod 20 < 2 ^ 8" using mod_less_divisor [of 20 n] by simp
  then show ?thesis by (simp add: unat_of_nat)
qed

lemma uart_skip_shape: "uart_shape u \<Longrightarrow> uart_shape (uart_skip k u)"
  by (simp add: uart_shape_def uart_skip_def)

lemma cell_skip: "cell (uart_skip k u) j = cell u (k + j)"
  using mod_add_left_eq [of "unat (buffer_read_i u) + k" 20 "1 + j"]
  by (simp add: cell_def place_def uart_skip_def ac_simps)

lemma uart_skip_skip: "uart_skip j (uart_skip k u) = uart_skip (k + j) u"
  by (simp add: uart_skip_def mod_simps add.assoc)

lemma next_read:
  assumes "unat (i :: U8_t) < 20"
  shows "(if unat i = UART_RX_BUFSIZE - 1 then 0 else i + 1) = of_nat ((unat i + 1) mod 20)"
proof (cases "unat i = 19")
  case False
  then have "(unat i + 1) mod 20 = unat i + 1" using assms by simp
  then show ?thesis using False by (simp add: UART_RX_BUFSIZE_def add.commute)
qed (simp add: UART_RX_BUFSIZE_def)

lemma Receive_body_eq:
  assumes "uart_shape u" and "buffer_data_avail u \<noteq> 0"
  shows "HalUartReceive_body u = Some (Some (cell u 0), uart_skip 1 u)"
proof -
  have "(if unat (buffer_read_i u) = UART_RX_BUFSIZE - 1 then u\<lparr>buffer_read_i := 0\<rparr> else u\<lparr>buffer_read_i := buffer_read_i u + 1\<rparr>)
      = u\<lparr>buffer_read_i := of_nat ((unat (buffer_read_i u) + 1) mod 20)\<rparr>"
    using next_read [of "buffer_read_i u"] assms(1) by (auto simp: uart_shape_def split: if_splits)
  then show ?thesis
    using assms by (simp add: HalUartReceive_body_def Let_def uart_shape_def uart_skip_def cell_def place_def)
qed

lemma Receive_loop_eq:
  assumes "uart_shape u" and "buffer_data_avail u \<noteq> 0" and "i = 0 \<or> i < amount"
    and "k = min (max 1 (unat amount - unat i)) (unat (buffer_data_avail u))" and "unat i + k \<le> length tgt"
  shows "HalUartReceive_loop amount i tgt u =
    Some (i + of_nat k, take (unat i) tgt @ map (cell u) [0..<k] @ drop (unat i + k) tgt, uart_skip k u)"
  using assms
proof (induction "unat (buffer_data_avail u)" arbitrary: i tgt u k)
  case 0
  then show ?case by (simp add: unat_eq_zero)
next
  case (Suc n)
  let ?u = "uart_skip 1 u" and ?tgt = "tgt[unat i := cell u 0]"
  have n: "unat (buffer_data_avail ?u) = n"
    using Suc.hyps(2) Suc.prems(2) by (simp add: uart_skip_def unat_minus_one)
  have k: "k = min (max 1 (unat amount - unat i)) (Suc n)" "0 < k" using Suc.prems(4) Suc.hyps(2) by simp_all
  have i: "unat i < length tgt" using Suc.prems(5) k(2) by simp
  have body: "HalUartReceive_body u = Some (Some (cell u 0), ?u)" by (rule Receive_body_eq [OF Suc.prems(1,2)])
  have "i \<noteq> - 1"
  proof
    assume "i = - 1"
    then have "i = 0 \<or> (- 1 :: U8_t) < amount" using Suc.prems(3) by simp
    then show False using \<open>i = - 1\<close> by auto
  qed
  then have i1: "unat (i + 1) = Suc (unat i)" using unat_inc_max [of i] by simp
  have put: "take (Suc (unat i)) ?tgt = take (unat i) tgt @ [cell u 0]" "drop (Suc (unat i) + j) ?tgt = drop (Suc (unat i) + j) tgt" for j
    using i by (simp_all add: take_Suc_conv_app_nth)
  show ?case
  proof (cases "i + 1 < amount \<and> buffer_data_avail ?u \<noteq> 0")
    case True
    have lt: "Suc (unat i) < unat amount" using True i1 by (simp add: word_less_nat_alt)
    have "n \<noteq> 0" using True n unat_gt_0 [of "buffer_data_avail ?u"] by simp
    then have k1: "k - 1 = min (max 1 (unat amount - unat (i + 1))) (unat (buffer_data_avail ?u))"
      unfolding n using lt k(1) i1 by (auto simp: min_def max_def)
    have "HalUartReceive_loop amount (i + 1) ?tgt ?u =
      Some (i + 1 + of_nat (k - 1), take (unat (i + 1)) ?tgt @ map (cell ?u) [0..<k - 1] @ drop (unat (i + 1) + (k - 1)) ?tgt,
        uart_skip (k - 1) ?u)"
      using Suc.prems(5) k(2) k1 True i1
      by (intro Suc.hyps(1) [OF n [symmetric] uart_skip_shape [OF Suc.prems(1)]]) auto
    moreover have "i + 1 + of_nat (k - 1) = i + of_nat k" using k(2) by (simp add: of_nat_diff)
    moreover have "uart_skip (k - 1) ?u = uart_skip k u" using k(2) by (simp add: uart_skip_skip)
    moreover have "map (cell u) [0..<k] = cell u 0 # map (cell ?u) [0..<k - 1]"
      using k(2) by (cases k) (simp_all add: cell_skip map_upt_Suc del: upt_Suc)
    ultimately show ?thesis
      using True i k(2) put by (subst HalUartReceive_loop.simps) (simp add: body i1 Let_def)
  next
    case False
    then have "unat amount \<le> Suc (unat i) \<or> n = 0"
      using n i1 unat_gt_0 [of "buffer_data_avail ?u"] by (auto simp: word_less_nat_alt)
    then have "k = 1" using k(1) by (auto simp: min_def max_def)
    then show ?thesis
      using False i by (subst HalUartReceive_loop.simps) (auto simp: body Let_def upd_conv_take_nth_drop)
  qed
qed


subsection \<open>The receive queue\<close>

text \<open>The instance holds the bytes \<open>q\<close>, at most 20 of them; the write index is on the last one.\<close>

definition uart_ring :: "HalUartInstance \<Rightarrow> U8_t list \<Rightarrow> bool" where
  "uart_ring u q \<longleftrightarrow> uart_shape u \<and> length q \<le> 20 \<and> unat (buffer_data_avail u) = length q \<and>
     unat (buffer_write_i u) = (unat (buffer_read_i u) + length q) mod 20 \<and>
     buffer_status u = (if q = [] then 0 else 1) \<and> (\<forall>j < length q. cell u j = q ! j)"

definition uart_rep :: "uart_state \<Rightarrow> U8_t list \<Rightarrow> bool" where
  "uart_rep s q \<longleftrightarrow> (\<exists>u. uart_at (uart_handle_0 s) s = Some u \<and> uart_ring u q)"

lemma uart_at_set [simp]: "p \<noteq> NULL \<Longrightarrow> uart_at p (uart_set p u s) = Some u" "uart_handle_0 (uart_set p u s) = uart_handle_0 s"
  by (simp_all add: uart_at_def uart_set_def)

lemma uart_at_handle: "uart_at p s = Some u \<Longrightarrow> p \<noteq> NULL"
  by (auto simp: uart_at_def split: if_splits)

lemma cells: "uart_ring u q \<Longrightarrow> k \<le> length q \<Longrightarrow> map (cell u) [0..<k] = take k q"
  by (intro nth_equalityI) (auto simp: uart_ring_def)

lemma uart_ring_skip:
  assumes "uart_ring u q" and "k \<le> length q"
  shows "uart_ring ((uart_skip k u)\<lparr>buffer_status := (if k = length q then 0 else 1)\<rparr>) (drop k q)"
proof -
  let ?u = "(uart_skip k u)\<lparr>buffer_status := (if k = length q then 0 else 1)\<rparr>"
  have "cell ?u j = cell u (k + j)" for j using cell_skip [of k u j] by (simp add: cell_def place_def)
  moreover have "unat (buffer_data_avail ?u) = length q - k"
    using assms by (simp add: uart_skip_def uart_ring_def unat_sub_if' unat_of_nat)
  moreover have "(unat (buffer_read_i ?u) + (length q - k)) mod 20 = (unat (buffer_read_i u) + length q) mod 20"
    using assms(2) mod_add_left_eq [of "unat (buffer_read_i u) + k" 20 "length q - k"] by (simp add: uart_skip_def)
  moreover have "uart_shape ?u" using uart_skip_shape [of u k] assms(1) by (simp add: uart_shape_def uart_ring_def)
  ultimately show ?thesis using assms by (auto simp: uart_ring_def uart_skip_def)
qed

lemma HalUartReceive_ring:
  assumes "uart_rep s q" and "q \<noteq> []" and "k = min (max 1 (unat amount)) (length q)" and "k \<le> length tgt"
  shows "\<exists>t. HalUartReceive (uart_handle_0 s) tgt amount s = Some ((of_nat k, take k q @ drop k tgt), t) \<and> uart_rep t (drop k q)"
proof -
  obtain u where u: "uart_at (uart_handle_0 s) s = Some u" "uart_ring u q" using assms(1) by (auto simp: uart_rep_def)
  have av: "unat (buffer_data_avail u) = length q" "buffer_data_avail u \<noteq> 0" "buffer_status u \<noteq> 0" "uart_shape u"
    using u(2) assms(2) by (auto simp: uart_ring_def)
  let ?v = "(uart_skip k u)\<lparr>buffer_status := (if k = length q then 0 else 1)\<rparr>"
  have k: "k \<le> length q" using assms(3) by simp
  have "HalUartReceive_loop amount 0 tgt u = Some (of_nat k, take k q @ drop k tgt, uart_skip k u)"
    using Receive_loop_eq [OF av(4,2), of 0 amount k tgt] assms(3,4) cells [OF u(2) k] av(1) by simp
  moreover have "unat (buffer_data_avail (uart_skip k u)) = length q - k"
    using uart_ring_skip [OF u(2) k] by (simp add: uart_ring_def)
  then have "buffer_data_avail (uart_skip k u) = 0 \<longleftrightarrow> k = length q"
    using k unat_gt_0 [of "buffer_data_avail (uart_skip k u)"] by auto
  ultimately have "HalUartReceive (uart_handle_0 s) tgt amount s = Some ((of_nat k, take k q @ drop k tgt), uart_set (uart_handle_0 s) ?v s)"
    using u(1) av(3) by (simp add: HalUartReceive_def)
  moreover have "uart_rep (uart_set (uart_handle_0 s) ?v s) (drop k q)"
    using uart_ring_skip [OF u(2) k] uart_at_handle [OF u(1)] by (simp add: uart_rep_def)
  ultimately show ?thesis by blast
qed

lemma cell_put:
  assumes "uart_shape u" and "i < 20" and "j < 20"
  shows "cell (u\<lparr>rx_buffer := (rx_buffer u)[place u i := c]\<rparr>) j = (if j = i then c else cell u j)"
proof -
  have "place u i = place u j \<longleftrightarrow> i = j" using assms(2,3) mod_add_inj [of "unat (buffer_read_i u) + 1" i 20 j] by (auto simp: place_def)
  moreover have "place u j < length (rx_buffer u)" using assms(1) by (simp add: uart_shape_def place_def)
  ultimately show ?thesis by (auto simp: cell_def place_def)
qed

lemma USART0_RX_advance_eq:
  assumes "unat (buffer_write_i u) < 20" and "unat (buffer_data_avail u) \<noteq> 20"
  shows "USART0_RX_advance u = u\<lparr>buffer_write_i := of_nat ((unat (buffer_write_i u) + 1) mod 20)\<rparr>"
proof -
  have "int 20 - int n \<noteq> 0" if "n \<noteq> 20" for n :: nat using that by simp
  then have "int UART_RX_BUFSIZE - uint (buffer_data_avail u) \<noteq> 0" using assms(2) unfolding UART_RX_BUFSIZE_def uint_nat .
  moreover have "(if unat (buffer_write_i u) = UART_RX_BUFSIZE - 1 then u\<lparr>buffer_write_i := 0\<rparr>
      else u\<lparr>buffer_write_i := buffer_write_i u + 1\<rparr>) = u\<lparr>buffer_write_i := of_nat ((unat (buffer_write_i u) + 1) mod 20)\<rparr>"
    unfolding next_read [OF assms(1), symmetric] by simp
  ultimately show ?thesis by (simp only: USART0_RX_advance_def Let_def simp_thms if_True not_False_eq_True)
qed

text \<open>The instance after an interrupt that has room, and after one that has not.\<close>

definition uart_put :: "U8_t \<Rightarrow> HalUartInstance \<Rightarrow> HalUartInstance" where
  "uart_put c u = (let n = unat (buffer_data_avail u); i = min n 19 in
     u\<lparr>buffer_write_i := of_nat (place u i), buffer_status := (if n < 20 then 1 else 2),
       rx_buffer := (rx_buffer u)[place u i := c], buffer_data_avail := buffer_data_avail u + 1\<rparr>)"

lemma USART0_RX_receive_eq:
  assumes "uart_ring u q"
  shows "USART0_RX_receive c u = Some (uart_put c u)"
proof -
  let ?n = "length q"
  have u: "uart_shape u" "unat (buffer_data_avail u) = ?n" "?n \<le> 20" "buffer_status u \<noteq> 2"
    "unat (buffer_write_i u) = (unat (buffer_read_i u) + ?n) mod 20" using assms by (auto simp: uart_ring_def)
  have in_buf: "place u j < length (rx_buffer u)" "unat (of_nat (place u j) :: U8_t) = place u j" for j
    using u(1) by (simp_all add: uart_shape_def place_def)
  have "USART0_RX_advance u = u\<lparr>buffer_write_i := of_nat (place u (min ?n 19))\<rparr>"
  proof (cases "?n < 20")
    case True
    then have "min ?n 19 = ?n" by simp
    then show ?thesis
      using True u(2,5) mod_add_left_eq [of "unat (buffer_read_i u) + ?n" 20 1]
      by (simp add: USART0_RX_advance_eq place_def ac_simps)
  next
    case False
    then have "?n = 20" using u(3) by simp
    moreover have "buffer_write_i u = of_nat (place u 19)"
      using u(1,5) calculation by (simp add: word_unat_eq_iff in_buf(2)) (simp add: place_def uart_shape_def)
    ultimately show ?thesis using u(2) by (simp add: USART0_RX_advance_def Let_def UART_RX_BUFSIZE_def uint_nat)
  qed
  then show ?thesis using u(2-4) in_buf by (auto simp: USART0_RX_receive_def uart_put_def Let_def UART_RX_BUFSIZE_def)
qed

lemma uart_ring_put:
  assumes "uart_ring u q" and "length q < 20"
  shows "uart_ring (uart_put c u) (q @ [c])"
proof -
  have u: "uart_shape u" "unat (buffer_data_avail u) = length q" using assms(1) by (auto simp: uart_ring_def)
  have "cell (uart_put c u) j = cell (u\<lparr>rx_buffer := (rx_buffer u)[place u (length q) := c]\<rparr>) j" for j
    using assms(2) u(2) by (simp add: uart_put_def Let_def cell_def place_def)
  then have "cell (uart_put c u) j = (q @ [c]) ! j" if "j < Suc (length q)" for j
    using that assms u(1) by (auto simp: cell_put nth_append uart_ring_def)
  moreover have "unat (buffer_data_avail u + 1) = Suc (length q)" using assms(2) u(2) by (subst unat_inc) simp_all
  moreover have "uart_shape (uart_put c u)" using u(1) by (simp add: uart_shape_def uart_put_def Let_def)
  ultimately show ?thesis using assms(2) u(2) by (simp add: uart_ring_def uart_put_def Let_def place_def)
qed

lemma uart_rx:
  assumes "uart_rep s q" and "length q < 20"
  shows "\<exists>t. USART0_RX_vect c s = Some t \<and> uart_rep t (q @ [c])"
proof -
  obtain u where u: "uart_at (uart_handle_0 s) s = Some u" "uart_ring u q" using assms(1) by (auto simp: uart_rep_def)
  show ?thesis
    using USART0_RX_receive_eq [OF u(2)] uart_ring_put [OF u(2) assms(2)] u(1) uart_at_handle [OF u(1)]
    by (simp add: USART0_RX_vect_def uart_rep_def)
qed

interpretation uart_queue: fifo_queue USART0_RX_vect
  "\<lambda>s. do { ((_, tgt), s) \<leftarrow> HalUartReceive (uart_handle_0 s) [0] 1 s; Some (tgt ! 0, s) }" uart_rep "\<lambda>q v. length q < 20"
proof unfold_locales
  fix s q v assume "uart_rep s q" "length q < 20"
  then show "\<exists>t. USART0_RX_vect v s = Some t \<and> uart_rep t (q @ [v])" by (rule uart_rx)
next
  fix s v q assume "uart_rep s (v # q)"
  from HalUartReceive_ring [OF this, of 1 1 "[0]"]
  show "\<exists>t. do { ((_, tgt), s) \<leftarrow> HalUartReceive (uart_handle_0 s) [0] 1 s; Some (tgt ! 0, s) } = Some (v, t) \<and> uart_rep t q" by force
qed


text \<open>
  Reading from a UART whose receive ring holds at least one byte: the call gives the oldest bytes in their order,
  as many as asked for and present, but always one even when none is asked for, and keeps the rest; bytes of the target
  behind them are untouched.
\<close>

lemma uart_receive:
  assumes "uart_rep s q" and "q \<noteq> []" and "k = min (max 1 (unat amount)) (length q)" and "k \<le> length tgt"
  shows "\<exists>t. HalUartReceive (uart_handle_0 s) tgt amount s = Some ((of_nat k, take k q @ drop k tgt), t) \<and> uart_rep t (drop k q)"
  using assms by (rule HalUartReceive_ring)

text \<open>
  C33. The bytes that arrive at the UART and those the client reads are one queue: from an empty or partly filled ring,
  any sequence of receive interrupts and reads of a byte that never puts more than 20 bytes into it answers as a
  first-in first-out queue does.
\<close>

theorem uart_fifo:
  assumes "uart_rep s q" and "qrun (\<lambda>q v. length q < 20) ops q = Some (out, q')"
  shows "\<exists>t. srun USART0_RX_vect (\<lambda>s. do { ((_, tgt), s) \<leftarrow> HalUartReceive (uart_handle_0 s) [0] 1 s; Some (tgt ! 0, s) }) ops s
      = Some (out, t) \<and> uart_rep t q' \<and> out @ q' = q @ put ops"
  using uart_queue.run_refines [OF assms] qrun_order [OF assms(2)] by blast

text \<open>The ring after the interrupt that finds 20 bytes, and after all 21 have been read.\<close>

lemma uart_overfull:
  assumes "uart_ring u q" and "length q = 20"
  shows "uart_shape (uart_put c u)" "buffer_status (uart_put c u) = 2" "buffer_data_avail (uart_put c u) = 21"
    "buffer_write_i (uart_put c u) = buffer_read_i (uart_put c u)"
    "map (cell (uart_put c u)) [0..<21] = q[19 := c] @ [hd q]" "cell (uart_put c u) 1 = q ! 1"
proof -
  let ?v = "uart_put c u"
  have shape: "uart_shape u" and n: "unat (buffer_data_avail u) = 20" using assms by (auto simp: uart_ring_def)
  have v: "?v = u\<lparr>buffer_write_i := of_nat (place u 19), buffer_status := 2, rx_buffer := (rx_buffer u)[place u 19 := c],
      buffer_data_avail := 21\<rparr>"
    using n by (simp add: uart_put_def word_unat_eq_iff unat_inc)
  have cells: "cell ?v j = (if j = 19 then c else q ! j)" if "j < 20" for j
  proof -
    have "cell ?v j = cell (u\<lparr>rx_buffer := (rx_buffer u)[place u 19 := c]\<rparr>) j" by (simp add: v cell_def place_def)
    then show ?thesis using cell_put [OF shape, of 19 j c] assms that by (simp add: uart_ring_def)
  qed
  show "uart_shape ?v" "buffer_status ?v = 2" "buffer_data_avail ?v = 21" using shape by (simp_all add: v uart_shape_def)
  have "unat (of_nat (place u 19) :: U8_t) = unat (buffer_read_i u)"
    using shape by (simp add: place_def) (simp add: uart_shape_def)
  then show "buffer_write_i ?v = buffer_read_i ?v" by (simp add: v word_unat_eq_iff)
  have "cell ?v 20 = cell ?v 0" using mod_add_self2 [of "unat (buffer_read_i ?v) + 1" 20] by (simp add: cell_def place_def ac_simps)
  moreover have "map (cell ?v) [0..<20] = q[19 := c]" using cells assms(2) by (intro nth_equalityI) (auto simp: nth_list_update)
  moreover have "[0..<21] = [0..<20] @ [20]" using upt_Suc_append [of 0 20] by simp
  moreover have "hd q = q ! 0" using assms(2) by (cases q) simp_all
  ultimately show "map (cell ?v) [0..<21] = q[19 := c] @ [hd q]" using cells [of 0] by simp
  show "cell ?v 1 = q ! 1" using cells [of 1] by simp
qed

lemma uart_slipped:
  assumes "uart_shape v" and "buffer_write_i v = buffer_read_i v" and "buffer_data_avail v = 21"
  defines "w \<equiv> (uart_skip 21 v)\<lparr>buffer_status := 0\<rparr>"
  shows "\<exists>x. USART0_RX_receive e w = Some x \<and> buffer_status x = 1 \<and> HalUartReceive_loop 1 0 [0] x = Some (1, [cell v 1], uart_skip 1 x)"
proof -
  have w: "buffer_status w = 0" "buffer_data_avail w = 0" "unat (buffer_read_i w) = (unat (buffer_read_i v) + 21) mod 20"
    "buffer_write_i w = buffer_read_i v" "rx_buffer w = rx_buffer v"
    using assms(2,3) by (simp_all add: w_def uart_skip_def)
  define x where "x = w\<lparr>buffer_write_i := of_nat (place v 0), buffer_status := 1, rx_buffer := (rx_buffer w)[place v 0 := e],
      buffer_data_avail := 1\<rparr>"
  have "place v 0 < length (rx_buffer w)" "unat (of_nat (place v 0) :: U8_t) = place v 0"
    "(unat (buffer_write_i w) + 1) mod 20 = place v 0" "unat (buffer_write_i w) < 20"
    using assms(1) w(4,5) by (simp_all add: place_def uart_shape_def)
  then have rx: "USART0_RX_receive e w = Some x"
    using w by (simp add: USART0_RX_receive_def USART0_RX_advance_eq UART_RX_BUFSIZE_def Let_def x_def)
  have wrap: "((r + 21) mod 20 + 1) mod 20 = (r + 2) mod (20 :: nat)" for r
    using mod_add_left_eq [of "r + 21" 20 1] mod_add_self2 [of "r + 2" 20] by (simp add: ac_simps)
  have "place x 0 = ((unat (buffer_read_i v) + 21) mod 20 + 1) mod 20" by (simp add: x_def place_def w(3))
  then have "place x 0 = place v 1" unfolding wrap by (simp add: place_def)
  moreover have "place v 1 \<noteq> place v 0" using mod_add_inj [of "unat (buffer_read_i v) + 1" 1 20 0] by (auto simp: place_def)
  ultimately have "cell x 0 = cell v 1" using w(5) by (simp add: cell_def x_def)
  moreover have "uart_shape x" using assms(1) w by (simp add: x_def uart_shape_def)
  ultimately have "HalUartReceive_loop 1 0 [0] x = Some (1, [cell v 1], uart_skip 1 x)"
    using Receive_loop_eq [of x 0 1 1 "[0]"] by (simp add: x_def)
  with rx show ?thesis by (simp add: x_def)
qed

text \<open>
  C34. When 20 bytes wait in the ring, the next byte takes the place of the newest, and the driver counts 21; bytes after it
  are dropped. A read of everything then gives the oldest byte a second time, and from there on the read index is one place
  ahead: the next byte that arrives is not the one that is read.
\<close>

theorem uart_overflow:
  assumes "uart_rep s q" and "length q = 20" and "21 \<le> amount" and "21 \<le> length tgt"
  shows "\<exists>t t' t'' t3. USART0_RX_vect c s = Some t \<and> USART0_RX_vect d t = Some t \<and>
    HalUartReceive (uart_handle_0 s) tgt amount t = Some ((21, q[19 := c] @ [hd q] @ drop 21 tgt), t') \<and>
    USART0_RX_vect e t' = Some t'' \<and> HalUartReceive (uart_handle_0 s) [0] 1 t'' = Some ((1, [q ! 1]), t3)"
proof -
  let ?h = "uart_handle_0 s"
  obtain u where u: "uart_at ?h s = Some u" "uart_ring u q" using assms(1) by (auto simp: uart_rep_def)
  have h: "?h \<noteq> NULL" by (rule uart_at_handle [OF u(1)])
  define v where "v = uart_put c u"
  note v = uart_overfull [OF u(2) assms(2), of c, folded v_def]
  let ?t = "uart_set ?h v s" and ?w = "(uart_skip 21 v)\<lparr>buffer_status := 0\<rparr>"
  obtain x where x: "USART0_RX_receive e ?w = Some x" "buffer_status x = 1"
    "HalUartReceive_loop 1 0 [0] x = Some (1, [cell v 1], uart_skip 1 x)" using uart_slipped [OF v(1,4,3)] by blast
  have "USART0_RX_vect c s = Some ?t" using u h USART0_RX_receive_eq [OF u(2)] by (simp add: USART0_RX_vect_def v_def)
  moreover have "USART0_RX_vect d ?t = Some ?t"
    using h v(2) by (simp add: USART0_RX_vect_def USART0_RX_receive_def) (simp add: uart_set_def)
  moreover have "HalUartReceive_loop amount 0 tgt v = Some (21, q[19 := c] @ [hd q] @ drop 21 tgt, uart_skip 21 v)"
    using Receive_loop_eq [OF v(1), of 0 amount 21 tgt] assms(3,4) v(3,5) by (simp add: word_le_nat_alt)
  moreover have "buffer_data_avail (uart_skip 21 v) = 0" using v(3) by (simp add: uart_skip_def)
  ultimately have "HalUartReceive ?h tgt amount ?t = Some ((21, q[19 := c] @ [hd q] @ drop 21 tgt), uart_set ?h ?w ?t)"
    using h v(2) by (simp add: HalUartReceive_def)
  moreover have "USART0_RX_vect e (uart_set ?h ?w ?t) = Some (uart_set ?h x (uart_set ?h ?w ?t))"
    using h x(1) by (simp add: USART0_RX_vect_def)
  moreover have "\<exists>t3. HalUartReceive ?h [0] 1 (uart_set ?h x (uart_set ?h ?w ?t)) = Some ((1, [q ! 1]), t3)"
    using h x(2,3) v(6) by (simp add: HalUartReceive_def)
  ultimately show ?thesis using \<open>USART0_RX_vect c s = Some ?t\<close> \<open>USART0_RX_vect d ?t = Some ?t\<close> by blast
qed

text \<open>A driver with one empty instance.\<close>

definition uart_start :: uart_state where
  "uart_start = \<lparr>uart_handles = [1 \<mapsto> \<lparr>channel = 0, baud_rate = 9600, n_stop_bits = 1, rx_callback = NULL, rx_buffer = replicate 20 0,
       buffer_read_i = 19, buffer_write_i = 19, buffer_data_avail = 0, buffer_status = 0\<rparr>],
     uart_handle_0 = 1, USART0 = \<lparr>UBRRH = 0, UBRRL = 0, UCSRB = 0, UCSRC = 0\<rparr>,
     USART1 = \<lparr>UBRRH = 0, UBRRL = 0, UCSRB = 0, UCSRC = 0\<rparr>, UDR0_sent = [], udre_polls = 0\<rparr>"

lemma uart_start_ok: "uart_rep uart_start []" "uart_handle_0 uart_start = 1"
  by (simp_all add: uart_start_def uart_rep_def uart_at_def uart_ring_def uart_shape_def)

lemma uart_received:
  assumes "length bs \<le> 20"
  shows "\<exists>s. uart_rep s bs"
proof -
  have "qrun (\<lambda>q v. length q < 20) (map Enq bs) q = Some ([], q @ bs)" if "length q + length bs \<le> 20" for q :: "U8_t list"
    using that by (induction bs arbitrary: q) auto
  from this [of "[]"] uart_queue.run_refines [OF uart_start_ok(1)] show ?thesis using assms by fastforce
qed

lemma uart_receive_witness:
  "\<exists>s t. HalUartReceive (uart_handle_0 s) [7, 7, 7] 2 s = Some ((2, [1, 2, 7]), t) \<and> uart_rep t [3]"
proof -
  obtain s where "uart_rep s [1, 2, 3]" using uart_received [of "[1, 2, 3]"] by auto
  moreover have "(2 :: nat) = min (max 1 (unat (2 :: U8_t))) (length [1 :: U8_t, 2, 3])" by simp
  ultimately obtain t where "HalUartReceive (uart_handle_0 s) [7, 7, 7] 2 s = Some ((2, [1, 2, 7]), t)" "uart_rep t [3]"
    using uart_receive [of s "[1, 2, 3]" 2 2 "[7, 7, 7]"] by auto
  then show ?thesis by blast
qed

theorem uart_fifo_witness:
  "\<exists>t. srun USART0_RX_vect (\<lambda>s. do { ((_, tgt), s) \<leftarrow> HalUartReceive (uart_handle_0 s) [0] 1 s; Some (tgt ! 0, s) })
     [Enq 1, Enq 2, Deq, Enq 3] uart_start = Some ([1], t) \<and> uart_rep t [2, 3]"
  using uart_fifo [OF uart_start_ok(1), of "[Enq 1, Enq 2, Deq, Enq 3]"] by simp

theorem uart_overflow_witness:
  "\<exists>s t t'. USART0_RX_vect 9 s = Some t \<and>
     HalUartReceive (uart_handle_0 s) (replicate 21 0) 21 t = Some ((21, replicate 19 5 @ [9, 5]), t')"
proof -
  obtain s where "uart_rep s (replicate 20 5)" using uart_received [of "replicate 20 5"] by auto
  moreover have "(replicate 20 5)[19 := 9] @ [hd (replicate 20 5)] @ drop 21 (replicate 21 0) = replicate 19 (5 :: U8_t) @ [9, 5]"
    by (simp add: eval_nat_numeral)
  ultimately show ?thesis using uart_overflow [of s "replicate 20 5" 21 "replicate 21 0" 9 0 0] by (metis length_replicate order_refl)
qed

end
