(* ===== verification/PicUart.thy ===== *)
theory PicUart
  imports Shell
begin

text \<open>
  The UART driver of the PIC32MX370 port (\<^verbatim>\<open>ports/Microchip/PIC32MX370/hal/uart.c\<close>) and the debug port on top of it
  (\<^verbatim>\<open>PortDebug.c\<close>), which passes what it receives to the shell. \<open>'s\<close> is the state the receive callback works on.
  The hardware is its receive FIFO (the bytes that are there, or arrive before the handler is done), what has been sent, the
  answers of the transmitter to the polls of its buffer-full bit, and the bits of the control registers.
\<close>

subsection \<open>Data\<close>

definition cchRxMax :: nat where "cchRxMax = 0xFF"

record u4_registers =
  U4MODE_ON :: bool
  U4MODE_cleared :: bool
  U4BRG :: U32_t
  U4STA_UTXEN :: bool
  U4STA_URXEN :: bool
  U4IP :: nat
  U4IS :: nat
  U4RXIF :: bool
  U4RXIE :: bool
  ints_enabled :: bool
  tris_UART_TX :: bool
  rp_UART_TX :: nat
  tris_UART_RX :: bool
  rp_UART_RX :: nat

record 's pic_uart =
  bufFull :: U8_t
  ichRx :: U8_t
  rgchRx :: "U8_t list"
  RxCallback :: "(U8_t list \<Rightarrow> U8_t \<Rightarrow> 's \<Rightarrow> 's option) option"
  U4RX :: "U8_t list"
  U4TX :: "U8_t list"
  utxbf_polls :: nat
  u4 :: u4_registers

subsection \<open>Receiving by interrupt\<close>

partial_function (option) Uart4Handler_loop :: "'s pic_uart \<Rightarrow> 's pic_uart option" where
  "Uart4Handler_loop d =
     (if U4RX d \<noteq> [] \<and> bufFull d = 0 then
        if cchRxMax > unat (ichRx d) then
          if unat (ichRx d) < length (rgchRx d) then
            Uart4Handler_loop (d\<lparr>rgchRx := (rgchRx d)[unat (ichRx d) := hd (U4RX d)], U4RX := tl (U4RX d), ichRx := ichRx d + 1\<rparr>)
          else None
        else Uart4Handler_loop (d\<lparr>bufFull := 1\<rparr>)
      else Some d)"

definition Uart4Handler :: "'s pic_uart \<Rightarrow> 's \<Rightarrow> ('s pic_uart \<times> 's) option" where
  "Uart4Handler d s = do {
     d \<leftarrow> Uart4Handler_loop d;
     (d, s) \<leftarrow> (case RxCallback d of
         None \<Rightarrow> Some (d, s)
       | Some f \<Rightarrow> do { s \<leftarrow> f (rgchRx d) (ichRx d) s; Some (d\<lparr>ichRx := 0\<rparr>, s) });
     Some (d\<lparr>u4 := (u4 d)\<lparr>U4RXIF := False\<rparr>\<rparr>, s)
   }"

subsection \<open>Configuration\<close>

definition UART_ConfigurePins :: "'s pic_uart \<Rightarrow> 's pic_uart" where
  "UART_ConfigurePins d = d\<lparr>u4 := (u4 d)\<lparr>tris_UART_TX := False, rp_UART_TX := 2, tris_UART_RX := True, rp_UART_RX := 9\<rparr>\<rparr>"

text \<open>
  The divisor of the baud rate, rounded: \<open>brg baud\<close> stands for \<^verbatim>\<open>(int)(((float)PB_FRQ/(16*baud) - 1) + 0.5)\<close>, computed in
  single precision. The mode bits other than \<^verbatim>\<open>ON\<close> are all cleared.
\<close>

definition UART_ConfigureUart :: "(U32_t \<Rightarrow> U32_t) \<Rightarrow> U32_t \<Rightarrow> 's pic_uart \<Rightarrow> 's pic_uart" where
  "UART_ConfigureUart brg baud d = (let
     d = d\<lparr>u4 := (u4 d)\<lparr>U4MODE_ON := False, U4MODE_cleared := True\<rparr>\<rparr>;
     d = d\<lparr>u4 := (u4 d)\<lparr>U4BRG := brg baud\<rparr>\<rparr>
   in d\<lparr>u4 := (u4 d)\<lparr>U4STA_UTXEN := True, U4STA_URXEN := True, U4MODE_ON := True\<rparr>\<rparr>)"

definition UART_ConfigureUartRXInt :: "(U32_t \<Rightarrow> U32_t) \<Rightarrow> U32_t \<Rightarrow> 's pic_uart \<Rightarrow> 's pic_uart" where
  "UART_ConfigureUartRXInt brg baud d = (let d = UART_ConfigureUart brg baud d
     in d\<lparr>u4 := (u4 d)\<lparr>U4IP := 6, U4IS := 3, U4RXIF := False, U4RXIE := True, ints_enabled := True\<rparr>\<rparr>)"

definition UART_Init ::
  "(U32_t \<Rightarrow> U32_t) \<Rightarrow> U32_t \<Rightarrow> (U8_t list \<Rightarrow> U8_t \<Rightarrow> 's \<Rightarrow> 's option) option \<Rightarrow> 's pic_uart \<Rightarrow> 's pic_uart" where
  "UART_Init brg baud rx_callback d = UART_ConfigureUartRXInt brg baud (UART_ConfigurePins (d\<lparr>RxCallback := rx_callback\<rparr>))"

definition UART_InitPoll :: "(U32_t \<Rightarrow> U32_t) \<Rightarrow> U32_t \<Rightarrow> 's pic_uart \<Rightarrow> 's pic_uart" where
  "UART_InitPoll brg baud d = UART_ConfigureUart brg baud (UART_ConfigurePins d)"

definition UART_Close :: "'s pic_uart \<Rightarrow> 's pic_uart" where
  "UART_Close d = d\<lparr>u4 := (u4 d)\<lparr>U4MODE_ON := False\<rparr>\<rparr>"

subsection \<open>Sending\<close>

text \<open>
  The transmitter answers poll \<open>n\<close> of its buffer-full bit with \<open>utxbf n\<close>. \<open>PutChar_wait\<close> polls until the buffer is free or
  5000 polls are done, \<open>k\<close> of which are left; the byte is dropped when one more poll still finds the buffer full.
\<close>

fun PutChar_wait :: "(nat \<Rightarrow> bool) \<Rightarrow> nat \<Rightarrow> nat \<Rightarrow> nat" where
  "PutChar_wait utxbf 0 n = Suc n"
| "PutChar_wait utxbf (Suc k) n = (if utxbf n then PutChar_wait utxbf k (Suc n) else Suc n)"

definition UART_PutChar :: "(nat \<Rightarrow> bool) \<Rightarrow> U8_t \<Rightarrow> 's pic_uart \<Rightarrow> 's pic_uart" where
  "UART_PutChar utxbf ch d = (let
     n = PutChar_wait utxbf 5000 (utxbf_polls d);
     d = d\<lparr>utxbf_polls := Suc n\<rparr>
   in if \<not> utxbf n then d\<lparr>U4TX := U4TX d @ [ch]\<rparr> else d)"

text \<open>A string is the bytes in memory from the pointer on; without a terminator the code runs past them.\<close>

fun UART_PutString :: "(nat \<Rightarrow> bool) \<Rightarrow> U8_t list \<Rightarrow> 's pic_uart \<Rightarrow> 's pic_uart option" where
  "UART_PutString utxbf [] d = None"
| "UART_PutString utxbf (ch # szData) d = (if ch = 0 then Some d else UART_PutString utxbf szData (UART_PutChar utxbf ch d))"

subsection \<open>Receiving by polling\<close>

definition UART_AvaliableRx :: "'s pic_uart \<Rightarrow> U8_t" where
  "UART_AvaliableRx d = (if U4RX d \<noteq> [] then 1 else 0)"

text \<open>With an empty FIFO the call waits for ever, as nothing arrives any more.\<close>

definition UART_GetCharPoll :: "'s pic_uart \<Rightarrow> (U8_t \<times> 's pic_uart) option" where
  "UART_GetCharPoll d = (if UART_AvaliableRx d = 0 then None else Some (hd (U4RX d), d\<lparr>U4RX := tl (U4RX d)\<rparr>))"

text \<open>\<open>pText\<close> is the array behind the pointer; a byte behind its end is an error. The call does not know its size.\<close>

partial_function (option) GetStringPoll_loop ::
    "U8_t list \<Rightarrow> nat \<Rightarrow> 's pic_uart \<Rightarrow> (U8_t list \<times> nat \<times> 's pic_uart) option" where
  "GetStringPoll_loop pText idx d =
     (if UART_AvaliableRx d \<noteq> 0 then do {
        (c, d) \<leftarrow> UART_GetCharPoll d;
        if idx < length pText then GetStringPoll_loop (pText[idx := c]) (Suc idx) d else None
      } else Some (pText, idx, d))"

definition UART_GetStringPoll :: "U8_t list \<Rightarrow> 's pic_uart \<Rightarrow> ((U8_t \<times> U8_t list) \<times> 's pic_uart) option" where
  "UART_GetStringPoll pText d = do {
     (pText, idx, d) \<leftarrow> GetStringPoll_loop pText 0 d;
     pText \<leftarrow> (if idx \<noteq> 0 then if idx < length pText then Some (pText[idx := 0]) else None else Some pText);
     Some ((if idx \<noteq> 0 then 1 else 0, pText), d)
   }"

subsection \<open>The debug port\<close>

definition UART_OnRx :: "U8_t list \<Rightarrow> U8_t \<Rightarrow> 'a shell_state_scheme \<Rightarrow> 'a shell_state_scheme option" where
  "UART_OnRx received n s = PortDebugCallbackReadChars received (ucast n) s"

definition PortDebugUartInit :: "(U32_t \<Rightarrow> U32_t) \<Rightarrow> U32_t \<Rightarrow> 'a shell_state_scheme pic_uart \<Rightarrow> 'a shell_state_scheme pic_uart" where
  "PortDebugUartInit brg baud d = UART_Init brg baud (Some UART_OnRx) d"

definition PortDebugUartWriteString :: "(nat \<Rightarrow> bool) \<Rightarrow> U8_t list \<Rightarrow> 's pic_uart \<Rightarrow> 's pic_uart option" where
  "PortDebugUartWriteString utxbf str d = UART_PutString utxbf str d"

definition PortDebugUartWriteChar :: "(nat \<Rightarrow> bool) \<Rightarrow> U8_t \<Rightarrow> 's pic_uart \<Rightarrow> U8_t \<times> 's pic_uart" where
  "PortDebugUartWriteChar utxbf c d = (1, UART_PutChar utxbf c d)"

subsection \<open>The receive handler\<close>

text \<open>What the loop does with the bytes in the FIFO: it takes as many as the buffer holds, and notes when some are left.\<close>

lemma U8_suc: "unat (i :: U8_t) < 255 \<Longrightarrow> unat (i + 1) = Suc (unat i)"
  by (subst unat_inc) simp_all

lemma Uart4Handler_loop_eq:
  assumes "length (rgchRx d) = 255" and "bufFull d = 0"
    and "k = min (255 - unat (ichRx d)) (length (U4RX d))"
  shows "Uart4Handler_loop d = Some (d\<lparr>rgchRx := take (unat (ichRx d)) (rgchRx d) @ take k (U4RX d) @ drop (unat (ichRx d) + k) (rgchRx d),
     ichRx := ichRx d + of_nat k, U4RX := drop k (U4RX d), bufFull := (if k < length (U4RX d) then 1 else 0)\<rparr>)"
  using assms
proof (induction "U4RX d" arbitrary: d k)
  case Nil
  then show ?case by (subst Uart4Handler_loop.simps) simp
next
  case (Cons c cs)
  let ?i = "unat (ichRx d)" and ?d = "d\<lparr>rgchRx := (rgchRx d)[unat (ichRx d) := c], U4RX := cs, ichRx := ichRx d + 1\<rparr>"
  note rx = Cons.hyps(2) [symmetric]
  show ?case
  proof (cases "?i < 255")
    case True
    have "k = min (255 - ?i) (Suc (length cs))" using Cons.prems(3) rx by simp
    then obtain j where k: "k = Suc j" "j = min (255 - Suc ?i) (length cs)"
      using True min_Suc_Suc [of "255 - Suc ?i" "length cs"] by (metis Suc_diff_Suc)
    have "Uart4Handler_loop ?d = Some (?d\<lparr>rgchRx := take (Suc ?i) (rgchRx ?d) @ take j cs @ drop (Suc ?i + j) (rgchRx ?d),
       ichRx := ichRx ?d + of_nat j, U4RX := drop j cs, bufFull := (if j < length cs then 1 else 0)\<rparr>)"
      using Cons.hyps(1) [of ?d j] Cons.prems(1,2) k(2) U8_suc [OF True] by simp
    then show ?thesis
      using True Cons.prems(1,2) rx k(1)
      by (subst Uart4Handler_loop.simps) (simp add: cchRxMax_def take_Suc_conv_app_nth ac_simps)
  next
    case False
    then have k: "k = 0" using Cons.prems(3) by simp
    have "Uart4Handler_loop (d\<lparr>bufFull := 1\<rparr>) = Some (d\<lparr>bufFull := 1\<rparr>)" by (subst Uart4Handler_loop.simps) simp
    then show ?thesis using False Cons.prems(2) rx k by (subst Uart4Handler_loop.simps) (simp add: cchRxMax_def)
  qed
qed

text \<open>
  Bursts of bytes arrive, each followed by the interrupt. A client that keeps what it is given sees what \<open>rx_delivered\<close> says:
  every burst, until the first one the buffer cannot hold.
\<close>

fun rx_run :: "U8_t list list \<Rightarrow> 's pic_uart \<Rightarrow> 's \<Rightarrow> ('s pic_uart \<times> 's) option" where
  "rx_run [] d s = Some (d, s)"
| "rx_run (b # bs) d s = do { (d, s) \<leftarrow> Uart4Handler (d\<lparr>U4RX := U4RX d @ b\<rparr>) s; rx_run bs d s }"

definition rx_client :: "U8_t list \<Rightarrow> U8_t \<Rightarrow> U8_t list \<Rightarrow> U8_t list option" where
  "rx_client received n got = Some (got @ take (unat n) received)"

fun rx_delivered :: "U8_t list list \<Rightarrow> U8_t list" where
  "rx_delivered [] = []"
| "rx_delivered (b # bs) = (if length b \<le> 255 then b @ rx_delivered bs else take 255 b)"

text \<open>The receiver is ready: the buffer is empty and not marked full.\<close>

definition rx_ready :: "U8_t list pic_uart \<Rightarrow> bool" where
  "rx_ready d \<longleftrightarrow> length (rgchRx d) = 255 \<and> bufFull d = 0 \<and> ichRx d = 0 \<and> U4RX d = [] \<and> RxCallback d = Some rx_client"

lemma Uart4Handler_ready:
  assumes "rx_ready d"
  shows "\<exists>d'. Uart4Handler (d\<lparr>U4RX := U4RX d @ b\<rparr>) got = Some (d', got @ take 255 b) \<and>
    (if length b \<le> 255 then rx_ready d' else bufFull d' = 1 \<and> ichRx d' = 0 \<and> RxCallback d' = Some rx_client)"
proof -
  let ?d = "d\<lparr>U4RX := U4RX d @ b\<rparr>" and ?k = "min 255 (length b)"
  have "Uart4Handler_loop ?d = Some (?d\<lparr>rgchRx := take ?k b @ drop ?k (rgchRx d), ichRx := of_nat ?k, U4RX := drop ?k b,
      bufFull := (if ?k < length b then 1 else 0)\<rparr>)"
    using Uart4Handler_loop_eq [of ?d ?k] assms by (simp add: rx_ready_def)
  moreover have "unat (of_nat ?k :: U8_t) = ?k" by (simp add: unat_of_nat)
  then have "rx_client (take ?k b @ drop ?k (rgchRx d)) (of_nat ?k) got = Some (got @ take 255 b)"
    by (simp add: rx_client_def min_def)
  ultimately show ?thesis using assms by (auto simp: Uart4Handler_def rx_ready_def)
qed

lemma Uart4Handler_deaf:
  assumes "bufFull d \<noteq> 0" and "ichRx d = 0" and "RxCallback d = Some rx_client"
  shows "\<exists>d'. Uart4Handler d got = Some (d', got) \<and> bufFull d' = bufFull d \<and> ichRx d' = 0 \<and> RxCallback d' = Some rx_client"
proof -
  have "Uart4Handler_loop d = Some d" using assms(1) by (subst Uart4Handler_loop.simps) simp
  then show ?thesis using assms by (simp add: Uart4Handler_def rx_client_def)
qed

lemma rx_run_deaf:
  assumes "bufFull d \<noteq> 0" and "ichRx d = 0" and "RxCallback d = Some rx_client"
  shows "\<exists>d'. rx_run bs d got = Some (d', got)"
  using assms
proof (induction bs arbitrary: d)
  case (Cons b bs)
  let ?d = "d\<lparr>U4RX := U4RX d @ b\<rparr>"
  obtain d' where "Uart4Handler ?d got = Some (d', got)" "bufFull d' = bufFull ?d" "ichRx d' = 0" "RxCallback d' = Some rx_client"
    using Uart4Handler_deaf [of ?d got] Cons.prems by auto
  then show ?case using Cons.IH [of d'] Cons.prems by simp
qed simp

text \<open>
  C35. The receive interrupt hands over every byte once and in order, burst by burst. The first burst that does not fit into
  the buffer of 255 bytes is cut there, and since the code never clears the mark of a full buffer, nothing that arrives
  later is ever received. Line ends are bytes like any other: the comment of the handler, which describes strings ended by CRLF, does
  not fit the code.
\<close>

theorem uart4_delivers:
  assumes "rx_ready d"
  shows "\<exists>d'. rx_run bs d got = Some (d', got @ rx_delivered bs)"
  using assms
proof (induction bs arbitrary: d got)
  case (Cons b bs)
  obtain d' where d': "Uart4Handler (d\<lparr>U4RX := U4RX d @ b\<rparr>) got = Some (d', got @ take 255 b)"
    "if length b \<le> 255 then rx_ready d' else bufFull d' = 1 \<and> ichRx d' = 0 \<and> RxCallback d' = Some rx_client"
    using Uart4Handler_ready [OF Cons.prems] by blast
  show ?case
  proof (cases "length b \<le> 255")
    case True
    then show ?thesis using d' Cons.IH [of d' "got @ b"] by simp
  next
    case False
    then obtain d'' where "rx_run bs d' (got @ take 255 b) = Some (d'', got @ take 255 b)" using d'(2) rx_run_deaf [of d'] by auto
    then show ?thesis using False d'(1) by simp
  qed
qed simp

definition rx_start :: "U8_t list pic_uart" where
  "rx_start = UART_Init (\<lambda>_. 0) 9600 (Some rx_client) \<lparr>bufFull = 0, ichRx = 0, rgchRx = replicate 255 0, RxCallback = None, U4RX = [],
     U4TX = [], utxbf_polls = 0, u4 = \<lparr>U4MODE_ON = False, U4MODE_cleared = False, U4BRG = 0, U4STA_UTXEN = False, U4STA_URXEN = False,
       U4IP = 0, U4IS = 0, U4RXIF = False, U4RXIE = False, ints_enabled = False, tris_UART_TX = False, rp_UART_TX = 0,
       tris_UART_RX = False, rp_UART_RX = 0\<rparr>\<rparr>"

theorem uart4_delivers_witness:
  "\<exists>d. rx_run [[1, 2], replicate 300 5, [3]] rx_start [] = Some (d, [1, 2] @ replicate 255 5)"
proof -
  have "rx_ready rx_start"
    by (simp add: rx_ready_def rx_start_def UART_Init_def UART_ConfigureUartRXInt_def UART_ConfigureUart_def UART_ConfigurePins_def Let_def)
  from uart4_delivers [OF this, of "[[1, 2], replicate 300 5, [3]]" "[]"] show ?thesis by (simp del: replicate.simps)
qed

end
