(* ===== verification/PortHal.thy ===== *)
theory PortHal
  imports Prelude
begin

text \<open>
  What the ports do to their hardware registers: pins, the converter and the tick timer of the ATMega, the tick timer of the
  PIC32MX370 and the debug port of the STM32F1xx. Registers are fields of a state; the positions of bits, which the
  headers of the C libraries for the parts give, and the answers of the hardware are parameters.
\<close>

subsection \<open>Pins of the ATMega\<close>

datatype HalGpioPinMode = PIN_MODE_INPUT | PIN_MODE_OUTPUT | PIN_MODE_INVALID
datatype HalGpioPinState = PIN_STATE_LOW | PIN_STATE_HIGH | PIN_STATE_TOGGLE

text \<open>The mask of a pin, computed as an \<open>int\<close> of 16 bits and cut to the port's eight.\<close>

definition pin_mask :: "U8_t \<Rightarrow> U8_t" where
  "pin_mask pin_nr = ucast (push_bit (unat pin_nr) 1 :: U16_t)"

definition HalGpioPinModeSet :: "U8_t \<Rightarrow> HalGpioPinMode \<Rightarrow> U8_t \<Rightarrow> U8_t" where
  "HalGpioPinModeSet pin_nr mode ddr = (if mode = PIN_MODE_INPUT then ddr AND NOT (pin_mask pin_nr) else ddr OR pin_mask pin_nr)"

definition HalGpioPinModeGet :: "U8_t \<Rightarrow> U8_t \<Rightarrow> HalGpioPinMode" where
  "HalGpioPinModeGet pin_nr ddr = (if ddr AND pin_mask pin_nr \<noteq> 0 then PIN_MODE_OUTPUT else PIN_MODE_INPUT)"

definition HalGpioPinStateSet :: "U8_t \<Rightarrow> HalGpioPinState \<Rightarrow> U8_t \<Rightarrow> U8_t" where
  "HalGpioPinStateSet pin_nr state port =
     (if state = PIN_STATE_HIGH then port OR pin_mask pin_nr
      else if state = PIN_STATE_TOGGLE then
        (if port AND pin_mask pin_nr \<noteq> 0 then port AND NOT (pin_mask pin_nr) else port OR pin_mask pin_nr)
      else port AND NOT (pin_mask pin_nr))"

definition HalGpioPinStateGet :: "U8_t \<Rightarrow> U8_t \<Rightarrow> HalGpioPinState" where
  "HalGpioPinStateGet pin_nr port = (if port AND pin_mask pin_nr \<noteq> 0 then PIN_STATE_HIGH else PIN_STATE_LOW)"

lemma pin_mask_bit:
  assumes "unat p < 8"
  shows "bit (pin_mask p) n \<longleftrightarrow> n = unat p"
  using assms by (auto simp: pin_mask_def bit_simps)

lemma pin_mask_test:
  assumes "unat p < 8"
  shows "(w :: U8_t) AND pin_mask p \<noteq> 0 \<longleftrightarrow> bit w (unat p)"
proof
  assume "w AND pin_mask p \<noteq> 0"
  then obtain n where "bit (w AND pin_mask p) n" using bit_eqI [of "w AND pin_mask p" 0] by auto
  then show "bit w (unat p)" using pin_mask_bit [OF assms] by (auto simp: bit_simps)
next
  assume "bit w (unat p)"
  then have "bit (w AND pin_mask p) (unat p)" using pin_mask_bit [OF assms] by (simp add: bit_simps)
  then show "w AND pin_mask p \<noteq> 0" by auto
qed

text \<open>A pin that is set reads back, toggling inverts it, and no other pin of the port is touched.\<close>

lemma pin_set_get:
  assumes "unat p < 8" and "unat q < 8"
  shows "HalGpioPinStateGet q (HalGpioPinStateSet p st port) =
    (if unat q \<noteq> unat p then HalGpioPinStateGet q port
     else if st = PIN_STATE_TOGGLE then (if HalGpioPinStateGet p port = PIN_STATE_HIGH then PIN_STATE_LOW else PIN_STATE_HIGH)
     else st)"
  using assms
  by (cases st) (auto simp: HalGpioPinStateGet_def HalGpioPinStateSet_def pin_mask_test bit_simps pin_mask_bit)

subsection \<open>The converter of the ATMega\<close>

definition HAL_ADC_N_CHANNELS :: nat where "HAL_ADC_N_CHANNELS = 8"

record adc_bits =
  REFS0 :: nat
  ADEN :: nat
  ADSC :: nat
  ADPS0 :: nat
  ADPS1 :: nat
  ADPS2 :: nat

record adc_state =
  ADMUX :: U8_t
  ADCSRA :: U8_t
  adc_reads :: nat
  ConversionResults :: "U32_t list"

text \<open>\<open>busy n\<close> says whether the start bit is still set at the \<open>n\<close>-th time it is read; \<open>value n\<close> is the result register then.\<close>

definition HalAdcInit :: "adc_bits \<Rightarrow> adc_state \<Rightarrow> adc_state" where
  "HalAdcInit b s = s\<lparr>ADMUX := push_bit (REFS0 b) 1,
     ADCSRA := push_bit (ADEN b) 1 OR push_bit (ADPS2 b) 1 OR push_bit (ADPS1 b) 1 OR push_bit (ADPS0 b) 1,
     ConversionResults := replicate HAL_ADC_N_CHANNELS 0\<rparr>"

definition HalAdcConversionIsDone :: "(nat \<Rightarrow> bool) \<Rightarrow> adc_state \<Rightarrow> bool \<times> adc_state" where
  "HalAdcConversionIsDone busy s = (\<not> busy (adc_reads s), s\<lparr>adc_reads := Suc (adc_reads s)\<rparr>)"

definition HalAdcConversionStart :: "adc_bits \<Rightarrow> (nat \<Rightarrow> bool) \<Rightarrow> U8_t \<Rightarrow> adc_state \<Rightarrow> U8_t \<times> adc_state" where
  "HalAdcConversionStart b busy channel s = (let (done, s) = HalAdcConversionIsDone busy s in
     if \<not> done then (0, s)
     else let channel = channel AND 7;
              s = s\<lparr>ADMUX := (ADMUX s AND 0xF8) OR channel\<rparr>
          in (1, s\<lparr>ADCSRA := ADCSRA s OR push_bit (ADSC b) 1\<rparr>))"

partial_function (option) adc_wait :: "(nat \<Rightarrow> bool) \<Rightarrow> adc_state \<Rightarrow> adc_state option" where
  "adc_wait busy s = (let (done, s) = HalAdcConversionIsDone busy s in if done then Some s else adc_wait busy s)"

definition HalAdcConversionResultGetNew ::
  "(nat \<Rightarrow> bool) \<Rightarrow> (nat \<Rightarrow> U16_t) \<Rightarrow> U8_t \<Rightarrow> adc_state \<Rightarrow> (U32_t \<times> adc_state) option" where
  "HalAdcConversionResultGetNew busy value channel s = do {
     s \<leftarrow> adc_wait busy s;
     if unat channel < length (ConversionResults s)
     then do {
       let s = s\<lparr>ConversionResults := (ConversionResults s)[unat channel := ucast (value (adc_reads s))]\<rparr>;
       Some (ConversionResults s ! unat channel, s)
     } else None
   }"

definition HalAdcConversionResultGet ::
  "(nat \<Rightarrow> bool) \<Rightarrow> (nat \<Rightarrow> U16_t) \<Rightarrow> U8_t \<Rightarrow> adc_state \<Rightarrow> (U32_t \<times> adc_state) option" where
  "HalAdcConversionResultGet busy value channel s = do {
     let (done, s) = HalAdcConversionIsDone busy s;
     s \<leftarrow> (if done then do { (r, s) \<leftarrow> HalAdcConversionResultGetNew busy value channel s; Some s } else Some s);
     if unat channel < length (ConversionResults s) then Some (ConversionResults s ! unat channel, s) else None
   }"

subsection \<open>The tick timer of the ATMega\<close>

record avr_bits =
  WGM12 :: nat
  OCIE1A :: nat
  OCF1A :: nat
  WDCE :: nat
  WDIF :: nat
  WDIE :: nat

record avr_port =
  TCNT1 :: U16_t
  TCCR1A :: U8_t
  TCCR1B :: U8_t
  TIMSK1 :: U8_t
  TIFR1 :: U8_t
  OCR1A :: U16_t
  MCUSR :: U8_t
  WDTCSR :: U8_t
  ints :: bool
  OsTimerOvf :: U16_t
  OsTimerPrescaler :: U16_t

definition PortOsTimerTicksGet :: "avr_port \<Rightarrow> U32_t" where
  "PortOsTimerTicksGet s = ucast (TCNT1 s)"

definition PortOsTimerTicksSet :: "U32_t \<Rightarrow> avr_port \<Rightarrow> avr_port" where
  "PortOsTimerTicksSet ticks s = s\<lparr>TCNT1 := ucast ticks\<rparr>"

definition PortOsTimerStop :: "avr_port \<Rightarrow> avr_port" where
  "PortOsTimerStop s = s\<lparr>TCCR1B := TCCR1B s AND ucast (NOT (OsTimerPrescaler s))\<rparr>"

definition PortOsTimerStart :: "avr_port \<Rightarrow> avr_port" where
  "PortOsTimerStart s = s\<lparr>TCCR1B := TCCR1B s OR ucast (OsTimerPrescaler s)\<rparr>"

definition PortGlobalIntDisable :: "avr_port \<Rightarrow> avr_port" where
  "PortGlobalIntDisable s = s\<lparr>ints := False\<rparr>"

definition PortGlobalIntEnable :: "avr_port \<Rightarrow> avr_port" where
  "PortGlobalIntEnable s = s\<lparr>ints := True\<rparr>"

definition PortOsIntDisable :: "avr_port \<Rightarrow> avr_port" where
  "PortOsIntDisable s = s\<lparr>TIMSK1 := 0\<rparr>"

definition PortOsIntEnable :: "avr_bits \<Rightarrow> avr_port \<Rightarrow> avr_port" where
  "PortOsIntEnable b s = s\<lparr>TIMSK1 := TIMSK1 s OR push_bit (OCIE1A b) 1\<rparr>"

definition PortOsTimerTicksReset :: "avr_port \<Rightarrow> avr_port" where
  "PortOsTimerTicksReset s = s\<lparr>TCNT1 := 0\<rparr>"

definition PortOsTimerInit :: "avr_bits \<Rightarrow> U16_t \<Rightarrow> U16_t \<Rightarrow> avr_port \<Rightarrow> avr_port" where
  "PortOsTimerInit b prescaler ovf s = (let
     s = s\<lparr>OsTimerOvf := ovf\<rparr>;
     s = s\<lparr>OsTimerPrescaler := prescaler\<rparr>;
     s = s\<lparr>TCCR1A := 0\<rparr>;
     s = s\<lparr>TCCR1B := TCCR1B s OR push_bit (WGM12 b) 1\<rparr>
   in s\<lparr>OCR1A := OsTimerOvf s\<rparr>)"

definition PortOsTickInit :: "avr_bits \<Rightarrow> avr_port \<Rightarrow> avr_port" where
  "PortOsTickInit b s = s\<lparr>TIMSK1 := TIMSK1 s OR push_bit (OCIE1A b) 1, TIFR1 := TIFR1 s OR push_bit (OCF1A b) 1\<rparr>"

definition PortWdtInit :: "avr_bits \<Rightarrow> avr_port \<Rightarrow> avr_port" where
  "PortWdtInit b s = (let
     s = s\<lparr>MCUSR := 0\<rparr>;
     s = s\<lparr>WDTCSR := WDTCSR s OR push_bit (WDCE b) 1\<rparr>;
     s = s\<lparr>WDTCSR := WDTCSR s AND NOT (push_bit (WDIF b) 1)\<rparr>;
     s = s\<lparr>WDTCSR := WDTCSR s OR push_bit (WDCE b) 1\<rparr>
   in s\<lparr>WDTCSR := WDTCSR s AND NOT (push_bit (WDIE b) 1)\<rparr>)"

text \<open>\<open>wdt_enable\<close> is the macro of the C library. Interrupts are on afterwards, whether they were before or not.\<close>

definition PortWdtEnable :: "avr_bits \<Rightarrow> (U8_t \<Rightarrow> avr_port \<Rightarrow> avr_port) \<Rightarrow> U8_t \<Rightarrow> avr_port \<Rightarrow> avr_port" where
  "PortWdtEnable b wdt_enable wdt_expire_opt s = (let
     s = PortGlobalIntDisable s;
     s = wdt_enable wdt_expire_opt s;
     s = s\<lparr>WDTCSR := WDTCSR s OR (push_bit (WDCE b) 1 OR push_bit (WDIE b) 1)\<rparr>
   in PortGlobalIntEnable s)"

subsection \<open>The tick timer of the PIC32MX370\<close>

record pic_port =
  T2IE :: bool
  T2IF :: bool
  T2IP :: nat
  T2IS :: nat
  TON :: bool
  TCKPS :: nat
  TCS :: bool
  TGATE :: bool
  PR2 :: U32_t
  TMR2 :: U32_t
  pic_ints :: bool

definition Pic_PortGlobalIntDisable :: "pic_port \<Rightarrow> pic_port" where
  "Pic_PortGlobalIntDisable s = s\<lparr>pic_ints := False\<rparr>"

definition Pic_PortGlobalIntEnable :: "pic_port \<Rightarrow> pic_port" where
  "Pic_PortGlobalIntEnable s = s\<lparr>pic_ints := True\<rparr>"

definition Pic_PortOsIntDisable :: "pic_port \<Rightarrow> pic_port" where
  "Pic_PortOsIntDisable s = s\<lparr>T2IE := False\<rparr>"

definition Pic_PortOsIntEnable :: "pic_port \<Rightarrow> pic_port" where
  "Pic_PortOsIntEnable s = s\<lparr>T2IE := True\<rparr>"

definition Pic_PortOsIntFlagClear :: "pic_port \<Rightarrow> pic_port" where
  "Pic_PortOsIntFlagClear s = s\<lparr>T2IF := False\<rparr>"

definition Pic_PortOsTimerDisable :: "pic_port \<Rightarrow> pic_port" where
  "Pic_PortOsTimerDisable s = s\<lparr>TON := False\<rparr>"

definition Pic_PortOsTimerEnable :: "pic_port \<Rightarrow> pic_port" where
  "Pic_PortOsTimerEnable s = s\<lparr>TON := True\<rparr>"

definition Pic_PortOsTimerTicksGet :: "pic_port \<Rightarrow> U32_t" where
  "Pic_PortOsTimerTicksGet s = TMR2 s"

definition Pic_PortOsTimerTicksReset :: "pic_port \<Rightarrow> pic_port" where
  "Pic_PortOsTimerTicksReset s = s\<lparr>TMR2 := 0\<rparr>"

definition Pic_PortOsTimerTicksSet :: "U32_t \<Rightarrow> pic_port \<Rightarrow> pic_port" where
  "Pic_PortOsTimerTicksSet ticks s = s\<lparr>TMR2 := ticks\<rparr>"

text \<open>The product is one of \<open>int\<close>s of 32 bits, whose overflow is undefined.\<close>

definition Pic_PortOsTimerInit :: "U16_t \<Rightarrow> U16_t \<Rightarrow> pic_port \<Rightarrow> pic_port option" where
  "Pic_PortOsTimerInit prescaler ovf s = do {
     let s = Pic_PortOsTimerDisable s;
     let s = Pic_PortOsTimerTicksReset s;
     let s = s\<lparr>TCKPS := 0\<rparr>;
     if unat prescaler * unat ovf < 2 ^ 31 then do {
       let s = s\<lparr>PR2 := ucast prescaler * ucast ovf\<rparr>;
       Some (s\<lparr>TON := False, TCS := False, TGATE := False\<rparr>)
     } else None
   }"

text \<open>The timer interrupt, around the kernel's tick.\<close>

definition T2Interrupt :: "('s \<Rightarrow> 's option) \<Rightarrow> pic_port \<times> 's \<Rightarrow> (pic_port \<times> 's) option" where
  "T2Interrupt OsTick ps = do { s \<leftarrow> OsTick (snd ps); Some (Pic_PortOsIntFlagClear (fst ps), s) }"

definition Pic_PortOsIntInit :: "pic_port \<Rightarrow> pic_port" where
  "Pic_PortOsIntInit s = s\<lparr>T2IP := 7, T2IF := False, T2IS := 1, T2IE := True\<rparr>"

subsection \<open>The debug port of the STM32F1xx\<close>

definition UART_MAX_STRING_LENGTH :: nat where "UART_MAX_STRING_LENGTH = 1000"

text \<open>\<open>transmit\<close> is the driver's call for one byte; it says whether it was sent.\<close>

definition Stm_WriteChar :: "(U8_t \<Rightarrow> 's \<Rightarrow> bool \<times> 's) \<Rightarrow> U8_t \<Rightarrow> 's \<Rightarrow> U8_t \<times> 's" where
  "Stm_WriteChar transmit c s = (let (ok, s) = transmit c s in (if ok then 0 else 1, s))"

text \<open>\<^verbatim>\<open>strnlen\<close>: an array that has no terminator among its first \<open>n\<close> bytes must have at least \<open>n\<close> of them.\<close>

fun c_strnlen :: "U8_t list \<Rightarrow> nat \<Rightarrow> nat option" where
  "c_strnlen str 0 = Some 0"
| "c_strnlen [] (Suc n) = None"
| "c_strnlen (c # str) (Suc n) = (if c = 0 then Some 0 else do { k \<leftarrow> c_strnlen str n; Some (Suc k) })"

text \<open>The result of \<open>Stm_WriteChar\<close> is unsigned, so it never equals \<open>-1\<close> as an \<open>int\<close> and no failure ends the loop.\<close>

fun Stm_WriteString_loop :: "(U8_t \<Rightarrow> 's \<Rightarrow> bool \<times> 's) \<Rightarrow> U8_t list \<Rightarrow> 's \<Rightarrow> 's" where
  "Stm_WriteString_loop transmit [] s = s"
| "Stm_WriteString_loop transmit (c # str) s = (let (r, s) = Stm_WriteChar transmit c s in
     if uint r = - 1 then s else Stm_WriteString_loop transmit str s)"

definition Stm_PortDebugUartWriteString :: "(U8_t \<Rightarrow> 's \<Rightarrow> bool \<times> 's) \<Rightarrow> U8_t list \<Rightarrow> 's \<Rightarrow> (U32_t \<times> 's) option" where
  "Stm_PortDebugUartWriteString transmit str s = do {
     str_len \<leftarrow> c_strnlen str (UART_MAX_STRING_LENGTH + 1);
     Some (of_nat str_len, Stm_WriteString_loop transmit (take str_len str) s)
   }"

text \<open>Every byte is handed to the driver, also after one was refused, and the length is returned as the number written.\<close>

lemma Stm_WriteString_never_stops:
  "Stm_WriteString_loop transmit str s = fold (\<lambda>c s. snd (transmit c s)) str s"
proof (induction str arbitrary: s)
  case (Cons c str)
  have "uint r \<noteq> - 1" for r :: U8_t using uint_ge_0 [of r] by linarith
  with Cons show ?case by (simp add: Stm_WriteChar_def split: prod.split)
qed simp

end
