(* ===== verification/Logger.thy ===== *)
theory Logger
  imports Core
begin

text \<open>
  The logger (\<^verbatim>\<open>Logger.c\<close>, \<^verbatim>\<open>LoggerDef.h\<close>): the text of a log line and its way to the serial port through the \<^verbatim>\<open>_write\<close> hook.
  The text that \<^verbatim>\<open>vprintf\<close> makes of a message and its arguments is given, as \<open>msg\<close>; \<open>put\<close> is the port's
  \<^verbatim>\<open>PortDebugUartWriteChar\<close>, on a state of its own.
\<close>

subsection \<open>Numbers in a log line\<close>

fun decimal :: "nat \<Rightarrow> string" where
  "decimal n = (if n < 10 then [char_of (48 + n)] else decimal (n div 10) @ [char_of (48 + n mod 10)])"

definition decimal_int :: "int \<Rightarrow> string" where
  "decimal_int i = (if i < 0 then ''-'' @ decimal (nat (- i)) else decimal (nat i))"

subsection \<open>A log line\<close>

definition LOG_LINE_NEW :: U8_t where "LOG_LINE_NEW = 0x00"
definition LOG_LINE_APPEND :: U8_t where "LOG_LINE_APPEND = 0x01"

text \<open>
  Hours, seconds and milliseconds of a run time. The quotients by \<^verbatim>\<open>1e6\<close> and \<^verbatim>\<open>1e3\<close> are doubles that are truncated when they are
  stored; for a 32-bit count this is the division of integers.
\<close>

definition log_time :: "U32_t \<times> U32_t \<Rightarrow> nat \<times> nat \<times> nat" where
  "log_time runtime = (let
     runtime_h = unat (fst runtime);
     runtime_s = unat (snd runtime) div 1000000;
     runtime_ms = unat (snd runtime) div 1000 - runtime_s * 1000
   in (runtime_h, runtime_s, runtime_ms))"

definition log_prefix :: "nat \<times> nat \<times> nat \<Rightarrow> string \<Rightarrow> string \<Rightarrow> int \<Rightarrow> string" where
  "log_prefix t tag source line_nr = (case t of (h, s, ms) \<Rightarrow>
     [CHR 0x0A] @ ''['' @ decimal h @ '' : '' @ decimal s @ '' : '' @ decimal ms @ ''] '' @
     (if tag = ''info'' then ''['' @ tag @ ''] : ''
      else if tag = ''error'' \<or> tag = ''event'' then ''['' @ tag @ ''] ['' @ source @ ''] : ''
      else ''['' @ tag @ ''] ['' @ source @ '':'' @ decimal_int line_nr @ ''] : ''))"

definition ILogFormat ::
  "U8_t \<Rightarrow> string \<Rightarrow> string \<Rightarrow> int \<Rightarrow> string \<Rightarrow> 'a core_state_scheme \<Rightarrow> (string \<times> 'a core_state_scheme) option" where
  "ILogFormat log_line_opt tag source line_nr msg s =
     (if log_line_opt = LOG_LINE_NEW then do {
        ((r, runtime), s) \<leftarrow> OsRunTimeGet (0, 0) s;
        Some (log_prefix (log_time runtime) tag source line_nr @ msg, s)
      } else Some (msg, s))"

definition LogError :: "U8_t \<Rightarrow> string \<Rightarrow> string \<Rightarrow> 'a core_state_scheme \<Rightarrow> (string \<times> 'a core_state_scheme) option" where
  "LogError log_line_opt source msg s = ILogFormat log_line_opt ''error'' source 0 msg s"

definition KLogInfo :: "U8_t \<Rightarrow> string \<Rightarrow> 'a core_state_scheme \<Rightarrow> (string \<times> 'a core_state_scheme) option" where
  "KLogInfo log_line_opt msg s = ILogFormat log_line_opt ''info'' [] 0 msg s"

definition LogDebug :: "U8_t \<Rightarrow> string \<Rightarrow> int \<Rightarrow> string \<Rightarrow> 'a core_state_scheme \<Rightarrow> (string \<times> 'a core_state_scheme) option" where
  "LogDebug log_line_opt source line_nr msg s = ILogFormat log_line_opt ''debug'' source line_nr msg s"

subsection \<open>The hook of the C library\<close>

definition STDOUT_FILENO :: int where "STDOUT_FILENO = 1"
definition STDERR_FILENO :: int where "STDERR_FILENO = 2"

definition ILogPutChar :: "(U8_t \<Rightarrow> 's \<Rightarrow> 's option) \<Rightarrow> U8_t \<Rightarrow> 's \<Rightarrow> (int \<times> 's) option" where
  "ILogPutChar put c s = do { s \<leftarrow> put c s; Some (1, s) }"

text \<open>\<open>k\<close> turns are left; reading behind the end of the array is an error.\<close>

fun write_loop :: "(U8_t \<Rightarrow> 's \<Rightarrow> 's option) \<Rightarrow> nat \<Rightarrow> nat \<Rightarrow> U8_t list \<Rightarrow> 's \<Rightarrow> 's option" where
  "write_loop put 0 i bytes s = Some s"
| "write_loop put (Suc k) i bytes s =
     (if i < length bytes then do {
        s \<leftarrow> (if bytes ! i = 0x0A then put 0x0D s else Some s);
        s \<leftarrow> put (bytes ! i) s;
        write_loop put k (Suc i) bytes s
      } else None)"

text \<open>The result, the state, and whether \<^verbatim>\<open>errno\<close> was set to \<^verbatim>\<open>EIO\<close>.\<close>

definition write_hook :: "(U8_t \<Rightarrow> 's \<Rightarrow> 's option) \<Rightarrow> int \<Rightarrow> U8_t list \<Rightarrow> int \<Rightarrow> 's \<Rightarrow> ((int \<times> bool) \<times> 's) option" where
  "write_hook put file bytes len s =
     (if file = STDOUT_FILENO \<or> file = STDERR_FILENO then do {
        s \<leftarrow> write_loop put (nat len) 0 bytes s;
        Some ((int (nat len), False), s)
      } else Some ((- 1, True), s))"

definition KLogInit :: "(U32_t \<Rightarrow> 's \<Rightarrow> 's option) \<Rightarrow> 's \<times> 'a core_state_scheme \<Rightarrow> ((OsResult_t \<times> string) \<times> 's \<times> 'a core_state_scheme) option" where
  "KLogInit uart_init ps = do {
     p \<leftarrow> uart_init 115200 (fst ps);
     (a, s) \<leftarrow> KLogInfo LOG_LINE_APPEND ([CHR 0x0A] @ ''LOGGING FORMATS'' @ [CHR 0x0A]) (snd ps);
     (b, s) \<leftarrow> KLogInfo LOG_LINE_APPEND ''[h:s:ms] [tag] [<additional>] : message'' s;
     Some ((OS_RES_OK, a @ b), p, s)
   }"

subsection \<open>What reaches the serial port\<close>

text \<open>The bytes with a carriage return before each line feed.\<close>

definition crlf :: "U8_t list \<Rightarrow> U8_t list" where
  "crlf bytes = concat (map (\<lambda>c. if c = 0x0A then [0x0D, 0x0A] else [c]) bytes)"

lemma write_loop_crlf:
  assumes "i + k \<le> length bytes"
  shows "write_loop (\<lambda>c out. Some (out @ [c])) k i bytes out = Some (out @ crlf (take k (drop i bytes)))"
  using assms
proof (induction k arbitrary: i out)
  case (Suc k)
  then have "take (Suc k) (drop i bytes) = bytes ! i # take k (drop (Suc i) bytes)" by (simp add: Cons_nth_drop_Suc [symmetric])
  then show ?case using Suc by (simp add: crlf_def)
qed (simp add: crlf_def)

text \<open>
  The hook sends the bytes it is given to the serial port, with a carriage return before each line feed, and answers with their
  number; other files are refused.
\<close>

theorem write_hook_correct:
  assumes "int (length bytes) = len"
  shows "write_hook (\<lambda>c out. Some (out @ [c])) file bytes len out =
    (if file = 1 \<or> file = 2 then Some ((len, False), out @ crlf bytes) else Some ((- 1, True), out))"
  using write_loop_crlf [of 0 "length bytes" bytes out] assms by (auto simp: write_hook_def STDOUT_FILENO_def STDERR_FILENO_def)

theorem write_hook_correct_witness:
  "write_hook (\<lambda>c out. Some (out @ [c])) 1 [0x41, 0x0A] 2 [] = Some ((2, False), [0x41, 0x0D, 0x0A])"
  using write_hook_correct [of "[0x41, 0x0A]" 2 1 "[]"] by (simp add: crlf_def)

text \<open>A run time whose microseconds are below an hour is printed as hours, seconds and milliseconds that add up to it.\<close>

theorem log_time_splits:
  assumes "unat us < 3600000000" and "log_time (h, us) = (h', sec, ms)"
  shows "h' = unat h \<and> sec < 3600 \<and> ms < 1000 \<and> sec * 1000 + ms = unat us div 1000"
  using assms by (auto simp: log_time_def Let_def)

theorem log_time_splits_witness: "log_time (2, 61234567) = (2, 61, 234)"
  using log_time_splits [of 61234567 2 2 61 234] by (simp add: log_time_def)

end
