(* ===== verification/AvrContext.thy ===== *)
theory AvrContext
  imports Prelude
begin

text \<open>
  The context switch of the ATMega port: the assembler sequences \<^verbatim>\<open>PortContextSave\<close> and \<^verbatim>\<open>PortContextRestore\<close> of
  \<^verbatim>\<open>Port.h\<close>, on a machine with the instructions they use. The stack and the task control blocks lie in the SRAM, apart from the
  registers, so the machine keeps its registers and its memory separately. The address of the variable \<^verbatim>\<open>TCB_running\<close> is a
  parameter.
\<close>

subsection \<open>The machine\<close>

record avr =
  avr_reg :: "nat \<Rightarrow> U8_t"
  avr_sreg :: U8_t
  avr_sp :: U16_t
  avr_mem :: "U16_t \<Rightarrow> U8_t"

text \<open>The I/O registers 0x3d, 0x3e and 0x3f.\<close>

datatype avr_io = SPL | SPH | SREG

datatype avr_instr = PUSH nat | POP nat | IN nat avr_io | OUT avr_io nat | CLI | CLR nat | LDS nat U16_t | LD_Xinc nat | ST_Xinc nat

definition word16 :: "U8_t \<Rightarrow> U8_t \<Rightarrow> U16_t" where "word16 h l = push_bit 8 (ucast h) OR ucast l"
definition low_byte :: "U16_t \<Rightarrow> U8_t" where "low_byte w = ucast w"
definition high_byte :: "U16_t \<Rightarrow> U8_t" where "high_byte w = ucast (drop_bit 8 w)"

definition reg_x :: "avr \<Rightarrow> U16_t" where "reg_x s = word16 (avr_reg s 27) (avr_reg s 26)"

definition reg_set :: "nat \<Rightarrow> U8_t \<Rightarrow> avr \<Rightarrow> avr" where "reg_set r b s = s\<lparr>avr_reg := (avr_reg s)(r := b)\<rparr>"

definition x_inc :: "avr \<Rightarrow> avr" where
  "x_inc s = (let x = reg_x s + 1 in reg_set 27 (high_byte x) (reg_set 26 (low_byte x) s))"

text \<open>\<^verbatim>\<open>CLI\<close> clears the interrupt flag, bit 7; \<^verbatim>\<open>CLR\<close> clears the flags S, V and N and sets Z.\<close>

fun avr_exec :: "avr_instr \<Rightarrow> avr \<Rightarrow> avr" where
  "avr_exec (PUSH r) s = s\<lparr>avr_mem := (avr_mem s)(avr_sp s := avr_reg s r), avr_sp := avr_sp s - 1\<rparr>"
| "avr_exec (POP r) s = reg_set r (avr_mem s (avr_sp s + 1)) (s\<lparr>avr_sp := avr_sp s + 1\<rparr>)"
| "avr_exec (IN r p) s = reg_set r (case p of SPL \<Rightarrow> low_byte (avr_sp s) | SPH \<Rightarrow> high_byte (avr_sp s) | SREG \<Rightarrow> avr_sreg s) s"
| "avr_exec (OUT p r) s =
     (case p of SPL \<Rightarrow> s\<lparr>avr_sp := word16 (high_byte (avr_sp s)) (avr_reg s r)\<rparr>
      | SPH \<Rightarrow> s\<lparr>avr_sp := word16 (avr_reg s r) (low_byte (avr_sp s))\<rparr> | SREG \<Rightarrow> s\<lparr>avr_sreg := avr_reg s r\<rparr>)"
| "avr_exec CLI s = s\<lparr>avr_sreg := avr_sreg s AND 0x7F\<rparr>"
| "avr_exec (CLR r) s = reg_set r 0 (s\<lparr>avr_sreg := (avr_sreg s AND 0xE1) OR 0x02\<rparr>)"
| "avr_exec (LDS r a) s = reg_set r (avr_mem s a) s"
| "avr_exec (LD_Xinc r) s = reg_set r (avr_mem s (reg_x s)) (x_inc s)"
| "avr_exec (ST_Xinc r) s = x_inc (s\<lparr>avr_mem := (avr_mem s)(reg_x s := avr_reg s r)\<rparr>)"

fun avr_run :: "avr_instr list \<Rightarrow> avr \<Rightarrow> avr" where
  "avr_run [] s = s"
| "avr_run (i # is) s = avr_run is (avr_exec i s)"

subsection \<open>The two sequences\<close>

definition PortContextSave :: "U16_t \<Rightarrow> avr_instr list" where
  "PortContextSave TCB_running =
     [PUSH 0, IN 0 SREG, CLI, PUSH 0, PUSH 1, CLR 1] @ map PUSH [2 ..< 32] @
     [LDS 26 TCB_running, LDS 27 (TCB_running + 1), IN 0 SPL, ST_Xinc 0, IN 0 SPH, ST_Xinc 0]"

definition PortContextRestore :: "U16_t \<Rightarrow> avr_instr list" where
  "PortContextRestore TCB_running =
     [LDS 26 TCB_running, LDS 27 (TCB_running + 1), LD_Xinc 28, OUT SPL 28, LD_Xinc 29, OUT SPH 29] @
     map POP (rev [1 ..< 32]) @ [POP 0, OUT SREG 0, POP 0]"

subsection \<open>Pushing and popping\<close>

text \<open>Bytes written downwards from an address, and the addresses they take.\<close>

fun put_down :: "U16_t \<Rightarrow> U8_t list \<Rightarrow> (U16_t \<Rightarrow> U8_t) \<Rightarrow> U16_t \<Rightarrow> U8_t" where
  "put_down p [] m = m"
| "put_down p (b # bs) m = put_down (p - 1) bs (m(p := b))"

definition frame_at :: "U16_t \<Rightarrow> nat \<Rightarrow> U16_t set" where "frame_at p n = (\<lambda>i. p - of_nat i) ` {..< n}"

lemma put_down_other: "x \<notin> frame_at p (length bs) \<Longrightarrow> put_down p bs m x = m x"
proof (induction bs arbitrary: p m)
  case (Cons b bs)
  have "x \<noteq> p" using Cons.prems by (force simp: frame_at_def)
  moreover have "x \<notin> frame_at (p - 1) (length bs)"
  proof
    assume "x \<in> frame_at (p - 1) (length bs)"
    then obtain i where "i < length bs" "x = p - 1 - of_nat i" by (auto simp: frame_at_def)
    then have "x \<in> frame_at p (length (b # bs))" unfolding frame_at_def by (intro image_eqI [where x = "Suc i"]) simp_all
    then show False using Cons.prems by contradiction
  qed
  ultimately show ?case using Cons.IH by simp
qed simp

lemma frame_fresh: "n < 2 ^ 16 \<Longrightarrow> p \<notin> frame_at (p - 1) n"
proof
  assume n: "n < 2 ^ 16" and "p \<in> frame_at (p - 1) n"
  then obtain i where i: "i < n" "p = p - 1 - of_nat i" by (auto simp: frame_at_def)
  then have "(of_nat (Suc i) :: U16_t) = 0" by (simp add: algebra_simps)
  moreover have "unat (of_nat (Suc i) :: U16_t) = Suc i" using i(1) n by (simp add: unat_of_nat del: of_nat_Suc)
  ultimately show False by (metis unat_0 nat.distinct(1))
qed

lemma frame_at_iff: "n < 2 ^ 16 \<Longrightarrow> x \<in> frame_at p n \<longleftrightarrow> unat (p - x) < n"
proof
  assume n: "n < 2 ^ 16" and "x \<in> frame_at p n"
  then obtain i where "i < n" "p - x = of_nat i" by (auto simp: frame_at_def)
  then show "unat (p - x) < n" using n by (simp add: unat_of_nat)
next
  assume "unat (p - x) < n"
  then show "x \<in> frame_at p n" unfolding frame_at_def by (intro image_eqI [where x = "unat (p - x)"]) simp_all
qed

lemma put_down_at: "i < length bs \<Longrightarrow> length bs \<le> 2 ^ 16 \<Longrightarrow> put_down p bs m (p - of_nat i) = bs ! i"
proof (induction bs arbitrary: p m i)
  case (Cons b bs)
  show ?case
  proof (cases i)
    case 0
    then show ?thesis using put_down_other [OF frame_fresh, of bs p] Cons.prems by simp
  next
    case (Suc j)
    then show ?thesis using Cons.IH [of j "p - 1" "m(p := b)"] Cons.prems by (simp add: algebra_simps fun_upd_def)
  qed
qed simp

lemma avr_run_append: "avr_run (is @ js) s = avr_run js (avr_run is s)"
  by (induction "is" arbitrary: s) simp_all

lemma push_all:
  "avr_run (map PUSH rs) s = s\<lparr>avr_mem := put_down (avr_sp s) (map (avr_reg s) rs) (avr_mem s), avr_sp := avr_sp s - of_nat (length rs)\<rparr>"
  by (induction rs arbitrary: s) (simp_all add: algebra_simps)

lemma pop_all:
  "distinct rs \<Longrightarrow> avr_sp (avr_run (map POP rs) s) = avr_sp s + of_nat (length rs) \<and> avr_mem (avr_run (map POP rs) s) = avr_mem s \<and>
   (\<forall>i < length rs. avr_reg (avr_run (map POP rs) s) (rs ! i) = avr_mem s (avr_sp s + 1 + of_nat i)) \<and>
   (\<forall>r. r \<notin> set rs \<longrightarrow> avr_reg (avr_run (map POP rs) s) r = avr_reg s r)"
proof (induction rs arbitrary: s)
  case (Cons r rs)
  let ?s = "reg_set r (avr_mem s (avr_sp s + 1)) (s\<lparr>avr_sp := avr_sp s + 1\<rparr>)"
  have "distinct rs" "r \<notin> set rs" using Cons.prems by simp_all
  moreover note Cons.IH [OF this(1), of ?s]
  ultimately show ?case by (auto simp: reg_set_def nth_Cons algebra_simps split: nat.splits)
qed simp

lemma word16_bytes: "word16 (high_byte w) (low_byte w) = w" "low_byte (word16 h l) = l" "high_byte (word16 h l) = h"
  by (rule bit_word_eqI; auto simp: word16_def high_byte_def low_byte_def bit_simps dest: bit_imp_le_length)+

subsection \<open>The context survives\<close>

text \<open>What a saved context takes on the stack: register 0, the status register, and registers 1 to 31.\<close>

definition context_frame :: "avr \<Rightarrow> U8_t list" where
  "context_frame s = avr_reg s 0 # avr_sreg s # map (avr_reg s) [1 ..< 32]"

lemma length_context_frame: "length (context_frame s) = 33" by (simp add: context_frame_def)

lemma x_after_lds: "reg_x (reg_set 27 h (reg_set 26 l s)) = word16 h l" "reg_x (x_inc s) = reg_x s + 1"
  by (simp_all add: reg_x_def reg_set_def x_inc_def Let_def word16_bytes)

text \<open>Saving: the registers go onto the stack and the stack pointer into the task control block.\<close>

lemma context_saved:
  assumes tcb: "word16 (avr_mem s (a + 1)) (avr_mem s a) = tcb"
    and apart: "a \<notin> frame_at (avr_sp s) 33" "a + 1 \<notin> frame_at (avr_sp s) 33" "tcb \<notin> frame_at (avr_sp s) 33" "tcb + 1 \<notin> frame_at (avr_sp s) 33"
  defines "t \<equiv> avr_run (PortContextSave a) s"
  shows "avr_sp t = avr_sp s - 33" "i < 33 \<Longrightarrow> avr_mem t (avr_sp s - of_nat i) = context_frame s ! i"
    "avr_mem t tcb = low_byte (avr_sp s - 33)" "avr_mem t (tcb + 1) = high_byte (avr_sp s - 33)"
    "x \<notin> frame_at (avr_sp s) 33 \<Longrightarrow> x \<noteq> tcb \<Longrightarrow> x \<noteq> tcb + 1 \<Longrightarrow> avr_mem t x = avr_mem s x"
proof -
  let ?m = "put_down (avr_sp s) (context_frame s) (avr_mem s)" and ?sp = "avr_sp s - 33"
  define u where "u = avr_run ([PUSH 0, IN 0 SREG, CLI, PUSH 0, PUSH 1, CLR 1] @ map PUSH [2 ..< 32]) s"
  have regs: "[1 ..< 32] = 1 # [2 ..< 32 :: nat]" by (simp add: upt_rec)
  have u: "avr_mem u = ?m" "avr_sp u = ?sp"
    unfolding u_def avr_run_append push_all context_frame_def regs
    by (simp_all add: reg_set_def algebra_simps cong: map_cong)
  have m: "?m a = avr_mem s a" "?m (a + 1) = avr_mem s (a + 1)" using apart by (simp_all add: put_down_other length_context_frame)
  have "t = avr_run [LDS 26 a, LDS 27 (a + 1), IN 0 SPL, ST_Xinc 0, IN 0 SPH, ST_Xinc 0] u"
    by (simp add: t_def u_def PortContextSave_def avr_run_append)
  then have t: "avr_mem t = ?m(tcb := low_byte ?sp, tcb + 1 := high_byte ?sp)" "avr_sp t = ?sp"
    using tcb m u by (simp_all add: reg_set_def reg_x_def x_inc_def Let_def word16_bytes)
  show "avr_sp t = ?sp" by (rule t)
  show "x \<notin> frame_at (avr_sp s) 33 \<Longrightarrow> x \<noteq> tcb \<Longrightarrow> x \<noteq> tcb + 1 \<Longrightarrow> avr_mem t x = avr_mem s x"
    by (simp add: t put_down_other length_context_frame)
  show "avr_mem t tcb = low_byte ?sp" "avr_mem t (tcb + 1) = high_byte ?sp" by (simp_all add: t)
  show "avr_mem t (avr_sp s - of_nat i) = context_frame s ! i" if "i < 33"
  proof -
    have "avr_sp s - of_nat i \<in> frame_at (avr_sp s) 33" using that by (auto simp: frame_at_def)
    then have "avr_sp s - of_nat i \<noteq> tcb" "avr_sp s - of_nat i \<noteq> tcb + 1" using apart by metis+
    then show ?thesis using that by (simp add: t put_down_at length_context_frame)
  qed
qed

text \<open>Restoring: from the stack pointer in the task control block, all registers.\<close>

lemma context_restored:
  assumes tcb: "word16 (avr_mem u (a + 1)) (avr_mem u a) = tcb" and sp: "word16 (avr_mem u (tcb + 1)) (avr_mem u tcb) = p"
    and frame: "\<And>i. i < 33 \<Longrightarrow> avr_mem u (p + 33 - of_nat i) = context_frame s ! i"
  defines "v \<equiv> avr_run (PortContextRestore a) u"
  shows "avr_sp v = p + 33" "avr_sreg v = avr_sreg s" "r < 32 \<Longrightarrow> avr_reg v r = avr_reg s r"
proof -
  define w where "w = avr_run [LDS 26 a, LDS 27 (a + 1), LD_Xinc 28, OUT SPL 28, LD_Xinc 29, OUT SPH 29] u"
  have w: "avr_sp w = p" "avr_mem w = avr_mem u"
    using tcb sp by (simp_all add: w_def reg_set_def reg_x_def x_inc_def Let_def word16_bytes)
  define rs where "rs = rev [1 ..< 32 :: nat]"
  define y where "y = avr_run (map POP rs) w"
  have rs: "distinct rs" "length rs = 31" "\<And>r. r \<in> set rs \<longleftrightarrow> 1 \<le> r \<and> r < 32" by (auto simp: rs_def)
  have y: "avr_sp y = p + 31" "avr_mem y = avr_mem u" "\<And>i. i < 31 \<Longrightarrow> avr_reg y (rs ! i) = avr_mem u (p + 1 + of_nat i)"
    using pop_all [OF rs(1), of w] w rs(2) unfolding y_def by simp_all
  have v: "v = avr_run [POP 0, OUT SREG 0, POP 0] y" unfolding v_def PortContextRestore_def y_def w_def rs_def by (simp only: avr_run_append)
  have "avr_mem u (p + 32) = avr_sreg s" "avr_mem u (p + 33) = avr_reg s 0"
    using frame [of 1] frame [of 0] by (simp_all add: context_frame_def add.commute)
  then have v0: "avr_sp v = p + 33" "avr_sreg v = avr_sreg s" "avr_reg v 0 = avr_reg s 0" "\<And>r. r \<noteq> 0 \<Longrightarrow> avr_reg v r = avr_reg y r"
    using y(1,2) by (simp_all add: v reg_set_def add.assoc)
  then show "avr_sp v = p + 33" "avr_sreg v = avr_sreg s" by simp_all
  show "avr_reg v r = avr_reg s r" if "r < 32"
  proof (cases "r = 0")
    case False
    then have r: "rs ! (31 - r) = r" "31 - r < 31" using that by (simp_all add: rs_def rev_nth)
    have "(of_nat (31 - r) :: U16_t) = 31 - of_nat r" using that by (simp add: of_nat_diff)
    then have "p + 1 + of_nat (31 - r) = p + 33 - of_nat (r + 1)" by (simp add: algebra_simps)
    then have "avr_reg y r = context_frame s ! (r + 1)" using y(3) [OF r(2)] frame [of "r + 1"] that r(1) by simp
    then show ?thesis using v0(4) False that by (simp add: context_frame_def nth_Cons')
  qed (use v0(3) in simp)
qed

text \<open>
  C40. The context switch of the ATMega port. When the context of a task is saved, other code runs, and the context is then restored,
  all 32 registers, the status register and the stack pointer are those the task had, whatever the other code did with the
  registers: it must leave the 33 bytes of the saved frame and the stack pointer stored in the task control block alone, and the
  variable \<^verbatim>\<open>TCB_running\<close> must name the same block again.
\<close>

theorem context_switch:
  assumes "word16 (avr_mem s (a + 1)) (avr_mem s a) = tcb" and "{a, a + 1, tcb, tcb + 1} \<inter> frame_at (avr_sp s) 33 = {}"
    and "word16 (avr_mem u (a + 1)) (avr_mem u a) = tcb"
    and "\<forall>x \<in> frame_at (avr_sp s) 33 \<union> {tcb, tcb + 1}. avr_mem u x = avr_mem (avr_run (PortContextSave a) s) x"
  shows "let v = avr_run (PortContextRestore a) u in avr_sp v = avr_sp s \<and> avr_sreg v = avr_sreg s \<and> (\<forall>r < 32. avr_reg v r = avr_reg s r)"
proof -
  let ?t = "avr_run (PortContextSave a) s" and ?p = "avr_sp s - 33"
  have apart: "a \<notin> frame_at (avr_sp s) 33" "a + 1 \<notin> frame_at (avr_sp s) 33" "tcb \<notin> frame_at (avr_sp s) 33" "tcb + 1 \<notin> frame_at (avr_sp s) 33"
    using assms(2) by auto
  note t = context_saved [OF assms(1) apart]
  have sp: "word16 (avr_mem u (tcb + 1)) (avr_mem u tcb) = ?p" using assms(4) t(3,4) by (simp add: word16_bytes)
  have "avr_mem u (?p + 33 - of_nat i) = context_frame s ! i" if "i < 33" for i
    using assms(4) t(2) [OF that] that by (auto simp: frame_at_def)
  from context_restored [OF assms(3) sp this] show ?thesis by (simp add: Let_def)
qed

text \<open>A task whose registers hold their own numbers, with the block at 0x200; the other code fills all registers with 0xFF.\<close>

definition avr_start :: avr where
  "avr_start = \<lparr>avr_reg = (\<lambda>r. of_nat r), avr_sreg = 0x80, avr_sp = 0x8FF, avr_mem = (\<lambda>_. 0)(0x101 := 0x02)\<rparr>"

theorem context_switch_witness:
  "avr_reg (avr_run (PortContextRestore 0x100) ((avr_run (PortContextSave 0x100) avr_start)\<lparr>avr_reg := \<lambda>_. 0xFF, avr_sreg := 0\<rparr>)) 17 = 17"
proof -
  let ?t = "avr_run (PortContextSave 0x100) avr_start"
  have start: "word16 (avr_mem avr_start (0x100 + 1)) (avr_mem avr_start 0x100) = 0x200" by (simp add: avr_start_def word16_def)
  have apart: "{0x100, 0x100 + 1, 0x200, 0x200 + 1} \<inter> frame_at (avr_sp avr_start) 33 = {}"
    by (simp add: frame_at_iff avr_start_def)
  have "avr_mem ?t 0x100 = avr_mem avr_start 0x100" "avr_mem ?t (0x100 + 1) = avr_mem avr_start (0x100 + 1)"
    using context_saved(5) [OF start] apart by simp_all
  then have "word16 (avr_mem ?t (0x100 + 1)) (avr_mem ?t 0x100) = 0x200" using start by simp
  then show ?thesis using context_switch [OF start apart, of "?t\<lparr>avr_reg := \<lambda>_. 0xFF, avr_sreg := 0\<rparr>"] by (simp add: Let_def avr_start_def)
qed

end
