(* ===== verification/PortCalls.thy ===== *)
theory PortCalls
  imports HalUart
begin

text \<open>
  The ports that work through a driver library of the vendor: the AT32UC3A and the STM32F1xx. The library is not part of the
  repository, so a function is modelled by the calls it makes, in order, and a value it reads is a parameter. The constants of the
  library are the constructors of a data type. Objects of the library, such as a timer or a channel, are given by their address.
\<close>

subsection \<open>Constants and structures of the libraries\<close>

datatype vendor_const = TC_EVT_EFFECT_NOOP | TC_WAVEFORM_SEL_UP_MODE_RC_TRIGGER | TC_SEL_NO_EDGE | TC_CLOCK_SOURCE_TC3
  | GPIO_DIR_INPUT | GPIO_DIR_OUTPUT | SPI_MODE_0 | USART_NO_PARITY | USART_2_STOPBITS | AVR32_INTC_IPR_INTLEVEL_INT0 | AVR32_TC0_IRQ0
  | TIMER_OSTICK | TIM3 | TIM3_IRQn

record tc_interrupt_t =
  etrgs :: bool ldrbs :: bool ldras :: bool cpcs :: bool cpbs :: bool cpas :: bool lovrs :: bool covfs :: bool

datatype tc_waveform_opt_t = Waveform (wf_channel: nat)
  (bswtrg: vendor_const) (beevt: vendor_const) (bcpc: vendor_const) (bcpb: vendor_const)
  (aswtrg: vendor_const) (aeevt: vendor_const) (acpc: vendor_const) (acpa: vendor_const)
  (wavsel: vendor_const) (enetrg: bool) (eevt: nat) (eevtedg: vendor_const)
  (cpcdis: bool) (cpcstop: bool) (burst: bool) (clki: bool) (tcclks: vendor_const)

record usart_serial_options_t =
  so_baudrate :: U32_t
  so_paritytype :: vendor_const
  so_stopbits :: vendor_const
  so_charlength :: nat

record TimerConfig_t =
  tmc_timer :: vendor_const
  tmc_instance :: vendor_const
  tmc_irqn_elapsed :: vendor_const
  tmc_cb_elapsed :: ptr
  tmc_irq_prio_elapsed :: nat
  tmc_irq_subprio_elapsed :: nat

text \<open>The calls into the library of the AT32UC3A, to the clock, timer and interrupt controller and to the other peripherals.\<close>

datatype at32_call =
    cpu_irq_disable | cpu_irq_enable
  | sysclk_enable_peripheral_clock ptr
  | tc_init_waveform ptr tc_waveform_opt_t
  | tc_write_rc ptr nat U32_t
  | tc_configure_interrupts ptr nat tc_interrupt_t
  | tc_read_sr ptr nat | tc_read_tc ptr nat | tc_start ptr nat | tc_stop ptr nat
  | tc_write_cv ptr nat U32_t
  | INTC_register_interrupt ptr U32_t U32_t
  | INTC_register_level ptr vendor_const vendor_const
  | OsTick_AT32

datatype at32_io =
    gpio_configure_pin U8_t vendor_const | gpio_pin_is_high U8_t | gpio_set_pin_high U8_t | gpio_set_pin_low U8_t
  | spi_master_init ptr | spi_master_setup_device ptr ptr vendor_const U32_t nat | spi_enable ptr
  | spi_write_packet ptr "U8_t list" | spi_write_single ptr U8_t | spi_select_device ptr ptr | spi_deselect_device ptr ptr | spi_is_tx_ready ptr
  | usart_serial_init ptr usart_serial_options_t | usart_serial_putchar ptr U8_t
  | adc_configure ptr | adc_enable ptr U8_t | adc_start ptr | adc_check_eoc ptr U8_t | adc_get_value ptr U8_t
  | At32 at32_call

text \<open>The calls into the library of the STM32F1xx.\<close>

datatype stm_call =
    disable_irq | enable_irq
  | TimerHwConfigSet TimerConfig_t | TimerHwInit vendor_const U32_t U32_t | TimerHwIntEnablePeriodElapsed vendor_const bool
  | TimerHwStart vendor_const | TimerHwStop vendor_const | TimerHwCountGet vendor_const | TimerHwCountSet vendor_const U32_t
  | TimerHwIntPrioSetPeriodElapsed vendor_const U8_t
  | MX_IWDG_Init | HAL_IWDG_Init U32_t | HAL_IWDG_Refresh
  | OsTick_Stm

definition compare_only :: "bool \<Rightarrow> tc_interrupt_t" where
  "compare_only on = \<lparr>etrgs = False, ldrbs = False, ldras = False, cpcs = on, cpbs = False, cpas = False, lovrs = False, covfs = False\<rparr>"

definition up_mode :: "nat \<Rightarrow> tc_waveform_opt_t" where
  "up_mode ch = Waveform ch
     TC_EVT_EFFECT_NOOP TC_EVT_EFFECT_NOOP TC_EVT_EFFECT_NOOP TC_EVT_EFFECT_NOOP
     TC_EVT_EFFECT_NOOP TC_EVT_EFFECT_NOOP TC_EVT_EFFECT_NOOP TC_EVT_EFFECT_NOOP
     TC_WAVEFORM_SEL_UP_MODE_RC_TRIGGER False 0 TC_SEL_NO_EDGE
     False False False False TC_CLOCK_SOURCE_TC3"

subsection \<open>The kernel port of the AT32UC3A\<close>

text \<open>\<open>tc\<close> is the address of the timer module \<^verbatim>\<open>AVR32_TC0\<close>, \<open>irq\<close> that of the interrupt routine.\<close>

definition OS_TC_CHANNEL :: nat where "OS_TC_CHANNEL = 0"

definition AT32_PortGlobalIntDisable :: "at32_call list" where "AT32_PortGlobalIntDisable = [cpu_irq_disable]"
definition AT32_PortGlobalIntEnable :: "at32_call list" where "AT32_PortGlobalIntEnable = [cpu_irq_enable]"

definition AT32_PortOsIntDisable :: "ptr \<Rightarrow> at32_call list" where
  "AT32_PortOsIntDisable tc = [tc_configure_interrupts tc OS_TC_CHANNEL (compare_only False)]"

definition AT32_PortOsIntEnable :: "ptr \<Rightarrow> at32_call list" where
  "AT32_PortOsIntEnable tc = [tc_configure_interrupts tc OS_TC_CHANNEL (compare_only True)]"

definition AT32_PortOsIntFlagClear :: "ptr \<Rightarrow> at32_call list" where "AT32_PortOsIntFlagClear tc = [tc_read_sr tc OS_TC_CHANNEL]"

definition AT32_PortOsTimerInit :: "ptr \<Rightarrow> U16_t \<Rightarrow> U16_t \<Rightarrow> at32_call list" where
  "AT32_PortOsTimerInit tc prescaler ovf =
     [sysclk_enable_peripheral_clock tc, tc_init_waveform tc (up_mode OS_TC_CHANNEL), tc_write_rc tc OS_TC_CHANNEL 2994]"

definition AT32_PortOsTimerStop :: "ptr \<Rightarrow> at32_call list" where "AT32_PortOsTimerStop tc = [tc_stop tc OS_TC_CHANNEL]"
definition AT32_PortOsTimerStart :: "ptr \<Rightarrow> at32_call list" where "AT32_PortOsTimerStart tc = [tc_start tc OS_TC_CHANNEL]"

definition AT32_PortOsTimerTicksGet :: "ptr \<Rightarrow> U32_t \<Rightarrow> U32_t \<times> at32_call list" where
  "AT32_PortOsTimerTicksGet tc tc_val = (tc_val, [tc_read_tc tc OS_TC_CHANNEL])"

definition AT32_PortOsTimerTicksReset :: "at32_call list" where "AT32_PortOsTimerTicksReset = []"

definition AT32_PortOsTimerTicksSet :: "ptr \<Rightarrow> U32_t \<Rightarrow> at32_call list" where
  "AT32_PortOsTimerTicksSet tc tick_val = [tc_write_cv tc OS_TC_CHANNEL tick_val]"

definition os_timer_irq :: "at32_call list" where "os_timer_irq = [OsTick_AT32]"

definition AT32_PortOsTickInit :: "ptr \<Rightarrow> ptr \<Rightarrow> U8_t \<Rightarrow> at32_call list" where
  "AT32_PortOsTickInit tc irq os_tick_irq_prio =
     [tc_configure_interrupts tc OS_TC_CHANNEL (compare_only True), INTC_register_level irq AVR32_TC0_IRQ0 AVR32_INTC_IPR_INTLEVEL_INT0]"

subsection \<open>Timer, pins, SPI and converter of the AT32UC3A\<close>

record HalTimerInstance =
  ti_channel :: ptr
  ti_mode :: U8_t
  ti_interval_us :: U32_t
  ti_irq_priority :: U32_t
  ti_irq :: U32_t
  ti_irq_handler :: ptr

definition HalTimerInit :: "U32_t \<Rightarrow> HalTimerInstance \<Rightarrow> at32_call list" where
  "HalTimerInit bus_hz h =
     [sysclk_enable_peripheral_clock (ti_channel h), tc_init_waveform (ti_channel h) (up_mode 0),
      tc_write_rc (ti_channel h) 0 (bus_hz div 576 div 100), cpu_irq_disable, tc_configure_interrupts (ti_channel h) 0 (compare_only True),
      INTC_register_interrupt (ti_irq_handler h) (ti_irq h) (ti_irq_priority h), cpu_irq_enable]"

definition HalTimerStart :: "HalTimerInstance \<Rightarrow> at32_call list" where "HalTimerStart h = [tc_start (ti_channel h) 0]"
definition HalTimerStop :: "HalTimerInstance \<Rightarrow> at32_call list" where "HalTimerStop h = [tc_stop (ti_channel h) 0]"

definition HalTimerCountGet :: "U32_t \<Rightarrow> HalTimerInstance \<Rightarrow> U32_t \<times> at32_call list" where
  "HalTimerCountGet tc_val h = (tc_val, [tc_read_tc (ti_channel h) 0])"

definition HalTimerIntEnable :: "HalTimerInstance \<Rightarrow> at32_call list" where
  "HalTimerIntEnable h = [tc_configure_interrupts (ti_channel h) 0 (compare_only True)]"

definition HalTimerIntDisable :: "HalTimerInstance \<Rightarrow> at32_call list" where
  "HalTimerIntDisable h = [tc_configure_interrupts (ti_channel h) 0 (compare_only False)]"

definition HalTimerIntFlagClear :: "HalTimerInstance \<Rightarrow> at32_call list" where "HalTimerIntFlagClear h = [tc_read_sr (ti_channel h) 0]"

datatype AT32_PinMode = PIN_MODE_INPUT | PIN_MODE_OUTPUT | PIN_MODE_PULL_UP | PIN_MODE_PULL_DOWN | PIN_MODE_INVALID
datatype AT32_PinState = PIN_STATE_LOW | PIN_STATE_HIGH | PIN_STATE_TOGGLE

definition AT32_PinModeSet :: "U8_t \<Rightarrow> AT32_PinMode \<Rightarrow> at32_io list" where
  "AT32_PinModeSet pin_nr mode = [gpio_configure_pin pin_nr (if mode = PIN_MODE_INPUT then GPIO_DIR_INPUT else GPIO_DIR_OUTPUT)]"

definition AT32_PinModeGet :: "U8_t \<Rightarrow> AT32_PinMode" where "AT32_PinModeGet pin_nr = PIN_MODE_INVALID"

definition AT32_PinStateSet :: "(U8_t \<Rightarrow> bool) \<Rightarrow> U8_t \<Rightarrow> AT32_PinState \<Rightarrow> at32_io list" where
  "AT32_PinStateSet is_high pin_nr state =
     (if state = PIN_STATE_HIGH then [gpio_set_pin_high pin_nr]
      else if state = PIN_STATE_TOGGLE then
        gpio_pin_is_high pin_nr # (if is_high pin_nr then [gpio_set_pin_low pin_nr] else [gpio_set_pin_high pin_nr])
      else [gpio_set_pin_low pin_nr])"

definition AT32_PinStateGet :: "(U8_t \<Rightarrow> bool) \<Rightarrow> U8_t \<Rightarrow> AT32_PinState \<times> at32_io list" where
  "AT32_PinStateGet is_high pin_nr = (if is_high pin_nr then PIN_STATE_HIGH else PIN_STATE_LOW, [gpio_pin_is_high pin_nr])"

record HalSpiInstance =
  spi_channel :: ptr
  spi_device :: ptr
  spi_mode :: U8_t
  spi_baud_rate :: U32_t

definition HalSpiInit :: "HalSpiInstance \<Rightarrow> at32_io list" where
  "HalSpiInit h = [spi_master_init (spi_channel h), spi_master_setup_device (spi_channel h) (spi_device h) SPI_MODE_0 (spi_baud_rate h) 0,
     spi_enable (spi_channel h), At32 (sysclk_enable_peripheral_clock (spi_channel h))]"

definition HalSpiWriteByte :: "HalSpiInstance \<Rightarrow> U8_t \<Rightarrow> at32_io list" where
  "HalSpiWriteByte h data = [spi_write_packet (spi_channel h) [data]]"

definition HalSpiReadByte :: "HalSpiInstance \<Rightarrow> U8_t" where "HalSpiReadByte h = 0"

definition HalSpiWrite :: "HalSpiInstance \<Rightarrow> U8_t list \<Rightarrow> U8_t \<Rightarrow> at32_io list option" where
  "HalSpiWrite h data len =
     (if unat len \<le> length data then Some (map (spi_write_single (spi_channel h)) (take (unat len) data)) else None)"

definition HalSpiRead :: "HalSpiInstance \<Rightarrow> U8_t list \<Rightarrow> U8_t \<Rightarrow> U8_t list" where "HalSpiRead h data len = data"

definition HalSpiDeviceSelect :: "HalSpiInstance \<Rightarrow> at32_io list" where
  "HalSpiDeviceSelect h = [spi_select_device (spi_channel h) (spi_device h)]"

definition HalSpiDeviceDeselect :: "HalSpiInstance \<Rightarrow> at32_io list" where
  "HalSpiDeviceDeselect h = [spi_deselect_device (spi_channel h) (spi_device h)]"

definition HalSpiIsReady :: "bool \<Rightarrow> HalSpiInstance \<Rightarrow> bool \<times> at32_io list" where
  "HalSpiIsReady ready h = (ready, [spi_is_tx_ready (spi_channel h)])"

text \<open>The converter: \<open>adc\<close> is the address of \<^verbatim>\<open>AVR32_ADC\<close>; the state is \<^verbatim>\<open>LastConversionResult\<close>.\<close>

definition AT32_AdcInit :: "ptr \<Rightarrow> U8_t \<Rightarrow> U32_t \<times> at32_io list" where
  "AT32_AdcInit adc ch = (0, [adc_configure adc, adc_enable adc ch])"

definition AT32_AdcConversionStart :: "ptr \<Rightarrow> U8_t \<times> at32_io list" where "AT32_AdcConversionStart adc = (1, [adc_start adc])"

definition AT32_AdcConversionIsDone :: "ptr \<Rightarrow> bool \<Rightarrow> U8_t \<Rightarrow> bool \<times> at32_io list" where
  "AT32_AdcConversionIsDone adc eoc ch = (eoc, [adc_check_eoc adc ch])"

definition AT32_AdcConversionResultGet :: "U32_t \<Rightarrow> U32_t" where "AT32_AdcConversionResultGet LastConversionResult = LastConversionResult"

definition AT32_AdcConversionResultGetNew :: "ptr \<Rightarrow> U32_t \<Rightarrow> U8_t \<Rightarrow> U32_t \<Rightarrow> (U32_t \<times> U32_t) \<times> at32_io list" where
  "AT32_AdcConversionResultGetNew adc val ch LastConversionResult = ((val, val), [adc_get_value adc ch])"

subsection \<open>The kernel port of the STM32F1xx\<close>

definition Stm_PortSuperVisorModeEnable :: "stm_call list" where "Stm_PortSuperVisorModeEnable = []"
definition Stm_PortSuperVisorModeDisable :: "stm_call list" where "Stm_PortSuperVisorModeDisable = []"
definition Stm_PortGlobalIntDisable :: "stm_call list" where "Stm_PortGlobalIntDisable = [disable_irq]"
definition Stm_PortGlobalIntEnable :: "stm_call list" where "Stm_PortGlobalIntEnable = [enable_irq]"
definition Stm_PortOsIntDisable :: "stm_call list" where "Stm_PortOsIntDisable = [TimerHwIntEnablePeriodElapsed TIMER_OSTICK False]"
definition Stm_PortOsIntEnable :: "stm_call list" where "Stm_PortOsIntEnable = [TimerHwIntEnablePeriodElapsed TIMER_OSTICK True]"
definition Stm_PortOsIntFlagClear :: "stm_call list" where "Stm_PortOsIntFlagClear = []"

definition Stm_PortOsTimerInit :: "ptr \<Rightarrow> U16_t \<Rightarrow> U16_t \<Rightarrow> stm_call list" where
  "Stm_PortOsTimerInit callback prescaler ovf =
     [TimerHwConfigSet \<lparr>tmc_timer = TIMER_OSTICK, tmc_instance = TIM3, tmc_irqn_elapsed = TIM3_IRQn, tmc_cb_elapsed = callback,
        tmc_irq_prio_elapsed = 0, tmc_irq_subprio_elapsed = 0\<rparr>,
      TimerHwInit TIMER_OSTICK (ucast prescaler) (ucast ovf)] @ Stm_PortOsIntDisable"

definition Stm_PortOsTimerDisable :: "stm_call list" where "Stm_PortOsTimerDisable = [TimerHwStop TIMER_OSTICK]"
definition Stm_PortOsTimerEnable :: "stm_call list" where "Stm_PortOsTimerEnable = [TimerHwStart TIMER_OSTICK]"

definition Stm_PortOsTimerTicksGet :: "U32_t \<Rightarrow> U32_t \<times> stm_call list" where
  "Stm_PortOsTimerTicksGet count = (count, [TimerHwCountGet TIMER_OSTICK])"

definition Stm_PortOsTimerTicksReset :: "stm_call list" where "Stm_PortOsTimerTicksReset = [TimerHwCountSet TIMER_OSTICK 0]"

definition Stm_PortOsTimerTicksSet :: "U32_t \<Rightarrow> stm_call list" where
  "Stm_PortOsTimerTicksSet tick_val = [TimerHwCountSet TIMER_OSTICK tick_val]"

definition ITimerCallbackElapsedOsTick :: "stm_call list" where "ITimerCallbackElapsedOsTick = [OsTick_Stm]"

definition Stm_PortOsIntInit :: "U8_t \<Rightarrow> stm_call list" where
  "Stm_PortOsIntInit os_tick_irq_prio = [TimerHwIntPrioSetPeriodElapsed TIMER_OSTICK os_tick_irq_prio]"

text \<open>The watchdog: \<open>prescaler\<close> is what \<^verbatim>\<open>MX_IWDG_Init\<close> leaves in \<^verbatim>\<open>hiwdg.Init.Prescaler\<close>; the result is the new \<^verbatim>\<open>WdtPrescaler\<close>.\<close>

definition Stm_PortWdtInit :: "U8_t \<Rightarrow> stm_call list" where "Stm_PortWdtInit wdt_mode = []"

definition Stm_PortWdtEnable :: "U32_t \<Rightarrow> U32_t \<Rightarrow> U32_t \<times> stm_call list" where
  "Stm_PortWdtEnable prescaler timeout_ms = (prescaler, [MX_IWDG_Init, HAL_IWDG_Init (prescaler * timeout_ms)])"

definition Stm_PortWdtDisable :: "stm_call list" where "Stm_PortWdtDisable = []"
definition Stm_PortWdtKick :: "stm_call list" where "Stm_PortWdtKick = [HAL_IWDG_Refresh]"

subsection \<open>The UART driver of the AT32UC3A\<close>

text \<open>Its ring code is that of the ATMega, line by line, so it is the same function; sending goes through the library.\<close>

definition AT32_HalUartInit :: "ptr \<Rightarrow> U32_t \<Rightarrow> HalUartInstance \<Rightarrow> HalUartInstance \<times> at32_io list" where
  "AT32_HalUartInit ch baud h =
     (h\<lparr>buffer_write_i := 19, buffer_read_i := 19, buffer_data_avail := 0, buffer_status := 0\<rparr>,
      [usart_serial_init ch \<lparr>so_baudrate = baud, so_paritytype = USART_NO_PARITY, so_stopbits = USART_2_STOPBITS, so_charlength = 8\<rparr>])"

definition AT32_HalUartSendChar :: "ptr \<Rightarrow> U8_t \<Rightarrow> at32_io list" where "AT32_HalUartSendChar ch c = [usart_serial_putchar ch c]"

fun AT32_HalUartSendString :: "ptr \<Rightarrow> U8_t list \<Rightarrow> at32_io list option" where
  "AT32_HalUartSendString ch [] = None"
| "AT32_HalUartSendString ch (c # str) =
     (if c = 0 then Some [] else map_option ((@) (AT32_HalUartSendChar ch c)) (AT32_HalUartSendString ch str))"

definition AT32_HalUartReceive :: "ptr \<Rightarrow> U8_t list \<Rightarrow> U8_t \<Rightarrow> uart_state \<Rightarrow> ((U8_t \<times> U8_t list) \<times> uart_state) option" where
  "AT32_HalUartReceive = HalUartReceive"

definition AT32_HalUartBufferDataAmountGet :: "ptr \<Rightarrow> uart_state \<Rightarrow> (U8_t \<times> uart_state) option" where
  "AT32_HalUartBufferDataAmountGet = HalUartBufferDataAmountGet"

definition AT32_HalUartBufferStatusGet :: "ptr \<Rightarrow> uart_state \<Rightarrow> (U8_t \<times> uart_state) option" where
  "AT32_HalUartBufferStatusGet = HalUartBufferStatusGet"

definition AT32_HalUartBufferContains :: "ptr \<Rightarrow> U8_t \<Rightarrow> uart_state \<Rightarrow> (U8_t \<times> uart_state) option" where
  "AT32_HalUartBufferContains = HalUartBufferContains"

subsection \<open>What the calls do to the interrupt flag\<close>

text \<open>The interrupt flag of the processor after a series of calls.\<close>

fun irq_after :: "at32_call list \<Rightarrow> bool \<Rightarrow> bool" where
  "irq_after [] e = e"
| "irq_after (c # cs) e = irq_after cs (if c = cpu_irq_enable then True else if c = cpu_irq_disable then False else e)"

text \<open>
  Setting up a timer turns interrupts on, also inside a critical section, although the kernel counts critical sections; the
  set-up of the OS timer of the AT32UC3A does not look at the prescaler and the overflow value that the kernel has computed.
\<close>

lemma HalTimerInit_enables: "irq_after (HalTimerInit bus_hz h) e"
  by (simp add: HalTimerInit_def)

lemma AT32_timer_fixed: "AT32_PortOsTimerInit tc prescaler ovf = AT32_PortOsTimerInit tc 8 8999"
  by (simp add: AT32_PortOsTimerInit_def)

lemma AT32_SendString_calls:
  "0 \<notin> set cs \<Longrightarrow> AT32_HalUartSendString ch (cs @ 0 # rest) = Some (map (usart_serial_putchar ch) cs)"
  by (induction cs) (auto simp: AT32_HalUartSendChar_def)

end
