(* ===== verification/SemProps.thy ===== *)
theory SemProps
  imports Access Semaphore Sample
begin

text \<open>
  Semaphores above the lists: the entry of a system call for a task that waits for nothing, and the binary semaphore from one
  acquisition to the next.
\<close>

subsection \<open>Entering a system call\<close>

text \<open>The running task, whose node is not locked, listens to the events with the IDs of \<open>es\<close> only.\<close>

definition running_task :: "'a task_state_scheme \<Rightarrow> ptr list \<Rightarrow> bool" where
  "running_task s es \<longleftrightarrow> searchable s (LIn (TcbRunning s)) es \<and> list_unlocked s (LIn (TcbRunning s)) \<and>
     (\<exists>n. nodes s (kr_tcb_running (KernelReg s)) = Some n \<and> node_lock n = 0) \<and> kr_tcb_running (KernelReg s) \<noteq> NULL \<and>
     kr_lock (KernelReg s) < 254"

lemma OsIsrNestCountGet_ok: "crit_ok s \<Longrightarrow> \<exists>n. OsIsrNestCountGet s = Some (n, s)"
  by (cases s, cases "KernelReg s") (auto simp: OsIsrNestCountGet_def KERNEL_REG_LOCK_def KERNEL_REG_UNLOCK_def crit_ok_def)

lemma no_listener:
  assumes "crit_ok s" and "searchable s l es" and "list_unlocked s l" and "event_id src code \<notin> nid s ` set es"
  shows "EventListContainsEvent l src code s = Some (NULL, s)"
proof -
  obtain h where "EventToHash src code = Some h" using EventToHash_total by blast
  then show ?thesis
    using ListSearch_ok [OF assms(1-3), of "ucast h"] find_id_absent [of "ucast h" s es] assms(4)
    by (simp add: EventListContainsEvent_def event_id_def ListNodeChildGet_def)
qed

lemma SYS_CALL_EVENT_HANDLE_ok:
  assumes "crit_ok s" and "running_task s es" and "event_id src code \<notin> nid s ` set es"
  shows "SYS_CALL_EVENT_HANDLE src code s = Some (OS_RES_FAIL, s)"
proof -
  obtain n where n: "OsIsrNestCountGet s = Some (n, s)" using OsIsrNestCountGet_ok [OF assms(1)] by blast
  have "EventListContainsEvent (LIn (TcbRunning s)) src code s = Some (NULL, s)"
    using assms by (intro no_listener) (auto simp: running_task_def)
  then show ?thesis using n by (simp add: SYS_CALL_EVENT_HANDLE_def KSysCallPoll_def TaskPoll_def)
qed

lemma sys_call_enter_ok:
  "crit_ok s \<Longrightarrow> running_task s es \<Longrightarrow> event_id src code \<notin> nid s ` set es \<Longrightarrow> sys_call_enter src code rest s = rest OS_RES_FAIL s"
  using SYS_CALL_EVENT_HANDLE_ok [of s es src code] by (simp add: sys_call_enter_def)

lemma node_lock_set_back: "nodes s x = Some n \<Longrightarrow> node_lock n = 0 \<Longrightarrow> node_lock_set x 0 (node_lock_set x v s) = s"
  by (simp add: node_lock_set_def fun_upd_idem)

lemma KCoreTaskRunningGet_ok:
  assumes "crit_ok s" and "nodes s (kr_tcb_running (KernelReg s)) = Some n" and "node_lock n = 0"
    and "kr_tcb_running (KernelReg s) \<noteq> NULL" and "kr_lock (KernelReg s) < 254"
  shows "KCoreTaskRunningGet s = Some (node_id n, s)"
proof -
  let ?r = "kr_tcb_running (KernelReg s)" and ?s = "s\<lparr>KernelReg := (KernelReg s)\<lparr>kr_lock := kr_lock (KernelReg s) + 1\<rparr>\<rparr>"
  have "kr_lock (KernelReg s) + 1 < 255" using assms(5) by (simp add: word_less_nat_alt unat_inc)
  then have c: "crit_ok ?s" using assms(1) by (simp add: crit_ok_def)
  have n: "nodes ?s ?r = Some n" using assms(2) by simp
  let ?l = "node_lock_set ?r (access_lock LIST_LOCK_MODE_READ) ?s"
  have "ListNodeLock ?r LIST_LOCK_MODE_READ ?s = Some (OS_RES_OK, ?l)" using node_lock_ops(1) [OF c n assms(4,3)] by simp
  moreover have "ListNodeUnlock ?r ?l = Some (OS_RES_OK, node_lock_set ?r 0 ?l)"
    using node_lock_ops(2) [of ?l ?r] c n assms(4) node_lock_set_node [OF n] by simp
  moreover have "node_lock_set ?r 0 ?l = ?s" by (rule node_lock_set_back [OF n assms(3)])
  moreover have "ListNodeIdGet ?r ?l = Some (node_id n)"
    using assms(4) node_lock_set_node [OF n] by (simp add: ListNodeIdGet_def node_at_def)
  moreover have "kr_lock (KernelReg s) < 255" using assms(1) by (simp add: crit_ok_def)
  ultimately show ?thesis
    by (cases s, cases "KernelReg s") (simp add: KCoreTaskRunningGet_def KERNEL_REG_LOCK_def KERNEL_REG_UNLOCK_def Let_def)
qed

subsection \<open>Binary semaphores\<close>

text \<open>The binary semaphore \<open>x\<close> with control block \<open>m\<close>; the running task is not waiting for its release.\<close>

definition binary_sem :: "'a sem_state_scheme \<Rightarrow> ptr list \<Rightarrow> ptr list \<Rightarrow> ptr \<Rightarrow> Sem_t \<Rightarrow> bool" where
  "binary_sem s es xs x m \<longleftrightarrow> crit_ok s \<and> running_task s es \<and> object_list s SemList xs \<and> x \<in> set xs \<and> sem_at x s = Some m \<and>
     sem_type m = SEMAPHORE_TYPE_MUTEX_BINARY \<and> event_id (nid s x) SEM_EVENT_RELEASE \<notin> nid s ` set es \<and>
     kr_tcb_running (KernelReg s) \<noteq> x"

lemma binary_sem_node:
  assumes "binary_sem s es xs x m"
  obtains n where "nodes s x = Some n" "child n = x" "node_lock n = 0" "x \<noteq> NULL"
proof -
  have ol: "object_list s SemList xs" "x \<in> set xs" using assms by (simp_all add: binary_sem_def)
  then show thesis using that object_list_nodes [OF ol] by (auto simp: object_list_def)
qed

lemma binary_sem_update:
  assumes "binary_sem s es xs x m" and "sem_type m' = SEMAPHORE_TYPE_MUTEX_BINARY"
  shows "binary_sem (s\<lparr>OsHeap := h, sems := (sems s)(x \<mapsto> m')\<rparr>) es xs x m'"
proof -
  let ?t = "s\<lparr>OsHeap := h, sems := (sems s)(x \<mapsto> m')\<rparr>"
  have "searchable ?t l ys = searchable s l ys" "list_unlocked ?t l = list_unlocked s l" "nid ?t = nid s" for l ys
    by (simp_all add: searchable_def is_list_def list_unlocked_def ll_at_def node_at_def nid_def [abs_def])
  then have "running_task ?t es = running_task s es" "object_list ?t SemList xs = object_list s SemList xs" "nid ?t = nid s"
    by (simp_all add: running_task_def object_list_def)
  moreover have "crit_ok ?t = crit_ok s" by (simp add: crit_ok_def)
  moreover have "sem_at x ?t = Some m'" using assms(1) by (simp add: binary_sem_def sem_at_def split: if_splits)
  ultimately show ?thesis using assms by (simp add: binary_sem_def)
qed

text \<open>A block on the locked node of the semaphore, in the words of what it does to the control blocks and the heap.\<close>

lemma sem_locked:
  assumes "binary_sem s es xs x m"
  defines "l \<equiv> node_lock_set x 0x81 s"
  shows "ListNodeChildGet x l = Some x" "sem_at x l = Some m" "sems l = sems s" "OsHeap l = OsHeap s" "x \<noteq> NULL"
    "heap_index p l = heap_index p s" "TotalHeapSize l = TotalHeapSize s"
proof -
  obtain n where n: "nodes s x = Some n" "child n = x" "node_lock n = 0" "x \<noteq> NULL" using binary_sem_node [OF assms(1)] by blast
  show "ListNodeChildGet x l = Some x" using n by (simp add: ListNodeChildGet_def node_at_def l_def node_lock_set_node [OF n(1)])
  show "sem_at x l = Some m" using assms(1) by (simp add: binary_sem_def sem_at_def l_def node_lock_set_def split: if_splits)
  show "sems l = sems s" "OsHeap l = OsHeap s" "x \<noteq> NULL" "heap_index p l = heap_index p s" "TotalHeapSize l = TotalHeapSize s"
    using n(4) by (simp_all add: l_def node_lock_set_def heap_index_def)
qed

lemma sem_access:
  assumes "binary_sem s es xs x m"
    and "block x (node_lock_set x 0x81 s) = Some (r, (node_lock_set x 0x81 s)\<lparr>OsHeap := h, sems := f\<rparr>)"
  shows "LIST_NODE_ACCESS LIST_LOCK_MODE_WRITE SemList (nid s x) block d s = Some (r, s\<lparr>OsHeap := h, sems := f\<rparr>)"
proof -
  obtain n where n: "nodes s x = Some n" "child n = x" "node_lock n = 0" "x \<noteq> NULL" using binary_sem_node [OF assms(1)] by blast
  let ?l = "node_lock_set x (access_lock LIST_LOCK_MODE_WRITE) s"
  have "access_lock LIST_LOCK_MODE_WRITE = 0x81" by (simp add: access_lock_def LIST_LOCK_MODE_WRITE_def LIST_LOCK_MODE_READ_def)
  then have b: "block x ?l = Some (r, ?l\<lparr>OsHeap := h, sems := f\<rparr>)" using assms(2) by simp
  have "crit_ok s" "object_list s SemList xs" "x \<in> set xs" using assms(1) by (simp_all add: binary_sem_def)
  moreover have "crit_ok (?l\<lparr>OsHeap := h, sems := f\<rparr>)" using calculation(1) by (simp add: crit_ok_def node_lock_set_def)
  ultimately have "LIST_NODE_ACCESS LIST_LOCK_MODE_WRITE SemList (nid s x) block d s = Some (r, node_lock_set x 0 (?l\<lparr>OsHeap := h, sems := f\<rparr>))"
    using node_lock_set_node [OF n(1)] by (intro LIST_NODE_ACCESS_ok [where block = block, OF _ _ _ _ b]) auto
  moreover have "node_lock_set x 0 (?l\<lparr>OsHeap := h, sems := f\<rparr>) = s\<lparr>OsHeap := h, sems := f\<rparr>"
    using n(1,3) by (simp add: node_lock_set_def fun_upd_idem)
  ultimately show ?thesis by simp
qed

lemma SemaphoreRelease_eq:
  assumes "binary_sem s es xs x m"
  shows "SemaphoreRelease (nid s x) s =
    (if aq_cnt m = 1 then Some (OS_RES_OK, s\<lparr>sems := (sems s)(x \<mapsto> m\<lparr>aq_cnt := 0, owner_task_ids := NULL\<rparr>)\<rparr>)
     else Some (OS_RES_LOCKED, s))"
proof -
  note l = sem_locked [OF assms]
  have m: "sem_type m = SEMAPHORE_TYPE_MUTEX_BINARY" using assms by (simp add: binary_sem_def)
  let ?l = "node_lock_set x 0x81 s"
  have "?l\<lparr>OsHeap := OsHeap s, sems := sems s\<rparr> = ?l" by (simp add: node_lock_set_def)
  moreover have "?l\<lparr>OsHeap := OsHeap s, sems := f\<rparr> = ?l\<lparr>sems := f\<rparr>" for f by (simp add: node_lock_set_def)
  moreover have "SemaphoreRelease (nid s x) s = Some (if aq_cnt m = 1 then OS_RES_OK else OS_RES_LOCKED, s\<lparr>OsHeap := OsHeap s,
      sems := (if aq_cnt m = 1 then (sems s)(x \<mapsto> m\<lparr>aq_cnt := 0, owner_task_ids := NULL\<rparr>) else sems s)\<rparr>)"
    unfolding SemaphoreRelease_def by (rule sem_access [OF assms]) (use calculation l m in \<open>simp add: sem_update_def\<close>)
  ultimately show ?thesis by simp
qed

lemma binary_sem_enter:
  "binary_sem s es xs x m \<Longrightarrow> sys_call_enter (nid s x) SEM_EVENT_RELEASE rest s = rest OS_RES_FAIL s"
  by (intro sys_call_enter_ok [where es = es]) (simp_all add: binary_sem_def)

lemma binary_sem_has_running: "binary_sem s es xs x m \<Longrightarrow> \<exists>k. nodes s (kr_tcb_running (KernelReg s)) = Some k"
  by (auto simp: binary_sem_def running_task_def)

lemma binary_sem_running:
  assumes "binary_sem s es xs x m" and "nodes s (kr_tcb_running (KernelReg s)) = Some k"
  shows "KCoreTaskRunningGet ((node_lock_set x 0x81 s)\<lparr>sems := f\<rparr>) = Some (node_id k, (node_lock_set x 0x81 s)\<lparr>sems := f\<rparr>)"
  using assms by (intro KCoreTaskRunningGet_ok) (auto simp: binary_sem_def running_task_def crit_ok_def node_lock_set_def)

lemma SemaphoreAcquire_free:
  assumes sem: "binary_sem s es xs x m" and "aq_cnt m = 0" and own: "heap_index (owner_task_ids m) s = Some i" "i + 4 \<le> unat (TotalHeapSize s)"
    and k: "nodes s (kr_tcb_running (KernelReg s)) = Some k"
  shows "SemaphoreAcquire (nid s x) timeout s = Some (OS_RES_OK, s\<lparr>OsHeap := heap_put32 (OsHeap s) i (node_id k),
    sems := (sems s)(x \<mapsto> m\<lparr>aq_cnt := 1\<rparr>)\<rparr>)"
proof -
  note l = sem_locked [OF sem]
  have m: "sem_type m = SEMAPHORE_TYPE_MUTEX_BINARY" using sem by (simp add: binary_sem_def)
  let ?l = "node_lock_set x 0x81 s"
  note run = binary_sem_running [OF sem k]
  have "unat (word_of_nat i :: U32_t) = i" using own(2) U32_less [of "TotalHeapSize s"] by (simp add: unat_of_nat take_bit_nat_eq_self)
  moreover have "heap_index p (?l\<lparr>sems := f\<rparr>) = heap_index p ?l" for p f by (simp add: heap_index_def)
  moreover have "?l\<lparr>sems := f, OsHeap := h\<rparr> = ?l\<lparr>OsHeap := h, sems := f\<rparr>" for f h by (simp add: node_lock_set_def)
  ultimately have w: "word_write (owner_task_ids m) v (?l\<lparr>sems := f\<rparr>) = Some (?l\<lparr>OsHeap := heap_put32 (OsHeap s) i v, sems := f\<rparr>)" for v f
    using own l(4,6,7) by (simp add: word_write_def Heap_write32_def)
  show ?thesis
    unfolding SemaphoreAcquire_def binary_sem_enter [OF sem]
    by (rule sem_access [OF sem]) (use l m assms(2) run w in \<open>simp add: sem_update_def\<close>)
qed


lemma SemaphoreAcquire_null:
  assumes sem: "binary_sem s es xs x m" and "aq_cnt m = 0" and "owner_task_ids m = NULL"
  shows "SemaphoreAcquire (nid s x) timeout s = None"
proof -
  note l = sem_locked [OF sem]
  let ?l = "node_lock_set x 0x81 s"
  have m: "sem_type m = SEMAPHORE_TYPE_MUTEX_BINARY" "crit_ok s" "object_list s SemList xs" "x \<in> set xs" using sem by (simp_all add: binary_sem_def)
  obtain n where n: "nodes s x = Some n" "child n = x" "node_lock n = 0" "x \<noteq> NULL" using binary_sem_node [OF sem] by blast
  obtain k where k: "nodes s (kr_tcb_running (KernelReg s)) = Some k" using binary_sem_has_running [OF sem] by blast
  have "word_write NULL v u = None" for v and u :: "'a sem_state_scheme" by (simp add: word_write_def heap_index_def)
  moreover have "ListNodeLock x LIST_LOCK_MODE_WRITE s = Some (OS_RES_OK, ?l)"
    using node_lock_ops(1) [OF m(2) n(1,4,3), of LIST_LOCK_MODE_WRITE] by (simp add: access_lock_def LIST_LOCK_MODE_WRITE_def LIST_LOCK_MODE_READ_def)
  ultimately show ?thesis
    unfolding SemaphoreAcquire_def binary_sem_enter [OF sem]
    using l(1-3) m(1) assms(2,3) n(4) binary_sem_running [OF sem k] ListSearch_object [OF m(2-4)] by (simp add: LIST_NODE_ACCESS_def sem_update_def)
qed

text \<open>
  C36. A binary semaphore works once: the first task that acquires it gets it and is written down as its owner, the release
  gives it back and a second release is refused; but the release also drops the pointer to the owners, so the next
  acquisition writes through a null pointer.
\<close>

theorem semaphore_works_once:
  assumes "binary_sem s es xs x m" and "aq_cnt m = 0" and "heap_index (owner_task_ids m) s = Some i" and "i + 4 \<le> unat (TotalHeapSize s)"
    and "nodes s (kr_tcb_running (KernelReg s)) = Some k"
  shows "\<exists>t u. SemaphoreAcquire (nid s x) timeout s = Some (OS_RES_OK, t) \<and> sem_at x t = Some (m\<lparr>aq_cnt := 1\<rparr>) \<and>
      word_read (owner_task_ids m) t = Some (node_id k) \<and>
    SemaphoreRelease (nid s x) t = Some (OS_RES_OK, u) \<and> sem_at x u = Some (m\<lparr>aq_cnt := 0, owner_task_ids := NULL\<rparr>) \<and>
    SemaphoreRelease (nid s x) u = Some (OS_RES_LOCKED, u) \<and> SemaphoreAcquire (nid s x) timeout' u = None"
proof -
  let ?t = "s\<lparr>OsHeap := heap_put32 (OsHeap s) i (node_id k), sems := (sems s)(x \<mapsto> m\<lparr>aq_cnt := 1\<rparr>)\<rparr>"
  let ?u = "?t\<lparr>OsHeap := OsHeap ?t, sems := (sems ?t)(x \<mapsto> m\<lparr>aq_cnt := 0, owner_task_ids := NULL\<rparr>)\<rparr>"
  have m: "sem_type m = SEMAPHORE_TYPE_MUTEX_BINARY" "x \<noteq> NULL"
    using assms(1) sem_locked(5) [OF assms(1)] by (simp_all add: binary_sem_def)
  have t: "binary_sem ?t es xs x (m\<lparr>aq_cnt := 1\<rparr>)" using m by (intro binary_sem_update [OF assms(1)]) simp
  have u: "binary_sem ?u es xs x (m\<lparr>aq_cnt := 0, owner_task_ids := NULL\<rparr>)" using m by (intro binary_sem_update [OF t]) simp
  have n: "nid ?t = nid s" "nid ?u = nid s" by (simp_all add: nid_def [abs_def])
  have ops: "SemaphoreAcquire (nid s x) timeout s = Some (OS_RES_OK, ?t)" "SemaphoreRelease (nid s x) ?t = Some (OS_RES_OK, ?u)"
    "SemaphoreRelease (nid s x) ?u = Some (OS_RES_LOCKED, ?u)" "SemaphoreAcquire (nid s x) timeout' ?u = None"
    using SemaphoreAcquire_free [OF assms] SemaphoreRelease_eq [OF t] SemaphoreRelease_eq [OF u] SemaphoreAcquire_null [OF u] n by simp_all
  have "unat (word_of_nat i :: U32_t) = i"
    using assms(4) U32_less [of "TotalHeapSize s"] by (simp add: unat_of_nat take_bit_nat_eq_self)
  moreover have "heap_index p ?t = heap_index p s" for p by (simp add: heap_index_def)
  ultimately have "word_read (owner_task_ids m) ?t = Some (node_id k)"
    using assms(3,4) by (simp add: word_read_def Heap_read32_def heap_get_put32)
  then show ?thesis using m(2) ops by (intro exI [of _ ?t] exI [of _ ?u]) (simp add: sem_at_def)
qed

text \<open>One semaphore at 0x1004, whose owner is kept at 0x1030, and the running task at 0x1050.\<close>

definition sem_start :: shell_state where
  "sem_start = shell_bss\<lparr>HeapBase := 0x1000, TotalHeapSize := 128,
     nodes := [0x1004 \<mapsto> sample_node 0x06000001 0x1004 NULL NULL, 0x1050 \<mapsto> sample_node 0x02000001 0x1050 NULL NULL],
     lists := [SemList \<mapsto> sample_list 0x1004 0x1004 1, LIn 0x1050 \<mapsto> sample_list NULL NULL 0],
     sems := [0x1004 \<mapsto> \<lparr>sem_type = 1, max_cnt = 1, aq_cnt = 0, owner_task_ids = 0x1030\<rparr>],
     TcbRunning := 0x1050, KernelReg := (KernelReg core_bss)\<lparr>kr_tcb_running := 0x1050\<rparr>\<rparr>"

lemma sem_start_ok: "binary_sem sem_start [] [0x1004] 0x1004 \<lparr>sem_type = 1, max_cnt = 1, aq_cnt = 0, owner_task_ids = 0x1030\<rparr>"
proof -
  have reg: "KernelReg sem_start = (KernelReg core_bss)\<lparr>kr_tcb_running := 0x1050\<rparr>" "GlobalIntEnabled sem_start" "TcbRunning sem_start = 0x1050"
    by (simp_all add: sem_start_def)
  have "crit_ok sem_start" by (simp add: crit_ok_def reg core_bss_def)
  moreover have "running_task sem_start []"
    unfolding running_task_def reg
    by (simp add: searchable_def is_list_def list_unlocked_def ll_at_def) (simp add: sem_start_def core_bss_def SemList_def)
  moreover have "object_list sem_start SemList [0x1004]"
    by (simp add: object_list_def searchable_def is_list_def list_unlocked_def ll_at_def sem_start_def nid_def node_at_def SemList_def)
  moreover have "sem_at 0x1004 sem_start = Some \<lparr>sem_type = 1, max_cnt = 1, aq_cnt = 0, owner_task_ids = 0x1030\<rparr>"
    by (simp add: sem_at_def sem_start_def)
  ultimately show ?thesis by (simp add: binary_sem_def reg SEMAPHORE_TYPE_MUTEX_BINARY_def)
qed

theorem semaphore_works_once_witness:
  "\<exists>t u. SemaphoreAcquire 0x06000001 100 sem_start = Some (OS_RES_OK, t) \<and> SemaphoreRelease 0x06000001 t = Some (OS_RES_OK, u) \<and>
     SemaphoreAcquire 0x06000001 100 u = None"
proof -
  have i: "heap_index (owner_task_ids \<lparr>sem_type = 1, max_cnt = 1, aq_cnt = 0, owner_task_ids = 0x1030\<rparr>) sem_start = Some 0x30"
    by (simp add: heap_index_def sem_start_def)
  have "0x30 + 4 \<le> unat (TotalHeapSize sem_start)" "nid sem_start 0x1004 = 0x06000001"
    "nodes sem_start (kr_tcb_running (KernelReg sem_start)) = Some (sample_node 0x02000001 0x1050 NULL NULL)"
    by (simp_all add: sem_start_def nid_def)
  then show ?thesis using semaphore_works_once [OF sem_start_ok _ i, where timeout = 100 and timeout' = 100] by auto
qed

end
