(* ===== verification/TaskProps.thy ===== *)
theory TaskProps
  imports Access Sample
begin

text \<open>
  The priority of a task, which combines its category with a minor priority, from the setter to the getter.
\<close>

subsection \<open>The combined priority\<close>

text \<open>
  A category of at most 4 and a minor priority from 1 to 5 make a priority of at most 24 from which both can be read off, so
  tasks are ordered by category first.
\<close>

definition prio_of :: "TaskCat_t \<Rightarrow> Prio_t \<Rightarrow> Prio_t \<Rightarrow> bool" where
  "prio_of cat minor P \<longleftrightarrow> unat P \<le> 24 \<and> unat P div 5 = unat cat \<and> unat P mod 5 + 1 = unat minor"

lemma prio_of_calculated:
  assumes "cat \<le> TASK_CAT_OS" and "OS_TASK_PRIO_LIMIT_LOW \<le> minor" and "minor \<le> OS_TASK_PRIO_LIMIT_HIGH"
  shows "prio_of cat minor (KTaskCalculatePriority cat minor)"
proof -
  have b: "unat cat \<le> 4" "1 \<le> unat minor" "unat minor \<le> 5"
    using assms by (simp_all add: TASK_CAT_OS_def OS_TASK_PRIO_LIMIT_LOW_def OS_TASK_PRIO_LIMIT_HIGH_def word_le_nat_alt)
  have "uint cat * 5 + uint minor - 1 = int (unat cat * 5 + unat minor - 1)" using b(2) by (simp add: of_nat_diff)
  then have "KTaskCalculatePriority cat minor = word_of_nat (unat cat * 5 + unat minor - 1)" by (simp add: KTaskCalculatePriority_def)
  moreover have "unat (word_of_nat n :: Prio_t) = n" if "n \<le> 24" for n using that by (simp add: unat_of_nat take_bit_nat_eq_self)
  from this [of "unat cat * 5 + unat minor - 1"]
  have "unat (word_of_nat (unat cat * 5 + unat minor - 1) :: Prio_t) = unat cat * 5 + unat minor - 1" using b by linarith
  moreover obtain j where "unat minor = Suc j" "j < 5" using b by (cases "unat minor") auto
  ultimately show ?thesis using b unfolding prio_of_def by simp
qed

lemma prio_of_less:
  assumes "prio_of c a P" and "prio_of d b Q"
  shows "P < Q \<longleftrightarrow> c < d \<or> c = d \<and> a < b"
proof -
  have "unat P = 5 * unat c + (unat a - 1)" "unat Q = 5 * unat d + (unat b - 1)" "unat a - 1 < 5" "unat b - 1 < 5" "1 \<le> unat a" "1 \<le> unat b"
    using assms div_mult_mod_eq [of "unat P" 5] div_mult_mod_eq [of "unat Q" 5] by (auto simp: prio_of_def)
  then show ?thesis unfolding word_less_nat_alt word_unat_eq_iff by linarith
qed

subsection \<open>Setting and getting it\<close>

text \<open>The task \<open>x\<close>, in the list of tasks or among the waiting ones.\<close>

definition listed_task :: "'a task_state_scheme \<Rightarrow> ptr list \<Rightarrow> ptr list \<Rightarrow> ptr \<Rightarrow> bool" where
  "listed_task s xs ys x \<longleftrightarrow> crit_ok s \<and> object_list s TcbList xs \<and> object_list s TcbWaitList ys \<and>
     (x \<in> set xs \<or> x \<in> set ys \<and> nid s x \<notin> nid s ` set xs) \<and> nid s x \<noteq> ID_INVALID"

lemma tcb_or_running_listed:
  assumes "listed_task s xs ys x"
  shows "tcb_or_running (nid s x) s = Some (x, s)"
proof -
  have l: "crit_ok s" "object_list s TcbList xs" "object_list s TcbWaitList ys" "nid s x \<noteq> ID_INVALID"
    using assms by (simp_all add: listed_task_def)
  have found: "ListNodeChildGet x s = Some x \<and> x \<noteq> NULL" if "object_list s ll zs" "x \<in> set zs" for ll zs
    using that object_list_nodes [OF that] by (auto simp: object_list_def ListNodeChildGet_def node_at_def)
  show ?thesis
  proof (cases "x \<in> set xs")
    case True
    then show ?thesis
      using l ListSearch_object [OF l(1,2) True] found [OF l(2) True] by (simp add: tcb_or_running_def KTcbFromId_def)
  next
    case False
    then have x: "x \<in> set ys" "nid s x \<notin> nid s ` set xs" using assms by (auto simp: listed_task_def)
    then show ?thesis
      using l ListSearch_object [OF l(1,3) x(1)] ListSearch_no_object [OF l(1,2) x(2)] found [OF l(3) x(1)]
      by (simp add: tcb_or_running_def KTcbFromId_def)
  qed
qed

lemma listed_task_node: "listed_task s xs ys x \<Longrightarrow> \<exists>n. nodes s x = Some n \<and> node_lock n = 0 \<and> x \<noteq> NULL"
proof -
  assume t: "listed_task s xs ys x"
  have "\<exists>n. nodes s x = Some n \<and> node_lock n = 0 \<and> x \<noteq> NULL" if "object_list s ll zs" "x \<in> set zs" for ll zs
    using that object_list_nodes [OF that] by (auto simp: object_list_def)
  then show ?thesis using t unfolding listed_task_def by blast
qed

lemma listed_task_tcbs: "listed_task s xs ys x \<Longrightarrow> listed_task (s\<lparr>tcbs := f\<rparr>) xs ys x"
proof -
  let ?t = "s\<lparr>tcbs := f\<rparr>"
  have "searchable ?t l zs = searchable s l zs" "list_unlocked ?t l = list_unlocked s l" "nid ?t = nid s" "crit_ok ?t = crit_ok s" for l zs
    by (simp_all add: searchable_def is_list_def list_unlocked_def ll_at_def node_at_def nid_def [abs_def] crit_ok_def)
  then have "object_list ?t l zs = object_list s l zs" "nid ?t = nid s" "crit_ok ?t = crit_ok s" for l zs by (simp_all add: object_list_def)
  then show "listed_task s xs ys x \<Longrightarrow> listed_task ?t xs ys x" by (simp add: listed_task_def)
qed

text \<open>An access to the node of a task, and the state behind the lock.\<close>

lemma listed_task_access:
  assumes "listed_task s xs ys x" and "mode = LIST_LOCK_MODE_READ \<or> mode = LIST_LOCK_MODE_WRITE"
  defines "l \<equiv> node_lock_set x (access_lock mode) s"
  shows "ListNodeLock x mode s = Some (OS_RES_OK, l)"
    "ListNodeUnlock x (l\<lparr>tcbs := f\<rparr>) = Some (OS_RES_OK, s\<lparr>tcbs := f\<rparr>)" "ListNodeUnlock x l = Some (OS_RES_OK, s)"
    "tcb_at x l = tcb_at x s" "tcbs l = tcbs s"
proof -
  have c: "crit_ok s" using assms(1) by (simp add: listed_task_def)
  obtain n where n: "nodes s x = Some n" "node_lock n = 0" "x \<noteq> NULL" using listed_task_node [OF assms(1)] by blast
  show "ListNodeLock x mode s = Some (OS_RES_OK, l)" unfolding l_def by (rule node_lock_ops(1) [OF c n(1,3,2) assms(2)])
  have undo: "node_lock_set x 0 (l\<lparr>tcbs := f\<rparr>) = s\<lparr>tcbs := f\<rparr>" "node_lock_set x 0 l = s"
    using n by (simp_all add: l_def node_lock_set_def fun_upd_idem)
  have "crit_ok (l\<lparr>tcbs := f\<rparr>) = crit_ok l" by (simp add: crit_ok_def)
  then have "nodes (l\<lparr>tcbs := f\<rparr>) x = Some (n\<lparr>node_lock := access_lock mode\<rparr>)" "crit_ok (l\<lparr>tcbs := f\<rparr>)"
    "nodes l x = Some (n\<lparr>node_lock := access_lock mode\<rparr>)" "crit_ok l"
    using n(1) c by (simp_all add: l_def node_lock_set_node)
  then show "ListNodeUnlock x (l\<lparr>tcbs := f\<rparr>) = Some (OS_RES_OK, s\<lparr>tcbs := f\<rparr>)" "ListNodeUnlock x l = Some (OS_RES_OK, s)"
    using node_lock_ops(2) [where s = "l\<lparr>tcbs := f\<rparr>" and x = x and mode = mode]
      node_lock_ops(2) [where s = l and x = x and mode = mode] n(3) undo by auto
  show "tcb_at x l = tcb_at x s" "tcbs l = tcbs s" by (simp_all add: l_def tcb_at_def node_lock_set_def)
qed

text \<open>
  C37. Setting the priority of a task: a minor priority from 1 to 5 is accepted and combined with the category of the task,
  from which both can be told, and the getter reads back just that priority; nothing else in the system changes. Any other
  value is refused. \<^verbatim>\<open>Task.h\<close> documents that the getter returns 1 to 5; it returns the combined priority, 0 to 24.
\<close>

theorem task_priority_set:
  assumes "listed_task s xs ys x" and "tcb_at x s = Some t" and "category t \<le> TASK_CAT_OS"
  shows "if OS_TASK_PRIO_LIMIT_LOW \<le> p \<and> p \<le> OS_TASK_PRIO_LIMIT_HIGH
    then \<exists>P. prio_of (category t) p P \<and>
      TaskPrioritySet (nid s x) p s = Some (OS_RES_OK, s\<lparr>tcbs := (tcbs s)(x \<mapsto> t\<lparr>priority := P\<rparr>)\<rparr>) \<and>
      TaskPriorityGet (nid s x) (s\<lparr>tcbs := (tcbs s)(x \<mapsto> t\<lparr>priority := P\<rparr>)\<rparr>)
        = Some (P, s\<lparr>tcbs := (tcbs s)(x \<mapsto> t\<lparr>priority := P\<rparr>)\<rparr>)
    else TaskPrioritySet (nid s x) p s = Some (OS_RES_INVALID_ARGUMENT, s)"
proof (cases "OS_TASK_PRIO_LIMIT_LOW \<le> p \<and> p \<le> OS_TASK_PRIO_LIMIT_HIGH")
  case True
  let ?P = "KTaskCalculatePriority (category t) p"
  let ?u = "s\<lparr>tcbs := (tcbs s)(x \<mapsto> t\<lparr>priority := ?P\<rparr>)\<rparr>"
  have x: "x \<noteq> NULL" using listed_task_node [OF assms(1)] by blast
  have w: "LIST_LOCK_MODE_WRITE = LIST_LOCK_MODE_READ \<or> LIST_LOCK_MODE_WRITE = LIST_LOCK_MODE_WRITE"
    and r: "LIST_LOCK_MODE_READ = LIST_LOCK_MODE_READ \<or> LIST_LOCK_MODE_READ = LIST_LOCK_MODE_WRITE" by simp_all
  have "TaskPrioritySet (nid s x) p s = Some (OS_RES_OK, ?u)"
    using True x assms(2) tcb_or_running_listed [OF assms(1)] listed_task_access [OF assms(1) w]
    by (simp add: TaskPrioritySet_def tcb_update_def not_less)
  moreover have u: "listed_task ?u xs ys x" "nid ?u x = nid s x" "tcb_at x ?u = Some (t\<lparr>priority := ?P\<rparr>)"
    using listed_task_tcbs [OF assms(1)] x by (simp_all add: tcb_at_def nid_def)
  have "TaskPriorityGet (nid s x) ?u = Some (?P, ?u)"
    using x u(2,3) tcb_or_running_listed [OF u(1)] listed_task_access [OF u(1) r] by (simp add: TaskPriorityGet_def)
  ultimately show ?thesis using True prio_of_calculated [OF assms(3)] by auto
next
  case False
  then show ?thesis by (auto simp: TaskPrioritySet_def)
qed


text \<open>One task at 0x1004, of the high category.\<close>

definition task_start :: shell_state where
  "task_start = shell_bss\<lparr>nodes := [0x1004 \<mapsto> sample_node 0x02000001 0x1004 NULL NULL],
     lists := [TcbList \<mapsto> sample_list 0x1004 0x1004 1, TcbWaitList \<mapsto> sample_list NULL NULL 0],
     tcbs := [0x1004 \<mapsto> zero_tcb\<lparr>category := TASK_CAT_HIGH\<rparr>]\<rparr>"

theorem task_priority_set_witness:
  "\<exists>P t. TaskPrioritySet 0x02000001 3 task_start = Some (OS_RES_OK, t) \<and> TaskPriorityGet 0x02000001 t = Some (P, t) \<and> unat P = 12"
proof -
  have "listed_task task_start [0x1004] [] 0x1004"
    using shell_bss_crit
    by (simp add: listed_task_def object_list_def searchable_def is_list_def list_unlocked_def ll_at_def task_start_def nid_def node_at_def
        TcbList_def TcbWaitList_def ID_INVALID_def crit_ok_def)
  moreover have "tcb_at 0x1004 task_start = Some (zero_tcb\<lparr>category := TASK_CAT_HIGH\<rparr>)" "nid task_start 0x1004 = 0x02000001"
    by (simp_all add: task_start_def tcb_at_def nid_def)
  ultimately obtain P t where P: "prio_of TASK_CAT_HIGH 3 P" "TaskPrioritySet 0x02000001 3 task_start = Some (OS_RES_OK, t)"
      "TaskPriorityGet 0x02000001 t = Some (P, t)"
    using task_priority_set [of task_start "[0x1004]" "[]" "0x1004" _ 3]
    by (auto simp: TASK_CAT_HIGH_def TASK_CAT_OS_def OS_TASK_PRIO_LIMIT_LOW_def OS_TASK_PRIO_LIMIT_HIGH_def)
  have "unat P = 12" using P(1) div_mult_mod_eq [of "unat P" 5] by (simp add: prio_of_def TASK_CAT_HIGH_def)
  with P(2,3) show ?thesis by blast
qed

end
