(* ===== verification/MessageProps.thy ===== *)
theory MessageProps
  imports SemProps
begin

text \<open>
  Message queues above the object pool, the lists and the events: a queue hands on its messages in the order in which they were
  sent.
\<close>

subsection \<open>Frames\<close>

lemma running_task_keep:
  assumes "running_task s []" and "KernelReg t = KernelReg s" and "TcbRunning t = TcbRunning s"
    and "nodes t (kr_tcb_running (KernelReg s)) = nodes s (kr_tcb_running (KernelReg s))"
    and "lists t (LIn (TcbRunning s)) = lists s (LIn (TcbRunning s))" and "dom (nodes s) \<subseteq> dom (nodes t)"
  shows "running_task t []"
proof -
  have "ll_at (LIn (TcbRunning s)) t = ll_at (LIn (TcbRunning s)) s" using assms(5) by (simp add: ll_at_def)
  moreover have "(\<exists>m. node_at p s = Some m) \<longrightarrow> (\<exists>m. node_at p t = Some m)" for p
    using assms(6) by (auto simp: node_at_def dom_def subset_iff)
  ultimately show ?thesis using assms(1-4) unfolding running_task_def searchable_def is_list_def list_unlocked_def by simp
qed

subsection \<open>The state of a message queue\<close>

text \<open>
  The queue \<open>q\<close>, one of the queues \<open>qs\<close>, with the lock value \<open>v\<close> of its node and the message nodes \<open>xs\<close>; it belongs to the
  running task, which waits for nothing. \<open>evs\<close> are the pending events, and the object pool has room for \<open>m\<close> more messages or events.
\<close>

definition msgq :: "'a message_state_scheme \<Rightarrow> ptr list \<Rightarrow> ptr \<Rightarrow> MessageQueue_t \<Rightarrow> U8_t \<Rightarrow> ptr list \<Rightarrow> ptr list \<Rightarrow> nat \<Rightarrow> bool" where
  "msgq s qs q Q v evs xs m \<longleftrightarrow> (let r = kr_tcb_running (KernelReg s) in
     events_ok s evs 0 \<and> object_slots s m \<and> running_task s [] \<and>
     object_list (node_lock_set q 0 s) MessageQueueList qs \<and> q \<in> set qs \<and> (\<exists>n. nodes s q = Some n \<and> node_lock n = v) \<and>
     message_queues s q = Some Q \<and> nid s r = owner_task Q \<and> nid s q \<noteq> ID_INVALID \<and>
     is_list s (LIn q) xs \<and> list_unlocked s (LIn q) \<and> TcbRunning s \<noteq> q \<and>
     insert r (set qs \<union> set xs) \<subseteq> objects s \<and> r \<notin> set qs \<and> set evs \<inter> insert r (set qs \<union> set xs) = {} \<and>
     set xs \<inter> insert r (set qs) = {} \<and> (\<forall>x \<in> set xs. child (the (nodes s x)) = x \<and> (x, 44) \<in> pool_live (ObjectPoolId s) s))"

lemma msgqD:
  assumes "msgq s qs q Q v evs xs m"
  shows "events_ok s evs 0" "running_task s []" "object_list (node_lock_set q 0 s) MessageQueueList qs" "q \<in> set qs"
    "\<exists>n. nodes s q = Some n \<and> node_lock n = v" "message_queues s q = Some Q" "nid s (kr_tcb_running (KernelReg s)) = owner_task Q"
    "nid s q \<noteq> ID_INVALID" "is_list s (LIn q) xs" "list_unlocked s (LIn q)" "TcbRunning s \<noteq> q"
    "insert (kr_tcb_running (KernelReg s)) (set qs \<union> set xs) \<subseteq> objects s" "kr_tcb_running (KernelReg s) \<notin> set qs"
    "set evs \<inter> insert (kr_tcb_running (KernelReg s)) (set qs \<union> set xs) = {}"
    "set xs \<inter> insert (kr_tcb_running (KernelReg s)) (set qs) = {}" "\<And>x. x \<in> set xs \<Longrightarrow> child (the (nodes s x)) = x"
    "object_slots s m" "\<And>x. x \<in> set xs \<Longrightarrow> (x, 44) \<in> pool_live (ObjectPoolId s) s"
  using assms unfolding msgq_def Let_def by blast+

lemma msgqI:
  assumes "events_ok s evs 0" "running_task s []" "object_list (node_lock_set q 0 s) MessageQueueList qs" "q \<in> set qs"
    "\<exists>n. nodes s q = Some n \<and> node_lock n = v" "message_queues s q = Some Q" "nid s (kr_tcb_running (KernelReg s)) = owner_task Q"
    "nid s q \<noteq> ID_INVALID" "is_list s (LIn q) xs" "list_unlocked s (LIn q)" "TcbRunning s \<noteq> q"
    "insert (kr_tcb_running (KernelReg s)) (set qs \<union> set xs) \<subseteq> objects s" "kr_tcb_running (KernelReg s) \<notin> set qs"
    "set evs \<inter> insert (kr_tcb_running (KernelReg s)) (set qs \<union> set xs) = {}"
    "set xs \<inter> insert (kr_tcb_running (KernelReg s)) (set qs) = {}" "\<And>x. x \<in> set xs \<Longrightarrow> child (the (nodes s x)) = x"
    "object_slots s m" "\<And>x. x \<in> set xs \<Longrightarrow> (x, 44) \<in> pool_live (ObjectPoolId s) s"
  shows "msgq s qs q Q v evs xs m"
  unfolding msgq_def Let_def using assms by blast

lemma msgq_lock:
  assumes "msgq s qs q Q v evs xs m"
  shows "msgq (node_lock_set q w s) qs q Q w evs xs m"
proof -
  let ?t = "node_lock_set q w s"
  note D = msgqD [OF assms]
  obtain n where n: "nodes s q = Some n" using D(5) by blast
  have q: "q \<noteq> kr_tcb_running (KernelReg s)" "q \<notin> set xs" using D(4,13,15) by auto
  have o: "objects ?t = objects s" by (rule objects_cong; simp add: node_lock_set_def)
  have p: "object_slots ?t m = object_slots s m" "pool_live (ObjectPoolId ?t) ?t = pool_live (ObjectPoolId s) s"
    using objects_kept_cong(2,3) [of ?t s] by (simp_all add: node_lock_set_def)
  have f: "TcbRunning ?t = TcbRunning s" "message_queues ?t = message_queues s" "node_lock_set q 0 ?t = node_lock_set q 0 s"
    using n by (simp_all add: node_lock_set_def)
  have "running_task ?t []"
    using n q(1) [symmetric] by (intro running_task_keep [OF D(2)]) (simp_all add: f dom_node_lock_set)
  moreover have "is_list ?t (LIn q) xs" using q(2) by (intro is_list_keep [OF D(9)]) (auto simp: node_lock_set_def)
  moreover have "child (the (nodes ?t x)) = child (the (nodes s x))" for x by (simp add: node_lock_set_def)
  moreover have "nid ?t = nid s" "\<exists>k. nodes ?t q = Some k \<and> node_lock k = w" using n by (simp_all add: node_lock_set_def nid_def [abs_def] fun_eq_iff)
  moreover have "list_unlocked ?t (LIn q)" using D(10) by simp
  moreover have "KernelReg ?t = KernelReg s" by simp
  moreover note events_ok_node_lock_set [OF D(1) n, of w]
  ultimately show ?thesis
    using D(3,4,6-8,11-18) by (intro msgqI) (simp_all only: o p f simp_thms)
qed

text \<open>What the operations on the lists, the pool and the events may change.\<close>

lemma msgq_keep:
  assumes "msgq s qs q Q v evs xs m" and "events_ok t ys 0" and "is_list t (LIn q) zs" and "list_unlocked t (LIn q)"
    and l: "\<And>l. l \<noteq> EventList \<Longrightarrow> l \<noteq> LIn q \<Longrightarrow> lists t l = lists s l"
    and n: "\<And>x. x \<in> insert (kr_tcb_running (KernelReg s)) (set qs) \<Longrightarrow> nodes t x = nodes s x" and d: "dom (nodes s) \<subseteq> dom (nodes t)"
    and r: "KernelReg t = KernelReg s" "TcbRunning t = TcbRunning s" "message_queues t q = message_queues s q"
    and sets: "insert (kr_tcb_running (KernelReg s)) (set qs \<union> set zs) \<subseteq> objects t"
      "set ys \<inter> insert (kr_tcb_running (KernelReg s)) (set qs \<union> set zs) = {}"
      "set zs \<inter> insert (kr_tcb_running (KernelReg s)) (set qs) = {}" "\<And>x. x \<in> set zs \<Longrightarrow> child (the (nodes t x)) = x"
    and p: "object_slots t k" "\<And>x. x \<in> set zs \<Longrightarrow> (x, 44) \<in> pool_live (ObjectPoolId t) t"
  shows "msgq t qs q Q v ys zs k"
proof -
  note D = msgqD [OF assms(1)]
  have q: "MessageQueueList \<noteq> EventList" "MessageQueueList \<noteq> LIn q" "LIn (TcbRunning s) \<noteq> EventList" "LIn (TcbRunning s) \<noteq> LIn q"
    using D(11) by (auto simp: MessageQueueList_def EventList_def)
  obtain k where k: "nodes s q = Some k" "nodes t q = Some k" "node_lock k = v" using D(4,5) n by auto
  have "running_task t []" using l n d r q by (intro running_task_keep [OF D(2)]) auto
  moreover have "object_list (node_lock_set q 0 t) MessageQueueList qs"
  proof (rule object_list_keep [OF D(3)])
    show "dom (nodes (node_lock_set q 0 s)) \<subseteq> dom (nodes (node_lock_set q 0 t))" using d k by (simp add: dom_node_lock_set)
    show "lists (node_lock_set q 0 t) MessageQueueList = lists (node_lock_set q 0 s) MessageQueueList" using l q by simp
    show "nodes (node_lock_set q 0 t) y = nodes (node_lock_set q 0 s) y" if "y \<in> set qs" for y
      using n that k by (simp add: node_lock_set_def)
  qed
  moreover have "nid t x = nid s x" if "x \<in> insert (kr_tcb_running (KernelReg s)) (set qs)" for x using n that by (simp add: nid_def)
  ultimately show ?thesis using D(4,6,7,8,11,13) assms(2-4) k r sets p by (intro msgqI) simp_all
qed

lemma msgq_emit:
  assumes q: "msgq s qs q Q v evs xs m" and room: "event_cost (event_id src code) (map (nid s) evs) \<le> m"
    "length evs + event_cost (event_id src code) (map (nid s) evs) \<le> 255"
  shows "\<exists>r t ys. EventEmit src code flgs s = Some (r, t) \<and>
    msgq t qs q Q v ys xs (m - event_cost (event_id src code) (map (nid s) evs)) \<and>
    map (nid t) ys = queue_id (event_id src code) (map (nid s) evs) \<and> message_nodes t = message_nodes s \<and> nid t q = nid s q"
proof -
  note D = msgqD [OF q]
  have "object_slots s 1 \<and> length evs < 255" if "event_id src code \<notin> nid s ` set evs"
    using room that object_slots_le [OF D(17), of 1] by (auto simp: event_cost_def)
  then obtain r t ys where t: "EventEmit src code flgs s = Some (r, t)" "events_ok t ys 0" "event_frame s t evs"
    "map (nid t) ys = queue_id (event_id src code) (map (nid s) evs)" "set ys \<inter> objects s \<subseteq> set evs" "objects_kept s t"
    "\<forall>k. object_slots s (k + (if event_id src code \<in> nid s ` set evs then 0 else 1)) \<longrightarrow> object_slots t k"
    using EventEmit_slot [OF D(1), of src code flgs] by blast
  obtain hp pt h ls ev where u: "t = s\<lparr>OsHeap := hp, PoolTable := pt, nodes := h, lists := ls, events := ev\<rparr>"
    using t(3) unfolding event_frame_def by blast
  have n: "nodes t x = nodes s x" "x \<in> objects t" "x \<notin> set ys" if "x \<in> insert (kr_tcb_running (KernelReg s)) (set qs \<union> set xs)" for x
    using t(3,5) D(12,14) that unfolding event_frame_def by blast+
  have l: "lists t l = lists s l" if "l \<noteq> EventList" for l using t(3) that by (simp add: event_frame_def)
  have LIn: "LIn q \<noteq> EventList" by (simp add: EventList_def)
  have "msgq t qs q Q v ys xs (m - event_cost (event_id src code) (map (nid s) evs))"
  proof (rule msgq_keep [OF q t(2)])
    show "is_list t (LIn q) xs" using n l [OF LIn] by (intro is_list_keep [OF D(9)]) auto
    show "list_unlocked t (LIn q)" using D(10) l [OF LIn] by (simp add: list_unlocked_def ll_at_def)
    show "dom (nodes s) \<subseteq> dom (nodes t)" by (rule event_frame_dom [OF t(3)])
    show "child (the (nodes t x)) = x" if "x \<in> set xs" for x using n(1) [of x] D(16) [OF that] that by simp
    show "object_slots t (m - event_cost (event_id src code) (map (nid s) evs))"
      using t(7) D(17) room(1) by (auto simp: event_cost_def split: if_splits)
    show "(x, 44) \<in> pool_live (ObjectPoolId t) t" if "x \<in> set xs" for x using t(6) D(18) [OF that] by (simp add: objects_kept_def)
  qed (use D(15) n l in \<open>auto simp: u\<close>)
  moreover have "nid t q = nid s q" using n(1) [of q] D(4) by (simp add: nid_def)
  moreover have "message_nodes t = message_nodes s" by (simp add: u)
  ultimately show ?thesis using t(1,4) by blast
qed


subsection \<open>Sending and receiving\<close>

lemma message_nodes_swap: "s\<lparr>message_nodes := f, nodes := h\<rparr> = s\<lparr>nodes := h, message_nodes := f\<rparr>"
  by simp

lemma message_clear_step:
  assumes "msgq s qs q Q v evs xs m" and p: "p \<notin> set evs \<union> insert (kr_tcb_running (KernelReg s)) (set qs \<union> set xs)"
    and h: "heap_frame s t" "set evs \<union> insert (kr_tcb_running (KernelReg s)) (set qs \<union> set xs) \<subseteq> objects t" "objects_ok t 0"
      "object_slots t k" "\<And>x. x \<in> set xs \<Longrightarrow> (x, 44) \<in> pool_live (ObjectPoolId t) t"
  shows "msgq (t\<lparr>nodes := (nodes t)(p \<mapsto> n), message_nodes := f\<rparr>) qs q Q v evs xs k"
proof -
  let ?t = "t\<lparr>nodes := (nodes t)(p \<mapsto> n), message_nodes := f\<rparr>"
  note D = msgqD [OF assms(1)]
  obtain hp pt where u: "t = s\<lparr>OsHeap := hp, PoolTable := pt\<rparr>" using heap_frame_state [OF h(1)] by blast
  have o: "objects ?t = objects t" "objects_ok ?t 0" using h(3) objects_cong [of ?t t] by simp_all
  have pl: "object_slots ?t k" "pool_live (ObjectPoolId ?t) ?t = pool_live (ObjectPoolId t) t"
    using h(4) objects_kept_cong(2,3) [of ?t t] by simp_all
  have n: "nodes ?t x = nodes s x" if "x \<in> insert (kr_tcb_running (KernelReg s)) (set qs \<union> set xs)" for x
    using p that by (auto simp: u)
  have e: "nodes ?t x = nodes s x" if "x \<in> set evs" for x using p that by (auto simp: u)
  have d: "dom (nodes s) \<subseteq> dom (nodes ?t)" by (auto simp: u)
  have "events_ok ?t evs 0"
    by (rule events_ok_keep [OF D(1)]) (use h(2) o e d in \<open>auto simp: u\<close>)
  moreover have "is_list ?t (LIn q) xs" using n by (intro is_list_keep [OF D(9)]) (auto simp: u)
  ultimately show ?thesis
  proof (rule msgq_keep [OF assms(1)])
    show "list_unlocked ?t (LIn q)" using D(10) by (simp add: u list_unlocked_def ll_at_def)
    show "child (the (nodes ?t x)) = x" if "x \<in> set xs" for x using n [of x] D(16) [OF that] that by simp
    show "insert (kr_tcb_running (KernelReg s)) (set qs \<union> set xs) \<subseteq> objects ?t" using h(2) o(1) by blast
    show "nodes ?t x = nodes s x" if "x \<in> insert (kr_tcb_running (KernelReg s)) (set qs)" for x using n that by blast
    show "object_slots ?t k" by (rule pl(1))
    show "(x, 44) \<in> pool_live (ObjectPoolId ?t) ?t" if "x \<in> set xs" for x unfolding pl(2) by (rule h(5) [OF that])
  qed (use D(14,15) d in \<open>auto simp: u\<close>)
qed

text \<open>A list operation on the message list.\<close>

lemma msgq_list_frame:
  assumes q: "msgq s qs q Q v evs xs m" and fr: "list_frame s t (LIn q) N" and zs: "is_list t (LIn q) zs" "set zs \<subseteq> objects s"
    and N: "N \<inter> (set evs \<union> insert (kr_tcb_running (KernelReg s)) (set qs)) = {}" "set zs \<subseteq> N"
    and ch: "\<And>x. x \<in> set zs \<Longrightarrow> child (the (nodes s x)) = x" "\<And>x. x \<in> set zs \<Longrightarrow> (x, 44) \<in> pool_live (ObjectPoolId s) s"
  shows "msgq t qs q Q v evs zs m"
proof -
  note D = msgqD [OF q]
  obtain h ls where u: "t = s\<lparr>nodes := h, lists := ls\<rparr>" using list_frame_state [OF fr] by blast
  have o: "objects t = objects s" "objects_ok t 0" using list_frame_objects [OF fr, of 0] D(1) by (auto simp: events_ok_def)
  have d: "dom (nodes s) \<subseteq> dom (nodes t)" using same_payload_dom fr by (fastforce simp: list_frame_def)
  have n: "nodes t x = nodes s x" if "x \<notin> N" for x using fr that by (simp add: list_frame_def)
  have l: "lists t l = lists s l" if "l \<noteq> LIn q" for l using fr that by (simp add: list_frame_def)
  have e: "nodes t x = nodes s x" if "x \<in> set evs" for x using n N(1) that by blast
  have "events_ok t evs 0"
    by (rule events_ok_keep [OF D(1) o(2)]) (use D(1) o(1) e l d in \<open>auto simp: u events_ok_def EventList_def\<close>)
  then show ?thesis
  proof (rule msgq_keep [OF q _ zs(1)])
    show "list_unlocked t (LIn q)" by (rule list_frame_unlocked [OF fr D(10)])
    show "child (the (nodes t x)) = x" if "x \<in> set zs" for x
    proof -
      have "nodes s x \<noteq> None"
        using is_list_nodes [OF zs(1) that] fr node_at_SomeD same_payload_dom by (fastforce simp: list_frame_def dom_def)
      then show ?thesis using child_frame [OF fr] ch(1) [OF that] by simp
    qed
    show "object_slots t m" using list_frame_kept [OF fr] D(17) by blast
    show "(x, 44) \<in> pool_live (ObjectPoolId t) t" if "x \<in> set zs" for x
    proof -
      have "pool_live (ObjectPoolId s) t = pool_live (ObjectPoolId s) s" using list_frame_kept [OF fr] by blast
      moreover have "ObjectPoolId t = ObjectPoolId s" by (simp add: u)
      ultimately show ?thesis using ch(2) [OF that] by simp
    qed
    show "nodes t x = nodes s x" if "x \<in> insert (kr_tcb_running (KernelReg s)) (set qs)" for x using n N(1) that by blast
    show "insert (kr_tcb_running (KernelReg s)) (set qs \<union> set zs) \<subseteq> objects t" using D(12) o(1) zs(2) by blast
    show "set evs \<inter> insert (kr_tcb_running (KernelReg s)) (set qs \<union> set zs) = {}"
      "set zs \<inter> insert (kr_tcb_running (KernelReg s)) (set qs) = {}" using D(14) N by blast+
  qed (use l d in \<open>auto simp: u\<close>)
qed


lemma MessageSend_append_ok:
  fixes s :: "'a message_state_scheme" and qid :: Id_t and evs :: "ptr list"
  defines "c \<equiv> event_cost (event_id qid MESSAGE_EVENT_SEND) (map (nid s) evs)"
  assumes q: "msgq s qs q Q v evs xs m" and room: "Suc c \<le> m" "length evs + c \<le> 255" "length xs < 255" and qid: "qid = nid s q"
  shows "\<exists>t p ys. MessageSend_append qid q msg s = Some (OS_RES_OK, t) \<and> msgq t qs q Q v ys (xs @ [p]) (m - Suc c) \<and>
    map (nid t) ys = queue_id (event_id qid MESSAGE_EVENT_SEND) (map (nid s) evs) \<and>
    (\<forall>x \<in> set xs. message_nodes t x = message_nodes s x) \<and> message_nodes t p = Some msg \<and> nid t q = qid"
proof -
  note D = msgqD [OF q]
  have b: "blocks_for (unat SIZEOF_MESSAGE_NODE) = 3" "SIZEOF_MESSAGE_NODE \<noteq> 0" by (simp_all add: blocks_for_def SIZEOF_MESSAGE_NODE_def)
  have ok: "objects_ok s 0" using D(1) by (simp add: events_ok_def)
  have slot: "object_slots s (Suc (m - 1))" using D(17) room(1) by simp
  obtain p s1 where p: "KMemAllocObject SIZEOF_MESSAGE_NODE 0 None s = Some ((p, None), s1)" "p \<noteq> NULL" "p \<notin> objects s"
    "objects s1 = insert p (objects s)" "objects_ok s1 0" "heap_frame s s1" "objects_kept s s1"
    "(p, 44) \<in> pool_live (ObjectPoolId s) s1" "object_slots s1 (m - 1)"
    using KMemAllocObject_slot [OF ok slot b(2,1), of None] by blast
  obtain hp pt where s1: "s1 = s\<lparr>OsHeap := hp, PoolTable := pt\<rparr>" using heap_frame_state [OF p(6)] by blast
  let ?n = "zero_node\<lparr>child := p, node_id := qid\<rparr>"
  let ?s2 = "s1\<lparr>nodes := (nodes s1)(p \<mapsto> ?n), message_nodes := (message_nodes s1)(p \<mapsto> msg)\<rparr>"
  have live: "(x, 44) \<in> pool_live (ObjectPoolId s1) s1" if "x \<in> set xs" for x
    using p(7) D(18) [OF that] by (simp add: objects_kept_def)
  have q2: "msgq ?s2 qs q Q v evs xs (m - 1)"
    by (rule message_clear_step [OF q _ p(6) _ p(5,9) live]) (use D(1,12) p(3,4) in \<open>auto simp: events_ok_def\<close>)
  note D2 = msgqD [OF q2]
  have px: "p \<notin> set xs" "p \<notin> set evs" "p \<notin> insert (kr_tcb_running (KernelReg s)) (set qs)"
    using D(1,12) p(3) by (auto simp: events_ok_def)
  have live2: "pool_live (ObjectPoolId ?s2) ?s2 = pool_live (ObjectPoolId s1) s1" using objects_kept_cong(3) [of ?s2 s1] by simp
  have n: "node_at p ?s2 = Some ?n" using p(2) by (simp add: node_at_def)
  have crit: "crit_ok ?s2" using D2(1) by (simp add: events_ok_def objects_ok_def)
  obtain s3 where s3: "ListNodeAddAtPosition (LIn q) p LIST_POSITION_TAIL ?s2 = Some (OS_RES_OK, s3)"
    "is_list s3 (LIn q) (xs @ [p])" "list_frame ?s2 s3 (LIn q) (insert p (set xs))"
    using AddAtPosition_tail [OF crit D2(9,10) room(3) n _ px(1)] D(8) qid by auto
  have q3: "msgq s3 qs q Q v evs (xs @ [p]) (m - 1)"
  proof (rule msgq_list_frame [OF q2 s3(3,2)])
    show "set (xs @ [p]) \<subseteq> objects ?s2" using D2(12) p(4) objects_cong(1) [of ?s2 s1] by auto
    show "insert p (set xs) \<inter> (set evs \<union> insert (kr_tcb_running (KernelReg ?s2)) (set qs)) = {}"
      using D(14,15) px by (auto simp: s1)
    show "child (the (nodes ?s2 x)) = x" if "x \<in> set (xs @ [p])" for x using D2(16) [of x] that by auto
    show "(x, 44) \<in> pool_live (ObjectPoolId ?s2) ?s2" if "x \<in> set (xs @ [p])" for x
    proof (cases "x = p")
      case True
      then show ?thesis using p(8) unfolding live2 by (simp add: s1)
    next
      case False
      then show ?thesis using live that unfolding live2 by simp
    qed
  qed auto
  have id3: "nid s3 q = qid" using nid_frame [OF s3(3), of q] px(3) D(4) qid by (auto simp: nid_def s1)
  have "nid s3 x = nid s x" if "x \<in> set evs" for x using nid_frame [OF s3(3), of x] px(2) that by (auto simp: nid_def s1)
  then have ids: "map (nid s3) evs = map (nid s) evs" by simp
  have room3: "event_cost (event_id qid MESSAGE_EVENT_SEND) (map (nid s3) evs) \<le> m - 1"
    "length evs + event_cost (event_id qid MESSAGE_EVENT_SEND) (map (nid s3) evs) \<le> 255"
    using room(1,2) unfolding ids c_def by simp_all
  obtain r t ys where t: "EventEmit qid MESSAGE_EVENT_SEND EVENT_FLAG_NONE s3 = Some (r, t)" "msgq t qs q Q v ys (xs @ [p]) (m - 1 - c)"
    "map (nid t) ys = queue_id (event_id qid MESSAGE_EVENT_SEND) (map (nid s) evs)" "message_nodes t = message_nodes s3" "nid t q = nid s3 q"
    using msgq_emit [OF q3 room3] unfolding ids c_def by blast
  have "message_nodes s3 = (message_nodes s)(p \<mapsto> msg)" using list_frame_state [OF s3(3)] by (auto simp: s1)
  moreover have "MessageSend_append qid q msg s = Some (OS_RES_OK, t)"
    using p(1,2) s3(1) t(1)
    by (simp add: MessageSend_append_def message_alloc_def message_clear_def node_clear_def ListNodeInit_def ListNodeIdSet_def
        node_update_eq node_at_def s1 zero_node_def message_nodes_swap)
  ultimately show ?thesis using t id3 px(1) by (intro exI [of _ t] exI [of _ p] exI [of _ ys]) auto
qed

lemma MessageReceive_take_ok:
  fixes s :: "'a message_state_scheme" and qid :: Id_t and evs :: "ptr list"
  defines "c \<equiv> event_cost (event_id qid MESSAGE_EVENT_RECEIVE) (map (nid s) evs)"
  assumes q: "msgq s qs q Q v evs (x # xs) m" and room: "c \<le> Suc m" "length evs + c \<le> 255" "length xs < 255" and qid: "qid = nid s q"
    and msg: "message_nodes s x = Some msg"
  shows "\<exists>t ys. MessageReceive_take qid q msg0 s = Some ((OS_RES_OK, msg), t) \<and> msgq t qs q Q v ys xs (Suc m - c) \<and>
    map (nid t) ys = queue_id (event_id qid MESSAGE_EVENT_RECEIVE) (map (nid s) evs) \<and>
    (\<forall>y \<in> set xs. message_nodes t y = message_nodes s y) \<and> nid t q = qid"
proof -
  note D = msgqD [OF q]
  have crit: "crit_ok s" using D(1) by (simp add: events_ok_def objects_ok_def)
  have l: "is_list s (LIn q) ([] @ x # xs)" "length ([] @ x # xs) \<le> 255" using D(9) room(3) by simp_all
  obtain s1 n where s1: "ListNodeRemove (LIn q) x s = Some (x, s1)" "is_list s1 (LIn q) xs" "list_frame s s1 (LIn q) (set (x # xs))"
    "nodes s x = Some n" "nodes s1 x = Some (unlinked n)"
    using ListNodeRemove_ok [OF crit l(1) D(10) l(2)] by auto
  have x: "x \<noteq> NULL" "child n = x" "x \<notin> set xs" using is_list_nodes [OF D(9), of x] D(16) [of x] s1(4) D(9) by (auto simp: is_list_def)
  obtain ll where ll: "ll_at (LIn q) s = Some ll" "ll_head ll = x" using D(9) by (auto simp: is_list_def)
  have q1: "msgq s1 qs q Q v evs xs m"
    by (rule msgq_list_frame [OF q s1(3,2)]) (use D(12,14,15,16,18) in auto)
  obtain h1 ls1 where u1: "s1 = s\<lparr>nodes := h1, lists := ls1\<rparr>" using list_frame_state [OF s1(3)] by blast
  note D1 = msgqD [OF q1]
  have "x \<in> objects s1" using D(12) list_frame_objects [OF s1(3)] by auto
  moreover have "objects_ok s1 0" using D1(1) by (simp add: events_ok_def)
  moreover have "(x, 44) \<in> pool_live (ObjectPoolId s1) s1"
    using D(18) [of x] list_frame_kept [OF s1(3), of _ "ObjectPoolId s"] by (simp add: u1)
  ultimately obtain s2 where s2: "KMemFreeObject (Some x) None s1 = Some ((OS_RES_OK, Some NULL, None), s2)"
    "objects s2 = objects s1 - {x}" "objects_ok s2 0" "heap_frame s1 s2" "ObjectPoolId s2 = ObjectPoolId s1"
    "\<And>y. (y, 44) \<in> pool_live (ObjectPoolId s1) s1 \<Longrightarrow> y \<noteq> x \<Longrightarrow> (y, 44) \<in> pool_live (ObjectPoolId s1) s2"
    "object_slots s2 (Suc m)"
    using KMemFreeObject_ok [of s1 0 x] D1(17) by blast
  let ?s3 = "message_clear x s2"
  have xo: "x \<notin> set evs \<union> insert (kr_tcb_running (KernelReg s1)) (set qs \<union> set xs)" using D(14,15) x(3) by (auto simp: u1)
  have sub: "set evs \<union> insert (kr_tcb_running (KernelReg s1)) (set qs \<union> set xs) \<subseteq> objects s2"
    using D1(1,12) xo s2(2) by (auto simp: events_ok_def)
  have live: "(y, 44) \<in> pool_live (ObjectPoolId s2) s2" if "y \<in> set xs" for y
    using s2(5) s2(6) [OF D1(18) [OF that]] x(3) that by auto
  from message_clear_step [OF q1 xo s2(4) sub s2(3,7) live]
  have q3: "msgq ?s3 qs q Q v evs xs (Suc m)" by (simp add: message_clear_def node_clear_def)
  have nid3: "nid ?s3 y = nid s1 y" if "y \<noteq> x" for y
    using that heap_frame_state [OF s2(4)] by (auto simp: message_clear_def node_clear_def nid_def)
  have "q \<noteq> x" using xo D(4) by auto
  then have id3: "nid ?s3 q = qid" using nid3 [of q] nid_frame [OF s1(3), of q] qid by simp
  have "nid ?s3 y = nid s y" if "y \<in> set evs" for y
  proof -
    have "y \<noteq> x" using xo that by auto
    then show ?thesis using nid3 nid_frame [OF s1(3), of y] by simp
  qed
  then have ids: "map (nid ?s3) evs = map (nid s) evs" by simp
  have room3: "event_cost (event_id qid MESSAGE_EVENT_RECEIVE) (map (nid ?s3) evs) \<le> Suc m"
    "length evs + event_cost (event_id qid MESSAGE_EVENT_RECEIVE) (map (nid ?s3) evs) \<le> 255"
    using room(1,2) unfolding ids c_def by simp_all
  obtain r t ys where t: "EventEmit qid MESSAGE_EVENT_RECEIVE EVENT_FLAG_NONE ?s3 = Some (r, t)" "msgq t qs q Q v ys xs (Suc m - c)"
    "map (nid t) ys = queue_id (event_id qid MESSAGE_EVENT_RECEIVE) (map (nid s) evs)" "message_nodes t = message_nodes ?s3" "nid t q = nid ?s3 q"
    using msgq_emit [OF q3 room3] unfolding ids c_def by blast
  have "ListNodeRemoveFromHead (LIn q) s = Some (x, s1)" using ll s1(1) by (simp add: ListNodeRemoveFromHead_def)
  moreover have "ListNodeChildGet x s1 = Some x" using x(1,2) s1(5) by (simp add: ListNodeChildGet_def node_at_def unlinked_def)
  moreover have "message_at x s1 = Some msg" using msg x(1) by (simp add: u1 message_at_def)
  ultimately have "MessageReceive_take qid q msg0 s = Some ((OS_RES_OK, msg), t)"
    using x(1) s2(1) t(1) by (simp add: MessageReceive_take_def message_free_def)
  moreover have "message_nodes ?s3 y = message_nodes s y" if "y \<in> set xs" for y
    using heap_frame_state [OF s2(4)] x(3) that by (auto simp: u1 message_clear_def node_clear_def)
  ultimately show ?thesis using t id3 by auto
qed


text \<open>A block on the locked node of the queue.\<close>

lemma msgq_access:
  assumes q: "msgq s qs q Q 0 evs xs m" and qid: "qid = nid s q"
    and b: "block q (node_lock_set q 0x81 s) = Some (r, t)" and t: "msgq t qs q Q 0x81 ys zs k"
  shows "LIST_NODE_ACCESS LIST_LOCK_MODE_WRITE MessageQueueList qid block d s = Some (r, node_lock_set q 0 t)"
    and "msgq (node_lock_set q 0 t) qs q Q 0 ys zs k"
proof -
  note D = msgqD [OF q] and Dt = msgqD [OF t]
  obtain n where n: "nodes s q = Some n" "node_lock n = 0" using D(5) by blast
  obtain nt where nt: "nodes t q = Some nt" "node_lock nt = 0x81" using Dt(5) by blast
  have a: "access_lock LIST_LOCK_MODE_WRITE = 0x81" by (simp add: access_lock_def LIST_LOCK_MODE_WRITE_def LIST_LOCK_MODE_READ_def)
  have "node_lock_set q 0 s = s" using n by (simp add: node_lock_set_def fun_upd_idem)
  then have o: "object_list s MessageQueueList qs" using D(3) by simp
  have c: "crit_ok s" "crit_ok t" using D(1) Dt(1) by (simp_all add: events_ok_def objects_ok_def)
  show "LIST_NODE_ACCESS LIST_LOCK_MODE_WRITE MessageQueueList qid block d s = Some (r, node_lock_set q 0 t)"
    unfolding qid by (rule LIST_NODE_ACCESS_ok [OF c(1) o D(4) _ _ c(2) nt(1)]) (simp_all add: a b nt)
  show "msgq (node_lock_set q 0 t) qs q Q 0 ys zs k" by (rule msgq_lock [OF t])
qed

lemma msgq_child: "msgq s qs q Q v evs xs m \<Longrightarrow> ListNodeChildGet q s = Some q \<and> q \<noteq> NULL"
proof -
  assume "msgq s qs q Q v evs xs m"
  note D = msgqD [OF this]
  obtain n where n: "nodes s q = Some n" using D(5) by blast
  have "\<exists>k. nodes (node_lock_set q 0 s) q = Some k \<and> child k = q" using D(3,4) unfolding object_list_def by blast
  then have "child n = q" using node_lock_set_node [OF n, of 0] by auto
  moreover have "q \<noteq> NULL" by (rule object_list_nodes [OF D(3,4)])
  ultimately show ?thesis using n by (simp add: ListNodeChildGet_def node_at_def)
qed

lemma msgq_ll:
  assumes "msgq s qs q Q v evs xs m"
  obtains ll where "ll_at (LIn q) s = Some ll" "unat (ll_size ll) = length xs"
  using msgqD(9) [OF assms] by (auto simp: is_list_def)

lemma MessageSend_ok:
  fixes s :: "'a message_state_scheme" and qid :: Id_t and evs :: "ptr list"
  defines "c \<equiv> event_cost (event_id qid MESSAGE_EVENT_SEND) (map (nid s) evs)"
  assumes q: "msgq s qs q Q 0 evs xs m" and room: "Suc c \<le> m" "length evs + c \<le> 255" "length xs < 255" and qid: "qid = nid s q"
    and space: "length xs < unat (max_size Q)"
  shows "\<exists>t p ys. MessageSend qid (Some msg) timeout s = Some (OS_RES_OK, t) \<and> msgq t qs q Q 0 ys (xs @ [p]) (m - Suc c) \<and>
    map (nid t) ys = queue_id (event_id qid MESSAGE_EVENT_SEND) (map (nid s) evs) \<and> (\<forall>x \<in> set xs. message_nodes t x = message_nodes s x) \<and> message_nodes t p = Some msg \<and> nid t q = qid"
proof -
  let ?l = "node_lock_set q 0x81 s"
  note D = msgqD [OF q]
  have l: "msgq ?l qs q Q 0x81 evs xs m" by (rule msgq_lock [OF q])
  have "nodes s q \<noteq> None" using D(5) by auto
  then have id: "qid = nid ?l q" and ids: "nid ?l = nid s" using qid by simp_all
  obtain t p ys where t: "MessageSend_append qid q msg ?l = Some (OS_RES_OK, t)" "msgq t qs q Q 0x81 ys (xs @ [p]) (m - Suc c)"
    "map (nid t) ys = queue_id (event_id qid MESSAGE_EVENT_SEND) (map (nid s) evs)" "\<forall>x \<in> set xs. message_nodes t x = message_nodes ?l x" "message_nodes t p = Some msg" "nid t q = qid"
    using MessageSend_append_ok [OF l _ _ room(3) id] room(1,2) unfolding ids c_def by blast
  obtain ll where ll: "ll_at (LIn q) ?l = Some ll" "unat (ll_size ll) = length xs" by (rule msgq_ll [OF l])
  have "(ucast (ll_size ll) :: U32_t) < max_size Q"
    using space ll(2) by (simp add: word_less_nat_alt unat_ucast_16_32)
  moreover have "queue_at q ?l = Some Q" using msgqD(6) [OF l] msgq_child [OF q] by (simp add: queue_at_def)
  ultimately have b: "MessageSend_block qid msg timeout q ?l = Some (OS_RES_OK, t)"
    using msgq_child [OF l] ll(1) t(1) by (simp add: MessageSend_block_def)
  have "crit_ok s" using D(1) by (simp add: events_ok_def objects_ok_def)
  then have "MessageSend qid (Some msg) timeout s = Some (OS_RES_OK, node_lock_set q 0 t)"
    using msgq_access(1) [where block = "MessageSend_block qid msg timeout", OF q qid b t(2)] D(8) qid
    unfolding MessageSend_def by (subst sys_call_enter_ok [OF _ D(2)]) simp_all
  moreover have "nid (node_lock_set q 0 t) = nid t" using msgqD(5) [OF t(2)] by auto
  ultimately show ?thesis using msgq_access(2) [where block = "MessageSend_block qid msg timeout", OF q qid b t(2)] t(3-6)
    by (intro exI [of _ "node_lock_set q 0 t"] exI [of _ p] exI [of _ ys]) (simp add: node_lock_set_def)
qed

lemma MessageReceive_ok:
  fixes s :: "'a message_state_scheme" and qid :: Id_t and evs :: "ptr list"
  defines "c \<equiv> event_cost (event_id qid MESSAGE_EVENT_RECEIVE) (map (nid s) evs)"
  assumes q: "msgq s qs q Q 0 evs (x # xs) m" and room: "c \<le> Suc m" "length evs + c \<le> 255" "length xs < 255" and qid: "qid = nid s q"
    and msg: "message_nodes s x = Some msg"
  shows "\<exists>t ys. MessageReceive qid (Some msg0) timeout s = Some ((OS_RES_OK, Some msg), t) \<and> msgq t qs q Q 0 ys xs (Suc m - c) \<and>
    map (nid t) ys = queue_id (event_id qid MESSAGE_EVENT_RECEIVE) (map (nid s) evs) \<and> (\<forall>y \<in> set xs. message_nodes t y = message_nodes s y) \<and> nid t q = qid"
proof -
  let ?l = "node_lock_set q 0x81 s"
  note D = msgqD [OF q]
  have l: "msgq ?l qs q Q 0x81 evs (x # xs) m" by (rule msgq_lock [OF q])
  note Dl = msgqD [OF l]
  have "nodes s q \<noteq> None" using D(5) by auto
  then have id: "qid = nid ?l q" and ids: "nid ?l = nid s" using qid by simp_all
  have "message_nodes ?l x = Some msg" using msg by (simp add: node_lock_set_def)
  then obtain t ys where t: "MessageReceive_take qid q msg0 ?l = Some ((OS_RES_OK, msg), t)" "msgq t qs q Q 0x81 ys xs (Suc m - c)"
    "map (nid t) ys = queue_id (event_id qid MESSAGE_EVENT_RECEIVE) (map (nid s) evs)" "\<forall>y \<in> set xs. message_nodes t y = message_nodes ?l y" "nid t q = qid"
    using MessageReceive_take_ok [OF l _ _ room(3) id] room(1,2) unfolding ids c_def by blast
  obtain ll where ll: "ll_at (LIn q) ?l = Some ll" "unat (ll_size ll) = length (x # xs)" by (rule msgq_ll [OF l])
  have "0 < ll_size ll" using ll(2) by (simp add: word_less_nat_alt)
  moreover have "queue_at q ?l = Some Q" using Dl(6) msgq_child [OF q] by (simp add: queue_at_def)
  moreover have "TaskIdGet ?l = Some (owner_task Q, ?l)"
  proof -
    have r: "running_task ?l []" by (rule Dl(2))
    then obtain n where n: "nodes ?l (kr_tcb_running (KernelReg ?l)) = Some n" "node_lock n = 0" by (auto simp: running_task_def)
    have "crit_ok ?l" using Dl(1) by (simp add: events_ok_def objects_ok_def)
    from KCoreTaskRunningGet_ok [OF this n] r Dl(7) n(1) show ?thesis by (simp add: TaskIdGet_def running_task_def nid_def)
  qed
  ultimately have b: "MessageReceive_block qid msg0 timeout q ?l = Some ((OS_RES_OK, msg), t)"
    using msgq_child [OF l] ll(1) t(1) by (simp add: MessageReceive_block_def)
  have "crit_ok s" using D(1) by (simp add: events_ok_def objects_ok_def)
  then have "MessageReceive qid (Some msg0) timeout s = Some ((OS_RES_OK, Some msg), node_lock_set q 0 t)"
    using msgq_access(1) [where block = "MessageReceive_block qid msg0 timeout", OF q qid b t(2)] D(8) qid
      SYS_CALL_EVENT_HANDLE_ok [OF _ D(2), of qid MESSAGE_EVENT_SEND]
    by (simp add: MessageReceive_def)
  moreover have "nid (node_lock_set q 0 t) = nid t" using msgqD(5) [OF t(2)] by auto
  ultimately show ?thesis using msgq_access(2) [where block = "MessageReceive_block qid msg0 timeout", OF q qid b t(2)] t(3-5)
    by (intro exI [of _ "node_lock_set q 0 t"] exI [of _ ys]) (simp add: node_lock_set_def)
qed


subsection \<open>A message queue is a queue\<close>

definition msg_enq :: "Id_t \<Rightarrow> U32_t \<Rightarrow> Message_t \<Rightarrow> 'a message_state_scheme \<Rightarrow> 'a message_state_scheme option" where
  "msg_enq qid timeout msg s = do {
     (r, s) \<leftarrow> MessageSend qid (Some msg) timeout s;
     if r = OS_RES_OK then Some s else None
   }"

definition msg_deq :: "Id_t \<Rightarrow> U32_t \<Rightarrow> Message_t \<Rightarrow> 'a message_state_scheme \<Rightarrow> (Message_t \<times> 'a message_state_scheme) option" where
  "msg_deq qid timeout msg0 s = do {
     ((r, msg), s) \<leftarrow> MessageReceive qid (Some msg0) timeout s;
     if r = OS_RES_OK then map_option (\<lambda>m. (m, s)) msg else None
   }"

text \<open>
  The queue with the ID \<open>qid\<close> and the limit \<open>limit\<close> holds the messages \<open>msgs\<close>. The object pool has places for as many more
  messages as the queue takes and for those of its two events that are not pending; the list of events has room for these events.
\<close>

definition msg_events :: "Id_t \<Rightarrow> Id_t list" where
  "msg_events qid = [event_id qid MESSAGE_EVENT_SEND, event_id qid MESSAGE_EVENT_RECEIVE]"

definition msg_queue :: "Id_t \<Rightarrow> U32_t \<Rightarrow> 'a message_state_scheme \<Rightarrow> Message_t list \<Rightarrow> bool" where
  "msg_queue qid limit s msgs \<longleftrightarrow> (\<exists>qs q Q evs xs m. msgq s qs q Q 0 evs xs m \<and> nid s q = qid \<and> max_size Q = limit \<and>
     (min (unat limit) 255 - length msgs) + events_missing (msg_events qid) (map (nid s) evs) \<le> m \<and>
     length evs + events_missing (msg_events qid) (map (nid s) evs) \<le> 255 \<and>
     map (message_nodes s) xs = map Some msgs \<and> length msgs \<le> 255)"

definition msg_fit :: "U32_t \<Rightarrow> Message_t list \<Rightarrow> Message_t \<Rightarrow> bool" where
  "msg_fit limit msgs msg \<longleftrightarrow> length msgs < unat limit \<and> length msgs < 255"

interpretation messages: fifo_queue "msg_enq qid timeout" "msg_deq qid timeout' msg0" "msg_queue qid limit" "msg_fit limit"
  for qid timeout timeout' msg0 limit
proof
  fix s :: "'a message_state_scheme" and msgs msg
  let ?e = "event_id qid MESSAGE_EVENT_SEND" and ?E = "msg_events qid"
  assume s: "msg_queue qid limit s msgs" and fit: "msg_fit limit msgs msg"
  then obtain qs q Q evs xs m where q: "msgq s qs q Q 0 evs xs m" "nid s q = qid" "max_size Q = limit"
    "(min (unat limit) 255 - length msgs) + events_missing ?E (map (nid s) evs) \<le> m"
    "length evs + events_missing ?E (map (nid s) evs) \<le> 255" "map (message_nodes s) xs = map Some msgs" unfolding msg_queue_def by blast
  define c where "c = event_cost ?e (map (nid s) evs)"
  have E: "?e \<in> set ?E" by (simp add: msg_events_def)
  note cost = events_missing_queue_id [OF E, of "map (nid s) evs", folded c_def]
  have len: "length xs = length msgs" using arg_cong [OF q(6), of length] by simp
  have room: "Suc c \<le> m" "length evs + c \<le> 255" "length xs < 255" "length xs < unat (max_size Q)"
    using q(3-5) fit len cost by (auto simp: msg_fit_def)
  obtain t p ys where t: "MessageSend qid (Some msg) timeout s = Some (OS_RES_OK, t)" "msgq t qs q Q 0 ys (xs @ [p]) (m - Suc c)"
    "map (nid t) ys = queue_id ?e (map (nid s) evs)" "\<forall>x \<in> set xs. message_nodes t x = message_nodes s x" "message_nodes t p = Some msg" "nid t q = qid"
    using MessageSend_ok [OF q(1) room(1,2) [unfolded c_def] room(3) q(2) [symmetric] room(4)] unfolding c_def by blast
  have "map (message_nodes t) (xs @ [p]) = map Some (msgs @ [msg])" using t(4,5) q(6) by (simp cong: map_cong)
  moreover have "length ys = length evs + c" using arg_cong [OF t(3), of length] by (simp add: length_queue_id c_def)
  then have "length ys + events_missing ?E (map (nid t) ys) \<le> 255" using cost q(5) unfolding t(3) by simp
  moreover have "(min (unat limit) 255 - length (msgs @ [msg])) + events_missing ?E (map (nid t) ys) \<le> m - Suc c"
    using cost q(4) fit unfolding t(3) by (auto simp: msg_fit_def)
  ultimately have "msg_queue qid limit t (msgs @ [msg])"
    unfolding msg_queue_def using t(2,6) q(3) room(3) len by (intro exI conjI) (assumption | simp)+
  then show "\<exists>t. msg_enq qid timeout msg s = Some t \<and> msg_queue qid limit t (msgs @ [msg])" using t(1) by (simp add: msg_enq_def)
next
  fix s :: "'a message_state_scheme" and msg msgs
  let ?e = "event_id qid MESSAGE_EVENT_RECEIVE" and ?E = "msg_events qid"
  assume s: "msg_queue qid limit s (msg # msgs)"
  then obtain qs q Q evs zs m where q: "msgq s qs q Q 0 evs zs m" "nid s q = qid" "max_size Q = limit"
    "(min (unat limit) 255 - length (msg # msgs)) + events_missing ?E (map (nid s) evs) \<le> m"
    "length evs + events_missing ?E (map (nid s) evs) \<le> 255" "map (message_nodes s) zs = map Some (msg # msgs)"
    "length (msg # msgs) \<le> 255" unfolding msg_queue_def by blast
  then obtain x xs where xs: "zs = x # xs" "message_nodes s x = Some msg" "map (message_nodes s) xs = map Some msgs" by (cases zs) auto
  define c where "c = event_cost ?e (map (nid s) evs)"
  have E: "?e \<in> set ?E" by (simp add: msg_events_def)
  note cost = events_missing_queue_id [OF E, of "map (nid s) evs", folded c_def]
  have len: "length xs = length msgs" using arg_cong [OF xs(3), of length] by simp
  have room: "c \<le> Suc m" "length evs + c \<le> 255" "length xs < 255" using q(4,5,7) len cost by auto
  obtain t ys where t: "MessageReceive qid (Some msg0) timeout' s = Some ((OS_RES_OK, Some msg), t)" "msgq t qs q Q 0 ys xs (Suc m - c)"
    "map (nid t) ys = queue_id ?e (map (nid s) evs)" "\<forall>x \<in> set xs. message_nodes t x = message_nodes s x" "nid t q = qid"
    using MessageReceive_ok [OF q(1) [unfolded xs(1)] room(1,2) [unfolded c_def] room(3) q(2) [symmetric] xs(2)] unfolding c_def by blast
  have "map (message_nodes t) xs = map Some msgs" using t(4) xs(3) by (simp cong: map_cong)
  moreover have "length ys = length evs + c" using arg_cong [OF t(3), of length] by (simp add: length_queue_id c_def)
  then have "length ys + events_missing ?E (map (nid t) ys) \<le> 255" using cost q(5) unfolding t(3) by simp
  moreover have "(min (unat limit) 255 - length msgs) + events_missing ?E (map (nid t) ys) \<le> Suc m - c"
    using cost q(4) unfolding t(3) by auto
  ultimately have "msg_queue qid limit t msgs"
    unfolding msg_queue_def using t(2,5) q(3,7) by (intro exI conjI) (assumption | simp)+
  then show "\<exists>t. msg_deq qid timeout' msg0 s = Some (msg, t) \<and> msg_queue qid limit t msgs" using t(1) by (simp add: msg_deq_def)
qed


text \<open>
  C8. A message queue of the running task is a first-in first-out queue. For any sequence of sends and receives of its owner,
  however long, that sends only while fewer messages wait than the limit of the queue (and than 255) and receives only while one
  waits: every call succeeds at once and the messages come out in the order in which they went in. The object pool must have places
  for a full queue and for the two events of the queue, and the list of events room for these; every call gives back what it takes.
\<close>

theorem message_fifo:
  assumes "msg_queue qid limit s msgs" and "qrun (msg_fit limit) ops msgs = Some (out, msgs')"
  shows "\<exists>t. srun (msg_enq qid timeout) (msg_deq qid timeout' msg0) ops s = Some (out, t) \<and> msg_queue qid limit t msgs' \<and>
    out @ msgs' = msgs @ put ops"
  using messages.run_refines [of qid limit s msgs ops out msgs'] assms qrun_order [OF assms(2)] by simp

subsection \<open>A concrete message queue\<close>

text \<open>The queue at 0x1004 and the running task at 0x1044.\<close>

definition msg_start :: shell_state where
  "msg_start = msg_heap\<lparr>
     nodes := [0x1004 \<mapsto> sample_node 0x07000001 0x1004 NULL NULL, 0x1044 \<mapsto> sample_node 0x01000001 0x1044 NULL NULL],
     lists := [EventList \<mapsto> sample_list NULL NULL 0, MessageQueueList \<mapsto> sample_list 0x1004 0x1004 1,
       LIn 0x1004 \<mapsto> sample_list NULL NULL 0, LIn 0x1044 \<mapsto> sample_list NULL NULL 0],
     message_queues := [0x1004 \<mapsto> \<lparr>max_size = 2, owner_task = 0x01000001\<rparr>],
     TcbRunning := 0x1044\<rparr>"

lemma msg_start_ok: "msg_queue 0x07000001 2 msg_start []"
proof -
  have o: "objects msg_start = {0x1004, 0x1044}" "objects_ok msg_start 24"
    unfolding msg_heap_objects(2) [symmetric] using msg_heap_objects(1)
    by (subst objects_cong [where s = msg_heap]; simp add: msg_start_def)+
  have reg: "KernelReg msg_start = (KernelReg core_bss)\<lparr>kr_tcb_running := 0x1044\<rparr>" "TcbRunning msg_start = 0x1044"
    by (simp_all add: msg_start_def) (simp add: msg_heap_def alloc_state_def Pool_update_def pool_512_def)
  have ok0: "objects_ok msg_start 0" using o(2) roomy_le [of 24 _ 0] by (auto simp: objects_ok_def)
  have "msgq msg_start [0x1004] 0x1004 \<lparr>max_size = 2, owner_task = 0x01000001\<rparr> 0 [] [] 8"
  proof (rule msgqI)
    show "events_ok msg_start [] 0"
      using ok0 by (simp add: events_ok_def searchable_def is_list_def list_unlocked_def ll_at_def msg_start_def EventList_def MessageQueueList_def)
    show "running_task msg_start []"
      unfolding running_task_def reg
      by (simp add: searchable_def is_list_def list_unlocked_def ll_at_def) (simp add: msg_start_def core_bss_def EventList_def MessageQueueList_def)
    show "object_list (node_lock_set 0x1004 0 msg_start) MessageQueueList [0x1004]"
      by (simp add: object_list_def searchable_def is_list_def list_unlocked_def ll_at_def msg_start_def nid_def node_at_def node_lock_set_def MessageQueueList_def)
    show "is_list msg_start (LIn 0x1004) []" "list_unlocked msg_start (LIn 0x1004)"
      by (simp_all add: is_list_def list_unlocked_def ll_at_def msg_start_def)
    show "object_slots msg_start 8" using objects_kept_cong(2) [of msg_start msg_heap] msg_heap_slots by (simp add: msg_start_def)
  qed (simp_all add: o reg, simp_all add: msg_start_def nid_def ID_INVALID_def)
  moreover have "nid msg_start 0x1004 = 0x07000001" by (simp add: msg_start_def nid_def)
  moreover have "events_missing (msg_events 0x07000001) [] = 2" by (simp add: events_missing_def msg_events_def)
  ultimately show ?thesis
    unfolding msg_queue_def
    by (intro exI [of _ "[0x1004]"] exI [of _ "0x1004"] exI [of _ "\<lparr>max_size = 2, owner_task = 0x01000001\<rparr>"] exI [of _ "[]"] exI [of _ 8]) simp
qed

definition byte_message :: "U32_t \<Rightarrow> Message_t" where
  "byte_message v = \<lparr>msg_type = MSG_DATA_TYPE_U8, msg_data = MsgValue v\<rparr>"

text \<open>A hundred rounds of two sends and two receives: far more messages and events than the pool has places.\<close>

lemma qrun_rounds:
  assumes "fit [] v" and "fit [v] w"
  shows "qrun fit (concat (replicate n [Enq v, Enq w, Deq, Deq])) [] = Some (concat (replicate n [v, w]), [])"
  using assms by (induction n) simp_all

theorem message_fifo_witness:
  "\<exists>t. srun (msg_enq 0x07000001 0) (msg_deq 0x07000001 0 (byte_message 0))
     (concat (replicate 100 [Enq (byte_message 7), Enq (byte_message 9), Deq, Deq])) msg_start
     = Some (concat (replicate 100 [byte_message 7, byte_message 9]), t)"
proof -
  have "qrun (msg_fit 2) (concat (replicate 100 [Enq (byte_message 7), Enq (byte_message 9), Deq, Deq])) []
    = Some (concat (replicate 100 [byte_message 7, byte_message 9]), [])"
    by (rule qrun_rounds) (simp_all add: msg_fit_def)
  from message_fifo [OF msg_start_ok this, of 0 0 "byte_message 0"] show ?thesis by blast
qed

end
