(* ===== verification/ShellProps.thy ===== *)
theory ShellProps
  imports Shell Sample Allocator
begin

text \<open>
  The splitting of a shell line: the tokens that \<open>IShellSplitLine\<close> leaves in memory are those of a specification on lists.
\<close>

subsection \<open>The specification\<close>

text \<open>The tokens of a line: separated by single spaces, with every equals sign left out; \<open>acc\<close> is the token begun.\<close>

fun split_line :: "U8_t list \<Rightarrow> U8_t list \<Rightarrow> U8_t list list" where
  "split_line acc [] = [acc]"
| "split_line acc (c # cs) =
     (if c = 0x20 then acc # split_line [] cs else if c = 0x3D then split_line acc cs else split_line (acc @ [c]) cs)"

lemma all_less_two: "(\<forall>j < Suc (Suc 0). P j) \<longleftrightarrow> P 0 \<and> P 1"
  by (auto simp: less_Suc_eq)

lemma split_line_first: "\<exists>t ts. split_line acc cs = (acc @ t) # ts"
  by (induction acc cs rule: split_line.induct) auto

lemma split_line_nonzero: "0 \<notin> set acc \<Longrightarrow> 0 \<notin> set cs \<Longrightarrow> t \<in> set (split_line acc cs) \<Longrightarrow> 0 \<notin> set t"
  by (induction acc cs rule: split_line.induct) (auto split: if_splits)

subsection \<open>The tokens in memory\<close>

text \<open>An array of pointers at \<open>args\<close> to the token buffers \<open>bs\<close>, of eleven bytes each, all apart.\<close>

definition token_area :: "'a ringbuf_state_scheme \<Rightarrow> ptr \<Rightarrow> ptr list \<Rightarrow> bool" where
  "token_area s args bs \<longleftrightarrow> (\<forall>i < length bs. token_ptr args i s = Some (bs ! i)) \<and>
     (\<forall>i < length bs. \<forall>k \<le> 10. heap_index (bs ! i + k) s \<noteq> None) \<and>
     (\<forall>i < length bs. \<forall>j < length bs. i \<noteq> j \<longrightarrow> bs ! i + 10 < bs ! j \<or> bs ! j + 10 < bs ! i) \<and>
     (\<forall>i < length bs. bs ! i + 10 < args \<or> args + 4 * length bs \<le> bs ! i)"

definition holds :: "'a ringbuf_state_scheme \<Rightarrow> ptr \<Rightarrow> U8_t list \<Rightarrow> bool" where
  "holds s p cs \<longleftrightarrow> (\<forall>k < length cs. any_read (p + k) s = Some (cs ! k))"

lemma holds_append: "holds s p (xs @ ys) \<longleftrightarrow> holds s p xs \<and> holds s (p + length xs) ys"
proof -
  have "k < length xs + length ys \<longleftrightarrow> k < length xs \<or> (\<exists>j < length ys. k = length xs + j)" for k
    using less_iff_Suc_add by (auto, metis add_less_imp_less_left le_add_diff_inverse not_le)
  then show ?thesis unfolding holds_def length_append by (auto simp: nth_append add.assoc)
qed

lemma holds_string: "0 \<notin> set cs \<Longrightarrow> holds s p (cs @ [0]) \<Longrightarrow> c_string p s = Some cs"
proof (induction cs arbitrary: p)
  case Nil
  then show ?case by (subst c_string.simps) (simp add: holds_def)
next
  case (Cons c cs)
  have "holds s p ([c] @ (cs @ [0]))" using Cons.prems(2) by simp
  then have "holds s p [c]" "holds s (p + 1) (cs @ [0])" unfolding holds_append by simp_all
  then show ?case using Cons by (subst c_string.simps) (auto simp: holds_def)
qed

lemma heap_write_ok:
  assumes "heap_index p s = Some i"
  shows "any_write p v s = Some (s\<lparr>OsHeap := (OsHeap s)(i := v)\<rparr>)"
    and "any_read q (s\<lparr>OsHeap := (OsHeap s)(i := v)\<rparr>) = (if q = p then Some v else any_read q s)"
    and "heap_index q (s\<lparr>OsHeap := (OsHeap s)(i := v)\<rparr>) = heap_index q s"
  using assms by (auto simp: any_write_def any_read_def heap_index_def split: if_splits)

lemma token_ptr_other:
  fixes s :: "'a ringbuf_state_scheme"
  assumes "heap_index p s = Some i" and "p < args + 4 * j \<or> args + 4 * j + 4 \<le> p"
  shows "token_ptr args j (s\<lparr>OsHeap := (OsHeap s)(i := v)\<rparr>) = token_ptr args j s"
proof (cases "heap_index (args + 4 * j) s")
  case (Some k)
  have k: "unat (word_of_nat k :: U32_t) = k" using Some U32_less [of "TotalHeapSize s"]
    by (simp add: heap_index_def unat_of_nat take_bit_nat_eq_self split: if_splits)
  have "i < k \<or> k + 4 \<le> i" using assms Some by (auto simp: heap_index_def split: if_splits)
  then have "heap_get32 ((OsHeap s)(i := v)) k = heap_get32 (OsHeap s) k" by (intro heap_get32_cong) auto
  moreover have "heap_index (args + 4 * j) (s\<lparr>OsHeap := (OsHeap s)(i := v)\<rparr>) = Some k" using Some heap_write_ok(3) [OF assms(1)] by simp
  ultimately show ?thesis using Some by (simp add: token_ptr_def word_read_def Heap_read32_def k)
next
  case None
  moreover have "heap_index (args + 4 * j) (s\<lparr>OsHeap := (OsHeap s)(i := v)\<rparr>) = None" using None heap_write_ok(3) [OF assms(1)] by simp
  ultimately show ?thesis by (simp add: token_ptr_def word_read_def)
qed

lemma token_put_ok:
  assumes a: "token_area s args bs" and c: "unat cnt < length bs" and w: "unat w \<le> 10"
  shows "\<exists>t. token_put args cnt w v s = Some t \<and> token_area t args bs \<and>
    (\<forall>q. any_read q t = (if q = bs ! unat cnt + unat w then Some v else any_read q s))"
proof -
  let ?p = "bs ! unat cnt + unat w"
  have "heap_index ?p s \<noteq> None" using a c w unfolding token_area_def by blast
  then obtain i where i: "heap_index ?p s = Some i" by blast
  let ?t = "s\<lparr>OsHeap := (OsHeap s)(i := v)\<rparr>"
  have "token_ptr args j ?t = token_ptr args j s" if "j < length bs" for j
  proof (rule token_ptr_other [OF i])
    have "bs ! unat cnt + 10 < args \<or> args + 4 * length bs \<le> bs ! unat cnt" using a c by (simp add: token_area_def)
    then show "?p < args + 4 * j \<or> args + 4 * j + 4 \<le> ?p" using that w by auto
  qed
  then have "token_area ?t args bs" using a unfolding token_area_def by (simp add: heap_write_ok(3) [OF i])
  moreover have "token_put args cnt w v s = Some ?t" using a c heap_write_ok(1) [OF i] by (simp add: token_put_def token_area_def)
  ultimately show ?thesis using heap_write_ok(2) [OF i] by blast
qed


subsection \<open>The loop\<close>

text \<open>The buffers hold the finished tokens \<open>ts\<close>, each with its zero byte, and the token begun.\<close>

definition tokens_in :: "'a ringbuf_state_scheme \<Rightarrow> ptr \<Rightarrow> ptr list \<Rightarrow> U8_t list list \<Rightarrow> U8_t list \<Rightarrow> bool" where
  "tokens_in s args bs ts acc \<longleftrightarrow> token_area s args bs \<and> length ts < length bs \<and> length acc \<le> 10 \<and> (\<forall>t \<in> set ts. length t \<le> 10) \<and>
     (\<forall>j < length ts. holds s (bs ! j) (ts ! j @ [0])) \<and> holds s (bs ! length ts) acc"

lemma holds_keep: "holds s p cs \<Longrightarrow> (\<And>k. k < length cs \<Longrightarrow> any_read (p + k) t = any_read (p + k) s) \<Longrightarrow> holds t p cs"
  by (simp add: holds_def)

lemma tokens_in_put:
  assumes t: "tokens_in s args bs ts acc" and c: "unat cnt = length ts" and w: "unat w = length acc"
  obtains t where "token_put args cnt w v s = Some t" "token_area t args bs" "holds t (bs ! length ts) (acc @ [v])"
    "\<And>j. j < length ts \<Longrightarrow> holds t (bs ! j) (ts ! j @ [0])"
proof -
  have a: "token_area s args bs" "unat cnt < length bs" "unat w \<le> 10" using assms by (auto simp: tokens_in_def)
  obtain t where p: "token_put args cnt w v s = Some t" "token_area t args bs"
    and r: "\<forall>q. any_read q t = (if q = bs ! length ts + length acc then Some v else any_read q s)"
    using token_put_ok [OF a] c w by auto
  have "holds t (bs ! length ts) acc"
    by (rule holds_keep [of s]) (use t r in \<open>simp_all add: tokens_in_def\<close>)
  then have "holds t (bs ! length ts) (acc @ [v])" unfolding holds_append using r by (simp add: holds_def)
  moreover have "holds t (bs ! j) (ts ! j @ [0])" if j: "j < length ts" for j
  proof (rule holds_keep [of s])
    show "holds s (bs ! j) (ts ! j @ [0])" using t j by (simp add: tokens_in_def)
    have "bs ! j + 10 < bs ! length ts \<or> bs ! length ts + 10 < bs ! j" "length (ts ! j) \<le> 10" "length acc \<le> 10"
      using t j by (auto simp: tokens_in_def token_area_def)
    then show "any_read (bs ! j + k) t = any_read (bs ! j + k) s" if "k < length (ts ! j @ [0])" for k using r that by auto
  qed
  ultimately show thesis using that p by blast
qed

lemma drop_Cons_nth: "drop i xs = y # ys \<Longrightarrow> i < length xs \<and> xs ! i = y \<and> drop (i + 1) xs = ys"
proof -
  assume d: "drop i xs = y # ys"
  then have "i < length xs" by (cases "i < length xs") simp_all
  then show ?thesis using Cons_nth_drop_Suc [of i xs] d by simp
qed

lemma split_loop:
  assumes "tokens_in s args bs ts acc" and "drop i line = cs @ 0 # rest" and "i + length cs < 200" and "0 \<notin> set cs"
    and "unat cnt = length ts" and "unat w = length acc" and "length ts + length (split_line acc cs) \<le> length bs" and "length bs \<le> 10"
    and "\<forall>t \<in> set (split_line acc cs). length t \<le> 10"
  shows "\<exists>cnt' w' t us u. IShellSplitLine_loop line args cnt w i s = Some ((cnt', w'), t) \<and> tokens_in t args bs us u \<and>
    us @ [u] = ts @ split_line acc cs \<and> unat cnt' = length us \<and> unat w' = length u"
  using assms
proof (induction cs arbitrary: s ts acc i cnt w)
  case Nil
  have "line ! i = 0" "i < length line" using drop_Cons_nth [of i line 0 rest] Nil.prems(2) by simp_all
  then have "IShellSplitLine_loop line args cnt w i s = Some ((cnt, w), s)"
    by (subst IShellSplitLine_loop.simps) simp
  then show ?case using Nil.prems by auto
next
  case (Cons c cs)
  have at: "line ! i = c" "i < length line" "drop (i + 1) line = cs @ 0 # rest"
    using drop_Cons_nth [of i line c "cs @ 0 # rest"] Cons.prems(2) by simp_all
  have i: "i < SHELL_MAX_LINE_LENGTH" "i + 1 + length cs < 200" "c \<noteq> 0" "0 \<notin> set cs"
    using Cons.prems(3,4) by (auto simp: SHELL_MAX_LINE_LENGTH_def)
  note step = IShellSplitLine_loop.simps [of line args cnt w i s]
  consider "c = 0x20" | "c = 0x3D" | "c \<noteq> 0x20" "c \<noteq> 0x3D" by blast
  then show ?case
  proof cases
    case 1
    obtain t where t: "token_put args cnt w 0 s = Some t" "token_area t args bs" "holds t (bs ! length ts) (acc @ [0])"
      "\<And>j. j < length ts \<Longrightarrow> holds t (bs ! j) (ts ! j @ [0])"
      by (rule tokens_in_put [OF Cons.prems(1,5,6), of 0]) blast
    obtain u us where "split_line [] cs = u # us" using split_line_first by blast
    then have len: "length ts + 1 + length (split_line [] cs) \<le> length bs" "length ts + 1 < length bs" "\<forall>t \<in> set (split_line [] cs). length t \<le> 10"
      using 1 Cons.prems(7,9) by auto
    have cnt: "unat (cnt + 1) = length (ts @ [acc])" "\<not> cnt + 1 > 10"
      using Cons.prems(5,8) len(2) by (simp_all add: word_less_nat_alt unat_word_ariths)
    have "tokens_in t args bs (ts @ [acc]) []"
      using Cons.prems(1) t len(2) by (auto simp: tokens_in_def nth_append less_Suc_eq holds_def)
    from Cons.IH [OF this at(3) i(2,4) cnt(1) _ _ Cons.prems(8), of 0] len
    show ?thesis using step at i(1,3) 1 t(1) cnt(2)
      by (simp add: SplitChars_def SHELL_MAX_TOKEN_LENGTH_def)
  next
    case 2
    with Cons.IH [OF Cons.prems(1) at(3) i(2,4) Cons.prems(5,6) _ Cons.prems(8)] Cons.prems(7,9)
    show ?thesis using step at i(1,3) by (simp add: SplitChars_def IgnoreChars_def)
  next
    case 3
    obtain t where t: "token_put args cnt w c s = Some t" "token_area t args bs" "holds t (bs ! length ts) (acc @ [c])"
      "\<And>j. j < length ts \<Longrightarrow> holds t (bs ! j) (ts ! j @ [0])"
      by (rule tokens_in_put [OF Cons.prems(1,5,6), of c]) blast
    obtain u us where "split_line (acc @ [c]) cs = ((acc @ [c]) @ u) # us" using split_line_first by blast
    then have len: "length (acc @ [c]) \<le> 10" using 3 Cons.prems(9) by auto
    have w: "unat (w + 1) = length (acc @ [c])" "\<not> w + 1 > 10"
      using Cons.prems(6) len by (simp_all add: word_less_nat_alt unat_word_ariths)
    have "tokens_in t args bs ts (acc @ [c])" using Cons.prems(1) t len by (simp add: tokens_in_def)
    from Cons.IH [OF this at(3) i(2,4) Cons.prems(5) w(1) _ Cons.prems(8)] Cons.prems(7,9) 3
    show ?thesis using step at i(1,3) t(1) w(2)
      by (simp add: SplitChars_def IgnoreChars_def SHELL_MAX_TOKEN_COUNT_def)
  qed
qed


text \<open>
  C38. A line of at most ten tokens, of at most ten characters each, is split as the specification says: the result is the
  number of tokens, and the pointer of each token leads to a string that is that token. Spaces separate the tokens, two in a
  row have an empty one between them, and equals signs are left out. The buffers must have eleven bytes each: the shell
  allocates ten.
\<close>

theorem shell_line_split:
  assumes "token_area s args bs" and "0 \<notin> set cs" and "length cs < 200" and "length (split_line [] cs) \<le> length bs" and "length bs \<le> 10"
    and "\<forall>t \<in> set (split_line [] cs). length t \<le> 10"
  shows "\<exists>t. IShellSplitLine (cs @ 0 # rest) args s = Some (word_of_nat (length (split_line [] cs)), t) \<and>
    (\<forall>j < length (split_line [] cs). \<exists>p. token_ptr args j t = Some p \<and> c_string p t = Some (split_line [] cs ! j))"
proof -
  let ?ts = "split_line [] cs" and ?line = "cs @ 0 # rest"
  obtain u0 us0 where "?ts = u0 # us0" using split_line_first by blast
  then have "tokens_in s args bs [] []" using assms(1,4) by (auto simp: tokens_in_def holds_def)
  moreover have "drop 0 ?line = cs @ 0 # rest" by simp
  ultimately obtain cnt w t us u where l: "IShellSplitLine_loop ?line args 0 0 0 s = Some ((cnt, w), t)" "tokens_in t args bs us u"
    "us @ [u] = ?ts" "unat cnt = length us" "unat w = length u"
    using split_loop [of s args bs "[]" "[]" 0 ?line cs rest 0 0] assms(2-6) by auto
  obtain v where v: "token_put args cnt w 0 t = Some v" "token_area v args bs" "holds v (bs ! length us) (u @ [0])"
    "\<And>j. j < length us \<Longrightarrow> holds v (bs ! j) (us ! j @ [0])"
    by (rule tokens_in_put [OF l(2,4,5), of 0]) blast
  have n: "length ?ts = Suc (length us)" using arg_cong [OF l(3), of length] by simp
  have "(word_of_nat (unat cnt) :: U8_t) = cnt" by simp
  then have "word_of_nat (length ?ts) = cnt + 1" using l(4) n by simp
  then have "IShellSplitLine ?line args s = Some (word_of_nat (length ?ts), v)" using l(1) v(1) by (simp add: IShellSplitLine_def)
  moreover have "token_ptr args j v = Some (bs ! j) \<and> c_string (bs ! j) v = Some (?ts ! j)" if j: "j < length ?ts" for j
  proof -
    have "holds v (bs ! j) (?ts ! j @ [0])"
      using v(3,4) j n unfolding l(3) [symmetric] by (cases "j = length us") (auto simp: nth_append)
    moreover have "0 \<notin> set (?ts ! j)" using split_line_nonzero [of "[]" cs] assms(2) j by simp
    ultimately show ?thesis using holds_string v(2) j assms(4) by (auto simp: token_area_def)
  qed
  ultimately show ?thesis by blast
qed

text \<open>The line \<^verbatim>\<open>run 1=A\<close>, with two token buffers at 0x1020 and 0x1030.\<close>

definition split_start :: shell_state where
  "split_start = shell_bss\<lparr>HeapBase := 0x1000, TotalHeapSize := 128,
     OsHeap := heap_put32 (heap_put32 (\<lambda>_. 0) 4 0x1020) 8 0x1030\<rparr>"

theorem shell_line_split_witness:
  "\<exists>t p q. IShellSplitLine [0x72, 0x75, 0x6E, 0x20, 0x31, 0x3D, 0x41, 0, 9] 0x1004 split_start = Some (2, t) \<and>
     token_ptr 0x1004 0 t = Some p \<and> c_string p t = Some [0x72, 0x75, 0x6E] \<and>
     token_ptr 0x1004 1 t = Some q \<and> c_string q t = Some [0x31, 0x41]"
proof -
  have h: "heap_get32 (OsHeap split_start) 4 = 0x1020" "heap_get32 (OsHeap split_start) 8 = 0x1030"
    unfolding split_start_def by (simp_all add: heap_get_put32) (simp add: heap_get32_def heap_put32_def)
  have i: "heap_index (0x1000 + j) split_start = Some j" if "j < 128" for j
    using that by (auto simp: heap_index_def split_start_def)
  have "token_ptr 0x1004 0 split_start = Some 0x1020" "token_ptr 0x1004 1 split_start = Some 0x1030"
    using h i [of 4] i [of 8] by (simp_all add: token_ptr_def word_read_def Heap_read32_def) (simp_all add: split_start_def)
  then have "token_area split_start 0x1004 [0x1020, 0x1030]"
    using i [of "0x20 + k" for k] i [of "0x30 + k" for k] by (auto simp: token_area_def all_less_two)
  from shell_line_split [OF this, of "[0x72, 0x75, 0x6E, 0x20, 0x31, 0x3D, 0x41]" "[9]"]
  show ?thesis by (simp add: all_less_two) blast
qed

end
