(* ===== verification/ShellOutput.thy ===== *)
theory ShellOutput
  imports Shell
begin

text \<open>
  The output functions of \<^verbatim>\<open>Shell.c\<close> when \<^verbatim>\<open>SHELL_CONFIG_USE_TX_RINGBUF\<close> is defined. A call is modelled from the text
  that its format and arguments expand to (an argument list that is read twice is taken to give the same text). The bytes of
  allocated memory that the code does not write are \<open>junk\<close>, and \<open>grown\<close> says whether \<^verbatim>\<open>realloc\<close> succeeds.
\<close>

definition SHELL_MSG_START_LENGTH :: nat where "SHELL_MSG_START_LENGTH = 5"

definition ShellMessageStart :: "U8_t list" where "ShellMessageStart = [0x0A, 0x70, 0x73, 0x68, 0x3E, 0]"

subsection \<open>Buffers and formatted output of the standard library\<close>

definition malloc_buffer :: "(nat \<Rightarrow> U8_t) \<Rightarrow> nat \<Rightarrow> U8_t list" where
  "malloc_buffer junk n = map junk [0 ..< n]"

definition realloc_buffer :: "(nat \<Rightarrow> U8_t) \<Rightarrow> bool \<Rightarrow> U8_t list \<Rightarrow> nat \<Rightarrow> U8_t list option" where
  "realloc_buffer junk grown buf n = (if grown then Some (take n buf @ map junk [length buf ..< n]) else None)"

text \<open>
  \<^verbatim>\<open>vsnprintf(&buf[off], n, ...)\<close>: at most \<open>n\<close> bytes, the last of them zero. Writing past the buffer is \<open>None\<close>. The result of
  the call is the length of the whole text.
\<close>

definition vsnprintf_at :: "nat \<Rightarrow> nat \<Rightarrow> U8_t list \<Rightarrow> U8_t list \<Rightarrow> U8_t list option" where
  "vsnprintf_at off n txt buf =
     (if n = 0 then Some buf
      else if off + min n (length txt + 1) \<le> length buf
      then Some (take off buf @ take (n - 1) txt @ 0 # drop (off + min n (length txt + 1)) buf)
      else None)"

subsection \<open>The messages\<close>

text \<open>The buffer and the amount that are written to the ring buffer, or \<open>Some None\<close> when there is no memory.\<close>

definition ShellPutRaw_buffer :: "(nat \<Rightarrow> U8_t) \<Rightarrow> bool \<Rightarrow> U8_t list \<Rightarrow> (U8_t list \<times> nat) option option" where
  "ShellPutRaw_buffer junk grown txt = do {
     let est_size = 30;
     let msg_buffer = malloc_buffer junk est_size;
     msg_buffer \<leftarrow> vsnprintf_at 0 est_size txt msg_buffer;
     let act_size = length txt;
     if act_size > est_size then
       (case realloc_buffer junk grown msg_buffer act_size of
          None \<Rightarrow> Some None
        | Some msg_buffer \<Rightarrow> do { msg_buffer \<leftarrow> vsnprintf_at 0 act_size txt msg_buffer; Some (Some (msg_buffer, act_size)) })
     else Some (Some (msg_buffer, act_size))
   }"

definition ShellPutRawNewline_buffer :: "(nat \<Rightarrow> U8_t) \<Rightarrow> bool \<Rightarrow> U8_t list \<Rightarrow> (U8_t list \<times> nat) option option" where
  "ShellPutRawNewline_buffer junk grown txt = do {
     let est_size = 30;
     let msg_buffer = (malloc_buffer junk est_size)[0 := 0x0A];
     msg_buffer \<leftarrow> vsnprintf_at 1 (est_size - 1) txt msg_buffer;
     let act_size = length txt;
     if act_size > est_size - 1 then
       (case realloc_buffer junk grown msg_buffer (act_size + 1) of
          None \<Rightarrow> Some None
        | Some msg_buffer \<Rightarrow> do {
            msg_buffer \<leftarrow> vsnprintf_at 0 act_size txt msg_buffer;
            msg_buffer \<leftarrow> vsnprintf_at 1 (act_size - 1) txt msg_buffer;
            Some (Some (msg_buffer, act_size + 1))
          })
     else Some (Some (msg_buffer, act_size + 1))
   }"

definition ShellPut_buffer :: "(nat \<Rightarrow> U8_t) \<Rightarrow> bool \<Rightarrow> U8_t list \<Rightarrow> (U8_t list \<times> nat) option option" where
  "ShellPut_buffer junk grown txt = do {
     let est_size = 30;
     let msg_buffer = malloc_buffer junk est_size;
     let offset = SHELL_MSG_START_LENGTH;
     let msg_buffer = take offset ShellMessageStart @ drop offset msg_buffer;
     msg_buffer \<leftarrow> vsnprintf_at offset (est_size - offset) txt msg_buffer;
     let act_size = length txt;
     if act_size > est_size - offset then
       (case realloc_buffer junk grown msg_buffer (act_size + offset) of
          None \<Rightarrow> Some None
        | Some msg_buffer \<Rightarrow> do {
            msg_buffer \<leftarrow> vsnprintf_at offset (act_size - offset) txt msg_buffer;
            Some (Some (msg_buffer, act_size + offset))
          })
     else Some (Some (msg_buffer, act_size + offset))
   }"

text \<open>What the three functions do with it: \<open>tx\<close> is the ID of the ring buffer \<^verbatim>\<open>ShellTxRingbuf\<close>.\<close>

definition shell_transmit ::
  "(U8_t list \<times> nat) option option \<Rightarrow> Id_t \<Rightarrow> 'a shell_state_scheme \<Rightarrow> (U16_t \<times> 'a shell_state_scheme) option" where
  "shell_transmit put tx s = do {
     b \<leftarrow> put;
     (case b of
        None \<Rightarrow> Some (0, s)
      | Some (msg_buffer, act_size) \<Rightarrow> do {
          ((r, act_size), s) \<leftarrow> RingbufWrite tx msg_buffer (word_of_nat act_size) OS_TIMEOUT_INFINITE s;
          Some (ucast act_size, s)
        })
   }"

definition ShellPutRaw ::
  "(nat \<Rightarrow> U8_t) \<Rightarrow> bool \<Rightarrow> U8_t list \<Rightarrow> Id_t \<Rightarrow> 'a shell_state_scheme \<Rightarrow> (U16_t \<times> 'a shell_state_scheme) option" where
  "ShellPutRaw junk grown txt = shell_transmit (ShellPutRaw_buffer junk grown txt)"

definition ShellPutRawNewline ::
  "(nat \<Rightarrow> U8_t) \<Rightarrow> bool \<Rightarrow> U8_t list \<Rightarrow> Id_t \<Rightarrow> 'a shell_state_scheme \<Rightarrow> (U16_t \<times> 'a shell_state_scheme) option" where
  "ShellPutRawNewline junk grown txt = shell_transmit (ShellPutRawNewline_buffer junk grown txt)"

definition ShellPut ::
  "(nat \<Rightarrow> U8_t) \<Rightarrow> bool \<Rightarrow> U8_t list \<Rightarrow> Id_t \<Rightarrow> 'a shell_state_scheme \<Rightarrow> (U16_t \<times> 'a shell_state_scheme) option" where
  "ShellPut junk grown txt = shell_transmit (ShellPut_buffer junk grown txt)"

subsection \<open>What is transmitted\<close>

lemma vsnprintf_fits:
  "length txt < n \<Longrightarrow> off + n \<le> length buf \<Longrightarrow>
   vsnprintf_at off n txt buf = Some (take off buf @ txt @ 0 # drop (off + length txt + 1) buf)"
proof -
  assume "length txt < n" "off + n \<le> length buf"
  moreover have "min n (length txt + 1) = length txt + 1" using calculation(1) by simp
  ultimately show ?thesis by (simp add: vsnprintf_at_def)
qed

lemma vsnprintf_cut:
  "0 < n \<Longrightarrow> n \<le> length txt \<Longrightarrow> off + n \<le> length buf \<Longrightarrow>
   vsnprintf_at off n txt buf = Some (take off buf @ take (n - 1) txt @ 0 # drop (off + n) buf)"
  by (auto simp: vsnprintf_at_def min_def)

lemma length_malloc [simp]: "length (malloc_buffer junk n) = n"
  by (simp add: malloc_buffer_def)

text \<open>The bytes that go into the ring buffer.\<close>

definition sent :: "(U8_t list \<times> nat) option option \<Rightarrow> U8_t list option" where
  "sent put = do { b \<leftarrow> put; (buf, n) \<leftarrow> b; if n \<le> length buf then Some (take n buf) else None }"

lemma sent_raw: "sent (ShellPutRaw_buffer junk True txt) = Some (if length txt < 30 then txt else butlast txt @ [0])"
proof -
  let ?n = "length txt" and ?m = "malloc_buffer junk 30"
  consider "?n < 30" | "?n = 30" | "30 < ?n" by linarith
  then show ?thesis
  proof cases
    case 1
    then show ?thesis by (simp add: ShellPutRaw_buffer_def sent_def vsnprintf_fits)
  next
    case 2
    then show ?thesis by (simp add: ShellPutRaw_buffer_def sent_def vsnprintf_cut butlast_conv_take)
  next
    case 3
    then have ne: "txt \<noteq> []" by auto
    let ?b = "take 29 txt @ 0 # map junk [30 ..< ?n]"
    have "vsnprintf_at 0 30 txt ?m = Some (take 29 txt @ 0 # drop 30 ?m)" using 3 by (simp add: vsnprintf_cut)
    moreover have "vsnprintf_at 0 ?n txt ?b = Some (butlast txt @ [0])"
      using 3 ne vsnprintf_cut [of ?n "txt" 0 ?b] by (simp add: butlast_conv_take)
    ultimately show ?thesis using 3 by (simp add: ShellPutRaw_buffer_def sent_def realloc_buffer_def)
  qed
qed

lemma sent_newline: "sent (ShellPutRawNewline_buffer junk True txt) = Some
  (let n = length txt in if n < 29 then 0x0A # txt else if n = 29 then 0x0A # butlast txt @ [0]
   else hd txt # take (n - 2) txt @ [0, junk n])"
proof -
  let ?n = "length txt" and ?m = "(malloc_buffer junk 30)[0 := 0x0A]"
  have one: "take 1 ?m = [0x0A]" by (simp add: malloc_buffer_def upt_rec)
  consider "?n < 29" | "?n = 29" | "29 < ?n" by linarith
  then show ?thesis
  proof cases
    case 1
    then show ?thesis using one by (simp add: ShellPutRawNewline_buffer_def sent_def vsnprintf_fits)
  next
    case 2
    then show ?thesis using one by (simp add: ShellPutRawNewline_buffer_def sent_def vsnprintf_cut butlast_conv_take)
  next
    case 3
    then obtain c cs where c: "txt = c # cs" by (cases "txt") auto
    then have ne: "txt \<noteq> []" "cs \<noteq> []" using 3 by auto
    let ?b = "0x0A # take 28 txt @ 0 # map junk [30 ..< Suc ?n]"
    have b: "length ?b = Suc ?n" "drop ?n ?b = [junk ?n]"
      using 3 ne by (simp_all add: drop_Cons' drop_map)
    have "vsnprintf_at 1 29 txt ?m = Some (0x0A # take 28 txt @ [0])" using 3 one by (simp add: vsnprintf_cut)
    moreover have "vsnprintf_at 0 ?n txt ?b = Some (butlast txt @ [0, junk ?n])"
      using 3 ne b vsnprintf_cut [of ?n "txt" 0 ?b] by (simp add: butlast_conv_take)
    moreover have "vsnprintf_at 1 (?n - 1) txt (butlast txt @ [0, junk ?n]) = Some (hd txt # take (?n - 2) txt @ [0, junk ?n])"
      using 3 c ne vsnprintf_cut [of "?n - 1" "txt" 1 "butlast txt @ [0, junk ?n]"] by (simp add: butlast_conv_take numeral_2_eq_2)
    ultimately show ?thesis using 3 by (simp add: ShellPutRawNewline_buffer_def sent_def realloc_buffer_def Let_def numeral_2_eq_2)
  qed
qed

lemma sent_put: "sent (ShellPut_buffer junk True txt) = Some
  (let n = length txt; start = take 5 ShellMessageStart in if n < 25 then start @ txt else if n = 25 then start @ butlast txt @ [0]
   else start @ take (n - 6) txt @ 0 # drop n (start @ take 24 txt @ 0 # map junk [30 ..< n + 5]))"
proof -
  let ?n = "length txt" and ?s = "take 5 ShellMessageStart" and ?m = "take 5 ShellMessageStart @ drop 5 (malloc_buffer junk 30)"
  have one: "length ?s = 5" by (simp add: ShellMessageStart_def)
  consider "?n < 25" | "?n = 25" | "25 < ?n" by linarith
  then show ?thesis
  proof cases
    case 1
    then show ?thesis using one by (simp add: ShellPut_buffer_def sent_def vsnprintf_fits SHELL_MSG_START_LENGTH_def)
  next
    case 2
    then show ?thesis using one by (simp add: ShellPut_buffer_def sent_def vsnprintf_cut butlast_conv_take SHELL_MSG_START_LENGTH_def)
  next
    case 3
    let ?b = "?s @ take 24 txt @ 0 # map junk [30 ..< ?n + 5]"
    have "vsnprintf_at 5 25 txt ?m = Some (?s @ take 24 txt @ [0])" using 3 one by (simp add: vsnprintf_cut)
    moreover have "vsnprintf_at 5 (?n - 5) txt ?b = Some (?s @ take (?n - 6) txt @ 0 # drop ?n ?b)"
      using 3 one vsnprintf_cut [of "?n - 5" "txt" 5 ?b] by simp
    ultimately show ?thesis using 3 one by (simp add: ShellPut_buffer_def sent_def realloc_buffer_def Let_def SHELL_MSG_START_LENGTH_def)
  qed
qed

text \<open>
  The three output functions send a short text unchanged, after the bytes they put in front of it. A text that does not fit
  the first estimate of 30 bytes is garbled: its last bytes are lost, and what is sent instead are a terminating zero and bytes of
  allocated memory that the code has never written. It never writes outside the buffer.
\<close>

lemma shell_messages:
  "sent (ShellPutRaw_buffer junk True txt) = Some (if length txt < 30 then txt else butlast txt @ [0]) \<and>
   sent (ShellPutRawNewline_buffer junk True txt) = Some
     (let n = length txt in if n < 29 then 0x0A # txt else if n = 29 then 0x0A # butlast txt @ [0]
      else hd txt # take (n - 2) txt @ [0, junk n]) \<and>
   sent (ShellPut_buffer junk True txt) = Some
     (let n = length txt; start = take 5 ShellMessageStart in
      if n < 25 then start @ txt else if n = 25 then start @ butlast txt @ [0]
      else start @ take (n - 6) txt @ 0 # drop n (start @ take 24 txt @ 0 # map junk [30 ..< n + 5]))"
  by (intro conjI sent_raw sent_newline sent_put)

end
