(* ===== verification/SwitchProps.thy ===== *)
theory SwitchProps
  imports Kernel RunQueue "HOL-Library.Multiset"
begin

text \<open>
  The task switch: where the running task goes, which task runs next, and that the lists of tasks stay well formed.
\<close>

subsection \<open>The lists of tasks\<close>

text \<open>
  The running task \<open>r\<close>, the tasks \<open>a\<close> in the task list and \<open>w\<close> in the wait list, both in order of their IDs, and the execution
  queue \<open>q\<close>. No two of these tasks have the same ID, and no task is marked to be deleted. \<open>E p\<close> are the events the task \<open>p\<close> waits
  for. The idle task waits for none, and is running, ready or in the task list.
\<close>

definition tasks_ok :: "'a message_state_scheme \<Rightarrow> (ptr \<Rightarrow> ptr list) \<Rightarrow> ptr \<Rightarrow> ptr list \<Rightarrow> ptr list \<Rightarrow> ptr list \<Rightarrow> bool" where
  "tasks_ok s E r a w q \<longleftrightarrow> crit_ok s \<and> KCoreFlagGet CORE_FLAG_KERNEL_MODE s \<noteq> 0 \<and> kr_tcb_running (KernelReg s) = r \<and>
     TcbRunning s = r \<and> kr_tcb_list (KernelReg s) = TcbList \<and> kr_tcb_wait_list (KernelReg s) = TcbWaitList \<and>
     is_list s TcbList a \<and> sorted_wrt (<) (map (nid s) a) \<and> list_unlocked s TcbList \<and>
     sorted_list s TcbWaitList w \<and> list_unlocked s TcbWaitList \<and>
     is_list s ExecutionQueue q \<and> list_unlocked s ExecutionQueue \<and>
     distinct (map (nid s) (r # a @ w @ q)) \<and> length a + length w + length q < 255 \<and>
     (\<forall>p \<in> set (r # a @ w @ q). task_node s p \<and> (\<exists>T. tcbs s p = Some T \<and> t_flags T AND TASK_FLAG_DELETE = 0) \<and>
        is_list s (LIn p) (E p) \<and> list_unlocked s (LIn p) \<and> set (E p) \<inter> set (r # a @ w @ q) = {}) \<and>
     kr_tcb_idle (KernelReg s) \<in> set (r # a @ q) \<and> E (kr_tcb_idle (KernelReg s)) = []"

text \<open>The header of the task list, too, says that it is sorted, and its middle pointer is null or points into the list.\<close>

definition switch_ok :: "'a message_state_scheme \<Rightarrow> (ptr \<Rightarrow> ptr list) \<Rightarrow> ptr \<Rightarrow> ptr list \<Rightarrow> ptr list \<Rightarrow> ptr list \<Rightarrow> bool" where
  "switch_ok s E r a w q \<longleftrightarrow> tasks_ok s E r a w q \<and> sorted_list s TcbList a"

lemma switch_okD:
  assumes "switch_ok s E r a w q"
  shows "crit_ok s" "KCoreFlagGet CORE_FLAG_KERNEL_MODE s \<noteq> 0" "kr_tcb_running (KernelReg s) = r"
    "kr_tcb_list (KernelReg s) = TcbList" "kr_tcb_wait_list (KernelReg s) = TcbWaitList"
    "sorted_list s TcbList a" "list_unlocked s TcbList" "sorted_list s TcbWaitList w" "list_unlocked s TcbWaitList"
    "is_list s ExecutionQueue q" "list_unlocked s ExecutionQueue"
    "distinct (map (nid s) (r # a @ w @ q))" "distinct (r # a @ w @ q)" "length a + length w + length q < 255"
    "\<And>p. p \<in> set (r # a @ w @ q) \<Longrightarrow> task_node s p"
    "\<And>p. p \<in> set (r # a @ w @ q) \<Longrightarrow> \<exists>T. tcbs s p = Some T \<and> t_flags T AND TASK_FLAG_DELETE = 0"
    "\<And>p. p \<in> set (r # a @ w @ q) \<Longrightarrow> is_list s (LIn p) (E p)"
    "\<And>p. p \<in> set (r # a @ w @ q) \<Longrightarrow> list_unlocked s (LIn p)"
    "\<And>p. p \<in> set (r # a @ w @ q) \<Longrightarrow> set (E p) \<inter> set (r # a @ w @ q) = {}"
    "kr_tcb_idle (KernelReg s) \<in> set (r # a @ q)" "E (kr_tcb_idle (KernelReg s)) = []"
proof -
  show "distinct (map (nid s) (r # a @ w @ q))" using assms unfolding switch_ok_def tasks_ok_def by blast
  then show "distinct (r # a @ w @ q)" unfolding distinct_map by blast
qed (use assms in \<open>unfold switch_ok_def tasks_ok_def, blast\<close>)+

text \<open>What a few operations on lists change together: the nodes \<open>N\<close> and the lists \<open>L\<close>, their payload and their locks apart.\<close>

definition lists_frame :: "'a task_state_scheme \<Rightarrow> 'a task_state_scheme \<Rightarrow> lptr set \<Rightarrow> ptr set \<Rightarrow> bool" where
  "lists_frame s t L N \<longleftrightarrow> t = s\<lparr>nodes := nodes t, lists := lists t\<rparr> \<and> (\<forall>l. l \<notin> L \<longrightarrow> lists t l = lists s l) \<and>
     (\<forall>p. p \<notin> N \<longrightarrow> nodes t p = nodes s p) \<and> same_payload (nodes s) (nodes t) \<and> crit_ok t = crit_ok s \<and>
     (\<forall>l. list_unlocked s l \<longrightarrow> list_unlocked t l)"

lemma lists_frame_refl: "lists_frame s s L N"
  by (simp add: lists_frame_def)

lemma lists_frame_one:
  assumes "list_frame s t l N" and "l \<in> L" and "N \<subseteq> M"
  shows "lists_frame s t L M"
proof -
  have "crit_ok t = crit_ok s" "\<And>k. list_unlocked s k \<Longrightarrow> list_unlocked t k"
    using list_frame_crit [OF assms(1)] list_frame_unlocked [OF assms(1)] by blast+
  moreover have "lists t k = lists s k" if "k \<notin> L" for k using assms(1,2) that by (auto simp: list_frame_def)
  moreover have "nodes t p = nodes s p" if "p \<notin> M" for p using assms(1,3) that unfolding list_frame_def by blast
  ultimately show ?thesis using assms(1) by (simp add: lists_frame_def list_frame_def)
qed

lemma lists_frame_trans:
  assumes "lists_frame s t L N" and "lists_frame t u L N"
  shows "lists_frame s u L N"
proof -
  have t: "t = s\<lparr>nodes := nodes t, lists := lists t\<rparr>" and u: "u = t\<lparr>nodes := nodes u, lists := lists u\<rparr>"
    using assms by (simp_all add: lists_frame_def)
  have "u = s\<lparr>nodes := nodes u, lists := lists u\<rparr>" by (subst u, subst t) simp
  moreover have "same_payload (nodes s) (nodes u)" using assms same_payload_trans unfolding lists_frame_def by blast
  ultimately show ?thesis using assms unfolding lists_frame_def by simp
qed

lemma same_payload_nid: "same_payload (nodes s) (nodes t) \<Longrightarrow> nid t = nid s"
proof
  fix x
  assume p: "same_payload (nodes s) (nodes t)"
  then have "map_option (\<lambda>n. n\<lparr>next_node := NULL, prev_node := NULL\<rparr>) (nodes s x) = map_option (\<lambda>n. n\<lparr>next_node := NULL, prev_node := NULL\<rparr>) (nodes t x)"
    by (simp add: same_payload_def)
  then show "nid t x = nid s x"
    using p by (cases "nodes s x") (auto simp: nid_def elim!: same_payload_fields)
qed

lemma lists_frame_fields:
  assumes "lists_frame s t L N"
  shows "nid t = nid s" "KernelReg t = KernelReg s" "tcbs t = tcbs s" "list_unlocked s l \<Longrightarrow> list_unlocked t l"
    "crit_ok t = crit_ok s" "task_node s p \<Longrightarrow> task_node t p" "l \<notin> L \<Longrightarrow> set ys \<inter> N = {} \<Longrightarrow> is_list s l ys \<Longrightarrow> is_list t l ys"
    "l \<notin> L \<Longrightarrow> set ys \<inter> N = {} \<Longrightarrow> sorted_list s l ys \<Longrightarrow> sorted_list t l ys"
proof -
  obtain h ls where t: "t = s\<lparr>nodes := h, lists := ls\<rparr>" using assms unfolding lists_frame_def by blast
  show e: "KernelReg t = KernelReg s" "tcbs t = tcbs s" by (simp_all add: t)
  show "list_unlocked s l \<Longrightarrow> list_unlocked t l" "crit_ok t = crit_ok s" using assms by (simp_all add: lists_frame_def)
  have p: "same_payload (nodes s) (nodes t)" using assms by (simp add: lists_frame_def)
  show "task_node s p \<Longrightarrow> task_node t p" using e(2) p by (auto simp: task_node_def elim!: same_payload_fields)
  show id: "nid t = nid s" by (rule same_payload_nid [OF p])
  have l: "is_list t l ys" if "l \<notin> L" "set ys \<inter> N = {}" "is_list s l ys"
  proof -
    have "dseg (nodes t) NULL ys NULL = dseg (nodes s) NULL ys NULL"
      using assms that by (intro dseg_cong) (auto simp: lists_frame_def)
    moreover have "ll_at l t = ll_at l s" using assms that by (simp add: ll_at_def lists_frame_def)
    ultimately show ?thesis using that by (simp add: is_list_def)
  qed
  then show "l \<notin> L \<Longrightarrow> set ys \<inter> N = {} \<Longrightarrow> is_list s l ys \<Longrightarrow> is_list t l ys" .
  show "sorted_list t l ys" if "l \<notin> L" "set ys \<inter> N = {}" "sorted_list s l ys"
    using that l assms by (auto simp: sorted_list_def id ll_at_def lists_frame_def)
qed

lemma list_props_tcbs [simp]:
  "sorted_list (s\<lparr>tcbs := f\<rparr>) l xs = sorted_list s l xs" "is_list (s\<lparr>tcbs := f\<rparr>) l xs = is_list s l xs"
  "list_unlocked (s\<lparr>tcbs := f\<rparr>) l = list_unlocked s l" "nid (s\<lparr>tcbs := f\<rparr>) = nid s" "crit_ok (s\<lparr>tcbs := f\<rparr>) = crit_ok s"
  by (simp_all add: sorted_list_def is_list_def list_unlocked_def ll_at_def nid_def [abs_def] crit_ok_def)

text \<open>The state of the tasks after a switch from \<open>r\<close>, left in the state \<open>st\<close>, to \<open>v\<close>.\<close>

definition switched_tcbs :: "(ptr \<Rightarrow> Tcb_t option) \<Rightarrow> ptr \<Rightarrow> TaskState_t \<Rightarrow> ptr \<Rightarrow> ptr \<Rightarrow> Tcb_t option" where
  "switched_tcbs f r st v p = map_option (\<lambda>t. if p = v then t\<lparr>t_state := TASK_STATE_RUNNING\<rparr>
     else if p = r then t\<lparr>t_state := st\<rparr> else t) (f p)"

subsection \<open>Leaving\<close>

lemma leave_sorted:
  assumes s: "crit_ok s" "sorted_list s l xs" "list_unlocked s l" "length xs < 255" "task_node s r" "r \<notin> set xs" "nid s r \<notin> nid s ` set xs"
  shows "\<exists>t. ListNodeAddSorted l r (s\<lparr>tcbs := f\<rparr>) = Some (OS_RES_OK, t) \<and> sorted_list t l (insort_key (nid s) r xs) \<and>
    list_frame (s\<lparr>tcbs := f\<rparr>) t l (insert r (set xs))"
proof -
  obtain n where "nodes s r = Some n" "node_id n \<noteq> ID_INVALID" "r \<noteq> NULL" using s(5) by (auto simp: task_node_def)
  then have "node_at r (s\<lparr>tcbs := f\<rparr>) = Some n" by (simp add: node_at_def)
  from ListNodeAddSorted_ok [OF _ _ _ s(4) this \<open>node_id n \<noteq> ID_INVALID\<close> s(6)] s show ?thesis by simp
qed

lemma leave_ok:
  fixes E :: "ptr \<Rightarrow> ptr list"
  assumes ok: "switch_ok s E r a w q" and T: "tcb_at r s = Some T"
  defines "f \<equiv> (tcbs s)(r \<mapsto> T\<lparr>t_state := if E r = [] then TASK_STATE_IDLE else TASK_STATE_WAITING\<rparr>)"
    and "l \<equiv> if E r = [] then TcbList else TcbWaitList" and "xs \<equiv> if E r = [] then a else w"
  shows "\<exists>t. ICoreSwitchTask_leave s = Some t \<and> sorted_list t l (insort_key (nid s) r xs) \<and> list_frame (s\<lparr>tcbs := f\<rparr>) t l (insert r (set xs))"
proof -
  let ?es = "E r"
  note D = switch_okD [OF ok]
  have s: "crit_ok s" "is_list s (LIn r) ?es" "list_unlocked s (LIn r)" "kr_tcb_running (KernelReg s) = r"
    "kr_tcb_list (KernelReg s) = TcbList" "kr_tcb_wait_list (KernelReg s) = TcbWaitList"
    using D(1,3-5) D(17,18) [of r] by simp_all
  have del: "t_flags T AND TASK_FLAG_DELETE = 0" using D(16) [of r] T by (auto simp: tcb_at_def split: if_splits)
  obtain ll where ll: "ll_at (LIn r) s = Some ll" "unat (ll_size ll) = length ?es" "ll_lock ll = 0"
    using s(2,3) by (auto simp: is_list_def list_unlocked_def)
  have size: "ListSizeGet (LIn r) s = Some (ll_size ll, s)" "ll_size ll = 0 \<longleftrightarrow> ?es = []"
    using ListSizeGet_eq [OF s(1) ll(1)] ll(2,3) by (auto simp: unat_eq_zero)
  have upd: "KTaskStateSet r st s = Some (s\<lparr>tcbs := (tcbs s)(r \<mapsto> T\<lparr>t_state := st\<rparr>)\<rparr>)" for st
    using T by (simp add: KTaskStateSet_def tcb_update_def)
  have "sorted_list s l xs" "list_unlocked s l" "length xs < 255" "task_node s r" "r \<notin> set xs" "nid s r \<notin> nid s ` set xs"
    using D(6-9,12-14) D(15) [of r] by (auto simp: l_def xs_def)
  from leave_sorted [OF s(1) this, of f] obtain t where t: "ListNodeAddSorted l r (s\<lparr>tcbs := f\<rparr>) = Some (OS_RES_OK, t)"
    "sorted_list t l (insort_key (nid s) r xs)" "list_frame (s\<lparr>tcbs := f\<rparr>) t l (insert r (set xs))" by blast
  have "ICoreSwitchTask_leave s = Some t"
  proof (cases "?es = []")
    case True
    then show ?thesis using size upd s T del t(1)
      by (simp add: ICoreSwitchTask_leave_def KTaskFlagGet_def l_def f_def)
  next
    case False
    then show ?thesis using size upd s t(1) by (simp add: ICoreSwitchTask_leave_def l_def f_def)
  qed
  with t(2,3) show ?thesis by blast
qed


subsection \<open>The switch\<close>

text \<open>The next task in the queue, if there is one.\<close>

lemma queue_pop:
  assumes t: "crit_ok t" "is_list t ExecutionQueue q" "list_unlocked t ExecutionQueue" and q: "length q \<le> 255" "\<And>p. p \<in> set q \<Longrightarrow> task_node t p"
  shows "\<exists>u. KSchedulerQueueTaskPop t = Some (if q = [] then NULL else hd q, u) \<and> is_list u ExecutionQueue (tl q) \<and>
    list_frame t u ExecutionQueue (set q)"
proof (cases q)
  case Nil
  have "list_frame t t ExecutionQueue {}" using t(2) by (auto simp: list_frame_def is_list_def)
  then show ?thesis using QueueTaskPop_empty [of t] t Nil by auto
next
  case (Cons v vs)
  then show ?thesis using QueueTaskPop_frame [of t v vs] t q by auto
qed

text \<open>Otherwise the idle task is taken from the task list.\<close>

lemma idle_taken:
  assumes t: "crit_ok t" "sorted_list t TcbList xs" "list_unlocked t TcbList" "length xs \<le> 255" and v: "v \<in> set xs"
  shows "\<exists>u. ListNodeRemove TcbList v t = Some (v, u) \<and> is_list u TcbList (remove1 v xs) \<and> list_frame t u TcbList (set xs) \<and>
    (\<forall>ll. ll_at TcbList u = Some ll \<and> ll_middle ll \<noteq> v \<longrightarrow> sorted_list u TcbList (remove1 v xs))"
proof -
  obtain as bs where a: "xs = as @ v # bs" "v \<notin> set as" using v by (metis split_list_first)
  then have r: "remove1 v xs = as @ bs" by (simp add: remove1_append)
  have l: "is_list t TcbList (as @ v # bs)" using t(2) a(1) by (simp add: sorted_list_def)
  obtain u where u: "ListNodeRemove TcbList v t = Some (v, u)" "is_list u TcbList (as @ bs)" "list_frame t u TcbList (set (as @ v # bs))"
    "middle_kept t u TcbList (\<lambda>b. b)"
    using ListNodeRemove_ok [OF t(1) l t(3)] t(4) a(1) by auto
  have "sorted_list u TcbList (as @ bs)" if "ll_at TcbList u = Some ll" "ll_middle ll \<noteq> v" for ll
    by (rule sorted_list_remove [OF t(2) [unfolded a(1)] u(2-4)]) (use u(4) that in \<open>auto simp: middle_kept_def\<close>)
  then show ?thesis unfolding r a(1) [symmetric] using u a(1) by blast
qed

text \<open>Either way, the next task and the lists without it.\<close>

lemma next_taken:
  assumes t: "crit_ok t" "sorted_list t TcbList a" "is_list t ExecutionQueue q" "list_unlocked t TcbList" "list_unlocked t ExecutionQueue"
    and sets: "set a \<inter> set q = {}" "length a \<le> 255" "length q \<le> 255"
    and q: "\<And>p. p \<in> set q \<Longrightarrow> task_node t p" and v: "v = (if q = [] then idle else hd q)" "q = [] \<Longrightarrow> idle \<in> set a"
  defines "b \<equiv> if q = [] then remove1 v a else a"
  shows "\<exists>t1 t2. KSchedulerQueueTaskPop t = Some (if q = [] then NULL else hd q, t1) \<and> KernelReg t1 = KernelReg t \<and>
    (if q = [] then ListNodeRemove TcbList v t1 else Some (v, t1)) = Some (v, t2) \<and>
    lists_frame t t2 {TcbList, ExecutionQueue} (set a \<union> set q) \<and> is_list t2 TcbList b \<and> is_list t2 ExecutionQueue (tl q) \<and>
    (q \<noteq> [] \<or> (\<exists>ll. ll_at TcbList t2 = Some ll \<and> ll_middle ll \<noteq> v) \<longrightarrow> sorted_list t2 TcbList b)"
proof -
  have ne: "TcbList \<noteq> ExecutionQueue" by (simp add: TcbList_def ExecutionQueue_def)
  obtain t1 where t1: "KSchedulerQueueTaskPop t = Some (if q = [] then NULL else hd q, t1)" "is_list t1 ExecutionQueue (tl q)"
    "list_frame t t1 ExecutionQueue (set q)"
    using queue_pop [OF t(1,3,5) sets(3) q] by auto
  have L1: "sorted_list t1 TcbList a" "list_unlocked t1 TcbList" "crit_ok t1"
    using sorted_list_frame [OF t1(3)] list_frame_unlocked [OF t1(3)] list_frame_crit [OF t1(3)] t ne sets by auto
  have f1: "lists_frame t t1 {TcbList, ExecutionQueue} (set a \<union> set q)" by (rule lists_frame_one [OF t1(3)]) auto
  have k: "KernelReg t1 = KernelReg t" by (rule lists_frame_fields(2) [OF f1])
  show ?thesis
  proof (cases "q = []")
    case True
    then have "v \<in> set a" using v by simp
    from idle_taken [OF L1(3,1,2) sets(2) this] obtain t2 where t2: "ListNodeRemove TcbList v t1 = Some (v, t2)" "is_list t2 TcbList b"
      "list_frame t1 t2 TcbList (set a)" "\<forall>ll. ll_at TcbList t2 = Some ll \<and> ll_middle ll \<noteq> v \<longrightarrow> sorted_list t2 TcbList b"
      using True by (auto simp: b_def)
    have "lists_frame t1 t2 {TcbList, ExecutionQueue} (set a \<union> set q)" by (rule lists_frame_one [OF t2(3)]) auto
    then have "lists_frame t t2 {TcbList, ExecutionQueue} (set a \<union> set q)" by (rule lists_frame_trans [OF f1])
    moreover have "is_list t2 ExecutionQueue (tl q)" using is_list_frame [OF t2(3) t1(2)] ne True by simp
    ultimately show ?thesis using t1(1) t2(1,2,4) k True by (intro exI [of _ t1] exI [of _ t2]) auto
  next
    case False
    then show ?thesis using t1 L1(1) f1 k v(1) by (intro exI [of _ t1]) (simp add: b_def sorted_list_def)
  qed
qed

text \<open>The tasks are the same before and after, only their places differ.\<close>

lemma switched_places:
  fixes f :: "ptr \<Rightarrow> Id_t"
  assumes v: "v = (if q = [] then idle else hd q)" "q = [] \<Longrightarrow> idle \<in> set a'"
    and aw: "mset a' + mset w' = add_mset r (mset a + mset w)"
  defines "b \<equiv> if q = [] then remove1 v a' else a'"
  shows "mset (v # b @ w' @ tl q) = mset (r # a @ w @ q)"
proof (cases q)
  case Nil
  then have "add_mset v (mset b) = mset a'" using v by (simp add: b_def)
  then show ?thesis using aw Nil by (simp flip: union_mset_add_mset_left)
next
  case (Cons x qs)
  then show ?thesis using v(1) aw by (simp add: b_def ac_simps)
qed

lemma remove1_sorted_wrt: "sorted_wrt P (map f xs) \<Longrightarrow> sorted_wrt P (map f (remove1 v xs))"
proof (cases "v \<in> set xs")
  case True
  assume s: "sorted_wrt P (map f xs)"
  obtain as bs where a: "xs = as @ v # bs" "v \<notin> set as" using True by (metis split_list_first)
  then show ?thesis using s by (auto simp: remove1_append sorted_wrt_append)
qed (simp add: remove1_idem)

text \<open>The end of the switch: the next task runs.\<close>

lemma switched_state:
  assumes "tcb_at v t = Some V" and "tcbs t = (tcbs s)(r \<mapsto> T\<lparr>t_state := st\<rparr>)" and "tcbs s r = Some T"
  defines "u \<equiv> KTcbRunningRefSet v ((reg_running v t)\<lparr>tcbs := (tcbs t)(v \<mapsto> V\<lparr>t_state := TASK_STATE_RUNNING\<rparr>)\<rparr>)"
  shows "KTaskStateSet v TASK_STATE_RUNNING (reg_running v t) = Some ((reg_running v t)\<lparr>tcbs := (tcbs t)(v \<mapsto> V\<lparr>t_state := TASK_STATE_RUNNING\<rparr>)\<rparr>)"
    and "tcbs u = switched_tcbs (tcbs s) r st v" and "kr_tcb_running (KernelReg u) = v" and "TcbRunning u = v"
proof -
  have v: "v \<noteq> NULL" "tcbs t v = Some V" using assms(1) by (auto simp: tcb_at_def split: if_splits)
  show "KTaskStateSet v TASK_STATE_RUNNING (reg_running v t) = Some ((reg_running v t)\<lparr>tcbs := (tcbs t)(v \<mapsto> V\<lparr>t_state := TASK_STATE_RUNNING\<rparr>)\<rparr>)"
    using v by (simp add: KTaskStateSet_def tcb_update_def tcb_at_def reg_running_def)
  show "kr_tcb_running (KernelReg u) = v" "TcbRunning u = v" by (simp_all add: u_def KTcbRunningRefSet_def reg_running_def)
  have "tcbs u = (tcbs t)(v \<mapsto> V\<lparr>t_state := TASK_STATE_RUNNING\<rparr>)" by (simp add: u_def KTcbRunningRefSet_def)
  then show "tcbs u = switched_tcbs (tcbs s) r st v"
    using v(2) assms(2,3) by (auto simp: switched_tcbs_def fun_eq_iff option.map_ident split: if_splits)
qed


lemma switched_tasks_ok:
  fixes E :: "ptr \<Rightarrow> ptr list"
  assumes ok: "switch_ok s E r a w q" and r: "tcbs s r = Some T" and v: "tcb_at v t = Some V"
    and fr: "lists_frame (s\<lparr>tcbs := (tcbs s)(r \<mapsto> T\<lparr>t_state := st\<rparr>)\<rparr>) t {TcbList, TcbWaitList, ExecutionQueue} (set (r # a @ w @ q))"
    and places: "mset (v # b @ w' @ q') = mset (r # a @ w @ q)" "kr_tcb_idle (KernelReg s) \<in> set (v # b @ q')"
    and lists: "is_list t TcbList b" "sorted_wrt (<) (map (nid s) b)" "sorted_list t TcbWaitList w'" "is_list t ExecutionQueue q'"
  defines "u \<equiv> KTcbRunningRefSet v ((reg_running v t)\<lparr>tcbs := (tcbs t)(v \<mapsto> V\<lparr>t_state := TASK_STATE_RUNNING\<rparr>)\<rparr>)"
  shows "tasks_ok u E v b w' q'" and "sorted_list u TcbList b = sorted_list t TcbList b"
    and "u = s\<lparr>KernelReg := (KernelReg s)\<lparr>kr_tcb_running := v\<rparr>, TcbRunning := v, tcbs := switched_tcbs (tcbs s) r st v,
           nodes := nodes u, lists := lists u\<rparr>"
proof -
  note D = switch_okD [OF ok] and F = lists_frame_fields [OF fr]
  let ?s = "s\<lparr>tcbs := (tcbs s)(r \<mapsto> T\<lparr>t_state := st\<rparr>)\<rparr>"
  have P: "set (v # b @ w' @ q') = set (r # a @ w @ q)" using mset_eq_setD [OF places(1)] .
  have tt: "tcbs t = (tcbs s)(r \<mapsto> T\<lparr>t_state := st\<rparr>)" using F(3) by simp
  have E: "tcbs u = switched_tcbs (tcbs s) r st v" unfolding u_def by (rule switched_state(2) [OF v tt r])
  obtain h ls where t: "t = ?s\<lparr>nodes := h, lists := ls\<rparr>" using fr unfolding lists_frame_def by blast
  have K: "KernelReg u = (KernelReg s)\<lparr>kr_tcb_running := v\<rparr>" "TcbRunning u = v" "nodes u = nodes t" "lists u = lists t"
    by (simp_all add: u_def KTcbRunningRefSet_def reg_running_def t)
  have L: "is_list u l xs = is_list t l xs" "sorted_list u l xs = sorted_list t l xs" "list_unlocked u l = list_unlocked t l"
    "nid u = nid t" "crit_ok u = crit_ok t" for l xs
    by (simp_all add: sorted_list_def is_list_def list_unlocked_def ll_at_def nid_def [abs_def] K crit_ok_def)
      (simp_all add: u_def KTcbRunningRefSet_def reg_running_def t)
  have id: "nid u = nid s" using L(4) F(1) by simp
  show "sorted_list u TcbList b = sorted_list t TcbList b" by (rule L)
  show "u = s\<lparr>KernelReg := (KernelReg s)\<lparr>kr_tcb_running := v\<rparr>, TcbRunning := v, tcbs := switched_tcbs (tcbs s) r st v,
           nodes := nodes u, lists := lists u\<rparr>"
    unfolding E [symmetric] by (simp add: u_def KTcbRunningRefSet_def reg_running_def t)
  have task: "task_node u p \<and> (\<exists>T. tcbs u p = Some T \<and> t_flags T AND TASK_FLAG_DELETE = 0) \<and>
        is_list u (LIn p) (E p) \<and> list_unlocked u (LIn p) \<and> set (E p) \<inter> set (v # b @ w' @ q') = {}"
    if p: "p \<in> set (r # a @ w @ q)" for p
  proof (intro conjI)
    obtain T' where T': "tcbs s p = Some T'" "t_flags T' AND TASK_FLAG_DELETE = 0" using D(16) [OF p] by blast
    then show d: "\<exists>T. tcbs u p = Some T \<and> t_flags T AND TASK_FLAG_DELETE = 0"
      unfolding E by (simp add: switched_tcbs_def)
    have "task_node ?s p" using D(15) [OF p] r by (auto simp: task_node_def)
    then have "task_node t p" by (rule F(6))
    then show "task_node u p" using d unfolding task_node_def K by auto
    have "is_list ?s (LIn p) (E p)" using D(17) [OF p] by simp
    then show "is_list u (LIn p) (E p)"
      unfolding L using D(19) [OF p] by (intro F(7)) (auto simp: TcbList_def TcbWaitList_def ExecutionQueue_def)
    show "list_unlocked u (LIn p)" unfolding L using D(18) [OF p] by (intro F(4)) simp
    show "set (E p) \<inter> set (v # b @ w' @ q') = {}" unfolding P by (rule D(19) [OF p])
  qed
  have unl: "list_unlocked u l" if "list_unlocked s l" for l unfolding L using that by (intro F(4)) simp
  have "distinct (map (nid s) (v # b @ w' @ q')) = distinct (map (nid s) (r # a @ w @ q))"
    by (rule mset_eq_imp_distinct_iff) (simp only: mset_map places(1))
  then have dist: "distinct (map (nid u) (v # b @ w' @ q'))" unfolding id using D(12) by blast
  have len: "length b + length w' + length q' < 255"
    using arg_cong [OF places(1), of size] D(14) by simp
  have "crit_ok u" "KCoreFlagGet CORE_FLAG_KERNEL_MODE u \<noteq> 0"
    using D(1,2) F(5) L(5) by (simp_all add: KCoreFlagGet_def K)
  moreover have "\<forall>p \<in> set (v # b @ w' @ q'). task_node u p \<and> (\<exists>T. tcbs u p = Some T \<and> t_flags T AND TASK_FLAG_DELETE = 0) \<and>
        is_list u (LIn p) (E p) \<and> list_unlocked u (LIn p) \<and> set (E p) \<inter> set (v # b @ w' @ q') = {}"
    using task unfolding P by blast
  moreover have "is_list u TcbList b" "sorted_list u TcbWaitList w'" "is_list u ExecutionQueue q'" using lists unfolding L by simp_all
  moreover have "sorted_wrt (<) (map (nid u) b)" unfolding id by (rule lists(2))
  ultimately show "tasks_ok u E v b w' q'"
    unfolding tasks_ok_def K using dist len places(2) D(4,5,21) unl [OF D(7)] unl [OF D(9)] unl [OF D(11)] by simp
qed


text \<open>
  C3. The task switch, of tasks none of which is marked to be deleted. The running task goes back to the task list, or to the wait
  list when it waits for events, at the place of its ID. The first task of the execution queue runs next; when there is none, the
  idle task is taken from the task list. The register and the task module agree on the running task, which is the only task whose
  state becomes running; no task is lost or doubled, and nothing but the running task, the states and the places of the tasks
  changes. The state is again one for a switch: always after a task from the queue was taken, and after the idle task was taken
  unless the middle pointer of the task list points to it, for the removal of a node leaves that pointer as it is.
\<close>

theorem task_switch:
  fixes E :: "ptr \<Rightarrow> ptr list"
  assumes ok: "switch_ok s E r a w q"
  defines "a' \<equiv> if E r = [] then insort_key (nid s) r a else a" and "w' \<equiv> if E r = [] then w else insort_key (nid s) r w"
    and "st \<equiv> if E r = [] then TASK_STATE_IDLE else TASK_STATE_WAITING" and "v \<equiv> if q = [] then kr_tcb_idle (KernelReg s) else hd q"
  defines "b \<equiv> if q = [] then remove1 v a' else a'"
  shows "\<exists>u. ICoreSwitchTask s = Some u \<and>
    u = s\<lparr>KernelReg := (KernelReg s)\<lparr>kr_tcb_running := v\<rparr>, TcbRunning := v, tcbs := switched_tcbs (tcbs s) r st v,
      nodes := nodes u, lists := lists u\<rparr> \<and> same_payload (nodes s) (nodes u) \<and>
    (\<forall>l. l \<notin> {TcbList, TcbWaitList, ExecutionQueue} \<longrightarrow> lists u l = lists s l) \<and> tasks_ok u E v b w' (tl q) \<and>
    (q \<noteq> [] \<or> (\<exists>ll. ll_at TcbList u = Some ll \<and> ll_middle ll \<noteq> v) \<longrightarrow> switch_ok u E v b w' (tl q))"
proof -
  let ?L = "{TcbList, TcbWaitList, ExecutionQueue}" and ?N = "set (r # a @ w @ q)"
  let ?l = "if E r = [] then TcbList else TcbWaitList" and ?xs = "if E r = [] then a else w"
  note D = switch_okD [OF ok]
  obtain T where T: "tcbs s r = Some T" "tcb_at r s = Some T" using D(15,16) [of r] by (auto simp: task_node_def tcb_at_def)
  let ?s = "s\<lparr>tcbs := (tcbs s)(r \<mapsto> T\<lparr>t_state := st\<rparr>)\<rparr>"
  obtain t where t: "ICoreSwitchTask_leave s = Some t" "sorted_list t ?l (insort_key (nid s) r ?xs)"
    "list_frame ?s t ?l (insert r (set ?xs))"
    using leave_ok [OF ok T(2)] unfolding st_def by blast
  have fr: "lists_frame ?s t ?L ?N" by (rule lists_frame_one [OF t(3)]) auto
  note F = lists_frame_fields [OF fr]
  have ne: "TcbList \<noteq> TcbWaitList" "ExecutionQueue \<noteq> TcbList" "ExecutionQueue \<noteq> TcbWaitList"
    by (simp_all add: TcbList_def TcbWaitList_def ExecutionQueue_def)
  have d: "distinct (r # a @ w @ q)" by (rule D(13))
  have dis: "set a \<inter> set w = {}" "set w \<inter> set a = {}" "set q \<inter> set a = {}" "set q \<inter> set w = {}" "r \<notin> set a \<union> set w \<union> set q" using d by auto
  have lists: "sorted_list t TcbList a'" "sorted_list t TcbWaitList w'" "is_list t ExecutionQueue q"
  proof -
    show "sorted_list t TcbList a'"
      using sorted_list_frame [OF t(3), of TcbList a] t(2) D(6) dis ne by (cases "E r = []") (simp_all add: a'_def)
    show "sorted_list t TcbWaitList w'"
      using sorted_list_frame [OF t(3), of TcbWaitList w] t(2) D(8) dis ne by (cases "E r = []") (simp_all add: w'_def)
    show "is_list t ExecutionQueue q"
      using is_list_frame [OF t(3), of ExecutionQueue q] D(10) dis ne by (cases "E r = []") simp_all
  qed
  have aw: "mset a' + mset w' = add_mset r (mset a + mset w)" by (simp add: a'_def w'_def)
  have sets: "set a' \<inter> set q = {}" "length a' \<le> 255" "length q \<le> 255" using d D(14) by (auto simp: a'_def set_insort_key)
  have idle: "kr_tcb_idle (KernelReg s) \<in> set a' \<union> set q" using D(20,21) by (auto simp: a'_def set_insort_key)
  then have idle0: "q = [] \<Longrightarrow> kr_tcb_idle (KernelReg s) \<in> set a'" by simp
  have task: "task_node t p" if "p \<in> ?N" for p
  proof -
    have "task_node ?s p" using D(15) [OF that] T(1) by (auto simp: task_node_def)
    then show ?thesis by (rule F(6))
  qed
  have unl: "list_unlocked t l" if "list_unlocked s l" for l using that by (intro F(4)) simp
  have crit: "crit_ok t" using F(5) D(1) by simp
  obtain t1 t2 where t1: "KSchedulerQueueTaskPop t = Some (if q = [] then NULL else hd q, t1)" "KernelReg t1 = KernelReg t"
    and t2: "(if q = [] then ListNodeRemove TcbList v t1 else Some (v, t1)) = Some (v, t2)"
      "lists_frame t t2 {TcbList, ExecutionQueue} (set a' \<union> set q)" "is_list t2 TcbList b" "is_list t2 ExecutionQueue (tl q)"
      "q \<noteq> [] \<or> (\<exists>ll. ll_at TcbList t2 = Some ll \<and> ll_middle ll \<noteq> v) \<longrightarrow> sorted_list t2 TcbList b"
    using next_taken [OF crit lists(1,3) unl [OF D(7)] unl [OF D(11)] sets _ meta_eq_to_obj_eq [OF v_def] idle0, folded b_def] task by auto
  have N: "set a' \<union> set q \<subseteq> ?N" by (auto simp: a'_def set_insort_key)
  have fr2: "lists_frame ?s t2 ?L ?N"
    by (rule lists_frame_trans [OF fr]) (use t2(2) N in \<open>auto simp: lists_frame_def\<close>)
  have places: "mset (v # b @ w' @ tl q) = mset (r # a @ w @ q)" unfolding b_def by (rule switched_places [OF meta_eq_to_obj_eq [OF v_def] idle0 aw])
  have v: "v \<in> ?N" using mset_eq_setD [OF places] by auto
  then obtain V where V: "tcb_at v t2 = Some V"
    using D(15) [OF v] D(16) [OF v] T(1) lists_frame_fields(3) [OF fr2] by (cases "v = r") (auto simp: task_node_def tcb_at_def)
  have "set w' \<inter> (set a' \<union> set q) = {}" using d by (auto simp: a'_def w'_def set_insort_key)
  then have w2: "sorted_list t2 TcbWaitList w'" using ne by (intro lists_frame_fields(8) [OF t2(2) _ _ lists(2)]) auto
  have b: "sorted_wrt (<) (map (nid s) b)"
    using lists(1) F(1) remove1_sorted_wrt [of "(<)" "nid s" a' v] by (simp add: sorted_list_def b_def)
  have idle2: "kr_tcb_idle (KernelReg s) \<in> set (v # b @ tl q)"
    using idle by (cases q) (auto simp: v_def b_def in_set_remove1)
  note U = switched_tasks_ok [OF ok T(1) V fr2 places idle2 t2(3) b w2 t2(4)]
  let ?u = "KTcbRunningRefSet v ((reg_running v t2)\<lparr>tcbs := (tcbs t2)(v \<mapsto> V\<lparr>t_state := TASK_STATE_RUNNING\<rparr>)\<rparr>)"
  have "tcbs t2 = (tcbs s)(r \<mapsto> T\<lparr>t_state := st\<rparr>)" using lists_frame_fields(3) [OF fr2] by simp
  note X = switched_state(1,3) [OF V this T(1)]
  have "v \<noteq> NULL" using D(15) [OF v] by (simp add: task_node_def)
  then have "ICoreSwitchTask s = Some ?u"
    using D(2,4) t(1) t1 t2(1) X F(2) lists_frame_fields(2) [OF fr2]
    by (cases "q = []") (auto simp: ICoreSwitchTask_def v_def reg_running_def)
  moreover have "ll_at TcbList ?u = ll_at TcbList t2" by (simp add: ll_at_def KTcbRunningRefSet_def reg_running_def)
  moreover have "same_payload (nodes s) (nodes ?u)" "l \<notin> ?L \<Longrightarrow> lists ?u l = lists s l" for l
    using fr2 by (simp_all add: lists_frame_def KTcbRunningRefSet_def reg_running_def)
  ultimately show ?thesis using U t2(5) unfolding switch_ok_def by (intro exI [of _ ?u]) auto
qed

text \<open>The task at 0x1004 runs, the idle task at 0x1044 is in the task list, and the task at 0x1084 is ready.\<close>

definition switch_start :: shell_state where
  "switch_start = shell_bss\<lparr>
     nodes := [0x1004 \<mapsto> sample_node 0x01000001 0x1004 NULL NULL, 0x1044 \<mapsto> sample_node 0x01000000 0x1044 NULL NULL,
       0x1084 \<mapsto> sample_node 0x01000002 0x1084 NULL NULL],
     lists := [TcbList \<mapsto> (sample_list 0x1044 0x1044 1)\<lparr>ll_sorted := True\<rparr>, TcbWaitList \<mapsto> sample_list NULL NULL 0,
       ExecutionQueue \<mapsto> sample_list 0x1084 0x1084 1, LIn 0x1004 \<mapsto> sample_list NULL NULL 0, LIn 0x1044 \<mapsto> sample_list NULL NULL 0,
       LIn 0x1084 \<mapsto> sample_list NULL NULL 0],
     tcbs := [0x1004 \<mapsto> zero_tcb, 0x1044 \<mapsto> zero_tcb, 0x1084 \<mapsto> zero_tcb], TcbRunning := 0x1004,
     KernelReg := (KernelReg core_bss)\<lparr>kr_tcb_running := 0x1004, kr_tcb_idle := 0x1044, kr_tcb_list := TcbList,
       kr_tcb_wait_list := TcbWaitList, kr_sreg := CORE_FLAG_KERNEL_MODE\<rparr>\<rparr>"

lemma switch_start_ok: "switch_ok switch_start (\<lambda>_. []) 0x1004 [0x1044] [] [0x1084]"
proof -
  have reg: "KCoreFlagGet CORE_FLAG_KERNEL_MODE switch_start \<noteq> 0" "kr_tcb_running (KernelReg switch_start) = 0x1004"
    "kr_tcb_list (KernelReg switch_start) = TcbList" "kr_tcb_wait_list (KernelReg switch_start) = TcbWaitList" "crit_ok switch_start"
    "TcbRunning switch_start = 0x1004" "kr_tcb_idle (KernelReg switch_start) = 0x1044"
    by (simp_all add: switch_start_def KCoreFlagGet_def CORE_FLAG_KERNEL_MODE_def crit_ok_def core_bss_def)
  have "sorted_list switch_start TcbList [0x1044]" "is_list switch_start TcbList [0x1044]" "sorted_list switch_start TcbWaitList []"
    "is_list switch_start ExecutionQueue [0x1084]" "list_unlocked switch_start TcbList" "list_unlocked switch_start TcbWaitList"
    "list_unlocked switch_start ExecutionQueue"
    by (simp_all add: sorted_list_def is_list_def list_unlocked_def ll_at_def switch_start_def TcbList_def TcbWaitList_def ExecutionQueue_def)
  moreover have "\<forall>p \<in> set [0x1004, 0x1044, 0x1084]. task_node switch_start p \<and> is_list switch_start (LIn p) [] \<and> list_unlocked switch_start (LIn p)"
    by (simp add: task_node_def is_list_def list_unlocked_def ll_at_def switch_start_def ID_INVALID_def)
  moreover have "\<forall>p \<in> set [0x1004, 0x1044, 0x1084]. \<exists>T. tcbs switch_start p = Some T \<and> t_flags T AND TASK_FLAG_DELETE = 0"
    by (simp add: switch_start_def zero_tcb_def)
  moreover have "distinct (map (nid switch_start) [0x1004, 0x1044, 0x1084])" by (simp add: nid_def switch_start_def)
  ultimately show ?thesis using reg by (simp add: switch_ok_def tasks_ok_def)
qed

text \<open>Two switches: first to the task at 0x1084, then to the idle task.\<close>

theorem task_switch_witness:
  "\<exists>u t. ICoreSwitchTask switch_start = Some u \<and> TcbRunning u = 0x1084 \<and> is_list u TcbList [0x1044, 0x1004] \<and>
     ICoreSwitchTask u = Some t \<and> TcbRunning t = 0x1044 \<and> is_list t TcbList [0x1004, 0x1084] \<and> is_list t ExecutionQueue []"
proof -
  have n: "nid switch_start = (\<lambda>p. if p = 0x1004 then 0x01000001 else if p = 0x1044 then 0x01000000 else if p = 0x1084 then 0x01000002 else nid switch_start p)"
    by (auto simp: nid_def switch_start_def)
  have k: "kr_tcb_idle (KernelReg switch_start) = 0x1044" by (simp add: switch_start_def)
  have i: "insort_key (nid switch_start) 0x1004 [0x1044] = [0x1044, 0x1004]" "insort_key (nid switch_start) 0x1084 [0x1044, 0x1004] = [0x1044, 0x1004, 0x1084]"
    by (subst n; simp)+
  obtain u where u: "ICoreSwitchTask switch_start = Some u" "same_payload (nodes switch_start) (nodes u)"
    "switch_ok u (\<lambda>_. []) 0x1084 [0x1044, 0x1004] [] []" "kr_tcb_idle (KernelReg u) = 0x1044"
  proof -
    from task_switch [OF switch_start_ok] obtain u where u: "ICoreSwitchTask switch_start = Some u"
      "u = switch_start\<lparr>KernelReg := (KernelReg switch_start)\<lparr>kr_tcb_running := 0x1084\<rparr>, TcbRunning := 0x1084,
        tcbs := switched_tcbs (tcbs switch_start) 0x1004 TASK_STATE_IDLE 0x1084, nodes := nodes u, lists := lists u\<rparr>"
      "same_payload (nodes switch_start) (nodes u)" "switch_ok u (\<lambda>_. []) 0x1084 [0x1044, 0x1004] [] []"
      by (auto simp: i simp del: insort_key.simps)
    have "KernelReg u = (KernelReg switch_start)\<lparr>kr_tcb_running := 0x1084\<rparr>" by (subst u(2)) simp
    then show thesis using u k that by simp
  qed
  note id = same_payload_nid [OF u(2)]
  obtain t where t: "ICoreSwitchTask u = Some t" "tasks_ok t (\<lambda>_. []) 0x1044 [0x1004, 0x1084] [] []"
    using task_switch [OF u(3)] by (auto simp: u(4) id i simp del: insort_key.simps)
  show ?thesis using u(1,3) t by (auto simp: switch_ok_def tasks_ok_def)
qed

end
