(* ===== verification/TaskCreateProps.thy ===== *)
theory TaskCreateProps
  imports TaskProps SwitchProps MessageProps
begin

text \<open>
  The creation of tasks: a new task control block with an ID that no task has, in the list of tasks at the place of its ID.
\<close>

subsection \<open>The tasks of the kernel\<close>

text \<open>
  The tasks \<open>ts\<close> are in the list of tasks, each a live object with its control block; their IDs come from the pool of the task group.
  \<open>evs\<close> are the pending events, and the object pool has room for \<open>m\<close> more blocks.
\<close>

definition task_table :: "'a task_state_scheme \<Rightarrow> ptr list \<Rightarrow> ptr list \<Rightarrow> nat \<Rightarrow> bool" where
  "task_table s ts evs m \<longleftrightarrow> events_ok s evs m \<and> sorted_list s TcbList ts \<and> list_unlocked s TcbList \<and>
     (\<exists>ll. ll_at TcbList s = Some ll \<and> ll_id_group ll = ID_GROUP_TASK) \<and> set ts \<subseteq> objects s \<and> set evs \<inter> set ts = {} \<and>
     (\<forall>x \<in> set ts. child (the (nodes s x)) = x \<and> tcb_at x s \<noteq> None \<and> unat (nid s x) < 2 ^ 24 + id_count s 1) \<and> id_pools_ok s"

lemma insort_key_last: "\<forall>x \<in> set xs. f x < f y \<Longrightarrow> insort_key f y xs = xs @ [y]" for f :: "'a \<Rightarrow> 'b :: linorder"
  by (induction xs) auto

lemma sorted_list_keep:
  assumes "sorted_list s l xs" and "lists t l = lists s l" and "\<And>y. y \<in> set xs \<Longrightarrow> nodes t y = nodes s y"
  shows "sorted_list t l xs"
proof -
  have ll: "ll_at l t = ll_at l s" using assms(2) by (simp add: ll_at_def)
  have ids: "map (nid t) xs = map (nid s) xs" using assms(3) by (simp add: nid_def)
  have "is_list s l xs" using assms(1) by (simp add: sorted_list_def)
  then have "is_list t l xs" by (rule is_list_keep) (use assms in simp_all)
  then show ?thesis using assms(1) unfolding sorted_list_def ll ids by simp
qed

text \<open>Changes that leave the tasks and the events alone.\<close>

lemma task_table_keep:
  assumes "task_table s ts evs m" and "events_ok t evs' m'" and "set evs' \<inter> set ts = {}" and "lists t TcbList = lists s TcbList" and "set ts \<subseteq> objects t"
    and n: "\<And>y. y \<in> set ts \<Longrightarrow> nodes t y = nodes s y \<and> (tcb_at y t = None \<longleftrightarrow> tcb_at y s = None)" and "IdPools t = IdPools s"
  shows "task_table t ts evs' m'"
proof -
  have "sorted_list t TcbList ts" using assms(1,4) n sorted_list_keep [of s TcbList ts t] by (simp add: task_table_def)
  moreover have "ll_at TcbList t = ll_at TcbList s" using assms(4) by (simp add: ll_at_def)
  moreover have "nid t y = nid s y" if "y \<in> set ts" for y using n [OF that] by (simp add: nid_def)
  ultimately show ?thesis using assms by (simp add: task_table_def list_unlocked_def id_pools_ok_def id_count_def)
qed

subsection \<open>A new control block\<close>

text \<open>The control block at \<open>p\<close> as \<open>TaskCreate\<close> fills it, and the state with it.\<close>

definition new_tcb :: "ptr \<Rightarrow> TaskCat_t \<Rightarrow> Prio_t \<Rightarrow> ptr \<Rightarrow> U32_t \<Rightarrow> Tcb_t" where
  "new_tcb handler cat prio arg varg = \<lparr>t_handler = handler, p_arg = arg, v_arg = varg, t_flags = 0, priority = KTaskCalculatePriority cat prio,
     category = cat, t_state = TASK_STATE_IDLE, run_time_us = 0, active_time_us = 0,
     deadline_time_us = PRTOS_CONFIG_REAL_TIME_TASK_DEADLINE_DEFAULT_MS\<rparr>"

definition with_tcb :: "ptr \<Rightarrow> Tcb_t \<Rightarrow> 'a task_state_scheme \<Rightarrow> 'a task_state_scheme" where
  "with_tcb p T s = s\<lparr>nodes := (nodes s)(p \<mapsto> zero_node\<lparr>child := p, node_id := ID_INVALID\<rparr>), lists := (lists s)(LIn p \<mapsto> zero_list),
     tcbs := (tcbs s)(p \<mapsto> T)\<rparr>"

lemma tcbs_swap: "s\<lparr>tcbs := f, nodes := h\<rparr> = s\<lparr>nodes := h, tcbs := f\<rparr>" "s\<lparr>tcbs := f, lists := g\<rparr> = s\<lparr>lists := g, tcbs := f\<rparr>"
  by simp_all

lemma TaskCreate_eq:
  assumes args: "cat \<le> TASK_CAT_OS" "OS_TASK_PRIO_LIMIT_LOW \<le> prio" "prio \<le> OS_TASK_PRIO_LIMIT_HIGH"
    and mode: "cat = TASK_CAT_OS \<Longrightarrow> KCoreFlagGet CORE_FLAG_KERNEL_MODE s \<noteq> 0"
    and p: "KMemAllocObject SIZEOF_TCB 0 None s = Some ((p, None), t)" "p \<noteq> NULL"
    and add: "ListNodeAddSorted TcbList p (with_tcb p (new_tcb handler cat prio arg varg) t) = Some (OS_RES_OK, u)"
  shows "TaskCreate handler cat prio param n arg varg s =
    do { v \<leftarrow> TaskCreate_parameters p param varg u; x \<leftarrow> node_at p v; Some (node_id x, v) }"
proof -
  have "\<not> prio < OS_TASK_PRIO_LIMIT_LOW" "\<not> OS_TASK_PRIO_LIMIT_HIGH < prio" "\<not> TASK_CAT_OS < cat" using args by simp_all
  moreover have "\<not> (cat = TASK_CAT_OS \<and> KCoreFlagGet CORE_FLAG_KERNEL_MODE s = 0)" using mode by blast
  ultimately show ?thesis using p add
    by (cases "cat = TASK_CAT_OS") (simp_all add: TaskCreate_def tcb_alloc_def tcb_clear_def node_clear_def ListNodeInit_def ListInit_def node_update_eq node_at_def
        ll_update_eq ll_at_def tcb_update_def tcb_at_def zero_node_def zero_list_def zero_tcb_def with_tcb_def new_tcb_def tcbs_swap)
qed

text \<open>The new node comes last, since its ID is larger than all.\<close>

lemma add_task:
  assumes ok: "task_table s ts evs m" and n: "length ts < 255" "id_count s 1 < 0xFFFFFF"
    and t: "heap_frame s t" "objects t = insert p (objects s)" "objects_ok t k" "p \<notin> objects s" "p \<noteq> NULL"
  shows "\<exists>u. ListNodeAddSorted TcbList p (with_tcb p T t) = Some (OS_RES_OK, u) \<and> task_table u (ts @ [p]) evs k \<and>
    tcbs u = (tcbs s)(p \<mapsto> T) \<and> unat (nid u p) = 2 ^ 24 + id_count s 1 \<and> (\<forall>x. x \<noteq> p \<longrightarrow> nid u x = nid s x) \<and> id_count u 1 = id_count s 1 + 1 \<and>
    objects u = insert p (objects s) \<and> (\<exists>hp pt h ls ps. u = s\<lparr>OsHeap := hp, PoolTable := pt, nodes := h, lists := ls, tcbs := (tcbs s)(p \<mapsto> T), IdPools := ps\<rparr>) \<and>
    (\<forall>l. l \<noteq> TcbList \<and> l \<noteq> LIn p \<longrightarrow> lists u l = lists s l) \<and> lists u (LIn p) = Some zero_list \<and>
    (\<forall>x. x \<noteq> p \<and> x \<notin> set ts \<longrightarrow> nodes u x = nodes s x) \<and> child (the (nodes u p)) = p"
proof -
  have ev: "events_ok s evs m" and so: "sorted_list s TcbList ts" "list_unlocked s TcbList"
    and gr: "\<exists>ll. ll_at TcbList s = Some ll \<and> ll_id_group ll = ID_GROUP_TASK" and sub: "set ts \<subseteq> objects s" "set evs \<inter> set ts = {}"
    and each: "\<And>x. x \<in> set ts \<Longrightarrow> child (the (nodes s x)) = x \<and> tcb_at x s \<noteq> None \<and> unat (nid s x) < 2 ^ 24 + id_count s 1"
    and ids: "id_pools_ok s" using ok by (simp_all add: task_table_def)
  have new: "p \<notin> set ts" "p \<notin> set evs" using sub(1) t(4) ev by (auto simp: events_ok_def)
  obtain hp pt where ts: "t = s\<lparr>OsHeap := hp, PoolTable := pt\<rparr>" using heap_frame_state [OF t(1)] by blast
  let ?w = "with_tcb p T t"
  have w: "lists ?w l = (if l = LIn p then Some zero_list else lists s l)" "tcbs ?w = (tcbs s)(p \<mapsto> T)" "IdPools ?w = IdPools s" for l
    by (simp_all add: with_tcb_def ts)
  have wn: "nodes ?w x = (if x = p then Some (zero_node\<lparr>child := p, node_id := ID_INVALID\<rparr>) else nodes s x)" for x by (simp add: with_tcb_def ts)
  have o: "objects ?w = objects t" "objects_ok ?w k = objects_ok t k" by (rule objects_cong; simp add: with_tcb_def)+
  have mode: "id_pools_ok ?w" "id_count ?w 1 = id_count s 1" using ids w(3) by (simp_all add: id_pools_ok_def id_count_def)
  obtain oid v where r0: "KIdRequest ID_GROUP_TASK ?w = (oid, v)" by force
  have r: "KIdRequest ID_GROUP_TASK ?w = (oid, v)" "unat oid = 2 ^ 24 + id_count s 1"
    and v: "IdPools v = (IdPools s)[1 := \<lparr>free_id = oid + 1, rollover = (id_count s 1 + 1 = 0xFFFFFF)\<rparr>]"
    using r0 KIdRequest_served [OF mode(1) _ _ r0] n(2) mode(2) w(3) by (simp_all add: ID_GROUP_TASK_def ID_GROUP_NUM_def)
  have vs: "v = ?w\<lparr>IdPools := IdPools v\<rparr>" using r(1) by (auto simp: KIdRequest_def Let_def split: if_splits)
  have oid: "unat oid < 2 ^ 25" "oid \<noteq> ID_INVALID" using r(2) n(2) by (auto simp: ID_INVALID_def)
  have cnt: "id_count v 1 = id_count s 1 + 1" "id_pools_ok v"
    using v r oid KIdRequest_preserves [OF mode(1) r(1)] ids by (simp_all add: id_count_def id_pools_ok_def unat_word_ariths)
  let ?n = "zero_node\<lparr>child := p, node_id := oid\<rparr>"
  define w' where "w' = ?w\<lparr>IdPools := IdPools v, nodes := (nodes ?w)(p \<mapsto> ?n)\<rparr>"
  have ne: "TcbList \<noteq> LIn p" by (simp add: TcbList_def)
  have so_w: "sorted_list ?w TcbList ts" by (rule sorted_list_keep [OF so(1)]) (use new(1) ne w wn in auto)
  have so_w': "sorted_list w' TcbList ts" by (rule sorted_list_keep [OF so_w]) (use new(1) in \<open>auto simp: w'_def\<close>)
  have ll: "ll_at TcbList ?w = ll_at TcbList s" "ll_at TcbList w' = ll_at TcbList s" using ne w(1) by (simp_all add: ll_at_def w'_def)
  have "crit_ok t" using t(3) by (simp add: objects_ok_def)
  then have un: "list_unlocked ?w TcbList" "list_unlocked w' TcbList" "crit_ok ?w" "crit_ok w'"
    using so(2) by (simp_all add: list_unlocked_def ll) (simp_all add: w'_def with_tcb_def crit_ok_def)
  have "\<exists>ll. ll_at TcbList ?w = Some ll \<and> ll_id_group ll = ID_GROUP_TASK" using gr ll by simp
  moreover have "node_at p ?w = Some (zero_node\<lparr>child := p, node_id := ID_INVALID\<rparr>)" using wn t(5) by (simp add: node_at_def)
  ultimately have "ListNodeAddSorted TcbList p ?w = ListNodeAddSorted TcbList p w'"
    using AddSorted_fresh_id [OF un(3) so_w un(1) n(1), of p _ ID_GROUP_TASK oid "IdPools v"] r(1) vs oid(2) by (simp add: w'_def)
  moreover have nid': "nid w' x = (if x = p then oid else nid s x)" for x by (simp add: nid_def w'_def wn)
  then have less: "nid w' x < nid w' p" if "x \<in> set ts" for x using each [OF that] r(2) that new(1) by (auto simp: word_less_nat_alt)
  obtain u where u: "ListNodeAddSorted TcbList p w' = Some (OS_RES_OK, u)" "sorted_list u TcbList (insort_key (nid w') p ts)"
    "list_frame w' u TcbList (insert p (set ts))"
  proof -
    have "node_at p w' = Some ?n" "node_id ?n \<noteq> ID_INVALID" using t(5) oid(2) by (simp_all add: node_at_def w'_def)
    moreover have "nid w' p \<notin> nid w' ` set ts" using less by force
    ultimately show thesis using that ListNodeAddSorted_ok [OF un(4) so_w' un(2) n(1), of p ?n] new(1) by auto
  qed
  ultimately have add: "ListNodeAddSorted TcbList p ?w = Some (OS_RES_OK, u)" by simp
  obtain h ls where us: "u = w'\<lparr>nodes := h, lists := ls\<rparr>" using list_frame_state [OF u(3)] by blast
  have shape: "\<exists>hp pt h ls ps. u = s\<lparr>OsHeap := hp, PoolTable := pt, nodes := h, lists := ls, tcbs := (tcbs s)(p \<mapsto> T), IdPools := ps\<rparr>"
    by (intro exI [of _ hp] exI [of _ pt] exI [of _ h] exI [of _ ls] exI [of _ "IdPools v"]) (simp add: us w'_def with_tcb_def ts)
  have un_u: "objects u = objects t" "objects_ok u k"
    using list_frame_objects [OF u(3), of k] objects_cong [of w' ?w] o t(3) by (simp_all add: w'_def)
  have idu: "nid u x = nid w' x" for x by (rule nid_frame [OF u(3)])
  have lu: "lists u l = lists ?w l" if "l \<noteq> TcbList" for l using u(3) that by (simp add: list_frame_def w'_def)
  have nu: "nodes u x = nodes s x" if "x \<noteq> p" "x \<notin> set ts" for x using u(3) that wn by (simp add: list_frame_def w'_def)
  have chu: "child (the (nodes u x)) = x" if "x \<in> set (ts @ [p])" for x
  proof -
    have "nodes w' x \<noteq> None \<and> child (the (nodes w' x)) = x"
      using that each [of x] is_list_nodes [of s TcbList ts x] so(1) by (auto simp: w'_def wn sorted_list_def node_at_def)
    then show ?thesis using child_frame [OF u(3)] by metis
  qed
  have "events_ok u evs k"
  proof (rule events_ok_keep [OF ev un_u(2)])
    show "set evs \<subseteq> objects u" using ev t(2) un_u(1) by (auto simp: events_ok_def)
    show "lists u EventList = lists s EventList" using lu [of EventList] w(1) by (simp add: EventList_def TcbList_def)
    show "nodes u y = nodes s y" if "y \<in> set evs" for y using nu [of y] that new sub(2) by auto
    have "dom (nodes w') = dom (nodes u)" using u(3) by (auto simp: list_frame_def intro!: same_payload_dom)
    then show "dom (nodes s) \<subseteq> dom (nodes u)" by (auto simp: w'_def wn)
    show "events u = events s" by (simp add: us w'_def with_tcb_def ts)
  qed
  moreover have last: "insort_key (nid w') p ts = ts @ [p]" using less by (intro insort_key_last) blast
  moreover have tcbs_u: "tcbs u = (tcbs s)(p \<mapsto> T)" using w(2) by (simp add: us w'_def)
  moreover have "\<exists>ll. ll_at TcbList u = Some ll \<and> ll_id_group ll = ID_GROUP_TASK"
    using u(3) gr ll(2) by (auto simp: list_frame_def)
  moreover have "list_unlocked u TcbList" by (rule list_frame_unlocked [OF u(3) un(2)])
  moreover have cu: "id_count u 1 = id_count s 1 + 1" "id_pools_ok u" using cnt by (simp_all add: us w'_def id_count_def id_pools_ok_def)
  moreover have "tcb_at x u \<noteq> None" "unat (nid u x) < 2 ^ 24 + id_count u 1" if "x \<in> set (ts @ [p])" for x
    using that each [of x] t(5) new(1) r(2) cu(1) by (auto simp: tcb_at_def tcbs_u idu nid' split: if_splits)
  ultimately have "task_table u (ts @ [p]) evs k"
    using u(2) chu sub t(2) un_u(1) new by (auto simp: task_table_def)
  then show ?thesis
    using add shape tcbs_u cu(1) lu w(1) nu chu idu nid' r(2) un_u(1) t(2)
    by (intro exI [of _ u]) (simp add: TcbList_def)
qed

subsection \<open>Starting it\<close>

lemma task_table_found:
  assumes "task_table s ts evs m" and "p \<in> set ts"
  shows "KTcbFromId (nid s p) s = Some (p, s)" "nid s p \<noteq> ID_INVALID" "p \<noteq> NULL" "\<exists>T. tcb_at p s = Some T"
proof -
  have so: "sorted_list s TcbList ts" "list_unlocked s TcbList" "crit_ok s" and c: "child (the (nodes s p)) = p"
    and i: "unat (nid s p) < 2 ^ 24 + id_count s 1" "id_pools_ok s" and T: "tcb_at p s \<noteq> None"
    using assms by (auto simp: task_table_def events_ok_def objects_ok_def)
  show "nid s p \<noteq> ID_INVALID" using i(1) id_pool_bounds(2) [OF i(2), of 1] by (auto simp: ID_INVALID_def)
  obtain n where n: "node_at p s = Some n" "p \<noteq> NULL" using is_list_nodes [of s TcbList ts p] so(1) assms(2) by (auto simp: sorted_list_def)
  show "p \<noteq> NULL" by (rule n)
  show "\<exists>T. tcb_at p s = Some T" using T by blast
  have "distinct (map (nid s) ts)" using so(1) by (simp add: sorted_list_def strict_sorted_iff)
  then have "ListSearch TcbList (nid s p) s = Some (p, s)"
    using ListSearch_ok [OF so(3) sorted_list_searchable [OF so(1)] so(2)] find_id_unique [of s ts p] assms(2) by fastforce
  moreover have "ListNodeChildGet p s = Some p" using n c node_at_SomeD [OF n(1)] by (simp add: ListNodeChildGet_def)
  ultimately show "KTcbFromId (nid s p) s = Some (p, s)" using n(2) by (simp add: KTcbFromId_def)
qed

lemma task_table_tcbs:
  assumes "task_table s ts evs m" and "f p = None \<longleftrightarrow> tcbs s p = None" and "\<And>q. q \<noteq> p \<Longrightarrow> f q = tcbs s q"
  shows "task_table (s\<lparr>tcbs := f\<rparr>) ts evs m"
proof (rule task_table_keep [OF assms(1)])
  have o: "objects (s\<lparr>tcbs := f\<rparr>) = objects s" "objects_ok (s\<lparr>tcbs := f\<rparr>) m = objects_ok s m" by (rule objects_cong; simp)+
  show "set ts \<subseteq> objects (s\<lparr>tcbs := f\<rparr>)" using assms(1) unfolding o by (simp add: task_table_def)
  have "events_ok s evs m" using assms(1) by (simp add: task_table_def)
  then show "events_ok (s\<lparr>tcbs := f\<rparr>) evs m" by (rule events_ok_keep) (use \<open>events_ok s evs m\<close> o in \<open>auto simp: events_ok_def\<close>)
  show "nodes (s\<lparr>tcbs := f\<rparr>) y = nodes s y \<and> (tcb_at y (s\<lparr>tcbs := f\<rparr>) = None \<longleftrightarrow> tcb_at y s = None)" for y
    using assms(2,3) by (cases "y = p") (simp_all add: tcb_at_def)
  show "set evs \<inter> set ts = {}" using assms(1) by (simp add: task_table_def)
qed simp_all

lemma TaskNotify_ok:
  assumes ok: "task_table s ts evs m" and p: "p \<in> set ts" "tcb_at p s = Some T" and room: "3 \<le> m" "length evs < 255"
  shows "\<exists>r t evs'. TaskNotify (nid s p) varg s = Some (r, t) \<and> task_table t ts evs' (m - 3) \<and>
    map (nid t) evs' = queue_id (event_id (nid s p) TASK_EVENT_ACTIVATE) (map (nid s) evs) \<and>
    tcbs t = (tcbs s)(p \<mapsto> T\<lparr>v_arg := varg\<rparr>) \<and> event_frame (s\<lparr>tcbs := (tcbs s)(p \<mapsto> T\<lparr>v_arg := varg\<rparr>)\<rparr>) t evs \<and> set evs \<subseteq> set evs'"
proof -
  note F = task_table_found [OF ok p(1)]
  let ?s = "s\<lparr>tcbs := (tcbs s)(p \<mapsto> T\<lparr>v_arg := varg\<rparr>)\<rparr>"
  have "tcbs s p = Some T" using p(2) by (simp add: tcb_at_def split: if_splits)
  then have ok': "task_table ?s ts evs m" by (intro task_table_tcbs [OF ok, where p = p]) auto
  then have ev: "events_ok ?s evs m" by (simp add: task_table_def)
  obtain r t evs' where t: "EventEmit (nid s p) TASK_EVENT_ACTIVATE EVENT_FLAG_ADDRESSED ?s = Some (r, t)" "events_ok t evs' (m - 3)"
    "event_frame ?s t evs" "map (nid t) evs' = queue_id (event_id (nid s p) TASK_EVENT_ACTIVATE) (map (nid ?s) evs)"
    "set evs' \<inter> objects ?s \<subseteq> set evs" "set evs \<subseteq> set evs'"
    using EventEmit_step [OF ev room] by blast
  have "TaskNotify (nid s p) varg s = Some (r, t)"
    using F p(2) t(1) by (simp add: TaskNotify_def tcb_update_def ITaskResume_def)
  moreover have fr: "tcbs t = tcbs ?s" "IdPools t = IdPools ?s" "lists t TcbList = lists ?s TcbList"
    "\<And>y. y \<in> set ts \<Longrightarrow> nodes t y = nodes ?s y \<and> y \<in> objects t"
    using t(3) ok' unfolding event_frame_def task_table_def by (auto simp: TcbList_def EventList_def)
  have "task_table t ts evs' (m - 3)"
    by (rule task_table_keep [OF ok' t(2)]) (use fr t(5) ok' in \<open>auto simp: tcb_at_def task_table_def\<close>)
  ultimately show ?thesis using t(3,4,6) fr(1) by (intro exI [of _ r] exI [of _ t] exI [of _ evs']) (simp add: nid_def)
qed

definition param_flags :: "U8_t \<Rightarrow> TaskFlags_t" where
  "param_flags param = (if param AND TASK_PARAMETER_ESSENTIAL \<noteq> 0 then TASK_FLAG_ESSENTIAL else 0) OR
     (if param AND TASK_PARAMETER_NO_PREEM \<noteq> 0 then TASK_FLAG_NO_PREEM else 0)"

definition starts :: "U8_t \<Rightarrow> bool" where "starts param \<longleftrightarrow> param AND TASK_PARAMETER_START \<noteq> 0"

lemma event_frame_refl: "event_frame s s xs"
  unfolding event_frame_def
  by (intro conjI exI [of _ "OsHeap s"] exI [of _ "PoolTable s"] exI [of _ "nodes s"] exI [of _ "lists s"] exI [of _ "events s"]) auto

text \<open>The flags, and then the start.\<close>

lemma parameters_flags:
  fixes s :: "'a task_state_scheme" and param
  assumes "tcb_at p s = Some T"
  defines "u \<equiv> s\<lparr>tcbs := (tcbs s)(p \<mapsto> T\<lparr>t_flags := t_flags T OR param_flags param\<rparr>)\<rparr>"
  shows "TaskCreate_parameters p param varg s =
    (if starts param then do { n \<leftarrow> node_at p u; (r, t) \<leftarrow> TaskNotify (node_id n) varg u; Some t } else Some u)"
proof -
  have p: "p \<noteq> NULL" "tcbs s p = Some T" using assms(1) by (auto simp: tcb_at_def split: if_splits)
  have tick: "KTaskFlagSet p flag (s\<lparr>tcbs := (tcbs s)(p \<mapsto> V)\<rparr>) = Some (s\<lparr>tcbs := (tcbs s)(p \<mapsto> V\<lparr>t_flags := t_flags V OR flag\<rparr>)\<rparr>)"
    for flag V using p by (simp add: KTaskFlagSet_def tcb_update_def tcb_at_def)
  have s: "s = s\<lparr>tcbs := (tcbs s)(p \<mapsto> T)\<rparr>" using p by (simp add: fun_upd_idem)
  have zero: "param_flags 0 = 0" "\<not> starts 0" by (simp_all add: param_flags_def starts_def)
  show ?thesis
  proof (cases "param = 0")
    case True
    then show ?thesis using zero s by (simp add: TaskCreate_parameters_def TASK_PARAMETER_NONE_def u_def)
  next
    case False
    have "TaskCreate_parameters p param varg (s\<lparr>tcbs := (tcbs s)(p \<mapsto> T)\<rparr>) =
      (if starts param then do { n \<leftarrow> node_at p u; (r, t) \<leftarrow> TaskNotify (node_id n) varg u; Some t } else Some u)"
      using False by (simp add: TaskCreate_parameters_def TASK_PARAMETER_NONE_def tick u_def param_flags_def starts_def or.assoc del: fun_upd_apply)
    then show ?thesis unfolding s [symmetric] .
  qed
qed

lemma parameters_ok:
  assumes ok: "task_table s ts evs m" and p: "p \<in> set ts" "tcb_at p s = Some T" and room: "starts param \<Longrightarrow> 3 \<le> m \<and> length evs < 255"
    and arg: "v_arg T = varg"
  defines "F \<equiv> (tcbs s)(p \<mapsto> T\<lparr>t_flags := t_flags T OR param_flags param\<rparr>)"
  shows "\<exists>t evs'. TaskCreate_parameters p param varg s = Some t \<and> task_table t ts evs' (if starts param then m - 3 else m) \<and> tcbs t = F \<and>
    map (nid t) evs' = (if starts param then queue_id (event_id (nid s p) TASK_EVENT_ACTIVATE) (map (nid s) evs) else map (nid s) evs) \<and>
    event_frame (s\<lparr>tcbs := F\<rparr>) t evs \<and> set evs \<subseteq> set evs'"
proof -
  have T: "tcbs s p = Some T" using p(2) by (simp add: tcb_at_def split: if_splits)
  then have ok': "task_table (s\<lparr>tcbs := F\<rparr>) ts evs m" unfolding F_def by (intro task_table_tcbs [OF ok, where p = p]) auto
  show ?thesis
  proof (cases "starts param")
    case False
    then show ?thesis using parameters_flags [OF p(2), of param varg] ok' event_frame_refl
      by (intro exI [of _ "s\<lparr>tcbs := F\<rparr>"] exI [of _ evs]) (simp add: F_def nid_def)
  next
    case True
    let ?T = "T\<lparr>t_flags := t_flags T OR param_flags param\<rparr>"
    have "p \<noteq> NULL" by (rule task_table_found [OF ok p(1)])
    then have "tcb_at p (s\<lparr>tcbs := F\<rparr>) = Some ?T" by (simp add: tcb_at_def F_def)
    from TaskNotify_ok [OF ok' p(1) this, of varg] room [OF True] arg
    obtain r t evs' where t: "TaskNotify (nid s p) varg (s\<lparr>tcbs := F\<rparr>) = Some (r, t)" "task_table t ts evs' (m - 3)"
      "map (nid t) evs' = queue_id (event_id (nid s p) TASK_EVENT_ACTIVATE) (map (nid s) evs)" "tcbs t = F" "event_frame (s\<lparr>tcbs := F\<rparr>) t evs" "set evs \<subseteq> set evs'"
      by (auto simp: F_def nid_def)
    obtain n where "node_at p s = Some n" "nid s p = node_id n"
      using is_list_nodes [of s TcbList ts p] ok p(1) by (auto simp: task_table_def sorted_list_def nid_def node_at_def)
    moreover have "node_at p (s\<lparr>tcbs := F\<rparr>) = node_at p s" by (simp add: node_at_def)
    ultimately show ?thesis using parameters_flags [OF p(2), of param varg] True t
      by (intro exI [of _ t] exI [of _ evs']) (simp add: F_def)
  qed
qed

text \<open>Creation as a whole, with what it leaves alone.\<close>

definition task_frame :: "'a task_state_scheme \<Rightarrow> 'a task_state_scheme \<Rightarrow> ptr \<Rightarrow> ptr set \<Rightarrow> bool" where
  "task_frame s t p N \<longleftrightarrow>
     (\<exists>hp pt h ls e f ps. t = s\<lparr>OsHeap := hp, PoolTable := pt, nodes := h, lists := ls, events := e, tcbs := f, IdPools := ps\<rparr>) \<and>
     (\<forall>l. l \<noteq> TcbList \<and> l \<noteq> EventList \<and> l \<noteq> LIn p \<longrightarrow> lists t l = lists s l) \<and> lists t (LIn p) = Some zero_list \<and>
     (\<forall>x \<in> objects s. x \<notin> N \<longrightarrow> nodes t x = nodes s x) \<and> objects s \<subseteq> objects t"

text \<open>The new task is added in \<open>u\<close>, its parameters applied in \<open>t\<close>.\<close>

lemma created_frame:
  assumes u: "\<exists>hp pt h ls ps. u = s\<lparr>OsHeap := hp, PoolTable := pt, nodes := h, lists := ls, tcbs := f, IdPools := ps\<rparr>"
      "\<forall>l. l \<noteq> TcbList \<and> l \<noteq> LIn p \<longrightarrow> lists u l = lists s l" "lists u (LIn p) = Some zero_list"
      "\<forall>x. x \<noteq> p \<and> x \<notin> set ts \<longrightarrow> nodes u x = nodes s x" "objects u = insert p (objects s)" "p \<notin> objects s"
    and t: "event_frame (u\<lparr>tcbs := g\<rparr>) t evs" "objects u \<subseteq> objects t"
  shows "task_frame s t p (set ts \<union> set evs)"
proof -
  have o: "objects (u\<lparr>tcbs := g\<rparr>) = objects u" by (rule objects_cong; simp)
  obtain hp pt h ls ps hp' pt' h' ls' e where shape:
    "u = s\<lparr>OsHeap := hp, PoolTable := pt, nodes := h, lists := ls, tcbs := f, IdPools := ps\<rparr>"
    "t = u\<lparr>tcbs := g, OsHeap := hp', PoolTable := pt', nodes := h', lists := ls', events := e\<rparr>"
    using u(1) t(1) unfolding event_frame_def by auto
  have "t = s\<lparr>OsHeap := hp', PoolTable := pt', nodes := h', lists := ls', events := e, tcbs := g, IdPools := ps\<rparr>"
    unfolding shape by simp
  then have "\<exists>hp pt h ls e f ps. t = s\<lparr>OsHeap := hp, PoolTable := pt, nodes := h, lists := ls, events := e, tcbs := f, IdPools := ps\<rparr>" by blast
  moreover have "lists t l = lists u l" if "l \<noteq> EventList" for l using t(1) that unfolding event_frame_def by simp
  moreover have "nodes t x = nodes s x" if "x \<in> objects s" "x \<notin> set ts \<union> set evs" for x
  proof -
    have "x \<noteq> p" "x \<in> objects u" using that(1) u(5,6) by auto
    then show ?thesis using t(1) that o u(4) unfolding event_frame_def by simp
  qed
  ultimately show ?thesis using u(2,3,5) t(2) unfolding task_frame_def by (simp add: EventList_def)
qed

lemma TaskCreate_ok:
  assumes ok: "task_table s ts evs m" and args: "cat \<le> TASK_CAT_OS" "OS_TASK_PRIO_LIMIT_LOW \<le> prio" "prio \<le> OS_TASK_PRIO_LIMIT_HIGH"
    and mode: "cat = TASK_CAT_OS \<Longrightarrow> KCoreFlagGet CORE_FLAG_KERNEL_MODE s \<noteq> 0"
    and room: "9 \<le> m" "length ts < 255" "length evs < 255" "id_count s 1 < 0xFFFFFF"
  shows "\<exists>p t evs'. TaskCreate handler cat prio param stack_size arg varg s = Some (nid t p, t) \<and> p \<notin> objects s \<and>
    unat (nid t p) = 2 ^ 24 + id_count s 1 \<and> task_table t (ts @ [p]) evs' (if starts param then m - 9 else m - 6) \<and>
    tcbs t = (tcbs s)(p \<mapsto> (new_tcb handler cat prio arg varg)\<lparr>t_flags := param_flags param\<rparr>) \<and> (\<forall>x \<in> set ts. nid t x = nid s x) \<and>
    map (nid t) evs' = (if starts param then queue_id (event_id (nid t p) TASK_EVENT_ACTIVATE) (map (nid s) evs) else map (nid s) evs) \<and>
    id_count t 1 = id_count s 1 + 1 \<and> task_frame s t p (set ts \<union> set evs)"
proof -
  have b: "blocks_for (unat SIZEOF_TCB) = 6" "SIZEOF_TCB \<noteq> 0" by (simp_all add: blocks_for_def SIZEOF_TCB_def)
  have "objects_ok s m" using ok by (simp add: task_table_def events_ok_def)
  then obtain p t0 where p: "KMemAllocObject SIZEOF_TCB 0 None s = Some ((p, None), t0)" "p \<noteq> NULL" "p \<notin> objects s"
    "objects t0 = insert p (objects s)" "objects_ok t0 (m - 6)" "heap_frame s t0"
    using KMemAllocObject_ok [of s m SIZEOF_TCB None] b room(1) by auto
  let ?T = "new_tcb handler cat prio arg varg"
  obtain u where u: "ListNodeAddSorted TcbList p (with_tcb p ?T t0) = Some (OS_RES_OK, u)" "task_table u (ts @ [p]) evs (m - 6)"
    "tcbs u = (tcbs s)(p \<mapsto> ?T)" "unat (nid u p) = 2 ^ 24 + id_count s 1" "\<forall>x. x \<noteq> p \<longrightarrow> nid u x = nid s x" "id_count u 1 = id_count s 1 + 1"
    "objects u = insert p (objects s)"
    "\<exists>hp pt h ls ps. u = s\<lparr>OsHeap := hp, PoolTable := pt, nodes := h, lists := ls, tcbs := (tcbs s)(p \<mapsto> ?T), IdPools := ps\<rparr>"
    "\<forall>l. l \<noteq> TcbList \<and> l \<noteq> LIn p \<longrightarrow> lists u l = lists s l" "lists u (LIn p) = Some zero_list"
    "\<forall>x. x \<noteq> p \<and> x \<notin> set ts \<longrightarrow> nodes u x = nodes s x"
    using add_task [OF ok room(2,4) p(6,4,5,3,2), of ?T] by blast
  have new: "p \<notin> set ts" "p \<notin> set evs" using ok p(3) by (auto simp: task_table_def events_ok_def)
  have T: "tcb_at p u = Some ?T" "p \<in> set (ts @ [p])" "v_arg ?T = varg" using u(3) p(2) by (simp_all add: tcb_at_def new_tcb_def)
  let ?F = "(tcbs u)(p \<mapsto> ?T\<lparr>t_flags := t_flags ?T OR param_flags param\<rparr>)"
  have r: "starts param \<Longrightarrow> 3 \<le> m - 6 \<and> length evs < 255" using room(1,3) by simp
  obtain t evs' where t: "TaskCreate_parameters p param varg u = Some t" "task_table t (ts @ [p]) evs' (if starts param then m - 6 - 3 else m - 6)"
    "tcbs t = ?F" "map (nid t) evs' = (if starts param then queue_id (event_id (nid u p) TASK_EVENT_ACTIVATE) (map (nid u) evs) else map (nid u) evs)"
    "event_frame (u\<lparr>tcbs := ?F\<rparr>) t evs" "set evs \<subseteq> set evs'"
    using parameters_ok [OF u(2) T(2,1) r T(3)] by blast
  have o: "objects (u\<lparr>tcbs := ?F\<rparr>) = objects u" by (rule objects_cong; simp)
  have nt: "nodes t x = nodes u x \<and> x \<in> objects t" if "x \<in> objects u" "x \<notin> set evs" for x
    using t(5) that o unfolding event_frame_def by simp
  have ids: "nid t x = nid u x" if "x \<in> set (ts @ [p])" for x
  proof -
    have "x \<in> objects u" "x \<notin> set evs" using that u(2) by (auto simp: task_table_def)
    then show ?thesis using nt by (simp add: nid_def)
  qed
  obtain n where "node_at p t = Some n" "node_id n = nid t p"
    using is_list_nodes [of t TcbList "ts @ [p]" p] t(2) by (auto simp: task_table_def sorted_list_def nid_def node_at_def)
  then have "TaskCreate handler cat prio param stack_size arg varg s = Some (nid t p, t)"
    using TaskCreate_eq [OF args mode p(1,2) u(1)] t(1) by simp
  moreover have evn: "map (nid u) evs = map (nid s) evs" using u(5) new by auto
  moreover have "tcbs t = (tcbs s)(p \<mapsto> ?T\<lparr>t_flags := param_flags param\<rparr>)" using t(3) u(3) by (simp add: new_tcb_def)
  moreover have "nid t p = nid u p" using ids by simp
  moreover have "nid t x = nid s x" if "x \<in> set ts" for x using ids [of x] u(5) that new(1) by (cases "x = p") simp_all
  moreover have "id_count t 1 = id_count u 1" using t(5) by (auto simp: event_frame_def id_count_def)
  moreover have "objects u \<subseteq> objects t" using nt t(2,6) by (auto simp: task_table_def events_ok_def)
  then have "task_frame s t p (set ts \<union> set evs)"
    by (intro created_frame [OF u(8,9,10,11,7) p(3) t(5)])
  ultimately show ?thesis using t(2) t(4) [unfolded evn] u(4,6) p(3) by (intro exI [of _ p] exI [of _ t] exI [of _ evs']) (simp split: if_splits)
qed

text \<open>
  C5. A task that is created gets a control block of its own and an ID that no task has had; it is last in the list of tasks,
  which stays in the order of IDs. Its control block holds what was asked for, with the flags of its parameters; a task that is to
  start has the event that activates it queued. Nothing else changes for the other tasks.
\<close>

theorem task_created:
  assumes ok: "task_table s ts evs m" and args: "cat \<le> TASK_CAT_OS" "OS_TASK_PRIO_LIMIT_LOW \<le> prio" "prio \<le> OS_TASK_PRIO_LIMIT_HIGH"
    and mode: "cat = TASK_CAT_OS \<Longrightarrow> KCoreFlagGet CORE_FLAG_KERNEL_MODE s \<noteq> 0"
    and room: "9 \<le> m" "length ts < 255" "length evs < 255" "id_count s 1 < 0xFFFFFF"
  shows "\<exists>p t evs'. TaskCreate handler cat prio param stack_size arg varg s = Some (nid t p, t) \<and> p \<notin> objects s \<and>
    unat (nid t p) = 2 ^ 24 + id_count s 1 \<and> task_table t (ts @ [p]) evs' (if starts param then m - 9 else m - 6) \<and>
    tcbs t = (tcbs s)(p \<mapsto> (new_tcb handler cat prio arg varg)\<lparr>t_flags := param_flags param\<rparr>) \<and> (\<forall>x \<in> set ts. nid t x = nid s x) \<and>
    map (nid t) evs' = (if starts param then queue_id (event_id (nid t p) TASK_EVENT_ACTIVATE) (map (nid s) evs) else map (nid s) evs)"
  using TaskCreate_ok [OF assms] by blast

subsection \<open>A concrete list of tasks\<close>

text \<open>A free object pool of 32 blocks, and no tasks or events.\<close>

definition create_start :: shell_state where
  "create_start = KIdInit (pool_512\<lparr>lists := [EventList \<mapsto> zero_list, TcbList \<mapsto> zero_list\<lparr>ll_id_group := ID_GROUP_TASK\<rparr>]\<rparr>)"

lemma create_start_simps:
  "lists create_start = [EventList \<mapsto> zero_list, TcbList \<mapsto> zero_list\<lparr>ll_id_group := ID_GROUP_TASK\<rparr>]" "tcbs create_start = Map.empty" "id_count create_start 1 = 0"
  by (simp_all add: create_start_def KIdInit_def pool_512_def event_start_def shell_bss_def id_count_def ID_GROUP_NUM_def ID_SHIFT_AMOUNT_GROUP_def upt_rec)

lemma create_start_ok: "task_table create_start [] [] 32"
proof -
  have "roomy 32 (replicate 32 Free)" unfolding roomy_def by (metis append_Nil append_Nil2)
  moreover have "ObjectPoolId pool_512 = 0" "crit_ok pool_512" "kernel_ok pool_512" "kr_crit_sect_nest_counter (KernelReg pool_512) < 254"
    by (simp_all add: pool_512_def event_start_def shell_bss_def crit_ok_def kernel_ok_def core_bss_def KCoreFlagGet_def)
  ultimately have "objects_ok pool_512 32"
    using pool_512_wf unfolding objects_ok_def by auto
  moreover have "objects_ok create_start 32 = objects_ok pool_512 32" by (rule objects_cong; simp add: create_start_def KIdInit_def)
  moreover have "id_pools_ok create_start" unfolding create_start_def by (rule id_pools_ok_init)
  ultimately show ?thesis
    by (simp add: task_table_def events_ok_def sorted_list_def searchable_def is_list_def list_unlocked_def ll_at_def create_start_simps zero_list_def
        TcbList_def EventList_def)
qed

theorem task_created_witness:
  "\<exists>p t x. TaskCreate 0x2000 TASK_CAT_LOW 3 TASK_PARAMETER_START 0 NULL 7 create_start = Some (0x01000000, t) \<and> task_table t [p] [x] 23 \<and>
     tcbs t p = Some ((new_tcb 0x2000 TASK_CAT_LOW 3 NULL 7)\<lparr>t_flags := 0\<rparr>)"
proof -
  have p: "starts TASK_PARAMETER_START" "param_flags TASK_PARAMETER_START = 0"
    by (simp_all add: starts_def param_flags_def TASK_PARAMETER_START_def TASK_PARAMETER_ESSENTIAL_def TASK_PARAMETER_NO_PREEM_def)
  have args: "TASK_CAT_LOW \<le> TASK_CAT_OS" "OS_TASK_PRIO_LIMIT_LOW \<le> 3" "3 \<le> OS_TASK_PRIO_LIMIT_HIGH" "TASK_CAT_LOW \<noteq> TASK_CAT_OS"
    by (simp_all add: TASK_CAT_LOW_def TASK_CAT_OS_def OS_TASK_PRIO_LIMIT_LOW_def OS_TASK_PRIO_LIMIT_HIGH_def)
  obtain q t evs where t: "TaskCreate 0x2000 TASK_CAT_LOW 3 TASK_PARAMETER_START 0 NULL 7 create_start = Some (nid t q, t)"
    "unat (nid t q) = 2 ^ 24" "task_table t [q] evs 23" "tcbs t = [q \<mapsto> (new_tcb 0x2000 TASK_CAT_LOW 3 NULL 7)\<lparr>t_flags := 0\<rparr>]"
    "map (nid t) evs = queue_id (event_id (nid t q) TASK_EVENT_ACTIVATE) []"
    using task_created [OF create_start_ok args(1-3), where handler = "0x2000" and param = TASK_PARAMETER_START and arg = NULL and varg = 7 and stack_size = 0]
      args(4) p create_start_simps(2,3) by auto
  have "nid t q = 0x01000000" using t(2) by (simp add: word_unat_eq_iff)
  moreover obtain x where "evs = [x]" using t(5) by (auto simp: queue_id_def)
  ultimately show ?thesis using t(1,3,4) by auto
qed
end
