(* ===== verification/BootProps.thy ===== *)
theory BootProps
  imports TaskCreateProps System Prescaler
begin

text \<open>
  The start-up of the kernel: \<open>OsInit\<close> brings the memory, the IDs, the task lists, the event list, the scheduler and the timers
  up, in that order, and leaves a kernel with an idle task, a task for the timers, and the events that the start needs.
\<close>

subsection \<open>Changes of the register\<close>

lemma objects_reg:
  "objects (s\<lparr>KernelReg := R\<rparr>) = objects s"
  "objects_ok s m \<Longrightarrow> crit_ok (s\<lparr>KernelReg := R\<rparr>) \<Longrightarrow> kernel_ok (s\<lparr>KernelReg := R\<rparr>) \<Longrightarrow> kr_crit_sect_nest_counter R < 254 \<Longrightarrow>
     objects_ok (s\<lparr>KernelReg := R\<rparr>) m"
proof -
  have p: "pool_ok (s\<lparr>KernelReg := R\<rparr>) = pool_ok s" by (intro ext) (simp add: pool_ok_def)
  then show "objects (s\<lparr>KernelReg := R\<rparr>) = objects s"
    by (simp add: objects_def pool_live_def)
  have "mem_wf (s\<lparr>KernelReg := R\<rparr>) B = mem_wf s B" for B
    using p by (simp add: mem_wf_def)
  then show "objects_ok s m \<Longrightarrow> crit_ok (s\<lparr>KernelReg := R\<rparr>) \<Longrightarrow> kernel_ok (s\<lparr>KernelReg := R\<rparr>) \<Longrightarrow> kr_crit_sect_nest_counter R < 254 \<Longrightarrow>
     objects_ok (s\<lparr>KernelReg := R\<rparr>) m"
    by (auto simp: objects_ok_def)
qed

lemma task_table_reg:
  assumes "task_table s ts evs m" and "crit_ok (s\<lparr>KernelReg := R\<rparr>)" "kernel_ok (s\<lparr>KernelReg := R\<rparr>)" "kr_crit_sect_nest_counter R < 254"
  shows "task_table (s\<lparr>KernelReg := R\<rparr>) ts evs m"
proof (rule task_table_keep [OF assms(1)])
  have ev: "events_ok s evs m" using assms(1) by (simp add: task_table_def)
  then have "objects_ok s m" by (simp add: events_ok_def)
  then have "objects_ok (s\<lparr>KernelReg := R\<rparr>) m" by (rule objects_reg(2)) (fact assms)+
  with ev show "events_ok (s\<lparr>KernelReg := R\<rparr>) evs m"
    by (rule events_ok_keep) (use ev in \<open>auto simp: events_ok_def objects_reg(1)\<close>)
qed (use assms(1) in \<open>simp_all add: task_table_def tcb_at_def objects_reg(1)\<close>)

subsection \<open>The register and the memory\<close>

definition boot_reg :: "Reg_t \<Rightarrow> Reg_t" where
  "boot_reg R = R\<lparr>kr_lock := 0, kr_os_running := 1, kr_kernel_mode_nest_counter := 1, kr_isr_nest_counter := 0, kr_crit_sect_nest_counter := 1,
     kr_micros := 0, kr_hours := 0, kr_t_accu := 0, kr_scheduler_lock := 0, kr_sreg := CORE_FLAG_KERNEL_MODE,
     kr_prescaler := 8, kr_f_os := 1000, kr_ovf := 8999, kr_tick_period_us := 1000\<rparr>"

lemma OsInit_register_ok: "OsInit_register s = Some (s\<lparr>KernelReg := boot_reg (KernelReg s), GlobalIntEnabled := False\<rparr>)"
proof -
  obtain lk pr fo ov tp tr ti wl tl el isn crn kmn sl sr osr mi ho ta where
    "KernelReg s = \<lparr>kr_lock = lk, kr_prescaler = pr, kr_f_os = fo, kr_ovf = ov, kr_tick_period_us = tp, kr_tcb_running = tr, kr_tcb_idle = ti,
      kr_tcb_wait_list = wl, kr_tcb_list = tl, kr_event_list = el, kr_isr_nest_counter = isn, kr_crit_sect_nest_counter = crn,
      kr_kernel_mode_nest_counter = kmn, kr_scheduler_lock = sl, kr_sreg = sr, kr_os_running = osr, kr_micros = mi, kr_hours = ho, kr_t_accu = ta\<rparr>"
    by (cases "KernelReg s") blast
  then show ?thesis
    by (simp add: OsInit_register_def KERNEL_REG_LOCK_def KERNEL_REG_UNLOCK_def KCoreFlagClear_def OsCritSectBegin_def KCoreKernelModeEnter_def
        KCoreFlagSet_def prescaler_configured boot_reg_def)
qed

lemma MemPoolCreate_frame:
  assumes "MemPoolCreate n s = Some (r, t)" and "crit_ok s"
  shows "heap_frame s t"
proof -
  have "crit_ok (Pool_update pid f s)" "heap_frame s (Pool_update pid f s)" for pid f
    using assms(2) by (simp_all add: heap_frame_def Pool_update_def crit_ok_def)
  then show ?thesis
    using assms by (auto simp: MemPoolCreate_def kcore Let_def heap_frame_def split: if_splits bind_splits)
qed

lemma KMemInit_frame:
  assumes "KMemInit heap n u (Some table) s = Some (r, t)" and "crit_ok s"
  shows "\<exists>hb np hs he hp pt op. t = s\<lparr>HeapBase := hb, TotalHeapPools := np, TotalHeapSize := hs, HeapIndexEnd := he, OsHeap := hp, PoolTable := pt,
    ObjectPoolId := op\<rparr>"
proof -
  have frame: "\<exists>hp' pt'. v = u\<lparr>OsHeap := hp', PoolTable := pt'\<rparr>" if "MemPoolCreate k u = Some (pid, v)" "crit_ok u" for u v :: "'a mem_state_scheme" and k pid
    using heap_frame_state MemPoolCreate_frame that by blast
  show ?thesis
  proof (cases "t = s")
    case False
    obtain hb np hs he pt hp pid v k where v: "MemPoolCreate k (s\<lparr>HeapBase := hb, TotalHeapPools := np, TotalHeapSize := hs, HeapIndexEnd := he, PoolTable := pt, OsHeap := hp\<rparr>) = Some (pid, v)" "t = v\<lparr>ObjectPoolId := pid\<rparr>"
      using assms False by (auto simp: KMemInit_def Let_def Heap_clear_def split: if_splits bind_splits)
    have "crit_ok (s\<lparr>HeapBase := hb, TotalHeapPools := np, TotalHeapSize := hs, HeapIndexEnd := he, PoolTable := pt, OsHeap := hp\<rparr>)"
      using assms(2) by (simp add: crit_ok_def)
    from frame [OF v(1) this] v(2) show ?thesis by (simp, blast)
  next
    case True
    then show ?thesis
      by (intro exI [of _ "HeapBase s"] exI [of _ "TotalHeapPools s"] exI [of _ "TotalHeapSize s"] exI [of _ "HeapIndexEnd s"] exI [of _ "OsHeap s"]
          exI [of _ "PoolTable s"] exI [of _ "ObjectPoolId s"]) simp
  qed
qed


subsection \<open>The stages\<close>

text \<open>What the stages set beside the objects: the register, the lifetime of events, the idle task, the list that the scheduler reads.\<close>

definition boot_view :: "'a sched_state_scheme \<Rightarrow> Reg_t \<times> U32_t \<times> ptr \<times> Id_t \<times> lptr" where
  "boot_view s = (KernelReg s, EmittedEventLifetimeUs s, TcbIdle s, KTidIdle s, SchedEventList s)"

text \<open>The lists are static: they are zero at power-up.\<close>

definition static_lists :: "'a list_state_scheme \<Rightarrow> bool" where
  "static_lists s \<longleftrightarrow> (\<forall>l \<in> {TcbList, TcbWaitList, EventList, ExecutionQueue, TimerList}. lists s l = Some zero_list)"

lemma free_not_live: "live_segs i (replicate n Free) = {}"
  by (induction n arbitrary: i) simp_all

text \<open>After the memory: the object pool is one gap of 896 blocks.\<close>

lemma memory_stage:
  assumes "heap \<noteq> NULL" and "length table = MEM_NUM_POOLS" and lists: "static_lists s"
  shows "\<exists>s1 t. OsInit_register s = Some s1 \<and>
    KMemInit heap PRTOS_CONFIG_OS_HEAP_SIZE_BYTES PRTOS_CONFIG_USER_HEAP_SIZE_BYTES (Some table) (KIdInit s1) = Some (OS_RES_OK, t) \<and>
    objects_ok t 896 \<and> objects t = {} \<and> lists t = lists s \<and> tcbs t = tcbs s \<and> KernelReg t = boot_reg (KernelReg s) \<and> IdPools t = IdPools (KIdInit s)"
proof -
  let ?s = "s\<lparr>KernelReg := boot_reg (KernelReg s), GlobalIntEnabled := False\<rparr>"
  have ids: "crit_ok (KIdInit ?s)" by (simp add: crit_ok_def KIdInit_def boot_reg_def)
  let ?hs = PRTOS_CONFIG_OS_HEAP_SIZE_BYTES and ?us = PRTOS_CONFIG_USER_HEAP_SIZE_BYTES
  obtain t where t: "KMemInit heap ?hs ?us (Some table) (KIdInit ?s) = Some (OS_RES_OK, t)" "ObjectPoolId t = 0" "mem_wf t (\<lambda>_. replicate 896 Free)"
    "pool_used t 0"
    using KMemInit_object_pool [OF ids assms(1,2), of ?hs ?us] by (auto simp: PRTOS_CONFIG_OS_HEAP_SIZE_BYTES_def PRTOS_CONFIG_USER_HEAP_SIZE_BYTES_def)
  have f: "lists t = lists s" "tcbs t = tcbs s" "KernelReg t = KernelReg ?s" "GlobalIntEnabled t = GlobalIntEnabled ?s" "IdPools t = IdPools (KIdInit s)"
    using KMemInit_frame [OF t(1) ids] by (auto simp: KIdInit_def)
  have k: "kernel_ok t" "crit_ok t" "kr_crit_sect_nest_counter (KernelReg t) < 254"
    using f(3,4) by (simp_all add: kernel_ok_def crit_ok_def boot_reg_def KCoreFlagGet_def CORE_FLAG_KERNEL_MODE_def)
  have "roomy 896 (replicate 896 Free)" unfolding roomy_def by (metis append_Nil append_Nil2)
  then have "objects_ok t 896"
    using t(2-4) k by (auto simp: objects_ok_def)
  moreover have "pool_ok t 0 (replicate 896 Free)" using mem_wf_pool [OF t(3), of 0] t(4) by simp
  then have "objects t = {}" unfolding objects_def t(2) by (simp add: pool_live_eq free_not_live)
  ultimately show ?thesis using OsInit_register_ok [of s] t(1) f by auto
qed


lemma task_table_cong:
  assumes "task_table s ts evs m" and o: "HeapBase t = HeapBase s" "OsHeap t = OsHeap s" "PoolTable t = PoolTable s" "TotalHeapPools t = TotalHeapPools s"
    "TotalHeapSize t = TotalHeapSize s" "ObjectPoolId t = ObjectPoolId s" "KernelReg t = KernelReg s" "GlobalIntEnabled t = GlobalIntEnabled s"
    and "nodes t = nodes s" "lists t TcbList = lists s TcbList" "lists t EventList = lists s EventList" "events t = events s" "tcbs t = tcbs s"
    "IdPools t = IdPools s"
  shows "task_table t ts evs m"
proof (rule task_table_keep [OF assms(1)])
  have o: "objects t = objects s" "objects_ok t m = objects_ok s m" by (rule objects_cong [OF o])+
  have ev: "events_ok s evs m" using assms(1) by (simp add: task_table_def)
  then show "events_ok t evs m" by (rule events_ok_keep) (use ev o assms in \<open>auto simp: events_ok_def\<close>)
  show "set ts \<subseteq> objects t" using assms(1) o by (simp add: task_table_def)
qed (use assms in \<open>simp_all add: task_table_def tcb_at_def\<close>)

text \<open>After the tasks: the idle task.\<close>

abbreviation idle_tcb :: "ptr \<Rightarrow> Tcb_t" where
  "idle_tcb idle \<equiv> (new_tcb idle TASK_CAT_LOW 1 NULL 0)\<lparr>t_flags := TASK_FLAG_ESSENTIAL\<rparr>"

lemma task_stage:
  assumes ok: "objects_ok s m" and lists: "static_lists s" and ids: "id_pools_ok s" "id_count s 1 = 0" and m: "9 \<le> m"
  shows "\<exists>p t. KTaskInit idle s = Some (OS_RES_OK, t) \<and> task_table t [p] [] (m - 6) \<and> TcbIdle t = p \<and> KTidIdle t = nid t p \<and> unat (nid t p) = 2 ^ 24 \<and>
    tcbs t = (tcbs s)(p \<mapsto> idle_tcb idle) \<and> id_count t 1 = 1 \<and> (\<forall>l \<in> {ExecutionQueue, TimerList}. lists t l = Some zero_list) \<and>
    KernelReg t = KernelReg s"
proof -
  define u where "u = s\<lparr>lists := (lists s)(TcbList \<mapsto> zero_list\<lparr>ll_id_group := ID_GROUP_TASK\<rparr>, TcbWaitList \<mapsto> zero_list\<lparr>ll_id_group := ID_GROUP_TASK\<rparr>),
    TcbIdle := NULL\<rparr>"
  have l: "lists s TcbList = Some zero_list" "lists s TcbWaitList = Some zero_list" "lists s EventList = Some zero_list"
    "lists s ExecutionQueue = Some zero_list" "lists s TimerList = Some zero_list" using lists by (simp_all add: static_lists_def)
  have ne: "TcbList \<noteq> LNULL" "TcbWaitList \<noteq> LNULL" "TcbList \<noteq> TcbWaitList" "EventList \<noteq> TcbList" "EventList \<noteq> TcbWaitList"
    "ExecutionQueue \<notin> {TcbList, TcbWaitList, EventList}" "TimerList \<notin> {TcbList, TcbWaitList, EventList}"
    by (simp_all add: TcbList_def TcbWaitList_def EventList_def ExecutionQueue_def TimerList_def)
  have "ListInit TcbList ID_GROUP_TASK s = Some (OS_RES_OK, s\<lparr>lists := (lists s)(TcbList \<mapsto> zero_list\<lparr>ll_id_group := ID_GROUP_TASK\<rparr>)\<rparr>)"
    "ListInit TcbWaitList ID_GROUP_TASK (s\<lparr>lists := (lists s)(TcbList \<mapsto> zero_list\<lparr>ll_id_group := ID_GROUP_TASK\<rparr>)\<rparr>) =
      Some (OS_RES_OK, s\<lparr>lists := lists u\<rparr>)"
    using l ne by (simp_all add: ListInit_def ll_update_eq ll_at_def zero_list_def u_def)
  then have eq: "KTaskInit idle s = do {
       (tid, s) \<leftarrow> TaskCreate idle TASK_CAT_LOW 1 TASK_PARAMETER_ESSENTIAL 0 NULL 0 u;
       let s = s\<lparr>KTidIdle := tid\<rparr>;
       if tid = ID_INVALID then Some (OS_RES_CRIT_ERROR, s)
       else do {
         (tcb, s) \<leftarrow> KTcbFromId (KTidIdle s) s;
         let s = s\<lparr>TcbIdle := tcb\<rparr>;
         Some (if TcbIdle s = NULL then OS_RES_CRIT_ERROR else OS_RES_OK, s)
       }
     }" by (simp add: KTaskInit_def u_def)
  have u: "task_table u [] [] m"
  proof -
    have "objects_ok u m = objects_ok s m" by (rule objects_cong; simp add: u_def)
    moreover have "lists u TcbList = Some (zero_list\<lparr>ll_id_group := ID_GROUP_TASK\<rparr>)" "lists u EventList = Some zero_list" "IdPools u = IdPools s"
      using l ne by (simp_all add: u_def)
    ultimately show ?thesis using ok ids(1) ne
      by (simp add: task_table_def events_ok_def sorted_list_def searchable_def is_list_def list_unlocked_def ll_at_def zero_list_def EventList_def id_pools_ok_def id_count_def)
  qed
  obtain p v where v: "TaskCreate idle TASK_CAT_LOW 1 TASK_PARAMETER_ESSENTIAL 0 NULL 0 u = Some (nid v p, v)" "unat (nid v p) = 2 ^ 24"
    "task_table v [p] [] (m - 6)" "tcbs v = (tcbs u)(p \<mapsto> idle_tcb idle)" "id_count v 1 = 1" "task_frame u v p {}"
  proof -
    have par: "\<not> starts TASK_PARAMETER_ESSENTIAL" "param_flags TASK_PARAMETER_ESSENTIAL = TASK_FLAG_ESSENTIAL" "TASK_CAT_LOW \<noteq> TASK_CAT_OS"
      "TASK_CAT_LOW \<le> TASK_CAT_OS" "OS_TASK_PRIO_LIMIT_LOW \<le> 1" "1 \<le> OS_TASK_PRIO_LIMIT_HIGH"
      by (simp_all add: starts_def param_flags_def TASK_PARAMETER_ESSENTIAL_def TASK_PARAMETER_START_def TASK_PARAMETER_NO_PREEM_def TASK_CAT_LOW_def TASK_CAT_OS_def
          OS_TASK_PRIO_LIMIT_LOW_def OS_TASK_PRIO_LIMIT_HIGH_def)
    have "id_count u 1 = 0" using ids(2) by (simp add: u_def id_count_def)
    then show thesis using TaskCreate_ok [OF u par(4-6), where handler = idle and param = TASK_PARAMETER_ESSENTIAL and stack_size = 0 and arg = NULL and varg = 0]
      par(1-3) m that by auto
  qed
  define w where "w = v\<lparr>KTidIdle := nid v p, TcbIdle := p\<rparr>"
  have tab: "task_table (v\<lparr>KTidIdle := nid v p\<rparr>) [p] [] (m - 6)" "task_table w [p] [] (m - 6)"
    by (rule task_table_cong [OF v(3)]; simp add: w_def)+
  have nid: "nid (v\<lparr>KTidIdle := nid v p\<rparr>) p = nid v p" "nid w p = nid v p" by (simp_all add: nid_def w_def)
  have f: "KTcbFromId (nid v p) (v\<lparr>KTidIdle := nid v p\<rparr>) = Some (p, v\<lparr>KTidIdle := nid v p\<rparr>)" "nid v p \<noteq> ID_INVALID" "p \<noteq> NULL"
    using task_table_found [OF tab(1), of p] nid(1) by simp_all
  then have "KTaskInit idle s = Some (OS_RES_OK, w)" unfolding eq using v(1) by (simp add: w_def)
  moreover have "lists w l = Some zero_list" if "l \<in> {ExecutionQueue, TimerList}" for l
  proof -
    have "lists v l = lists u l"
      using v(6) that by (auto simp: task_frame_def ExecutionQueue_def TimerList_def TcbList_def EventList_def)
    moreover have "lists u l = Some zero_list" using that l ne by (auto simp: u_def)
    ultimately show ?thesis by (simp add: w_def)
  qed
  moreover have "KernelReg w = KernelReg s" "tcbs u = tcbs s" using v(6) by (auto simp: task_frame_def w_def u_def)
  ultimately show ?thesis using tab(2) v(2,4,5) nid(2) by (intro exI [of _ p] exI [of _ w]) (simp add: w_def id_count_def)
qed

text \<open>After the events: the list is set up once more, and the lifetime of events is three periods of the tick.\<close>

lemma event_stage:
  assumes "task_table s ts [] m"
  defines "t \<equiv> s\<lparr>lists := (lists s)(EventList \<mapsto> zero_list), EmittedEventLifetimeUs := kr_tick_period_us (KernelReg s) * 3\<rparr>"
  shows "EventInit s = Some (OS_RES_OK, t)" "task_table t ts [] m"
proof -
  have ne: "EventList \<noteq> LNULL" "EventList \<noteq> TcbList" by (simp_all add: EventList_def TcbList_def)
  have ev: "events_ok s [] m" using assms(1) by (simp add: task_table_def)
  then obtain ll where ll: "ll_at EventList s = Some ll" by (auto simp: events_ok_def list_unlocked_def)
  have "ll\<lparr>ll_head := NULL, ll_tail := NULL, ll_lock := 0, ll_size := 0, ll_sorted := False, ll_middle := NULL, ll_id_group := 0\<rparr> = zero_list"
    by (cases ll) (simp add: zero_list_def)
  then show "EventInit s = Some (OS_RES_OK, t)"
    using ll ne by (simp add: EventInit_def ListInit_def ll_update_eq ll_at_def OsTickPeriodGet_def PRTOS_CONFIG_EVENT_LIFE_TIME_TICKS_def t_def)
  have o: "objects t = objects s" "objects_ok t m = objects_ok s m" by (rule objects_cong; simp add: t_def)+
  show "task_table t ts [] m"
  proof (rule task_table_keep [OF assms(1)])
    show "events_ok t [] m"
      using ev o by (simp add: events_ok_def searchable_def is_list_def list_unlocked_def ll_at_def t_def zero_list_def EventList_def)
    show "set ts \<subseteq> objects t" using assms(1) o by (simp add: task_table_def)
  qed (use ne in \<open>simp_all add: t_def tcb_at_def\<close>)
qed

text \<open>After the scheduler: an empty execution queue and the first event.\<close>

lemma scheduler_stage:
  assumes ok: "task_table s ts [] m" and q: "lists s ExecutionQueue = Some zero_list" and m: "3 \<le> m"
  shows "\<exists>x t. KSchedulerInit l s = Some t \<and> task_table t ts [x] (m - 3) \<and> nid t x = event_id ID_INVALID MOCK_EVENT \<and>
    boot_view t = (KernelReg s, EmittedEventLifetimeUs s, TcbIdle s, KTidIdle s, l) \<and> tcbs t = tcbs s \<and> id_count t = id_count s \<and>
    (\<forall>z \<in> set ts. nid t z = nid s z) \<and> lists t ExecutionQueue = Some (zero_list\<lparr>ll_id_group := ID_GROUP_TASK\<rparr>) \<and>
    (\<forall>l'. l' \<notin> {EventList, ExecutionQueue} \<longrightarrow> lists t l' = lists s l')"
proof -
  let ?u = "s\<lparr>lists := (lists s)(ExecutionQueue \<mapsto> zero_list\<lparr>ll_id_group := ID_GROUP_TASK\<rparr>)\<rparr>"
  have ne: "ExecutionQueue \<noteq> LNULL" "ExecutionQueue \<notin> {TcbList, EventList}" by (simp_all add: ExecutionQueue_def EventList_def TcbList_def)
  have u: "task_table ?u ts [] m" by (rule task_table_cong [OF ok]) (use ne in auto)
  then have ev: "events_ok ?u [] m" by (simp add: task_table_def)
  obtain v x where v: "EventEmit ID_INVALID MOCK_EVENT EVENT_FLAG_NONE ?u = Some (OS_RES_OK, v)" "events_ok v [x] (m - 3)" "nid v x = event_id ID_INVALID MOCK_EVENT"
    "event_frame ?u v []" "x \<notin> objects ?u"
    using EventEmit_new [OF ev, of ID_INVALID MOCK_EVENT EVENT_FLAG_NONE] m by auto
  have "task_table v ts [x] (m - 3)"
  proof (rule task_table_keep [OF u v(2)])
    show "set [x] \<inter> set ts = {}" using u v(5) by (auto simp: task_table_def)
    show "nodes v y = nodes ?u y \<and> (tcb_at y v = None \<longleftrightarrow> tcb_at y ?u = None)" if "y \<in> set ts" for y
    proof -
      have "y \<in> objects ?u" using that u by (auto simp: task_table_def)
      then show ?thesis using v(4) by (auto simp: event_frame_def tcb_at_def)
    qed
  qed (use v(4) u in \<open>auto simp: event_frame_def task_table_def TcbList_def EventList_def\<close>)
  then have "task_table (v\<lparr>SchedEventList := l\<rparr>) ts [x] (m - 3)" by (rule task_table_cong) simp_all
  moreover have "KSchedulerInit l s = Some (v\<lparr>SchedEventList := l\<rparr>)"
    using q ne v(1) by (simp add: KSchedulerInit_def ListInit_def ll_update_eq ll_at_def zero_list_def)
  moreover have "boot_view (v\<lparr>SchedEventList := l\<rparr>) = (KernelReg s, EmittedEventLifetimeUs s, TcbIdle s, KTidIdle s, l)" "tcbs v = tcbs s" "IdPools v = IdPools s"
    using v(4) by (auto simp: event_frame_def boot_view_def)
  moreover have "lists v ExecutionQueue = Some (zero_list\<lparr>ll_id_group := ID_GROUP_TASK\<rparr>)"
    "\<forall>l'. l' \<notin> {EventList, ExecutionQueue} \<longrightarrow> lists v l' = lists s l'"
    using v(4) ne by (simp_all add: event_frame_def)
  moreover have "nid v z = nid s z" if "z \<in> set ts" for z
  proof -
    have "z \<in> objects ?u" using u that by (auto simp: task_table_def)
    then show ?thesis using v(4) by (simp add: event_frame_def nid_def)
  qed
  ultimately show ?thesis using v(3) by (intro exI [of _ x] exI [of _ "v\<lparr>SchedEventList := l\<rparr>"]) (simp add: nid_def id_count_def fun_eq_iff)
qed

text \<open>Tasks of the kernel are created in kernel mode, and start at once.\<close>

lemma KernelTaskCreate_ok:
  fixes s :: "'a task_state_scheme" and param
  assumes ok: "task_table s ts evs m" and prio: "OS_TASK_PRIO_LIMIT_LOW \<le> prio" "prio \<le> OS_TASK_PRIO_LIMIT_HIGH"
    and nest: "kr_kernel_mode_nest_counter (KernelReg s) < 254"
    and room: "9 \<le> m" "length ts < 255" "length evs < 255" "id_count s 1 < 0xFFFFFF"
  defines "ps \<equiv> TASK_PARAMETER_NO_PREEM OR TASK_PARAMETER_START OR param"
  shows "\<exists>p t evs'. KernelTaskCreate handler prio param stack_size arg varg s = Some (nid t p, t) \<and> p \<notin> objects s \<and> unat (nid t p) = 2 ^ 24 + id_count s 1 \<and>
    task_table t (ts @ [p]) evs' (m - 9) \<and> tcbs t = (tcbs s)(p \<mapsto> (new_tcb handler TASK_CAT_OS prio arg varg)\<lparr>t_flags := param_flags ps\<rparr>) \<and>
    (\<forall>x \<in> set ts. nid t x = nid s x) \<and> map (nid t) evs' = queue_id (event_id (nid t p) TASK_EVENT_ACTIVATE) (map (nid s) evs) \<and>
    id_count t 1 = id_count s 1 + 1 \<and> task_frame s t p (set ts \<union> set evs)"
proof -
  have k: "kernel_ok s" "crit_ok s" "kr_crit_sect_nest_counter (KernelReg s) < 254" using ok by (auto simp: task_table_def events_ok_def objects_ok_def)
  have st: "starts ps"
  proof -
    have "ps AND TASK_PARAMETER_START = TASK_PARAMETER_START"
      by (rule bit_word_eqI) (auto simp: ps_def bit_simps)
    then show ?thesis by (simp add: starts_def TASK_PARAMETER_START_def)
  qed
  obtain R where R: "kernel_enter s = s\<lparr>KernelReg := R\<rparr>" "kr_crit_sect_nest_counter R = kr_crit_sect_nest_counter (KernelReg s)"
    by (simp add: kernel_enter_def)
  have "kr_kernel_mode_nest_counter (KernelReg s) + 1 < 255" "kr_kernel_mode_nest_counter (KernelReg s) + 1 \<noteq> 0"
    using nest by (auto simp: word_less_nat_alt unat_word_ariths word_unat_eq_iff)
  then have k2: "crit_ok (kernel_enter s)" "kernel_ok (kernel_enter s)"
    using k kernel_enter_mode [OF k(1)] by (simp_all add: kernel_ok_def) (simp_all add: kernel_enter_def)
  have e: "task_table (kernel_enter s) ts evs m" unfolding R(1) using R k k2 by (intro task_table_reg [OF ok]) simp_all
  obtain p t evs' where t: "TaskCreate handler TASK_CAT_OS prio ps stack_size arg varg (kernel_enter s) = Some (nid t p, t)" "p \<notin> objects (kernel_enter s)"
    "unat (nid t p) = 2 ^ 24 + id_count (kernel_enter s) 1" "task_table t (ts @ [p]) evs' (m - 9)"
    "tcbs t = (tcbs (kernel_enter s))(p \<mapsto> (new_tcb handler TASK_CAT_OS prio arg varg)\<lparr>t_flags := param_flags ps\<rparr>)"
    "\<forall>x \<in> set ts. nid t x = nid (kernel_enter s) x" "map (nid t) evs' = queue_id (event_id (nid t p) TASK_EVENT_ACTIVATE) (map (nid (kernel_enter s)) evs)"
    "id_count t 1 = id_count (kernel_enter s) 1 + 1" "task_frame (kernel_enter s) t p (set ts \<union> set evs)"
    using TaskCreate_ok [OF e order.refl prio, where handler = handler and param = ps and stack_size = stack_size and arg = arg and varg = varg]
      kernel_enter_mode [OF k(1)] room st by (auto simp: R(1) id_count_def)
  have f: "tcbs (kernel_enter s) = tcbs s" "nid (kernel_enter s) = nid s" "objects (kernel_enter s) = objects s" "id_count (kernel_enter s) = id_count s"
    unfolding R(1) by (simp_all add: fun_eq_iff nid_def objects_reg(1) id_count_def)
  define v where "v = t\<lparr>KernelReg := KernelReg s\<rparr>"
  obtain hp pt h ls e' g ids where shape: "t = (kernel_enter s)\<lparr>OsHeap := hp, PoolTable := pt, nodes := h, lists := ls, events := e', tcbs := g, IdPools := ids\<rparr>"
    using t(9) by (auto simp: task_frame_def)
  have vs: "v = s\<lparr>OsHeap := hp, PoolTable := pt, nodes := h, lists := ls, events := e', tcbs := g, IdPools := ids\<rparr>"
    by (simp add: v_def shape R(1))
  have v: "kernel_enter v = t" "kernel_ok v" "crit_ok v"
    using k(1,2) by (simp_all add: vs shape kernel_enter_def kernel_ok_def crit_ok_def KCoreFlagGet_def split: if_splits)
  have "task_table v (ts @ [p]) evs' (m - 9)" unfolding v_def by (rule task_table_reg [OF t(4)]) (use v k in \<open>simp_all add: v_def\<close>)
  moreover have "KernelTaskCreate handler prio param stack_size arg varg s = Some (nid t p, v)"
    using KCoreKernelModeEnter_ok [OF k(1)] KCoreKernelModeExit_ok [OF v(2)] t(1) v(1) by (auto simp: KernelTaskCreate_def ps_def)
  moreover have "nid v = nid t" "tcbs v = tcbs t" "id_count v = id_count t" "objects v = objects t" by (simp_all add: v_def fun_eq_iff nid_def id_count_def objects_reg(1))
  moreover have "task_frame s v p (set ts \<union> set evs)"
  proof -
    have w: "lists v = lists t" "nodes v = nodes t" "lists (kernel_enter s) = lists s" "nodes (kernel_enter s) = nodes s" "objects v = objects t"
      by (simp_all add: v_def R(1) objects_reg(1))
    have "\<exists>hp pt h ls e f ps. v = s\<lparr>OsHeap := hp, PoolTable := pt, nodes := h, lists := ls, events := e, tcbs := f, IdPools := ps\<rparr>" using vs by blast
    then show ?thesis using t(9) unfolding task_frame_def w f(3) by blast
  qed
  ultimately show ?thesis using t f by (intro exI [of _ p] exI [of _ v] exI [of _ evs']) simp
qed

text \<open>After the timers: their task.\<close>

abbreviation timer_tcb :: "ptr \<Rightarrow> Tcb_t" where
  "timer_tcb update \<equiv> (new_tcb update TASK_CAT_OS 1 NULL PRTOS_CONFIG_TIMER_INTERVAL_RESOLUTION_MS)
     \<lparr>t_flags := TASK_FLAG_ESSENTIAL OR TASK_FLAG_NO_PREEM\<rparr>"

lemma timer_stage:
  fixes s :: "'a timer_state_scheme"
  assumes ok: "task_table s ts evs m" and q: "lists s TimerList = Some zero_list" and nest: "kr_kernel_mode_nest_counter (KernelReg s) < 254"
    and room: "9 \<le> m" "length ts < 255" "length evs < 255" "id_count s 1 < 0xFFFFFF"
  shows "\<exists>p t evs'. KTimerInit update s = Some (OS_RES_OK, t) \<and> unat (nid t p) = 2 ^ 24 + id_count s 1 \<and> KTidTimerUpdate t = nid t p \<and>
    task_table t (ts @ [p]) evs' (m - 9) \<and> p \<notin> objects s \<and> tcbs t = (tcbs s)(p \<mapsto> timer_tcb update) \<and> (\<forall>x \<in> set ts. nid t x = nid s x) \<and>
    map (nid t) evs' = queue_id (event_id (nid t p) TASK_EVENT_ACTIVATE) (map (nid s) evs) \<and> boot_view t = boot_view s \<and>
    lists t ExecutionQueue = lists s ExecutionQueue \<and> lists t TimerList = Some (zero_list\<lparr>ll_id_group := ID_GROUP_TIMER\<rparr>)"
proof -
  let ?u = "s\<lparr>lists := (lists s)(TimerList \<mapsto> zero_list\<lparr>ll_id_group := ID_GROUP_TIMER\<rparr>)\<rparr>"
  have ne: "TimerList \<noteq> LNULL" "TimerList \<notin> {TcbList, EventList}" "ExecutionQueue \<notin> {TimerList, TcbList, EventList}"
    by (simp_all add: TimerList_def EventList_def TcbList_def ExecutionQueue_def)
  have u: "task_table ?u ts evs m" by (rule task_table_cong [OF ok]) (use ne in auto)
  have o: "objects ?u = objects s" by (rule objects_cong; simp)
  let ?ps = "TASK_PARAMETER_NO_PREEM OR TASK_PARAMETER_START OR TASK_PARAMETER_ESSENTIAL"
  have ps: "param_flags ?ps = TASK_FLAG_ESSENTIAL OR TASK_FLAG_NO_PREEM" "OS_TASK_PRIO_LIMIT_LOW \<le> 1" "1 \<le> OS_TASK_PRIO_LIMIT_HIGH"
    by (simp_all add: param_flags_def TASK_PARAMETER_ESSENTIAL_def TASK_PARAMETER_START_def TASK_PARAMETER_NO_PREEM_def OS_TASK_PRIO_LIMIT_LOW_def
        OS_TASK_PRIO_LIMIT_HIGH_def)
  obtain p v evs' where v: "KernelTaskCreate update 1 TASK_PARAMETER_ESSENTIAL 0 NULL PRTOS_CONFIG_TIMER_INTERVAL_RESOLUTION_MS ?u = Some (nid v p, v)"
    "unat (nid v p) = 2 ^ 24 + id_count s 1" "task_table v (ts @ [p]) evs' (m - 9)" "p \<notin> objects s" "tcbs v = (tcbs s)(p \<mapsto> timer_tcb update)"
    "\<forall>x \<in> set ts. nid v x = nid s x" "map (nid v) evs' = queue_id (event_id (nid v p) TASK_EVENT_ACTIVATE) (map (nid s) evs)"
    "task_frame ?u v p (set ts \<union> set evs)"
    using KernelTaskCreate_ok [OF u ps(2,3) _ room(1-3), where handler = update and param = TASK_PARAMETER_ESSENTIAL and stack_size = 0 and arg = NULL
        and varg = PRTOS_CONFIG_TIMER_INTERVAL_RESOLUTION_MS] nest room(4) ps(1) o by (auto simp: nid_def id_count_def)
  let ?t = "v\<lparr>KTidTimerUpdate := nid v p\<rparr>"
  have "task_table ?t (ts @ [p]) evs' (m - 9)" by (rule task_table_cong [OF v(3)]) simp_all
  moreover have "nid v p \<noteq> ID_INVALID" using task_table_found [OF v(3), of p] by simp
  then have "KTimerInit update s = Some (OS_RES_OK, ?t)"
    using q ne v(1) by (simp add: KTimerInit_def ListInit_def ll_update_eq ll_at_def zero_list_def)
  moreover have "boot_view ?t = boot_view s" using v(8) by (auto simp: task_frame_def boot_view_def)
  moreover have "lists v ExecutionQueue = lists s ExecutionQueue" "lists v TimerList = Some (zero_list\<lparr>ll_id_group := ID_GROUP_TIMER\<rparr>)"
    using v(8) ne by (auto simp: task_frame_def ExecutionQueue_def TimerList_def)
  moreover have "nid ?t = nid v" by (simp add: fun_eq_iff nid_def)
  ultimately show ?thesis using v by (intro exI [of _ p] exI [of _ ?t] exI [of _ evs']) simp
qed

subsection \<open>The start-up as a whole\<close>

lemma boot_events: "event_id 0x01000001 TASK_EVENT_ACTIVATE \<noteq> event_id ID_INVALID MOCK_EVENT"
  by code_simp

text \<open>The register when the optional modules are set up.\<close>

definition booted_reg :: "ptr \<Rightarrow> Reg_t \<Rightarrow> Reg_t" where
  "booted_reg idle R = (boot_reg R)\<lparr>kr_tcb_list := TcbList, kr_tcb_wait_list := TcbWaitList, kr_tcb_idle := idle, kr_tcb_running := NULL,
     kr_event_list := EventList\<rparr>"

lemma task_table_boot:
  assumes "task_table s ts evs m" and "kr_lock R = 0" "kr_crit_sect_nest_counter R = 1" "kr_kernel_mode_nest_counter R = 1" "kr_sreg R = CORE_FLAG_KERNEL_MODE"
  shows "task_table (s\<lparr>KernelReg := R\<rparr>) ts evs m"
  by (rule task_table_reg [OF assms(1)]) (use assms(2-5) in \<open>simp_all add: crit_ok_def kernel_ok_def KCoreFlagGet_def mode_flag\<close>)

text \<open>From the tasks to the scheduler.\<close>

lemma lists_to_scheduler:
  fixes b :: "'a sched_state_scheme"
  assumes ok: "task_table b [idle] [] m" and m: "3 \<le> m" and b: "TcbIdle b = idle" "KernelReg b = boot_reg R"
    and q: "lists b ExecutionQueue = Some zero_list" "lists b TimerList = Some zero_list"
  shows "\<exists>d f x. EventInit (OsInit_lists b) = Some (OS_RES_OK, d) \<and> KernelReg d = (booted_reg idle R)\<lparr>kr_event_list := kr_event_list R\<rparr> \<and>
    KSchedulerInit EventList (d\<lparr>KernelReg := booted_reg idle R\<rparr>) = Some f \<and> task_table f [idle] [x] (m - 3) \<and>
    nid f x = event_id ID_INVALID MOCK_EVENT \<and> boot_view f = (booted_reg idle R, 3000, idle, KTidIdle b, EventList) \<and> tcbs f = tcbs b \<and>
    id_count f = id_count b \<and> nid f idle = nid b idle \<and> lists f ExecutionQueue = Some (zero_list\<lparr>ll_id_group := ID_GROUP_TASK\<rparr>) \<and>
    lists f TimerList = Some zero_list"
proof -
  define c where "c = OsInit_lists b"
  have c: "KernelReg c = (booted_reg idle R)\<lparr>kr_event_list := kr_event_list R\<rparr>"
    by (simp add: c_def OsInit_lists_def b KTcbListRefGet_def KTcbWaitListRefGet_def KTcbIdleGet_def booted_reg_def boot_reg_def)
  then have c1: "task_table c [idle] [] m"
    unfolding c_def OsInit_lists_def by (intro task_table_boot [OF ok]) (simp_all add: booted_reg_def boot_reg_def)
  define d where "d = c\<lparr>lists := (lists c)(EventList \<mapsto> zero_list), EmittedEventLifetimeUs := kr_tick_period_us (KernelReg c) * 3\<rparr>"
  note ev = event_stage [OF c1, folded d_def]
  define e where "e = d\<lparr>KernelReg := booted_reg idle R\<rparr>"
  have e: "task_table e [idle] [] m"
    unfolding e_def by (intro task_table_boot [OF ev(2)]) (simp_all add: booted_reg_def boot_reg_def)
  have ne: "ExecutionQueue \<noteq> EventList" "TimerList \<notin> {EventList, ExecutionQueue}"
    by (simp_all add: ExecutionQueue_def EventList_def TimerList_def)
  have be: "lists e ExecutionQueue = Some zero_list" "lists e TimerList = Some zero_list" "nid e = nid b" "tcbs e = tcbs b" "id_count e = id_count b"
    "KernelReg e = booted_reg idle R" "EmittedEventLifetimeUs e = 3000" "TcbIdle e = idle" "KTidIdle e = KTidIdle b"
    using b(1) q ne c by (simp_all add: e_def d_def c_def OsInit_lists_def fun_eq_iff nid_def id_count_def booted_reg_def boot_reg_def)
  obtain x f where "KSchedulerInit EventList e = Some f" "task_table f [idle] [x] (m - 3)" "nid f x = event_id ID_INVALID MOCK_EVENT"
    "boot_view f = (KernelReg e, EmittedEventLifetimeUs e, TcbIdle e, KTidIdle e, EventList)" "tcbs f = tcbs e" "id_count f = id_count e"
    "nid f idle = nid e idle" "lists f ExecutionQueue = Some (zero_list\<lparr>ll_id_group := ID_GROUP_TASK\<rparr>)" "lists f TimerList = lists e TimerList"
    using scheduler_stage [OF e be(1) m, of EventList] ne by auto
  moreover have "KernelReg d = KernelReg c" by (simp add: d_def)
  ultimately show ?thesis
    using ev(1) c be unfolding c_def e_def by (intro exI [of _ d] exI [of _ f] exI [of _ x]) simp
qed

text \<open>
  C2. From power-up, with the static lists zero, \<open>OsInit\<close> reaches its optional modules with everything before them set up: the
  tick of 1000 us in the register, interrupts off and kernel mode entered once; the idle task with the first ID of the tasks and the task of the timers
  with the second, in the list of tasks; two pending events, the mock event of the scheduler and the one that starts the task of the timers;
  an empty execution queue and an empty list of timers; 878 of the 896 blocks of the object pool left in one gap.
\<close>

theorem kernel_boots:
  fixes s :: "'a shell_state_scheme"
  assumes "heap \<noteq> NULL" and "length table = MEM_NUM_POOLS" and lists: "static_lists s"
  shows "\<exists>t idle timer x z. OsInit y heap table True s = map_option (\<lambda>(r, u). ((r, Some OS_RES_OK), u)) (OsInit_optional y OS_RES_OK t) \<and>
    boot_view t = (booted_reg idle (KernelReg s), 3000, idle, 0x01000000, EventList) \<and>
    task_table t [idle, timer] [x, z] 878 \<and> map (nid t) [idle, timer] = [0x01000000, 0x01000001] \<and> KTidTimerUpdate t = 0x01000001 \<and>
    tcbs t idle = Some (idle_tcb (sym_idle y)) \<and> tcbs t timer = Some (timer_tcb (sym_timer_update y)) \<and>
    map (nid t) [x, z] = [event_id ID_INVALID MOCK_EVENT, event_id 0x01000001 TASK_EVENT_ACTIVATE] \<and>
    lists t ExecutionQueue = Some (zero_list\<lparr>ll_id_group := ID_GROUP_TASK\<rparr>) \<and> lists t TimerList = Some (zero_list\<lparr>ll_id_group := ID_GROUP_TIMER\<rparr>)"
proof -
  let ?R = "KernelReg s"
  obtain s1 a where a: "OsInit_register s = Some s1"
    "KMemInit heap PRTOS_CONFIG_OS_HEAP_SIZE_BYTES PRTOS_CONFIG_USER_HEAP_SIZE_BYTES (Some table) (KIdInit s1) = Some (OS_RES_OK, a)"
    "objects_ok a 896" "objects a = {}" "lists a = lists s" "tcbs a = tcbs s" "KernelReg a = boot_reg (KernelReg s)" "IdPools a = IdPools (KIdInit s)"
    using memory_stage [OF assms] by blast
  have st: "static_lists a" using lists a(5) by (simp add: static_lists_def)
  have ids: "id_pools_ok a" "id_count a 1 = 0"
    using id_pools_ok_init [of s] a(8)
    by (simp_all add: id_pools_ok_def id_count_def) (simp add: KIdInit_def ID_GROUP_NUM_def ID_SHIFT_AMOUNT_GROUP_def upt_rec)
  obtain idle b where b: "KTaskInit (sym_idle y) a = Some (OS_RES_OK, b)" "task_table b [idle] [] 890" "TcbIdle b = idle" "KTidIdle b = nid b idle"
    "unat (nid b idle) = 2 ^ 24" "tcbs b = (tcbs a)(idle \<mapsto> idle_tcb (sym_idle y))" "id_count b 1 = 1" "lists b ExecutionQueue = Some zero_list"
    "lists b TimerList = Some zero_list" "KernelReg b = boot_reg ?R"
    using task_stage [OF a(3) st ids, of "sym_idle y"] a(7) by auto
  obtain d f x where f: "EventInit (OsInit_lists b) = Some (OS_RES_OK, d)" "KernelReg d = (booted_reg idle ?R)\<lparr>kr_event_list := kr_event_list ?R\<rparr>"
    "KSchedulerInit EventList (d\<lparr>KernelReg := booted_reg idle ?R\<rparr>) = Some f" "task_table f [idle] [x] 887" "nid f x = event_id ID_INVALID MOCK_EVENT"
    "boot_view f = (booted_reg idle ?R, 3000, idle, KTidIdle b, EventList)" "tcbs f = tcbs b" "id_count f = id_count b" "nid f idle = nid b idle"
    "lists f ExecutionQueue = Some (zero_list\<lparr>ll_id_group := ID_GROUP_TASK\<rparr>)" "lists f TimerList = Some zero_list"
    using lists_to_scheduler [OF b(2) _ b(3,10,8,9)] by auto
  obtain timer t evs where t: "KTimerInit (sym_timer_update y) f = Some (OS_RES_OK, t)" "unat (nid t timer) = 2 ^ 24 + 1" "KTidTimerUpdate t = nid t timer"
    "task_table t [idle, timer] evs 878" "timer \<notin> objects f" "tcbs t = (tcbs f)(timer \<mapsto> timer_tcb (sym_timer_update y))" "nid t idle = nid f idle"
    "map (nid t) evs = queue_id (event_id (nid t timer) TASK_EVENT_ACTIVATE) (map (nid f) [x])" "boot_view t = boot_view f"
    "lists t ExecutionQueue = lists f ExecutionQueue" "lists t TimerList = Some (zero_list\<lparr>ll_id_group := ID_GROUP_TIMER\<rparr>)"
  proof -
    have "kr_kernel_mode_nest_counter (KernelReg f) < 254" using f(6) by (simp add: boot_view_def booted_reg_def boot_reg_def)
    then show thesis using timer_stage [OF f(4,11), of "sym_timer_update y"] f(8) b(7) that by auto
  qed
  have ids: "nid t idle = 0x01000000" "nid t timer = 0x01000001" using t(2,7) b(5) f(9) by (simp_all add: word_unat_eq_iff)
  have "timer \<noteq> idle" using t(5) f(4) by (auto simp: task_table_def)
  moreover have "map (nid t) evs = [event_id ID_INVALID MOCK_EVENT, event_id 0x01000001 TASK_EVENT_ACTIVATE]"
    using t(8) f(5) boot_events ids by (simp add: queue_id_def)
  moreover from this obtain x' z where "evs = [x', z]" by (auto simp: map_eq_Cons_conv)
  moreover have "OsInit y heap table True s = map_option (\<lambda>(r, u). ((r, Some OS_RES_OK), u)) (OsInit_optional y OS_RES_OK t)"
  proof -
    have "(KernelReg d)\<lparr>kr_event_list := EventListRefGet\<rparr> = booted_reg idle ?R" "kr_event_list (booted_reg idle ?R) = EventList"
      by (simp_all add: f(2) booted_reg_def EventListRefGet_def)
    then show ?thesis
      using a(1,2) b(1) f(1,3) t(1) 
      by (cases "OsInit_optional y OS_RES_OK t") (simp_all add: OsInit_def Let_def EventListRefGet_def case_prod_beta)
  qed
  ultimately show ?thesis
    using t ids f b(4,5,6) by (intro exI [of _ t] exI [of _ idle] exI [of _ timer] exI [of _ x'] exI [of _ z]) auto
qed

subsection \<open>A concrete start-up\<close>

definition power_up :: shell_state where
  "power_up = shell_bss\<lparr>lists := (\<lambda>l. Some zero_list)\<rparr>"

definition sample_symbols :: symbols where
  "sample_symbols = \<lparr>sym_idle = 0x100, sym_timer_update = 0x200, sym_shell_parse = 0x300, sym_shell_execute = 0x400, sym_rx_buffer = 0x8000,
     sym_help_config = 0x500, sym_execute_config = 0x600, sym_execute_help = 0x700, sym_help_run = 0x800, sym_execute_run = 0x900\<rparr>"

theorem kernel_boots_witness:
  "\<exists>t idle timer x z. OsInit sample_symbols 0x20000000 (replicate 2 \<lparr>start_index = 7, end_index = 7, pool_size = 7, mem_left = 7, pmb_N = 0\<rparr>) True power_up =
     map_option (\<lambda>(r, u). ((r, Some OS_RES_OK), u)) (OsInit_optional sample_symbols OS_RES_OK t) \<and>
     task_table t [idle, timer] [x, z] 878 \<and> TcbIdle t = idle \<and> map (nid t) [idle, timer] = [0x01000000, 0x01000001]"
proof -
  have "static_lists power_up" by (simp add: static_lists_def power_up_def)
  from kernel_boots [OF _ _ this, of "0x20000000" "replicate 2 \<lparr>start_index = 7, end_index = 7, pool_size = 7, mem_left = 7, pmb_N = 0\<rparr>" sample_symbols]
  show ?thesis by (auto simp: MEM_NUM_POOLS_def boot_view_def)
qed

end
