(* ===== verification/Spec2Isabelle.thy ===== *)
theory Spec2Isabelle
  imports Crc32 RecursiveLock ListFifo System RunQueue TimerProps RingProps PollProps GroupProps HalUart PicUart PortHal Logger HexId AvrContext
    PortCalls SemProps TaskProps MessageProps ShellProps ShellOutput SwitchProps TaskCreateProps BootProps HeapStore
begin

text \<open>
  A verification library for PriorRTOS, a cooperative real-time kernel in C for microcontrollers.

  \<^bold>\<open>The program.\<close> The kernel is in \<^verbatim>\<open>src/source/kernel/src\<close>. \<^verbatim>\<open>Core.c\<close> owns the kernel register and drives everything:
  \<open>OsInit\<close> brings the modules up, and \<open>OsStart\<close> executes the handler of the running task and invokes the tick. A tick updates the run
  time and, in \<^verbatim>\<open>Scheduler.c\<close>, takes the emitted events one after the other (\<^verbatim>\<open>Event.c\<close>), compares them with what each
  task listens to (\<^verbatim>\<open>Task.c\<close>), and puts the tasks that become active into the execution queue in order of priority; then the core switches to
  its head. The objects that tasks share, such as timers, event groups, semaphores, mailboxes, ring buffers and message queues, are all made
  the same way: a block of the object pool (\<^verbatim>\<open>Memory.c\<close>) with a list node and an ID (\<^verbatim>\<open>IdType.c\<close>), kept in a list of its
  module (\<^verbatim>\<open>List.c\<close>); every change of an object emits an event, which is how a waiting task learns of it. The shell
  (\<^verbatim>\<open>Shell.c\<close>) reads commands from a ring buffer that the UART driver of a port fills.

  \<^bold>\<open>State.\<close> The static variables of the modules are the fields of one extensible record, grown module by module in the
  order in which they call each other: \<open>core_state\<close> (Core), \<open>id_state\<close> (IdType), \<open>mem_state\<close> (Memory), \<open>list_state\<close> (Lists),
  \<open>event_state\<close> (Event), \<open>task_state\<close> (Task), \<open>sched_state\<close> (Scheduler), \<open>timer_state\<close> (Timer), then the
  states of Eventgroup, Semaphore, Mailbox, Ringbuffer, Message, Kernel and Shell. An operation is a function from the state, polymorphic in the fields
  of later modules, to an option of its result and the new state. \<open>None\<close> is what C leaves undefined or what never returns: a null or
  dangling pointer, an index out of range, an endless loop. All other failures are result codes (\<open>OsResult_t\<close>), as in the code. Machine integers
  are words of their width. A pointer into the heap is its address, and the objects behind it are finite maps from addresses to records; a list is
  named by \<open>LStatic n\<close>, one of the static list headers, or \<open>LIn p\<close>, the list inside the object at \<open>p\<close>. The heap itself is an array of bytes in which
  the allocator keeps its size fields.

  \<^bold>\<open>Theories of the model\<close> (each names its source file in its own introduction):
  \<^item> Prelude: types, pointers, result codes, the collections \<open>kcore\<close>, \<open>klist\<close> and \<open>kmem\<close> of effect lemmas.
  \<^item> Core (\<^verbatim>\<open>Core.c\<close>, the register, critical sections, kernel mode, run time), Prescaler (the search for the prescaler of the tick,
    in single-precision arithmetic written out), Kernel (\<^verbatim>\<open>Core.c\<close>, tick, task switch, kernel tasks), System (\<^verbatim>\<open>OsInit\<close>,
    \<^verbatim>\<open>OsStart\<close>, the run loop).
  \<^item> IdType, Crc32, Fletcher, Convert and HexId, RecursiveLock: the files of these names.
  \<^item> Memory (\<^verbatim>\<open>Memory.c\<close>), Lists (\<^verbatim>\<open>List.c\<close>), Event, Task (with \<^verbatim>\<open>SystemCall.c\<close> and \<^verbatim>\<open>KernelTask.c\<close>), Scheduler,
    Timer, Eventgroup, Semaphore, Mailbox, Ringbuffer, Message, Shell (with the commands in \<^verbatim>\<open>shellcmd\<close>), ShellOutput (its output functions), Logger.
  \<^item> Ports: HalUart, PortHal and AvrContext (ATMega: UART, pins, converter, tick timer, the assembler of the context switch), PicUart (PIC32MX370), PortCalls
    (AT32UC3A and STM32F1xx, as sequences of calls into the library of the vendor).

  \<^bold>\<open>Theories of proofs.\<close>
  \<^item> Queue: the interface of a queue. The locale \<open>counted_queue\<close> fixes the two operations of a client and what a state represents, assumes the
    two laws, and proves that every sequence of operations answers as a list does; \<open>fifo_queue\<close> is the case without a budget. It is interpreted
    on lists (ListFifo), message queues (MessageProps) and the receive ring of the UART (HalUart). \<open>refined_calls\<close> is the interface of a module whose
    calls have results; it is interpreted on \<open>RingbufWrite\<close> and \<open>RingbufRead\<close> (RingProps), whose calls transfer any number of bytes. \<open>ready_queue\<close> (RunQueue) is
    the interface of a priority queue, interpreted on the execution queue; \<open>allocator\<close> (Allocator) that of a memory pool, interpreted on \<open>MemAlloc\<close>
    and \<open>MemFree\<close>; \<open>store\<close> (HeapStore) extends it by reads and writes of the bytes in a block.
  \<^item> Allocator, Pools, Objects, HeapStore: a pool is a sequence of free blocks and allocated segments that lies in the heap byte by byte (\<open>mem_wf\<close>). Allocation is first
    fit, release turns a segment back into free blocks, live allocations are disjoint and keep what is written into them; creation of pools keeps them apart. \<open>objects_ok s m\<close> is the state in which
    kernel objects can be created: \<open>m\<close> more blocks fit into one gap. \<open>object_slots s n\<close> counts the places for objects of three blocks, which is
    what a message or an event takes: since a release gives the place back, operations that do so can go on without end. Pools whose size is not a whole number
    of blocks are not covered by \<open>mem_wf\<close>, for the allocator itself miscounts them.
  \<^item> ListRep, ListOps, ListSearch, ListSorted, ListProps, ListFifo: a linked list as the sequence of its nodes (\<open>is_list\<close>), each operation on it as an operation on sequences
    with a frame (\<open>list_frame\<close>), search from either end, sorted insertion, and what goes wrong.
  \<^item> EventProps, PollProps, Access, GroupProps: the pending events as a queue of IDs without duplicates (\<open>events_ok\<close>), the comparison of an event with a
    listener, time-outs, and the access block that all modules share.
  \<^item> RunQueue, SwitchProps, TaskProps, TaskCreateProps: scheduling by priority, the task switch, priorities, creation of tasks (\<open>task_table\<close>). \<open>switch_ok\<close>
    is the state from which the tasks can be switched; a switch gives such a state again unless it takes the idle task while the middle pointer of the
    task list is on it. Tasks marked for deletion are left out there.
  \<^item> TimerProps, SemProps, MessageProps, RingProps, ShellProps, ShellOutput, and the port theories: the behaviour of these modules against specifications on lists and numbers.
  \<^item> BootProps: the start-up, which establishes the invariants above from the static storage at power-up.
  \<^item> Sample: the static storage with all fields zero, from which the concrete states of the witnesses are built.

  \<^bold>\<open>Loops.\<close> A loop whose end is evident from its counter is a structural recursion. Every other loop is a \<open>partial_function (option)\<close>, so not returning is
  \<open>None\<close>; each theorem on such code states the value that is returned, and where the code really does not return this is a theorem
  too (\<open>timer_all_return_iff_empty\<close>, \<open>KMemAllocObject_returns_iff\<close>, \<open>prescaler_found\<close>). Counters that bound a recursion occur in three places: the exponent of
  a single-precision number in Prescaler (300 steps, while the type has fewer exponents), the copy loops of ring buffers and UARTs (the length asked for),
  and the polling of hardware, where the parameter that answers the polls decides whether the loop ends.

  \<^bold>\<open>Parameters.\<close> Code outside the repository is an argument: handlers of tasks, callbacks of timers and shell commands, answers of
  hardware registers, positions of bits from the headers of a part, the text that \<^verbatim>\<open>printf\<close> makes of its arguments. Of the C library, \<^verbatim>\<open>memset\<close>,
  \<^verbatim>\<open>vsnprintf\<close> with its bound and \<^verbatim>\<open>sscanf\<close> with \<^verbatim>\<open>%08x\<close> are written out as the C standard has them. Pointers have 32 bits.

  \<^bold>\<open>Not modelled.\<close> What the configuration in \<^verbatim>\<open>src/config\<close> does not compile: pre-emptive scheduling (\<^verbatim>\<open>TaskWait\<close>, \<^verbatim>\<open>TaskSuspend\<close>, the pre-emptive
  tick, which has no body), names of tasks, checksums of memory pools, the log ring buffer. The watchdog functions of \<^verbatim>\<open>Core.c\<close>
  only call the port. Log lines have no effect on the state and are left out of the operations that print them. \<^verbatim>\<open>AccessControl.h\<close> and \<^verbatim>\<open>KernelModule.h\<close> declare functions that do not exist; the SPI
  and timer drivers of the ATMega and the watchdog files of two ports are empty; \<^verbatim>\<open>PortLogger.c\<close> of the AT32UC3A does not
  compile. The example application, the tests and the vendored test framework are not part of the program.

  The kernel is built as it is configured; several of its functions do not do what they are meant to. The definitions have this behaviour as
  the code has it, and the theorems state it: for instance the middle pointer of a list that is left on a removed node
  (\<open>ListNodeRemove_unlinks\<close>), a semaphore that works once (\<open>semaphore_works_once\<close>), events that are lost because their hash collides
  (\<open>event_lost_by_collision\<close>), a ring buffer that is broken by a write into its last place or a read of too much (\<open>ring_overwrites_the_oldest\<close>, \<open>ring_overread_loses_a_byte\<close>), and a list that stays locked after printing (\<open>ListPrintToBuffer_locks\<close>).
\<close>

end
